(* ===== verification/Prelude.thy ===== *)
theory Prelude
  imports Main
begin

text \<open>
  The shared vocabulary of the development: fallible results, JavaScript values and the parts of the
  language's string library the sources call, the tables of the relational store, and the locales
  that state the interfaces between components.

  Strings. A JavaScript string is a list of UTF-16 code units. The model uses \<^typ>\<open>string\<close>, whose
  characters are the code units 0 to 255; code units above 255 are outside the model. Whitespace,
  case conversion and the UTF-8 length below are those of the language on that range.

  Numbers. \<open>JNum n\<close> is a number with an integer value; \<open>JFrac d\<close> is a number with no integer value
  (a fraction or an infinity), identified by its decimal text, and \<open>JNaN\<close> is the number NaN.
\<close>

section \<open>Collections of rewrite rules\<close>

named_theorems res_simps \<open>results: success and failure of composed fallible steps\<close>
named_theorems tbl_simps \<open>tables: membership after insert, patch and delete\<close>

section \<open>Fallible results\<close>

definition rbind :: "'e + 'a \<Rightarrow> ('a \<Rightarrow> 'e + 'b) \<Rightarrow> 'e + 'b" where
  "rbind m f = (case m of Inl e \<Rightarrow> Inl e | Inr x \<Rightarrow> f x)"

definition rguard :: "bool \<Rightarrow> 'e \<Rightarrow> 'e + unit" where
  "rguard ok e = (if ok then Inr () else Inl e)"

fun rmap :: "('a \<Rightarrow> 'e + 'b) \<Rightarrow> 'a list \<Rightarrow> 'e + 'b list" where
  "rmap f [] = Inr []"
| "rmap f (x # xs) = rbind (f x) (\<lambda>y. rbind (rmap f xs) (\<lambda>ys. Inr (y # ys)))"

fun rfold :: "('a \<Rightarrow> 's \<Rightarrow> 'e + 's) \<Rightarrow> 'a list \<Rightarrow> 's \<Rightarrow> 'e + 's" where
  "rfold f [] s = Inr s"
| "rfold f (x # xs) s = rbind (f x s) (rfold f xs)"

lemma rbind_simps [simp]:
  "rbind (Inl e) f = Inl e"
  "rbind (Inr x) f = f x"
  by (simp_all add: rbind_def)

lemma rbind_Inr [res_simps]: "rbind m f = Inr y \<longleftrightarrow> (\<exists>x. m = Inr x \<and> f x = Inr y)"
  by (cases m) auto

lemma rbind_Inl [res_simps]: "rbind m f = Inl e \<longleftrightarrow> m = Inl e \<or> (\<exists>x. m = Inr x \<and> f x = Inl e)"
  by (cases m) auto

lemma rbind_cong [fundef_cong]:
  "m = m' \<Longrightarrow> (\<And>x. m' = Inr x \<Longrightarrow> f x = f' x) \<Longrightarrow> rbind m f = rbind m' f'"
  by (cases m') auto

lemma rguard_simps [simp]:
  "rguard True e = Inr ()"
  "rguard False e = Inl e"
  by (simp_all add: rguard_def)

lemma rguard_Inr [res_simps]: "rguard ok e = Inr u \<longleftrightarrow> ok"
  by (simp add: rguard_def)

lemma rguard_Inl [res_simps]: "rguard ok e = Inl e' \<longleftrightarrow> \<not> ok \<and> e' = e"
  by (auto simp: rguard_def)

lemma rmap_cong [fundef_cong]:
  "xs = ys \<Longrightarrow> (\<And>x. x \<in> set ys \<Longrightarrow> f x = g x) \<Longrightarrow> rmap f xs = rmap g ys"
  by (induction ys arbitrary: xs) (auto intro!: rbind_cong)

lemma rmap_Inr_length: "rmap f xs = Inr ys \<Longrightarrow> length ys = length xs"
  by (induction xs arbitrary: ys) (auto simp: res_simps)

lemma rmap_Inr_all2: "rmap f xs = Inr ys \<longleftrightarrow> list_all2 (\<lambda>x y. f x = Inr y) xs ys"
  by (induction xs arbitrary: ys) (auto simp: res_simps list_all2_Cons1)

lemma rmap_Inr_set: "rmap f xs = Inr ys \<Longrightarrow> y \<in> set ys \<Longrightarrow> \<exists>x \<in> set xs. f x = Inr y"
  by (induction xs arbitrary: ys) (auto simp: res_simps)

lemma rmap_id: "(\<And>x. x \<in> set xs \<Longrightarrow> f x = Inr (g x)) \<Longrightarrow> rmap f xs = Inr (map g xs)"
  by (induction xs) auto

lemma rbind_assoc: "rbind (rbind m f) g = rbind m (\<lambda>x. rbind (f x) g)"
  by (cases m) auto

lemma rbind_Inr_right [simp]: "rbind m Inr = m"
  by (cases m) auto

lemma rfold_append: "rfold f (xs @ ys) s = rbind (rfold f xs s) (rfold f ys)"
  by (induction xs arbitrary: s) (auto simp: rbind_assoc intro!: rbind_cong)

lemma rfold_Nil: "rfold f [] = Inr"
  by (rule ext) simp

lemma rfold_single: "rfold f [x] = f x"
  by (rule ext) (simp add: rfold_Nil)

lemma rmap_embed: "(\<And>x. x \<in> set xs \<Longrightarrow> f (g x) = Inr x) \<Longrightarrow> rmap f (map g xs) = Inr xs"
  by (induction xs) auto

lemma rfold_inv:
  assumes "rfold f xs s = Inr t" and "P s"
    and "\<And>x s t. x \<in> set xs \<Longrightarrow> P s \<Longrightarrow> f x s = Inr t \<Longrightarrow> P t"
  shows "P t"
  using assms
proof (induction xs arbitrary: s)
  case Nil
  then show ?case by simp
next
  case (Cons x xs)
  from Cons.prems(1) obtain u where u: "f x s = Inr u" "rfold f xs u = Inr t"
    by (auto simp: res_simps)
  have "P u" using Cons.prems(2,3) u(1) by (meson list.set_intros(1))
  with u(2) show ?case using Cons.IH Cons.prems(3) by (meson list.set_intros(2))
qed

section \<open>Lists: JavaScript sets keep the first occurrence\<close>

definition dedup :: "'a list \<Rightarrow> 'a list" where
  "dedup xs = rev (remdups (rev xs))"

lemma set_dedup [simp]: "set (dedup xs) = set xs"
  by (simp add: dedup_def)

lemma distinct_dedup [simp]: "distinct (dedup xs)"
  by (simp add: dedup_def)

lemma dedup_distinct [simp]: "distinct xs \<Longrightarrow> dedup xs = xs"
  by (simp add: dedup_def distinct_remdups_id)

lemma length_dedup_le: "length (dedup xs) \<le> length xs"
  by (metis dedup_def length_remdups_leq length_rev)

section \<open>Strings\<close>

definition code :: "char \<Rightarrow> nat" where
  "code c = of_char c"

definition code_between :: "nat \<Rightarrow> nat \<Rightarrow> char \<Rightarrow> bool" where
  "code_between lo hi c \<longleftrightarrow> lo \<le> code c \<and> code c \<le> hi"

definition is_digit :: "char \<Rightarrow> bool" where
  "is_digit c = code_between 48 57 c"

definition is_upper :: "char \<Rightarrow> bool" where
  "is_upper c = code_between 65 90 c"

definition is_lower :: "char \<Rightarrow> bool" where
  "is_lower c = code_between 97 122 c"

definition is_alpha :: "char \<Rightarrow> bool" where
  "is_alpha c \<longleftrightarrow> is_upper c \<or> is_lower c"

definition is_alnum :: "char \<Rightarrow> bool" where
  "is_alnum c \<longleftrightarrow> is_alpha c \<or> is_digit c"

text \<open>White space and line terminators of the language below code unit 256.\<close>

definition is_ws :: "char \<Rightarrow> bool" where
  "is_ws c \<longleftrightarrow> code_between 9 13 c \<or> code c = 32 \<or> code c = 160"

text \<open>The Unicode category Cc: C0 controls, DEL and C1 controls.\<close>

definition is_control :: "char \<Rightarrow> bool" where
  "is_control c \<longleftrightarrow> code c \<le> 31 \<or> code_between 127 159 c"

definition js_trim :: "string \<Rightarrow> string" where
  "js_trim s = rev (dropWhile is_ws (rev (dropWhile is_ws s)))"

definition lower_char :: "char \<Rightarrow> char" where
  "lower_char c = (if is_upper c \<or> (code_between 192 222 c \<and> code c \<noteq> 215)
     then char_of (code c + 32) else c)"

definition js_lower :: "string \<Rightarrow> string" where
  "js_lower s = map lower_char s"

text \<open>Upper case: the sharp s becomes two letters; the two code units whose capital lies beyond the
  modelled range (181 and 255) are left as they are.\<close>

definition upper_char :: "char \<Rightarrow> string" where
  "upper_char c = (if code c = 223 then ''SS''
     else if is_lower c \<or> (code_between 224 254 c \<and> code c \<noteq> 247) then [char_of (code c - 32)]
     else [c])"

definition js_upper :: "string \<Rightarrow> string" where
  "js_upper s = concat (map upper_char s)"

definition starts_with :: "string \<Rightarrow> string \<Rightarrow> bool" where
  "starts_with s p \<longleftrightarrow> take (length p) s = p"

definition ends_with :: "string \<Rightarrow> string \<Rightarrow> bool" where
  "ends_with s p \<longleftrightarrow> starts_with (rev s) (rev p)"

fun has_infix :: "string \<Rightarrow> string \<Rightarrow> bool" where
  "has_infix [] p \<longleftrightarrow> p = []"
| "has_infix (c # s) p \<longleftrightarrow> starts_with (c # s) p \<or> has_infix s p"

fun split_char :: "char \<Rightarrow> string \<Rightarrow> string list" where
  "split_char c [] = [[]]"
| "split_char c (x # xs) =
     (if x = c then [] # split_char c xs
      else (case split_char c xs of [] \<Rightarrow> [[x]] | y # ys \<Rightarrow> (x # y) # ys))"

fun js_join :: "string \<Rightarrow> string list \<Rightarrow> string" where
  "js_join sep [] = []"
| "js_join sep [x] = x"
| "js_join sep (x # y # ys) = x @ sep @ js_join sep (y # ys)"

text \<open>The number of bytes of the UTF-8 form.\<close>

definition utf8_length :: "string \<Rightarrow> nat" where
  "utf8_length s = sum_list (map (\<lambda>c. if code c < 128 then 1 else 2) s)"

fun nat_str :: "nat \<Rightarrow> string" where
  "nat_str n = (if n < 10 then [char_of (48 + n)] else nat_str (n div 10) @ [char_of (48 + n mod 10)])"

definition int_str :: "int \<Rightarrow> string" where
  "int_str i = (if i < 0 then ''-'' @ nat_str (nat (- i)) else nat_str (nat i))"

definition digits_value :: "string \<Rightarrow> nat" where
  "digits_value s = foldl (\<lambda>v c. 10 * v + (code c - 48)) 0 s"

declare nat_str.simps [simp del]

lemma digits_value_snoc: "digits_value (s @ [c]) = 10 * digits_value s + (code c - 48)"
  by (simp add: digits_value_def)

lemma code_digit: "n < 10 \<Longrightarrow> code (char_of (48 + n)) = 48 + n"
  by (simp add: code_def)

lemma nat_str_spec: "nat_str n \<noteq> [] \<and> list_all is_digit (nat_str n) \<and> digits_value (nat_str n) = n"
proof (induction n rule: nat_str.induct)
  case (1 n)
  show ?case
  proof (cases "n < 10")
    case True
    then show ?thesis
      by (simp add: nat_str.simps [of n] is_digit_def code_between_def code_digit digits_value_def)
  next
    case False
    with 1 show ?thesis
      by (simp add: nat_str.simps [of n] is_digit_def code_between_def code_digit digits_value_snoc)
  qed
qed

lemmas nat_str_facts [simp] = nat_str_spec [THEN conjunct1] nat_str_spec [THEN conjunct2, THEN conjunct1]
  nat_str_spec [THEN conjunct2, THEN conjunct2]

lemma nat_str_hd: "0 < n \<Longrightarrow> hd (nat_str n) \<noteq> CHR ''0''"
proof (induction n rule: nat_str.induct)
  case (1 n)
  show ?case
  proof (cases "n < 10")
    case True
    have "code (CHR ''0'') = 48" by (simp add: code_def)
    with True 1(2) show ?thesis by (metis code_digit add.commute add_cancel_right_left list.sel(1) nat_str.simps less_numeral_extra(3))
  next
    case False
    then have "hd (nat_str n) = hd (nat_str (n div 10))" by (simp add: nat_str.simps [of n] hd_append)
    with False 1 show ?thesis by simp
  qed
qed

lemma nat_str_inj: "nat_str m = nat_str n \<Longrightarrow> m = n"
  by (metis nat_str_spec)

lemma split_char_nonempty [simp]: "split_char c s \<noteq> []"
  by (induction s) (auto split: list.splits)

lemma js_join_Cons_Cons: "ys \<noteq> [] \<Longrightarrow> js_join sep (x # ys) = x @ sep @ js_join sep ys"
  by (cases ys) auto

lemma js_join_split: "js_join [c] (split_char c s) = s"
proof (induction s)
  case Nil
  then show ?case by simp
next
  case (Cons x s)
  obtain y ys where y: "split_char c s = y # ys"
    by (cases "split_char c s") auto
  with Cons show ?case
    by (cases ys) auto
qed

lemma split_char_notin: "part \<in> set (split_char c s) \<Longrightarrow> c \<notin> set part"
proof (induction s arbitrary: part)
  case Nil
  then show ?case by simp
next
  case (Cons x s)
  then show ?case by (auto split: if_splits list.splits)
qed

lemma split_char_no_sep [simp]: "c \<notin> set s \<Longrightarrow> split_char c s = [s]"
  by (induction s) auto

lemma split_char_append: "c \<notin> set a \<Longrightarrow> split_char c (a @ c # b) = a # split_char c b"
  by (induction a) auto

lemma split_char_join:
  assumes "xs \<noteq> []" and "\<forall>x \<in> set xs. c \<notin> set x"
  shows "split_char c (js_join [c] xs) = xs"
  using assms
proof (induction "[c]" xs rule: js_join.induct)
  case 1
  then show ?case by simp
next
  case (2 x)
  then show ?case by simp
next
  case (3 x y ys)
  then show ?case by (simp add: split_char_append)
qed

lemma split_char_concat:
  "split_char c (s @ t) = butlast (split_char c s) @ split_char c (last (split_char c s) @ t)"
proof (induction s)
  case Nil
  then show ?case by simp
next
  case (Cons x s)
  obtain y ys where y: "split_char c s = y # ys" by (cases "split_char c s") auto
  with Cons show ?case by (cases "ys = []") (auto split: list.splits)
qed

lemma split_char_single_Nil: "split_char c s = [[]] \<longleftrightarrow> s = []"
  by (metis js_join.simps(2) js_join_split split_char.simps(1))

lemma utf8_length_append [simp]: "utf8_length (s @ t) = utf8_length s + utf8_length t"
  by (simp add: utf8_length_def)

lemma utf8_length_Nil [simp]: "utf8_length [] = 0"
  by (simp add: utf8_length_def)

lemma utf8_length_Cons: "utf8_length (c # s) = (if code c < 128 then 1 else 2) + utf8_length s"
  by (simp add: utf8_length_def)

lemma js_trim_idem [simp]: "js_trim (js_trim s) = js_trim s"
proof -
  have rdrop: "dropWhile is_ws (rev (dropWhile is_ws (rev t))) = rev (dropWhile is_ws (rev t))"
    if "dropWhile is_ws t = t" for t
  proof (cases "rev (dropWhile is_ws (rev t))")
    case Nil
    then show ?thesis by (simp only: dropWhile.simps)
  next
    case (Cons a as)
    have "t = rev (dropWhile is_ws (rev t)) @ rev (takeWhile is_ws (rev t))"
      by (metis rev_append rev_rev_ident takeWhile_dropWhile_id)
    then have "t = a # as @ rev (takeWhile is_ws (rev t))" using Cons by simp
    with that have "\<not> is_ws a" by (metis dropWhile_eq_self_iff list.distinct(1) list.sel(1))
    with Cons show ?thesis by simp
  qed
  define t where "t = dropWhile is_ws s"
  have t: "dropWhile is_ws t = t" by (simp add: t_def)
  have "js_trim s = rev (dropWhile is_ws (rev t))" by (simp add: js_trim_def t_def)
  then show ?thesis using rdrop [OF t] by (simp add: js_trim_def)
qed

lemma lower_char_idem [simp]: "lower_char (lower_char c) = lower_char c"
proof (cases "is_upper c \<or> (code_between 192 222 c \<and> code c \<noteq> 215)")
  case True
  have "code (char_of (code c + 32)) = code c + 32"
    using True by (auto simp: code_def is_upper_def code_between_def)
  with True show ?thesis
    by (auto simp: lower_char_def is_upper_def code_between_def)
next
  case False
  then have "lower_char c = c" unfolding lower_char_def by (rule if_not_P)
  then show ?thesis by simp
qed

lemma js_lower_idem [simp]: "js_lower (js_lower s) = js_lower s"
  by (simp add: js_lower_def)

lemma length_js_lower [simp]: "length (js_lower s) = length s"
  by (simp add: js_lower_def)

lemma js_lower_Nil_iff [simp]: "js_lower s = [] \<longleftrightarrow> s = []" "[] = js_lower s \<longleftrightarrow> s = []"
  by (auto simp: js_lower_def)

end
