(* ===== verification/JS_Value.thy ===== *)
theory JS_Value
  imports Prelude
begin

text \<open>
  The JavaScript values a request body, a decoded JSON column or an imported document can hold, with
  the operations the sources apply to them: \<open>typeof\<close> tests, truthiness, property reads and writes,
  object spread, \<open>Object.keys\<close>, \<open>Object.hasOwn\<close> and the nullish operator. An object is the list of
  its own properties in insertion order.
\<close>

datatype jsval =
    Undef
  | Null
  | JBool bool
  | JNum int
  | JFrac string
  | JNaN
  | JStr string
  | JArr "jsval list"
  | JObj "(string \<times> jsval) list"

fun truthy :: "jsval \<Rightarrow> bool" where
  "truthy Undef = False"
| "truthy Null = False"
| "truthy (JBool b) = b"
| "truthy (JNum n) = (n \<noteq> 0)"
| "truthy (JFrac _) = True"
| "truthy JNaN = False"
| "truthy (JStr s) = (s \<noteq> [])"
| "truthy (JArr _) = True"
| "truthy (JObj _) = True"

fun is_str :: "jsval \<Rightarrow> bool" where
  "is_str (JStr _) = True"
| "is_str _ = False"

fun is_bool :: "jsval \<Rightarrow> bool" where
  "is_bool (JBool _) = True"
| "is_bool _ = False"

fun is_arr :: "jsval \<Rightarrow> bool" where
  "is_arr (JArr _) = True"
| "is_arr _ = False"

text \<open>\<open>value && typeof value === "object" && !Array.isArray(value)\<close>\<close>

fun is_obj :: "jsval \<Rightarrow> bool" where
  "is_obj (JObj _) = True"
| "is_obj _ = False"

text \<open>\<open>Number.isInteger\<close> and \<open>Number.isSafeInteger\<close>\<close>

fun is_integer :: "jsval \<Rightarrow> bool" where
  "is_integer (JNum _) = True"
| "is_integer _ = False"

definition MAX_SAFE_INTEGER :: int where
  "MAX_SAFE_INTEGER = 9007199254740991"

fun is_safe_integer :: "jsval \<Rightarrow> bool" where
  "is_safe_integer (JNum n) = (\<bar>n\<bar> \<le> MAX_SAFE_INTEGER)"
| "is_safe_integer _ = False"

fun str_of :: "jsval \<Rightarrow> string" where
  "str_of (JStr s) = s"
| "str_of _ = []"

fun int_of :: "jsval \<Rightarrow> int" where
  "int_of (JNum n) = n"
| "int_of _ = 0"

fun bool_of :: "jsval \<Rightarrow> bool" where
  "bool_of (JBool b) = b"
| "bool_of _ = False"

fun arr_of :: "jsval \<Rightarrow> jsval list" where
  "arr_of (JArr xs) = xs"
| "arr_of _ = []"

fun obj_of :: "jsval \<Rightarrow> (string \<times> jsval) list" where
  "obj_of (JObj kvs) = kvs"
| "obj_of _ = []"

section \<open>Objects\<close>

definition props_get :: "(string \<times> jsval) list \<Rightarrow> string \<Rightarrow> jsval" where
  "props_get kvs k = (case map_of kvs k of None \<Rightarrow> Undef | Some v \<Rightarrow> v)"

definition js_get :: "jsval \<Rightarrow> string \<Rightarrow> jsval" where
  "js_get v k = props_get (obj_of v) k"

definition js_keys :: "jsval \<Rightarrow> string list" where
  "js_keys v = map fst (obj_of v)"

definition has_own :: "jsval \<Rightarrow> string \<Rightarrow> bool" where
  "has_own v k \<longleftrightarrow> k \<in> set (js_keys v)"

fun props_set :: "string \<Rightarrow> jsval \<Rightarrow> (string \<times> jsval) list \<Rightarrow> (string \<times> jsval) list" where
  "props_set k v [] = [(k, v)]"
| "props_set k v ((k', v') # kvs) =
     (if k = k' then (k, v) # kvs else (k', v') # props_set k v kvs)"

text \<open>\<open>{ ...a, ...b }\<close>: the properties of \<open>b\<close> overwrite those of \<open>a\<close>.\<close>

definition props_merge :: "(string \<times> jsval) list \<Rightarrow> (string \<times> jsval) list \<Rightarrow> (string \<times> jsval) list" where
  "props_merge a b = foldl (\<lambda>acc kv. props_set (fst kv) (snd kv) acc) a b"

definition props_omit :: "string list \<Rightarrow> (string \<times> jsval) list \<Rightarrow> (string \<times> jsval) list" where
  "props_omit names kvs = filter (\<lambda>kv. fst kv \<notin> set names) kvs"

text \<open>\<open>value ?? fallback\<close>\<close>

definition nullish :: "jsval \<Rightarrow> jsval \<Rightarrow> jsval" where
  "nullish v d = (if v = Undef \<or> v = Null then d else v)"

text \<open>\<open>value === undefined ? fallback : value\<close>\<close>

definition if_undef :: "jsval \<Rightarrow> jsval \<Rightarrow> jsval" where
  "if_undef v d = (if v = Undef then d else v)"

section \<open>Conversions\<close>

text \<open>\<open>Number(value)\<close>. A decimal literal with a fraction or an exponent is an integer when its value is one.
  Integers beyond the safe range keep their exact value.\<close>

definition hex_val :: "char \<Rightarrow> nat option" where
  "hex_val c = (if is_digit c then Some (code c - 48)
     else if code_between 97 102 c then Some (code c - 87)
     else if code_between 65 70 c then Some (code c - 55) else None)"

definition radix_number :: "nat \<Rightarrow> string \<Rightarrow> jsval" where
  "radix_number b s =
     (if s \<noteq> [] \<and> (\<forall>c \<in> set s. \<exists>d < b. hex_val c = Some d)
      then JNum (int (foldl (\<lambda>v c. b * v + (case hex_val c of Some d \<Rightarrow> d | None \<Rightarrow> 0)) 0 s)) else JNaN)"

definition exponent_of :: "string \<Rightarrow> int option" where
  "exponent_of s =
     (case s of [] \<Rightarrow> Some 0
      | c # t \<Rightarrow>
          if c \<noteq> CHR ''e'' \<and> c \<noteq> CHR ''E'' then None
          else (let neg = starts_with t ''-'';
                    ds = (if neg \<or> starts_with t ''+'' then tl t else t)
                in if ds \<noteq> [] \<and> list_all is_digit ds
                   then Some (if neg then - int (digits_value ds) else int (digits_value ds)) else None))"

definition decimal_number :: "string \<Rightarrow> jsval" where
  "decimal_number s =
     (let ip = takeWhile is_digit s; r = dropWhile is_digit s;
          dot = starts_with r ''.'';
          fp = (if dot then takeWhile is_digit (tl r) else []);
          r2 = (if dot then dropWhile is_digit (tl r) else r);
          m = int (digits_value (ip @ fp))
      in if ip @ fp = [] then JNaN
         else case exponent_of r2 of
           None \<Rightarrow> JNaN
         | Some e \<Rightarrow>
             (let k = e - int (length fp)
              in if 0 \<le> k then JNum (m * 10 ^ nat k)
                 else if m mod 10 ^ nat (- k) = 0 then JNum (m div 10 ^ nat (- k)) else JFrac s))"

definition string_number :: "string \<Rightarrow> jsval" where
  "string_number text =
     (let s = js_trim text; neg = starts_with s ''-'';
          body = (if neg \<or> starts_with s ''+'' then tl s else s)
      in if s = [] then JNum 0
         else if starts_with s ''0x'' \<or> starts_with s ''0X'' then radix_number 16 (drop 2 s)
         else if starts_with s ''0o'' \<or> starts_with s ''0O'' then radix_number 8 (drop 2 s)
         else if starts_with s ''0b'' \<or> starts_with s ''0B'' then radix_number 2 (drop 2 s)
         else if body = ''Infinity'' then JFrac s
         else case decimal_number body of
           JNum n \<Rightarrow> JNum (if neg then - n else n)
         | JFrac _ \<Rightarrow> JFrac s
         | v \<Rightarrow> v)"

fun js_number :: "jsval \<Rightarrow> jsval" where
  "js_number Undef = JNaN"
| "js_number Null = JNum 0"
| "js_number (JBool b) = JNum (if b then 1 else 0)"
| "js_number (JNum n) = JNum n"
| "js_number (JFrac d) = JFrac d"
| "js_number JNaN = JNaN"
| "js_number (JStr s) = string_number s"
| "js_number (JArr []) = JNum 0"
| "js_number (JArr [x]) = (case x of Undef \<Rightarrow> JNum 0 | JBool _ \<Rightarrow> JNaN | _ \<Rightarrow> js_number x)"
| "js_number (JArr (x # y # xs)) = JNaN"
| "js_number (JObj _) = JNaN"

text \<open>\<open>String(value)\<close>, as in a template literal.\<close>

fun js_string :: "jsval \<Rightarrow> string" where
  "js_string Undef = ''undefined''"
| "js_string Null = ''null''"
| "js_string (JBool b) = (if b then ''true'' else ''false'')"
| "js_string (JNum n) = int_str n"
| "js_string (JFrac d) = d"
| "js_string JNaN = ''NaN''"
| "js_string (JStr s) = s"
| "js_string (JArr xs) = js_join '','' (map (\<lambda>x. if x = Undef \<or> x = Null then [] else js_string x) xs)"
| "js_string (JObj _) = ''[object Object]''"

text \<open>\<open>JSON.stringify\<close>. An undefined property is left out and an undefined array element is null.\<close>

definition hex_digit :: "nat \<Rightarrow> char" where
  "hex_digit n = ''0123456789abcdef'' ! n"

definition json_char :: "char \<Rightarrow> string" where
  "json_char c =
     (if c = CHR 0x22 then [CHR 0x5C, CHR 0x22]
      else if c = CHR 0x5C then [CHR 0x5C, CHR 0x5C]
      else if code c = 8 then [CHR 0x5C, CHR ''b'']
      else if code c = 9 then [CHR 0x5C, CHR ''t'']
      else if code c = 10 then [CHR 0x5C, CHR ''n'']
      else if code c = 12 then [CHR 0x5C, CHR ''f'']
      else if code c = 13 then [CHR 0x5C, CHR ''r'']
      else if code c < 32 then [CHR 0x5C, CHR ''u'', CHR ''0'', CHR ''0'', hex_digit (code c div 16), hex_digit (code c mod 16)]
      else [c])"

definition json_string :: "string \<Rightarrow> string" where
  "json_string s = [CHR 0x22] @ concat (map json_char s) @ [CHR 0x22]"

fun json_text :: "jsval \<Rightarrow> string" where
  "json_text Undef = ''null''"
| "json_text Null = ''null''"
| "json_text (JBool b) = (if b then ''true'' else ''false'')"
| "json_text (JNum n) = int_str n"
| "json_text (JFrac d) = (if ends_with d ''Infinity'' then ''null'' else d)"
| "json_text JNaN = ''null''"
| "json_text (JStr s) = json_string s"
| "json_text (JArr xs) = ''['' @ js_join '','' (map json_text xs) @ '']''"
| "json_text (JObj kvs) = ''{'' @ js_join '','' (map (\<lambda>kv. json_string (fst kv) @ '':'' @ json_text (snd kv))
     (filter (\<lambda>kv. snd kv \<noteq> Undef) kvs)) @ ''}''"

section \<open>Lemmas\<close>

lemma props_get_Nil [simp]: "props_get [] k = Undef"
  by (simp add: props_get_def)

lemma props_get_Cons [simp]: "props_get ((k', v) # kvs) k = (if k = k' then v else props_get kvs k)"
  by (simp add: props_get_def)

lemma props_get_set [simp]: "props_get (props_set k v kvs) k' = (if k' = k then v else props_get kvs k')"
  by (induction kvs) auto

lemma props_get_omit [simp]:
  "props_get (props_omit names kvs) k = (if k \<in> set names then Undef else props_get kvs k)"
  by (induction kvs) (auto simp: props_omit_def)

lemma keys_props_set: "fst ` set (props_set k v kvs) = insert k (fst ` set kvs)"
  by (induction k v kvs rule: props_set.induct) (simp_all add: insert_commute)

lemma distinct_props_set:
  "distinct (map fst kvs) \<Longrightarrow> distinct (map fst (props_set k v kvs))"
  by (induction kvs) (auto simp: keys_props_set)

lemma props_get_notin: "k \<notin> fst ` set kvs \<Longrightarrow> props_get kvs k = Undef"
  by (induction kvs) auto

lemma props_get_merge:
  "distinct (map fst b) \<Longrightarrow>
     props_get (props_merge a b) k = (if k \<in> fst ` set b then props_get b k else props_get a k)"
proof (induction b arbitrary: a)
  case Nil
  then show ?case by (simp add: props_merge_def)
next
  case (Cons kv b)
  obtain k' v' where kv: "kv = (k', v')" by (cases kv)
  have step: "props_merge a ((k', v') # b) = props_merge (props_set k' v' a) b"
    by (simp add: props_merge_def)
  from Cons.prems Cons.IH [of "props_set k' v' a"] show ?case
    by (simp add: step kv)
qed

lemma js_get_simps [simp]:
  "js_get (JObj kvs) k = props_get kvs k"
  by (simp add: js_get_def)

lemma js_keys_JObj [simp]: "js_keys (JObj kvs) = map fst kvs"
  by (simp add: js_keys_def)

lemma is_strE: "is_str v \<Longrightarrow> (\<And>s. v = JStr s \<Longrightarrow> P) \<Longrightarrow> P"
  by (cases v) auto

lemma is_boolE: "is_bool v \<Longrightarrow> (\<And>b. v = JBool b \<Longrightarrow> P) \<Longrightarrow> P"
  by (cases v) auto

lemma is_integerE: "is_integer v \<Longrightarrow> (\<And>n. v = JNum n \<Longrightarrow> P) \<Longrightarrow> P"
  by (cases v) auto

lemma is_arrE: "is_arr v \<Longrightarrow> (\<And>xs. v = JArr xs \<Longrightarrow> P) \<Longrightarrow> P"
  by (cases v) auto

lemma is_objE: "is_obj v \<Longrightarrow> (\<And>kvs. v = JObj kvs \<Longrightarrow> P) \<Longrightarrow> P"
  by (cases v) auto

lemmas js_elims = is_strE is_boolE is_integerE is_arrE is_objE

end
