(* ===== verification/Errors.thy ===== *)
theory Errors
  imports Prelude
begin

text \<open>
  The error classes of \<open>backend/lib/error.js\<close>. A thrown error is a value of \<open>err\<close>: its class and
  its message (\<open>JSTypeError\<close> is the language's own \<open>TypeError\<close>, \<open>DBError\<close> an error of the database driver). The HTTP status and the flag that
  lets the message reach a client are functions of the class, as in the constructors. The wrapped
  earlier error is not part of the value; \<open>Host_Rollback\<close> models the chain where it is read.
\<close>

datatype err =
    PermissionError string
  | ItemNotFoundError string
  | AuthError string
  | InternalError string
  | InternalValidationError string
  | ConfigurationError string
  | CacheError string
  | ValidationError string
  | AssertionFailedError string
  | UnauthorizedError string
  | CommandError string int
  | JSTypeError string
  | DBError string

type_synonym 'a result = "err + 'a"

definition mk_PermissionError :: "string \<Rightarrow> err" where
  "mk_PermissionError message = PermissionError (if message = [] then ''Permission Denied'' else message)"

definition mk_ItemNotFoundError :: "string \<Rightarrow> err" where
  "mk_ItemNotFoundError i = ItemNotFoundError (if i \<noteq> [] then ''Not Found - '' @ i else ''Not Found'')"

definition mk_UnauthorizedError :: "string \<Rightarrow> err" where
  "mk_UnauthorizedError message = UnauthorizedError (if message = [] then ''Unauthorized'' else message)"

fun err_message :: "err \<Rightarrow> string" where
  "err_message (PermissionError m) = m"
| "err_message (ItemNotFoundError m) = m"
| "err_message (AuthError m) = m"
| "err_message (InternalError m) = m"
| "err_message (InternalValidationError m) = m"
| "err_message (ConfigurationError m) = m"
| "err_message (CacheError m) = m"
| "err_message (ValidationError m) = m"
| "err_message (AssertionFailedError m) = m"
| "err_message (UnauthorizedError m) = m"
| "err_message (CommandError m _) = m"
| "err_message (JSTypeError m) = m"
| "err_message (DBError m) = m"

fun err_status :: "err \<Rightarrow> nat option" where
  "err_status (PermissionError _) = Some 403"
| "err_status (ItemNotFoundError _) = Some 404"
| "err_status (AuthError _) = Some 400"
| "err_status (InternalError _) = Some 500"
| "err_status (InternalValidationError _) = Some 400"
| "err_status (ConfigurationError _) = Some 400"
| "err_status (CacheError _) = Some 500"
| "err_status (ValidationError _) = Some 400"
| "err_status (AssertionFailedError _) = Some 400"
| "err_status (UnauthorizedError _) = Some 401"
| "err_status (CommandError _ _) = None"
| "err_status (JSTypeError _) = None"
| "err_status (DBError _) = None"

fun err_public :: "err \<Rightarrow> bool" where
  "err_public (PermissionError _) = True"
| "err_public (ItemNotFoundError _) = True"
| "err_public (AuthError _) = True"
| "err_public (InternalError _) = False"
| "err_public (InternalValidationError _) = False"
| "err_public (ConfigurationError _) = True"
| "err_public (CacheError _) = False"
| "err_public (ValidationError _) = True"
| "err_public (AssertionFailedError _) = False"
| "err_public (UnauthorizedError _) = True"
| "err_public (CommandError _ _) = False"
| "err_public (JSTypeError _) = False"
| "err_public (DBError _) = False"

lemma public_errors_are_client_errors:
  "err_public e \<Longrightarrow> \<exists>n. err_status e = Some n \<and> 400 \<le> n \<and> n < 500"
  by (cases e) auto

end
