(* ===== verification/Store.thy ===== *)
theory Store
  imports Prelude
begin

text \<open>
  The relational store. A table is the list of its rows; the query builder's operations are functions
  on that list: \<open>patch_where\<close> for \<open>.where(...).patch(...)\<close>, \<open>delete_where\<close> for
  \<open>.where(...).delete()\<close>, \<open>count_where\<close> for the number of rows such a query touches, and
  \<open>List.find\<close> for \<open>.first()\<close> and \<open>.findOne(...)\<close>. An inserted row gets the identifier the table's
  sequence holds. The locales state the contracts the components share: tables whose updates
  keep their key, validators that normalise, and transition systems with an invariant.
\<close>

definition patch_where :: "('r \<Rightarrow> bool) \<Rightarrow> ('r \<Rightarrow> 'r) \<Rightarrow> 'r list \<Rightarrow> 'r list" where
  "patch_where p f rows = map (\<lambda>r. if p r then f r else r) rows"

definition delete_where :: "('r \<Rightarrow> bool) \<Rightarrow> 'r list \<Rightarrow> 'r list" where
  "delete_where p rows = filter (\<lambda>r. \<not> p r) rows"

definition count_where :: "('r \<Rightarrow> bool) \<Rightarrow> 'r list \<Rightarrow> nat" where
  "count_where p rows = length (filter p rows)"

lemma set_patch_where [tbl_simps]:
  "set (patch_where p f rows) = (\<lambda>r. if p r then f r else r) ` set rows"
  by (simp add: patch_where_def)

lemma set_delete_where [tbl_simps, simp]: "set (delete_where p rows) = {r \<in> set rows. \<not> p r}"
  by (simp add: delete_where_def)

lemma length_patch_where [simp]: "length (patch_where p f rows) = length rows"
  by (simp add: patch_where_def)

lemma patch_where_none [simp]: "(\<And>r. r \<in> set rows \<Longrightarrow> \<not> p r) \<Longrightarrow> patch_where p f rows = rows"
  by (simp add: patch_where_def map_idI)

lemma patch_where_append [simp]:
  "patch_where p f (xs @ ys) = patch_where p f xs @ patch_where p f ys"
  by (simp add: patch_where_def)

lemma patch_where_Nil [simp]: "patch_where p f [] = []"
  by (simp add: patch_where_def)

lemma patch_where_Cons [simp]:
  "patch_where p f (r # rows) = (if p r then f r else r) # patch_where p f rows"
  by (simp add: patch_where_def)

lemma count_where_0: "count_where p rows = 0 \<longleftrightarrow> (\<forall>r \<in> set rows. \<not> p r)"
  by (simp add: count_where_def filter_empty_conv)

lemma find_None: "List.find p xs = None \<longleftrightarrow> (\<forall>x \<in> set xs. \<not> p x)"
  by (auto simp: find_None_iff)

lemma find_SomeD: "List.find p xs = Some x \<Longrightarrow> x \<in> set xs \<and> p x"
  by (auto simp: find_Some_iff)

lemma find_patch_where:
  assumes "List.find q rows = Some c" and "\<not> p c" and "\<And>r. p r \<Longrightarrow> \<not> q (f r)"
  shows "List.find q (patch_where p f rows) = Some c"
  using assms(1) by (induction rows) (use assms(2,3) in \<open>auto split: if_splits\<close>)

lemma filter_single:
  assumes "distinct (map key xs)" and "x \<in> set xs"
  shows "filter (\<lambda>y. key y = key x) xs = [x]"
  using assms
proof (induction xs)
  case Nil
  then show ?case by simp
next
  case (Cons y xs)
  show ?case
  proof (cases "y = x")
    case True
    with Cons.prems(1) have "filter (\<lambda>y. key y = key x) xs = []"
      by (auto simp: filter_empty_conv image_iff)
    with True show ?thesis by simp
  next
    case False
    with Cons have "key y \<noteq> key x" by (force simp: image_iff)
    with False Cons show ?thesis by auto
  qed
qed

lemma find_unique:
  assumes "distinct (map key xs)" and "x \<in> set xs"
  shows "List.find (\<lambda>y. key y = key x) xs = Some x"
  using assms
proof (induction xs)
  case Nil
  then show ?case by simp
next
  case (Cons y xs)
  then show ?case by (force simp: image_iff)
qed

lemma distinct_key_eq:
  "distinct (map key xs) \<Longrightarrow> x \<in> set xs \<Longrightarrow> y \<in> set xs \<Longrightarrow> key x = key y \<Longrightarrow> x = y"
  by (metis distinct_map inj_onD)

section \<open>Contracts\<close>

text \<open>A table whose patches keep the primary key, and whose sequence is ahead of every key.\<close>

locale keyed_table =
  fixes key :: "'r \<Rightarrow> nat"
    and patches :: "('r \<Rightarrow> 'r) set"
  assumes patch_key: "f \<in> patches \<Longrightarrow> key (f r) = key r"
begin

definition keys_ok :: "'r list \<Rightarrow> nat \<Rightarrow> bool" where
  "keys_ok rows n \<longleftrightarrow> distinct (map key rows) \<and> (\<forall>r \<in> set rows. key r < n)"

lemma map_key_patch [simp]: "f \<in> patches \<Longrightarrow> map key (patch_where p f rows) = map key rows"
  by (simp add: patch_where_def patch_key)

lemma keys_ok_patch: "f \<in> patches \<Longrightarrow> keys_ok rows n \<Longrightarrow> keys_ok (patch_where p f rows) n"
  unfolding keys_ok_def by (auto simp: tbl_simps patch_key)

lemma keys_ok_delete: "keys_ok rows n \<Longrightarrow> keys_ok (delete_where p rows) n"
  unfolding keys_ok_def by (auto simp: delete_where_def distinct_map_filter)

lemma keys_ok_insert: "keys_ok rows n \<Longrightarrow> key r = n \<Longrightarrow> keys_ok (rows @ [r]) (Suc n)"
  unfolding keys_ok_def by auto

lemma keys_ok_find: "keys_ok rows n \<Longrightarrow> r \<in> set rows \<Longrightarrow> List.find (\<lambda>x. key x = key r) rows = Some r"
  unfolding keys_ok_def by (simp add: find_unique)

lemma keys_ok_eq:
  "keys_ok rows n \<Longrightarrow> r \<in> set rows \<Longrightarrow> r' \<in> set rows \<Longrightarrow> key r = key r' \<Longrightarrow> r = r'"
  unfolding keys_ok_def by (blast dest: distinct_key_eq)

lemma keys_ok_fresh: "keys_ok rows n \<Longrightarrow> r \<in> set rows \<Longrightarrow> key r \<noteq> n"
  unfolding keys_ok_def by auto

lemma keys_ok_mono: "keys_ok rows n \<Longrightarrow> n \<le> m \<Longrightarrow> keys_ok rows m"
  unfolding keys_ok_def by auto

end

text \<open>A validator that returns a normal form: what it returns satisfies \<open>ok\<close>, and a normal form is
  returned unchanged. Its range is then exactly the set of normal forms.\<close>

locale normalizer =
  fixes norm :: "'a \<Rightarrow> 'e + 'b"
    and emb :: "'b \<Rightarrow> 'a"
    and ok :: "'b \<Rightarrow> bool"
  assumes norm_ok: "norm x = Inr y \<Longrightarrow> ok y"
    and norm_fix: "ok y \<Longrightarrow> norm (emb y) = Inr y"
begin

lemma norm_idem: "norm x = Inr y \<Longrightarrow> norm (emb y) = Inr y"
  by (blast intro: norm_fix norm_ok)

lemma norm_range: "(\<exists>x. norm x = Inr y) \<longleftrightarrow> ok y"
  by (blast intro: norm_fix norm_ok)

lemma emb_inj: "ok y \<Longrightarrow> ok z \<Longrightarrow> emb y = emb z \<Longrightarrow> y = z"
  by (metis norm_fix sum.inject(2))

end

text \<open>A transition system with an inductive invariant.\<close>

locale invariant_system =
  fixes step :: "'s \<Rightarrow> 's \<Rightarrow> bool"
    and inv :: "'s \<Rightarrow> bool"
  assumes step_inv: "inv s \<Longrightarrow> step s t \<Longrightarrow> inv t"
begin

lemma steps_inv: "step\<^sup>*\<^sup>* s t \<Longrightarrow> inv s \<Longrightarrow> inv t"
  by (induction rule: rtranclp_induct) (auto intro: step_inv)

end

text \<open>A transition system in which a property, once it holds, is never lost.\<close>

locale stable_system = invariant_system +
  fixes mark :: "'s \<Rightarrow> 'k \<Rightarrow> bool"
  assumes step_mark: "inv s \<Longrightarrow> step s t \<Longrightarrow> mark s k \<Longrightarrow> mark t k"
begin

lemma steps_mark: "step\<^sup>*\<^sup>* s t \<Longrightarrow> inv s \<Longrightarrow> mark s k \<Longrightarrow> mark t k"
proof (induction rule: rtranclp_induct)
  case base
  then show ?case by simp
next
  case (step u v)
  then have "inv u" by (blast intro: steps_inv)
  with step show ?case by (blast intro: step_mark)
qed

end

end
