(* ===== verification/Access.thy ===== *)
theory Access
  imports JS_Value Errors Store
begin

text \<open>
  Authentication of a request and its permission checks: the token object of
  \<open>backend/models/token.js\<close>, the legacy scope rule of \<open>backend/lib/token-scope.js\<close> and the access
  object of \<open>backend/lib/access.js\<close>.

  Parameters. \<open>verify\<close> stands for the JWT library with the server's public key: it returns the payload
  or the error of a rejected token. \<open>validate permission\<close> stands for the compiled JSON schema of the
  permission: \<open>None\<close> when the schema file cannot be read, otherwise whether the data conforms. The
  user table is the list of its rows with the fetched permission row.
\<close>

section \<open>Tokens\<close>

definition normalizeScope :: "jsval \<Rightarrow> jsval" where
  "normalizeScope scope =
     (case scope of
        JStr s \<Rightarrow> if s = ''all'' then JArr [JStr ''user''] else scope
      | JArr xs \<Rightarrow> if JStr ''all'' \<in> set xs then JArr [JStr ''user''] else scope
      | _ \<Rightarrow> scope)"

text \<open>\<open>load\<close>: verification, then the scope of the payload is normalised in place.\<close>

definition token_load :: "(string \<Rightarrow> jsval result) \<Rightarrow> string \<Rightarrow> jsval result" where
  "token_load verify token =
     rbind (verify token) (\<lambda>payload.
       Inr (JObj (props_set ''scope'' (normalizeScope (js_get payload ''scope'')) (obj_of payload))))"

text \<open>\<open>_.indexOf(scope, item) !== -1\<close>: an array holds the item; a string is a sequence of one-letter
  strings; other values have no elements.\<close>

fun scope_items :: "jsval \<Rightarrow> jsval list" where
  "scope_items (JArr xs) = xs"
| "scope_items (JStr s) = map (\<lambda>c. JStr [c]) s"
| "scope_items _ = []"

definition token_has_scope :: "jsval \<Rightarrow> string \<Rightarrow> bool" where
  "token_has_scope tokenData scope \<longleftrightarrow>
     js_get tokenData ''scope'' \<noteq> Undef \<and> JStr scope \<in> set (scope_items (js_get tokenData ''scope''))"

definition token_get :: "jsval \<Rightarrow> string \<Rightarrow> jsval" where
  "token_get tokenData k = (if js_get tokenData k \<noteq> Undef then js_get tokenData k else Null)"

definition token_set :: "jsval \<Rightarrow> string \<Rightarrow> jsval \<Rightarrow> jsval" where
  "token_set tokenData k v = JObj (props_set k v (obj_of tokenData))"

definition token_getUserId :: "jsval \<Rightarrow> int \<Rightarrow> jsval" where
  "token_getUserId tokenData defaultValue =
     (let uid = js_get (token_get tokenData ''attrs'') ''id''
      in if truthy uid then uid else JNum defaultValue)"

section \<open>The access object\<close>

record user_row =
  u_id :: int
  u_roles :: "string list"
  u_permissions :: jsval
  u_is_deleted :: bool
  u_is_disabled :: bool

record access_state =
  tokenString :: string
  tokenData :: jsval
  initialised :: bool
  allowInternalAccess :: jsval
  userRoles :: "string list"
  permissions :: jsval

definition new_access :: "string \<Rightarrow> access_state" where
  "new_access token = \<lparr>tokenString = token, tokenData = Null, initialised = False,
     allowInternalAccess = JBool False, userRoles = [], permissions = JObj []\<rparr>"

text \<open>\<open>init\<close>. The state is returned with the result: the payload read by a rejected request stays in
  the object, but \<open>initialised\<close> is only set on success. The query builder rejects an undefined
  identifier.\<close>

definition access_init ::
  "(string \<Rightarrow> jsval result) \<Rightarrow> user_row list \<Rightarrow> access_state \<Rightarrow> unit result \<times> access_state" where
  "access_init verify users a =
     (if initialised a then (Inr (), a)
      else if tokenString a = [] then (Inl (mk_PermissionError ''Permission Denied''), a)
      else case token_load verify (tokenString a) of
        Inl e \<Rightarrow> (Inl e, a)
      | Inr td \<Rightarrow>
          (let a = a\<lparr>tokenData := td\<rparr>; attrs = js_get td ''attrs'' in
           if attrs = Undef \<or> attrs = Null then (Inl (JSTypeError ''attrs''), a)
           else if truthy (js_get attrs ''id'') \<or> token_has_scope td ''user'' then
             (if js_get attrs ''id'' = Undef then (Inl (DBError ''Undefined binding''), a) else case List.find (\<lambda>u. JNum (u_id u) = js_get attrs ''id'' \<and> \<not> u_is_deleted u \<and> \<not> u_is_disabled u) users of
                None \<Rightarrow> (Inl (AuthError ''User cannot be loaded for Token''), a)
              | Some u \<Rightarrow>
                  (let roles = u_roles u @ [''user''] in
                   if (\<exists>item \<in> set (scope_items (js_get td ''scope'')). item \<notin> JStr ` set roles)
                   then (Inl (AuthError ''Invalid token scope for User''), a)
                   else (Inr (), a\<lparr>initialised := True, userRoles := roles, permissions := u_permissions u\<rparr>)))
           else (Inr (), a\<lparr>initialised := True\<rparr>)))"

definition loadObjects :: "access_state \<Rightarrow> string \<Rightarrow> jsval" where
  "loadObjects a objectType =
     (if objectType = ''users'' \<and> token_has_scope (tokenData a) ''user''
      then JArr [token_getUserId (tokenData a) 0] else Null)"

text \<open>\<open>load\<close>: with a token the account is authenticated; without one only the caller's
  \<open>allowInternal\<close> flag is recorded and returned (or null).\<close>

definition access_load ::
  "(string \<Rightarrow> jsval result) \<Rightarrow> user_row list \<Rightarrow> jsval \<Rightarrow> access_state \<Rightarrow> jsval result \<times> access_state" where
  "access_load verify users allowInternal a =
     (if tokenString a \<noteq> [] then
        (case access_init verify users a of
           (Inl e, a') \<Rightarrow> (Inl e, a')
         | (Inr _, a') \<Rightarrow> (Inr (tokenData a'), a'))
      else (Inr (if truthy allowInternal then allowInternal else Null),
            a\<lparr>allowInternalAccess := allowInternal\<rparr>))"

definition permission_fields :: "string list" where
  "permission_fields = [''visibility'', ''proxy_hosts'', ''redirection_hosts'', ''dead_hosts'',
     ''streams'', ''access_lists'', ''certificates'', ''cloudflared_tunnels'', ''analytics'',
     ''ddns_providers'', ''tor_onions'', ''dashboard_notes'', ''chat'']"

text \<open>The object under the permission's name: the request's data, the token's scope, the roles of the
  account and one \<open>permission_*\<close> property per column of its permission row.\<close>

definition permission_data :: "access_state \<Rightarrow> jsval \<Rightarrow> jsval" where
  "permission_data a data = JObj
     ([(''data'', data), (''scope'', token_get (tokenData a) ''scope''),
       (''roles'', JArr (map JStr (userRoles a)))] @
      map (\<lambda>f. (''permission_'' @ f, js_get (permissions a) f)) permission_fields)"

definition access_can ::
  "(string \<Rightarrow> jsval result) \<Rightarrow> user_row list \<Rightarrow> (string \<Rightarrow> (jsval \<Rightarrow> bool) option)
     \<Rightarrow> string \<Rightarrow> jsval \<Rightarrow> access_state \<Rightarrow> jsval result \<times> access_state" where
  "access_can verify users validate permission data a =
     (if allowInternalAccess a = JBool True then (Inr (JBool True), a)
      else case access_init verify users a of
        (Inl _, a') \<Rightarrow> (Inl (mk_PermissionError ''Permission Denied''), a')
      | (Inr _, a') \<Rightarrow>
          (if permissions a' = Undef \<or> permissions a' = Null
           then (Inl (mk_PermissionError ''Permission Denied''), a')
           else
             (let actor = js_get (js_get (tokenData a') ''attrs'') ''id'';
                  d = permission_data a' data;
                  schema_data = JObj [(''actor_user_id'', if truthy actor then actor else JNum 0), (permission, d)]
              in case validate permission of
                   None \<Rightarrow> (Inl (mk_PermissionError ''Permission Denied''), a')
                 | Some valid \<Rightarrow>
                     if valid schema_data then (Inr d, a')
                     else (Inl (mk_PermissionError ''Permission Denied''), a'))))"

section \<open>What the services see of it\<close>

text \<open>A service calls \<open>access.can\<close> and \<open>access.token.getUserId\<close>.\<close>

record access =
  acc_can :: "string \<Rightarrow> jsval \<Rightarrow> jsval result"
  acc_token :: jsval

definition acc_user :: "access \<Rightarrow> int \<Rightarrow> jsval" where
  "acc_user acc d = token_getUserId (acc_token acc) d"

definition access_view ::
  "(string \<Rightarrow> jsval result) \<Rightarrow> user_row list \<Rightarrow> (string \<Rightarrow> (jsval \<Rightarrow> bool) option) \<Rightarrow> access_state \<Rightarrow> access" where
  "access_view verify users validate a =
     \<lparr>acc_can = (\<lambda>p d. fst (access_can verify users validate p d a)), acc_token = tokenData a\<rparr>"

text \<open>\<open>permission_visibility\<close> of a granted permission; a query is not restricted to the owner when the
  grant is the internal \<open>true\<close> or the visibility is \<open>all\<close>.\<close>

definition sees_all :: "jsval \<Rightarrow> bool" where
  "sees_all grant \<longleftrightarrow> js_get grant ''permission_visibility'' = JStr ''all''"

section \<open>Lemmas\<close>

lemma normalizeScope_idem: "normalizeScope (normalizeScope s) = normalizeScope s"
  by (auto simp: normalizeScope_def split: jsval.splits)

lemma scope_all_never_survives:
  "JStr ''all'' \<notin> set (scope_items (normalizeScope s))"
  by (cases s) (auto simp: normalizeScope_def)

lemma access_init_ok:
  assumes "access_init verify users a = (Inr (), a')" and "\<not> initialised a"
  shows "initialised a' \<and> tokenString a \<noteq> [] \<and> token_load verify (tokenString a) = Inr (tokenData a')"
  using assms
  by (auto simp: access_init_def Let_def split: if_splits sum.splits option.splits)

lemma access_init_user:
  assumes "access_init verify users a = (Inr (), a')" and "\<not> initialised a"
    and "token_has_scope (tokenData a') ''user''"
  shows "\<exists>u \<in> set users. JNum (u_id u) = js_get (js_get (tokenData a') ''attrs'') ''id'' \<and>
     \<not> u_is_deleted u \<and> \<not> u_is_disabled u \<and> userRoles a' = u_roles u @ [''user''] \<and>
     permissions a' = u_permissions u \<and>
     (\<forall>item \<in> set (scope_items (js_get (tokenData a') ''scope'')). item \<in> JStr ` set (userRoles a'))"
  using assms
  by (auto simp: access_init_def Let_def split: if_splits sum.splits option.splits dest!: find_SomeD)

lemma access_init_keeps_internal:
  "allowInternalAccess (snd (access_init verify users a)) = allowInternalAccess a"
  by (auto simp: access_init_def Let_def split: if_splits sum.splits option.splits)

lemma access_can_error:
  "fst (access_can verify users validate p d a) = Inl e \<Longrightarrow> e = PermissionError ''Permission Denied''"
  by (auto simp: access_can_def Let_def mk_PermissionError_def split: if_splits sum.splits option.splits prod.splits)

lemma access_can_grant:
  assumes "access_can verify users validate p d a = (Inr g, a')"
    and "allowInternalAccess a \<noteq> JBool True"
  shows "\<exists>valid. access_init verify users a = (Inr (), a') \<and> validate p = Some valid \<and> g = permission_data a' d \<and>
     valid (JObj [(''actor_user_id'', let actor = js_get (js_get (tokenData a') ''attrs'') ''id''
                                     in if truthy actor then actor else JNum 0), (p, g)])"
  using assms
  by (auto simp: access_can_def Let_def split: if_splits sum.splits option.splits prod.splits)

section \<open>Properties\<close>


definition payload0 :: jsval where
  "payload0 = JObj [(''scope'', JArr [JStr ''all'']), (''attrs'', JObj [(''id'', JNum 7)])]"

definition user0 :: user_row where
  "user0 = \<lparr>u_id = 7, u_roles = [''admin''], u_permissions = JObj [(''visibility'', JStr ''all'')],
     u_is_deleted = False, u_is_disabled = False\<rparr>"

definition verify0 :: "string \<Rightarrow> jsval result" where
  "verify0 t = (if t = ''good'' then Inr payload0 else Inl (AuthError ''invalid token''))"

definition accept0 :: "string \<Rightarrow> (jsval \<Rightarrow> bool) option" where
  "accept0 p = Some (\<lambda>d. js_get d ''actor_user_id'' = JNum 7)"


text \<open>Every refusal of a permission looks the same. Whatever failed (no token, a rejected token, a missing
  account, a scope the account lacks, an unreadable or unsatisfied schema), the caller gets
  the error "Permission Denied" with status 403, and a request without a token is always
  refused unless it is the server's own.\<close>

theorem permission_refusal_uniform:
  "(case fst (access_can verify users validate p d a) of
      Inl e \<Rightarrow> e = PermissionError ''Permission Denied'' \<and> err_status e = Some 403 \<and> err_public e
    | Inr g \<Rightarrow> allowInternalAccess a = JBool True \<or> initialised a \<or> tokenString a \<noteq> [])"
proof (cases "fst (access_can verify users validate p d a)")
  case (Inl e)
  with access_can_error [OF Inl] show ?thesis by simp
next
  case (Inr g)
  then obtain a' where "access_can verify users validate p d a = (Inr g, a')" by (metis prod.collapse)
  from access_can_grant [OF this] access_init_ok [of verify users a a'] Inr show ?thesis by auto
qed

theorem permission_refusal_uniform_witness:
  "fst (access_can verify0 [user0] accept0 ''users:list'' Null (new_access ''bad'')) = Inl (PermissionError ''Permission Denied'')"
proof -
  have "isl (fst (access_can verify0 [user0] accept0 ''users:list'' Null (new_access ''bad'')))" by code_simp
  with permission_refusal_uniform [where verify = verify0 and users = "[user0]" and validate = accept0 and p = "''users:list''" and d = Null and a = "new_access ''bad''"] show ?thesis
    by (auto split: sum.splits)
qed

end
