(* ===== verification/Auth_Session.thy ===== *)
theory Auth_Session
  imports Access
begin

text \<open>
  Browser sessions: the refresh-token rows of \<open>backend/models/auth-session.js\<close>, issuing, rotating and
  revoking them (\<open>backend/internal/auth-session-service.js\<close>), the retention job
  (\<open>backend/internal/auth-session-cleanup.js\<close>) and the device list a user manages
  (\<open>backend/internal/sessions.js\<close>).

  Times are milliseconds since the epoch; a stored \<open>YYYY-MM-DD HH:mm:ss\<close> is a whole second. Every
  transaction is one function on the database: a callback that throws leaves it unchanged. What a call
  reads from its environment is a record: the clock, the random refresh token, family and token ids.

  Parameters. \<open>sha256\<close> is the digest, \<open>date_add\<close> and \<open>date_sub\<close> the date library's arithmetic on periods, and
  \<open>sign\<close> the JWT signature of an access token, which may fail.
\<close>

section \<open>Periods and tokens\<close>

record auth_lib =
  sha256 :: "string \<Rightarrow> string"
  date_add :: "int \<Rightarrow> nat \<Rightarrow> string \<Rightarrow> int"
  date_sub :: "int \<Rightarrow> nat \<Rightarrow> string \<Rightarrow> int"

definition period_units :: "string list" where
  "period_units = [''y'', ''Q'', ''M'', ''w'', ''d'', ''h'', ''m'', ''s'', ''ms'']"

definition parseDatePeriod :: "auth_lib \<Rightarrow> int \<Rightarrow> string \<Rightarrow> int option" where
  "parseDatePeriod lib now expression =
     (let ds = takeWhile is_digit expression; u = dropWhile is_digit expression
      in if ds \<noteq> [] \<and> u \<in> set period_units then Some (date_add lib now (digits_value ds) u) else None)"

definition hashToken :: "auth_lib \<Rightarrow> jsval \<Rightarrow> string result" where
  "hashToken lib rawToken =
     (case rawToken of
        JStr s \<Rightarrow> if s = [] then Inl (JSTypeError ''rawToken must be a non-empty string'') else Inr (sha256 lib s)
      | _ \<Rightarrow> Inl (JSTypeError ''rawToken must be a non-empty string''))"

definition session_normalizeScope :: "jsval \<Rightarrow> jsval list" where
  "session_normalizeScope scope =
     (case scope of
        JArr xs \<Rightarrow> xs
      | JStr s \<Rightarrow> if js_trim s \<noteq> [] then [JStr (js_trim s)] else []
      | _ \<Rightarrow> [])"

definition ACCESS_TOKEN_TTL :: string where
  "ACCESS_TOKEN_TTL = ''15m''"

definition REFRESH_TOKEN_TTL :: string where
  "REFRESH_TOKEN_TTL = ''30d''"

definition requireValidTtl :: "auth_lib \<Rightarrow> int \<Rightarrow> string \<Rightarrow> string \<Rightarrow> int result" where
  "requireValidTtl lib now expression label =
     (case parseDatePeriod lib now expression of
        None \<Rightarrow> Inl (InternalError (''Invalid '' @ label @ '' TTL configuration: '' @ expression))
      | Some t \<Rightarrow> Inr t)"

section \<open>Rows, database, environment\<close>

record auth_session =
  s_id :: nat
  s_user_id :: int
  s_family_id :: string
  s_parent_session_id :: "nat option"
  s_token_hash :: string
  s_jti :: string
  s_scope :: "jsval list"
  s_created_at :: int
  s_expires_at :: int
  s_last_used_at :: "int option"
  s_rotated_at :: "int option"
  s_revoked_at :: "int option"
  s_revoked_reason :: "string option"
  s_replaced_by_session_id :: "nat option"
  s_created_ip :: jsval
  s_created_user_agent :: jsval

record session_user =
  su_id :: int
  su_name :: string
  su_email :: string
  su_nickname :: string
  su_avatar :: string
  su_roles :: "string list"
  su_is_deleted :: bool
  su_is_disabled :: bool

record audit_row =
  au_user_id :: jsval
  au_action :: string
  au_object_type :: string
  au_object_id :: int
  au_meta :: jsval

record auth_db =
  sessions :: "auth_session list"
  next_session :: nat
  users :: "session_user list"
  audit :: "audit_row list"

record token_payload =
  p_iss :: string
  p_user :: int
  p_scope :: "jsval list"
  p_expiresIn :: string

record auth_env =
  now :: int
  random_refresh :: string
  random_family :: string
  random_jti :: string
  sign :: "token_payload \<Rightarrow> string result"

record session_info =
  i_id :: nat
  i_family_id :: string
  i_parent_session_id :: "nat option"
  i_scope :: "jsval list"
  i_expires_at :: int

record token_response =
  t_access_token :: string
  t_access_expires :: int
  t_refresh_token :: string
  t_refresh_expires :: int
  t_token_type :: string
  t_session :: session_info
  t_user :: "session_user option"

definition fmt_seconds :: "int \<Rightarrow> int" where
  "fmt_seconds t = (t div 1000) * 1000"

definition js_or :: "jsval \<Rightarrow> jsval \<Rightarrow> jsval" where
  "js_or a b = (if truthy a then a else b)"

definition sanitize_ip :: "jsval \<Rightarrow> jsval" where
  "sanitize_ip meta = js_or (js_get meta ''ip'') (js_or (js_get meta ''created_ip'') Null)"

definition sanitize_user_agent :: "jsval \<Rightarrow> jsval" where
  "sanitize_user_agent meta =
     js_or (js_get meta ''userAgent'') (js_or (js_get meta ''user_agent'')
       (js_or (js_get meta ''created_user_agent'') Null))"

text \<open>\<open>$beforeInsert\<close>, with the token id always generated (no caller passes one).\<close>

definition before_insert :: "auth_env \<Rightarrow> auth_session \<Rightarrow> auth_session" where
  "before_insert env row = row
     \<lparr>s_family_id := (if s_family_id row = [] then random_family env else s_family_id row),
      s_jti := (if s_jti row = [] then random_jti env else s_jti row),
      s_scope := session_normalizeScope (JArr (s_scope row))\<rparr>"

text \<open>The table's insert: both the token hash and the token id are unique.\<close>

definition insert_session :: "auth_session \<Rightarrow> auth_db \<Rightarrow> auth_session result \<times> auth_db" where
  "insert_session row db =
     (if (\<exists>r \<in> set (sessions db). s_token_hash r = s_token_hash row \<or> s_jti r = s_jti row)
      then (Inl (DBError ''UniqueViolationError''), db)
      else (let row = row\<lparr>s_id := next_session db\<rparr>
            in (Inr row, db\<lparr>sessions := sessions db @ [row], next_session := Suc (next_session db)\<rparr>)))"

section \<open>The session service\<close>

definition buildAccessToken :: "auth_env \<Rightarrow> int \<Rightarrow> jsval list \<Rightarrow> string result" where
  "buildAccessToken env user_id scope =
     sign env \<lparr>p_iss = ''api'', p_user = user_id, p_scope = session_normalizeScope (JArr scope),
               p_expiresIn = ACCESS_TOKEN_TTL\<rparr>"

definition buildTokenResponse ::
  "auth_lib \<Rightarrow> auth_env \<Rightarrow> string \<Rightarrow> string \<Rightarrow> auth_session \<Rightarrow> session_user option \<Rightarrow> token_response" where
  "buildTokenResponse lib env accessToken refreshToken s user =
     \<lparr>t_access_token = accessToken,
      t_access_expires = the (parseDatePeriod lib (now env) ACCESS_TOKEN_TTL),
      t_refresh_token = refreshToken,
      t_refresh_expires = s_expires_at s,
      t_token_type = ''Bearer'',
      t_session = \<lparr>i_id = s_id s, i_family_id = s_family_id s, i_parent_session_id = s_parent_session_id s,
                   i_scope = s_scope s, i_expires_at = s_expires_at s\<rparr>,
      t_user = user\<rparr>"

definition createRefreshSession ::
  "auth_lib \<Rightarrow> auth_env \<Rightarrow> int \<Rightarrow> jsval list \<Rightarrow> string \<Rightarrow> string \<Rightarrow> nat option \<Rightarrow> jsval
     \<Rightarrow> auth_db \<Rightarrow> auth_session result \<times> auth_db" where
  "createRefreshSession lib env user_id scope rawRefreshToken familyId parentSessionId meta db =
     (case hashToken lib (JStr rawRefreshToken) of
        Inl e \<Rightarrow> (Inl e, db)
      | Inr h \<Rightarrow>
          insert_session (before_insert env
            \<lparr>s_id = 0, s_user_id = user_id, s_family_id = familyId, s_parent_session_id = parentSessionId,
             s_token_hash = h, s_jti = [], s_scope = session_normalizeScope (JArr scope),
             s_created_at = fmt_seconds (now env),
             s_expires_at = fmt_seconds (the (parseDatePeriod lib (now env) REFRESH_TOKEN_TTL)),
             s_last_used_at = None, s_rotated_at = None, s_revoked_at = None, s_revoked_reason = None,
             s_replaced_by_session_id = None, s_created_ip = sanitize_ip meta,
             s_created_user_agent = sanitize_user_agent meta\<rparr>) db)"

definition revoke_row :: "int \<Rightarrow> string \<Rightarrow> auth_session \<Rightarrow> auth_session" where
  "revoke_row t reason r = r\<lparr>s_revoked_at := Some t, s_revoked_reason := Some reason\<rparr>"

definition revoke_where ::
  "auth_env \<Rightarrow> string \<Rightarrow> (auth_session \<Rightarrow> bool) \<Rightarrow> auth_db \<Rightarrow> nat \<times> auth_db" where
  "revoke_where env reason p db =
     (let q = (\<lambda>r. p r \<and> s_revoked_at r = None)
      in (count_where q (sessions db),
          db\<lparr>sessions := patch_where q (revoke_row (now env) reason) (sessions db)\<rparr>))"

definition revokeSession :: "auth_env \<Rightarrow> nat \<Rightarrow> string \<Rightarrow> auth_db \<Rightarrow> nat result \<times> auth_db" where
  "revokeSession env sessionId reason db =
     (if sessionId = 0 then (Inl (ValidationError ''sessionId is required''), db)
      else (case revoke_where env reason (\<lambda>r. s_id r = sessionId) db of (n, db') \<Rightarrow> (Inr n, db')))"

definition revokeFamily :: "auth_env \<Rightarrow> string \<Rightarrow> string \<Rightarrow> auth_db \<Rightarrow> nat result \<times> auth_db" where
  "revokeFamily env familyId reason db =
     (if familyId = [] then (Inl (ValidationError ''familyId is required''), db)
      else (case revoke_where env reason (\<lambda>r. s_family_id r = familyId) db of (n, db') \<Rightarrow> (Inr n, db')))"

text \<open>\<open>issueTokenPair\<close>: the family is the caller's or a new random one.\<close>

definition issueTokenPair ::
  "auth_lib \<Rightarrow> auth_env \<Rightarrow> session_user \<Rightarrow> jsval \<Rightarrow> jsval \<Rightarrow> auth_db \<Rightarrow> token_response result \<times> auth_db" where
  "issueTokenPair lib env user scope meta db =
     (let normalizedScope = session_normalizeScope (if_undef scope (JStr ''user''));
          rawRefreshToken = random_refresh env;
          familyId = str_of (js_or (js_get meta ''family_id'')
                       (js_or (js_get meta ''familyId'') (JStr (random_family env))))
      in case createRefreshSession lib env (su_id user) normalizedScope rawRefreshToken familyId None meta db of
           (Inl e, _) \<Rightarrow> (Inl e, db)
         | (Inr refreshSession, db') \<Rightarrow>
             (case buildAccessToken env (su_id user) normalizedScope of
                Inl e \<Rightarrow> (Inl e, db)
              | Inr accessToken \<Rightarrow>
                  (Inr (buildTokenResponse lib env accessToken rawRefreshToken refreshSession (Some user)), db')))"

text \<open>The outcome of the refresh transaction: an exception rolls it back (\<open>Rollback\<close>); a returned
  \<open>{ error }\<close> commits and is thrown afterwards (\<open>Reject\<close>).\<close>

datatype refresh_outcome = Rollback err | Reject err | Grant token_response

text \<open>Revocation inside the transaction: its own validation error would roll the transaction back.\<close>

definition reject_after :: "nat result \<times> auth_db \<Rightarrow> err \<Rightarrow> auth_db \<Rightarrow> refresh_outcome \<times> auth_db" where
  "reject_after revoked e db =
     (case revoked of (Inl e', _) \<Rightarrow> (Rollback e', db) | (Inr _, db') \<Rightarrow> (Reject e, db'))"

definition live_row :: "auth_session \<Rightarrow> bool" where
  "live_row r \<longleftrightarrow> s_revoked_at r = None \<and> s_rotated_at r = None \<and> s_replaced_by_session_id r = None"

definition rotate_row :: "int \<Rightarrow> nat \<Rightarrow> auth_session \<Rightarrow> auth_session" where
  "rotate_row t nid r =
     r\<lparr>s_rotated_at := Some t, s_replaced_by_session_id := Some nid, s_last_used_at := Some t\<rparr>"

text \<open>The second half of the transaction: insert the successor, then mark the presented session as
  rotated if it is still live. \<open>session\<close> is the row read at the start; \<open>db\<close> may be a later state, since
  another request can commit between the read and the update.\<close>

definition rotate_session ::
  "auth_lib \<Rightarrow> auth_env \<Rightarrow> jsval \<Rightarrow> auth_session \<Rightarrow> session_user \<Rightarrow> auth_db \<Rightarrow> refresh_outcome \<times> auth_db" where
  "rotate_session lib env meta session user db =
     (case createRefreshSession lib env (su_id user) (s_scope session) (random_refresh env)
             (s_family_id session) (Some (s_id session)) meta db of
        (Inl e, _) \<Rightarrow> (Rollback e, db)
      | (Inr nextSession, db1) \<Rightarrow>
          (let q = (\<lambda>r. s_id r = s_id session \<and> live_row r);
               updatedRows = count_where q (sessions db1);
               db2 = db1\<lparr>sessions := patch_where q (rotate_row (now env) (s_id nextSession)) (sessions db1)\<rparr>
           in if updatedRows = 0 then
                reject_after (revokeFamily env (s_family_id session) ''refresh_token_rotation_race'' db2)
                  (mk_UnauthorizedError ''Refresh token replay detected'') db
              else case buildAccessToken env (su_id user) (s_scope session) of
                Inl e \<Rightarrow> (Rollback e, db)
              | Inr accessToken \<Rightarrow>
                  (Grant (buildTokenResponse lib env accessToken (random_refresh env) nextSession (Some user)), db2)))"

text \<open>The first half: the checks on the row that was read. It either ends the transaction or lets it
  continue with the session's account; when it continues it has written nothing.\<close>

datatype refresh_decision = Stop refresh_outcome | Continue session_user

definition stop :: "refresh_outcome \<times> auth_db \<Rightarrow> refresh_decision \<times> auth_db" where
  "stop o_db = (Stop (fst o_db), snd o_db)"

definition refresh_check :: "auth_env \<Rightarrow> auth_session \<Rightarrow> auth_db \<Rightarrow> refresh_decision \<times> auth_db" where
  "refresh_check env session db =
     (if s_revoked_at session \<noteq> None then (Stop (Rollback (AuthError ''Refresh token has been revoked'')), db)
      else if s_expires_at session < now env then
        stop (reject_after (revokeSession env (s_id session) ''expired_refresh_token'' db)
          (AuthError ''Refresh token has expired'') db)
      else if s_rotated_at session \<noteq> None \<or> s_replaced_by_session_id session \<noteq> None then
        stop (reject_after (revokeFamily env (s_family_id session) ''refresh_token_replay_detected'' db)
          (mk_UnauthorizedError ''Refresh token replay detected'') db)
      else case List.find (\<lambda>u. su_id u = s_user_id session) (users db) of
          None \<Rightarrow> stop (reject_after (revokeFamily env (s_family_id session) ''user_unavailable'' db)
                    (AuthError ''User cannot be loaded for refresh token'') db)
        | Some user \<Rightarrow>
            if su_is_deleted user \<or> su_is_disabled user then
              stop (reject_after (revokeFamily env (s_family_id session) ''user_unavailable'' db)
                (AuthError ''User cannot be loaded for refresh token'') db)
            else (Continue user, db))"

definition refresh_session ::
  "auth_lib \<Rightarrow> auth_env \<Rightarrow> jsval \<Rightarrow> auth_session \<Rightarrow> auth_db \<Rightarrow> refresh_outcome \<times> auth_db" where
  "refresh_session lib env meta session db =
     (case refresh_check env session db of
        (Stop outcome, db') \<Rightarrow> (outcome, db')
      | (Continue user, db') \<Rightarrow> rotate_session lib env meta session user db')"

definition find_session :: "auth_lib \<Rightarrow> jsval \<Rightarrow> auth_db \<Rightarrow> auth_session option" where
  "find_session lib rawToken db =
     (case hashToken lib rawToken of
        Inl _ \<Rightarrow> None
      | Inr h \<Rightarrow> List.find (\<lambda>r. s_token_hash r = h) (sessions db))"

text \<open>\<open>refreshTokenPair\<close>. A token that is not a nonempty string is rejected before the transaction;
  \<open>hashToken\<close> fails on exactly those values. The rejection of a committed transaction is thrown after
  it.\<close>

definition refreshTokenPair ::
  "auth_lib \<Rightarrow> auth_env \<Rightarrow> jsval \<Rightarrow> jsval \<Rightarrow> auth_db \<Rightarrow> token_response result \<times> auth_db" where
  "refreshTokenPair lib env rawRefreshToken meta db =
     (case find_session lib rawRefreshToken db of
        None \<Rightarrow> (Inl (AuthError ''Invalid refresh token''), db)
      | Some session \<Rightarrow>
          (case refresh_session lib env meta session db of
             (Rollback e, db') \<Rightarrow> (Inl e, db')
           | (Reject e, db') \<Rightarrow> (Inl e, db')
           | (Grant resp, db') \<Rightarrow> (Inr resp, db')))"

text \<open>Logout: the family of the presented token is revoked; failures are only logged.\<close>

definition logout :: "auth_lib \<Rightarrow> auth_env \<Rightarrow> jsval \<Rightarrow> auth_db \<Rightarrow> auth_db" where
  "logout lib env rawRefreshToken db =
     (if truthy rawRefreshToken then
        (case find_session lib rawRefreshToken db of
           None \<Rightarrow> db
         | Some session \<Rightarrow> snd (revokeFamily env (s_family_id session) ''logout'' db))
      else db)"

section \<open>Retention\<close>

definition RETENTION_DAYS :: nat where
  "RETENTION_DAYS = 7"

text \<open>One transaction of \<open>prune\<close>: the rows removed, the rows selected, the new state.\<close>

definition prune_batch :: "int \<Rightarrow> nat \<Rightarrow> auth_db \<Rightarrow> nat \<times> nat \<times> auth_db" where
  "prune_batch cutoff batchSize db =
     (let rows = take batchSize (sort_key s_expires_at (sort_key s_id
                   (filter (\<lambda>r. s_expires_at r < cutoff) (sessions db))));
          ids = map s_id rows
      in if rows = [] then (0, 0, db)
         else
           (let t1 = patch_where (\<lambda>r. \<exists>i \<in> set ids. s_parent_session_id r = Some i)
                       (\<lambda>r. r\<lparr>s_parent_session_id := None\<rparr>) (sessions db);
                t2 = patch_where (\<lambda>r. \<exists>i \<in> set ids. s_replaced_by_session_id r = Some i)
                       (\<lambda>r. r\<lparr>s_replaced_by_session_id := None\<rparr>) t1;
                q = (\<lambda>r. s_id r \<in> set ids \<and> s_expires_at r < cutoff)
            in (count_where q t2, length rows, db\<lparr>sessions := delete_where q t2\<rparr>)))"

fun prune_loop :: "nat \<Rightarrow> int \<Rightarrow> nat \<Rightarrow> auth_db \<Rightarrow> nat \<times> auth_db" where
  "prune_loop 0 cutoff batchSize db = (0, db)"
| "prune_loop (Suc batches) cutoff batchSize db =
     (case prune_batch cutoff batchSize db of
        (removed, selected, db') \<Rightarrow>
          if selected < batchSize then (removed, db')
          else (case prune_loop batches cutoff batchSize db' of (rest, db'') \<Rightarrow> (removed + rest, db'')))"

text \<open>\<open>prune\<close>: an absent (or zero) option is its default, and both bounds are clamped.\<close>

definition prune :: "auth_lib \<Rightarrow> int \<Rightarrow> int \<Rightarrow> int \<Rightarrow> auth_db \<Rightarrow> nat \<times> auth_db" where
  "prune lib batchSize maxBatches t db =
     (let bs = min 1000 (max 1 (if batchSize = 0 then 1000 else batchSize));
          mb = min 10 (max 1 (if maxBatches = 0 then 10 else maxBatches));
          cutoff = fmt_seconds (date_sub lib t RETENTION_DAYS ''day'')
      in prune_loop (nat mb) cutoff (nat bs) db)"

section \<open>The device list\<close>

definition PAGE_SIZE :: nat where
  "PAGE_SIZE = 100"

definition session_unexpired :: "auth_env \<Rightarrow> auth_session \<Rightarrow> bool" where
  "session_unexpired env r \<longleftrightarrow> fmt_seconds (now env) < s_expires_at r"

text \<open>\<open>context\<close>: the account's identifier and the family of the presented refresh token.\<close>

definition session_context ::
  "auth_lib \<Rightarrow> auth_env \<Rightarrow> access \<Rightarrow> jsval \<Rightarrow> auth_db \<Rightarrow> (int \<times> string) result" where
  "session_context lib env acc rawRefreshToken db =
     (let userId = acc_user acc 0 in
      rbind (rguard (is_safe_integer userId \<and> 0 < int_of userId)
               (mk_UnauthorizedError ''Authentication required'')) (\<lambda>_.
      rbind (acc_can acc ''users:update'' userId) (\<lambda>_.
      rbind (rguard (is_str rawRefreshToken \<and> truthy rawRefreshToken)
               (ValidationError ''Sign in again to manage browser sessions'')) (\<lambda>_.
      rbind (hashToken lib rawRefreshToken) (\<lambda>h.
      case List.find (\<lambda>r. s_token_hash r = h \<and> s_user_id r = int_of userId \<and> s_revoked_at r = None \<and>
                          session_unexpired env r) (sessions db) of
        None \<Rightarrow> Inl (ValidationError ''This browser session cannot manage sessions; sign in again'')
      | Some current \<Rightarrow> Inr (int_of userId, s_family_id current))))))"

definition session_active :: "auth_env \<Rightarrow> int \<Rightarrow> auth_session \<Rightarrow> bool" where
  "session_active env userId r \<longleftrightarrow> s_user_id r = userId \<and> live_row r \<and> session_unexpired env r"

record device =
  d_family_id :: string
  d_current :: bool
  d_created_at :: int
  d_last_active_at :: int
  d_expires_at :: int
  d_ip :: jsval
  d_user_agent :: jsval

record device_list =
  dl_sessions :: "device list"
  dl_has_more :: bool
  dl_access_token_ttl_minutes :: nat

text \<open>\<open>new Map(rows.map(row => [row.family_id, row])).values()\<close>: one row per family, in the order the
  families first occur, each the last row of its family.\<close>

definition last_per_family :: "auth_session list \<Rightarrow> auth_session list" where
  "last_per_family rows =
     map (\<lambda>f. last (filter (\<lambda>r. s_family_id r = f) rows)) (dedup (map s_family_id rows))"

definition first_seen :: "int \<Rightarrow> string \<Rightarrow> auth_session list \<Rightarrow> int option" where
  "first_seen userId family rows =
     (case sort (map s_created_at (filter (\<lambda>r. s_user_id r = userId \<and> s_family_id r = family) rows)) of
        [] \<Rightarrow> None | t # _ \<Rightarrow> Some t)"

definition device_of :: "int \<Rightarrow> string \<Rightarrow> auth_db \<Rightarrow> auth_session \<Rightarrow> device" where
  "device_of userId currentFamily db r =
     \<lparr>d_family_id = s_family_id r, d_current = (s_family_id r = currentFamily),
      d_created_at = (case first_seen userId (s_family_id r) (sessions db) of
                        Some t \<Rightarrow> t | None \<Rightarrow> s_created_at r),
      d_last_active_at = (case s_last_used_at r of Some t \<Rightarrow> t | None \<Rightarrow> s_created_at r),
      d_expires_at = s_expires_at r, d_ip = s_created_ip r,
      d_user_agent = s_created_user_agent r\<rparr>"

text \<open>The newest page of active rows, one per family; the current family is put in front when the page
  does not hold it.\<close>

definition newest_page :: "auth_session list \<Rightarrow> auth_session list" where
  "newest_page act = take (PAGE_SIZE + 1) (rev (sort_key s_id act))"

definition listed_families :: "string \<Rightarrow> auth_session list \<Rightarrow> auth_session list" where
  "listed_families currentFamily act =
     (let fams = take PAGE_SIZE (last_per_family (newest_page act))
      in if (\<exists>r \<in> set fams. s_family_id r = currentFamily) then fams
         else (case List.find (\<lambda>r. s_family_id r = currentFamily) act of
                 None \<Rightarrow> fams
               | Some current \<Rightarrow> current # take (PAGE_SIZE - 1) fams))"

definition list_sessions ::
  "auth_lib \<Rightarrow> auth_env \<Rightarrow> access \<Rightarrow> jsval \<Rightarrow> auth_db \<Rightarrow> device_list result" where
  "list_sessions lib env acc rawRefreshToken db =
     rbind (session_context lib env acc rawRefreshToken db) (\<lambda>(userId, currentFamily).
       let act = filter (session_active env userId) (sessions db)
       in Inr \<lparr>dl_sessions = map (device_of userId currentFamily db) (listed_families currentFamily act),
               dl_has_more = (PAGE_SIZE < length (newest_page act)), dl_access_token_ttl_minutes = 15\<rparr>)"

definition is_hex :: "char \<Rightarrow> bool" where
  "is_hex c \<longleftrightarrow> is_digit c \<or> code_between 97 102 c \<or> code_between 65 70 c"

definition is_uuid :: "string \<Rightarrow> bool" where
  "is_uuid s \<longleftrightarrow> (let parts = split_char (CHR ''-'') s
     in map length parts = [8, 4, 4, 4, 12] \<and> (\<forall>p \<in> set parts. list_all is_hex p))"

text \<open>\<open>internalAuditLog.add\<close> for an entry that is not of a dynamic-DNS provider.\<close>

definition audit_add ::
  "access \<Rightarrow> string \<Rightarrow> string \<Rightarrow> int \<Rightarrow> jsval \<Rightarrow> auth_db \<Rightarrow> unit result \<times> auth_db" where
  "audit_add acc action object_type object_id meta db =
     (if action = [] then (Inl (InternalValidationError ''Audit log entry must contain an Action''), db)
      else (Inr (), db\<lparr>audit := audit db @ [\<lparr>au_user_id = acc_user acc 1, au_action = action,
              au_object_type = object_type, au_object_id = object_id, au_meta = meta\<rparr>]\<rparr>))"

definition revoke_device ::
  "auth_lib \<Rightarrow> auth_env \<Rightarrow> access \<Rightarrow> jsval \<Rightarrow> jsval \<Rightarrow> auth_db \<Rightarrow> unit result \<times> auth_db" where
  "revoke_device lib env acc rawRefreshToken familyId db =
     (if \<not> (is_str familyId \<and> is_uuid (str_of familyId))
      then (Inl (ValidationError ''Invalid session family ID''), db)
      else case session_context lib env acc rawRefreshToken db of
        Inl e \<Rightarrow> (Inl e, db)
      | Inr (userId, currentFamily) \<Rightarrow>
          if str_of familyId = currentFamily
          then (Inl (ValidationError ''Use logout to end the current browser session''), db)
          else (case revoke_where env ''device_revoked''
                       (\<lambda>r. s_user_id r = userId \<and> s_family_id r = str_of familyId) db of
                  (n, db') \<Rightarrow>
                    if n = 0 then (Inl (mk_ItemNotFoundError []), db')
                    else audit_add acc ''updated'' ''user'' userId
                           (JObj [(''session_revoked'', JBool True), (''family_id'', familyId)]) db'))"

definition revoke_others ::
  "auth_lib \<Rightarrow> auth_env \<Rightarrow> access \<Rightarrow> jsval \<Rightarrow> auth_db \<Rightarrow> nat result \<times> auth_db" where
  "revoke_others lib env acc rawRefreshToken db =
     (case session_context lib env acc rawRefreshToken db of
        Inl e \<Rightarrow> (Inl e, db)
      | Inr (userId, currentFamily) \<Rightarrow>
          (case revoke_where env ''other_devices_revoked''
                  (\<lambda>r. s_user_id r = userId \<and> s_family_id r \<noteq> currentFamily) db of
             (n, db') \<Rightarrow>
               (case audit_add acc ''updated'' ''user'' userId
                       (JObj [(''other_sessions_revoked'', JBool True)]) db' of
                  (Inl e, db'') \<Rightarrow> (Inl e, db'')
                | (Inr _, db'') \<Rightarrow> (Inr n, db''))))"

end
