(* ===== verification/Auth_Session_Inv.thy ===== *)
theory Auth_Session_Inv
  imports Auth_Session
begin

text \<open>
  Correctness of browser sessions. The system state holds the database, the refresh transactions that
  have read their row but not yet written, and the family identifiers drawn so far. The step relation
  interleaves every operation of the component; its invariant gives the rotation guarantees: one live
  token per family, replay and race detection, and the finality of a revocation.
\<close>

section \<open>Rows only move forward\<close>

definition wf_row :: "auth_session \<Rightarrow> bool" where
  "wf_row r \<longleftrightarrow> (s_replaced_by_session_id r \<noteq> None \<longrightarrow> s_rotated_at r \<noteq> None)"

definition succ_row :: "auth_session \<Rightarrow> auth_session \<Rightarrow> bool" where
  "succ_row r r' \<longleftrightarrow> s_id r' = s_id r \<and> s_token_hash r' = s_token_hash r \<and> s_family_id r' = s_family_id r \<and>
     s_expires_at r' = s_expires_at r \<and> s_user_id r' = s_user_id r \<and>
     (wf_row r \<longrightarrow> wf_row r' \<and> (live_row r' \<longrightarrow> live_row r)) \<and>
     (s_revoked_at r \<noteq> None \<longrightarrow> s_revoked_at r' = s_revoked_at r) \<and>
     (s_rotated_at r \<noteq> None \<longrightarrow> s_rotated_at r' \<noteq> None)"

text \<open>A table evolves when rows are dropped or replaced by later versions of themselves.\<close>

definition evolves :: "auth_session list \<Rightarrow> auth_session list \<Rightarrow> bool" where
  "evolves rows rows' \<longleftrightarrow>
     (\<exists>f p. rows' = map f (filter p rows) \<and> (\<forall>r \<in> set rows. p r \<longrightarrow> succ_row r (f r)))"

lemma succ_row_refl [simp]: "succ_row r r"
  by (simp add: succ_row_def)

lemma succ_row_trans: "succ_row r r' \<Longrightarrow> succ_row r' r'' \<Longrightarrow> succ_row r r''"
  by (auto simp: succ_row_def)

lemma evolves_refl [simp, intro]: "evolves rows rows"
  unfolding evolves_def by (rule exI [of _ id], rule exI [of _ "\<lambda>_. True"]) simp

lemma evolves_trans:
  assumes "evolves a b" and "evolves b c"
  shows "evolves a c"
proof -
  from assms(1) obtain f p where b: "b = map f (filter p a)" and f: "\<forall>r \<in> set a. p r \<longrightarrow> succ_row r (f r)"
    unfolding evolves_def by blast
  from assms(2) obtain g q where c: "c = map g (filter q b)" and g: "\<forall>r \<in> set b. q r \<longrightarrow> succ_row r (g r)"
    unfolding evolves_def by blast
  have "c = map (g \<circ> f) (filter (\<lambda>r. p r \<and> q (f r)) a)"
    by (simp add: b c filter_map comp_def conj_commute)
  moreover have "\<forall>r \<in> set a. (p r \<and> q (f r)) \<longrightarrow> succ_row r ((g \<circ> f) r)"
    using f g by (auto simp: b intro: succ_row_trans)
  ultimately show ?thesis unfolding evolves_def by blast
qed

lemma evolves_patch:
  "(\<And>r. r \<in> set rows \<Longrightarrow> p r \<Longrightarrow> succ_row r (f r)) \<Longrightarrow> evolves rows (patch_where p f rows)"
  unfolding evolves_def patch_where_def
  by (rule exI [of _ "\<lambda>r. if p r then f r else r"], rule exI [of _ "\<lambda>_. True"]) simp

lemma evolves_delete: "evolves rows (delete_where p rows)"
  unfolding evolves_def delete_where_def
  by (rule exI [of _ id], rule exI [of _ "\<lambda>r. \<not> p r"]) simp

lemma evolvesE:
  "evolves rows rows' \<Longrightarrow> r' \<in> set rows' \<Longrightarrow> \<exists>r \<in> set rows. succ_row r r'"
  unfolding evolves_def by force

lemma evolves_distinct:
  assumes "evolves rows rows'" and "distinct (map h rows)" and "\<And>r r'. succ_row r r' \<Longrightarrow> h r' = h r"
  shows "distinct (map h rows')"
proof -
  from assms(1) obtain f p where rows': "rows' = map f (filter p rows)"
    and f: "\<forall>r \<in> set rows. p r \<longrightarrow> succ_row r (f r)" unfolding evolves_def by blast
  have "map h rows' = map h (filter p rows)"
    using f assms(3) by (auto simp: rows')
  then show ?thesis using assms(2) by (simp add: distinct_map_filter)
qed

lemma succ_revoke_row: "s_revoked_at r = None \<Longrightarrow> succ_row r (revoke_row t reason r)"
  by (auto simp: succ_row_def revoke_row_def wf_row_def live_row_def)

lemma succ_rotate_row: "live_row r \<Longrightarrow> succ_row r (rotate_row t n r)"
  by (auto simp: succ_row_def rotate_row_def wf_row_def live_row_def)

section \<open>The invariant of the table\<close>

definition rows_ok :: "auth_session list \<Rightarrow> nat \<Rightarrow> bool" where
  "rows_ok rows n \<longleftrightarrow> 0 < n \<and> distinct (map s_id rows) \<and> distinct (map s_token_hash rows) \<and>
     (\<forall>r \<in> set rows. 0 < s_id r \<and> s_id r < n \<and> s_family_id r \<noteq> [] \<and> wf_row r)"

definition single_live :: "auth_session list \<Rightarrow> bool" where
  "single_live rows \<longleftrightarrow> (\<forall>r \<in> set rows. \<forall>r' \<in> set rows.
     live_row r \<and> live_row r' \<and> s_family_id r = s_family_id r' \<longrightarrow> r = r')"

definition dead_family :: "string \<Rightarrow> auth_session list \<Rightarrow> bool" where
  "dead_family f rows \<longleftrightarrow> (\<forall>r \<in> set rows. s_family_id r = f \<longrightarrow> \<not> live_row r)"

lemma dead_family_append [simp]: "dead_family f (xs @ ys) \<longleftrightarrow> dead_family f xs \<and> dead_family f ys"
  by (auto simp: dead_family_def)

lemma dead_family_single [simp]: "dead_family f [s] \<longleftrightarrow> (s_family_id s = f \<longrightarrow> \<not> live_row s)"
  by (simp add: dead_family_def)

lemma evolves_rows_ok:
  assumes ev: "evolves rows rows'" and ok: "rows_ok rows n"
  shows "rows_ok rows' n"
proof -
  have "distinct (map s_id rows')" "distinct (map s_token_hash rows')"
    using ok by (auto simp: rows_ok_def succ_row_def intro: evolves_distinct [OF ev])
  moreover have "0 < s_id r \<and> s_id r < n \<and> s_family_id r \<noteq> [] \<and> wf_row r" if "r \<in> set rows'" for r
    using evolvesE [OF ev that] ok by (auto simp: rows_ok_def succ_row_def)
  ultimately show ?thesis using ok by (auto simp: rows_ok_def)
qed

lemma evolves_single_live:
  assumes ev: "evolves rows rows'" and ok: "rows_ok rows n" and sl: "single_live rows"
  shows "single_live rows'"
  unfolding single_live_def
proof (intro ballI impI)
  fix r r' assume r: "r \<in> set rows'" and r': "r' \<in> set rows'"
    and live: "live_row r \<and> live_row r' \<and> s_family_id r = s_family_id r'"
  from evolvesE [OF ev r] obtain q where q: "q \<in> set rows" "succ_row q r" by blast
  from evolvesE [OF ev r'] obtain q' where q': "q' \<in> set rows" "succ_row q' r'" by blast
  have "q = q'" using sl q q' live ok unfolding single_live_def rows_ok_def succ_row_def by metis
  then have "s_id r = s_id r'" using q q' by (simp add: succ_row_def)
  moreover have "rows_ok rows' n" using ev ok by (rule evolves_rows_ok)
  ultimately show "r = r'" using r r' unfolding rows_ok_def by (blast dest: distinct_key_eq)
qed

lemma evolves_dead_family:
  "evolves rows rows' \<Longrightarrow> rows_ok rows n \<Longrightarrow> dead_family f rows \<Longrightarrow> dead_family f rows'"
  unfolding dead_family_def rows_ok_def by (fastforce dest: evolvesE simp: succ_row_def)

lemma evolves_family:
  "evolves rows rows' \<Longrightarrow> r' \<in> set rows' \<Longrightarrow> \<exists>r \<in> set rows. s_id r = s_id r' \<and> s_family_id r = s_family_id r'"
  by (fastforce dest: evolvesE simp: succ_row_def)

section \<open>Effects of the operations\<close>

lemma revoke_where_evolves: "revoke_where env reason p db = (n, db') \<Longrightarrow>
    evolves (sessions db) (sessions db') \<and> next_session db' = next_session db"
  by (auto simp: revoke_where_def Let_def intro!: evolves_patch succ_revoke_row)

lemma revoke_where_revoked:
  "revoke_where env reason p db = (n, db') \<Longrightarrow> (\<And>r. p (revoke_row (now env) reason r) = p r) \<Longrightarrow>
     r \<in> set (sessions db') \<Longrightarrow> p r \<Longrightarrow> s_revoked_at r \<noteq> None"
  by (auto simp: revoke_where_def Let_def tbl_simps revoke_row_def split: if_splits)

lemma revokeFamily_dead:
  assumes "revokeFamily env f reason db = (Inr n, db')"
  shows "dead_family f (sessions db')"
proof -
  from assms have *: "revoke_where env reason (\<lambda>r. s_family_id r = f) db = (n, db')"
    by (auto simp: revokeFamily_def split: if_splits prod.splits)
  show ?thesis
    using revoke_where_revoked [OF *] by (auto simp: dead_family_def live_row_def revoke_row_def)
qed

lemma revokeFamily_evolves: "revokeFamily env f reason db = (out, db') \<Longrightarrow>
    evolves (sessions db) (sessions db') \<and> next_session db' = next_session db"
  by (auto simp: revokeFamily_def split: if_splits prod.splits dest: revoke_where_evolves)

lemma revokeSession_evolves: "revokeSession env i reason db = (out, db') \<Longrightarrow>
    evolves (sessions db) (sessions db') \<and> next_session db' = next_session db"
  by (auto simp: revokeSession_def split: if_splits prod.splits dest: revoke_where_evolves)

lemma audit_add_frame: "audit_add acc a t i m db = (out, db') \<Longrightarrow>
    sessions db' = sessions db \<and> next_session db' = next_session db"
  by (auto simp: audit_add_def split: if_splits)

lemma revoke_device_evolves: "revoke_device lib env acc raw fam db = (out, db') \<Longrightarrow>
    evolves (sessions db) (sessions db') \<and> next_session db' = next_session db"
  by (auto simp: revoke_device_def split: if_splits prod.splits sum.splits
      dest!: revoke_where_evolves audit_add_frame)

lemma revoke_others_evolves: "revoke_others lib env acc raw db = (out, db') \<Longrightarrow>
    evolves (sessions db) (sessions db') \<and> next_session db' = next_session db"
  by (auto simp: revoke_others_def split: if_splits prod.splits sum.splits
      dest!: revoke_where_evolves audit_add_frame)

lemma refresh_check_evolves:
  "refresh_check env session db = (dec, db') \<Longrightarrow> evolves (sessions db) (sessions db') \<and> next_session db' = next_session db"
  by (auto simp: refresh_check_def stop_def reject_after_def split: if_splits option.splits prod.splits sum.splits
      dest: revokeFamily_evolves revokeSession_evolves)

lemma refresh_check_Continue:
  "refresh_check env session db = (Continue user, db') \<Longrightarrow>
     db' = db \<and> live_row session \<and> now env \<le> s_expires_at session \<and>
     user \<in> set (users db) \<and> su_id user = s_user_id session \<and> \<not> su_is_deleted user \<and> \<not> su_is_disabled user"
  by (auto simp: refresh_check_def stop_def live_row_def split: if_splits option.splits dest!: find_SomeD)

lemma prune_batch_evolves:
  assumes "\<forall>r \<in> set (sessions db). wf_row r" and "prune_batch cutoff bs db = (n, m, db')"
  shows "evolves (sessions db) (sessions db') \<and> next_session db' = next_session db"
proof -
  define ids where "ids = map s_id (take bs (sort_key s_expires_at (sort_key s_id
    (filter (\<lambda>r. s_expires_at r < cutoff) (sessions db)))))"
  define t1 where "t1 = patch_where (\<lambda>r. \<exists>i \<in> set ids. s_parent_session_id r = Some i)
     (\<lambda>r. r\<lparr>s_parent_session_id := None\<rparr>) (sessions db)"
  define t2 where "t2 = patch_where (\<lambda>r. \<exists>i \<in> set ids. s_replaced_by_session_id r = Some i)
     (\<lambda>r. r\<lparr>s_replaced_by_session_id := None\<rparr>) t1"
  have e1: "evolves (sessions db) t1"
    unfolding t1_def by (rule evolves_patch) (auto simp: succ_row_def wf_row_def live_row_def)
  have w1: "\<forall>r \<in> set t1. wf_row r"
    using assms(1) by (auto simp: t1_def tbl_simps wf_row_def)
  have e2: "evolves t1 t2"
    unfolding t2_def by (rule evolves_patch) (use w1 in \<open>auto simp: succ_row_def wf_row_def live_row_def\<close>)
  have "sessions db' = sessions db \<or> sessions db' = delete_where (\<lambda>r. s_id r \<in> set ids \<and> s_expires_at r < cutoff) t2"
    and nxt: "next_session db' = next_session db"
    using assms(2) by (auto simp: prune_batch_def Let_def t1_def t2_def ids_def split: if_splits)
  with e1 e2 show ?thesis by (metis evolves_delete evolves_refl evolves_trans)
qed

lemma prune_loop_evolves:
  "\<forall>r \<in> set (sessions db). wf_row r \<Longrightarrow> prune_loop k cutoff bs db = (n, db') \<Longrightarrow>
     evolves (sessions db) (sessions db') \<and> next_session db' = next_session db"
proof (induction k arbitrary: db n)
  case 0
  then show ?case by simp
next
  case (Suc k)
  obtain m sel d where b: "prune_batch cutoff bs db = (m, sel, d)" by (cases "prune_batch cutoff bs db")
  note e = prune_batch_evolves [OF Suc.prems(1) b]
  have w: "\<forall>r \<in> set (sessions d). wf_row r"
    using e Suc.prems(1) by (auto dest!: evolvesE simp: succ_row_def)
  show ?case
  proof (cases "sel < bs")
    case True
    with Suc.prems(2) b e show ?thesis by auto
  next
    case False
    with Suc.prems(2) b obtain n' where "prune_loop k cutoff bs d = (n', db')"
      by (auto split: prod.splits)
    from Suc.IH [OF w this] e show ?thesis by (auto intro: evolves_trans)
  qed
qed

lemma prune_evolves:
  "\<forall>r \<in> set (sessions db). wf_row r \<Longrightarrow> prune lib bs mb t db = (n, db') \<Longrightarrow>
     evolves (sessions db) (sessions db') \<and> next_session db' = next_session db"
  by (auto simp: prune_def Let_def dest: prune_loop_evolves)

text \<open>What an insert adds: one live row of the given family under the next identifier.\<close>

lemma createRefreshSession_ok:
  assumes "createRefreshSession lib env uid scope raw fam parent meta db = (Inr s, db')" and "fam \<noteq> []"
  shows "sessions db' = sessions db @ [s] \<and> next_session db' = Suc (next_session db) \<and>
     s_id s = next_session db \<and> s_family_id s = fam \<and> live_row s \<and> wf_row s \<and> s_parent_session_id s = parent \<and>
     s_scope s = scope \<and> s_user_id s = uid \<and> users db' = users db \<and> raw \<noteq> [] \<and>
     s_token_hash s = sha256 lib raw \<and> s_token_hash s \<notin> s_token_hash ` set (sessions db)"
  using assms
  by (auto simp: createRefreshSession_def insert_session_def before_insert_def session_normalizeScope_def
      live_row_def wf_row_def hashToken_def Let_def split: sum.splits if_splits)

lemma createRefreshSession_fail:
  "createRefreshSession lib env uid scope raw fam parent meta db = (Inl e, db') \<Longrightarrow> db' = db"
  by (auto simp: createRefreshSession_def insert_session_def Let_def split: sum.splits if_splits)

lemma rows_ok_insert:
  "rows_ok rows n \<Longrightarrow> s_id s = n \<Longrightarrow> s_family_id s \<noteq> [] \<Longrightarrow> wf_row s \<Longrightarrow>
     s_token_hash s \<notin> s_token_hash ` set rows \<Longrightarrow> rows_ok (rows @ [s]) (Suc n)"
  unfolding rows_ok_def by auto

lemma single_live_insert:
  "single_live rows \<Longrightarrow> dead_family (s_family_id s) rows \<Longrightarrow> single_live (rows @ [s])"
  unfolding single_live_def dead_family_def by (auto; metis)

text \<open>The three ways the second half of a refresh can end.\<close>

lemma rotate_session_cases:
  assumes "rotate_session lib env meta session user db = (out, db')" and "s_family_id session \<noteq> []"
    and "s_id session < next_session db"
  obtains (rollback) e where "out = Rollback e" "db' = db"
  | (race) s where "out = Reject (mk_UnauthorizedError ''Refresh token replay detected'')"
      "\<forall>r \<in> set (sessions db). s_id r = s_id session \<longrightarrow> \<not> live_row r"
      "s_id s = next_session db" "s_family_id s = s_family_id session" "wf_row s"
      "s_token_hash s \<notin> s_token_hash ` set (sessions db)"
      "evolves (sessions db @ [s]) (sessions db')" "next_session db' = Suc (next_session db)"
      "dead_family (s_family_id session) (sessions db')"
  | (grant) resp s q where "out = Grant resp"
      "q \<in> set (sessions db)" "s_id q = s_id session" "live_row q"
      "s_id s = next_session db" "s_family_id s = s_family_id session" "live_row s" "wf_row s"
      "s_token_hash s \<notin> s_token_hash ` set (sessions db)"
      "s_parent_session_id s = Some (s_id session)" "s_scope s = s_scope session" "s_user_id s = su_id user"
      "s_token_hash s = sha256 lib (random_refresh env)"
      "sessions db' = patch_where (\<lambda>r. s_id r = s_id session \<and> live_row r) (rotate_row (now env) (s_id s))
         (sessions db @ [s])"
      "next_session db' = Suc (next_session db)"
      "t_refresh_token resp = random_refresh env" "t_session resp = \<lparr>i_id = s_id s, i_family_id = s_family_id s,
         i_parent_session_id = s_parent_session_id s, i_scope = s_scope s, i_expires_at = s_expires_at s\<rparr>"
proof -
  obtain res db1 where c: "createRefreshSession lib env (su_id user) (s_scope session) (random_refresh env)
      (s_family_id session) (Some (s_id session)) meta db = (res, db1)" by fastforce
  show thesis
  proof (cases res)
    case (Inl e)
    with assms c rollback show thesis by (auto simp: rotate_session_def)
  next
    case (Inr s)
    let ?q = "\<lambda>r. s_id r = s_id session \<and> live_row r"
    note s = createRefreshSession_ok [OF c [unfolded Inr] assms(2)]
    have ev: "evolves (sessions db @ [s]) (patch_where ?q (rotate_row (now env) (s_id s)) (sessions db @ [s]))"
      by (rule evolves_patch) (auto intro: succ_rotate_row)
    show thesis
    proof (cases "count_where ?q (sessions db1) = 0")
      case True
      let ?db2 = "db1\<lparr>sessions := patch_where ?q (rotate_row (now env) (s_id s)) (sessions db1)\<rparr>"
      obtain n db3 where rf: "revokeFamily env (s_family_id session) ''refresh_token_rotation_race'' ?db2 = (Inr n, db3)"
        using assms(2) by (cases "revokeFamily env (s_family_id session) ''refresh_token_rotation_race'' ?db2")
          (auto simp: revokeFamily_def split: prod.splits)
      have out: "out = Reject (mk_UnauthorizedError ''Refresh token replay detected'')" "db' = db3"
        using assms(1) c Inr True rf by (auto simp: rotate_session_def Let_def reject_after_def)
      note r = revokeFamily_evolves [OF rf] revokeFamily_dead [OF rf]
      show thesis
        by (rule race [of s]) (use s True out r ev in \<open>auto simp: count_where_0 intro: evolves_trans\<close>)
    next
      case False
      then obtain q where q: "q \<in> set (sessions db)" "?q q"
        using s assms(3) by (auto simp: count_where_0)
      show thesis
      proof (cases "buildAccessToken env (su_id user) (s_scope session)")
        case (Inl e)
        with False assms(1) c \<open>res = Inr s\<close> rollback show thesis
          by (auto simp: rotate_session_def Let_def)
      next
        case acc: (Inr at)
        show thesis
          by (rule grant [of "buildTokenResponse lib env at (random_refresh env) s (Some user)" q s])
             (use False assms(1) c \<open>res = Inr s\<close> acc s q in
               \<open>auto simp: rotate_session_def Let_def buildTokenResponse_def\<close>)
      qed
    qed
  qed
qed

section \<open>The interleaved system\<close>

record auth_sys =
  adb :: auth_db
  pend :: "(auth_session \<times> session_user) list"
  used :: "string set"

text \<open>One step: a whole operation, or one half of a refresh. A new login draws a family identifier
  that was never used before (it is a random UUID); everything else is unrestricted.\<close>

inductive auth_step :: "auth_lib \<Rightarrow> auth_sys \<Rightarrow> auth_sys \<Rightarrow> bool" for lib where
  issue: "random_family env \<notin> used S \<Longrightarrow> random_family env \<noteq> [] \<Longrightarrow>
    js_get meta ''family_id'' = Undef \<Longrightarrow> js_get meta ''familyId'' = Undef \<Longrightarrow>
    issueTokenPair lib env user scope meta (adb S) = (res, d) \<Longrightarrow>
    auth_step lib S (S\<lparr>adb := d, used := insert (random_family env) (used S)\<rparr>)"
| refresh_stop: "find_session lib raw (adb S) = Some session \<Longrightarrow>
    refresh_check env session (adb S) = (Stop out, d) \<Longrightarrow> auth_step lib S (S\<lparr>adb := d\<rparr>)"
| refresh_read: "find_session lib raw (adb S) = Some session \<Longrightarrow>
    refresh_check env session (adb S) = (Continue user, d) \<Longrightarrow>
    auth_step lib S (S\<lparr>adb := d, pend := (session, user) # pend S\<rparr>)"
| refresh_write: "(session, user) \<in> set (pend S) \<Longrightarrow>
    rotate_session lib env meta session user (adb S) = (out, d) \<Longrightarrow>
    auth_step lib S (S\<lparr>adb := d, pend := remove1 (session, user) (pend S)\<rparr>)"
| revoke_one: "revokeSession env i reason (adb S) = (n, d) \<Longrightarrow> auth_step lib S (S\<lparr>adb := d\<rparr>)"
| revoke_family: "revokeFamily env f reason (adb S) = (n, d) \<Longrightarrow> auth_step lib S (S\<lparr>adb := d\<rparr>)"
| log_out: "auth_step lib S (S\<lparr>adb := logout lib env raw (adb S)\<rparr>)"
| device: "revoke_device lib env acc raw fam (adb S) = (u, d) \<Longrightarrow> auth_step lib S (S\<lparr>adb := d\<rparr>)"
| others: "revoke_others lib env acc raw (adb S) = (n', d) \<Longrightarrow> auth_step lib S (S\<lparr>adb := d\<rparr>)"
| retention: "prune lib bs mb t (adb S) = (n'', d) \<Longrightarrow> auth_step lib S (S\<lparr>adb := d\<rparr>)"
| accounts: "auth_step lib S (S\<lparr>adb := (adb S)\<lparr>users := us\<rparr>\<rparr>)"

text \<open>A pending refresh remembers a row that was in the table: whatever row carries its identifier
  now is of the same family.\<close>

definition entry_ok :: "auth_session list \<Rightarrow> nat \<Rightarrow> string set \<Rightarrow> auth_session \<Rightarrow> bool" where
  "entry_ok rows n fams s \<longleftrightarrow> s_family_id s \<noteq> [] \<and> s_family_id s \<in> fams \<and> s_id s < n \<and>
     (\<forall>r \<in> set rows. s_id r = s_id s \<longrightarrow> s_family_id r = s_family_id s)"

definition pend_ok :: "auth_sys \<Rightarrow> bool" where
  "pend_ok S \<longleftrightarrow>
     (\<forall>x \<in> set (pend S). entry_ok (sessions (adb S)) (next_session (adb S)) (used S) (fst x))"

definition sys_inv :: "auth_sys \<Rightarrow> bool" where
  "sys_inv S \<longleftrightarrow> rows_ok (sessions (adb S)) (next_session (adb S)) \<and> single_live (sessions (adb S)) \<and>
     (\<forall>r \<in> set (sessions (adb S)). s_family_id r \<in> used S) \<and> pend_ok S"

definition family_ended :: "auth_sys \<Rightarrow> string \<Rightarrow> bool" where
  "family_ended S f \<longleftrightarrow> f \<in> used S \<and> dead_family f (sessions (adb S))"

lemma find_session_row: "find_session lib raw db = Some s \<Longrightarrow> s \<in> set (sessions db)"
  by (auto simp: find_session_def split: sum.splits dest: find_SomeD)

lemma logout_evolves: "evolves (sessions db) (sessions (logout lib env raw db)) \<and>
    next_session (logout lib env raw db) = next_session db"
  by (auto simp: logout_def split: option.splits)
     (metis revokeFamily_evolves prod.collapse)+

lemma entry_ok_mono:
  "entry_ok rows n fams s \<Longrightarrow> n \<le> n' \<Longrightarrow> fams \<subseteq> fams' \<Longrightarrow>
     (\<And>r. r \<in> set rows' \<Longrightarrow> s_id r < n \<Longrightarrow> \<exists>q \<in> set rows. s_id q = s_id r \<and> s_family_id q = s_family_id r) \<Longrightarrow>
     entry_ok rows' n' fams' s"
  unfolding entry_ok_def by (intro conjI ballI impI; metis in_mono less_le_trans)

lemma entries_mono:
  assumes "\<forall>x \<in> set P. entry_ok rows n fams (fst x)" and "set P' \<subseteq> set P" and "n \<le> n'" and "fams \<subseteq> fams'"
    and "\<And>r. r \<in> set rows' \<Longrightarrow> s_id r < n \<Longrightarrow> \<exists>q \<in> set rows. s_id q = s_id r \<and> s_family_id q = s_family_id r"
  shows "\<forall>x \<in> set P'. entry_ok rows' n' fams' (fst x)"
proof
  fix x assume "x \<in> set P'"
  with assms(1,2) have "entry_ok rows n fams (fst x)" by blast
  then show "entry_ok rows' n' fams' (fst x)" using assms(3-5) by (rule entry_ok_mono)
qed

lemma sys_inv_evolve:
  assumes "sys_inv S" and "evolves (sessions (adb S)) (sessions d) \<and> next_session d = next_session (adb S)"
  shows "sys_inv (S\<lparr>adb := d\<rparr>)"
proof -
  have fam: "\<exists>q \<in> set (sessions (adb S)). s_id q = s_id r \<and> s_family_id q = s_family_id r"
    if "r \<in> set (sessions d)" for r
    using assms(2) that by (blast dest: evolves_family)
  have "pend_ok (S\<lparr>adb := d\<rparr>)"
    unfolding pend_ok_def
    by (rule entries_mono [where P = "pend S" and rows = "sessions (adb S)" and fams = "used S"
          and n = "next_session (adb S)"])
       (use assms fam in \<open>simp_all add: sys_inv_def pend_ok_def\<close>)
  moreover have "\<forall>r \<in> set (sessions d). s_family_id r \<in> used S"
    using assms(1) fam unfolding sys_inv_def by metis
  ultimately show ?thesis
    using assms unfolding sys_inv_def by (auto intro: evolves_rows_ok evolves_single_live)
qed

lemma sys_inv_read:
  assumes "sys_inv S" and "session \<in> set (sessions (adb S))"
  shows "sys_inv (S\<lparr>pend := (session, user) # pend S\<rparr>)"
proof -
  have "entry_ok (sessions (adb S)) (next_session (adb S)) (used S) session"
    using assms unfolding sys_inv_def entry_ok_def rows_ok_def by (metis distinct_key_eq)
  then show ?thesis using assms unfolding sys_inv_def pend_ok_def by simp
qed

lemma sys_inv_issue:
  assumes inv: "sys_inv S" and fam: "random_family env \<notin> used S" "random_family env \<noteq> []"
    and meta: "js_get meta ''family_id'' = Undef" "js_get meta ''familyId'' = Undef"
    and iss: "issueTokenPair lib env user scope meta (adb S) = (res, d)"
  shows "sys_inv (S\<lparr>adb := d, used := insert (random_family env) (used S)\<rparr>)"
proof (cases "d = adb S")
  case True
  with inv show ?thesis by (auto simp: sys_inv_def pend_ok_def entry_ok_def)
next
  case False
  with iss meta fam obtain s where c: "createRefreshSession lib env (su_id user)
      (session_normalizeScope (if_undef scope (JStr ''user''))) (random_refresh env) (random_family env) None meta (adb S)
        = (Inr s, d)"
    by (auto simp: issueTokenPair_def Let_def js_or_def split: prod.splits sum.splits)
  note s = createRefreshSession_ok [OF c fam(2)]
  have "dead_family (s_family_id s) (sessions (adb S))"
    using inv fam s by (auto simp: sys_inv_def dead_family_def)
  moreover have "pend_ok (S\<lparr>adb := d, used := insert (random_family env) (used S)\<rparr>)"
    unfolding pend_ok_def
    by (rule entries_mono [where P = "pend S" and rows = "sessions (adb S)" and fams = "used S"
          and n = "next_session (adb S)"])
       (use inv s in \<open>auto simp: sys_inv_def pend_ok_def\<close>)
  ultimately show ?thesis
    using inv s fam unfolding sys_inv_def by (auto intro!: rows_ok_insert single_live_insert)
qed

lemma sys_inv_write:
  assumes inv: "sys_inv S" and p: "(session, user) \<in> set (pend S)"
    and rot: "rotate_session lib env meta session user (adb S) = (out, d)"
  shows "sys_inv (S\<lparr>adb := d, pend := remove1 (session, user) (pend S)\<rparr>)"
proof -
  let ?rows = "sessions (adb S)"
  have pend_sub: "set (remove1 (session, user) (pend S)) \<subseteq> set (pend S)" by (rule set_remove1_subset)
  from inv p have fam: "s_family_id session \<noteq> []" "s_family_id session \<in> used S"
    and sid: "s_id session < next_session (adb S)"
    and same: "\<And>r. r \<in> set ?rows \<Longrightarrow> s_id r = s_id session \<Longrightarrow> s_family_id r = s_family_id session"
    by (auto simp: sys_inv_def pend_ok_def entry_ok_def)
  have ok: "rows_ok ?rows (next_session (adb S))" and sl: "single_live ?rows" using inv by (auto simp: sys_inv_def)
  have add: "sys_inv (S\<lparr>adb := d, pend := remove1 (session, user) (pend S)\<rparr>)"
    if "evolves (?rows @ [s]) (sessions d)" "next_session d = Suc (next_session (adb S))"
       "single_live (sessions d)" "rows_ok (?rows @ [s]) (Suc (next_session (adb S)))"
       "s_family_id s = s_family_id session" "s_id s = next_session (adb S)" for s
  proof -
    have old: "\<exists>q \<in> set (?rows @ [s]). s_id q = s_id r \<and> s_family_id q = s_family_id r" if "r \<in> set (sessions d)" for r
      using evolves_family [OF \<open>evolves (?rows @ [s]) (sessions d)\<close> that] .
    have "pend_ok (S\<lparr>adb := d, pend := remove1 (session, user) (pend S)\<rparr>)"
      unfolding pend_ok_def
    proof (rule entries_mono [where P = "pend S" and rows = ?rows and fams = "used S" and n = "next_session (adb S)"])
      fix r assume "r \<in> set (sessions (adb (S\<lparr>adb := d, pend := remove1 (session, user) (pend S)\<rparr>)))"
        and "s_id r < next_session (adb S)"
      with old [of r] that show "\<exists>q \<in> set ?rows. s_id q = s_id r \<and> s_family_id q = s_family_id r" by auto
    qed (use inv that pend_sub in \<open>auto simp: sys_inv_def pend_ok_def\<close>)
    moreover have "\<forall>r \<in> set (sessions d). s_family_id r \<in> used S"
    proof
      fix r assume "r \<in> set (sessions d)"
      from old [OF this] inv fam that(5) show "s_family_id r \<in> used S" by (auto simp: sys_inv_def; metis)
    qed
    ultimately show ?thesis
      using that unfolding sys_inv_def by (auto intro: evolves_rows_ok)
  qed
  from rot fam(1) sid show ?thesis
  proof (cases rule: rotate_session_cases)
    case (rollback e)
    with inv pend_sub show ?thesis unfolding sys_inv_def pend_ok_def by auto
  next
    case (race s)
    have okS: "rows_ok (?rows @ [s]) (Suc (next_session (adb S)))"
      using ok race fam by (auto intro!: rows_ok_insert)
    have "single_live (sessions d)"
      unfolding single_live_def
    proof (intro ballI impI)
      fix r r' assume r: "r \<in> set (sessions d)" "r' \<in> set (sessions d)"
        and live: "live_row r \<and> live_row r' \<and> s_family_id r = s_family_id r'"
      have nf: "s_family_id r \<noteq> s_family_id session" using race(9) r live by (auto simp: dead_family_def)
      from r(1) race(7) obtain q where q: "q \<in> set (?rows @ [s])" "succ_row q r" by (blast dest: evolvesE)
      from r(2) race(7) obtain q' where q': "q' \<in> set (?rows @ [s])" "succ_row q' r'" by (blast dest: evolvesE)
      have "q \<in> set ?rows" "q' \<in> set ?rows" using q q' nf live race(4) by (auto simp: succ_row_def)
      moreover have "wf_row q" "wf_row q'" using okS q q' by (auto simp: rows_ok_def)
      ultimately have "q = q'" using sl q q' live unfolding single_live_def succ_row_def by metis
      then have "s_id r = s_id r'" using q q' by (simp add: succ_row_def)
      with r evolves_rows_ok [OF race(7) okS] show "r = r'"
        unfolding rows_ok_def by (blast dest: distinct_key_eq)
    qed
    with race okS show ?thesis by (intro add) auto
  next
    case (grant resp s q)
    let ?p = "\<lambda>r. s_id r = s_id session \<and> live_row r"
    have okS: "rows_ok (?rows @ [s]) (Suc (next_session (adb S)))"
      by (rule rows_ok_insert) (use ok grant fam in simp_all)
    have rows: "sessions d = patch_where ?p (rotate_row (now env) (s_id s)) ?rows @ [s]"
      using grant sid by simp
    have ev: "evolves ?rows (patch_where ?p (rotate_row (now env) (s_id s)) ?rows)"
      by (rule evolves_patch) (auto intro: succ_rotate_row)
    have "dead_family (s_family_id s) (patch_where ?p (rotate_row (now env) (s_id s)) ?rows)"
      unfolding dead_family_def
    proof (intro ballI impI notI)
      fix r assume r: "r \<in> set (patch_where ?p (rotate_row (now env) (s_id s)) ?rows)"
        and f: "s_family_id r = s_family_id s" and live: "live_row r"
      from r live obtain r0 where r0: "r0 \<in> set ?rows" "\<not> ?p r0" "r = r0"
        by (auto simp: tbl_simps rotate_row_def live_row_def split: if_splits)
      have "s_family_id q = s_family_id session" using grant same by blast
      then have "r0 = q" using sl r0 live f grant unfolding single_live_def by metis
      with r0 grant show False by simp
    qed
    then have "single_live (sessions d)"
      unfolding rows using evolves_single_live [OF ev ok sl] by (rule single_live_insert [rotated])
    moreover have "evolves (?rows @ [s]) (sessions d)"
      unfolding grant(14) by (rule evolves_patch) (auto intro: succ_rotate_row)
    ultimately show ?thesis using grant okS by (intro add) auto
  qed
qed

text \<open>Every step is a new login, one half of a refresh that gets that far, or an evolution of the table.\<close>

lemma auth_step_kinds:
  assumes step: "auth_step lib S S'" and inv: "sys_inv S"
  obtains (evolve) d where "S' = S\<lparr>adb := d\<rparr>"
      "evolves (sessions (adb S)) (sessions d) \<and> next_session d = next_session (adb S)"
  | (login) env meta user scope res d where
      "random_family env \<notin> used S" "random_family env \<noteq> []"
      "js_get meta ''family_id'' = Undef" "js_get meta ''familyId'' = Undef"
      "issueTokenPair lib env user scope meta (adb S) = (res, d)"
      "S' = S\<lparr>adb := d, used := insert (random_family env) (used S)\<rparr>"
  | (begun) session user where "session \<in> set (sessions (adb S))" "S' = S\<lparr>pend := (session, user) # pend S\<rparr>"
  | (finish) session user env meta out d where "(session, user) \<in> set (pend S)"
      "rotate_session lib env meta session user (adb S) = (out, d)"
      "S' = S\<lparr>adb := d, pend := remove1 (session, user) (pend S)\<rparr>"
  using step
proof cases
  case (issue env meta user scope res d)
  then show thesis by (intro login) auto
next
  case (refresh_stop raw session env out d)
  show thesis by (rule evolve [OF refresh_stop(1) refresh_check_evolves [OF refresh_stop(3)]])
next
  case (refresh_read raw session env user d)
  then have "d = adb S" by (blast dest: refresh_check_Continue)
  with refresh_read show thesis by (intro begun) (auto dest: find_session_row)
next
  case (refresh_write session user env meta out d)
  then show thesis by (intro finish) auto
next
  case (revoke_one env i reason n d)
  show thesis by (rule evolve [OF revoke_one(1) revokeSession_evolves [OF revoke_one(2)]])
next
  case (revoke_family env f reason n d)
  show thesis by (rule evolve [OF revoke_family(1) revokeFamily_evolves [OF revoke_family(2)]])
next
  case (log_out env raw)
  show thesis by (rule evolve [OF log_out logout_evolves])
next
  case (device env acc raw fam u d)
  show thesis by (rule evolve [OF device(1) revoke_device_evolves [OF device(2)]])
next
  case (others env acc raw n' d)
  show thesis by (rule evolve [OF others(1) revoke_others_evolves [OF others(2)]])
next
  case (retention bs mb t n'' d)
  have "\<forall>r \<in> set (sessions (adb S)). wf_row r" using inv by (simp add: sys_inv_def rows_ok_def)
  from prune_evolves [OF this retention(2)] show thesis by (rule evolve [OF retention(1)])
next
  case (accounts us)
  show thesis by (rule evolve [OF accounts]) simp
qed

lemma auth_step_inv:
  assumes inv: "sys_inv S" and step: "auth_step lib S S'"
  shows "sys_inv S'"
  using step inv
proof (cases rule: auth_step_kinds)
  case (evolve d)
  with inv sys_inv_evolve show ?thesis by simp
next
  case (login env meta user scope res d)
  with inv sys_inv_issue show ?thesis by simp
next
  case (begun session user)
  with inv sys_inv_read show ?thesis by simp
next
  case (finish session user env meta out d)
  with inv sys_inv_write show ?thesis by simp
qed

lemma family_ended_evolve:
  "sys_inv S \<Longrightarrow> evolves (sessions (adb S)) (sessions d) \<Longrightarrow> family_ended S f \<Longrightarrow>
     family_ended (S\<lparr>adb := d\<rparr>) f"
  unfolding family_ended_def sys_inv_def by (auto intro: evolves_dead_family)

lemma family_ended_write:
  assumes inv: "sys_inv S" and p: "(session, user) \<in> set (pend S)"
    and rot: "rotate_session lib env meta session user (adb S) = (out, d)" and e: "family_ended S f"
  shows "family_ended (S\<lparr>adb := d, pend := remove1 (session, user) (pend S)\<rparr>) f"
proof -
  from inv p have fam: "s_family_id session \<noteq> []" and sid: "s_id session < next_session (adb S)"
    and same: "\<And>r. r \<in> set (sessions (adb S)) \<Longrightarrow> s_id r = s_id session \<Longrightarrow> s_family_id r = s_family_id session"
    by (auto simp: sys_inv_def pend_ok_def entry_ok_def)
  have ok: "rows_ok (sessions (adb S)) (next_session (adb S))" using inv by (simp add: sys_inv_def)
  from rot fam sid show ?thesis
  proof (cases rule: rotate_session_cases)
    case (rollback e)
    with e show ?thesis by (simp add: family_ended_def)
  next
    case (race s)
    have "dead_family f (sessions d)"
    proof (cases "f = s_family_id session")
      case False
      then have "dead_family f (sessions (adb S) @ [s])"
        using e race by (auto simp: family_ended_def dead_family_def)
      moreover have "rows_ok (sessions (adb S) @ [s]) (Suc (next_session (adb S)))"
        by (rule rows_ok_insert) (use ok race fam in simp_all)
      ultimately show ?thesis using race evolves_dead_family by blast
    qed (use race in simp)
    with e show ?thesis by (simp add: family_ended_def)
  next
    case (grant resp s q)
    then have "f \<noteq> s_family_id session" using e same by (auto simp: family_ended_def dead_family_def)
    moreover have "dead_family f (patch_where (\<lambda>r. s_id r = s_id session \<and> live_row r)
       (rotate_row (now env) (s_id s)) (sessions (adb S)))"
      by (rule evolves_dead_family [OF evolves_patch ok])
         (use e in \<open>auto simp: family_ended_def intro: succ_rotate_row\<close>)
    moreover have "sessions d = patch_where (\<lambda>r. s_id r = s_id session \<and> live_row r)
       (rotate_row (now env) (s_id s)) (sessions (adb S)) @ [s]" using grant sid by simp
    ultimately have "dead_family f (sessions d)" using grant(6) by simp
    with e show ?thesis by (simp add: family_ended_def)
  qed
qed

lemma family_ended_issue:
  assumes "random_family env \<notin> used S" "random_family env \<noteq> []"
    and "js_get meta ''family_id'' = Undef" "js_get meta ''familyId'' = Undef"
    and iss: "issueTokenPair lib env user scope meta (adb S) = (res, d)" and e: "family_ended S f"
  shows "family_ended (S\<lparr>adb := d, used := insert (random_family env) (used S)\<rparr>) f"
proof (cases "d = adb S")
  case False
  with iss assms(3,4) obtain s where c: "createRefreshSession lib env (su_id user)
      (session_normalizeScope (if_undef scope (JStr ''user''))) (random_refresh env) (random_family env) None meta (adb S)
        = (Inr s, d)"
    using assms(2) by (auto simp: issueTokenPair_def Let_def js_or_def split: prod.splits sum.splits)
  from createRefreshSession_ok [OF c assms(2)] e assms(1) show ?thesis
    by (auto simp: family_ended_def dead_family_def)
qed (use e in \<open>simp add: family_ended_def\<close>)

lemma auth_step_family_ended:
  assumes inv: "sys_inv S" and step: "auth_step lib S S'" and e: "family_ended S f"
  shows "family_ended S' f"
  using step inv
proof (cases rule: auth_step_kinds)
  case (evolve d)
  with inv e family_ended_evolve show ?thesis by simp
next
  case (login env meta user scope res d)
  with e family_ended_issue show ?thesis by simp
next
  case (begun session user)
  with e show ?thesis by (simp add: family_ended_def)
next
  case (finish session user env meta out d)
  with inv e family_ended_write show ?thesis by simp
qed

interpretation auth: stable_system "auth_step lib" sys_inv family_ended for lib
  by unfold_locales (blast intro: auth_step_inv auth_step_family_ended)+

end
