(* ===== verification/Auth_Session_Props.thy ===== *)
theory Auth_Session_Props
  imports Auth_Session_Inv
begin

text \<open>
  The guarantees of browser sessions, stated over the operations of \<open>Auth_Session\<close> and the interleaved
  system of \<open>Auth_Session_Inv\<close>, each with a concrete run as its witness.
\<close>

section \<open>Reachable states\<close>

definition auth_init :: "session_user list \<Rightarrow> auth_sys" where
  "auth_init us = \<lparr>adb = \<lparr>sessions = [], next_session = 1, users = us, audit = []\<rparr>, pend = [], used = {}\<rparr>"

lemma auth_init_inv: "sys_inv (auth_init us)"
  by (simp add: auth_init_def sys_inv_def rows_ok_def single_live_def pend_ok_def)

lemma reachable_inv: "(auth_step lib)\<^sup>*\<^sup>* (auth_init us) S \<Longrightarrow> sys_inv S"
  by (blast intro: auth.steps_inv auth_init_inv)

section \<open>Outcomes of a refresh\<close>

lemma refresh_check_not_live:
  "\<not> live_row s \<Longrightarrow> refresh_check env s db = (dec, db') \<Longrightarrow> \<exists>e. dec = Stop (Rollback e) \<or> dec = Stop (Reject e)"
  by (auto simp: refresh_check_def live_row_def stop_def reject_after_def
      split: if_splits option.splits prod.splits sum.splits)

lemma refresh_fails_not_live:
  assumes "find_session lib raw db = Some s" and "\<not> live_row s"
  shows "\<exists>e. fst (refreshTokenPair lib env raw meta db) = Inl e"
proof -
  obtain dec db' where c: "refresh_check env s db = (dec, db')" by fastforce
  from refresh_check_not_live [OF assms(2) c] c assms(1) show ?thesis
    by (auto simp: refreshTokenPair_def refresh_session_def)
qed

lemma refreshTokenPair_Grant:
  assumes "refreshTokenPair lib env raw meta db = (Inr resp, db')"
  obtains s user where "find_session lib raw db = Some s" "refresh_check env s db = (Continue user, db)"
    "rotate_session lib env meta s user db = (Grant resp, db')"
proof -
  from assms obtain s where s: "find_session lib raw db = Some s"
    by (auto simp: refreshTokenPair_def split: option.splits)
  obtain dec d where c: "refresh_check env s db = (dec, d)" by fastforce
  show thesis
  proof (cases dec)
    case (Stop out)
    with c have "\<exists>e. out = Rollback e \<or> out = Reject e"
      by (auto simp: refresh_check_def stop_def reject_after_def
          split: if_splits option.splits prod.splits sum.splits)
    with assms s c Stop show thesis by (auto simp: refreshTokenPair_def refresh_session_def)
  next
    case (Continue user)
    with c have "d = db" by (blast dest: refresh_check_Continue)
    with assms s c Continue that show thesis
      by (auto simp: refreshTokenPair_def refresh_session_def split: prod.splits refresh_outcome.splits)
  qed
qed

lemma find_session_hash:
  assumes "find_session lib raw db = Some s"
  obtains t where "raw = JStr t" "t \<noteq> []" "s_token_hash s = sha256 lib t"
  using assms
  by (auto simp: find_session_def hashToken_def split: sum.splits jsval.splits if_splits dest!: find_SomeD)

lemma find_session_unique:
  "distinct (map s_token_hash (sessions db)) \<Longrightarrow> s \<in> set (sessions db) \<Longrightarrow> t \<noteq> [] \<Longrightarrow>
     s_token_hash s = sha256 lib t \<Longrightarrow> find_session lib (JStr t) db = Some s"
  using find_unique [of s_token_hash "sessions db" s] by (simp add: find_session_def hashToken_def)

section \<open>Concrete values for the witnesses\<close>

definition lib0 :: auth_lib where
  "lib0 = \<lparr>sha256 = (\<lambda>s. CHR ''#'' # s), date_add = (\<lambda>t n u. t + 1000000 * int n),
           date_sub = (\<lambda>t n u. t - 1000000 * int n)\<rparr>"

definition user0 :: session_user where
  "user0 = \<lparr>su_id = 7, su_name = ''Ada'', su_email = ''a@x'', su_nickname = ''ada'', su_avatar = [],
            su_roles = [''admin''], su_is_deleted = False, su_is_disabled = False\<rparr>"

definition env0 :: "int \<Rightarrow> string \<Rightarrow> auth_env" where
  "env0 t rnd = \<lparr>now = t, random_refresh = rnd, random_family = ''f'' @ rnd, random_jti = ''j'' @ rnd,
                 sign = (\<lambda>p. Inr ''jwt'')\<rparr>"

definition db0 :: auth_db where
  "db0 = \<lparr>sessions = [], next_session = 1, users = [user0], audit = []\<rparr>"

definition db1 :: auth_db where
  "db1 = snd (issueTokenPair lib0 (env0 1000 ''r1'') user0 Undef (JObj []) db0)"

definition db2 :: auth_db where
  "db2 = snd (refreshTokenPair lib0 (env0 2000 ''r2'') (JStr ''r1'') (JObj []) db1)"

section \<open>Guarantees\<close>

text \<open>C23. One live token per family. In every state reachable by any interleaving of logins, refresh halves,
  revocations, device management and retention runs, two sessions of one family that are neither
  revoked, rotated nor replaced are the same session.\<close>

theorem one_live_token_per_family:
  assumes "(auth_step lib)\<^sup>*\<^sup>* (auth_init us) S"
    and "r \<in> set (sessions (adb S))" and "r' \<in> set (sessions (adb S))"
    and "live_row r" and "live_row r'" and "s_family_id r = s_family_id r'"
  shows "r = r'"
  using reachable_inv [OF assms(1)] assms(2-) unfolding sys_inv_def single_live_def by blast

lemma auth_run1: "(auth_step lib0)\<^sup>*\<^sup>* (auth_init [user0]) \<lparr>adb = db1, pend = [], used = {''fr1''}\<rparr>"
proof -
  have "issueTokenPair lib0 (env0 1000 ''r1'') user0 Undef (JObj []) db0 =
      (fst (issueTokenPair lib0 (env0 1000 ''r1'') user0 Undef (JObj []) db0), db1)"
    by (simp add: db1_def)
  then have "auth_step lib0 (auth_init [user0])
      ((auth_init [user0])\<lparr>adb := db1, used := insert (random_family (env0 1000 ''r1'')) (used (auth_init [user0]))\<rparr>)"
    by (intro auth_step.issue) (auto simp: auth_init_def env0_def db0_def)
  moreover have "(auth_init [user0])\<lparr>adb := db1, used := insert (random_family (env0 1000 ''r1'')) (used (auth_init [user0]))\<rparr>
      = \<lparr>adb = db1, pend = [], used = {''fr1''}\<rparr>"
    by (simp add: auth_init_def env0_def)
  ultimately show ?thesis by auto
qed

lemma db1_sessions: "length (sessions db1) = 1 \<and> live_row (sessions db1 ! 0) \<and>
    s_family_id (sessions db1 ! 0) = ''fr1'' \<and> s_token_hash (sessions db1 ! 0) = sha256 lib0 ''r1''"
  by code_simp

theorem one_live_token_per_family_witness:
  "sessions db1 ! 0 \<in> set (sessions db1) \<and> live_row (sessions db1 ! 0)"
  using one_live_token_per_family [OF auth_run1, of "sessions db1 ! 0" "sessions db1 ! 0"] db1_sessions
  by simp

text \<open>The end of a family is final. If in a reachable state no session of a drawn family is live (after a
  logout, a device revocation or a detected replay), then after any further interleaved steps, refreshes
  that had already read their row included, no refresh with a token of that family succeeds.\<close>

theorem ended_family_never_refreshes:
  assumes "(auth_step lib)\<^sup>*\<^sup>* (auth_init us) S" and "f \<in> used S" and "dead_family f (sessions (adb S))"
    and "(auth_step lib)\<^sup>*\<^sup>* S S'"
    and "find_session lib raw (adb S') = Some s" and "s_family_id s = f"
  shows "\<exists>e. fst (refreshTokenPair lib env raw meta (adb S')) = Inl e"
proof -
  have "family_ended S f" using assms(2,3) by (simp add: family_ended_def)
  with assms(1,4) have "family_ended S' f" by (blast intro: auth.steps_mark reachable_inv)
  then have "\<not> live_row s" using find_session_row [OF assms(5)] assms(6)
    by (auto simp: family_ended_def dead_family_def)
  with assms(5) show ?thesis by (rule refresh_fails_not_live)
qed

definition db1_out :: auth_db where
  "db1_out = logout lib0 (env0 1500 ''r9'') (JStr ''r1'') db1"

lemma db1_out_facts: "dead_family ''fr1'' (sessions db1_out) \<and>
    map_option s_family_id (find_session lib0 (JStr ''r1'') db1_out) = Some ''fr1''"
  by code_simp

theorem ended_family_never_refreshes_witness:
  "\<exists>e. fst (refreshTokenPair lib0 (env0 2000 ''r2'') (JStr ''r1'') (JObj []) db1_out) = Inl e"
proof -
  let ?S = "\<lparr>adb = db1_out, pend = [], used = {''fr1''}\<rparr>"
  have "auth_step lib0 \<lparr>adb = db1, pend = [], used = {''fr1''}\<rparr> ?S"
    using auth_step.log_out [of lib0 "\<lparr>adb = db1, pend = [], used = {''fr1''}\<rparr>" "env0 1500 ''r9''" "JStr ''r1''"]
    by (simp add: db1_out_def)
  with auth_run1 have run: "(auth_step lib0)\<^sup>*\<^sup>* (auth_init [user0]) ?S" by (rule rtranclp.rtrancl_into_rtrancl)
  obtain s where "find_session lib0 (JStr ''r1'') db1_out = Some s" "s_family_id s = ''fr1''"
    using db1_out_facts by (auto simp: map_option_eq_Some)
  then show ?thesis
    using ended_family_never_refreshes [OF run, of "''fr1''" ?S "JStr ''r1''" s "env0 2000 ''r2''" "JObj []"]
      db1_out_facts by simp
qed

text \<open>What a granted refresh does. The presented token belongs to a live, unexpired session of an account
  that is neither deleted nor disabled; exactly that session is marked rotated and replaced, every other
  row is unchanged, and one live successor is added in the same family with the same scope and account,
  the presented session as its parent and the new token's digest as its key.\<close>

theorem refresh_grant_effect:
  assumes ok: "rows_ok (sessions db) (next_session db)"
    and grant: "refreshTokenPair lib env (JStr raw) meta db = (Inr resp, db')"
  shows "\<exists>s n user. s \<in> set (sessions db) \<and> s_token_hash s = sha256 lib raw \<and> live_row s \<and>
     now env \<le> s_expires_at s \<and> user \<in> set (users db) \<and> su_id user = s_user_id s \<and>
     \<not> su_is_deleted user \<and> \<not> su_is_disabled user \<and>
     sessions db' = map (\<lambda>r. if r = s then rotate_row (now env) (s_id n) r else r) (sessions db) @ [n] \<and>
     s_id n = next_session db \<and> live_row n \<and> s_family_id n = s_family_id s \<and> s_scope n = s_scope s \<and>
     s_user_id n = s_user_id s \<and> s_parent_session_id n = Some (s_id s) \<and>
     s_token_hash n = sha256 lib (random_refresh env) \<and>
     t_refresh_token resp = random_refresh env \<and> i_id (t_session resp) = s_id n"
proof -
  from grant obtain s user where s: "find_session lib (JStr raw) db = Some s"
    and c: "refresh_check env s db = (Continue user, db)"
    and rot: "rotate_session lib env meta s user db = (Grant resp, db')"
    by (rule refreshTokenPair_Grant)
  have mem: "s \<in> set (sessions db)" using s by (rule find_session_row)
  have h: "s_token_hash s = sha256 lib raw" using s by (auto elim!: find_session_hash)
  note C = refresh_check_Continue [OF c]
  have fam: "s_family_id s \<noteq> []" and sid: "s_id s < next_session db" using ok mem by (auto simp: rows_ok_def)
  have uniq: "(s_id r = s_id s \<and> live_row r) = (r = s)" if "r \<in> set (sessions db)" for r
    using ok that mem C by (auto simp: rows_ok_def dest: distinct_key_eq)
  from rot fam sid show ?thesis
  proof (cases rule: rotate_session_cases)
    case (grant resp' n q)
    have "sessions db' = map (\<lambda>r. if r = s then rotate_row (now env) (s_id n) r else r) (sessions db) @ [n]"
      using grant sid uniq by (simp add: patch_where_def)
    then show ?thesis using grant mem h C
      by (intro exI [of _ s] exI [of _ n] exI [of _ user]) auto
  qed simp_all
qed

lemma db1_ok: "rows_ok (sessions db1) (next_session db1)"
  by code_simp

lemma db2_grant: "\<exists>resp. refreshTokenPair lib0 (env0 2000 ''r2'') (JStr ''r1'') (JObj []) db1 = (Inr resp, db2)"
proof -
  have "case fst (refreshTokenPair lib0 (env0 2000 ''r2'') (JStr ''r1'') (JObj []) db1) of Inl _ \<Rightarrow> False | Inr _ \<Rightarrow> True"
    by code_simp
  then show ?thesis unfolding db2_def
    by (cases "refreshTokenPair lib0 (env0 2000 ''r2'') (JStr ''r1'') (JObj []) db1") (auto split: sum.splits)
qed

theorem refresh_grant_effect_witness:
  "\<exists>s n. s \<in> set (sessions db1) \<and> s_token_hash s = ''#r1'' \<and>
     sessions db2 = map (\<lambda>r. if r = s then rotate_row 2000 (s_id n) r else r) (sessions db1) @ [n] \<and> live_row n"
proof -
  obtain resp where g: "refreshTokenPair lib0 (env0 2000 ''r2'') (JStr ''r1'') (JObj []) db1 = (Inr resp, db2)"
    using db2_grant by blast
  have e: "now (env0 2000 ''r2'') = 2000" "sha256 lib0 ''r1'' = ''#r1''" by (simp_all add: env0_def lib0_def)
  show ?thesis using refresh_grant_effect [OF db1_ok g] unfolding e by blast
qed

text \<open>C9. A refresh token works once. After a granted refresh, presenting the same token again while it has not
  expired is rejected as a replay, and the whole family, the successor included, is revoked.\<close>

theorem replay_revokes_family:
  assumes ok: "rows_ok (sessions db) (next_session db)"
    and grant: "refreshTokenPair lib env (JStr raw) meta db = (Inr resp, db')"
    and fresh: "find_session lib (JStr raw) db = Some s" "now env' \<le> s_expires_at s"
  shows "fst (refreshTokenPair lib env' (JStr raw) meta' db') =
           Inl (UnauthorizedError ''Refresh token replay detected'') \<and>
         dead_family (s_family_id s) (sessions (snd (refreshTokenPair lib env' (JStr raw) meta' db')))"
proof -
  from grant obtain user where c: "refresh_check env s db = (Continue user, db)"
    and rot: "rotate_session lib env meta s user db = (Grant resp, db')"
    using fresh(1) by (auto elim: refreshTokenPair_Grant)
  have mem: "s \<in> set (sessions db)" using fresh(1) by (rule find_session_row)
  have fam: "s_family_id s \<noteq> []" and sid: "s_id s < next_session db" using ok mem by (auto simp: rows_ok_def)
  have raw: "raw \<noteq> []" "s_token_hash s = sha256 lib raw" using fresh(1) by (auto elim!: find_session_hash)
  note C = refresh_check_Continue [OF c]
  from rot fam sid obtain n where n: "s_id n = next_session db" "s_token_hash n \<notin> s_token_hash ` set (sessions db)"
      "wf_row n" "s_family_id n = s_family_id s"
    and rows: "sessions db' = patch_where (\<lambda>r. s_id r = s_id s \<and> live_row r) (rotate_row (now env) (s_id n))
         (sessions db @ [n])"
  proof (cases rule: rotate_session_cases)
    case (grant resp' m q)
    show ?thesis by (rule that [of m, OF grant(5) grant(9) grant(8) grant(6) grant(14)])
  qed simp_all
  define s' where "s' = rotate_row (now env) (s_id n) s"
  have s': "s' \<in> set (sessions db')" using C mem by (auto simp: rows s'_def tbl_simps)
  have "rows_ok (sessions db @ [n]) (Suc (next_session db))"
    using ok n fam by (auto intro: rows_ok_insert)
  moreover have "evolves (sessions db @ [n]) (sessions db')"
    unfolding rows by (rule evolves_patch) (auto intro: succ_rotate_row)
  ultimately have "rows_ok (sessions db') (Suc (next_session db))" by (rule evolves_rows_ok [rotated])
  then have "distinct (map s_token_hash (sessions db'))" by (simp add: rows_ok_def)
  then have find: "find_session lib (JStr raw) db' = Some s'"
    using s' raw by (intro find_session_unique) (auto simp: s'_def rotate_row_def)
  obtain k d where rf: "revokeFamily env' (s_family_id s) ''refresh_token_replay_detected'' db' = (Inr k, d)"
    using fam by (cases "revokeFamily env' (s_family_id s) ''refresh_token_replay_detected'' db'")
      (auto simp: revokeFamily_def split: prod.splits)
  have "refreshTokenPair lib env' (JStr raw) meta' db' = (Inl (UnauthorizedError ''Refresh token replay detected''), d)"
    using find fresh(2) C rf
    by (auto simp: refreshTokenPair_def refresh_session_def refresh_check_def s'_def rotate_row_def live_row_def
        stop_def reject_after_def mk_UnauthorizedError_def)
  with revokeFamily_dead [OF rf] show ?thesis by simp
qed

lemma db1_find: "map_option s_expires_at (find_session lib0 (JStr ''r1'') db1) = Some 30001000"
  by code_simp

theorem replay_revokes_family_witness:
  "fst (refreshTokenPair lib0 (env0 3000 ''r3'') (JStr ''r1'') (JObj []) db2) =
     Inl (UnauthorizedError ''Refresh token replay detected'')"
proof -
  obtain s where s: "find_session lib0 (JStr ''r1'') db1 = Some s" "s_expires_at s = 30001000"
    using db1_find by (auto simp: map_option_eq_Some)
  obtain resp where g: "refreshTokenPair lib0 (env0 2000 ''r2'') (JStr ''r1'') (JObj []) db1 = (Inr resp, db2)"
    using db2_grant by blast
  have "now (env0 3000 ''r3'') \<le> s_expires_at s" using s by (simp add: env0_def)
  from replay_revokes_family [OF db1_ok g s(1) this] show ?thesis by simp
qed

text \<open>Two refreshes that both read the same live row. When the first has been granted, the second one's
  update touches no row: it never issues a usable pair, it ends in the replay error and the whole family
  is dead, both successors included (unless its own insert failed and it changed nothing).\<close>

theorem concurrent_refresh_is_detected:
  assumes ok: "rows_ok (sessions db) (next_session db)" and mem: "s \<in> set (sessions db)"
    and first: "rotate_session lib env meta s user db = (Grant resp, db')"
    and second: "rotate_session lib env' meta' s user' db' = (out, db'')"
  shows "(\<exists>e. out = Rollback e \<and> db'' = db') \<or>
     (out = Reject (UnauthorizedError ''Refresh token replay detected'') \<and>
      dead_family (s_family_id s) (sessions db''))"
proof -
  have fam: "s_family_id s \<noteq> []" and sid: "s_id s < next_session db" using ok mem by (auto simp: rows_ok_def)
  from first fam sid obtain n where rows: "sessions db' =
      patch_where (\<lambda>r. s_id r = s_id s \<and> live_row r) (rotate_row (now env) (s_id n)) (sessions db @ [n])"
    and nxt: "s_id n = next_session db" "next_session db' = Suc (next_session db)"
  proof (cases rule: rotate_session_cases)
    case (grant resp' m q)
    show ?thesis by (rule that [of m, OF grant(14) grant(5) grant(15)])
  qed simp_all
  have gone: "\<forall>r \<in> set (sessions db'). s_id r = s_id s \<longrightarrow> \<not> live_row r"
    using nxt sid by (auto simp: rows tbl_simps rotate_row_def live_row_def)
  have sid': "s_id s < next_session db'" using sid nxt by simp
  from second fam sid' show ?thesis
  proof (cases rule: rotate_session_cases)
    case (rollback e)
    then show ?thesis by simp
  next
    case (race m)
    then show ?thesis by (simp add: mk_UnauthorizedError_def)
  next
    case (grant resp' m q)
    with gone show ?thesis by blast
  qed
qed

definition s1 :: auth_session where
  "s1 = sessions db1 ! 0"

lemma s1_rotates: "case fst (rotate_session lib0 (env0 2000 ''r2'') (JObj []) s1 user0 db1) of Grant _ \<Rightarrow> True | _ \<Rightarrow> False"
  by code_simp

theorem concurrent_refresh_is_detected_witness:
  "\<exists>out db''. rotate_session lib0 (env0 2001 ''r3'') (JObj []) s1 user0
       (snd (rotate_session lib0 (env0 2000 ''r2'') (JObj []) s1 user0 db1)) = (out, db'') \<and>
     ((\<exists>e. out = Rollback e) \<or> dead_family (s_family_id s1) (sessions db''))"
proof -
  obtain resp d where g: "rotate_session lib0 (env0 2000 ''r2'') (JObj []) s1 user0 db1 = (Grant resp, d)"
    using s1_rotates by (cases "rotate_session lib0 (env0 2000 ''r2'') (JObj []) s1 user0 db1")
      (auto split: refresh_outcome.splits)
  obtain out d2 where r: "rotate_session lib0 (env0 2001 ''r3'') (JObj []) s1 user0 d = (out, d2)" by fastforce
  have "s1 \<in> set (sessions db1)" using db1_sessions by (simp add: s1_def)
  from concurrent_refresh_is_detected [OF db1_ok this g r] show ?thesis by (auto simp: g r)
qed

section \<open>Retention\<close>

text \<open>What stays the same in a row that the retention job keeps.\<close>

definition same_credential :: "auth_session \<Rightarrow> auth_session \<Rightarrow> bool" where
  "same_credential r r' \<longleftrightarrow> s_id r' = s_id r \<and> s_token_hash r' = s_token_hash r \<and> s_family_id r' = s_family_id r \<and>
     s_expires_at r' = s_expires_at r \<and> s_rotated_at r' = s_rotated_at r \<and> s_revoked_at r' = s_revoked_at r \<and>
     s_user_id r' = s_user_id r"

lemma same_credential_trans: "same_credential a b \<Longrightarrow> same_credential b c \<Longrightarrow> same_credential a c"
  by (simp add: same_credential_def)

text \<open>Removing the rows whose identifiers were selected removes as many rows as were selected.\<close>

lemma count_selected:
  assumes "distinct (map key rows)" and "set sel \<subseteq> set rows" and "distinct (map key sel)"
  shows "count_where (\<lambda>r. key r \<in> set (map key sel)) rows = length sel"
proof -
  have "filter (\<lambda>r. key r \<in> set (map key sel)) rows = filter (\<lambda>r. r \<in> set sel) rows"
    by (rule filter_cong [OF refl]) (use assms(1,2) in \<open>auto dest: distinct_key_eq\<close>)
  moreover have "set (filter (\<lambda>r. r \<in> set sel) rows) = set sel" using assms(2) by auto
  moreover have "distinct rows" "distinct sel" using assms(1,3) by (auto simp: distinct_map)
  ultimately show ?thesis unfolding count_where_def
    by (metis distinct_card distinct_filter)
qed

lemma length_delete_where: "length (delete_where p rows) + count_where p rows = length rows"
  by (induction rows) (auto simp: delete_where_def count_where_def)

text \<open>One batch. The two link columns are cleared first, which changes neither identifiers nor expiry
  dates; then exactly the selected rows are removed.\<close>

definition unlink :: "nat list \<Rightarrow> auth_session \<Rightarrow> auth_session" where
  "unlink ids r = r\<lparr>
     s_parent_session_id := (if \<exists>i \<in> set ids. s_parent_session_id r = Some i then None else s_parent_session_id r),
     s_replaced_by_session_id :=
       (if \<exists>i \<in> set ids. s_replaced_by_session_id r = Some i then None else s_replaced_by_session_id r)\<rparr>"

definition expired_page :: "int \<Rightarrow> nat \<Rightarrow> auth_session list \<Rightarrow> auth_session list" where
  "expired_page cutoff bs rows =
     take bs (sort_key s_expires_at (sort_key s_id (filter (\<lambda>r. s_expires_at r < cutoff) rows)))"

lemma unlink_simps [simp]:
  "s_id (unlink ids r) = s_id r" "s_expires_at (unlink ids r) = s_expires_at r"
  by (simp_all add: unlink_def)

lemma same_credential_unlink: "same_credential r (unlink ids r)"
  by (simp add: same_credential_def unlink_def)

lemma unlink_patches:
  "patch_where (\<lambda>r. \<exists>i \<in> set ids. s_replaced_by_session_id r = Some i) (\<lambda>r. r\<lparr>s_replaced_by_session_id := None\<rparr>)
     (patch_where (\<lambda>r. \<exists>i \<in> set ids. s_parent_session_id r = Some i) (\<lambda>r. r\<lparr>s_parent_session_id := None\<rparr>) rows)
   = map (unlink ids) rows"
  by (induction rows) (auto simp: unlink_def)

lemma prune_batch_eq:
  "prune_batch cutoff bs db =
     (let sel = expired_page cutoff bs (sessions db); ids = map s_id sel;
          q = (\<lambda>r. s_id r \<in> set ids \<and> s_expires_at r < cutoff); t = map (unlink ids) (sessions db)
      in if sel = [] then (0, 0, db) else (count_where q t, length sel, db\<lparr>sessions := delete_where q t\<rparr>))"
  unfolding prune_batch_def expired_page_def [symmetric] Let_def unlink_patches ..

lemma set_expired_page: "set (expired_page cutoff bs rows) \<subseteq> {r \<in> set rows. s_expires_at r < cutoff}"
  by (auto simp: expired_page_def dest!: in_set_takeD)

lemma distinct_expired_page:
  assumes "distinct (map s_id rows)"
  shows "distinct (map s_id (expired_page cutoff bs rows))"
proof -
  let ?f = "filter (\<lambda>r. s_expires_at r < cutoff) rows"
  let ?s = "sort_key s_expires_at (sort_key s_id ?f)"
  have "distinct (map s_id ?f)" using assms by (rule distinct_map_filter)
  then have "distinct (map s_id ?s)" by (simp add: distinct_map)
  then show ?thesis by (simp add: expired_page_def take_map [symmetric])
qed

lemma short_page:
  "length (expired_page cutoff bs rows) < bs \<Longrightarrow>
     set (expired_page cutoff bs rows) = {r \<in> set rows. s_expires_at r < cutoff}"
  by (auto simp: expired_page_def min_def split: if_splits)

lemma prune_batch_facts:
  assumes d: "distinct (map s_id (sessions db))" and b: "prune_batch cutoff bs db = (n, m, db')"
  shows "n = m" "m \<le> bs" "length (sessions db') + n = length (sessions db)" "distinct (map s_id (sessions db'))"
    "m < bs \<Longrightarrow> \<forall>r \<in> set (sessions db'). cutoff \<le> s_expires_at r"
    "r \<in> set (sessions db) \<Longrightarrow> cutoff \<le> s_expires_at r \<Longrightarrow> \<exists>r' \<in> set (sessions db'). same_credential r r'"
proof -
  define sel where "sel = expired_page cutoff bs (sessions db)"
  define ids where "ids = map s_id sel"
  define q where "q = (\<lambda>r :: auth_session. s_id r \<in> set ids \<and> s_expires_at r < cutoff)"
  define t where "t = map (unlink ids) (sessions db)"
  note defs = sel_def [symmetric] ids_def [symmetric] q_def [symmetric] t_def [symmetric]
  have B: "(n, m, db') = (if sel = [] then (0, 0, db) else (count_where q t, length sel, db\<lparr>sessions := delete_where q t\<rparr>))"
    using b unfolding prune_batch_eq Let_def defs by simp
  have key: "map s_id t = map s_id (sessions db)" by (simp add: t_def)
  have lt: "length t = length (sessions db)" by (simp add: t_def)
  have sub: "set sel \<subseteq> {r \<in> set (sessions db). s_expires_at r < cutoff}" unfolding sel_def by (rule set_expired_page)
  have "q (unlink ids r) \<longleftrightarrow> s_id r \<in> set ids" if "r \<in> set (sessions db)" for r
    using that sub d by (auto simp: q_def ids_def dest: distinct_key_eq)
  then have "count_where q t = count_where (\<lambda>r. s_id r \<in> set ids) (sessions db)"
    by (auto simp: count_where_def t_def filter_map comp_def intro!: arg_cong [where f = length] filter_cong)
  then have cnt: "count_where q t = length sel"
    using count_selected [OF d, of sel] sub distinct_expired_page [OF d, of cutoff bs]
    by (auto simp: ids_def sel_def [symmetric])
  show "n = m" using B cnt by (auto split: if_splits)
  show "m \<le> bs" using B by (auto simp: sel_def expired_page_def split: if_splits)
  show "length (sessions db') + n = length (sessions db)"
    using B length_delete_where [of q t] lt by (auto split: if_splits)
  show "distinct (map s_id (sessions db'))"
    using B d key distinct_map_filter [of s_id t "\<lambda>r. \<not> q r"] by (auto simp: delete_where_def split: if_splits)
  show "\<forall>r \<in> set (sessions db'). cutoff \<le> s_expires_at r" if "m < bs"
  proof -
    have all: "set sel = {r \<in> set (sessions db). s_expires_at r < cutoff}"
      using that B unfolding sel_def by (intro short_page) (auto simp: sel_def split: if_splits)
    have "q (unlink ids r)" if "r \<in> set (sessions db)" "s_expires_at r < cutoff" for r
      using that all by (auto simp: q_def ids_def)
    then show ?thesis using B all by (force simp: t_def split: if_splits)
  qed
  show "\<exists>r' \<in> set (sessions db'). same_credential r r'"
    if r: "r \<in> set (sessions db)" and e: "cutoff \<le> s_expires_at r"
  proof (cases "sel = []")
    case True
    with B r show ?thesis by (auto simp: same_credential_def)
  next
    case False
    have "unlink ids r \<in> set (delete_where q t)" using r e by (auto simp: q_def t_def)
    with B False show ?thesis by (auto intro: same_credential_unlink)
  qed
qed

lemma prune_loop_facts:
  assumes "distinct (map s_id (sessions db))" and "prune_loop k cutoff bs db = (n, db')"
  shows "length (sessions db') + n = length (sessions db) \<and> n \<le> k * bs \<and>
     (n < k * bs \<longrightarrow> (\<forall>r \<in> set (sessions db'). cutoff \<le> s_expires_at r)) \<and>
     (\<forall>r \<in> set (sessions db). cutoff \<le> s_expires_at r \<longrightarrow> (\<exists>r' \<in> set (sessions db'). same_credential r r'))"
  using assms
proof (induction k arbitrary: db n)
  case 0
  then show ?case by (auto simp: same_credential_def)
next
  case (Suc k)
  obtain m sel d where b: "prune_batch cutoff bs db = (m, sel, d)" by (cases "prune_batch cutoff bs db")
  note F = prune_batch_facts [OF Suc.prems(1) b]
  show ?case
  proof (cases "sel < bs")
    case True
    with Suc.prems(2) b have e: "n = m" "db' = d" by auto
    have "m < Suc k * bs" using True F(1) by simp
    with e F True show ?thesis by simp
  next
    case False
    with Suc.prems(2) b obtain n' where l: "prune_loop k cutoff bs d = (n', db')" and n: "n = m + n'"
      by (auto split: prod.splits)
    have m: "m = bs" using False F(1,2) by simp
    note I = Suc.IH [OF F(4) l]
    have "\<exists>r' \<in> set (sessions db'). same_credential r r'"
      if r: "r \<in> set (sessions db)" "cutoff \<le> s_expires_at r" for r
    proof -
      from F(6) [OF r] obtain r1 where r1: "r1 \<in> set (sessions d)" "same_credential r r1" by blast
      with r have "cutoff \<le> s_expires_at r1" by (simp add: same_credential_def)
      with I r1 show ?thesis by (meson same_credential_trans)
    qed
    with I F(3) n m show ?thesis by auto
  qed
qed

text \<open>Retention. A run removes only sessions that expired more than the retention period ago and at
  most ten thousand of them; its result counts the rows removed; every other session keeps its
  identifier, digest, family, account, expiry and revocation state; and a run that stays below its
  limit leaves no row past the cutoff.\<close>

theorem prune_retention:
  assumes "rows_ok (sessions db) (next_session db)" and "prune lib bs mb t db = (n, db')"
  shows "length (sessions db') + n = length (sessions db) \<and> n \<le> 10000 \<and>
     (\<forall>r \<in> set (sessions db). fmt_seconds (date_sub lib t 7 ''day'') \<le> s_expires_at r \<longrightarrow>
        (\<exists>r' \<in> set (sessions db'). same_credential r r')) \<and>
     (bs = 0 \<and> mb = 0 \<and> n < 10000 \<longrightarrow>
        (\<forall>r \<in> set (sessions db'). fmt_seconds (date_sub lib t 7 ''day'') \<le> s_expires_at r))"
proof -
  define b where "b = nat (min 1000 (max 1 (if bs = 0 then 1000 else bs)))"
  define k where "k = nat (min 10 (max 1 (if mb = 0 then 10 else mb)))"
  have "prune_loop k (fmt_seconds (date_sub lib t RETENTION_DAYS ''day'')) b db = (n, db')"
    using assms(2) by (simp add: prune_def Let_def b_def k_def)
  from prune_loop_facts [OF _ this] assms(1)
  have F: "length (sessions db') + n = length (sessions db)" "n \<le> k * b"
      "n < k * b \<longrightarrow> (\<forall>r \<in> set (sessions db'). fmt_seconds (date_sub lib t 7 ''day'') \<le> s_expires_at r)"
      "\<forall>r \<in> set (sessions db). fmt_seconds (date_sub lib t 7 ''day'') \<le> s_expires_at r \<longrightarrow>
        (\<exists>r' \<in> set (sessions db'). same_credential r r')"
    by (auto simp: rows_ok_def RETENTION_DAYS_def)
  have "k \<le> 10" "b \<le> 1000" by (auto simp: k_def b_def)
  then have "k * b \<le> 10 * 1000" by (rule mult_le_mono)
  with F(2) have "n \<le> 10000" by simp
  moreover have "k * b = 10000" if "bs = 0" "mb = 0" using that by (simp add: k_def b_def)
  ultimately show ?thesis using F(1,3,4) by simp
qed

theorem prune_retention_witness:
  "\<exists>n db'. prune lib0 0 0 40000000 db1 = (n, db') \<and> length (sessions db') + n = 1 \<and>
     (\<forall>r \<in> set (sessions db'). 33000000 \<le> s_expires_at r)"
proof -
  obtain n db' where p: "prune lib0 0 0 40000000 db1 = (n, db')" by fastforce
  have c: "fmt_seconds (date_sub lib0 40000000 7 ''day'') = 33000000" by code_simp
  note R = prune_retention [OF db1_ok p, unfolded c]
  from R [THEN conjunct1] db1_sessions have "length (sessions db') + n = 1" by simp
  moreover from this R have "\<forall>r \<in> set (sessions db'). 33000000 \<le> s_expires_at r" by simp
  ultimately show ?thesis using p by blast
qed

section \<open>Managing devices\<close>

lemma session_context_Inr:
  assumes "session_context lib env acc raw db = Inr (uid, cur)"
  obtains c h where "acc_user acc 0 = JNum uid" "hashToken lib raw = Inr h" "c \<in> set (sessions db)"
    "s_token_hash c = h" "s_user_id c = uid" "s_revoked_at c = None" "session_unexpired env c" "s_family_id c = cur"
    "List.find (\<lambda>r. s_token_hash r = h \<and> s_user_id r = uid \<and> s_revoked_at r = None \<and> session_unexpired env r)
       (sessions db) = Some c"
proof -
  from assms obtain c h where "acc_user acc 0 = JNum uid" "hashToken lib raw = Inr h" "s_family_id c = cur"
    and f: "List.find (\<lambda>r. s_token_hash r = h \<and> s_user_id r = uid \<and> s_revoked_at r = None \<and> session_unexpired env r)
       (sessions db) = Some c"
    by (cases "acc_user acc 0") (auto simp: session_context_def Let_def res_simps split: option.splits)
  with find_SomeD [OF f] show thesis by (intro that [of h c]) simp_all
qed

lemma session_context_revoke:
  assumes c: "session_context lib env acc raw db = Inr (uid, cur)"
    and r: "revoke_where env' reason p db = (n, db')" and p: "\<And>r. s_user_id r = uid \<Longrightarrow> s_family_id r = cur \<Longrightarrow> \<not> p r"
  shows "session_context lib env acc raw db' = Inr (uid, cur)"
proof -
  from c obtain x h where x: "acc_user acc 0 = JNum uid" "hashToken lib raw = Inr h" "s_user_id x = uid"
      "s_family_id x = cur"
      "List.find (\<lambda>r. s_token_hash r = h \<and> s_user_id r = uid \<and> s_revoked_at r = None \<and> session_unexpired env r)
         (sessions db) = Some x"
    by (rule session_context_Inr) blast
  have "sessions db' = patch_where (\<lambda>r. p r \<and> s_revoked_at r = None) (revoke_row (now env') reason) (sessions db)"
    using r by (auto simp: revoke_where_def Let_def)
  then have "List.find (\<lambda>r. s_token_hash r = h \<and> s_user_id r = uid \<and> s_revoked_at r = None \<and> session_unexpired env r)
         (sessions db') = Some x"
    using x p by (auto intro!: find_patch_where simp: revoke_row_def)
  with c x show ?thesis by (auto simp: session_context_def Let_def res_simps)
qed

lemma session_context_audit [simp]:
  "session_context lib env acc raw (db\<lparr>audit := a\<rparr>) = session_context lib env acc raw db"
  by (simp add: session_context_def)

lemma revoke_where_rows:
  assumes "revoke_where env reason p db = (n, db')"
  shows "r \<in> set (sessions db) \<Longrightarrow> \<not> p r \<Longrightarrow> r \<in> set (sessions db')"
    "r' \<in> set (sessions db') \<Longrightarrow> p r' \<Longrightarrow> (\<And>r. p (revoke_row (now env) reason r) = p r) \<Longrightarrow> s_revoked_at r' \<noteq> None"
    "audit db' = audit db"
  using assms by (auto simp: revoke_where_def Let_def tbl_simps revoke_row_def split: if_splits)

text \<open>Ending another device. A successful revocation names a well-formed family other than the caller's own;
  afterwards every session of the caller's account in that family is revoked, every session of another
  account or family is untouched, the caller's own browser session still manages sessions, and one
  audit entry records the action.\<close>

theorem revoke_device_isolated:
  assumes "revoke_device lib env acc raw fam db = (Inr (), db')"
  shows "\<exists>uid cur f. session_context lib env acc raw db = Inr (uid, cur) \<and> fam = JStr f \<and> is_uuid f \<and> f \<noteq> cur \<and>
     (\<forall>r \<in> set (sessions db'). s_user_id r = uid \<and> s_family_id r = f \<longrightarrow> s_revoked_at r \<noteq> None) \<and>
     (\<forall>r \<in> set (sessions db). s_user_id r \<noteq> uid \<or> s_family_id r \<noteq> f \<longrightarrow> r \<in> set (sessions db')) \<and>
     session_context lib env acc raw db' = Inr (uid, cur) \<and> length (audit db') = Suc (length (audit db))"
proof -
  from assms obtain uid cur f where c: "session_context lib env acc raw db = Inr (uid, cur)"
    and f: "fam = JStr f" "is_uuid f" "f \<noteq> cur"
    by (cases fam) (auto simp: revoke_device_def split: if_splits sum.splits)
  define p where "p = (\<lambda>r :: auth_session. s_user_id r = uid \<and> s_family_id r = f)"
  obtain n d where rw: "revoke_where env ''device_revoked'' p db = (n, d)" by fastforce
  with assms c f obtain a where db': "db' = d\<lparr>audit := audit d @ [a]\<rparr>"
    by (auto simp: revoke_device_def audit_add_def p_def split: if_splits)
  have "session_context lib env acc raw d = Inr (uid, cur)"
    using c rw by (rule session_context_revoke) (use f in \<open>simp add: p_def\<close>)
  moreover note R = revoke_where_rows [OF rw]
  moreover have "\<And>r. p (revoke_row (now env) ''device_revoked'' r) = p r" by (simp add: p_def revoke_row_def)
  ultimately show ?thesis using c f db' by (auto simp: p_def)
qed

definition acc0 :: access where
  "acc0 = \<lparr>acc_can = (\<lambda>p d. Inr (JBool True)), acc_token = JObj [(''attrs'', JObj [(''id'', JNum 7)])]\<rparr>"

definition uuid0 :: string where
  "uuid0 = ''12345678-1234-1234-1234-123456789abc''"

definition db3 :: auth_db where
  "db3 = snd (issueTokenPair lib0 (env0 1200 ''r4'') user0 Undef (JObj [(''familyId'', JStr uuid0)]) db1)"

theorem revoke_device_isolated_witness:
  "\<exists>db'. revoke_device lib0 (env0 1500 ''r9'') acc0 (JStr ''r1'') (JStr uuid0) db3 = (Inr (), db') \<and>
     (\<exists>uid cur. session_context lib0 (env0 1500 ''r9'') acc0 (JStr ''r1'') db' = Inr (uid, cur))"
proof -
  have "fst (revoke_device lib0 (env0 1500 ''r9'') acc0 (JStr ''r1'') (JStr uuid0) db3) = Inr ()" by code_simp
  then obtain db' where d: "revoke_device lib0 (env0 1500 ''r9'') acc0 (JStr ''r1'') (JStr uuid0) db3 = (Inr (), db')"
    by (metis prod.collapse)
  from revoke_device_isolated [OF d] d show ?thesis by blast
qed

text \<open>The rows behind the device list.\<close>

lemma last_per_family_props:
  "set (last_per_family rows) \<subseteq> set rows \<and> distinct (map s_family_id (last_per_family rows))"
proof -
  have fam: "last (filter (\<lambda>r. s_family_id r = f) rows) \<in> set (filter (\<lambda>r. s_family_id r = f) rows)"
    if "f \<in> set (map s_family_id rows)" for f
    using that by (intro last_in_set) (auto simp: filter_empty_conv)
  have "map s_family_id (last_per_family rows) = dedup (map s_family_id rows)"
    unfolding last_per_family_def map_map by (rule map_idI) (use fam in force)
  moreover have "set (last_per_family rows) \<subseteq> set rows"
    using fam by (fastforce simp: last_per_family_def)
  ultimately show ?thesis by simp
qed

lemma listed_families_props:
  "set (listed_families cur act) \<subseteq> set act \<and> distinct (map s_family_id (listed_families cur act)) \<and>
   length (listed_families cur act) \<le> 100 \<and>
   ((\<exists>r \<in> set act. s_family_id r = cur) \<longrightarrow> (\<exists>r \<in> set (listed_families cur act). s_family_id r = cur))"
proof -
  define fams where "fams = take PAGE_SIZE (last_per_family (newest_page act))"
  have rows: "listed_families cur act = (if (\<exists>r \<in> set fams. s_family_id r = cur) then fams
     else (case List.find (\<lambda>r. s_family_id r = cur) act of None \<Rightarrow> fams | Some current \<Rightarrow> current # take (PAGE_SIZE - 1) fams))"
    unfolding listed_families_def Let_def fams_def ..
  have "set (newest_page act) \<subseteq> set act" by (auto simp: newest_page_def dest!: in_set_takeD)
  then have sub: "set fams \<subseteq> set act"
    unfolding fams_def using last_per_family_props [of "newest_page act"] by (blast dest: in_set_takeD)
  have dist: "distinct (map s_family_id fams)"
    unfolding fams_def take_map [symmetric] using last_per_family_props by (blast intro: distinct_take)
  have len: "length fams \<le> 100" by (simp add: fams_def PAGE_SIZE_def)
  show ?thesis
  proof (cases "(\<exists>r \<in> set fams. s_family_id r = cur) \<or> List.find (\<lambda>r. s_family_id r = cur) act = None")
    case True
    then have "listed_families cur act = fams" by (auto simp: rows)
    with True sub dist len show ?thesis by (auto simp: find_None)
  next
    case False
    then obtain c where f: "List.find (\<lambda>r. s_family_id r = cur) act = Some c" by auto
    have r: "listed_families cur act = c # take (PAGE_SIZE - 1) fams" using False f by (auto simp: rows)
    have "distinct (map s_family_id (take (PAGE_SIZE - 1) fams))" using dist by (metis distinct_take take_map)
    with False sub len find_SomeD [OF f] show ?thesis by (auto simp: r PAGE_SIZE_def dest: in_set_takeD)
  qed
qed

lemma list_sessions_rows:
  assumes "list_sessions lib env acc raw db = Inr l"
  obtains uid cur rows where "session_context lib env acc raw db = Inr (uid, cur)"
    "map d_family_id (dl_sessions l) = map s_family_id rows"
    "\<forall>r \<in> set rows. r \<in> set (sessions db) \<and> session_active env uid r" "distinct (map s_family_id rows)"
    "length rows \<le> 100"
    "(\<exists>r \<in> set (sessions db). session_active env uid r \<and> s_family_id r = cur) \<longrightarrow> (\<exists>r \<in> set rows. s_family_id r = cur)"
proof -
  from assms obtain uid cur where c: "session_context lib env acc raw db = Inr (uid, cur)"
    by (auto simp: list_sessions_def res_simps)
  define act where "act = filter (session_active env uid) (sessions db)"
  have "map d_family_id (dl_sessions l) = map s_family_id (listed_families cur act)"
    using assms c by (auto simp: list_sessions_def Let_def act_def device_of_def)
  with c listed_families_props [of cur act] show thesis
    by (intro that [of uid cur "listed_families cur act"]) (auto simp: act_def)
qed

text \<open>Signing out everywhere else. After a successful call the device list shows at most the caller's own
  browser session, sessions of other accounts are untouched, and no refresh token of the caller's account
  outside the current family can be exchanged any more.\<close>

theorem revoke_others_leaves_current:
  assumes "revoke_others lib env acc raw db = (Inr n, db')"
  shows "\<exists>uid cur. session_context lib env acc raw db' = Inr (uid, cur) \<and>
     (\<forall>r \<in> set (sessions db). s_user_id r \<noteq> uid \<or> s_family_id r = cur \<longrightarrow> r \<in> set (sessions db')) \<and>
     (\<forall>l. list_sessions lib env' acc raw db' = Inr l \<longrightarrow> (\<forall>d \<in> set (dl_sessions l). d_family_id d = cur)) \<and>
     (\<forall>tok s. find_session lib tok db' = Some s \<longrightarrow> s_user_id s = uid \<longrightarrow> s_family_id s \<noteq> cur \<longrightarrow>
        (\<exists>e. fst (refreshTokenPair lib env' tok meta db') = Inl e))"
proof -
  from assms obtain uid cur where c: "session_context lib env acc raw db = Inr (uid, cur)"
    by (auto simp: revoke_others_def split: sum.splits)
  define p where "p = (\<lambda>r :: auth_session. s_user_id r = uid \<and> s_family_id r \<noteq> cur)"
  obtain m d where rw: "revoke_where env ''other_devices_revoked'' p db = (m, d)" by fastforce
  with assms c obtain a where db': "db' = d\<lparr>audit := audit d @ [a]\<rparr>"
    by (auto simp: revoke_others_def audit_add_def p_def)
  have ctx: "session_context lib env acc raw db' = Inr (uid, cur)"
    unfolding db' session_context_audit using c rw by (rule session_context_revoke) (simp add: p_def)
  have pr: "\<And>r. p (revoke_row (now env) ''other_devices_revoked'' r) = p r" by (simp add: p_def revoke_row_def)
  have keep: "r \<in> set (sessions db')" if "r \<in> set (sessions db)" "\<not> p r" for r
    using revoke_where_rows(1) [OF rw that] by (simp add: db')
  have dead: "\<not> live_row r" if "r \<in> set (sessions db')" "p r" for r
    using revoke_where_rows(2) [OF rw _ that(2) pr] that(1) by (simp add: db' live_row_def)
  have lst: "d_family_id x = cur" if l: "list_sessions lib env' acc raw db' = Inr l" and x: "x \<in> set (dl_sessions l)" for l x
  proof -
    from l obtain uid' cur' rows where L: "session_context lib env' acc raw db' = Inr (uid', cur')"
      "map d_family_id (dl_sessions l) = map s_family_id rows"
      "\<forall>r \<in> set rows. r \<in> set (sessions db') \<and> session_active env' uid' r"
      by (rule list_sessions_rows) blast
    have "uid' = uid" using L(1) ctx by (metis jsval.inject(2) session_context_Inr)
    moreover have "d_family_id x \<in> s_family_id ` set rows" using x L(2) by (metis image_eqI image_set)
    ultimately show ?thesis using L(3) dead by (fastforce simp: session_active_def p_def)
  qed
  have "\<exists>e. fst (refreshTokenPair lib env' tok meta db') = Inl e"
    if "find_session lib tok db' = Some s" "s_user_id s = uid" "s_family_id s \<noteq> cur" for tok s
    using that(1) by (rule refresh_fails_not_live)
      (use dead [of s] find_session_row [OF that(1)] that(2,3) in \<open>simp add: p_def\<close>)
  with ctx keep lst show ?thesis by (intro exI [of _ uid] exI [of _ cur]) (auto simp: p_def)
qed

theorem revoke_others_leaves_current_witness:
  "\<exists>n db'. revoke_others lib0 (env0 1500 ''r9'') acc0 (JStr ''r1'') db3 = (Inr n, db') \<and>
     (\<exists>uid cur. session_context lib0 (env0 1500 ''r9'') acc0 (JStr ''r1'') db' = Inr (uid, cur))"
proof -
  have "fst (revoke_others lib0 (env0 1500 ''r9'') acc0 (JStr ''r1'') db3) = Inr 1" by code_simp
  then obtain db' where d: "revoke_others lib0 (env0 1500 ''r9'') acc0 (JStr ''r1'') db3 = (Inr 1, db')"
    by (metis prod.collapse)
  from revoke_others_leaves_current [OF d] d show ?thesis by blast
qed

text \<open>The device list. It shows at most one hundred entries, each from a live, unexpired session of the
  caller's own account, no family twice, and it contains the caller's own family whenever that family
  has a live session, even when a hundred newer ones exist.\<close>

theorem device_list_bounded:
  assumes "list_sessions lib env acc raw db = Inr l"
  shows "\<exists>uid cur. session_context lib env acc raw db = Inr (uid, cur) \<and> length (dl_sessions l) \<le> 100 \<and>
     distinct (map d_family_id (dl_sessions l)) \<and>
     (\<forall>d \<in> set (dl_sessions l). \<exists>r \<in> set (sessions db). s_family_id r = d_family_id d \<and> session_active env uid r) \<and>
     ((\<exists>r \<in> set (sessions db). session_active env uid r \<and> s_family_id r = cur) \<longrightarrow>
        cur \<in> d_family_id ` set (dl_sessions l))"
proof -
  from assms obtain uid cur rows where L: "session_context lib env acc raw db = Inr (uid, cur)"
    "map d_family_id (dl_sessions l) = map s_family_id rows"
    "\<forall>r \<in> set rows. r \<in> set (sessions db) \<and> session_active env uid r" "distinct (map s_family_id rows)"
    "length rows \<le> 100"
    "(\<exists>r \<in> set (sessions db). session_active env uid r \<and> s_family_id r = cur) \<longrightarrow> (\<exists>r \<in> set rows. s_family_id r = cur)"
    by (rule list_sessions_rows)
  have img: "d_family_id ` set (dl_sessions l) = s_family_id ` set rows" using L(2) by (metis list.set_map)
  have len: "length (dl_sessions l) = length rows" using L(2) by (metis length_map)
  have "\<exists>r \<in> set (sessions db). s_family_id r = d_family_id d \<and> session_active env uid r"
    if "d \<in> set (dl_sessions l)" for d
    using that img L(3) by (metis (no_types, lifting) imageE imageI)
  moreover have "cur \<in> d_family_id ` set (dl_sessions l)"
    if "\<exists>r \<in> set (sessions db). session_active env uid r \<and> s_family_id r = cur"
    using that L(6) img by auto
  ultimately show ?thesis using L(1,2,4,5) len by (intro exI [of _ uid] exI [of _ cur]) simp
qed

theorem device_list_bounded_witness:
  "\<exists>l. list_sessions lib0 (env0 1500 ''r9'') acc0 (JStr ''r1'') db3 = Inr l \<and> length (dl_sessions l) \<le> 100 \<and>
     distinct (map d_family_id (dl_sessions l))"
proof -
  have "case list_sessions lib0 (env0 1500 ''r9'') acc0 (JStr ''r1'') db3 of Inl _ \<Rightarrow> False | Inr _ \<Rightarrow> True" by code_simp
  then obtain l where l: "list_sessions lib0 (env0 1500 ''r9'') acc0 (JStr ''r1'') db3 = Inr l"
    by (auto split: sum.splits)
  from device_list_bounded [OF l] l show ?thesis by blast
qed

end
