(* ===== verification/Host_Domain_Claims.thy ===== *)
theory Host_Domain_Claims
  imports JS_Value Errors Store
begin

text \<open>
  The registry of claimed server names: \<open>backend/lib/host-domain-claims.js\<close>,
  \<open>backend/lib/host-domain-claim-key.js\<close> and the three tables of
  \<open>backend/models/host_domain_claim.js\<close>.

  Parameters. \<open>sha\<close> is the hexadecimal SHA-256 digest. \<open>write\<close> is the caller's callback: it reads and changes the host tables
  (\<open>'h\<close>, rolled back with the transaction) and effects outside the database (\<open>'x\<close>, never rolled back), and
  returns its result with the integer value of the result's \<open>id\<close>, if it has one.
\<close>

section \<open>The registry\<close>

record claim_row =
  c_domain_key :: string
  c_domain_name :: string

record claim_owner =
  o_domain_key :: string
  o_domain_name :: string
  o_host_type :: string
  o_host_id :: int

record claim_db =
  lock_sequence :: "nat option"
  claims :: "claim_row list"
  owners :: "claim_owner list"

definition hostTypes :: "string list" where
  "hostTypes = [''proxy'', ''redirection'', ''dead'']"

definition domainClaimKey :: "(string \<Rightarrow> string) \<Rightarrow> string \<Rightarrow> string" where
  "domainClaimKey sha domain = sha (js_lower domain)"

definition normalizeDomainClaims :: "jsval \<Rightarrow> string list result" where
  "normalizeDomainClaims domains =
     (if \<not> is_arr domains \<or> (\<exists>d \<in> set (arr_of domains). \<not> is_str d \<or> str_of d = [])
      then Inl (ValidationError ''Domain claims require an array of nonempty domain names'')
      else Inr (dedup (map (\<lambda>d. js_lower (str_of d)) (arr_of domains))))"

record claim_options =
  hostType :: string
  hostId :: "jsval"
  domainNames :: jsval
  retainedDomainNames :: jsval

text \<open>The owner a row belongs to. An undefined \<open>hostId\<close> equals no row's identifier.\<close>

definition owned_by :: "string \<Rightarrow> jsval \<Rightarrow> claim_owner \<Rightarrow> bool" where
  "owned_by t i c \<longleftrightarrow> o_host_type c = t \<and> JNum (o_host_id c) = i"

definition insert_claim :: "(string \<Rightarrow> string) \<Rightarrow> string \<Rightarrow> claim_db \<Rightarrow> claim_db" where
  "insert_claim sha domain reg =
     (let key = domainClaimKey sha domain
      in if key \<in> c_domain_key ` set (claims reg) then reg
         else reg\<lparr>claims := claims reg @ [\<lparr>c_domain_key = key, c_domain_name = domain\<rparr>]\<rparr>)"

text \<open>The primary key of an owner row is the key with the host's type and identifier.\<close>

definition insert_owner :: "(string \<Rightarrow> string) \<Rightarrow> string \<Rightarrow> int \<Rightarrow> string \<Rightarrow> claim_db \<Rightarrow> claim_db result" where
  "insert_owner sha t i domain reg =
     (let key = domainClaimKey sha domain
      in if (\<exists>c \<in> set (owners reg). o_domain_key c = key \<and> o_host_type c = t \<and> o_host_id c = i)
         then Inl (DBError ''UniqueViolationError'')
         else Inr (reg\<lparr>owners := owners reg @
                [\<lparr>o_domain_key = key, o_domain_name = domain, o_host_type = t, o_host_id = i\<rparr>]\<rparr>))"

definition claim_name :: "(string \<Rightarrow> string) \<Rightarrow> string \<Rightarrow> int \<Rightarrow> string \<Rightarrow> claim_db \<Rightarrow> claim_db result" where
  "claim_name sha t i domain reg = insert_owner sha t i domain (insert_claim sha domain reg)"

text \<open>The first claim of a requested name that another host holds and this host does not hold already.\<close>

definition claim_conflict ::
  "(string \<Rightarrow> string) \<Rightarrow> string \<Rightarrow> jsval \<Rightarrow> string list \<Rightarrow> claim_db \<Rightarrow> claim_owner option" where
  "claim_conflict sha t i names reg =
     (let existingNames = (if truthy i then map o_domain_name (filter (owned_by t i) (owners reg)) else [])
      in List.find (\<lambda>c. o_domain_key c \<in> set (map (domainClaimKey sha) names) \<and> \<not> owned_by t i c \<and>
                        o_domain_name c \<notin> set existingNames) (owners reg))"

definition drop_unowned :: "(string \<Rightarrow> string) \<Rightarrow> string list \<Rightarrow> claim_db \<Rightarrow> claim_db" where
  "drop_unowned sha affected reg =
     reg\<lparr>claims := delete_where (\<lambda>r. c_domain_key r \<in> set (map (domainClaimKey sha) affected) \<and>
                      c_domain_key r \<notin> o_domain_key ` set (owners reg)) (claims reg)\<rparr>"

text \<open>The body of the transaction. The lock row is incremented first; without it nothing is written.\<close>

definition claims_transaction ::
  "(string \<Rightarrow> string) \<Rightarrow> string \<Rightarrow> jsval \<Rightarrow> string list \<Rightarrow>
   ('h \<Rightarrow> 'x \<Rightarrow> ('a \<times> int option) result \<times> 'h \<times> 'x) \<Rightarrow> claim_db \<Rightarrow> 'h \<Rightarrow> 'x \<Rightarrow> ('a \<times> claim_db \<times> 'h) result \<times> 'x" where
  "claims_transaction sha t i names wr reg h x =
     (case lock_sequence reg of
        None \<Rightarrow> (Inl (ConfigurationError ''The host domain claim registry is not initialized''), x)
      | Some n \<Rightarrow>
          (case claim_conflict sha t i names reg of
             Some c \<Rightarrow> (Inl (ValidationError (o_domain_name c @ '' is already in use'')), x)
           | None \<Rightarrow>
               (case wr h x of
                  (Inl e, h', x') \<Rightarrow> (Inl e, x')
                | (Inr (res, rid), h', x') \<Rightarrow>
                    (let ownerId = (if truthy i then Some (int_of i) else rid);
                         existingNames = (if truthy i then map o_domain_name (filter (owned_by t i) (owners reg)) else [])
                     in case ownerId of
                          None \<Rightarrow> (Inl (InternalValidationError ''A host domain claim write must return its new host ID''), x')
                        | Some oid \<Rightarrow>
                            if \<bar>oid\<bar> > MAX_SAFE_INTEGER \<or> oid \<le> 0
                            then (Inl (InternalValidationError ''A host domain claim write must return its new host ID''), x')
                            else
                              (let reg1 = reg\<lparr>lock_sequence := Some (Suc n),
                                            owners := delete_where (owned_by t (JNum oid)) (owners reg)\<rparr>
                               in (rbind (rfold (claim_name sha t oid) names reg1) (\<lambda>reg2.
                                     Inr (res, drop_unowned sha (dedup (existingNames @ names)) reg2, h')), x'))))))"

definition withHostDomainClaims ::
  "(string \<Rightarrow> string) \<Rightarrow> claim_options \<Rightarrow> ('h \<Rightarrow> 'x \<Rightarrow> ('a \<times> int option) result \<times> 'h \<times> 'x)
     \<Rightarrow> claim_db \<Rightarrow> 'h \<Rightarrow> 'x \<Rightarrow> 'a result \<times> claim_db \<times> 'h \<times> 'x" where
  "withHostDomainClaims sha opts wr reg h x =
     (if hostType opts \<notin> set hostTypes \<or>
         (hostId opts \<noteq> Undef \<and> (\<not> is_safe_integer (hostId opts) \<or> int_of (hostId opts) \<le> 0))
      then (Inl (InternalValidationError ''Invalid host domain claim owner''), reg, h, x)
      else
        (case rbind (normalizeDomainClaims (domainNames opts)) (\<lambda>a.
                rbind (normalizeDomainClaims (if_undef (retainedDomainNames opts) (JArr []))) (\<lambda>b.
                  normalizeDomainClaims (JArr (map JStr (a @ b))))) of
           Inl e \<Rightarrow> (Inl e, reg, h, x)
         | Inr names \<Rightarrow>
             (case claims_transaction sha (hostType opts) (hostId opts) names wr reg h x of
                (Inl e, x') \<Rightarrow> (Inl e, reg, h, x')
              | (Inr (res, reg', h'), x') \<Rightarrow> (Inr res, reg', h', x'))))"

section \<open>The registry as a relation between hosts and names\<close>

type_synonym host_ref = "string \<times> int"

definition ref :: "claim_owner \<Rightarrow> host_ref" where
  "ref c = (o_host_type c, o_host_id c)"

definition holds :: "claim_db \<Rightarrow> host_ref \<Rightarrow> string \<Rightarrow> bool" where
  "holds reg r n \<longleftrightarrow> (\<exists>c \<in> set (owners reg). ref c = r \<and> o_domain_name c = n)"

text \<open>Well-formed registries: keys are the digests of normalised names, the two primary keys are unique,
  and the claim table holds exactly the keys that have an owner.\<close>

definition owner_ok :: "(string \<Rightarrow> string) \<Rightarrow> claim_owner \<Rightarrow> bool" where
  "owner_ok sha c \<longleftrightarrow> o_domain_key c = domainClaimKey sha (o_domain_name c) \<and>
     js_lower (o_domain_name c) = o_domain_name c"

definition owner_key :: "claim_owner \<Rightarrow> string \<times> host_ref" where
  "owner_key c = (o_domain_key c, ref c)"

definition claims_ok :: "(string \<Rightarrow> string) \<Rightarrow> claim_db \<Rightarrow> bool" where
  "claims_ok sha reg \<longleftrightarrow> (\<forall>c \<in> set (owners reg). owner_ok sha c) \<and>
     distinct (map owner_key (owners reg)) \<and> distinct (map c_domain_key (claims reg)) \<and>
     c_domain_key ` set (claims reg) = o_domain_key ` set (owners reg)"

lemma owned_by_ref: "owned_by t (JNum i) c \<longleftrightarrow> ref c = (t, i)"
  by (auto simp: owned_by_def ref_def)

lemma owned_by_Undef [simp]: "\<not> owned_by t Undef c"
  by (simp add: owned_by_def)

lemma normalizeDomainClaims_ok:
  "normalizeDomainClaims v = Inr names \<Longrightarrow>
     distinct names \<and> (\<forall>n \<in> set names. n \<noteq> [] \<and> js_lower n = n) \<and>
     set names = (\<lambda>d. js_lower (str_of d)) ` set (arr_of v)"
  by (auto simp: normalizeDomainClaims_def split: if_splits)

lemma normalizeDomainClaims_fix:
  "distinct names \<and> (\<forall>n \<in> set names. n \<noteq> [] \<and> js_lower n = n) \<Longrightarrow>
     normalizeDomainClaims (JArr (map JStr names)) = Inr names"
  by (auto simp: normalizeDomainClaims_def comp_def map_idI)

interpretation claim_names: normalizer normalizeDomainClaims "\<lambda>ns. JArr (map JStr ns)"
  "\<lambda>names. distinct names \<and> (\<forall>n \<in> set names. n \<noteq> [] \<and> js_lower n = n)"
proof unfold_locales
  fix v names
  assume "normalizeDomainClaims v = Inr names"
  then show "distinct names \<and> (\<forall>n \<in> set names. n \<noteq> [] \<and> js_lower n = n)"
    by (blast dest: normalizeDomainClaims_ok)
next
  fix names :: "string list"
  assume "distinct names \<and> (\<forall>n \<in> set names. n \<noteq> [] \<and> js_lower n = n)"
  then show "normalizeDomainClaims (JArr (map JStr names)) = Inr names" by (rule normalizeDomainClaims_fix)
qed


section \<open>The effect of a transaction\<close>

definition owner_row :: "(string \<Rightarrow> string) \<Rightarrow> string \<Rightarrow> int \<Rightarrow> string \<Rightarrow> claim_owner" where
  "owner_row sha t i n =
     \<lparr>o_domain_key = domainClaimKey sha n, o_domain_name = n, o_host_type = t, o_host_id = i\<rparr>"

lemma owner_row_simps [simp]:
  "o_domain_key (owner_row sha t i n) = domainClaimKey sha n" "o_domain_name (owner_row sha t i n) = n"
  "ref (owner_row sha t i n) = (t, i)" "owner_key (owner_row sha t i n) = (domainClaimKey sha n, t, i)"
  by (simp_all add: owner_row_def ref_def owner_key_def)

lemma claim_name_Inr:
  assumes "claim_name sha t i n reg = Inr reg'"
  shows "owners reg' = owners reg @ [owner_row sha t i n]" "lock_sequence reg' = lock_sequence reg"
    "c_domain_key ` set (claims reg') = insert (domainClaimKey sha n) (c_domain_key ` set (claims reg))"
    "distinct (map c_domain_key (claims reg)) \<Longrightarrow> distinct (map c_domain_key (claims reg'))"
    "distinct (map owner_key (owners reg)) \<Longrightarrow> distinct (map owner_key (owners reg'))"
proof -
  have ic: "owners (insert_claim sha n reg) = owners reg" "lock_sequence (insert_claim sha n reg) = lock_sequence reg"
    "c_domain_key ` set (claims (insert_claim sha n reg)) = insert (domainClaimKey sha n) (c_domain_key ` set (claims reg))"
    "distinct (map c_domain_key (claims reg)) \<Longrightarrow> distinct (map c_domain_key (claims (insert_claim sha n reg)))"
    by (auto simp: insert_claim_def Let_def)
  have o: "(\<exists>c \<in> set (owners reg). o_domain_key c = domainClaimKey sha n \<and> o_host_type c = t \<and> o_host_id c = i)
      \<longleftrightarrow> owner_key (owner_row sha t i n) \<in> owner_key ` set (owners reg)"
    by (auto simp: owner_key_def ref_def owner_row_def image_iff) metis
  have "owner_key (owner_row sha t i n) \<notin> owner_key ` set (owners reg)"
    and r: "reg' = insert_claim sha n reg\<lparr>owners := owners reg @ [owner_row sha t i n]\<rparr>"
    using assms by (auto simp: claim_name_def insert_owner_def Let_def ic(1) o owner_row_def [symmetric] split: if_splits)
  then show "owners reg' = owners reg @ [owner_row sha t i n]" "lock_sequence reg' = lock_sequence reg"
    "c_domain_key ` set (claims reg') = insert (domainClaimKey sha n) (c_domain_key ` set (claims reg))"
    "distinct (map c_domain_key (claims reg)) \<Longrightarrow> distinct (map c_domain_key (claims reg'))"
    "distinct (map owner_key (owners reg)) \<Longrightarrow> distinct (map owner_key (owners reg'))"
    using ic by simp_all
qed

lemma claim_names_Inr:
  assumes "rfold (claim_name sha t i) names reg = Inr reg'"
  shows "owners reg' = owners reg @ map (owner_row sha t i) names \<and> lock_sequence reg' = lock_sequence reg \<and>
    c_domain_key ` set (claims reg') = domainClaimKey sha ` set names \<union> c_domain_key ` set (claims reg) \<and>
    (distinct (map c_domain_key (claims reg)) \<longrightarrow> distinct (map c_domain_key (claims reg'))) \<and>
    (distinct (map owner_key (owners reg)) \<longrightarrow>
      distinct (map owner_key (owners reg')))"
  using assms
proof (induction names arbitrary: reg)
  case Nil
  then show ?case by simp
next
  case (Cons n names)
  then obtain r where r: "claim_name sha t i n reg = Inr r" and f: "rfold (claim_name sha t i) names r = Inr reg'"
    by (auto simp: res_simps)
  note A = claim_name_Inr [OF r]
  from Cons.IH [OF f] show ?case using A(4,5) by (auto simp only: A(1,2,3) list.map append_assoc append_Cons append_Nil
      list.set image_insert Un_insert_left Un_insert_right)
qed

lemma claim_names_succeed:
  assumes "inj_on sha (set names)" and "distinct names" and "\<forall>n \<in> set names. js_lower n = n"
    and "\<forall>c \<in> set (owners reg). ref c = (t, i) \<longrightarrow> o_domain_key c \<notin> sha ` set names"
  shows "\<exists>reg'. rfold (claim_name sha t i) names reg = Inr reg'"
  using assms
proof (induction names arbitrary: reg)
  case Nil
  then show ?case by simp
next
  case (Cons n names)
  have low: "domainClaimKey sha n = sha n" using Cons.prems(3) by (simp add: domainClaimKey_def)
  have own: "owners (insert_claim sha n reg) = owners reg" by (simp add: insert_claim_def Let_def)
  have "\<not> (\<exists>c \<in> set (owners reg). o_domain_key c = sha n \<and> o_host_type c = t \<and> o_host_id c = i)"
    using Cons.prems(4) by (auto simp: ref_def)
  then obtain r where r: "claim_name sha t i n reg = Inr r"
    by (simp add: claim_name_def insert_owner_def own low Let_def)
  have "\<exists>reg'. rfold (claim_name sha t i) names r = Inr reg'"
  proof (rule Cons.IH)
    show "\<forall>c \<in> set (owners r). ref c = (t, i) \<longrightarrow> o_domain_key c \<notin> sha ` set names"
      using Cons.prems claim_name_Inr(1) [OF r] low by (auto simp: inj_on_def)
  qed (use Cons.prems in \<open>auto simp: inj_on_def\<close>)
  with r show ?case by simp
qed

lemma claims_transaction_Inr:
  assumes T: "claims_transaction sha t i names wr reg h x = (Inr (res, reg', h'), x')"
    and "i = Undef \<or> (\<exists>n. i = JNum n \<and> 0 < n)"
  obtains oid rid reg2 where "wr h x = (Inr (res, rid), h', x')" "0 < oid"
    "if truthy i then i = JNum oid else rid = Some oid"
    "claim_conflict sha t i names reg = None" "lock_sequence reg \<noteq> None"
    "owners reg' = filter (\<lambda>c. ref c \<noteq> (t, oid)) (owners reg) @ map (owner_row sha t oid) names"
    "rfold (claim_name sha t oid) names (reg\<lparr>lock_sequence := map_option Suc (lock_sequence reg),
        owners := delete_where (owned_by t (JNum oid)) (owners reg)\<rparr>) = Inr reg2"
    "reg' = drop_unowned sha (dedup ((if truthy i then map o_domain_name (filter (owned_by t i) (owners reg)) else []) @ names)) reg2"
proof -
  let ?ex = "if truthy i then map o_domain_name (filter (owned_by t i) (owners reg)) else []"
  note T' = T [unfolded claims_transaction_def Let_def]
  from T' obtain n where n: "lock_sequence reg = Some n" by (auto split: option.splits)
  with T' have c: "claim_conflict sha t i names reg = None" by (auto split: option.splits)
  from T' n c obtain r1 rid h1 x1 where w: "wr h x = (Inr (r1, rid), h1, x1)"
    by (auto split: prod.splits sum.splits)
  from T' n c w obtain oid where o: "(if truthy i then Some (int_of i) else rid) = Some oid"
    by (auto split: option.splits)
  from T' n c w o have pos: "0 < oid" by (auto split: if_splits)
  from T' n c w o pos obtain reg2 where f: "rfold (claim_name sha t oid) names (reg\<lparr>lock_sequence := Some (Suc n),
        owners := delete_where (owned_by t (JNum oid)) (owners reg)\<rparr>) = Inr reg2"
    and eq: "r1 = res" "h1 = h'" "x1 = x'" "reg' = drop_unowned sha (dedup (?ex @ names)) reg2"
    by (auto simp: res_simps split: if_splits)
  have "owners reg' = owners reg2" using eq by (simp add: drop_unowned_def)
  also have "\<dots> = filter (\<lambda>c. ref c \<noteq> (t, oid)) (owners reg) @ map (owner_row sha t oid) names"
    using claim_names_Inr [OF f] by (simp add: delete_where_def owned_by_ref)
  finally have own: "owners reg' = filter (\<lambda>c. ref c \<noteq> (t, oid)) (owners reg) @ map (owner_row sha t oid) names" .
  have io: "if truthy i then i = JNum oid else rid = Some oid" using o assms(2) by auto
  show thesis
    by (rule that [OF w [unfolded eq(1-3)] pos io c _ own _ eq(4)]) (use n f in auto)
qed

section \<open>The contract of the registry\<close>

text \<open>What a client of the registry may rely on: after a successful claim the claimant holds exactly the
  names it asked for, nobody else's names change, and a name another host holds was granted only because
  the claimant held it already.\<close>

locale name_registry =
  fixes held :: "'r \<Rightarrow> 'o \<Rightarrow> 'n \<Rightarrow> bool"
    and claimed :: "'o \<Rightarrow> 'n set \<Rightarrow> 'r \<Rightarrow> 'r \<Rightarrow> bool"
  assumes claim_own: "claimed o1 ns r r' \<Longrightarrow> held r' o1 n \<longleftrightarrow> n \<in> ns"
    and claim_other: "claimed o1 ns r r' \<Longrightarrow> o2 \<noteq> o1 \<Longrightarrow> held r' o2 n \<longleftrightarrow> held r o2 n"
    and claim_guard: "claimed o1 ns r r' \<Longrightarrow> n \<in> ns \<Longrightarrow> o2 \<noteq> o1 \<Longrightarrow> held r o2 n \<Longrightarrow> held r o1 n"
begin

lemma no_new_sharing:
  assumes "claimed c ns r r'" and "o1 \<noteq> o2" and "held r' o1 n" and "held r' o2 n"
  shows "held r o1 n \<and> held r o2 n"
  using assms claim_own claim_other claim_guard by metis

lemma claim_frame: "claimed o1 ns r r' \<Longrightarrow> held r' = (held r)(o1 := \<lambda>n. n \<in> ns)"
  by (auto simp: fun_eq_iff claim_own claim_other)

lemma release: "claimed o1 {} r r' \<Longrightarrow> \<not> held r' o1 n"
  by (simp add: claim_own)

lemma exclusive_kept:
  assumes "claimed c ns r r'" and "\<forall>o1 o2 n. held r o1 n \<longrightarrow> held r o2 n \<longrightarrow> o1 = o2"
  shows "\<forall>o1 o2 n. held r' o1 n \<longrightarrow> held r' o2 n \<longrightarrow> o1 = o2"
  using no_new_sharing [OF assms(1)] assms(2) by blast

end

text \<open>The registry's part of a committed transaction.\<close>

definition registry_claimed ::
  "(string \<Rightarrow> string) \<Rightarrow> jsval \<Rightarrow> host_ref \<Rightarrow> string set \<Rightarrow> claim_db \<Rightarrow> claim_db \<Rightarrow> bool" where
  "registry_claimed sha i r ns reg reg' \<longleftrightarrow> claims_ok sha reg \<and> (i = Undef \<or> i = JNum (snd r)) \<and>
     (\<exists>names. set names = ns \<and> (\<forall>n \<in> ns. js_lower n = n) \<and> claim_conflict sha (fst r) i names reg = None \<and>
        owners reg' = filter (\<lambda>c. ref c \<noteq> r) (owners reg) @ map (owner_row sha (fst r) (snd r)) names)"

lemma holds_owners_append:
  "holds reg' r' n \<longleftrightarrow> (r' \<noteq> r \<and> holds reg r' n) \<or> (r' = r \<and> n \<in> set names)"
  if "owners reg' = filter (\<lambda>c. ref c \<noteq> r) (owners reg) @ map (owner_row sha (fst r) (snd r)) names"
  unfolding holds_def that by (cases r) (auto simp: bex_Un)

lemma claim_conflict_None:
  assumes "claims_ok sha reg" and "claim_conflict sha t i names reg = None" and "n \<in> set names"
    and "holds reg r n" and "i = Undef \<or> i = JNum oid" and "r \<noteq> (t, oid)"
  shows "holds reg (t, oid) n"
proof -
  from assms(4) obtain c where c: "c \<in> set (owners reg)" "ref c = r" "o_domain_name c = n" by (auto simp: holds_def)
  then have "o_domain_key c = domainClaimKey sha n" using assms(1) by (auto simp: claims_ok_def owner_ok_def)
  moreover have "\<not> owned_by t i c" using c assms(5,6) by (auto simp: owned_by_def ref_def)
  ultimately have "o_domain_name c \<in> set (if truthy i then map o_domain_name (filter (owned_by t i) (owners reg)) else [])"
    using assms(2,3) c(1) unfolding claim_conflict_def Let_def find_None by (metis image_eqI list.set_map)
  then show ?thesis using c(3) assms(5) by (auto simp: holds_def owned_by_ref split: if_splits)
qed

interpretation claims: name_registry holds "registry_claimed sha i" for sha i
proof unfold_locales
  fix o1 ns r r' n
  assume "registry_claimed sha i o1 ns r r'"
  then show "holds r' o1 n \<longleftrightarrow> n \<in> ns"
    by (auto simp: registry_claimed_def holds_owners_append)
next
  fix o1 ns r r' o2 n
  assume "registry_claimed sha i o1 ns r r'" "o2 \<noteq> o1"
  then show "holds r' o2 n \<longleftrightarrow> holds r o2 n"
    by (auto simp: registry_claimed_def holds_owners_append)
next
  fix o1 ns r r' n o2
  assume "registry_claimed sha i o1 ns r r'" "n \<in> ns" "o2 \<noteq> o1" "holds r o2 n"
  then show "holds r o1 n"
    unfolding registry_claimed_def by (metis claim_conflict_None prod.collapse)
qed

text \<open>The names a call asks for.\<close>

definition requested :: "claim_options \<Rightarrow> string set" where
  "requested opts = (\<lambda>d. js_lower (str_of d)) `
     (set (arr_of (domainNames opts)) \<union> set (arr_of (retainedDomainNames opts)))"

lemma requested_names:
  assumes "rbind (normalizeDomainClaims (domainNames opts)) (\<lambda>a.
     rbind (normalizeDomainClaims (if_undef (retainedDomainNames opts) (JArr []))) (\<lambda>b.
       normalizeDomainClaims (JArr (map JStr (a @ b))))) = Inr names"
  shows "set names = requested opts" "distinct names" "\<forall>n \<in> set names. js_lower n = n"
proof -
  from assms obtain a b where a: "normalizeDomainClaims (domainNames opts) = Inr a"
    and b: "normalizeDomainClaims (if_undef (retainedDomainNames opts) (JArr [])) = Inr b"
    and n: "normalizeDomainClaims (JArr (map JStr (a @ b))) = Inr names"
    by (auto simp: res_simps)
  note A = normalizeDomainClaims_ok [OF a] and B = normalizeDomainClaims_ok [OF b] and N = normalizeDomainClaims_ok [OF n]
  have b': "set (arr_of (if_undef (retainedDomainNames opts) (JArr []))) = set (arr_of (retainedDomainNames opts))"
    by (simp add: if_undef_def)
  have "set names = js_lower ` (set a \<union> set b)"
    using N [THEN conjunct2, THEN conjunct2] by (simp add: image_Un image_image)
  also have "\<dots> = set a \<union> set b"
    using A [THEN conjunct2, THEN conjunct1] B [THEN conjunct2, THEN conjunct1] by (force simp: image_iff)
  also have "\<dots> = requested opts"
    using A [THEN conjunct2, THEN conjunct2] B [THEN conjunct2, THEN conjunct2] b' by (simp add: requested_def image_Un)
  finally show "set names = requested opts" .
  show "distinct names" "\<forall>n \<in> set names. js_lower n = n" using N by blast+
qed

lemma withHostDomainClaims_Inr:
  assumes "withHostDomainClaims sha opts wr reg h x = (Inr res, reg', h', x')"
  obtains names where "claims_transaction sha (hostType opts) (hostId opts) names wr reg h x = (Inr (res, reg', h'), x')"
    "hostId opts = Undef \<or> (\<exists>n. hostId opts = JNum n \<and> 0 < n)" "set names = requested opts" "distinct names"
    "\<forall>n \<in> set names. js_lower n = n" "hostType opts \<in> set hostTypes"
proof -
  from assms have v: "hostType opts \<in> set hostTypes"
      "\<not> (hostId opts \<noteq> Undef \<and> (\<not> is_safe_integer (hostId opts) \<or> int_of (hostId opts) \<le> 0))"
    by (auto simp: withHostDomainClaims_def split: if_splits)
  with assms obtain names where n: "rbind (normalizeDomainClaims (domainNames opts)) (\<lambda>a.
       rbind (normalizeDomainClaims (if_undef (retainedDomainNames opts) (JArr []))) (\<lambda>b.
         normalizeDomainClaims (JArr (map JStr (a @ b))))) = Inr names"
    by (auto simp: withHostDomainClaims_def split: sum.splits)
  have t: "claims_transaction sha (hostType opts) (hostId opts) names wr reg h x = (Inr (res, reg', h'), x')"
    using assms v n by (auto simp: withHostDomainClaims_def split: sum.splits prod.splits)
  have "hostId opts = Undef \<or> (\<exists>n. hostId opts = JNum n \<and> 0 < n)"
    using v(2) by (cases "hostId opts") auto
  with t v(1) requested_names [OF n] show thesis by (intro that) auto
qed

lemma withHostDomainClaims_claimed:
  assumes ok: "claims_ok sha reg" and w: "withHostDomainClaims sha opts wr reg h x = (Inr res, reg', h', x')"
  obtains oid rid where "registry_claimed sha (hostId opts) (hostType opts, oid) (requested opts) reg reg'" "0 < oid"
    "wr h x = (Inr (res, rid), h', x')" "if hostId opts = Undef then rid = Some oid else hostId opts = JNum oid"
proof -
  from w obtain names where t: "claims_transaction sha (hostType opts) (hostId opts) names wr reg h x = (Inr (res, reg', h'), x')"
    and i: "hostId opts = Undef \<or> (\<exists>n. hostId opts = JNum n \<and> 0 < n)"
    and n: "set names = requested opts" "\<forall>n \<in> set names. js_lower n = n"
    by (rule withHostDomainClaims_Inr)
  from t i obtain oid rid where c: "wr h x = (Inr (res, rid), h', x')" "0 < oid"
    "if truthy (hostId opts) then hostId opts = JNum oid else rid = Some oid"
    "claim_conflict sha (hostType opts) (hostId opts) names reg = None"
    "owners reg' = filter (\<lambda>c. ref c \<noteq> (hostType opts, oid)) (owners reg) @ map (owner_row sha (hostType opts) oid) names"
    by (rule claims_transaction_Inr)
  have "registry_claimed sha (hostId opts) (hostType opts, oid) (requested opts) reg reg'"
    unfolding registry_claimed_def fst_conv snd_conv using ok n c(3-5) i by (auto split: if_splits)
  with c i show thesis by (intro that [of oid rid]) auto
qed

section \<open>Guarantees\<close>

text \<open>C16. No new collision. After a committed claim, two different hosts share a name only if both already
  held it before: whatever the write does, no name is ever assigned to a second host.\<close>

theorem claims_no_new_sharing:
  assumes "claims_ok sha reg" and "withHostDomainClaims sha opts wr reg h x = (Inr res, reg', h', x')"
    and "r1 \<noteq> r2" and "holds reg' r1 n" and "holds reg' r2 n"
  shows "holds reg r1 n \<and> holds reg r2 n"
  using assms(1,2)
proof (rule withHostDomainClaims_claimed)
  fix oid
  assume "registry_claimed sha (hostId opts) (hostType opts, oid) (requested opts) reg reg'"
  then show ?thesis using assms(3-5) by (rule claims.no_new_sharing)
qed

text \<open>C35. The registry implements an ownership map. A committed claim replaces the entry of the claiming host by
  the requested names in lower case and leaves every other host's entry alone; the host table and the
  outside effects are those of the write.\<close>

theorem claims_refine_ownership_map:
  assumes "claims_ok sha reg" and "withHostDomainClaims sha opts wr reg h x = (Inr res, reg', h', x')"
  shows "\<exists>oid rid. wr h x = (Inr (res, rid), h', x') \<and> 0 < oid \<and>
     (if hostId opts = Undef then rid = Some oid else hostId opts = JNum oid) \<and>
     holds reg' = (holds reg)((hostType opts, oid) := (\<lambda>n. n \<in> requested opts))"
  using assms
proof (rule withHostDomainClaims_claimed)
  fix oid rid
  assume c: "registry_claimed sha (hostId opts) (hostType opts, oid) (requested opts) reg reg'"
    and rest: "0 < oid" "wr h x = (Inr (res, rid), h', x')"
      "if hostId opts = Undef then rid = Some oid else hostId opts = JNum oid"
  from claims.claim_frame [OF c] rest show ?thesis by blast
qed

text \<open>The registry stays well formed: every owner row is keyed by the digest of its lower-case name, both
  primary keys stay unique, and the claim table holds a key exactly when some host owns it, so a
  released name leaves no claim behind.\<close>

theorem claims_ok_preserved:
  assumes ok: "claims_ok sha reg" and w: "withHostDomainClaims sha opts wr reg h x = (Inr res, reg', h', x')"
    and fresh: "hostId opts = Undef \<Longrightarrow> \<forall>i. snd (projr (fst (wr h x))) = Some i \<longrightarrow> (hostType opts, i) \<notin> ref ` set (owners reg)"
  shows "claims_ok sha reg'"
proof -
  let ?t = "hostType opts" let ?i = "hostId opts"
  let ?key = "domainClaimKey sha"
  from w obtain names where t: "claims_transaction sha ?t ?i names wr reg h x = (Inr (res, reg', h'), x')"
    and i: "?i = Undef \<or> (\<exists>n. ?i = JNum n \<and> 0 < n)" and n: "\<forall>n \<in> set names. js_lower n = n"
    by (rule withHostDomainClaims_Inr)
  define ex where "ex = (if truthy ?i then map o_domain_name (filter (owned_by ?t ?i) (owners reg)) else [])"
  from t i obtain oid rid reg2 where c: "wr h x = (Inr (res, rid), h', x')"
      "if truthy ?i then ?i = JNum oid else rid = Some oid"
      "owners reg' = filter (\<lambda>c. ref c \<noteq> (?t, oid)) (owners reg) @ map (owner_row sha ?t oid) names"
    and f: "rfold (claim_name sha ?t oid) names (reg\<lparr>lock_sequence := map_option Suc (lock_sequence reg),
        owners := delete_where (owned_by ?t (JNum oid)) (owners reg)\<rparr>) = Inr reg2"
    and r': "reg' = drop_unowned sha (dedup (ex @ names)) reg2"
    unfolding ex_def by (rule claims_transaction_Inr)
  note F = claim_names_Inr [OF f]
  note O = ok [unfolded claims_ok_def]
  have own2: "owners reg2 = owners reg'" by (simp add: r' drop_unowned_def)
  have k2: "c_domain_key ` set (claims reg2) = ?key ` set names \<union> o_domain_key ` set (owners reg)"
    using F O by simp
  have own': "o_domain_key ` set (owners reg') =
      o_domain_key ` {c \<in> set (owners reg). ref c \<noteq> (?t, oid)} \<union> ?key ` set names"
    by (auto simp: c(3) image_Un image_image)
  have gone: "o_domain_key c \<in> ?key ` set ex" if "c \<in> set (owners reg)" "ref c = (?t, oid)" for c
  proof (cases "truthy ?i")
    case True
    with that c(2) have "o_domain_name c \<in> set ex" by (auto simp: ex_def owned_by_ref)
    with that O show ?thesis by (auto simp: owner_ok_def)
  next
    case False
    with i c fresh that show ?thesis by force
  qed
  have "c_domain_key ` set (claims reg') =
      {k \<in> c_domain_key ` set (claims reg2). \<not> (k \<in> ?key ` (set ex \<union> set names) \<and> k \<notin> o_domain_key ` set (owners reg'))}"
    by (auto simp: r' drop_unowned_def)
  also have "\<dots> = o_domain_key ` set (owners reg')"
    using gone unfolding k2 own' by blast
  finally have keys: "c_domain_key ` set (claims reg') = o_domain_key ` set (owners reg')" .
  have "distinct (map owner_key (delete_where (owned_by ?t (JNum oid)) (owners reg)))"
    using O by (simp add: delete_where_def distinct_map_filter)
  then have "distinct (map owner_key (owners reg'))"
    using F [THEN conjunct2, THEN conjunct2, THEN conjunct2, THEN conjunct2] by (simp only: own2) simp
  moreover have "distinct (map c_domain_key (claims reg'))"
    using F O by (simp add: r' drop_unowned_def delete_where_def distinct_map_filter)
  moreover have "\<forall>c \<in> set (owners reg'). owner_ok sha c"
    using O n by (auto simp: c(3) owner_ok_def)
  ultimately show ?thesis using keys by (simp add: claims_ok_def)
qed

lemma claim_conflict_Some:
  assumes "claims_ok sha reg" and "claim_conflict sha t i names reg = Some c" and "\<forall>n \<in> set names. js_lower n = n"
    and "inj_on sha (set names \<union> o_domain_name ` set (owners reg))" and "i = Undef \<or> (i = JNum oid \<and> 0 < oid)"
  shows "o_domain_name c \<in> set names" "holds reg (ref c) (o_domain_name c)"
    "\<not> (i \<noteq> Undef \<and> holds reg (t, oid) (o_domain_name c))"
proof -
  from find_SomeD [OF assms(2) [unfolded claim_conflict_def Let_def]]
  have c: "c \<in> set (owners reg)" "o_domain_key c \<in> domainClaimKey sha ` set names" "\<not> owned_by t i c"
    "o_domain_name c \<notin> set (if truthy i then map o_domain_name (filter (owned_by t i) (owners reg)) else [])"
    by auto
  from c(1) assms(1) have k: "o_domain_key c = sha (o_domain_name c)"
    by (auto simp: claims_ok_def owner_ok_def domainClaimKey_def)
  from c(2) assms(3) obtain n where n: "n \<in> set names" "o_domain_key c = sha n"
    by (auto simp: domainClaimKey_def)
  with k assms(4) c(1) have "o_domain_name c = n" by (auto dest!: inj_onD)
  with n show "o_domain_name c \<in> set names" by simp
  show "holds reg (ref c) (o_domain_name c)" using c(1) by (auto simp: holds_def)
  show "\<not> (i \<noteq> Undef \<and> holds reg (t, oid) (o_domain_name c))"
    using c(4) assms(5) by (auto simp: holds_def owned_by_ref image_iff)
qed

lemma withHostDomainClaims_run:
  assumes "hostType opts \<in> set hostTypes" and "hostId opts = Undef \<or> hostId opts = JNum oid" and "0 < oid" and "oid \<le> MAX_SAFE_INTEGER"
    and "domainNames opts = JArr (map JStr names)" and "retainedDomainNames opts = Undef"
    and "distinct names" and "\<forall>n \<in> set names. n \<noteq> [] \<and> js_lower n = n"
  shows "withHostDomainClaims sha opts wr reg h x =
     (case claims_transaction sha (hostType opts) (hostId opts) names wr reg h x of
        (Inl e, x') \<Rightarrow> (Inl e, reg, h, x') | (Inr (res, reg', h'), x') \<Rightarrow> (Inr res, reg', h', x'))"
proof -
  have "normalizeDomainClaims (JArr (map JStr names)) = Inr names" using assms(7,8) by (intro normalizeDomainClaims_fix) simp
  moreover have "normalizeDomainClaims (JArr []) = Inr []" by (simp add: normalizeDomainClaims_def)
  ultimately show ?thesis using assms(1-6)
    by (auto simp: withHostDomainClaims_def if_undef_def)
qed

text \<open>When a claim is granted. With distinct digests for the names involved and a write that succeeds, the
  call is granted exactly when each requested name that some host holds is already held by the caller;
  otherwise it is refused, naming a requested name that is taken, the write never runs and nothing
  changes.\<close>

theorem claim_granted_iff:
  assumes ok: "claims_ok sha reg" and lock: "lock_sequence reg \<noteq> None"
    and t: "hostType opts \<in> set hostTypes"
    and i: "hostId opts = Undef \<and> rid = Some oid \<or> hostId opts = JNum oid" and pos: "0 < oid" "oid \<le> MAX_SAFE_INTEGER"
    and names: "domainNames opts = JArr (map JStr names)" "retainedDomainNames opts = Undef"
      "distinct names" "\<forall>n \<in> set names. n \<noteq> [] \<and> js_lower n = n"
    and inj: "inj_on sha (set names \<union> o_domain_name ` set (owners reg))"
    and wr: "wr h x = (Inr (res, rid), h', x')"
  shows "if \<forall>n \<in> set names. \<forall>r. holds reg r n \<longrightarrow> hostId opts \<noteq> Undef \<and> holds reg (hostType opts, oid) n
     then \<exists>reg'. withHostDomainClaims sha opts wr reg h x = (Inr res, reg', h', x')
     else \<exists>n \<in> set names. (\<exists>r. holds reg r n) \<and>
       withHostDomainClaims sha opts wr reg h x = (Inl (ValidationError (n @ '' is already in use'')), reg, h, x)"
proof -
  let ?t = "hostType opts" let ?i = "hostId opts"
  have low: "\<forall>n \<in> set names. js_lower n = n" using names(4) by blast
  have i': "?i = Undef \<or> (?i = JNum oid \<and> 0 < oid)" "?i = Undef \<or> ?i = JNum oid" using i pos by auto
  note run = withHostDomainClaims_run [OF t i'(2) pos names]
  obtain k where k: "lock_sequence reg = Some k" using lock by blast
  show ?thesis
  proof (cases "claim_conflict sha ?t ?i names reg")
    case (Some c)
    note C = claim_conflict_Some [OF ok Some low inj i'(1)]
    have "withHostDomainClaims sha opts wr reg h x = (Inl (ValidationError (o_domain_name c @ '' is already in use'')), reg, h, x)"
      by (simp add: run claims_transaction_def k Some)
    with C(1,2) have "\<exists>n \<in> set names. (\<exists>r. holds reg r n) \<and>
       withHostDomainClaims sha opts wr reg h x = (Inl (ValidationError (n @ '' is already in use'')), reg, h, x)" by blast
    moreover have "\<not> (\<forall>n \<in> set names. \<forall>r. holds reg r n \<longrightarrow> ?i \<noteq> Undef \<and> holds reg (?t, oid) n)" using C by blast
    ultimately show ?thesis by (simp only: if_False)
  next
    case None
    have free: "?i \<noteq> Undef \<and> holds reg (?t, oid) n" if n: "n \<in> set names" and r: "holds reg r n" for n r
    proof -
      from r obtain c where c: "c \<in> set (owners reg)" "ref c = r" "o_domain_name c = n" by (auto simp: holds_def)
      then have "o_domain_key c = domainClaimKey sha n" using ok by (auto simp: claims_ok_def owner_ok_def)
      then have "owned_by ?t ?i c \<or> n \<in> set (if truthy ?i then map o_domain_name (filter (owned_by ?t ?i) (owners reg)) else [])"
        using None n c(1,3) unfolding claim_conflict_def Let_def find_None by (metis image_eqI list.set_map)
      then show ?thesis using i' c(1,3) by (auto simp: holds_def owned_by_ref split: if_splits)
    qed
    define reg1 where "reg1 = reg\<lparr>lock_sequence := Some (Suc k), owners := delete_where (owned_by ?t (JNum oid)) (owners reg)\<rparr>"
    have "\<exists>reg2. rfold (claim_name sha ?t oid) names reg1 = Inr reg2"
      by (rule claim_names_succeed)
        (use inj names low in \<open>auto simp: reg1_def owned_by_ref intro: inj_on_subset\<close>)
    then obtain reg2 where f: "rfold (claim_name sha ?t oid) names reg1 = Inr reg2" by blast
    have o: "(if truthy ?i then Some (int_of ?i) else rid) = Some oid" using i pos by auto
    have "\<exists>reg'. claims_transaction sha ?t ?i names wr reg h x = (Inr (res, reg', h'), x')"
      using pos by (simp add: claims_transaction_def Let_def k None wr o reg1_def [symmetric] f)
    with free show ?thesis by (auto simp: run)
  qed
qed

section \<open>Witnesses\<close>

definition reg0 :: claim_db where
  "reg0 = \<lparr>lock_sequence = Some 0, claims = [], owners = []\<rparr>"

definition insert_host :: "int \<Rightarrow> nat \<Rightarrow> unit \<Rightarrow> (string \<times> int option) result \<times> nat \<times> unit" where
  "insert_host i h x = (Inr (''row'', Some i), Suc h, x)"

definition opts0 :: "string \<Rightarrow> jsval \<Rightarrow> string list \<Rightarrow> claim_options" where
  "opts0 t i ns = \<lparr>hostType = t, hostId = i, domainNames = JArr (map JStr ns), retainedDomainNames = Undef\<rparr>"

definition reg1 :: claim_db where
  "reg1 = fst (snd (withHostDomainClaims id (opts0 ''proxy'' Undef [''A.example'', ''b.example'']) (insert_host 1) reg0 0 ()))"

definition reg2 :: claim_db where
  "reg2 = fst (snd (withHostDomainClaims id (opts0 ''dead'' Undef [''c.example'']) (insert_host 1) reg1 1 ()))"

lemma reg0_ok: "claims_ok id reg0" by code_simp

lemma reg1_ok: "claims_ok id reg1" by code_simp

lemma reg1_run: "withHostDomainClaims id (opts0 ''proxy'' Undef [''A.example'', ''b.example'']) (insert_host 1) reg0 0 () =
    (Inr ''row'', reg1, 1, ())" by code_simp

lemma reg2_run: "withHostDomainClaims id (opts0 ''dead'' Undef [''c.example'']) (insert_host 1) reg1 1 () =
    (Inr ''row'', reg2, 2, ())" by code_simp

theorem claims_no_new_sharing_witness:
  "\<not> (holds reg2 (''proxy'', 1) ''a.example'' \<and> holds reg2 (''dead'', 1) ''a.example'')"
proof
  assume "holds reg2 (''proxy'', 1) ''a.example'' \<and> holds reg2 (''dead'', 1) ''a.example''"
  with claims_no_new_sharing [OF reg1_ok reg2_run, of "(''proxy'', 1)" "(''dead'', 1)" "''a.example''"]
  have "holds reg1 (''dead'', 1) ''a.example''" by simp
  moreover have "\<not> holds reg1 (''dead'', 1) ''a.example''" by code_simp
  ultimately show False by contradiction
qed

theorem claims_refine_ownership_map_witness:
  "holds reg2 (''dead'', 1) ''c.example'' \<and> holds reg2 (''proxy'', 1) ''a.example''"
proof -
  have r: "requested (opts0 ''dead'' Undef [''c.example'']) = {''c.example''}" by code_simp
  have h: "holds reg1 (''proxy'', 1) ''a.example''" by code_simp
  from claims_refine_ownership_map [OF reg1_ok reg2_run]
  have "holds reg2 = (holds reg1)((''dead'', 1) := (\<lambda>n. n \<in> {''c.example''}))"
    unfolding r by (auto simp: insert_host_def opts0_def)
  then show ?thesis using h by simp
qed

theorem claims_ok_preserved_witness: "claims_ok id reg2"
proof (rule claims_ok_preserved [OF reg1_ok reg2_run])
  show "\<forall>i. snd (projr (fst (insert_host 1 1 ()))) = Some i \<longrightarrow>
      (hostType (opts0 ''dead'' Undef [''c.example'']), i) \<notin> ref ` set (owners reg1)"
  proof -
    have "(''dead'', 1) \<notin> ref ` set (owners reg1)" by code_simp
    then show ?thesis by (simp add: insert_host_def opts0_def)
  qed
qed

theorem claim_granted_iff_witness:
  "withHostDomainClaims id (opts0 ''dead'' Undef [''b.example'']) (insert_host 1) reg1 1 () =
     (Inl (ValidationError ''b.example is already in use''), reg1, 1, ())"
proof -
  have f: "\<not> (\<forall>n \<in> set [''b.example'']. \<forall>r. holds reg1 r n \<longrightarrow>
      hostId (opts0 ''dead'' Undef [''b.example'']) \<noteq> Undef \<and> holds reg1 (hostType (opts0 ''dead'' Undef [''b.example'']), 1) n)"
  proof -
    have "holds reg1 (''proxy'', 1) ''b.example''" by code_simp
    then show ?thesis by (auto simp: opts0_def)
  qed
  have l: "lock_sequence reg1 \<noteq> None" by code_simp
  have n: "\<forall>n \<in> set [''b.example'']. n \<noteq> [] \<and> js_lower n = n" by code_simp
  from claim_granted_iff [OF reg1_ok l, of "opts0 ''dead'' Undef [''b.example'']" "Some 1" 1 "[''b.example'']"
      "insert_host 1" 1 "()" "''row''" 2 "()", unfolded if_not_P [OF f]] n
  show ?thesis by (auto simp: opts0_def hostTypes_def MAX_SAFE_INTEGER_def insert_host_def)
qed

end
