(* ===== verification/Firewall_Addresses.thy ===== *)
theory Firewall_Addresses
  imports JS_Value Errors "HOL-Library.Word"
begin

unbundle bit_operations_syntax

text \<open>
  Firewall addresses: \<open>backend/lib/firewall-addresses.js\<close> (normal forms of addresses and networks, the text
  format of address lists) and the canonical key of \<open>backend/lib/firewall-render.js\<close>.

  \<open>isIP\<close> is the runtime's own test, written out for strings without a zone (the sources reject a zone
  separately). The package \<open>ipaddr.js\<close> is a parameter: an object of it is its kind and its bytes, and \<open>ip_lib\<close> holds the
  functions the sources call, with their documented behaviour stated by \<open>ip_lib_ok\<close>.
\<close>

section \<open>Textual addresses\<close>

definition is_hex_digit :: "char \<Rightarrow> bool" where
  "is_hex_digit c \<longleftrightarrow> is_digit c \<or> code_between 97 102 c \<or> code_between 65 70 c"

text \<open>A decimal octet has no leading zero.\<close>

definition is_octet :: "string \<Rightarrow> bool" where
  "is_octet s \<longleftrightarrow> s \<noteq> [] \<and> length s \<le> 3 \<and> list_all is_digit s \<and> digits_value s \<le> 255 \<and>
     (1 < length s \<longrightarrow> hd s \<noteq> CHR ''0'')"

definition isIPv4 :: "string \<Rightarrow> bool" where
  "isIPv4 s \<longleftrightarrow> (let parts = split_char (CHR ''.'') s in length parts = 4 \<and> list_all is_octet parts)"

definition is_group :: "string \<Rightarrow> bool" where
  "is_group s \<longleftrightarrow> s \<noteq> [] \<and> length s \<le> 4 \<and> list_all is_hex_digit s"

text \<open>The number of 16-bit groups a colon-separated run stands for; the last part may be dotted.\<close>

fun group_count :: "bool \<Rightarrow> string list \<Rightarrow> nat option" where
  "group_count dotted [] = Some 0"
| "group_count dotted [p] = (if is_group p then Some 1 else if dotted \<and> isIPv4 p then Some 2 else None)"
| "group_count dotted (p # q # ps) =
     (if is_group p then map_option Suc (group_count dotted (q # ps)) else None)"

fun split_gap :: "string \<Rightarrow> (string \<times> string) option" where
  "split_gap (a # b # s) =
     (if a = CHR '':'' \<and> b = CHR '':'' then Some ([], s)
      else map_option (\<lambda>(l, r). (a # l, r)) (split_gap (b # s)))"
| "split_gap _ = None"

definition groups_of :: "bool \<Rightarrow> string \<Rightarrow> nat option" where
  "groups_of dotted s = (if s = [] then Some 0 else group_count dotted (split_char (CHR '':'') s))"

definition isIPv6 :: "string \<Rightarrow> bool" where
  "isIPv6 s \<longleftrightarrow>
     (case split_gap s of
        None \<Rightarrow> group_count True (split_char (CHR '':'') s) = Some 8
      | Some (l, r) \<Rightarrow>
          (case (groups_of False l, groups_of True r) of (Some a, Some b) \<Rightarrow> a + b \<le> 7 | _ \<Rightarrow> False))"

definition isIP :: "string \<Rightarrow> nat" where
  "isIP s = (if isIPv4 s then 4 else if isIPv6 s then 6 else 0)"

section \<open>The address library\<close>

datatype ip = V4 "8 word list" | V6 "8 word list"

fun ip_bytes :: "ip \<Rightarrow> 8 word list" where
  "ip_bytes (V4 bs) = bs"
| "ip_bytes (V6 bs) = bs"

fun ip_kind :: "ip \<Rightarrow> nat" where
  "ip_kind (V4 _) = 4"
| "ip_kind (V6 _) = 6"

record ip_lib =
  ip_parse :: "string \<Rightarrow> ip"
  ip_str :: "ip \<Rightarrow> string"
  ip_is_mapped :: "ip \<Rightarrow> bool"
  ip_to_ipv4 :: "ip \<Rightarrow> ip"
  ip_network :: "string \<Rightarrow> ip"
  ip_parse_cidr :: "string \<Rightarrow> ip \<times> nat"

definition cidr :: "string \<Rightarrow> nat \<Rightarrow> string" where
  "cidr a p = a @ ''/'' @ nat_str p"

section \<open>Normal forms\<close>

definition is_prefix_text :: "string \<Rightarrow> bool" where
  "is_prefix_text s \<longleftrightarrow> s = ''0'' \<or> (s \<noteq> [] \<and> list_all is_digit s \<and> hd s \<noteq> CHR ''0'')"

definition normalizeAddress :: "ip_lib \<Rightarrow> jsval \<Rightarrow> string result" where
  "normalizeAddress lib v =
     (case v of
        JStr value \<Rightarrow>
          (let parts = split_char (CHR ''/'') (js_trim value); a = hd parts; family = isIP a in
           if family = 0 \<or> CHR ''%'' \<in> set a \<or> 2 < length parts
           then Inl (ValidationError ''Firewall addresses must be IPv4, IPv6, or CIDR networks'')
           else
             (let address = ip_parse lib a; mapped = (ip_kind address = 6 \<and> ip_is_mapped lib address) in
              if length parts = 1 then Inr (ip_str lib (if mapped then ip_to_ipv4 lib address else address))
              else
                (let maxPrefix = (if family = 4 then 32 else 128); pt = parts ! 1; prefix = digits_value pt in
                 if \<not> is_prefix_text pt \<or> maxPrefix < prefix
                 then Inl (ValidationError ''Invalid firewall CIDR prefix'')
                 else if mapped then
                   (if prefix < 96
                    then Inl (ValidationError ''IPv4-mapped firewall networks require a prefix of at least 96'')
                    else
                      (let ipv4 = ip_str lib (ip_to_ipv4 lib address); ipv4Prefix = prefix - 96 in
                       Inr (if ipv4Prefix = 32 then ipv4
                            else cidr (ip_str lib (ip_network lib (cidr ipv4 ipv4Prefix))) ipv4Prefix)))
                 else if prefix = maxPrefix then Inr (ip_str lib address)
                 else Inr (cidr (ip_str lib (ip_network lib (cidr a prefix))) prefix))))
      | _ \<Rightarrow> Inl (ValidationError ''Firewall addresses must be strings''))"

text \<open>The bytes of a network: whole bytes inside the prefix are kept, the byte the prefix ends in is masked.\<close>

definition mask_byte :: "nat \<Rightarrow> nat \<Rightarrow> 8 word \<Rightarrow> 8 word" where
  "mask_byte prefix index byte =
     (if index * 8 + 8 \<le> prefix then byte
      else if prefix \<le> index * 8 then 0
      else byte AND push_bit (8 - (prefix - index * 8)) 255)"

definition mask_bytes :: "nat \<Rightarrow> 8 word list \<Rightarrow> 8 word list" where
  "mask_bytes prefix bs = map (\<lambda>(i, b). mask_byte prefix i b) (enumerate 0 bs)"

definition from_bytes :: "8 word list \<Rightarrow> ip" where
  "from_bytes bs = (if length bs = 4 then V4 bs else V6 bs)"

definition networkKey :: "ip_lib \<Rightarrow> jsval \<Rightarrow> string result" where
  "networkKey lib value =
     rbind (normalizeAddress lib value) (\<lambda>normalized.
       let (address, prefix) =
             (if CHR ''/'' \<in> set normalized then ip_parse_cidr lib normalized
              else (ip_parse lib normalized, if ip_kind (ip_parse lib normalized) = 4 then 32 else 128))
       in Inr (cidr (ip_str lib (from_bytes (mask_bytes prefix (ip_bytes address)))) prefix))"

section \<open>Address lists\<close>

definition MAX_LIST_BYTES :: nat where
  "MAX_LIST_BYTES = 8 * 1024 * 1024"

definition MAX_LIST_LINES :: nat where
  "MAX_LIST_LINES = 200000"

text \<open>\<open>split(/\r\n|\n|\r/)\<close>\<close>

definition drop_lf :: "string \<Rightarrow> string" where
  "drop_lf s = (case s of [] \<Rightarrow> [] | d # s' \<Rightarrow> if d = CHR 10 then s' else s)"

lemma length_drop_lf [termination_simp]: "length (drop_lf s) < Suc (length s)"
  by (cases s) (auto simp: drop_lf_def)

fun split_lines :: "string \<Rightarrow> string list" where
  "split_lines [] = [[]]"
| "split_lines (c # s) =
     (if c = CHR 10 then [] # split_lines s
      else if c = CHR 13 then [] # split_lines (drop_lf s)
      else (case split_lines s of [] \<Rightarrow> [[c]] | l # ls \<Rightarrow> (c # l) # ls))"

record ip_list =
  il_entries :: "string list"
  il_duplicates :: nat
  il_invalid :: "(nat \<times> string) list"
  il_totalLines :: nat

definition list_line :: "ip_lib \<Rightarrow> nat \<times> string \<Rightarrow> ip_list \<Rightarrow> ip_list" where
  "list_line lib il acc =
     (let value = js_trim (takeWhile (\<lambda>c. c \<noteq> CHR ''#'') (snd il)) in
      if value = [] then acc
      else (case normalizeAddress lib (JStr value) of
              Inr normalized \<Rightarrow>
                (if normalized \<in> set (il_entries acc) then acc\<lparr>il_duplicates := Suc (il_duplicates acc)\<rparr>
                 else acc\<lparr>il_entries := il_entries acc @ [normalized]\<rparr>)
            | Inl _ \<Rightarrow> acc\<lparr>il_invalid := il_invalid acc @ [(fst il + 1, value)]\<rparr>))"

definition parse_lines :: "ip_lib \<Rightarrow> string list \<Rightarrow> ip_list" where
  "parse_lines lib lines = fold (list_line lib) (enumerate 0 lines)
     \<lparr>il_entries = [], il_duplicates = 0, il_invalid = [], il_totalLines = length lines\<rparr>"

text \<open>A byte order mark is above the modelled code units, so there is none to strip.\<close>

definition parseIpList :: "ip_lib \<Rightarrow> jsval \<Rightarrow> ip_list result" where
  "parseIpList lib content =
     (case content of
        JStr s \<Rightarrow>
          (if MAX_LIST_BYTES < utf8_length s then Inl (ValidationError ''Firewall list exceeds the 8 MiB limit'')
           else
             (let ls = split_lines s; lines = (if last ls = [] then butlast ls else ls) in
              if MAX_LIST_LINES < length lines
              then Inl (ValidationError ''Firewall list exceeds the 200000 line limit'')
              else Inr (parse_lines lib lines)))
      | _ \<Rightarrow> Inl (ValidationError ''Firewall list content must be text''))"

section \<open>Documented behaviour of the library\<close>

definition ip_len :: "ip \<Rightarrow> bool" where
  "ip_len a \<longleftrightarrow> length (ip_bytes a) = (if ip_kind a = 4 then 4 else 16)"

definition ip_width :: "ip \<Rightarrow> nat" where
  "ip_width a = (if ip_kind a = 4 then 32 else 128)"

definition mapped_bytes :: "8 word list \<Rightarrow> bool" where
  "mapped_bytes bs \<longleftrightarrow> take 12 bs = replicate 10 0 @ [255, 255]"

text \<open>\<open>n\<close> is the network of the address \<open>a\<close> with the prefix: the bits before the prefix, then zeros.\<close>

definition network_of :: "nat \<Rightarrow> ip \<Rightarrow> ip \<Rightarrow> bool" where
  "network_of prefix a n \<longleftrightarrow> ip_kind n = ip_kind a \<and> length (ip_bytes n) = length (ip_bytes a) \<and>
     (\<forall>i < length (ip_bytes a). \<forall>j < 8.
        bit (ip_bytes n ! i) j \<longleftrightarrow> bit (ip_bytes a ! i) j \<and> 8 * i + (7 - j) < prefix)"

definition ip_lib_ok :: "ip_lib \<Rightarrow> bool" where
  "ip_lib_ok lib \<longleftrightarrow>
     (\<forall>s. isIP s \<noteq> 0 \<longrightarrow> ip_kind (ip_parse lib s) = isIP s \<and> ip_len (ip_parse lib s)) \<and>
     (\<forall>a. ip_len a \<longrightarrow> isIP (ip_str lib a) = ip_kind a \<and> ip_parse lib (ip_str lib a) = a) \<and>
     (\<forall>bs. length bs = 16 \<longrightarrow> (ip_is_mapped lib (V6 bs) \<longleftrightarrow> mapped_bytes bs) \<and> ip_to_ipv4 lib (V6 bs) = V4 (drop 12 bs)) \<and>
     (\<forall>s p. isIP s \<noteq> 0 \<longrightarrow> p \<le> ip_width (ip_parse lib s) \<longrightarrow>
        network_of p (ip_parse lib s) (ip_network lib (cidr s p)) \<and> ip_parse_cidr lib (cidr s p) = (ip_parse lib s, p))"

lemma ip_lib_okD:
  assumes "ip_lib_ok lib"
  shows "isIP s \<noteq> 0 \<Longrightarrow> ip_kind (ip_parse lib s) = isIP s" "isIP s \<noteq> 0 \<Longrightarrow> ip_len (ip_parse lib s)"
    "ip_len a \<Longrightarrow> isIP (ip_str lib a) = ip_kind a" "ip_len a \<Longrightarrow> ip_parse lib (ip_str lib a) = a"
    "length bs = 16 \<Longrightarrow> ip_is_mapped lib (V6 bs) \<longleftrightarrow> mapped_bytes bs"
    "length bs = 16 \<Longrightarrow> ip_to_ipv4 lib (V6 bs) = V4 (drop 12 bs)"
    "isIP s \<noteq> 0 \<Longrightarrow> p \<le> ip_width (ip_parse lib s) \<Longrightarrow> network_of p (ip_parse lib s) (ip_network lib (cidr s p))"
    "isIP s \<noteq> 0 \<Longrightarrow> p \<le> ip_width (ip_parse lib s) \<Longrightarrow> ip_parse_cidr lib (cidr s p) = (ip_parse lib s, p)"
  using assms by (simp_all add: ip_lib_ok_def)

section \<open>Characters of an address\<close>

definition addr_char :: "char \<Rightarrow> bool" where
  "addr_char c \<longleftrightarrow> is_hex_digit c \<or> c = CHR ''.'' \<or> c = CHR '':''"

lemma split_char_set: "\<forall>p \<in> set (split_char c s). list_all P p \<Longrightarrow> list_all (\<lambda>x. P x \<or> x = c) s"
  by (induction s) (auto split: if_splits list.splits)

lemma isIPv4_chars: "isIPv4 s \<Longrightarrow> list_all addr_char s"
  using split_char_set [of "CHR ''.''" s is_digit]
  by (auto simp: isIPv4_def Let_def list_all_iff is_octet_def addr_char_def is_hex_digit_def)

lemma group_count_chars:
  "group_count d ps = Some n \<Longrightarrow> \<forall>p \<in> set ps. list_all addr_char p"
proof (induction d ps arbitrary: n rule: group_count.induct)
  case (2 d p)
  then show ?case by (auto simp: is_group_def list_all_iff addr_char_def dest!: isIPv4_chars split: if_splits)
next
  case (3 d p q ps)
  then obtain k where g: "is_group p" "group_count d (q # ps) = Some k" by (auto split: if_splits)
  then have "\<forall>p \<in> set (q # ps). list_all addr_char p" using 3 by blast
  with g show ?case by (auto simp: is_group_def list_all_iff addr_char_def)
qed simp

lemma groups_of_chars: "groups_of d s = Some n \<Longrightarrow> list_all addr_char s"
  using split_char_set [of "CHR '':''" s addr_char] group_count_chars [of d "split_char (CHR '':'') s" n]
  by (auto simp: groups_of_def list_all_iff addr_char_def split: if_splits)

lemma split_gap_eq: "split_gap s = Some (l, r) \<Longrightarrow> s = l @ ''::'' @ r"
  by (induction s arbitrary: l rule: split_gap.induct) (auto split: if_splits)

lemma isIPv6_chars:
  assumes "isIPv6 s"
  shows "list_all addr_char s"
proof (cases "split_gap s")
  case None
  with assms have "group_count True (split_char (CHR '':'') s) = Some 8" by (simp add: isIPv6_def)
  from group_count_chars [OF this] split_char_set [of "CHR '':''" s addr_char] show ?thesis
    by (auto simp: list_all_iff addr_char_def)
next
  case (Some lr)
  obtain l r where lr: "lr = (l, r)" by (cases lr)
  with Some assms obtain a b where "groups_of False l = Some a" "groups_of True r = Some b"
    by (auto simp: isIPv6_def split: option.splits)
  then have "list_all addr_char l" "list_all addr_char r" by (blast dest: groups_of_chars)+
  then show ?thesis using split_gap_eq [OF Some [unfolded lr]] by (simp add: addr_char_def)
qed

lemma isIP_chars: "isIP s \<noteq> 0 \<Longrightarrow> list_all addr_char s"
  by (auto simp: isIP_def isIPv4_chars isIPv6_chars split: if_splits)

lemma isIP_Nil [simp]: "isIP [] = 0"
  by code_simp

lemma addr_char_not:
  "addr_char c \<Longrightarrow> c \<noteq> CHR ''/'' \<and> c \<noteq> CHR ''%'' \<and> c \<noteq> CHR ''#'' \<and> c \<noteq> CHR 10 \<and> c \<noteq> CHR 13 \<and> \<not> is_ws c"
  by (auto simp: addr_char_def is_hex_digit_def is_digit_def code_between_def is_ws_def code_def)

lemma trim_no_ws: "list_all (\<lambda>c. \<not> is_ws c) s \<Longrightarrow> js_trim s = s"
proof -
  assume a: "list_all (\<lambda>c. \<not> is_ws c) s"
  have d: "dropWhile is_ws t = t" if "list_all (\<lambda>c. \<not> is_ws c) t" for t :: string
    using that by (cases t) auto
  have "list_all (\<lambda>c. \<not> is_ws c) (rev s)" using a by (simp add: list_all_iff)
  with a show ?thesis by (simp add: js_trim_def d)
qed

section \<open>Networks\<close>

lemma network_of_ip_len: "network_of p a n \<Longrightarrow> ip_len a \<Longrightarrow> ip_len n"
  by (simp add: network_of_def ip_len_def)

lemma network_of_idem: "network_of p a n \<Longrightarrow> network_of p n n"
  by (auto simp: network_of_def)

lemma byte_eqI: "(\<And>j. j < 8 \<Longrightarrow> bit (x :: 8 word) j \<longleftrightarrow> bit y j) \<Longrightarrow> x = y"
  by (rule bit_word_eqI) simp

lemma ip_eqI: "ip_kind a = ip_kind b \<Longrightarrow> ip_bytes a = ip_bytes b \<Longrightarrow> a = b"
  by (cases a; cases b) auto

lemma network_of_unique:
  assumes "network_of p a m" and "network_of p a n"
  shows "m = n"
proof (rule ip_eqI)
  show "ip_kind m = ip_kind n" using assms by (simp add: network_of_def)
  show "ip_bytes m = ip_bytes n"
    by (rule nth_equalityI) (use assms in \<open>auto simp: network_of_def intro!: byte_eqI\<close>)
qed

lemma network_of_unmapped:
  assumes n: "network_of p a n" and len: "length (ip_bytes a) = 16" and m: "mapped_bytes (ip_bytes n)"
  shows "mapped_bytes (ip_bytes a)"
proof (cases "96 \<le> p")
  case True
  have "ip_bytes n ! i = ip_bytes a ! i" if "i < 12" for i
  proof (rule byte_eqI)
    fix j :: nat
    assume "j < 8"
    moreover have "8 * i + (7 - j) < p" using that True by simp
    ultimately show "bit (ip_bytes n ! i) j \<longleftrightarrow> bit (ip_bytes a ! i) j"
      using n len that by (auto simp: network_of_def)
  qed
  then have "take 12 (ip_bytes n) = take 12 (ip_bytes a)"
    using n len by (intro nth_equalityI) (auto simp: network_of_def)
  with m show ?thesis by (simp add: mapped_bytes_def)
next
  case False
  have "ip_bytes n ! 11 = take 12 (ip_bytes n) ! 11" by simp
  also have "\<dots> = 255" using m by (simp add: mapped_bytes_def nth_append)
  finally have "bit (ip_bytes n ! 11) 0" by simp
  with n len False show ?thesis by (auto simp: network_of_def)
qed

lemma mask_byte_bit:
  "j < 8 \<Longrightarrow> bit (mask_byte p i b) j \<longleftrightarrow> bit b j \<and> 8 * i + (7 - j) < p"
proof -
  assume j: "j < 8"
  have "bit (255 :: 8 word) k" if "k < 8" for k
  proof -
    have "(255 :: 8 word) = mask 8" by (simp add: mask_eq_exp_minus_1)
    with that show ?thesis by (simp only: bit_mask_iff) simp
  qed
  with j show ?thesis by (auto simp: mask_byte_def bit_and_iff bit_push_bit_iff)
qed

lemma mask_bytes_network:
  assumes "ip_len a"
  shows "network_of p a (from_bytes (mask_bytes p (ip_bytes a)))"
proof -
  have len: "length (mask_bytes p (ip_bytes a)) = length (ip_bytes a)" by (simp add: mask_bytes_def)
  have nth: "mask_bytes p (ip_bytes a) ! i = mask_byte p i (ip_bytes a ! i)" if "i < length (ip_bytes a)" for i
    using that by (simp add: mask_bytes_def nth_enumerate_eq)
  have b: "ip_bytes (from_bytes bs) = bs" for bs by (simp add: from_bytes_def)
  have "ip_kind (from_bytes (mask_bytes p (ip_bytes a))) = ip_kind a"
    using assms len by (cases a) (auto simp: ip_len_def from_bytes_def)
  with len nth show ?thesis by (simp add: network_of_def b mask_byte_bit)
qed

section \<open>Normalisation\<close>

definition addr_normal :: "ip_lib \<Rightarrow> string \<Rightarrow> bool" where
  "addr_normal lib y \<longleftrightarrow> (\<exists>a. ip_len a \<and> \<not> (ip_kind a = 6 \<and> mapped_bytes (ip_bytes a)) \<and>
     (y = ip_str lib a \<or> (\<exists>p < ip_width a. network_of p a a \<and> y = cidr (ip_str lib a) p)))"

lemma ip_kind_cases: "ip_kind a = 4 \<or> ip_kind a = 6"
  by (cases a) auto

lemma is_prefix_text_nat_str: "is_prefix_text (nat_str p)"
proof (cases "p = 0")
  case True
  moreover have "nat_str 0 = ''0''" by code_simp
  ultimately show ?thesis by (simp add: is_prefix_text_def)
next
  case False
  then show ?thesis using nat_str_hd [of p] by (simp add: is_prefix_text_def)
qed

lemma split_slash:
  assumes "CHR ''/'' \<notin> set a"
  shows "split_char (CHR ''/'') a = [a]" "split_char (CHR ''/'') (cidr a p) = [a, nat_str p]"
proof -
  have "CHR ''/'' \<notin> set (nat_str p)"
    using nat_str_spec [of p] by (auto simp: list_all_iff is_digit_def code_between_def code_def)
  with assms show "split_char (CHR ''/'') a = [a]" "split_char (CHR ''/'') (cidr a p) = [a, nat_str p]"
    by (simp_all add: cidr_def split_char_append)
qed

lemma mapped_iff:
  "ip_lib_ok lib \<Longrightarrow> ip_len a \<Longrightarrow> (ip_kind a = 6 \<and> ip_is_mapped lib a) \<longleftrightarrow> (ip_kind a = 6 \<and> mapped_bytes (ip_bytes a))"
  by (cases a) (auto simp: ip_len_def ip_lib_okD)

lemma isIP_noslash:
  assumes "isIP a \<noteq> 0"
  shows "CHR ''/'' \<notin> set a" "CHR ''%'' \<notin> set a" "js_trim a = a" "js_trim (cidr a p) = cidr a p"
proof -
  have c: "list_all addr_char a" using assms by (rule isIP_chars)
  then show "CHR ''/'' \<notin> set a" "CHR ''%'' \<notin> set a" by (auto simp: list_all_iff dest: addr_char_not)
  have w: "list_all (\<lambda>c. \<not> is_ws c) a" using c by (auto simp: list_all_iff dest: addr_char_not)
  then show "js_trim a = a" by (rule trim_no_ws)
  have "list_all (\<lambda>c. \<not> is_ws c) (nat_str p)"
    using nat_str_spec [of p] by (auto simp: list_all_iff is_digit_def is_ws_def code_between_def)
  moreover have "\<not> is_ws (CHR ''/'')" by (simp add: is_ws_def code_between_def code_def)
  ultimately have "list_all (\<lambda>c. \<not> is_ws c) (cidr a p)" using w by (simp add: cidr_def)
  then show "js_trim (cidr a p) = cidr a p" by (rule trim_no_ws)
qed

text \<open>The branches of \<open>normalizeAddress\<close> on an address and on a network.\<close>

lemma normalizeAddress_plain:
  "isIP a \<noteq> 0 \<Longrightarrow> normalizeAddress lib (JStr a) =
     Inr (ip_str lib (if ip_kind (ip_parse lib a) = 6 \<and> ip_is_mapped lib (ip_parse lib a)
       then ip_to_ipv4 lib (ip_parse lib a) else ip_parse lib a))"
  by (simp add: normalizeAddress_def isIP_noslash split_slash Let_def)

lemma normalizeAddress_fix:
  assumes ok: "ip_lib_ok lib" and y: "addr_normal lib y"
  shows "normalizeAddress lib (JStr y) = Inr y"
proof -
  from y obtain a where a: "ip_len a" "\<not> (ip_kind a = 6 \<and> mapped_bytes (ip_bytes a))"
    and alt: "y = ip_str lib a \<or> (\<exists>p < ip_width a. network_of p a a \<and> y = cidr (ip_str lib a) p)"
    by (auto simp: addr_normal_def)
  have fam: "isIP (ip_str lib a) = ip_kind a" "isIP (ip_str lib a) \<noteq> 0"
    using ip_lib_okD(3) [OF ok a(1)] ip_kind_cases [of a] by auto
  have parse: "ip_parse lib (ip_str lib a) = a" using ip_lib_okD(4) [OF ok a(1)] .
  have unm: "\<not> (ip_kind a = 6 \<and> ip_is_mapped lib a)" using mapped_iff [OF ok a(1)] a(2) by simp
  from alt show ?thesis
  proof
    assume "y = ip_str lib a"
    with normalizeAddress_plain [OF fam(2), of lib] parse unm show ?thesis by simp
  next
    assume "\<exists>p < ip_width a. network_of p a a \<and> y = cidr (ip_str lib a) p"
    then obtain p where p: "p < ip_width a" "network_of p a a" "y = cidr (ip_str lib a) p" by blast
    have "network_of p a (ip_network lib y)"
      using ip_lib_okD(7) [OF ok fam(2), of p] parse p by simp
    then have net: "ip_network lib y = a" using p(2) by (rule network_of_unique)
    have w: "(if isIP (ip_str lib a) = 4 then 32 else 128) = ip_width a" by (simp add: fam(1) ip_width_def)
    have parts: "split_char (CHR ''/'') (js_trim y) = [ip_str lib a, nat_str p]"
      using isIP_noslash [OF fam(2)] split_slash(2) p(3) by simp
    show ?thesis
      using fam(2) p(1) net isIP_noslash(2) [OF fam(2)]
      unfolding normalizeAddress_def jsval.case parts Let_def list.sel parse if_not_P [OF unm]
      by (simp add: w is_prefix_text_nat_str p(3) [symmetric])
  qed
qed

lemma normalizeAddress_normal:
  assumes ok: "ip_lib_ok lib" and n: "normalizeAddress lib v = Inr y"
  shows "addr_normal lib y"
proof -
  from n obtain s where v: "v = JStr s" by (cases v) (auto simp: normalizeAddress_def)
  define parts where "parts = split_char (CHR ''/'') (js_trim s)"
  define a where "a = hd parts"
  define A where "A = ip_parse lib a"
  note N = n [unfolded v normalizeAddress_def jsval.case Let_def, folded parts_def, folded a_def, folded A_def]
  have fam: "isIP a \<noteq> 0" using N by (auto split: if_splits)
  have A: "ip_len A" "ip_kind A = isIP a" using ip_lib_okD(1,2) [OF ok fam] by (simp_all add: A_def)
  note mi = mapped_iff [OF ok A(1)]
  have v4: "ip_len (ip_to_ipv4 lib A)" "ip_kind (ip_to_ipv4 lib A) = 4" if "ip_kind A = 6"
    using that A(1) ok by (cases A; auto simp: ip_len_def ip_lib_okD)+
  have net: "addr_normal lib (cidr (ip_str lib (ip_network lib (cidr s p))) p)"
    if s: "isIP s \<noteq> 0" "ip_parse lib s = B" "ip_len B" "\<not> (ip_kind B = 6 \<and> mapped_bytes (ip_bytes B))" "p < ip_width B" for s p B
  proof -
    have nw: "network_of p B (ip_network lib (cidr s p))" using ip_lib_okD(7) [OF ok s(1), of p] s by simp
    then have "ip_width (ip_network lib (cidr s p)) = ip_width B" "ip_kind (ip_network lib (cidr s p)) = ip_kind B"
      by (simp_all add: network_of_def ip_width_def)
    moreover have "length (ip_bytes B) = 16" if "ip_kind B = 6" using s(3) that by (simp add: ip_len_def)
    ultimately show ?thesis unfolding addr_normal_def
      using network_of_ip_len [OF nw s(3)] network_of_idem [OF nw] network_of_unmapped [OF nw] s(4,5)
      by (intro exI [of _ "ip_network lib (cidr s p)"]) auto
  qed
  show ?thesis
  proof (cases "ip_kind A = 6 \<and> ip_is_mapped lib A")
    case False
    then have plain: "addr_normal lib (ip_str lib A)" using A mi by (auto simp: addr_normal_def)
    have w: "(if isIP a = 4 then 32 else 128) = ip_width A" using A(2) by (simp add: ip_width_def)
    have "addr_normal lib (cidr (ip_str lib (ip_network lib (cidr a p))) p)" if "p < ip_width A" for p
      using net [OF fam A_def [symmetric] A(1)] False mi that by auto
    then show ?thesis using N False plain unfolding w by (auto split: if_splits)
  next
    case True
    define B where "B = ip_to_ipv4 lib A"
    have B: "ip_len B" "ip_kind B = 4" "ip_width B = 32" using v4 True by (simp_all add: B_def ip_width_def)
    then have plain: "addr_normal lib (ip_str lib B)" by (auto simp: addr_normal_def)
    have s: "isIP (ip_str lib B) \<noteq> 0" "ip_parse lib (ip_str lib B) = B" using ip_lib_okD(3,4) [OF ok B(1)] B(2) by auto
    have "addr_normal lib (cidr (ip_str lib (ip_network lib (cidr (ip_str lib B) p))) p)" if "p < 32" for p
      using net [OF s B(1)] B(2,3) that by simp
    moreover have "isIP a = 6" using True A(2) by simp
    ultimately show ?thesis using N True plain by (auto simp: B_def [symmetric] split: if_splits)
  qed
qed

lemma networkKey_normal:
  assumes ok: "ip_lib_ok lib" and n: "normalizeAddress lib v = Inr y"
  shows "networkKey lib v = Inr (if CHR ''/'' \<in> set y then y else cidr y (if isIP y = 4 then 32 else 128))"
proof -
  from normalizeAddress_normal [OF ok n] obtain a where a: "ip_len a"
    and alt: "y = ip_str lib a \<or> (\<exists>p < ip_width a. network_of p a a \<and> y = cidr (ip_str lib a) p)"
    by (auto simp: addr_normal_def)
  have fam: "isIP (ip_str lib a) = ip_kind a" "isIP (ip_str lib a) \<noteq> 0"
    using ip_lib_okD(3) [OF ok a] ip_kind_cases [of a] by auto
  have parse: "ip_parse lib (ip_str lib a) = a" using ip_lib_okD(4) [OF ok a] .
  have ns: "CHR ''/'' \<notin> set (ip_str lib a)" using isIP_noslash [OF fam(2)] by simp
  have key: "from_bytes (mask_bytes p (ip_bytes a)) = a" if "network_of p a a" for p
    using mask_bytes_network [OF a] that by (rule network_of_unique)
  from alt show ?thesis
  proof
    assume y: "y = ip_str lib a"
    have "network_of (ip_width a) a a"
      using a by (auto simp: network_of_def ip_width_def ip_len_def)
    from key [OF this] show ?thesis using n y ns fam parse by (simp add: networkKey_def ip_width_def)
  next
    assume "\<exists>p < ip_width a. network_of p a a \<and> y = cidr (ip_str lib a) p"
    then obtain p where p: "p < ip_width a" "network_of p a a" "y = cidr (ip_str lib a) p" by blast
    have "CHR ''/'' \<in> set y" by (simp add: p(3) cidr_def)
    moreover have "ip_parse_cidr lib y = (a, p)" using ip_lib_okD(8) [OF ok fam(2), of p] parse p by simp
    ultimately show ?thesis using n key [OF p(2)] by (simp add: networkKey_def p(3))
  qed
qed

section \<open>Lists\<close>

text \<open>A nonblank line is counted once, as a new entry, as a duplicate or as invalid.\<close>

definition line_value :: "string \<Rightarrow> string" where
  "line_value line = js_trim (takeWhile (\<lambda>c. c \<noteq> CHR ''#'') line)"

lemma list_line_cases:
  "list_line lib (i, line) acc = (if line_value line = [] then acc
     else case normalizeAddress lib (JStr (line_value line)) of
       Inr y \<Rightarrow> (if y \<in> set (il_entries acc) then acc\<lparr>il_duplicates := Suc (il_duplicates acc)\<rparr>
                  else acc\<lparr>il_entries := il_entries acc @ [y]\<rparr>)
     | Inl _ \<Rightarrow> acc\<lparr>il_invalid := il_invalid acc @ [(i + 1, line_value line)]\<rparr>)"
  unfolding list_line_def line_value_def Let_def fst_conv snd_conv ..

lemma list_lines_facts:
  assumes "distinct (il_entries acc)" and "r = fold (list_line lib) lines acc"
  shows "distinct (il_entries r) \<and> il_totalLines r = il_totalLines acc \<and>
     length (il_entries r) + il_duplicates r + length (il_invalid r) =
       length (il_entries acc) + il_duplicates acc + length (il_invalid acc) +
       length (filter (\<lambda>l. line_value (snd l) \<noteq> []) lines) \<and>
     set (il_entries r) = set (il_entries acc) \<union>
       {y. \<exists>l \<in> set lines. line_value (snd l) \<noteq> [] \<and> normalizeAddress lib (JStr (line_value (snd l))) = Inr y}"
  using assms
proof (induction lines arbitrary: acc)
  case Nil
  then show ?case by simp
next
  case (Cons l lines)
  define acc' where "acc' = list_line lib l acc"
  obtain i line where l: "l = (i, line)" by (cases l)
  have step: "acc' = list_line lib (i, line) acc" by (simp add: acc'_def l)
  have d: "distinct (il_entries acc')"
    using Cons.prems(1) by (auto simp: step list_line_cases split: sum.splits)
  have c: "il_totalLines acc' = il_totalLines acc"
    "length (il_entries acc') + il_duplicates acc' + length (il_invalid acc') =
       length (il_entries acc) + il_duplicates acc + length (il_invalid acc) + (if line_value line \<noteq> [] then 1 else 0)"
    "set (il_entries acc') = set (il_entries acc) \<union>
       {y. line_value line \<noteq> [] \<and> normalizeAddress lib (JStr (line_value line)) = Inr y}"
    by (auto simp: step list_line_cases split: sum.splits)
  have "r = fold (list_line lib) lines acc'" using Cons.prems(2) by (simp add: acc'_def)
  from Cons.IH [OF d this] show ?case using c by (auto simp: l)
qed

lemma parse_lines_facts:
  "distinct (il_entries (parse_lines lib lines))"
  "il_totalLines (parse_lines lib lines) = length lines"
  "length (il_entries (parse_lines lib lines)) + il_duplicates (parse_lines lib lines) +
     length (il_invalid (parse_lines lib lines)) = length (filter (\<lambda>l. line_value l \<noteq> []) lines)"
  "set (il_entries (parse_lines lib lines)) =
     {y. \<exists>l \<in> set lines. line_value l \<noteq> [] \<and> normalizeAddress lib (JStr (line_value l)) = Inr y}"
proof -
  let ?acc = "\<lparr>il_entries = [], il_duplicates = 0, il_invalid = [], il_totalLines = length lines\<rparr>"
  have s: "snd ` set (enumerate 0 lines) = set lines"
    by (metis list.set_map map_snd_enumerate)
  have "length (filter (\<lambda>l. line_value (snd l) \<noteq> []) (enumerate 0 lines)) = length (filter (\<lambda>l. line_value l \<noteq> []) lines)"
    by (metis (no_types, lifting) comp_def filter_cong filter_map length_map map_snd_enumerate)
  note c = this
  have "set (il_entries (parse_lines lib lines)) = {y. \<exists>l \<in> snd ` set (enumerate 0 lines).
      line_value l \<noteq> [] \<and> normalizeAddress lib (JStr (line_value l)) = Inr y}"
    using list_lines_facts [of ?acc "parse_lines lib lines" lib "enumerate 0 lines"] by (simp add: parse_lines_def)
  with list_lines_facts [of ?acc "parse_lines lib lines" lib "enumerate 0 lines"] c
  show "distinct (il_entries (parse_lines lib lines))"
    "il_totalLines (parse_lines lib lines) = length lines"
    "length (il_entries (parse_lines lib lines)) + il_duplicates (parse_lines lib lines) +
       length (il_invalid (parse_lines lib lines)) = length (filter (\<lambda>l. line_value l \<noteq> []) lines)"
    "set (il_entries (parse_lines lib lines)) =
       {y. \<exists>l \<in> set lines. line_value l \<noteq> [] \<and> normalizeAddress lib (JStr (line_value l)) = Inr y}"
    unfolding s by (simp_all add: parse_lines_def)
qed

text \<open>Entries that are already normal come back as they are.\<close>

lemma normal_chars:
  assumes ok: "ip_lib_ok lib" and "addr_normal lib y"
  shows "y \<noteq> [] \<and> list_all (\<lambda>c. addr_char c \<or> c = CHR ''/'') y"
proof -
  from assms(2) obtain a where a: "ip_len a"
    and alt: "y = ip_str lib a \<or> (\<exists>p < ip_width a. y = cidr (ip_str lib a) p)"
    by (auto simp: addr_normal_def)
  have "isIP (ip_str lib a) \<noteq> 0" using ip_lib_okD(3) [OF ok a] ip_kind_cases [of a] by auto
  then have c: "list_all addr_char (ip_str lib a)" "ip_str lib a \<noteq> []" by (auto simp: isIP_chars)
  have "list_all addr_char (nat_str p)" for p
    using nat_str_spec [of p] by (auto simp: list_all_iff addr_char_def is_hex_digit_def)
  with alt c show ?thesis by (auto simp: cidr_def list_all_iff)
qed

lemma line_value_normal:
  assumes "ip_lib_ok lib" and "addr_normal lib y"
  shows "line_value y = y"
proof -
  have c: "list_all (\<lambda>c. addr_char c \<or> c = CHR ''/'') y" using normal_chars [OF assms] by simp
  then have "takeWhile (\<lambda>c. c \<noteq> CHR ''#'') y = y"
    by (auto simp: list_all_iff takeWhile_eq_all_conv dest: addr_char_not)
  moreover have "js_trim y = y"
  proof -
    have "\<not> is_ws (CHR ''/'')" by code_simp
    with c show ?thesis by (intro trim_no_ws) (auto simp: list_all_iff dest: addr_char_not)
  qed
  ultimately show ?thesis unfolding line_value_def by (simp only:)
qed

lemma fold_normal_lines:
  assumes ok: "ip_lib_ok lib"
  shows "\<forall>y \<in> set ys. addr_normal lib y \<Longrightarrow> distinct (il_entries acc @ ys) \<Longrightarrow>
     fold (list_line lib) (enumerate k ys) acc = acc\<lparr>il_entries := il_entries acc @ ys\<rparr>"
proof (induction ys arbitrary: acc k)
  case Nil
  then show ?case by simp
next
  case (Cons y ys)
  have y: "line_value y = y" "y \<noteq> []" "normalizeAddress lib (JStr y) = Inr y"
    using Cons.prems ok by (auto simp: line_value_normal normal_chars normalizeAddress_fix)
  have "list_line lib (k, y) acc = acc\<lparr>il_entries := il_entries acc @ [y]\<rparr>"
    using y Cons.prems(2) by (simp add: list_line_cases)
  then show ?case using Cons.IH [of "acc\<lparr>il_entries := il_entries acc @ [y]\<rparr>" "Suc k"] Cons.prems by simp
qed

lemma split_lines_append: "list_all (\<lambda>c. c \<noteq> CHR 10 \<and> c \<noteq> CHR 13) a \<Longrightarrow> split_lines (a @ CHR 10 # b) = a # split_lines b"
  by (induction a) auto

lemma split_lines_plain: "list_all (\<lambda>c. c \<noteq> CHR 10 \<and> c \<noteq> CHR 13) a \<Longrightarrow> split_lines a = [a]"
  by (induction a) auto

lemma split_lines_join:
  "ys \<noteq> [] \<Longrightarrow> \<forall>y \<in> set ys. list_all (\<lambda>c. c \<noteq> CHR 10 \<and> c \<noteq> CHR 13) y \<Longrightarrow> split_lines (js_join [CHR 10] ys) = ys"
  by (induction "[CHR 10]" ys rule: js_join.induct) (simp_all add: split_lines_append split_lines_plain)

end
