(* ===== verification/Firewall_Policy.thy ===== *)
theory Firewall_Policy
  imports Firewall_Addresses
begin

text \<open>
  Validation of firewall lists and of a host's firewall policy: \<open>backend/lib/firewall-list-validation.js\<close>, the source checks of
  \<open>backend/lib/firewall-download.js\<close> and \<open>backend/lib/firewall-policy.js\<close>.

  Parameters. The address library as in \<open>Firewall_Addresses\<close>; in \<open>url_lib\<close>, the URL parser of the
  platform (the fields read from its result) and the range queries of \<open>ipaddr.js\<close>.
\<close>

section \<open>Sources\<close>

record url =
  url_protocol :: string
  url_hostname :: string
  url_username :: string
  url_password :: string
  url_hash :: string
  url_href :: string
  url_host :: string
  url_port :: string
  url_pathname :: string
  url_search :: string

record url_lib =
  parse_url :: "string \<Rightarrow> url option"
  ip_range :: "ip \<Rightarrow> string"
  ip_match :: "ip \<Rightarrow> string \<Rightarrow> bool"

definition BLOCKED_IPV6_RANGES :: "string list" where
  "BLOCKED_IPV6_RANGES = [''2001::/23'', ''2001:db8::/32'', ''2002::/16'', ''3fff::/20'']"

definition isPublicAddress :: "ip_lib \<Rightarrow> url_lib \<Rightarrow> string \<Rightarrow> bool" where
  "isPublicAddress lib ul address \<longleftrightarrow>
     CHR ''%'' \<notin> set address \<and> isIP address \<noteq> 0 \<and>
     (let parsed = ip_parse lib address;
          normalized = (if ip_kind parsed = 6 \<and> ip_is_mapped lib parsed then ip_to_ipv4 lib parsed else parsed)
      in if ip_kind normalized = 4
         then ip_range ul normalized = ''unicast'' \<and> ip_str lib normalized \<noteq> ''168.63.129.16''
         else ip_range ul normalized = ''unicast'' \<and> ip_match ul normalized ''2000::/3'' \<and>
              \<not> (\<exists>r \<in> set BLOCKED_IPV6_RANGES. ip_match ul normalized r))"

definition url_unsafe :: "char \<Rightarrow> bool" where
  "url_unsafe c \<longleftrightarrow> is_ws c \<or> code c \<le> 31 \<or> code c = 127"

definition url_authority :: "string \<Rightarrow> string" where
  "url_authority s = takeWhile (\<lambda>c. c \<noteq> CHR ''/'' \<and> c \<noteq> CHR ''?'' \<and> c \<noteq> CHR ''#'') (drop 8 s)"

text \<open>\<open>replace(/^\[|\]$/g, "")\<close>\<close>

definition strip_brackets :: "string \<Rightarrow> string" where
  "strip_brackets s =
     (let a = (if starts_with s ''['' then drop 1 s else s) in if ends_with a '']'' then butlast a else a)"

definition validateSourceUrl :: "ip_lib \<Rightarrow> url_lib \<Rightarrow> jsval \<Rightarrow> url result" where
  "validateSourceUrl lib ul v =
     (case v of
        JStr s \<Rightarrow>
          (if s = [] \<or> 2048 < length s \<or> \<not> starts_with (js_lower s) ''https://'' \<or> list_ex url_unsafe s \<or>
              CHR 92 \<in> set s \<or> CHR ''#'' \<in> set s
           then Inl (ValidationError ''Firewall list source must be an HTTPS URL without a fragment (maximum 2048 characters)'')
           else case parse_url ul s of
             None \<Rightarrow> Inl (ValidationError ''Firewall list source URL is invalid'')
           | Some u \<Rightarrow>
               (if url_protocol u \<noteq> ''https:'' \<or> url_hostname u = [] \<or> url_username u \<noteq> [] \<or> url_password u \<noteq> [] \<or>
                   url_hash u \<noteq> [] \<or> 2048 < length (url_href u) \<or> CHR ''@'' \<in> set (url_authority s)
                then Inl (ValidationError ''Firewall list source requires HTTPS without credentials or a fragment'')
                else
                  (let hostname = strip_brackets (url_hostname u) in
                   if isIP hostname \<noteq> 0 \<and> \<not> isPublicAddress lib ul hostname
                   then Inl (ValidationError ''Firewall list source must resolve only to public IP addresses'')
                   else Inr u)))
      | _ \<Rightarrow> Inl (ValidationError ''Firewall list source must be an HTTPS URL without a fragment (maximum 2048 characters)''))"

section \<open>Lists\<close>

record list_input =
  li_name :: string
  li_reason :: string
  li_description :: string
  li_source_type :: string
  li_source_url :: string
  li_update_interval_hours :: int
  li_enabled :: bool
  li_entries :: string
  li_entry_count :: nat

definition combined_field :: "jsval \<Rightarrow> jsval \<Rightarrow> string \<Rightarrow> jsval \<Rightarrow> jsval" where
  "combined_field previous data field def =
     (if has_own data field then js_get data field
      else if has_own previous field then js_get previous field else def)"

definition bounded_text :: "jsval \<Rightarrow> nat \<Rightarrow> bool" where
  "bounded_text v maximum \<longleftrightarrow> is_str v \<and> length (str_of v) \<le> maximum \<and> CHR 0x00 \<notin> set (str_of v)"

definition normalizeListInput :: "ip_lib \<Rightarrow> url_lib \<Rightarrow> jsval \<Rightarrow> jsval \<Rightarrow> list_input result" where
  "normalizeListInput lib ul data previous =
     (let get = combined_field previous data;
          name = get ''name'' (JStr []); reason = get ''reason'' (JStr []); description = get ''description'' (JStr []);
          source_type = get ''source_type'' (JStr ''manual''); source_url = get ''source_url'' (JStr []);
          hours = get ''update_interval_hours'' (JNum 24); enabled = get ''enabled'' (JBool True);
          entries = get ''entries'' (JStr [])
      in
      rbind (rguard (bounded_text name 255) (ValidationError ''Invalid firewall list name'')) (\<lambda>_.
      rbind (rguard (bounded_text reason 2000) (ValidationError ''Invalid firewall list reason'')) (\<lambda>_.
      rbind (rguard (bounded_text description 4000) (ValidationError ''Invalid firewall list description'')) (\<lambda>_.
      rbind (rguard (js_trim (str_of name) \<noteq> [] \<and> js_trim (str_of reason) \<noteq> [])
               (ValidationError ''Firewall lists require a name and public reason'')) (\<lambda>_.
      rbind (rguard (source_type = JStr ''manual'' \<or> source_type = JStr ''url'')
               (ValidationError ''Firewall source type must be manual or url'')) (\<lambda>_.
      rbind (rguard (is_bool enabled) (ValidationError ''Invalid firewall enabled value'')) (\<lambda>_.
      rbind (rguard (is_integer hours \<and> 6 \<le> int_of hours \<and> int_of hours \<le> 168)
               (ValidationError ''Firewall update interval must be between 6 and 168 hours'')) (\<lambda>_.
      rbind (if source_type = JStr ''url''
             then rbind (validateSourceUrl lib ul source_url) (\<lambda>_. Inr (str_of source_url)) else Inr []) (\<lambda>surl.
      rbind (parseIpList lib entries) (\<lambda>parsed.
      rbind (rguard (il_invalid parsed = [])
               (ValidationError (''Invalid firewall list entries on line(s): '' @
                  js_join '', '' (map (\<lambda>x. nat_str (fst x)) (take 10 (il_invalid parsed)))))) (\<lambda>_.
      Inr \<lparr>li_name = str_of name, li_reason = str_of reason, li_description = str_of description,
           li_source_type = str_of source_type, li_source_url = surl, li_update_interval_hours = int_of hours,
           li_enabled = bool_of enabled, li_entries = js_join [CHR 10] (il_entries parsed),
           li_entry_count = length (il_entries parsed)\<rparr>)))))))))))"

section \<open>Policies\<close>

fun words :: "string \<Rightarrow> string list" where
  "words (a # b # c # s) = [a, b] # words s"
| "words [a, b] = [[a, b]]"
| "words _ = []"

text \<open>The enumeration of the shared schema component.\<close>

definition FIREWALL_COUNTRY_CODES :: "string list" where
  "FIREWALL_COUNTRY_CODES = concat (map words [
     ''AD AE AF AG AI AL AM AO AQ AR AS AT AU AW AX AZ BA BB BD BE BF BG BH BI BJ'',
     ''BL BM BN BO BQ BR BS BT BV BW BY BZ CA CC CD CF CG CH CI CK CL CM CN CO CR'',
     ''CU CV CW CX CY CZ DE DJ DK DM DO DZ EC EE EG EH ER ES ET FI FJ FK FM FO FR'',
     ''GA GB GD GE GF GG GH GI GL GM GN GP GQ GR GS GT GU GW GY HK HM HN HR HT HU'',
     ''ID IE IL IM IN IO IQ IR IS IT JE JM JO JP KE KG KH KI KM KN KP KR KW KY KZ'',
     ''LA LB LC LI LK LR LS LT LU LV LY MA MC MD ME MF MG MH MK ML MM MN MO MP MQ'',
     ''MR MS MT MU MV MW MX MY MZ NA NC NE NF NG NI NL NO NP NR NU NZ OM PA PE PF'',
     ''PG PH PK PL PM PN PR PS PT PW PY QA RE RO RS RU RW SA SB SC SD SE SG SH SI'',
     ''SJ SK SL SM SN SO SR SS ST SV SX SY SZ TC TD TF TG TH TJ TK TL TM TN TO TR'',
     ''TT TV TW TZ UA UG UM US UY UZ VA VC VE VG VI VN VU WF WS XK YE YT ZA ZM ZW''])"

definition MAX_RULES :: nat where
  "MAX_RULES = 1000"

definition policy_fields :: "string list" where
  "policy_fields = [''enabled'', ''list_ids'', ''allowlist'', ''denylist'', ''public_message'', ''support_url'',
     ''internal_note'', ''country_denylist'', ''country_reason'', ''block_unknown_country'', ''asn_denylist'']"

record fw_policy =
  fp_enabled :: bool
  fp_list_ids :: "int list"
  fp_allowlist :: "string list"
  fp_denylist :: "(string \<times> string) list"
  fp_public_message :: string
  fp_support_url :: string
  fp_internal_note :: string
  fp_asn_denylist :: "(int \<times> string) list"
  fp_country_denylist :: "string list"
  fp_country_reason :: string
  fp_block_unknown_country :: bool

definition policy_text :: "jsval \<Rightarrow> string \<Rightarrow> nat \<Rightarrow> string result" where
  "policy_text v name maximum =
     (if v = Undef then Inr []
      else if bounded_text v maximum then Inr (js_trim (str_of v))
      else Inl (ValidationError (''Firewall '' @ name @ '' must be text of at most '' @ nat_str maximum @ '' characters'')))"

definition policy_country :: "jsval \<Rightarrow> string result" where
  "policy_country v =
     (if is_str v \<and> js_upper (js_trim (str_of v)) \<in> set FIREWALL_COUNTRY_CODES
      then Inr (js_upper (js_trim (str_of v)))
      else Inl (ValidationError ''Firewall countries must use valid ISO alpha-2 codes or XK''))"

fun policy_deny :: "ip_lib \<Rightarrow> string list \<Rightarrow> jsval list \<Rightarrow> (string \<times> string) list result" where
  "policy_deny lib seen [] = Inr []"
| "policy_deny lib seen (rule # rules) =
     rbind (rguard (is_obj rule \<and> (\<forall>k \<in> set (js_keys rule). k = ''address'' \<or> k = ''reason''))
        (ValidationError ''Firewall deny rules require an IP address and an optional public reason'')) (\<lambda>_.
     rbind (normalizeAddress lib (js_get rule ''address'')) (\<lambda>address.
     rbind (rguard (address \<notin> set seen) (ValidationError (''Duplicate firewall rule: '' @ address))) (\<lambda>_.
     rbind (policy_text (js_get rule ''reason'') ''reason'' 1000) (\<lambda>reason.
     rbind (policy_deny lib (address # seen) rules) (\<lambda>rest. Inr ((address, reason) # rest))))))"

fun policy_asn :: "int list \<Rightarrow> jsval list \<Rightarrow> (int \<times> string) list result" where
  "policy_asn seen [] = Inr []"
| "policy_asn seen (rule # rules) =
     (let asn = js_get rule ''asn'' in
      rbind (rguard (is_obj rule \<and> (\<forall>k \<in> set (js_keys rule). k = ''asn'' \<or> k = ''reason'') \<and>
                     is_integer asn \<and> 1 \<le> int_of asn \<and> int_of asn \<le> 4294967295)
        (ValidationError ''Firewall ASN rules require an integer ASN from 1 to 4294967295'')) (\<lambda>_.
      rbind (rguard (int_of asn \<notin> set seen) (ValidationError (''Duplicate firewall ASN rule: AS'' @ int_str (int_of asn)))) (\<lambda>_.
      rbind (policy_text (js_get rule ''reason'') ''ASN reason'' 1000) (\<lambda>reason.
      rbind (policy_asn (int_of asn # seen) rules) (\<lambda>rest. Inr ((int_of asn, reason) # rest))))))"

definition support_url_ok :: "url_lib \<Rightarrow> string \<Rightarrow> bool" where
  "support_url_ok ul s \<longleftrightarrow> s = [] \<or>
     (case parse_url ul s of
        None \<Rightarrow> False
      | Some u \<Rightarrow> (url_protocol u = ''http:'' \<or> url_protocol u = ''https:'') \<and> url_username u = [] \<and>
                  url_password u = [] \<and> \<not> list_ex is_control s)"

definition normalizeFirewallPolicy :: "ip_lib \<Rightarrow> url_lib \<Rightarrow> jsval \<Rightarrow> fw_policy option result" where
  "normalizeFirewallPolicy lib ul v =
     (if v = Undef then Inr None
      else
      let get = js_get v; undef_or_bool = (\<lambda>x. x = Undef \<or> is_bool x) in
      rbind (rguard (is_obj v \<and> (\<forall>k \<in> set (js_keys v). k \<in> set policy_fields))
               (ValidationError ''Invalid IP firewall settings'')) (\<lambda>_.
      rbind (rguard (undef_or_bool (get ''enabled'')) (ValidationError ''Firewall enabled must be a boolean'')) (\<lambda>_.
      rbind (rguard (undef_or_bool (get ''block_unknown_country''))
               (ValidationError ''Firewall block unknown country must be a boolean'')) (\<lambda>_.
      let countries = if_undef (get ''country_denylist'') (JArr []) in
      rbind (rguard (is_arr countries \<and> length (arr_of countries) \<le> length FIREWALL_COUNTRY_CODES)
               (ValidationError ''Firewall country denylist must contain at most 250 country codes'')) (\<lambda>_.
      rbind (rmap policy_country (arr_of countries)) (\<lambda>countryCodes.
      let listIds = nullish (get ''list_ids'') (JArr []) in
      rbind (rguard (is_arr listIds \<and> length (arr_of listIds) \<le> 32 \<and>
                     (\<forall>i \<in> set (arr_of listIds). is_safe_integer i \<and> 1 \<le> int_of i))
               (ValidationError ''Firewall list IDs must be positive integers (maximum 32)'')) (\<lambda>_.
      let allowed = nullish (get ''allowlist'') (JArr []); denied = nullish (get ''denylist'') (JArr []) in
      rbind (rguard (is_arr allowed \<and> is_arr denied \<and> length (arr_of allowed) \<le> MAX_RULES \<and> length (arr_of denied) \<le> MAX_RULES)
               (ValidationError ''Firewall permits at most 1000 manual rules and exceptions'')) (\<lambda>_.
      rbind (rmap (normalizeAddress lib) (arr_of allowed)) (\<lambda>allowlist.
      rbind (policy_deny lib [] (arr_of denied)) (\<lambda>denylist.
      let asnRules = if_undef (get ''asn_denylist'') (JArr []) in
      rbind (rguard (is_arr asnRules \<and> length (arr_of asnRules) \<le> MAX_RULES)
               (ValidationError ''Firewall ASN denylist must contain at most 1000 rules'')) (\<lambda>_.
      rbind (policy_asn [] (arr_of asnRules)) (\<lambda>asnDenylist.
      rbind (policy_text (get ''support_url'') ''support URL'' 2048) (\<lambda>supportUrl.
      rbind (rguard (support_url_ok ul supportUrl)
               (ValidationError ''Firewall support URL must be an HTTP(S) URL without credentials'')) (\<lambda>_.
      rbind (policy_text (get ''public_message'') ''public message'' 2000) (\<lambda>public_message.
      rbind (policy_text (get ''internal_note'') ''internal note'' 2000) (\<lambda>internal_note.
      rbind (policy_text (get ''country_reason'') ''country reason'' 1000) (\<lambda>country_reason.
      Inr (Some \<lparr>fp_enabled = bool_of (get ''enabled''), fp_list_ids = dedup (map int_of (arr_of listIds)),
        fp_allowlist = dedup allowlist, fp_denylist = denylist, fp_public_message = public_message,
        fp_support_url = supportUrl, fp_internal_note = internal_note, fp_asn_denylist = asnDenylist,
        fp_country_denylist = dedup countryCodes, fp_country_reason = country_reason,
        fp_block_unknown_country = bool_of (get ''block_unknown_country'')\<rparr>))))))))))))))))))"

end
