(* ===== verification/Ip_Lib_Instance.thy ===== *)
theory Ip_Lib_Instance
  imports Firewall_Addresses
begin

text \<open>
  A concrete address library that behaves as \<open>ip_lib_ok\<close> says: dotted decimal text for IPv4, eight groups of four hexadecimal
  digits for IPv6. It shows that the documented behaviour assumed of the package can hold, and the
  witnesses of the firewall's theorems are evaluated with it.
\<close>

definition hex_char :: "nat \<Rightarrow> char" where
  "hex_char n = ''0123456789abcdef'' ! n"

definition hex_val :: "char \<Rightarrow> nat" where
  "hex_val c = (if is_digit c then code c - 48 else if code_between 97 102 c then code c - 87 else code c - 55)"

definition byte_hex :: "8 word \<Rightarrow> string" where
  "byte_hex b = [hex_char (unat b div 16), hex_char (unat b mod 16)]"

definition hex_byte :: "char \<Rightarrow> char \<Rightarrow> 8 word" where
  "hex_byte c d = word_of_nat (16 * hex_val c + hex_val d)"

fun byte_groups :: "8 word list \<Rightarrow> string list" where
  "byte_groups (b # c # bs) = (byte_hex b @ byte_hex c) # byte_groups bs"
| "byte_groups _ = []"

definition pad4 :: "string \<Rightarrow> string" where
  "pad4 g = replicate (4 - length g) (CHR ''0'') @ g"

definition octets :: "string \<Rightarrow> 8 word list" where
  "octets s = map (\<lambda>p. word_of_nat (digits_value p)) (split_char (CHR ''.'') s)"

definition group_bytes :: "string \<Rightarrow> 8 word list" where
  "group_bytes g = (if CHR ''.'' \<in> set g then octets g
     else (let h = pad4 g in [hex_byte (h ! 0) (h ! 1), hex_byte (h ! 2) (h ! 3)]))"

definition run_bytes :: "string \<Rightarrow> 8 word list" where
  "run_bytes s = (if s = [] then [] else concat (map group_bytes (split_char (CHR '':'') s)))"

definition v6_bytes :: "string \<Rightarrow> 8 word list" where
  "v6_bytes s =
     (case split_gap s of
        None \<Rightarrow> take 16 (run_bytes s @ replicate 16 0)
      | Some (l, r) \<Rightarrow>
          take 16 (run_bytes l @ replicate (16 - length (run_bytes l) - length (run_bytes r)) 0 @ run_bytes r @ replicate 16 0))"

definition parse0 :: "string \<Rightarrow> ip" where
  "parse0 s = (if isIPv4 s then V4 (octets s) else V6 (v6_bytes s))"

fun str0 :: "ip \<Rightarrow> string" where
  "str0 (V4 bs) = js_join ''.'' (map (\<lambda>b. nat_str (unat b)) bs)"
| "str0 (V6 bs) = js_join '':'' (byte_groups bs)"

definition cidr_parts :: "string \<Rightarrow> ip \<times> nat" where
  "cidr_parts s = (let ps = split_char (CHR ''/'') s in (parse0 (hd ps), digits_value (ps ! 1)))"

definition ip0 :: ip_lib where
  "ip0 = \<lparr>ip_parse = parse0, ip_str = str0,
     ip_is_mapped = (\<lambda>a. mapped_bytes (ip_bytes a)),
     ip_to_ipv4 = (\<lambda>a. V4 (drop 12 (ip_bytes a))),
     ip_network = (\<lambda>s. case cidr_parts s of (a, p) \<Rightarrow> from_bytes (mask_bytes p (ip_bytes a))),
     ip_parse_cidr = cidr_parts\<rparr>"

lemma unat_byte: "unat (b :: 8 word) < 256"
  using unsigned_less [of b] by simp

lemma nat_str_length: "n < 1000 \<Longrightarrow> length (nat_str n) \<le> 3"
  by (simp add: nat_str.simps [of n] nat_str.simps [of "n div 10"] nat_str.simps [of "n div 100"] div_mult2_eq [symmetric])

lemma octet_ok: "is_octet (nat_str (unat (b :: 8 word)))"
proof -
  have z: "length (nat_str 0) = 1" by (simp add: nat_str.simps [of 0])
  have "hd (nat_str (unat b)) \<noteq> CHR ''0''" if "1 < length (nat_str (unat b))"
    using that z by (intro nat_str_hd) (auto intro!: Nat.gr0I)
  then show ?thesis using unat_byte [of b] nat_str_length [of "unat b"] by (simp add: is_octet_def)
qed

lemma nibble: "n < 16 \<Longrightarrow> is_hex_digit (hex_char n) \<and> hex_val (hex_char n) = n"
proof -
  have "list_all (\<lambda>n. is_hex_digit (hex_char n) \<and> hex_val (hex_char n) = n) [0 ..< 16]" by code_simp
  then show "n < 16 \<Longrightarrow> is_hex_digit (hex_char n) \<and> hex_val (hex_char n) = n" by (simp add: list_all_iff)
qed

lemma byte_hex_ok: "list_all is_hex_digit (byte_hex b) \<and> length (byte_hex b) = 2"
  using unat_byte [of b] by (simp add: byte_hex_def nibble)

lemma byte_hex_back: "hex_byte (byte_hex b ! 0) (byte_hex b ! Suc 0) = b"
proof -
  have "16 * (unat b div 16) + unat b mod 16 = unat b" by simp
  then show ?thesis using unat_byte [of b] by (simp add: byte_hex_def hex_byte_def nibble)
qed

lemma nat_str_no_dot: "CHR ''.'' \<notin> set (nat_str n)"
  using nat_str_spec [of n] by (auto simp: list_all_iff is_digit_def code_between_def code_def)

lemma str4_split:
  assumes "bs \<noteq> []"
  shows "split_char (CHR ''.'') (str0 (V4 bs)) = map (\<lambda>b. nat_str (unat b)) bs"
  unfolding str0.simps by (rule split_char_join) (use assms nat_str_no_dot in auto)

lemma v4_roundtrip:
  assumes "length bs = 4"
  shows "isIPv4 (str0 (V4 bs))" "octets (str0 (V4 bs)) = bs"
proof -
  have "bs \<noteq> []" using assms by auto
  note S = str4_split [OF this]
  show "isIPv4 (str0 (V4 bs))" unfolding isIPv4_def S Let_def using assms octet_ok by (simp add: list_all_iff)
  show "octets (str0 (V4 bs)) = bs" unfolding octets_def S by (simp add: comp_def)
qed

lemma byte_groups_ok:
  "\<forall>g \<in> set (byte_groups bs). is_group g \<and> length g = 4"
proof (induction bs rule: byte_groups.induct)
  case (1 b c bs)
  then show ?case using byte_hex_ok [of b] byte_hex_ok [of c] by (auto simp: is_group_def)
qed auto

lemma byte_groups_length: "length (byte_groups bs) = length bs div 2"
  by (induction bs rule: byte_groups.induct) auto

lemma hex_not: "is_hex_digit c \<Longrightarrow> c \<noteq> CHR '':'' \<and> c \<noteq> CHR ''.''"
  by (auto simp: is_hex_digit_def is_digit_def code_between_def code_def)

lemma group_no: "is_group g \<Longrightarrow> CHR '':'' \<notin> set g \<and> CHR ''.'' \<notin> set g"
  by (auto simp: is_group_def list_all_iff dest: hex_not)

lemma group_bytes_pair: "group_bytes (byte_hex b @ byte_hex c) = [b, c]"
proof -
  have g: "is_group (byte_hex b @ byte_hex c)"
    using byte_hex_ok [of b] byte_hex_ok [of c] by (auto simp: is_group_def)
  have p: "pad4 (byte_hex b @ byte_hex c) = byte_hex b @ byte_hex c"
    using byte_hex_ok [of b] byte_hex_ok [of c] by (simp add: pad4_def)
  have "group_bytes (byte_hex b @ byte_hex c) =
      [hex_byte (byte_hex b ! 0) (byte_hex b ! Suc 0), hex_byte (byte_hex c ! 0) (byte_hex c ! Suc 0)]"
    using group_no [OF g] unfolding group_bytes_def p Let_def by (simp add: byte_hex_def)
  then show ?thesis by (simp add: byte_hex_back)
qed

lemma groups_back: "even (length bs) \<Longrightarrow> concat (map group_bytes (byte_groups bs)) = bs"
  by (induction bs rule: byte_groups.induct) (simp_all add: group_bytes_pair)

lemma split_gap_append:
  "CHR '':'' \<notin> set g \<Longrightarrow> g \<noteq> [] \<Longrightarrow> s \<noteq> [] \<Longrightarrow> hd s \<noteq> CHR '':'' \<Longrightarrow> split_gap s = None \<Longrightarrow> split_gap (g @ CHR '':'' # s) = None"
proof (induction g)
  case (Cons a g)
  then show ?case by (cases g; cases s) auto
qed simp

lemma split_gap_none: "CHR '':'' \<notin> set g \<Longrightarrow> split_gap g = None"
  by (induction g rule: split_gap.induct) auto

lemma split_gap_join:
  "\<forall>g \<in> set gs. is_group g \<Longrightarrow> split_gap (js_join '':'' gs) = None \<and> (gs \<noteq> [] \<longrightarrow> js_join '':'' gs \<noteq> [] \<and> hd (js_join '':'' gs) \<noteq> CHR '':'')"
proof (induction "'':''" gs rule: js_join.induct)
  case (2 x)
  then have x: "x \<noteq> []" "CHR '':'' \<notin> set x" using group_no by (auto simp: is_group_def)
  then have "hd x \<noteq> CHR '':''" using hd_in_set [of x] by metis
  with x show ?case by (simp add: split_gap_none)
next
  case (3 x y ys)
  have x: "x \<noteq> []" "CHR '':'' \<notin> set x" using 3(2) group_no by (auto simp: is_group_def)
  then have "hd x \<noteq> CHR '':''" using hd_in_set [of x] by metis
  moreover have "split_gap (js_join '':'' (y # ys)) = None" "js_join '':'' (y # ys) \<noteq> []" "hd (js_join '':'' (y # ys)) \<noteq> CHR '':''"
    using 3 by auto
  ultimately show ?case using x split_gap_append [OF x(2,1)] by simp
qed simp

lemma group_count_groups: "\<forall>g \<in> set gs. is_group g \<Longrightarrow> group_count d gs = Some (length gs)"
  by (induction d gs rule: group_count.induct) auto

lemma v6_roundtrip:
  assumes "length bs = 16"
  shows "\<not> isIPv4 (str0 (V6 bs))" "isIPv6 (str0 (V6 bs))" "v6_bytes (str0 (V6 bs)) = bs"
proof -
  let ?gs = "byte_groups bs"
  have g: "\<forall>g \<in> set ?gs. is_group g" and len: "length ?gs = 8" and ne: "?gs \<noteq> []"
    using byte_groups_ok [of bs] assms by (auto simp: byte_groups_length simp flip: length_greater_0_conv)
  have split: "split_char (CHR '':'') (str0 (V6 bs)) = ?gs"
    unfolding str0.simps by (rule split_char_join) (use ne g group_no in auto)
  have gap: "split_gap (str0 (V6 bs)) = None" "str0 (V6 bs) \<noteq> []" using split_gap_join [OF g] ne by auto
  have "list_all (\<lambda>c. c \<noteq> CHR ''.'') q" if "q \<in> set ?gs" for q
    using group_no [of q] g that by (auto simp: list_all_iff)
  then have "list_all (\<lambda>c. c \<noteq> CHR ''.'' \<or> c = CHR '':'') (str0 (V6 bs))"
    using split_char_set [of "CHR '':''" "str0 (V6 bs)" "\<lambda>c. c \<noteq> CHR ''.''", unfolded split] by blast
  then have "CHR ''.'' \<notin> set (str0 (V6 bs))" by (auto simp: list_all_iff)
  then show "\<not> isIPv4 (str0 (V6 bs))" by (simp add: isIPv4_def)
  show "isIPv6 (str0 (V6 bs))" unfolding isIPv6_def gap(1) split by (simp add: group_count_groups [OF g] len)
  have "run_bytes (str0 (V6 bs)) = bs"
    using gap(2) assms unfolding run_bytes_def split by (simp add: groups_back)
  then show "v6_bytes (str0 (V6 bs)) = bs" unfolding v6_bytes_def gap(1) by (simp add: assms)
qed

lemma parse0_kind: "isIP s \<noteq> 0 \<Longrightarrow> ip_kind (parse0 s) = isIP s \<and> ip_len (parse0 s)"
  by (auto simp: isIP_def parse0_def ip_len_def octets_def isIPv4_def v6_bytes_def Let_def split: if_splits option.splits)

lemma str0_roundtrip: "ip_len a \<Longrightarrow> isIP (str0 a) = ip_kind a \<and> parse0 (str0 a) = a"
proof (cases a)
  case (V4 bs)
  assume "ip_len a"
  with V4 v4_roundtrip [of bs] show ?thesis by (simp add: ip_len_def isIP_def parse0_def)
next
  case (V6 bs)
  assume "ip_len a"
  with V6 v6_roundtrip [of bs] show ?thesis by (simp add: ip_len_def isIP_def parse0_def)
qed

lemma cidr_parts_cidr: "isIP s \<noteq> 0 \<Longrightarrow> cidr_parts (cidr s p) = (parse0 s, p)"
  using isIP_noslash(1) [of s] by (simp add: cidr_parts_def split_slash)

theorem ip0_ok: "ip_lib_ok ip0"
proof -
  have n: "network_of p (parse0 s) (from_bytes (mask_bytes p (ip_bytes (parse0 s))))" if "isIP s \<noteq> 0" for s p
    using parse0_kind [OF that] by (intro mask_bytes_network) simp
  show ?thesis unfolding ip_lib_ok_def
    by (intro conjI allI impI)
      (use parse0_kind str0_roundtrip n in \<open>simp_all add: ip0_def cidr_parts_cidr\<close>)
qed

end
