(* ===== verification/Firewall_Policy_Props.thy ===== *)
theory Firewall_Policy_Props
  imports Firewall_Policy Ip_Lib_Instance
begin

text \<open>
  Normal forms of firewall lists and policies: what a validated value satisfies, and that a stored value
  passes validation again unchanged.
\<close>

section \<open>Texts\<close>

definition text_ok :: "nat \<Rightarrow> string \<Rightarrow> bool" where
  "text_ok m s \<longleftrightarrow> js_trim s = s \<and> length s \<le> m \<and> CHR 0x00 \<notin> set s"

lemma js_trim_le: "length (js_trim s) \<le> length s \<and> set (js_trim s) \<subseteq> set s"
proof -
  have "length (dropWhile is_ws t) \<le> length t \<and> set (dropWhile is_ws t) \<subseteq> set t" for t
    by (auto simp: length_dropWhile_le dest: set_dropWhileD)
  from this [of s] this [of "rev (dropWhile is_ws s)"] show ?thesis
    by (auto simp: js_trim_def)
qed

lemma policy_text_ok: "policy_text v n m = Inr s \<Longrightarrow> text_ok m s"
proof -
  assume a: "policy_text v n m = Inr s"
  show ?thesis
  proof (cases "v = Undef")
    case True
    with a show ?thesis by (auto simp: policy_text_def text_ok_def js_trim_def)
  next
    case False
    with a have b: "bounded_text v m" "s = js_trim (str_of v)" by (auto simp: policy_text_def split: if_splits)
    then show ?thesis using js_trim_le [of "str_of v"] by (auto simp: text_ok_def bounded_text_def)
  qed
qed

lemma policy_text_fix: "text_ok m s \<Longrightarrow> policy_text (JStr s) n m = Inr s"
  by (simp add: policy_text_def text_ok_def bounded_text_def)

section \<open>Rules\<close>

definition deny_obj :: "string \<times> string \<Rightarrow> jsval" where
  "deny_obj d = JObj [(''address'', JStr (fst d)), (''reason'', JStr (snd d))]"

definition asn_obj :: "int \<times> string \<Rightarrow> jsval" where
  "asn_obj d = JObj [(''asn'', JNum (fst d)), (''reason'', JStr (snd d))]"

lemma policy_deny_ok:
  assumes ok: "ip_lib_ok lib"
  shows "policy_deny lib seen rules = Inr ds \<Longrightarrow> length ds = length rules \<and> distinct (map fst ds) \<and>
     fst ` set ds \<inter> set seen = {} \<and> (\<forall>d \<in> set ds. addr_normal lib (fst d) \<and> text_ok 1000 (snd d))"
proof (induction rules arbitrary: seen ds)
  case (Cons rule rules)
  then obtain a r rest where s: "normalizeAddress lib (js_get rule ''address'') = Inr a" "a \<notin> set seen"
      "policy_text (js_get rule ''reason'') ''reason'' 1000 = Inr r" "policy_deny lib (a # seen) rules = Inr rest"
      "ds = (a, r) # rest"
    by (auto simp: res_simps)
  from Cons.IH [OF s(4)] s show ?case
    using normalizeAddress_normal [OF ok s(1)] policy_text_ok [OF s(3)] by auto
qed simp

lemma policy_deny_fix:
  assumes ok: "ip_lib_ok lib"
  shows "distinct (map fst ds) \<Longrightarrow> fst ` set ds \<inter> set seen = {} \<Longrightarrow>
     \<forall>d \<in> set ds. addr_normal lib (fst d) \<and> text_ok 1000 (snd d) \<Longrightarrow> policy_deny lib seen (map deny_obj ds) = Inr ds"
proof (induction ds arbitrary: seen)
  case (Cons d ds)
  have "normalizeAddress lib (JStr (fst d)) = Inr (fst d)" "policy_text (JStr (snd d)) ''reason'' 1000 = Inr (snd d)"
    using Cons.prems ok by (auto simp: normalizeAddress_fix policy_text_fix)
  moreover have "policy_deny lib (fst d # seen) (map deny_obj ds) = Inr ds"
    by (rule Cons.IH) (use Cons.prems in auto)
  ultimately show ?case using Cons.prems by (auto simp: deny_obj_def [of d])
qed simp

lemma policy_asn_ok:
  "policy_asn seen rules = Inr ds \<Longrightarrow> length ds = length rules \<and> distinct (map fst ds) \<and>
     fst ` set ds \<inter> set seen = {} \<and> (\<forall>d \<in> set ds. 1 \<le> fst d \<and> fst d \<le> 4294967295 \<and> text_ok 1000 (snd d))"
proof (induction rules arbitrary: seen ds)
  case (Cons rule rules)
  then obtain r rest where s: "1 \<le> int_of (js_get rule ''asn'')" "int_of (js_get rule ''asn'') \<le> 4294967295"
      "int_of (js_get rule ''asn'') \<notin> set seen"
      "policy_text (js_get rule ''reason'') ''ASN reason'' 1000 = Inr r"
      "policy_asn (int_of (js_get rule ''asn'') # seen) rules = Inr rest"
      "ds = (int_of (js_get rule ''asn''), r) # rest"
    by (auto simp: res_simps Let_def)
  from Cons.IH [OF s(5)] s(1-4,6) show ?case using policy_text_ok [OF s(4)] by auto
qed simp

lemma policy_asn_fix:
  "distinct (map fst ds) \<Longrightarrow> fst ` set ds \<inter> set seen = {} \<Longrightarrow>
     \<forall>d \<in> set ds. 1 \<le> fst d \<and> fst d \<le> 4294967295 \<and> text_ok 1000 (snd d) \<Longrightarrow> policy_asn seen (map asn_obj ds) = Inr ds"
proof (induction ds arbitrary: seen)
  case (Cons d ds)
  have "policy_text (JStr (snd d)) ''ASN reason'' 1000 = Inr (snd d)" using Cons.prems by (auto simp: policy_text_fix)
  moreover have "policy_asn (fst d # seen) (map asn_obj ds) = Inr ds"
    by (rule Cons.IH) (use Cons.prems in auto)
  ultimately show ?case using Cons.prems by (auto simp: asn_obj_def [of d])
qed simp

lemma country_codes_ok: "list_all (\<lambda>c. js_upper (js_trim c) = c) FIREWALL_COUNTRY_CODES"
  by code_simp

lemma country_codes_count: "length FIREWALL_COUNTRY_CODES = 250"
  by code_simp

lemma policy_country_fix: "c \<in> set FIREWALL_COUNTRY_CODES \<Longrightarrow> policy_country (JStr c) = Inr c"
  using country_codes_ok by (simp add: policy_country_def list_all_iff)

lemma policy_country_ok: "policy_country v = Inr c \<Longrightarrow> c \<in> set FIREWALL_COUNTRY_CODES"
  by (auto simp: policy_country_def split: if_splits)

section \<open>Policies\<close>

definition policy_ok :: "ip_lib \<Rightarrow> url_lib \<Rightarrow> fw_policy \<Rightarrow> bool" where
  "policy_ok lib ul p \<longleftrightarrow>
     length (fp_list_ids p) \<le> 32 \<and> distinct (fp_list_ids p) \<and> (\<forall>i \<in> set (fp_list_ids p). 1 \<le> i \<and> i \<le> MAX_SAFE_INTEGER) \<and>
     length (fp_allowlist p) \<le> 1000 \<and> distinct (fp_allowlist p) \<and> (\<forall>a \<in> set (fp_allowlist p). addr_normal lib a) \<and>
     length (fp_denylist p) \<le> 1000 \<and> distinct (map fst (fp_denylist p)) \<and>
     (\<forall>d \<in> set (fp_denylist p). addr_normal lib (fst d) \<and> text_ok 1000 (snd d)) \<and>
     length (fp_asn_denylist p) \<le> 1000 \<and> distinct (map fst (fp_asn_denylist p)) \<and>
     (\<forall>d \<in> set (fp_asn_denylist p). 1 \<le> fst d \<and> fst d \<le> 4294967295 \<and> text_ok 1000 (snd d)) \<and>
     length (fp_country_denylist p) \<le> 250 \<and> distinct (fp_country_denylist p) \<and> set (fp_country_denylist p) \<subseteq> set FIREWALL_COUNTRY_CODES \<and>
     text_ok 2048 (fp_support_url p) \<and> support_url_ok ul (fp_support_url p) \<and>
     text_ok 2000 (fp_public_message p) \<and> text_ok 2000 (fp_internal_note p) \<and> text_ok 1000 (fp_country_reason p)"

definition policy_obj :: "fw_policy \<Rightarrow> jsval" where
  "policy_obj p = JObj [
     (''enabled'', JBool (fp_enabled p)), (''list_ids'', JArr (map JNum (fp_list_ids p))),
     (''allowlist'', JArr (map JStr (fp_allowlist p))), (''denylist'', JArr (map deny_obj (fp_denylist p))),
     (''public_message'', JStr (fp_public_message p)), (''support_url'', JStr (fp_support_url p)),
     (''internal_note'', JStr (fp_internal_note p)), (''asn_denylist'', JArr (map asn_obj (fp_asn_denylist p))),
     (''country_denylist'', JArr (map JStr (fp_country_denylist p))), (''country_reason'', JStr (fp_country_reason p)),
     (''block_unknown_country'', JBool (fp_block_unknown_country p))]"

lemma rmap_normal: "ip_lib_ok lib \<Longrightarrow> rmap (normalizeAddress lib) xs = Inr ys \<Longrightarrow> \<forall>y \<in> set ys. addr_normal lib y"
  by (auto dest!: rmap_Inr_set intro: normalizeAddress_normal)

lemma policy_normal:
  assumes ok: "ip_lib_ok lib" and n: "normalizeFirewallPolicy lib ul v = Inr (Some p)"
  shows "policy_ok lib ul p"
proof -
  from n have v: "v \<noteq> Undef" by (auto simp: normalizeFirewallPolicy_def)
  define get where "get = js_get v"
  define cs where "cs = if_undef (get ''country_denylist'') (JArr [])"
  define ids where "ids = nullish (get ''list_ids'') (JArr [])"
  define al where "al = nullish (get ''allowlist'') (JArr [])"
  define de where "de = nullish (get ''denylist'') (JArr [])"
  define asn where "asn = if_undef (get ''asn_denylist'') (JArr [])"
  note N = n [unfolded normalizeFirewallPolicy_def if_not_P [OF v] Let_def, folded get_def,
    folded cs_def ids_def al_def de_def asn_def, unfolded rbind_Inr rguard_Inr]
  from N obtain codes allow deny asns surl msg nt reason where
    f: "length (arr_of cs) \<le> length FIREWALL_COUNTRY_CODES" "rmap policy_country (arr_of cs) = Inr codes"
      "length (arr_of ids) \<le> 32" "\<forall>i \<in> set (arr_of ids). is_safe_integer i \<and> 1 \<le> int_of i"
      "length (arr_of al) \<le> MAX_RULES" "length (arr_of de) \<le> MAX_RULES"
      "rmap (normalizeAddress lib) (arr_of al) = Inr allow" "policy_deny lib [] (arr_of de) = Inr deny"
      "length (arr_of asn) \<le> MAX_RULES" "policy_asn [] (arr_of asn) = Inr asns"
      "policy_text (get ''support_url'') ''support URL'' 2048 = Inr surl" "support_url_ok ul surl"
      "policy_text (get ''public_message'') ''public message'' 2000 = Inr msg"
      "policy_text (get ''internal_note'') ''internal note'' 2000 = Inr nt"
      "policy_text (get ''country_reason'') ''country reason'' 1000 = Inr reason"
    and p: "p = \<lparr>fp_enabled = bool_of (get ''enabled''), fp_list_ids = dedup (map int_of (arr_of ids)),
        fp_allowlist = dedup allow, fp_denylist = deny, fp_public_message = msg,
        fp_support_url = surl, fp_internal_note = nt, fp_asn_denylist = asns,
        fp_country_denylist = dedup codes, fp_country_reason = reason,
        fp_block_unknown_country = bool_of (get ''block_unknown_country'')\<rparr>"
    by auto
  have "length (dedup codes) \<le> 250" using f(1) rmap_Inr_length [OF f(2)] length_dedup_le [of codes] country_codes_count by simp
  moreover have "set codes \<subseteq> set FIREWALL_COUNTRY_CODES" using rmap_Inr_set [OF f(2)] policy_country_ok by blast
  moreover have "length (dedup allow) \<le> 1000" using f(5) rmap_Inr_length [OF f(7)] length_dedup_le [of allow] by (simp add: MAX_RULES_def)
  moreover have "length (dedup (map int_of (arr_of ids))) \<le> 32" using f(3) length_dedup_le [of "map int_of (arr_of ids)"] by simp
  moreover have "\<forall>i \<in> int_of ` set (arr_of ids). 1 \<le> i \<and> i \<le> MAX_SAFE_INTEGER"
  proof
    fix i
    assume "i \<in> int_of ` set (arr_of ids)"
    then obtain x where x: "x \<in> set (arr_of ids)" "i = int_of x" by blast
    with f(4) show "1 \<le> i \<and> i \<le> MAX_SAFE_INTEGER" by (cases x) auto
  qed
  ultimately show ?thesis
    using f(6,9,12) rmap_normal [OF ok f(7)] policy_deny_ok [OF ok f(8)] policy_asn_ok [OF f(10)]
      policy_text_ok [OF f(11)] policy_text_ok [OF f(13)] policy_text_ok [OF f(14)] policy_text_ok [OF f(15)]
    by (simp add: policy_ok_def p MAX_RULES_def)
qed

lemma policy_fix:
  assumes ok: "ip_lib_ok lib" and p: "policy_ok lib ul p"
  shows "normalizeFirewallPolicy lib ul (policy_obj p) = Inr (Some p)"
proof -
  note P = p [unfolded policy_ok_def]
  have cs: "rmap policy_country (map JStr (fp_country_denylist p)) = Inr (fp_country_denylist p)"
    by (rule rmap_embed) (use P in \<open>auto simp: policy_country_fix\<close>)
  have al: "rmap (normalizeAddress lib) (map JStr (fp_allowlist p)) = Inr (fp_allowlist p)"
    by (rule rmap_embed) (use P ok in \<open>auto simp: normalizeAddress_fix\<close>)
  have de: "policy_deny lib [] (map deny_obj (fp_denylist p)) = Inr (fp_denylist p)"
    using P by (intro policy_deny_fix [OF ok]) auto
  have as: "policy_asn [] (map asn_obj (fp_asn_denylist p)) = Inr (fp_asn_denylist p)"
    using P by (intro policy_asn_fix) auto
  have ids: "\<forall>i \<in> set (map JNum (fp_list_ids p)). is_safe_integer i \<and> 1 \<le> int_of i" using P by auto
  have keys: "\<forall>k \<in> set (js_keys (policy_obj p)). k \<in> set policy_fields" by (simp add: policy_obj_def policy_fields_def)
  have v: "policy_obj p \<noteq> Undef" by (simp add: policy_obj_def)
  have get: "js_get (policy_obj p) ''enabled'' = JBool (fp_enabled p)"
      "js_get (policy_obj p) ''list_ids'' = JArr (map JNum (fp_list_ids p))"
      "js_get (policy_obj p) ''allowlist'' = JArr (map JStr (fp_allowlist p))"
      "js_get (policy_obj p) ''denylist'' = JArr (map deny_obj (fp_denylist p))"
      "js_get (policy_obj p) ''public_message'' = JStr (fp_public_message p)"
      "js_get (policy_obj p) ''support_url'' = JStr (fp_support_url p)"
      "js_get (policy_obj p) ''internal_note'' = JStr (fp_internal_note p)"
      "js_get (policy_obj p) ''asn_denylist'' = JArr (map asn_obj (fp_asn_denylist p))"
      "js_get (policy_obj p) ''country_denylist'' = JArr (map JStr (fp_country_denylist p))"
      "js_get (policy_obj p) ''country_reason'' = JStr (fp_country_reason p)"
      "js_get (policy_obj p) ''block_unknown_country'' = JBool (fp_block_unknown_country p)"
    by (simp_all add: policy_obj_def)
  have obj: "is_obj (policy_obj p)" by (simp add: policy_obj_def)
  have d: "dedup (map int_of (map JNum (fp_list_ids p))) = fp_list_ids p" "dedup (fp_allowlist p) = fp_allowlist p"
      "dedup (fp_country_denylist p) = fp_country_denylist p"
    using P by (simp_all add: comp_def)
  show ?thesis
    unfolding normalizeFirewallPolicy_def if_not_P [OF v] Let_def get if_undef_def nullish_def
    using P keys obj ids
    by (simp add: cs al de as d policy_text_fix country_codes_count MAX_RULES_def del: list.map_comp map_map set_map)
qed

lemma parseIpList_join:
  assumes ok: "ip_lib_ok lib" and normal: "\<forall>e \<in> set es. addr_normal lib e" and d: "distinct es"
    and le: "length es \<le> MAX_LIST_LINES" and sz: "utf8_length (js_join [CHR 10] es) \<le> MAX_LIST_BYTES"
  shows "parseIpList lib (JStr (js_join [CHR 10] es)) =
     Inr \<lparr>il_entries = es, il_duplicates = 0, il_invalid = [], il_totalLines = length es\<rparr>"
proof (cases "es = []")
  case True
  then show ?thesis by (simp add: parseIpList_def utf8_length_def parse_lines_def)
next
  case False
  have "list_all (\<lambda>c. c \<noteq> CHR 10 \<and> c \<noteq> CHR 13) e" if e: "e \<in> set es" for e
    using normal_chars [OF ok, of e] normal e by (auto simp: list_all_iff dest: addr_char_not)
  then have sl: "split_lines (js_join [CHR 10] es) = es" using False by (intro split_lines_join) auto
  have last: "last es \<noteq> []" using normal normal_chars [OF ok] last_in_set [OF False] by blast
  have "parse_lines lib es = \<lparr>il_entries = es, il_duplicates = 0, il_invalid = [], il_totalLines = length es\<rparr>"
    using fold_normal_lines [OF ok normal] d by (simp add: parse_lines_def)
  then show ?thesis using sz sl last le by (simp add: parseIpList_def Let_def)
qed

lemma parseIpList_facts:
  assumes ok: "ip_lib_ok lib" and p: "parseIpList lib content = Inr r"
  obtains lines where "r = parse_lines lib lines" "length lines \<le> MAX_LIST_LINES" "\<forall>e \<in> set (il_entries r). addr_normal lib e"
    "distinct (il_entries r)" "length (il_entries r) \<le> MAX_LIST_LINES"
proof -
  from p obtain lines where r: "r = parse_lines lib lines" "length lines \<le> MAX_LIST_LINES"
    by (cases content) (auto simp: parseIpList_def Let_def split: if_splits)
  note F = parse_lines_facts [of lib lines]
  have normal: "\<forall>e \<in> set (il_entries r). addr_normal lib e"
    using F(4) normalizeAddress_normal [OF ok] by (auto simp: r)
  have le: "length (il_entries r) \<le> MAX_LIST_LINES"
    using F(3) r(2) length_filter_le [of "\<lambda>l. line_value l \<noteq> []" lines] unfolding r(1) by linarith
  show thesis by (rule that [OF r normal _ le]) (simp add: F(1) r)
qed

section \<open>Guarantees\<close>

text \<open>Normal addresses. Normalising an accepted address or network again returns it unchanged, and the result is
  an IPv4 or IPv6 address that is not an IPv4-mapped one, alone or as a network whose host bits are zero
  with a prefix below the full width.\<close>

theorem normalizeAddress_idempotent:
  assumes "ip_lib_ok lib" and "normalizeAddress lib v = Inr y"
  shows "normalizeAddress lib (JStr y) = Inr y \<and> addr_normal lib y"
  using assms by (blast intro: normalizeAddress_fix normalizeAddress_normal)

theorem normalizeAddress_idempotent_witness:
  "normalizeAddress ip0 (JStr ''10.1.0.0/16'') = Inr ''10.1.0.0/16'' \<and> addr_normal ip0 ''10.1.0.0/16''"
proof -
  have "normalizeAddress ip0 (JStr '' 10.1.2.3/16 '') = Inr ''10.1.0.0/16''" by code_simp
  from normalizeAddress_idempotent [OF ip0_ok this] show ?thesis .
qed

text \<open>The render key agrees with the stored normal form. Masking the address bytes while rendering changes
  nothing: the key of an accepted address is its normal form, with the full prefix written out when it
  is a single address.\<close>

theorem networkKey_is_normal_form:
  assumes "ip_lib_ok lib" and "normalizeAddress lib v = Inr y"
  shows "networkKey lib v = Inr (if CHR ''/'' \<in> set y then y else cidr y (if isIP y = 4 then 32 else 128))"
  using assms by (rule networkKey_normal)

theorem networkKey_is_normal_form_witness: "networkKey ip0 (JStr ''10.1.2.3'') = Inr ''10.1.2.3/32''"
proof -
  have "normalizeAddress ip0 (JStr ''10.1.2.3'') = Inr ''10.1.2.3''" by code_simp
  from networkKey_is_normal_form [OF ip0_ok this]
  have "networkKey ip0 (JStr ''10.1.2.3'') =
      Inr (if CHR ''/'' \<in> set ''10.1.2.3'' then ''10.1.2.3'' else cidr ''10.1.2.3'' (if isIP ''10.1.2.3'' = 4 then 32 else 128))" .
  also have "\<dots> = Inr ''10.1.2.3/32''" by code_simp
  finally show ?thesis .
qed

text \<open>Address lists. Every line that is not blank or a comment is counted exactly once, as an entry, a duplicate
  or an invalid line; the entries are the distinct normal forms of the valid lines; and a stored list,
  one entry per line, parses to itself with nothing invalid or duplicate.\<close>

theorem parseIpList_entries:
  assumes ok: "ip_lib_ok lib" and p: "parseIpList lib content = Inr r"
  shows "\<exists>lines. length lines = il_totalLines r \<and> il_totalLines r \<le> 200000 \<and>
     length (il_entries r) + il_duplicates r + length (il_invalid r) = length (filter (\<lambda>l. line_value l \<noteq> []) lines) \<and>
     distinct (il_entries r) \<and> (\<forall>e \<in> set (il_entries r). addr_normal lib e) \<and>
     (utf8_length (js_join [CHR 10] (il_entries r)) \<le> MAX_LIST_BYTES \<longrightarrow>
       parseIpList lib (JStr (js_join [CHR 10] (il_entries r))) =
         Inr \<lparr>il_entries = il_entries r, il_duplicates = 0, il_invalid = [], il_totalLines = length (il_entries r)\<rparr>)"
proof -
  from p obtain lines where r: "r = parse_lines lib lines" "length lines \<le> MAX_LIST_LINES" "\<forall>e \<in> set (il_entries r). addr_normal lib e"
    "distinct (il_entries r)" "length (il_entries r) \<le> MAX_LIST_LINES"
    by (rule parseIpList_facts [OF ok])
  note F = parse_lines_facts [of lib lines, folded r(1)]
  from F(2,3) r(2-4) parseIpList_join [OF ok r(3-5)] show ?thesis
    by (intro exI [of _ lines]) (auto simp: MAX_LIST_LINES_def)
qed

definition list0 :: string where
  "list0 = ''10.0.0.1 # office'' @ [CHR 10] @ ''bad'' @ [CHR 13, CHR 10, CHR 10] @ ''10.0.0.1/32'' @ [CHR 10]"

theorem parseIpList_entries_witness:
  "\<exists>r. parseIpList ip0 (JStr list0) = Inr r \<and> length (il_entries r) + il_duplicates r + length (il_invalid r) = 3 \<and>
     distinct (il_entries r)"
proof -
  have "parseIpList ip0 (JStr list0) =
      Inr \<lparr>il_entries = [''10.0.0.1''], il_duplicates = 1, il_invalid = [(2, ''bad'')], il_totalLines = 4\<rparr>"
  proof -
    have p: "parse_lines ip0 (butlast (split_lines list0)) =
        \<lparr>il_entries = [''10.0.0.1''], il_duplicates = 1, il_invalid = [(2, ''bad'')], il_totalLines = 4\<rparr>" by code_simp
    have l: "last (split_lines list0) = []" "length (butlast (split_lines list0)) = 4" "utf8_length list0 = 36" by code_simp+
    show ?thesis unfolding parseIpList_def jsval.case Let_def l if_P [OF refl] p by (simp add: MAX_LIST_BYTES_def MAX_LIST_LINES_def)
  qed
  from parseIpList_entries [OF ip0_ok this] this show ?thesis by auto
qed

text \<open>C37. Firewall policies. An accepted policy has at most 32 distinct list identifiers, at most 1000 distinct exceptions,
  rules and networks in normal form, only known country codes, trimmed texts within their limits and a
  support link without credentials; and validating the stored policy again returns it unchanged.\<close>

theorem normalizeFirewallPolicy_normal_form:
  assumes "ip_lib_ok lib" and "normalizeFirewallPolicy lib ul v = Inr (Some p)"
  shows "policy_ok lib ul p \<and> normalizeFirewallPolicy lib ul (policy_obj p) = Inr (Some p)"
  using assms by (blast intro: policy_normal policy_fix)

definition ul0 :: url_lib where
  "ul0 = \<lparr>parse_url = (\<lambda>s. if starts_with s ''https://'' then
       Some \<lparr>url_protocol = ''https:'', url_hostname = drop 8 s, url_username = [], url_password = [], url_hash = [], url_href = s,
         url_host = drop 8 s, url_port = [], url_pathname = ''/'', url_search = []\<rparr>
       else None), ip_range = (\<lambda>_. ''unicast''), ip_match = (\<lambda>_ r. r = ''2000::/3'')\<rparr>"

definition pol0 :: jsval where
  "pol0 = JObj [(''enabled'', JBool True), (''list_ids'', JArr [JNum 3, JNum 3]),
     (''denylist'', JArr [JObj [(''address'', JStr ''10.1.2.3/8''), (''reason'', JStr '' scans '')]]),
     (''country_denylist'', JArr [JStr ''xk'']), (''support_url'', JStr ''https://help.example'')]"

theorem normalizeFirewallPolicy_normal_form_witness:
  "\<exists>p. normalizeFirewallPolicy ip0 ul0 pol0 = Inr (Some p) \<and> policy_ok ip0 ul0 p \<and>
     normalizeFirewallPolicy ip0 ul0 (policy_obj p) = Inr (Some p)"
proof -
  have "(case normalizeFirewallPolicy ip0 ul0 pol0 of Inr (Some _) \<Rightarrow> True | _ \<Rightarrow> False)" by code_simp
  then obtain p where p: "normalizeFirewallPolicy ip0 ul0 pol0 = Inr (Some p)"
    by (auto split: sum.splits option.splits)
  from normalizeFirewallPolicy_normal_form [OF ip0_ok p] p show ?thesis by blast
qed

definition list_obj :: "list_input \<Rightarrow> jsval" where
  "list_obj x = JObj [(''name'', JStr (li_name x)), (''reason'', JStr (li_reason x)), (''description'', JStr (li_description x)),
     (''source_type'', JStr (li_source_type x)), (''source_url'', JStr (li_source_url x)),
     (''update_interval_hours'', JNum (li_update_interval_hours x)), (''enabled'', JBool (li_enabled x)),
     (''entries'', JStr (li_entries x)), (''entry_count'', JNum (int (li_entry_count x)))]"

definition list_ok :: "ip_lib \<Rightarrow> url_lib \<Rightarrow> list_input \<Rightarrow> bool" where
  "list_ok lib ul x \<longleftrightarrow>
     bounded_text (JStr (li_name x)) 255 \<and> bounded_text (JStr (li_reason x)) 2000 \<and> bounded_text (JStr (li_description x)) 4000 \<and>
     js_trim (li_name x) \<noteq> [] \<and> js_trim (li_reason x) \<noteq> [] \<and>
     (li_source_type x = ''manual'' \<and> li_source_url x = [] \<or>
      li_source_type x = ''url'' \<and> (\<exists>u. validateSourceUrl lib ul (JStr (li_source_url x)) = Inr u)) \<and>
     6 \<le> li_update_interval_hours x \<and> li_update_interval_hours x \<le> 168 \<and>
     (\<exists>es. li_entries x = js_join [CHR 10] es \<and> distinct es \<and> (\<forall>e \<in> set es. addr_normal lib e) \<and>
        length es \<le> MAX_LIST_LINES \<and> li_entry_count x = length es)"

lemma list_input_ok:
  assumes ok: "ip_lib_ok lib" and n: "normalizeListInput lib ul data prev = Inr x"
  shows "list_ok lib ul x"
proof -
  define get where "get = combined_field prev data"
  note N = n [unfolded normalizeListInput_def Let_def, folded get_def, unfolded rbind_Inr rguard_Inr]
  define nm where "nm = get ''name'' (JStr [])"
  define rs where "rs = get ''reason'' (JStr [])"
  define ds where "ds = get ''description'' (JStr [])"
  define st where "st = get ''source_type'' (JStr ''manual'')"
  define su where "su = get ''source_url'' (JStr [])"
  define hr where "hr = get ''update_interval_hours'' (JNum 24)"
  define en where "en = get ''enabled'' (JBool True)"
  define es where "es = get ''entries'' (JStr [])"
  note N' = N [folded nm_def rs_def ds_def st_def su_def hr_def en_def es_def]
  from N' obtain surl parsed where
    f: "bounded_text nm 255" "bounded_text rs 2000" "bounded_text ds 4000" "js_trim (str_of nm) \<noteq> []" "js_trim (str_of rs) \<noteq> []"
      "st = JStr ''manual'' \<or> st = JStr ''url''" "6 \<le> int_of hr" "int_of hr \<le> 168"
      "(if st = JStr ''url'' then rbind (validateSourceUrl lib ul su) (\<lambda>_. Inr (str_of su)) else Inr []) = Inr surl"
      "parseIpList lib es = Inr parsed" "il_invalid parsed = []"
    and x: "x = \<lparr>li_name = str_of nm, li_reason = str_of rs, li_description = str_of ds,
           li_source_type = str_of st, li_source_url = surl, li_update_interval_hours = int_of hr,
           li_enabled = bool_of en, li_entries = js_join [CHR 10] (il_entries parsed),
           li_entry_count = length (il_entries parsed)\<rparr>"
    by auto
  have st: "st = JStr ''manual'' \<and> surl = [] \<or> st = JStr ''url'' \<and> (\<exists>u. validateSourceUrl lib ul (JStr surl) = Inr u)"
  proof (cases "st = JStr ''url''")
    case True
    with f(9) obtain u where "validateSourceUrl lib ul su = Inr u" "surl = str_of su" by (auto simp: res_simps)
    then show ?thesis using True by (cases su) (auto simp: validateSourceUrl_def)
  next
    case False
    with f(6,9) show ?thesis by auto
  qed
  from f(10) have es: "distinct (il_entries parsed)" "\<forall>e \<in> set (il_entries parsed). addr_normal lib e"
      "length (il_entries parsed) \<le> MAX_LIST_LINES"
    by (rule parseIpList_facts [OF ok], blast)+
  have texts: "bounded_text (JStr (str_of v)) m" if "bounded_text v m" for v m
    using that by (simp add: bounded_text_def)
  show ?thesis using f(1-5,7,8) st es unfolding list_ok_def x by (auto intro: texts)
qed

lemma list_input_fix:
  assumes ok: "ip_lib_ok lib" and x: "list_ok lib ul x" and sz: "utf8_length (li_entries x) \<le> MAX_LIST_BYTES"
  shows "normalizeListInput lib ul (list_obj x) prev = Inr x"
proof -
  from x obtain es where es: "li_entries x = js_join [CHR 10] es" "distinct es" "\<forall>e \<in> set es. addr_normal lib e"
      "length es \<le> MAX_LIST_LINES" "li_entry_count x = length es"
    by (auto simp: list_ok_def)
  have p: "parseIpList lib (JStr (li_entries x)) =
      Inr \<lparr>il_entries = es, il_duplicates = 0, il_invalid = [], il_totalLines = length es\<rparr>"
    using parseIpList_join [OF ok es(3,2,4)] sz by (simp add: es(1))
  have vals: "combined_field prev (list_obj x) ''name'' d = JStr (li_name x)"
      "combined_field prev (list_obj x) ''reason'' d = JStr (li_reason x)"
      "combined_field prev (list_obj x) ''description'' d = JStr (li_description x)"
      "combined_field prev (list_obj x) ''source_type'' d = JStr (li_source_type x)"
      "combined_field prev (list_obj x) ''source_url'' d = JStr (li_source_url x)"
      "combined_field prev (list_obj x) ''update_interval_hours'' d = JNum (li_update_interval_hours x)"
      "combined_field prev (list_obj x) ''enabled'' d = JBool (li_enabled x)"
      "combined_field prev (list_obj x) ''entries'' d = JStr (li_entries x)" for d
    by (simp_all add: combined_field_def has_own_def list_obj_def)
  have st: "(if JStr (li_source_type x) = JStr ''url''
      then rbind (validateSourceUrl lib ul (JStr (li_source_url x))) (\<lambda>_. Inr (str_of (JStr (li_source_url x)))) else Inr []) =
      Inr (li_source_url x)" "JStr (li_source_type x) = JStr ''manual'' \<or> JStr (li_source_type x) = JStr ''url''"
    using x by (auto simp: list_ok_def)
  have rec: "x = \<lparr>li_name = li_name x, li_reason = li_reason x, li_description = li_description x,
     li_source_type = li_source_type x, li_source_url = li_source_url x,
     li_update_interval_hours = li_update_interval_hours x, li_enabled = li_enabled x,
     li_entries = js_join [CHR 10] es, li_entry_count = length es\<rparr>"
    using es by (cases x) simp
  have x': "bounded_text (JStr (li_name x)) 255" "bounded_text (JStr (li_reason x)) 2000" "bounded_text (JStr (li_description x)) 4000"
     "js_trim (li_name x) \<noteq> []" "js_trim (li_reason x) \<noteq> []" "6 \<le> li_update_interval_hours x" "li_update_interval_hours x \<le> 168"
    using x by (simp_all add: list_ok_def)
  show ?thesis
    unfolding normalizeListInput_def Let_def vals st(1) p rbind_simps
    using x' st(2) by (simp add: rec [symmetric])
qed

text \<open>Firewall lists. An accepted list has a refresh interval of 6 to 168 hours, a nonblank name and reason, a source
  address only when it is a remote list, and counts its entries; a stored list within the size limit passes
  validation again unchanged, whatever it is merged with.\<close>

theorem normalizeListInput_normal_form:
  assumes "ip_lib_ok lib" and "normalizeListInput lib ul data prev = Inr x"
  shows "list_ok lib ul x \<and>
     (utf8_length (li_entries x) \<le> MAX_LIST_BYTES \<longrightarrow> normalizeListInput lib ul (list_obj x) prev' = Inr x)"
  using assms by (blast intro: list_input_ok list_input_fix)

definition input0 :: jsval where
  "input0 = JObj [(''name'', JStr ''Scanners''), (''reason'', JStr ''abuse''), (''entries'', JStr ''10.1.2.3/8'')]"

lemma input0_run: "\<exists>x. normalizeListInput ip0 ul0 input0 Null = Inr x \<and> li_entries x = ''10.0.0.0/8''"
proof -
  have l: "split_lines ''10.1.2.3/8'' = [''10.1.2.3/8'']" "utf8_length ''10.1.2.3/8'' = 10" by code_simp+
  have p: "parse_lines ip0 [''10.1.2.3/8''] =
      \<lparr>il_entries = [''10.0.0.0/8''], il_duplicates = 0, il_invalid = [], il_totalLines = 1\<rparr>" by code_simp
  have q: "parseIpList ip0 (JStr ''10.1.2.3/8'') = Inr (parse_lines ip0 [''10.1.2.3/8''])"
    unfolding parseIpList_def jsval.case l by (simp add: MAX_LIST_BYTES_def MAX_LIST_LINES_def)
  have t: "js_trim ''Scanners'' \<noteq> []" "js_trim ''abuse'' \<noteq> []" by code_simp+
  show ?thesis
    by (simp add: normalizeListInput_def combined_field_def has_own_def input0_def bounded_text_def Let_def js_keys_def t q p)
qed

theorem normalizeListInput_normal_form_witness:
  "\<exists>x. normalizeListInput ip0 ul0 input0 Null = Inr x \<and> list_ok ip0 ul0 x \<and>
     normalizeListInput ip0 ul0 (list_obj x) Null = Inr x"
proof -
  obtain x where x: "normalizeListInput ip0 ul0 input0 Null = Inr x" "li_entries x = ''10.0.0.0/8''" using input0_run by blast
  have "utf8_length ''10.0.0.0/8'' = 10" by code_simp
  with x(2) have "utf8_length (li_entries x) \<le> MAX_LIST_BYTES" by (simp add: MAX_LIST_BYTES_def)
  with normalizeListInput_normal_form [OF ip0_ok x(1)] x(1) show ?thesis by blast
qed

end
