(* ===== verification/Firewall_Preview.thy ===== *)
theory Firewall_Preview
  imports Firewall_Addresses
begin

text \<open>
  The preview of a rendered firewall configuration (\<open>backend/lib/firewall-preview.js\<close>): a line scanner that replaces the
  body of each generated address table by its size and digest, run over a whole text or over the chunks
  of a file.

  The scanner's object is the record \<open>scanner\<close>. Parameters: \<open>sha\<close> is the hexadecimal SHA-256 digest of a text
  (incremental hashing is the digest of the concatenated updates). A chunk is the decoded text of one read with the
  number of bytes read; the decoder's flush at the end of the file is the last chunk.
\<close>

definition MAX_PREVIEW_CONFIG_BYTES :: nat where
  "MAX_PREVIEW_CONFIG_BYTES = 2 * 1024 * 1024"

definition MAX_PREVIEW_RAW_CONFIG_BYTES :: nat where
  "MAX_PREVIEW_RAW_CONFIG_BYTES = 512 * 1024 * 1024"

definition preview_marker :: string where
  "preview_marker = ''# Host-specific IP firewall. All directives contain validated CIDRs or numeric rule identifiers.''"

definition preview_kinds :: "string list" where
  "preview_kinds = [''allow'', ''manual'', ''list'']"

type_synonym digest = "nat \<times> string"

record preview_table =
  pt_hashed :: string
  pt_count :: nat
  pt_defaultSeen :: bool

record scanner =
  sc_output :: "string list"
  sc_outputBytes :: nat
  sc_prefix :: bool
  sc_protectedPrefix :: bool
  sc_nextKind :: nat
  sc_table :: "preview_table option"

record preview_options =
  po_summaries :: "(string \<times> digest) list option"
  po_maxBytes :: nat

definition createSummarizer :: scanner where
  "createSummarizer = \<lparr>sc_output = [], sc_outputBytes = 0, sc_prefix = True, sc_protectedPrefix = False,
     sc_nextKind = 0, sc_table = None\<rparr>"

definition scan_append :: "preview_options \<Rightarrow> string \<Rightarrow> scanner \<Rightarrow> scanner result" where
  "scan_append opt line sc =
     (let n = sc_outputBytes sc + utf8_length line + 1 in
      if po_maxBytes opt < n then Inl (ValidationError ''Host configuration is too large for a preview'')
      else Inr (sc\<lparr>sc_outputBytes := n, sc_output := sc_output sc @ [line]\<rparr>))"

definition malformed :: err where
  "malformed = ConfigurationError ''Unable to summarize the host firewall configuration for preview''"

text \<open>\<open>/^([0-9a-fA-F:.]+(?:\/[0-9]{1,3})?)\s+([1-9][0-9]*)\s*;$/\<close>. Each class excludes the first character of what
  may follow it, so the longest run is the only match.\<close>

definition rule_match :: "string \<Rightarrow> (string \<times> string) option" where
  "rule_match s =
     (let a = takeWhile addr_char s; r1 = dropWhile addr_char s;
          p = (if r1 \<noteq> [] \<and> hd r1 = CHR ''/'' then takeWhile is_digit (tl r1) else []);
          sl = (r1 \<noteq> [] \<and> hd r1 = CHR ''/'');
          r2 = (if sl then dropWhile is_digit (tl r1) else r1);
          r3 = dropWhile is_ws r2; v = takeWhile is_digit r3; r4 = dropWhile is_ws (dropWhile is_digit r3)
      in if a \<noteq> [] \<and> (\<not> sl \<or> (p \<noteq> [] \<and> length p \<le> 3)) \<and> r3 \<noteq> r2 \<and> v \<noteq> [] \<and> hd v \<noteq> CHR ''0'' \<and> r4 = '';''
         then Some ((if sl then a @ ''/'' @ p else a), v) else None)"

definition rule_text :: "string \<times> string \<Rightarrow> string" where
  "rule_text r = fst r @ '' '' @ snd r @ '';'' @ [CHR 10]"

text \<open>A line inside a protected table.\<close>

definition scan_table ::
  "(string \<Rightarrow> string) \<Rightarrow> preview_options \<Rightarrow> string \<Rightarrow> preview_table \<Rightarrow> scanner \<Rightarrow> scanner result" where
  "scan_table sha opt line t sc =
     (let trimmed = js_trim line in
      if trimmed = [] \<or> starts_with trimmed ''#'' then Inr sc
      else if trimmed = ''default 0;'' then
        (if pt_defaultSeen t \<or> pt_count t \<noteq> 0 then Inl malformed
         else Inr (sc\<lparr>sc_table := Some (t\<lparr>pt_defaultSeen := True\<rparr>)\<rparr>))
      else if trimmed = ''}'' then
        (if \<not> pt_defaultSeen t then Inl malformed
         else
           (let dg = (pt_count t, sha (pt_hashed t));
                summary = (case po_summaries opt of
                             None \<Rightarrow> dg
                           | Some m \<Rightarrow> (case map_of m (preview_kinds ! sc_nextKind sc) of None \<Rightarrow> dg | Some d \<Rightarrow> d))
            in if po_summaries opt \<noteq> None \<and> pt_count t \<noteq> 0 then Inl malformed
               else
                 rbind (scan_append opt ''    default 0;'' sc) (\<lambda>sc.
                 rbind (scan_append opt (''    # Preview: '' @ nat_str (fst summary) @ '' rules; SHA-256 '' @ snd summary @ ''. CIDRs omitted.'') sc) (\<lambda>sc.
                 rbind (scan_append opt line sc) (\<lambda>sc.
                 Inr (sc\<lparr>sc_table := None, sc_nextKind := Suc (sc_nextKind sc)\<rparr>))))))
      else
        (case (if pt_defaultSeen t then rule_match trimmed else None) of
           None \<Rightarrow> Inl malformed
         | Some r \<Rightarrow> Inr (sc\<lparr>sc_table := Some (t\<lparr>pt_hashed := pt_hashed t @ rule_text r, pt_count := Suc (pt_count t)\<rparr>)\<rparr>)))"

definition is_server_line :: "string \<Rightarrow> bool" where
  "is_server_line s \<longleftrightarrow> starts_with s ''server'' \<and> starts_with (dropWhile is_ws (drop 6 s)) ''{''"

definition scan_line ::
  "(string \<Rightarrow> string) \<Rightarrow> nat \<Rightarrow> preview_options \<Rightarrow> string \<Rightarrow> scanner \<Rightarrow> scanner result" where
  "scan_line sha i opt line sc =
     (case sc_table sc of
        Some t \<Rightarrow> scan_table sha opt line t sc
      | None \<Rightarrow>
          (let trimmed = js_trim line in
           rbind
             (if sc_prefix sc \<and> \<not> sc_protectedPrefix sc \<and> trimmed = preview_marker
              then Inr (sc\<lparr>sc_protectedPrefix := True\<rparr>)
              else if sc_prefix sc \<and> sc_protectedPrefix sc \<and> sc_nextKind sc < length preview_kinds \<and>
                      trimmed \<noteq> [] \<and> \<not> starts_with trimmed ''#''
              then (if trimmed \<noteq> ''geo $spm_fw_'' @ nat_str i @ ''_'' @ preview_kinds ! sc_nextKind sc @ '' {''
                    then Inl malformed
                    else Inr (sc\<lparr>sc_table := Some \<lparr>pt_hashed = [], pt_count = 0, pt_defaultSeen = False\<rparr>\<rparr>))
              else Inr sc) (\<lambda>sc.
           scan_append opt line (if is_server_line trimmed then sc\<lparr>sc_prefix := False\<rparr> else sc))))"

definition scan_finish :: "scanner \<Rightarrow> (string \<times> bool) result" where
  "scan_finish sc =
     (if sc_table sc \<noteq> None \<or> (sc_protectedPrefix sc \<and> sc_nextKind sc \<noteq> length preview_kinds) then Inl malformed
      else Inr (js_join [CHR 10] (sc_output sc), sc_protectedPrefix sc))"

text \<open>\<open>replace(/\r$/, "")\<close> and \<open>split(/\r?\n/)\<close>\<close>

definition drop_cr :: "string \<Rightarrow> string" where
  "drop_cr s = (if s \<noteq> [] \<and> last s = CHR 13 then butlast s else s)"

definition config_lines :: "string \<Rightarrow> string list" where
  "config_lines s = (let ls = split_char (CHR 10) s in map drop_cr (butlast ls) @ [last ls])"

definition summarizeFirewallPreviewConfig ::
  "(string \<Rightarrow> string) \<Rightarrow> nat \<Rightarrow> preview_options \<Rightarrow> string \<Rightarrow> (string \<times> bool) result" where
  "summarizeFirewallPreviewConfig sha i opt s =
     rbind (rfold (scan_line sha i opt) (config_lines s) createSummarizer) scan_finish"

section \<open>Reading in chunks\<close>

definition default_options :: preview_options where
  "default_options = \<lparr>po_summaries = None, po_maxBytes = MAX_PREVIEW_CONFIG_BYTES\<rparr>"

text \<open>\<open>consume\<close>: every complete line of the pending text is scanned, the rest stays pending.\<close>

definition consume ::
  "(string \<Rightarrow> string) \<Rightarrow> nat \<Rightarrow> string \<Rightarrow> string \<times> scanner \<Rightarrow> (string \<times> scanner) result" where
  "consume sha i chunk ps =
     (let ls = split_char (CHR 10) (fst ps @ chunk) in
      rbind (rfold (\<lambda>l. scan_line sha i default_options (drop_cr l)) (butlast ls) (snd ps)) (\<lambda>sc.
      if MAX_PREVIEW_CONFIG_BYTES < utf8_length (last ls)
      then Inl (ValidationError ''Host configuration is too large for a preview'')
      else Inr (last ls, sc)))"

fun read_chunks ::
  "(string \<Rightarrow> string) \<Rightarrow> nat \<Rightarrow> (nat \<times> string) list \<Rightarrow> nat \<Rightarrow> string \<times> scanner \<Rightarrow> (string \<times> scanner) result" where
  "read_chunks sha i [] bytes ps = Inr ps"
| "read_chunks sha i ((bytesRead, chunk) # chunks) bytes ps =
     (let bytes = bytes + bytesRead in
      if MAX_PREVIEW_RAW_CONFIG_BYTES < bytes
      then Inl (ValidationError ''Active host configuration is too large for a preview'')
      else rbind (consume sha i chunk ps) (read_chunks sha i chunks bytes))"

definition readFirewallPreviewConfig ::
  "(string \<Rightarrow> string) \<Rightarrow> nat \<Rightarrow> (nat \<times> string) list \<Rightarrow> string \<Rightarrow> (string \<times> bool) result" where
  "readFirewallPreviewConfig sha i chunks flush =
     rbind (read_chunks sha i chunks 0 ([], createSummarizer)) (\<lambda>ps.
     rbind (consume sha i flush ps) (\<lambda>(pending, sc).
     rbind (scan_line sha i default_options (drop_cr pending) sc) scan_finish))"

section \<open>Chunks and lines\<close>

definition scan_lines :: "(string \<Rightarrow> string) \<Rightarrow> nat \<Rightarrow> string list \<Rightarrow> scanner result" where
  "scan_lines sha i ls = rfold (\<lambda>l. scan_line sha i default_options (drop_cr l)) ls createSummarizer"

lemma consume_eq:
  assumes "scan_lines sha i (butlast (split_char (CHR 10) t)) = Inr sc"
  shows "consume sha i chunk (last (split_char (CHR 10) t), sc) =
     rbind (scan_lines sha i (butlast (split_char (CHR 10) (t @ chunk)))) (\<lambda>sc'.
       if MAX_PREVIEW_CONFIG_BYTES < utf8_length (last (split_char (CHR 10) (t @ chunk)))
       then Inl (ValidationError ''Host configuration is too large for a preview'')
       else Inr (last (split_char (CHR 10) (t @ chunk)), sc'))"
proof -
  let ?ls = "split_char (CHR 10) (last (split_char (CHR 10) t) @ chunk)"
  have "split_char (CHR 10) (t @ chunk) = butlast (split_char (CHR 10) t) @ ?ls" by (rule split_char_concat)
  then have e: "butlast (split_char (CHR 10) (t @ chunk)) = butlast (split_char (CHR 10) t) @ butlast ?ls"
    "last (split_char (CHR 10) (t @ chunk)) = last ?ls"
    by (simp_all add: butlast_append)
  show ?thesis using assms
    unfolding consume_def Let_def e scan_lines_def rfold_append fst_conv snd_conv by (simp add: rbind_assoc)
qed

lemma read_chunks_Inr:
  assumes "scan_lines sha i (butlast (split_char (CHR 10) t)) = Inr sc"
    and "read_chunks sha i chunks b (last (split_char (CHR 10) t), sc) = Inr ps"
  shows "scan_lines sha i (butlast (split_char (CHR 10) (t @ concat (map snd chunks)))) = Inr (snd ps) \<and>
     fst ps = last (split_char (CHR 10) (t @ concat (map snd chunks)))"
  using assms
proof (induction chunks arbitrary: t sc b)
  case Nil
  then show ?case by auto
next
  case (Cons c chunks)
  obtain n chunk where c: "c = (n, chunk)" by (cases c)
  from Cons.prems(2) obtain p' s' where q: "consume sha i chunk (last (split_char (CHR 10) t), sc) = Inr (p', s')"
    and r: "read_chunks sha i chunks (b + n) (p', s') = Inr ps"
    by (auto simp: c Let_def res_simps split: if_splits)
  from q [unfolded consume_eq [OF Cons.prems(1)]]
  have "scan_lines sha i (butlast (split_char (CHR 10) (t @ chunk))) = Inr s'"
    "p' = last (split_char (CHR 10) (t @ chunk))"
    by (auto simp: res_simps split: if_splits)
  with r Cons.IH [of "t @ chunk" s' "b + n"] show ?case by (simp add: c)
qed

lemma drop_cr_last:
  "t = [] \<or> last t \<noteq> CHR 13 \<Longrightarrow> drop_cr (last (split_char (CHR 10) t)) = last (split_char (CHR 10) t)"
proof -
  assume t: "t = [] \<or> last t \<noteq> CHR 13"
  have "last (split_char (CHR 10) t) = [] \<or> last (last (split_char (CHR 10) t)) = last t"
    by (induction t) (auto simp: split_char_single_Nil split: list.splits if_splits)
  with t show ?thesis by (cases "t = []") (auto simp: drop_cr_def)
qed

lemma config_lines_scan:
  assumes "t = [] \<or> last t \<noteq> CHR 13"
  shows "rfold (scan_line sha i default_options) (config_lines t) sc =
     rfold (\<lambda>l. scan_line sha i default_options (drop_cr l)) (split_char (CHR 10) t) sc"
proof -
  have m: "rfold f (map g ls) sc = rfold (\<lambda>l. f (g l)) ls sc" for f :: "string \<Rightarrow> scanner \<Rightarrow> scanner result" and g ls sc
    by (induction ls arbitrary: sc) (auto intro!: rbind_cong)
  have "config_lines t = map drop_cr (split_char (CHR 10) t)"
    unfolding config_lines_def Let_def using drop_cr_last [OF assms]
    by (metis append_butlast_last_id list.map(1,2) map_append split_char_nonempty)
  then show ?thesis by (simp add: m)
qed

text \<open>Streaming agrees with the whole text. When reading a configuration file in chunks succeeds, however the file was
  split into chunks, the result is the one for the complete text at once (for a text that does not end in
  a lone carriage return).\<close>

theorem chunked_preview_agrees:
  assumes r: "readFirewallPreviewConfig sha i chunks flush = Inr out"
    and t: "t = concat (map snd chunks) @ flush" and cr: "t = [] \<or> last t \<noteq> CHR 13"
  shows "summarizeFirewallPreviewConfig sha i default_options t = Inr out"
proof -
  let ?ls = "split_char (CHR 10) t"
  from r obtain pp ss qs where ps: "read_chunks sha i chunks 0 ([], createSummarizer) = Inr (pp, ss)"
    and qs: "consume sha i flush (pp, ss) = Inr qs"
    and f: "rbind (scan_line sha i default_options (drop_cr (fst qs)) (snd qs)) scan_finish = Inr out"
    by (auto simp: readFirewallPreviewConfig_def res_simps split: prod.splits)
  have "scan_lines sha i (butlast (split_char (CHR 10) [])) = Inr createSummarizer" by (simp add: scan_lines_def)
  from read_chunks_Inr [OF this, of chunks 0 "(pp, ss)"] ps
  have c: "scan_lines sha i (butlast (split_char (CHR 10) (concat (map snd chunks)))) = Inr ss"
    and p: "pp = last (split_char (CHR 10) (concat (map snd chunks)))"
    by auto
  from qs [unfolded p consume_eq [OF c]]
  have s: "scan_lines sha i (butlast ?ls) = Inr (snd qs)" "fst qs = last ?ls"
    by (auto simp: res_simps t split: if_splits)
  have "rfold (\<lambda>l. scan_line sha i default_options (drop_cr l)) ?ls createSummarizer =
      rbind (scan_lines sha i (butlast ?ls)) (scan_line sha i default_options (drop_cr (last ?ls)))"
    using rfold_append [of "\<lambda>l. scan_line sha i default_options (drop_cr l)" "butlast ?ls" "[last ?ls]"]
    by (simp add: scan_lines_def rfold_single)
  with f s show ?thesis
    by (simp add: summarizeFirewallPreviewConfig_def config_lines_scan [OF cr])
qed

section \<open>What a preview shows\<close>

lemma scan_rules:
  assumes "sc_table sc = Some t" and "pt_defaultSeen t"
    and "\<forall>l \<in> set ls. rule_match (js_trim l) \<noteq> None"
  shows "rfold (scan_line sha i opt) ls sc =
     Inr (sc\<lparr>sc_table := Some (t\<lparr>pt_hashed := pt_hashed t @ concat (map (\<lambda>l. rule_text (the (rule_match (js_trim l)))) ls),
       pt_count := pt_count t + length ls\<rparr>)\<rparr>)"
  using assms
proof (induction ls arbitrary: sc t)
  case Nil
  then show ?case by (cases sc; cases t) simp
next
  case (Cons l ls)
  from Cons.prems(3) obtain r where r: "rule_match (js_trim l) = Some r" by auto
  have no: "js_trim l \<noteq> []" "\<not> starts_with (js_trim l) ''#''" "js_trim l \<noteq> ''default 0;''" "js_trim l \<noteq> ''}''"
  proof -
    have "rule_match [] = None" "rule_match ''default 0;'' = None" "rule_match ''}'' = None" by code_simp+
    with r show "js_trim l \<noteq> []" "js_trim l \<noteq> ''default 0;''" "js_trim l \<noteq> ''}''" by auto
    have "\<not> addr_char (CHR ''#'')" by code_simp
    then have "rule_match (CHR ''#'' # s) = None" for s by (simp add: rule_match_def Let_def)
    with r show "\<not> starts_with (js_trim l) ''#''" by (cases "js_trim l") (auto simp: starts_with_def)
  qed
  have "scan_line sha i opt l sc = Inr (sc\<lparr>sc_table := Some (t\<lparr>pt_hashed := pt_hashed t @ rule_text r, pt_count := Suc (pt_count t)\<rparr>)\<rparr>)"
    using Cons.prems(1,2) no r by (simp add: scan_line_def scan_table_def Let_def)
  then show ?case using Cons.IH [of "sc\<lparr>sc_table := Some (t\<lparr>pt_hashed := pt_hashed t @ rule_text r, pt_count := Suc (pt_count t)\<rparr>)\<rparr>"
      "t\<lparr>pt_hashed := pt_hashed t @ rule_text r, pt_count := Suc (pt_count t)\<rparr>"] Cons.prems r by simp
qed

lemma scan_append_table:
  "scan_append opt l (sc\<lparr>sc_table := t\<rparr>) = rbind (scan_append opt l sc) (\<lambda>sc'. Inr (sc'\<lparr>sc_table := t\<rparr>))"
  by (simp add: scan_append_def Let_def)

lemma scan_close:
  assumes "js_trim l = ''}''" and "pt_defaultSeen t" and "pt_defaultSeen t'" and "pt_count t = pt_count t'" and "sha (pt_hashed t) = sha (pt_hashed t')"
  shows "scan_line sha i opt l (sc\<lparr>sc_table := Some t\<rparr>) = scan_line sha i opt l (sc\<lparr>sc_table := Some t'\<rparr>)"
proof -
  have n: "''}'' \<noteq> []" "\<not> starts_with ''}'' ''#''" "''}'' \<noteq> ''default 0;''" by code_simp+
  have "scan_table sha opt l t (sc\<lparr>sc_table := Some t\<rparr>) = scan_table sha opt l t' (sc\<lparr>sc_table := Some t'\<rparr>)"
    unfolding scan_table_def Let_def assms(1,4,5) using n assms(2,3)
    by (cases "po_summaries opt") (simp_all add: scan_append_table rbind_assoc)
  then show ?thesis by (simp add: scan_line_def)
qed

text \<open>A preview reveals of a table only its size and digest. Two configurations that differ only in the rules of a
  protected table, with as many rules and the same digest, have the same preview or the same error.\<close>

theorem preview_hides_rules:
  assumes pre: "rfold (scan_line sha i opt) pre createSummarizer = Inr sc" "sc_table sc = Some t" "pt_defaultSeen t"
    and rules: "\<forall>l \<in> set ls. rule_match (js_trim l) \<noteq> None" "\<forall>l \<in> set ls'. rule_match (js_trim l) \<noteq> None"
    and same: "length ls = length ls'"
      "sha (pt_hashed t @ concat (map (\<lambda>l. rule_text (the (rule_match (js_trim l)))) ls)) =
       sha (pt_hashed t @ concat (map (\<lambda>l. rule_text (the (rule_match (js_trim l)))) ls'))"
    and close: "js_trim l = ''}''"
  shows "rbind (rfold (scan_line sha i opt) (pre @ ls @ l # post) createSummarizer) scan_finish =
         rbind (rfold (scan_line sha i opt) (pre @ ls' @ l # post) createSummarizer) scan_finish"
proof -
  define T where "T ls = t\<lparr>pt_hashed := pt_hashed t @ concat (map (\<lambda>l. rule_text (the (rule_match (js_trim l)))) ls),
       pt_count := pt_count t + length ls\<rparr>" for ls
  have "scan_line sha i opt l (sc\<lparr>sc_table := Some (T ls)\<rparr>) = scan_line sha i opt l (sc\<lparr>sc_table := Some (T ls')\<rparr>)"
    by (rule scan_close [OF close]) (use pre same in \<open>simp_all add: T_def\<close>)
  then show ?thesis
    using scan_rules [OF pre(2,3) rules(1), of sha i opt] scan_rules [OF pre(2,3) rules(2), of sha i opt]
    by (simp add: rfold_append pre(1) T_def)
qed

text \<open>The bytes of the output are counted as it grows.\<close>

definition out_ok :: "preview_options \<Rightarrow> scanner \<Rightarrow> bool" where
  "out_ok opt sc \<longleftrightarrow> sc_outputBytes sc = sum_list (map (\<lambda>l. utf8_length l + 1) (sc_output sc)) \<and>
     (sc_output sc \<noteq> [] \<longrightarrow> sc_outputBytes sc \<le> po_maxBytes opt)"

lemma scan_append_ok: "scan_append opt l sc = Inr sc' \<Longrightarrow> out_ok opt sc \<longrightarrow> out_ok opt sc'"
  by (auto simp: scan_append_def out_ok_def Let_def split: if_splits)

lemma out_ok_fields [simp]:
  "out_ok opt (sc\<lparr>sc_table := t\<rparr>) = out_ok opt sc" "out_ok opt (sc\<lparr>sc_prefix := b\<rparr>) = out_ok opt sc"
  "out_ok opt (sc\<lparr>sc_protectedPrefix := b\<rparr>) = out_ok opt sc" "out_ok opt (sc\<lparr>sc_nextKind := n\<rparr>) = out_ok opt sc"
  by (simp_all add: out_ok_def)

lemma scan_line_ok: "out_ok opt sc \<Longrightarrow> scan_line sha i opt l sc = Inr sc' \<Longrightarrow> out_ok opt sc'"
proof -
  assume ok: "out_ok opt sc" and s: "scan_line sha i opt l sc = Inr sc'"
  show ?thesis
  proof (cases "sc_table sc")
    case None
    with s ok show ?thesis
      by (auto simp: scan_line_def Let_def res_simps split: if_splits dest!: scan_append_ok)
  next
    case (Some t)
    with s have "scan_table sha opt l t sc = Inr sc'" by (simp add: scan_line_def)
    then show ?thesis using ok
      by (auto simp: scan_table_def Let_def res_simps split: if_splits option.splits dest!: scan_append_ok)
  qed
qed

lemma utf8_length_join:
  "xs \<noteq> [] \<Longrightarrow> utf8_length (js_join [CHR 10] xs) + 1 = sum_list (map (\<lambda>l. utf8_length l + 1) xs)"
proof (induction "[CHR 10]" xs rule: js_join.induct)
  case (3 x y ys)
  have "code (CHR 10) < 128" by code_simp
  with 3 show ?case by (simp add: utf8_length_Cons)
qed simp_all

text \<open>A preview never exceeds its limit: the configuration it returns has at most the permitted number of bytes.\<close>

theorem preview_bounded:
  assumes "summarizeFirewallPreviewConfig sha i opt s = Inr (config, protected)"
  shows "utf8_length config \<le> po_maxBytes opt"
proof -
  from assms obtain sc where sc: "rfold (scan_line sha i opt) (config_lines s) createSummarizer = Inr sc"
    and c: "config = js_join [CHR 10] (sc_output sc)"
    by (auto simp: summarizeFirewallPreviewConfig_def scan_finish_def res_simps split: if_splits)
  have "out_ok opt createSummarizer" by (simp add: out_ok_def createSummarizer_def)
  with sc have "out_ok opt sc" by (rule rfold_inv) (rule scan_line_ok)
  then show ?thesis using utf8_length_join [of "sc_output sc"] by (cases "sc_output sc = []") (auto simp: c out_ok_def)
qed

section \<open>Witnesses\<close>

definition cfg0 :: "string \<Rightarrow> string list" where
  "cfg0 a = [preview_marker, ''geo $spm_fw_5_allow {'', ''default 0;'', a @ '' 1;'', ''}'',
     ''geo $spm_fw_5_manual {'', ''default 0;'', ''}'', ''geo $spm_fw_5_list {'', ''default 0;'', ''}'', ''server {'']"

definition small :: preview_options where
  "small = \<lparr>po_summaries = None, po_maxBytes = 500\<rparr>"

theorem preview_bounded_witness:
  "\<exists>c p. summarizeFirewallPreviewConfig rev 5 small (js_join [CHR 10] (cfg0 ''10.0.0.1'')) = Inr (c, p) \<and> utf8_length c \<le> 500"
proof -
  have "(case summarizeFirewallPreviewConfig rev 5 small (js_join [CHR 10] (cfg0 ''10.0.0.1'')) of Inr _ \<Rightarrow> True | Inl _ \<Rightarrow> False)"
    by code_simp
  then obtain c p where "summarizeFirewallPreviewConfig rev 5 small (js_join [CHR 10] (cfg0 ''10.0.0.1'')) = Inr (c, p)"
    by (auto split: sum.splits)
  from preview_bounded [OF this] this show ?thesis by (auto simp: small_def)
qed

theorem preview_hides_rules_witness:
  "rbind (rfold (scan_line (\<lambda>_. ''digest'') 5 small) (cfg0 ''10.0.0.1'') createSummarizer) scan_finish =
   rbind (rfold (scan_line (\<lambda>_. ''digest'') 5 small) (cfg0 ''10.9.9.9/32'') createSummarizer) scan_finish"
proof -
  let ?sha = "\<lambda>_ :: string. ''digest''"
  let ?pre = "[preview_marker, ''geo $spm_fw_5_allow {'', ''default 0;'']"
  let ?post = "[''geo $spm_fw_5_manual {'', ''default 0;'', ''}'', ''geo $spm_fw_5_list {'', ''default 0;'', ''}'', ''server {'']"
  have "(case rfold (scan_line ?sha 5 small) ?pre createSummarizer of Inl _ \<Rightarrow> False
      | Inr sc \<Rightarrow> (case sc_table sc of None \<Rightarrow> False | Some t \<Rightarrow> pt_defaultSeen t))" by code_simp
  then obtain sc t where p: "rfold (scan_line ?sha 5 small) ?pre createSummarizer = Inr sc" "sc_table sc = Some t" "pt_defaultSeen t"
    by (auto split: sum.splits option.splits)
  have m: "\<forall>l \<in> set [''10.0.0.1 1;'']. rule_match (js_trim l) \<noteq> None" "\<forall>l \<in> set [''10.9.9.9/32 1;'']. rule_match (js_trim l) \<noteq> None"
      "js_trim ''}'' = ''}''"
    by code_simp+
  from preview_hides_rules [OF p m(1,2) _ refl m(3), of ?post] show ?thesis by (simp add: cfg0_def)
qed

lemma chunk_run:
  "(case readFirewallPreviewConfig rev 5 [(2, ''a'' @ [CHR 10])] ''b'' of Inr _ \<Rightarrow> True | Inl _ \<Rightarrow> False)"
  by (simp add: readFirewallPreviewConfig_def consume_def Let_def scan_line_def scan_append_def default_options_def
      MAX_PREVIEW_CONFIG_BYTES_def MAX_PREVIEW_RAW_CONFIG_BYTES_def createSummarizer_def drop_cr_def scan_finish_def
      is_server_line_def starts_with_def preview_marker_def js_trim_def is_ws_def code_between_def code_def utf8_length_def)

theorem chunked_preview_agrees_witness:
  "\<exists>out. readFirewallPreviewConfig rev 5 [(2, ''a'' @ [CHR 10])] ''b'' = Inr out \<and>
     summarizeFirewallPreviewConfig rev 5 default_options (''a'' @ [CHR 10] @ ''b'') = Inr out"
proof -
  obtain out where o: "readFirewallPreviewConfig rev 5 [(2, ''a'' @ [CHR 10])] ''b'' = Inr out"
    using chunk_run by (auto split: sum.splits)
  from chunked_preview_agrees [OF o, of "''a'' @ [CHR 10] @ ''b''"] o show ?thesis by simp
qed

end
