(* ===== verification/Firewall_Render.thy ===== *)
theory Firewall_Render
  imports Firewall_Policy_Props Firewall_Preview
begin

text \<open>
  Compiling a host's firewall policy into the tables of its configuration (\<open>backend/lib/firewall-render.js\<close>) and
  the compact form of a compiled policy that a preview renders (\<open>backend/lib/firewall-preview.js\<close>).

  The policy of a host is read in the normal form of \<open>Firewall_Policy\<close>, as the services store it. A JavaScript
  map is the list of its entries in insertion order. Parameters: the text of the page template, and the SHA-256
  digest of a text (incremental hashing is the digest of the concatenated updates).
\<close>

section \<open>Compilation\<close>

record fw_detail =
  fd_id :: nat
  fd_reason :: string
  fd_source :: string
  fd_source_type :: string

record fw_list =
  fl_id :: int
  fl_name :: string
  fl_reason :: string
  fl_entries :: "string list"

record fw_host =
  fh_id :: jsval
  fh_enabled :: bool
  fh_is_deleted :: bool
  fh_policy :: "fw_policy option"

record fw_compile =
  rs_details :: "fw_detail list"
  rs_ruleIds :: "(string \<times> nat) list"

type_synonym fw_table = "(string \<times> nat) list"

record fw_render =
  fr_id :: int
  fr_allow_rules :: fw_table
  fr_manual_rules :: fw_table
  fr_list_rules :: fw_table
  fr_has_country_rules :: bool
  fr_has_country_info :: bool
  fr_has_asn_rules :: bool
  fr_has_asn_info :: bool
  fr_known_country_codes :: "string list"
  fr_asn_rules :: "(int \<times> nat) list"
  fr_country_rules :: "(string \<times> nat) list"
  fr_details :: "fw_detail list"
  fr_public_message :: string
  fr_support_url :: string
  fr_page :: string

definition new_detail :: "string \<Rightarrow> string \<Rightarrow> string \<Rightarrow> fw_detail list \<Rightarrow> fw_detail list" where
  "new_detail reason source sourceType details = details @
     [\<lparr>fd_id = length details + 1, fd_reason = reason, fd_source = source, fd_source_type = sourceType\<rparr>]"

definition addRule ::
  "ip_lib \<Rightarrow> string \<Rightarrow> string \<Rightarrow> string \<Rightarrow> string \<Rightarrow> int \<Rightarrow> fw_table \<times> fw_compile \<Rightarrow> (fw_table \<times> fw_compile) result" where
  "addRule lib address reason source sourceType sourceId ts =
     (case ts of (target, st) \<Rightarrow>
        rbind (networkKey lib (JStr address)) (\<lambda>key.
          if key \<in> fst ` set target then Inr (target, st)
          else
            (let identity = (if sourceType = ''list'' then ''list:'' @ int_str sourceId else ''manual:'' @ key)
             in case map_of (rs_ruleIds st) identity of
                  Some ruleId \<Rightarrow> Inr (target @ [(key, ruleId)], st)
                | None \<Rightarrow>
                    (let ruleId = length (rs_details st) + 1
                     in Inr (target @ [(key, ruleId)],
                             st\<lparr>rs_details := new_detail reason source sourceType (rs_details st),
                                rs_ruleIds := rs_ruleIds st @ [(identity, ruleId)]\<rparr>)))))"

definition add_list :: "ip_lib \<Rightarrow> fw_list list \<Rightarrow> int \<Rightarrow> fw_table \<times> fw_compile \<Rightarrow> (fw_table \<times> fw_compile) result" where
  "add_list lib ls listId ts =
     (case List.find (\<lambda>l. fl_id l = listId) (rev ls) of
        None \<Rightarrow> Inr ts
      | Some l \<Rightarrow> rfold (\<lambda>address. addRule lib address (fl_reason l) (fl_name l) ''list'' (fl_id l)) (fl_entries l) ts)"

definition add_asn ::
  "int \<times> string \<Rightarrow> (int \<times> nat) list \<times> fw_detail list \<Rightarrow> ((int \<times> nat) list \<times> fw_detail list) result" where
  "add_asn rule ad =
     (if fst rule < 1 \<or> 4294967295 < fst rule
      then Inl (ValidationError ''Firewall ASN rules require an integer from 1 to 4294967295'')
      else if fst rule \<in> fst ` set (fst ad) then Inr ad
      else Inr (fst ad @ [(fst rule, length (snd ad) + 1)], new_detail (snd rule) [] ''asn'' (snd ad)))"

definition buildFirewallRender ::
  "ip_lib \<Rightarrow> string \<Rightarrow> fw_host \<Rightarrow> fw_list list \<Rightarrow> (bool \<times> bool) option \<Rightarrow> fw_render option result" where
  "buildFirewallRender lib page host ls capabilities =
     (case fh_policy host of
        None \<Rightarrow> Inr None
      | Some policy \<Rightarrow>
        if \<not> fh_enabled host \<or> fh_is_deleted host \<or> \<not> fp_enabled policy then Inr None
        else
        rbind (rmap (\<lambda>a. networkKey lib (JStr a)) (fp_allowlist policy)) (\<lambda>allow.
        rbind (rfold (\<lambda>r. addRule lib (fst r) (snd r) [] ''manual'' 0) (fp_denylist policy)
                 ([], \<lparr>rs_details = [], rs_ruleIds = []\<rparr>)) (\<lambda>(manual, st).
        rbind (rfold (add_list lib ls) (fp_list_ids policy) ([], st)) (\<lambda>(subscribed, st).
        let hasCountryRules = (fp_country_denylist policy \<noteq> [] \<or> fp_block_unknown_country policy);
            hasAsnRules = (fp_asn_denylist policy \<noteq> []);
            hasCountryInfo = (case capabilities of Some c \<Rightarrow> fst c | None \<Rightarrow> hasCountryRules);
            hasAsnInfo = (case capabilities of Some c \<Rightarrow> snd c | None \<Rightarrow> hasAsnRules) in
        rbind (rguard (\<not> hasCountryRules \<or> hasCountryInfo)
                 (ValidationError ''Country filtering requires an available country lookup'')) (\<lambda>_.
        rbind (rguard (\<not> hasAsnRules \<or> hasAsnInfo)
                 (ValidationError ''ASN filtering requires an available ASN lookup'')) (\<lambda>_.
        rbind (rfold add_asn (fp_asn_denylist policy) ([], rs_details st)) (\<lambda>(asnRules, d1).
        let d2 = (if fp_country_denylist policy \<noteq> [] then new_detail (fp_country_reason policy) [] ''country'' d1 else d1);
            c2 = map (\<lambda>code. (code, length d1 + 1)) (fp_country_denylist policy);
            d3 = (if fp_block_unknown_country policy
                  then new_detail (fp_country_reason policy) [] ''country_unknown'' d2 else d2);
            c3 = (if fp_block_unknown_country policy then [(''XX'', length d2 + 1)] else [])
        in Inr (Some
          \<lparr>fr_id = (if is_safe_integer (fh_id host) \<and> 0 \<le> int_of (fh_id host) then int_of (fh_id host) else 0),
           fr_allow_rules = map (\<lambda>k. (k, 1)) (dedup allow), fr_manual_rules = manual, fr_list_rules = subscribed,
           fr_has_country_rules = hasCountryRules, fr_has_country_info = hasCountryInfo,
           fr_has_asn_rules = hasAsnRules, fr_has_asn_info = hasAsnInfo,
           fr_known_country_codes = (if hasCountryInfo then FIREWALL_COUNTRY_CODES else []),
           fr_asn_rules = asnRules, fr_country_rules = c2 @ c3, fr_details = d3,
           fr_public_message = fp_public_message policy, fr_support_url = fp_support_url policy,
           fr_page = page\<rparr>))))))))"

section \<open>Rule references\<close>

definition details_ok :: "fw_detail list \<Rightarrow> bool" where
  "details_ok ds \<longleftrightarrow> map fd_id ds = [1 ..< Suc (length ds)]"

definition resolves :: "string \<Rightarrow> fw_detail list \<Rightarrow> nat \<Rightarrow> bool" where
  "resolves ty ds v \<longleftrightarrow> 1 \<le> v \<and> v \<le> length ds \<and> fd_id (ds ! (v - 1)) = v \<and> fd_source_type (ds ! (v - 1)) = ty"

lemma details_ok_new: "details_ok ds \<Longrightarrow> details_ok (new_detail r s t ds)"
  by (simp add: details_ok_def new_detail_def)

lemma resolves_new: "resolves ty ds v \<Longrightarrow> resolves ty (new_detail r s t ds) v"
  by (auto simp: resolves_def new_detail_def nth_append)

lemma resolves_last: "resolves t (new_detail r s t ds) (Suc (length ds))"
  by (simp add: resolves_def new_detail_def nth_append)

text \<open>While rules are added: identifiers are consecutive, and an identity's rule has the identity's type.\<close>

definition compile_ok :: "fw_compile \<Rightarrow> bool" where
  "compile_ok st \<longleftrightarrow> details_ok (rs_details st) \<and>
     (\<forall>iv \<in> set (rs_ruleIds st).
        (starts_with (fst iv) ''list:'' \<and> resolves ''list'' (rs_details st) (snd iv)) \<or>
        (starts_with (fst iv) ''manual:'' \<and> resolves ''manual'' (rs_details st) (snd iv)))"

definition table_ok :: "string \<Rightarrow> fw_table \<times> fw_compile \<Rightarrow> bool" where
  "table_ok ty ts \<longleftrightarrow> compile_ok (snd ts) \<and> distinct (map fst (fst ts)) \<and>
     (\<forall>kv \<in> set (fst ts). resolves ty (rs_details (snd ts)) (snd kv))"

lemma starts_with_disjoint: "starts_with s ''list:'' \<Longrightarrow> \<not> starts_with s ''manual:''"
  by (cases s) (auto simp: starts_with_def)

lemma addRule_details:
  "addRule lib a r s ty i (t, st) = Inr (t', st') \<Longrightarrow> resolves ty' (rs_details st) v \<Longrightarrow> resolves ty' (rs_details st') v"
  by (auto simp: addRule_def res_simps Let_def resolves_new split: if_splits option.splits)

lemma addRule_ok:
  assumes inv: "table_ok ty (t, st)" and ty: "ty = ''list'' \<or> ty = ''manual''"
    and a: "addRule lib a r s ty i (t, st) = Inr (t', st')"
  shows "table_ok ty (t', st')"
proof -
  from a obtain key where k: "networkKey lib (JStr a) = Inr key" by (auto simp: addRule_def res_simps)
  define identity where "identity = (if ty = ''list'' then ''list:'' @ int_str i else ''manual:'' @ key)"
  have pre: "starts_with identity ''list:'' \<and> ty = ''list'' \<or> starts_with identity ''manual:'' \<and> ty = ''manual''"
    using ty by (auto simp: identity_def starts_with_def)
  note A = a [unfolded addRule_def prod.case k rbind_simps Let_def, folded identity_def]
  consider (same) "key \<in> fst ` set t" "t' = t" "st' = st"
    | (known) v where "key \<notin> fst ` set t" "map_of (rs_ruleIds st) identity = Some v" "t' = t @ [(key, v)]" "st' = st"
    | (fresh) "key \<notin> fst ` set t" "t' = t @ [(key, Suc (length (rs_details st)))]"
        "st' = st\<lparr>rs_details := new_detail r s ty (rs_details st), rs_ruleIds := rs_ruleIds st @ [(identity, Suc (length (rs_details st)))]\<rparr>"
  proof (cases "key \<in> fst ` set t")
    case True
    with A show thesis by (intro same) simp_all
  next
    case False
    show thesis
    proof (cases "map_of (rs_ruleIds st) identity")
      case None
      with A False show thesis by (intro fresh) simp_all
    next
      case (Some v)
      with A False show thesis by (intro known [of v]) simp_all
    qed
  qed
  then show ?thesis
  proof cases
    case same
    with inv show ?thesis by simp
  next
    case (known v)
    from known(2) have "(identity, v) \<in> set (rs_ruleIds st)" by (rule map_of_SomeD)
    moreover have "\<forall>iv \<in> set (rs_ruleIds st). (starts_with (fst iv) ''list:'' \<and> resolves ''list'' (rs_details st) (snd iv)) \<or>
        (starts_with (fst iv) ''manual:'' \<and> resolves ''manual'' (rs_details st) (snd iv))"
      using inv by (simp add: table_ok_def compile_ok_def)
    ultimately have "(starts_with identity ''list:'' \<and> resolves ''list'' (rs_details st) v) \<or>
        (starts_with identity ''manual:'' \<and> resolves ''manual'' (rs_details st) v)"
      by (metis fst_conv snd_conv)
    with pre have "resolves ty (rs_details st) v" by (auto dest: starts_with_disjoint)
    with known inv show ?thesis by (auto simp: table_ok_def)
  next
    case fresh
    have "resolves ty (new_detail r s ty (rs_details st)) (Suc (length (rs_details st)))" by (rule resolves_last)
    with fresh inv pre show ?thesis
      by (auto simp: table_ok_def compile_ok_def details_ok_new resolves_new)
  qed
qed

lemma rfold_table_ok:
  assumes "rfold f xs ts = Inr ts'" and "table_ok ty ts"
    and "\<And>x t st t' st'. x \<in> set xs \<Longrightarrow> table_ok ty (t, st) \<Longrightarrow> f x (t, st) = Inr (t', st') \<Longrightarrow> table_ok ty (t', st')"
  shows "table_ok ty ts'"
  using assms(1,2) by (rule rfold_inv) (use assms(3) in \<open>metis prod.collapse\<close>)

lemma rfold_resolves:
  assumes "rfold f xs ts = Inr ts'" and "resolves ty (rs_details (snd ts)) v"
    and "\<And>x t st t' st'. x \<in> set xs \<Longrightarrow> resolves ty (rs_details st) v \<Longrightarrow> f x (t, st) = Inr (t', st') \<Longrightarrow> resolves ty (rs_details st') v"
  shows "resolves ty (rs_details (snd ts')) v"
  using assms(1,2) by (rule rfold_inv) (use assms(3) in \<open>metis prod.collapse\<close>)

lemma add_list_ok:
  "table_ok ''list'' (t, st) \<Longrightarrow> add_list lib ls i (t, st) = Inr (t', st') \<Longrightarrow> table_ok ''list'' (t', st')"
  by (auto simp: add_list_def split: option.splits elim!: rfold_table_ok intro: addRule_ok)

lemma add_list_resolves:
  assumes "resolves ty (rs_details st) v" and "add_list lib ls i (t, st) = Inr (t', st')"
  shows "resolves ty (rs_details st') v"
proof (cases "List.find (\<lambda>l. fl_id l = i) (rev ls)")
  case None
  with assms show ?thesis by (simp add: add_list_def)
next
  case (Some l)
  with assms(2) have "rfold (\<lambda>address. addRule lib address (fl_reason l) (fl_name l) ''list'' (fl_id l)) (fl_entries l) (t, st) = Inr (t', st')"
    by (simp add: add_list_def)
  from rfold_resolves [OF this, of ty v] assms(1) addRule_details show ?thesis by auto
qed

definition asn_ok :: "(int \<times> nat) list \<times> fw_detail list \<Rightarrow> bool" where
  "asn_ok ad \<longleftrightarrow> details_ok (snd ad) \<and> distinct (map fst (fst ad)) \<and> (\<forall>kv \<in> set (fst ad). resolves ''asn'' (snd ad) (snd kv))"

lemma add_asn_step: "asn_ok ad \<Longrightarrow> add_asn rule ad = Inr ad' \<Longrightarrow> asn_ok ad'"
proof -
  assume ok: "asn_ok ad" and a: "add_asn rule ad = Inr ad'"
  obtain rs ds where ad: "ad = (rs, ds)" by (cases ad)
  have "ad' = ad \<or> (fst rule \<notin> fst ` set rs \<and> ad' = (rs @ [(fst rule, Suc (length ds))], new_detail (snd rule) [] ''asn'' ds))"
    using a by (auto simp: add_asn_def ad split: if_splits)
  moreover have "\<forall>kv \<in> set rs. resolves ''asn'' (new_detail (snd rule) [] ''asn'' ds) (snd kv)"
    using ok by (simp add: asn_ok_def ad resolves_new)
  moreover have "resolves ''asn'' (new_detail (snd rule) [] ''asn'' ds) (Suc (length ds))" by (rule resolves_last)
  ultimately show ?thesis using ok unfolding asn_ok_def ad by (elim disjE conjE) (simp_all add: details_ok_new)
qed

lemma add_asn_ok: "rfold add_asn rules ad = Inr ad' \<Longrightarrow> asn_ok ad \<Longrightarrow> asn_ok ad'"
  by (erule rfold_inv) (auto intro: add_asn_step)

lemma add_asn_resolves:
  assumes "rfold add_asn rules ad = Inr ad'" and "resolves ty (snd ad) v"
  shows "resolves ty (snd ad') v"
  using assms(1) by (rule rfold_inv [where P = "\<lambda>ad. resolves ty (snd ad) v"])
    (use assms in \<open>auto simp: add_asn_def resolves_new split: if_splits\<close>)

text \<open>Every compiled rule points at its explanation. In a rendered firewall the explanations are numbered from one
  without gaps; each manual, subscription, autonomous-system and country rule carries the number of an
  explanation of its own kind; and no table has two entries for one network.\<close>

theorem render_rules_resolve:
  assumes r: "buildFirewallRender lib page host ls capabilities = Inr (Some r)"
  shows "map fd_id (fr_details r) = [1 ..< Suc (length (fr_details r))] \<and>
     (\<forall>kv \<in> set (fr_manual_rules r). resolves ''manual'' (fr_details r) (snd kv)) \<and>
     (\<forall>kv \<in> set (fr_list_rules r). resolves ''list'' (fr_details r) (snd kv)) \<and>
     (\<forall>kv \<in> set (fr_asn_rules r). resolves ''asn'' (fr_details r) (snd kv)) \<and>
     (\<forall>kv \<in> set (fr_country_rules r). resolves ''country'' (fr_details r) (snd kv) \<or> resolves ''country_unknown'' (fr_details r) (snd kv)) \<and>
     distinct (map fst (fr_allow_rules r)) \<and> distinct (map fst (fr_manual_rules r)) \<and>
     distinct (map fst (fr_list_rules r)) \<and> distinct (map fst (fr_asn_rules r))"
proof -
  from r obtain policy where pol: "fh_policy host = Some policy"
      "\<not> (\<not> fh_enabled host \<or> fh_is_deleted host \<or> \<not> fp_enabled policy)"
    by (auto simp: buildFirewallRender_def split: option.splits if_splits)
  note R = r [unfolded buildFirewallRender_def pol(1) option.case if_not_P [OF pol(2)] Let_def]
  from R obtain allow manual st subscribed st' asnRules d1 where
    m: "rfold (\<lambda>r. addRule lib (fst r) (snd r) [] ''manual'' 0) (fp_denylist policy) ([], \<lparr>rs_details = [], rs_ruleIds = []\<rparr>) = Inr (manual, st)"
    and l: "rfold (add_list lib ls) (fp_list_ids policy) ([], st) = Inr (subscribed, st')"
    and a: "rfold add_asn (fp_asn_denylist policy) ([], rs_details st') = Inr (asnRules, d1)"
    and fr: "fr_manual_rules r = manual" "fr_list_rules r = subscribed" "fr_asn_rules r = asnRules"
      "fr_allow_rules r = map (\<lambda>k. (k, 1)) (dedup allow)"
    and cr: "fr_country_rules r = map (\<lambda>code. (code, length d1 + 1)) (fp_country_denylist policy) @
      (if fp_block_unknown_country policy then [(''XX'', length (if fp_country_denylist policy \<noteq> [] then new_detail (fp_country_reason policy) [] ''country'' d1 else d1) + 1)] else [])"
    and de: "fr_details r = (if fp_block_unknown_country policy
        then new_detail (fp_country_reason policy) [] ''country_unknown'' (if fp_country_denylist policy \<noteq> [] then new_detail (fp_country_reason policy) [] ''country'' d1 else d1)
        else (if fp_country_denylist policy \<noteq> [] then new_detail (fp_country_reason policy) [] ''country'' d1 else d1))"
    by (auto simp: res_simps)
  define d2 where "d2 = (if fp_country_denylist policy \<noteq> [] then new_detail (fp_country_reason policy) [] ''country'' d1 else d1)"
  have e: "table_ok ''manual'' ([], \<lparr>rs_details = [], rs_ruleIds = []\<rparr>)" by (simp add: table_ok_def compile_ok_def details_ok_def)
  have M: "table_ok ''manual'' (manual, st)"
    using m e by (rule rfold_table_ok) (blast intro: addRule_ok)
  then have "table_ok ''list'' ([], st)" by (simp add: table_ok_def)
  with l have L: "table_ok ''list'' (subscribed, st')" by (rule rfold_table_ok) (blast intro: add_list_ok)
  have M': "resolves ''manual'' (rs_details st') (snd kv)" if "kv \<in> set manual" for kv
    using rfold_resolves [OF l, of "''manual''" "snd kv"] M that add_list_resolves by (auto simp: table_ok_def)
  have A: "details_ok d1" "distinct (map fst asnRules)" "\<forall>kv \<in> set asnRules. resolves ''asn'' d1 (snd kv)"
    using add_asn_ok [OF a] L by (auto simp: asn_ok_def table_ok_def compile_ok_def)
  have up: "resolves ty (fr_details r) v" if "resolves ty d1 v" for ty v
    using that by (simp add: de resolves_new)
  have up1: "resolves ty (fr_details r) v" if "resolves ty (rs_details st') v" for ty v
    using up add_asn_resolves [OF a, of ty v] that by simp
  have "details_ok (fr_details r)" using A(1) by (simp add: de details_ok_new)
  moreover have "resolves ''country'' (fr_details r) (Suc (length d1))" if "code \<in> set (fp_country_denylist policy)" for code
    using that resolves_last [of "''country''" "fp_country_reason policy" "[]" d1] by (auto simp: de resolves_new)
  moreover have "resolves ''country_unknown'' (fr_details r) (Suc (length d2))" if "fp_block_unknown_country policy"
    using that resolves_last [of "''country_unknown''" "fp_country_reason policy" "[]" d2] by (simp add: de d2_def)
  ultimately show ?thesis
    using M L M' A(2,3) up up1 unfolding details_ok_def fr cr d2_def [symmetric]
    by (auto simp: table_ok_def comp_def split: if_splits)
qed

definition host0 :: fw_host where
  "host0 = \<lparr>fh_id = JNum 5, fh_enabled = True, fh_is_deleted = False,
     fh_policy = Some \<lparr>fp_enabled = True, fp_list_ids = [2], fp_allowlist = [''10.0.0.1''],
       fp_denylist = [(''10.0.0.0/8'', ''internal'')], fp_public_message = [], fp_support_url = [], fp_internal_note = [],
       fp_asn_denylist = [(64500, ''spam'')], fp_country_denylist = [''XK''], fp_country_reason = [], fp_block_unknown_country = True\<rparr>\<rparr>"

definition fwlist0 :: fw_list where
  "fwlist0 = \<lparr>fl_id = 2, fl_name = ''scanners'', fl_reason = ''abuse'', fl_entries = [''1.2.3.4'', ''1.2.3.5'']\<rparr>"

theorem render_rules_resolve_witness:
  "\<exists>r. buildFirewallRender ip0 ''page'' host0 [fwlist0] None = Inr (Some r) \<and> length (fr_list_rules r) = 2 \<and>
     (\<forall>kv \<in> set (fr_list_rules r). resolves ''list'' (fr_details r) (snd kv))"
proof -
  have "(case buildFirewallRender ip0 ''page'' host0 [fwlist0] None of Inr (Some r) \<Rightarrow> length (fr_list_rules r) = 2 | _ \<Rightarrow> False)"
    by code_simp
  then obtain r where r: "buildFirewallRender ip0 ''page'' host0 [fwlist0] None = Inr (Some r)" "length (fr_list_rules r) = 2"
    by (auto split: sum.splits option.splits)
  from render_rules_resolve [OF r(1)] r show ?thesis by blast
qed

section \<open>Compact form for a preview\<close>

definition ruleDigest :: "(string \<Rightarrow> string) \<Rightarrow> fw_table \<Rightarrow> digest" where
  "ruleDigest sha rules =
     (length rules, sha (concat (map (\<lambda>r. fst r @ '' '' @ nat_str (snd r) @ '';'' @ [CHR 10]) rules)))"

definition compactFirewallForPreview ::
  "(string \<Rightarrow> string) \<Rightarrow> fw_render \<Rightarrow> fw_render \<times> (string \<times> digest) list" where
  "compactFirewallForPreview sha fw =
     (fw\<lparr>fr_allow_rules := [], fr_manual_rules := [], fr_list_rules := []\<rparr>,
      [(''allow'', ruleDigest sha (fr_allow_rules fw)), (''manual'', ruleDigest sha (fr_manual_rules fw)),
       (''list'', ruleDigest sha (fr_list_rules fw))])"

text \<open>The lines of a generated table.\<close>

definition table_lines :: "nat \<Rightarrow> string \<Rightarrow> fw_table \<Rightarrow> string list" where
  "table_lines i kind rules = [''geo $spm_fw_'' @ nat_str i @ ''_'' @ kind @ '' {'', ''default 0;''] @
     map (\<lambda>r. fst r @ '' '' @ nat_str (snd r) @ '';'') rules @ [''}'']"

lemma trim_ends: "s \<noteq> [] \<Longrightarrow> \<not> is_ws (hd s) \<Longrightarrow> \<not> is_ws (last s) \<Longrightarrow> js_trim s = s"
proof -
  assume s: "s \<noteq> []" "\<not> is_ws (hd s)" "\<not> is_ws (last s)"
  have "dropWhile is_ws s = s" using s by (cases s) auto
  moreover have "dropWhile is_ws (rev s) = rev s" using s by (cases "rev s") (auto simp: hd_rev [symmetric])
  ultimately show ?thesis by (simp add: js_trim_def)
qed

definition entry_line :: "string \<times> nat \<Rightarrow> string" where
  "entry_line r = fst r @ '' '' @ nat_str (snd r) @ '';''"

text \<open>A table entry as \<open>networkKey\<close> and the rule numbering produce it.\<close>

definition entry_ok :: "string \<times> nat \<Rightarrow> bool" where
  "entry_ok r \<longleftrightarrow> (\<exists>a p. list_all addr_char a \<and> a \<noteq> [] \<and> p < 1000 \<and> fst r = cidr a p) \<and> 1 \<le> snd r"

lemma takeWhile_stop: "list_all P xs \<Longrightarrow> \<not> P y \<Longrightarrow> takeWhile P (xs @ y # ys) = xs \<and> dropWhile P (xs @ y # ys) = y # ys"
  by (induction xs) auto

lemma digit_chars:
  "\<not> addr_char (CHR ''/'')" "\<not> is_digit (CHR '' '')" "\<not> is_digit (CHR '';'')" "is_ws (CHR '' '')" "\<not> is_ws (CHR '';'')" "\<not> is_digit (CHR ''/'')"
  by code_simp+

lemma is_digit_not_ws: "is_digit c \<Longrightarrow> \<not> is_ws c"
  by (auto simp: is_digit_def is_ws_def code_between_def)

lemma rule_match_entry:
  assumes "entry_ok r"
  shows "rule_match (entry_line r) = Some (fst r, nat_str (snd r))" "js_trim (entry_line r) = entry_line r"
proof -
  obtain a p where a: "list_all addr_char a" "a \<noteq> []" "p < 1000" "fst r = cidr a p" and v: "1 \<le> snd r"
    using assms by (auto simp: entry_ok_def)
  let ?v = "nat_str (snd r)" let ?p = "nat_str p"
  have e: "entry_line r = a @ CHR ''/'' # ?p @ CHR '' '' # ?v @ [CHR '';'']" by (simp add: entry_line_def a(4) cidr_def)
  have t1: "takeWhile addr_char (entry_line r) = a" "dropWhile addr_char (entry_line r) = CHR ''/'' # ?p @ CHR '' '' # ?v @ [CHR '';'']"
    unfolding e using takeWhile_stop [OF a(1) digit_chars(1)] by simp_all
  have t2: "takeWhile is_digit (?p @ CHR '' '' # ?v @ [CHR '';'']) = ?p" "dropWhile is_digit (?p @ CHR '' '' # ?v @ [CHR '';'']) = CHR '' '' # ?v @ [CHR '';'']"
    using takeWhile_stop [of is_digit ?p "CHR '' ''" "?v @ [CHR '';'']"] digit_chars(2) by simp_all
  have hv: "?v \<noteq> []" "is_digit (hd ?v)" "hd ?v \<noteq> CHR ''0''"
    using nat_str_spec [of "snd r"] nat_str_hd [of "snd r"] v by (auto simp: list_all_iff)
  have t3: "dropWhile is_ws (CHR '' '' # ?v @ [CHR '';'']) = ?v @ [CHR '';'']"
    using hv digit_chars(4) is_digit_not_ws by (cases ?v) auto
  have t4: "takeWhile is_digit (?v @ [CHR '';'']) = ?v" "dropWhile is_digit (?v @ [CHR '';'']) = [CHR '';'']"
    using takeWhile_stop [of is_digit ?v "CHR '';''" "[]"] digit_chars(3) by simp_all
  have lp: "length ?p \<le> 3" using a(3) by (rule nat_str_length)
  show "rule_match (entry_line r) = Some (fst r, ?v)"
    unfolding rule_match_def Let_def t1 using t2 t3 t4 hv lp a(2) digit_chars(5) by (simp add: a(4) cidr_def)
  show "js_trim (entry_line r) = entry_line r"
  proof (rule trim_ends)
    show "entry_line r \<noteq> []" "\<not> is_ws (last (entry_line r))" using digit_chars(5) by (simp_all add: e)
    show "\<not> is_ws (hd (entry_line r))" using a(1,2) by (cases a) (auto simp: e dest: addr_char_not)
  qed
qed

lemma entry_text: "entry_ok r \<Longrightarrow> rule_text (the (rule_match (js_trim (entry_line r)))) = entry_line r @ [CHR 10]"
  by (simp only: rule_match_entry option.sel) (simp add: rule_text_def entry_line_def)

lemma scan_append_fields:
  "scan_append opt l sc = Inr sc' \<Longrightarrow> sc_table sc' = sc_table sc \<and> sc_nextKind sc' = sc_nextKind sc \<and> sc_prefix sc' = sc_prefix sc"
  by (auto simp: scan_append_def Let_def split: if_splits)

lemma scan_append_opt: "po_maxBytes o1 = po_maxBytes o2 \<Longrightarrow> scan_append o1 l sc = scan_append o2 l sc"
  by (simp add: scan_append_def)

definition geo_line :: "nat \<Rightarrow> string \<Rightarrow> string" where
  "geo_line i kind = ''geo $spm_fw_'' @ nat_str i @ ''_'' @ kind @ '' {''"

lemma scan_header:
  assumes "sc_table sc = None" and "sc_prefix sc" and "sc_protectedPrefix sc" and "sc_nextKind sc < 3" and "kind = preview_kinds ! sc_nextKind sc"
  shows "scan_line sha i opt (geo_line i kind) sc =
     scan_append opt (geo_line i kind) (sc\<lparr>sc_table := Some \<lparr>pt_hashed = [], pt_count = 0, pt_defaultSeen = False\<rparr>\<rparr>)"
proof -
  have "\<not> is_ws (CHR ''g'')" "\<not> is_ws (CHR ''{'')" by code_simp+
  then have t: "js_trim (geo_line i kind) = geo_line i kind" by (intro trim_ends) (simp_all add: geo_line_def)
  have g: "geo_line i kind \<noteq> []" "\<not> starts_with (geo_line i kind) ''#''" "\<not> is_server_line (geo_line i kind)"
    by (simp_all add: geo_line_def starts_with_def is_server_line_def)
  have k: "length preview_kinds = 3" by (simp add: preview_kinds_def)
  show ?thesis using assms g k unfolding scan_line_def Let_def t by (simp add: geo_line_def)
qed

lemma scan_default:
  "sc_table sc = Some t \<Longrightarrow> \<not> pt_defaultSeen t \<Longrightarrow> pt_count t = 0 \<Longrightarrow>
     scan_line sha i opt ''default 0;'' sc = Inr (sc\<lparr>sc_table := Some (t\<lparr>pt_defaultSeen := True\<rparr>)\<rparr>)"
proof -
  have "js_trim ''default 0;'' = ''default 0;''" "\<not> starts_with ''default 0;'' ''#''" by code_simp+
  then show "sc_table sc = Some t \<Longrightarrow> \<not> pt_defaultSeen t \<Longrightarrow> pt_count t = 0 \<Longrightarrow>
     scan_line sha i opt ''default 0;'' sc = Inr (sc\<lparr>sc_table := Some (t\<lparr>pt_defaultSeen := True\<rparr>)\<rparr>)"
    by (simp add: scan_line_def scan_table_def Let_def)
qed

definition close_table :: "preview_options \<Rightarrow> digest \<Rightarrow> scanner \<Rightarrow> scanner result" where
  "close_table opt d sc =
     rbind (scan_append opt ''    default 0;'' sc) (\<lambda>sc.
     rbind (scan_append opt (''    # Preview: '' @ nat_str (fst d) @ '' rules; SHA-256 '' @ snd d @ ''. CIDRs omitted.'') sc) (\<lambda>sc.
     rbind (scan_append opt ''}'' sc) (\<lambda>sc. Inr (sc\<lparr>sc_table := None, sc_nextKind := Suc (sc_nextKind sc)\<rparr>))))"

lemma close_table_eq:
  "po_maxBytes o1 = po_maxBytes o2 \<Longrightarrow> close_table o1 d (sc\<lparr>sc_table := t1\<rparr>) = close_table o2 d (sc\<lparr>sc_table := t2\<rparr>)"
  by (simp add: close_table_def scan_append_table scan_append_opt [of o1 o2] rbind_assoc)

lemma scan_end:
  assumes "pt_defaultSeen t"
    and "case po_summaries opt of None \<Rightarrow> d = (pt_count t, sha (pt_hashed t))
         | Some m \<Rightarrow> pt_count t = 0 \<and> map_of m (preview_kinds ! sc_nextKind sc) = Some d"
  shows "scan_line sha i opt ''}'' (sc\<lparr>sc_table := Some t\<rparr>) = close_table opt d (sc\<lparr>sc_table := Some t\<rparr>)"
proof -
  have "js_trim ''}'' = ''}''" "\<not> starts_with ''}'' ''#''" by code_simp+
  with assms show ?thesis
    by (cases "po_summaries opt") (auto simp: scan_line_def scan_table_def Let_def close_table_def)
qed

lemma scan_whole_table:
  assumes sc: "sc_table sc = None" "sc_prefix sc" "sc_protectedPrefix sc" "sc_nextKind sc < 3" "kind = preview_kinds ! sc_nextKind sc"
    and rules: "\<forall>r \<in> set rules. entry_ok r"
    and d: "case po_summaries opt of None \<Rightarrow> d = ruleDigest sha rules | Some m \<Rightarrow> rules = [] \<and> map_of m kind = Some d"
  shows "rfold (scan_line sha i opt) (table_lines i kind rules) sc =
     rbind (scan_append opt (geo_line i kind) sc) (\<lambda>sc'. close_table opt d (sc'\<lparr>sc_table := None\<rparr>))"
proof (cases "scan_append opt (geo_line i kind) sc")
  case (Inl e)
  have "table_lines i kind rules = [geo_line i kind, ''default 0;''] @ map entry_line rules @ [''}'']"
    by (simp add: table_lines_def geo_line_def entry_line_def)
  then show ?thesis using scan_header [OF sc] Inl by (simp add: scan_append_table)
next
  case (Inr sc')
  define t0 where "t0 = \<lparr>pt_hashed = [], pt_count = 0, pt_defaultSeen = True\<rparr>"
  define t where "t = t0\<lparr>pt_hashed := concat (map (\<lambda>r. entry_line r @ [CHR 10]) rules), pt_count := length rules\<rparr>"
  have f: "sc_nextKind sc' = sc_nextKind sc" using scan_append_fields [OF Inr] by simp
  have h: "scan_line sha i opt (geo_line i kind) sc = Inr (sc'\<lparr>sc_table := Some \<lparr>pt_hashed = [], pt_count = 0, pt_defaultSeen = False\<rparr>\<rparr>)"
    using scan_header [OF sc] Inr by (simp add: scan_append_table)
  have df: "scan_line sha i opt ''default 0;'' (sc'\<lparr>sc_table := Some \<lparr>pt_hashed = [], pt_count = 0, pt_defaultSeen = False\<rparr>\<rparr>) =
      Inr (sc'\<lparr>sc_table := Some t0\<rparr>)"
    by (subst scan_default [where t = "\<lparr>pt_hashed = [], pt_count = 0, pt_defaultSeen = False\<rparr>"]) (simp_all add: t0_def)
  have m: "concat (map (\<lambda>l. rule_text (the (rule_match (js_trim l)))) (map entry_line rules)) =
      concat (map (\<lambda>r. entry_line r @ [CHR 10]) rules)"
    using rules by (simp add: comp_def entry_text cong: map_cong)
  have ru: "rfold (scan_line sha i opt) (map entry_line rules) (sc'\<lparr>sc_table := Some t0\<rparr>) = Inr (sc'\<lparr>sc_table := Some t\<rparr>)"
    by (subst scan_rules [where t = t0]) (use rules in \<open>auto simp: t0_def t_def m [simplified] rule_match_entry\<close>)
  have en: "scan_line sha i opt ''}'' (sc'\<lparr>sc_table := Some t\<rparr>) = close_table opt d (sc'\<lparr>sc_table := Some t\<rparr>)"
    by (rule scan_end) (use d sc(5) f in \<open>auto simp: t_def t0_def ruleDigest_def entry_line_def split: option.splits\<close>)
  have "table_lines i kind rules = [geo_line i kind, ''default 0;''] @ map entry_line rules @ [''}'']"
    by (simp add: table_lines_def geo_line_def entry_line_def)
  then show ?thesis
    by (simp add: rfold_append rfold_Nil h df ru en Inr close_table_eq [OF refl, where d = d and sc = sc' and ?t1.0 = "Some t" and ?t2.0 = None])
qed


definition render0 :: fw_render where
  "render0 = (case buildFirewallRender ip0 ''page'' host0 [fwlist0] None of Inr (Some r) \<Rightarrow> r)"

definition sc0 :: scanner where
  "sc0 = createSummarizer\<lparr>sc_protectedPrefix := True\<rparr>"


end
