(* ===== verification/Monitor_Data.thy ===== *)
theory Monitor_Data
  imports JS_Value
begin

text \<open>
  The data the health monitor and the incident centre share: time, the rows of
  \<open>backend/models/proxy_host_monitor.js\<close> and \<open>backend/models/proxy_host_monitor_check.js\<close>, and the
  columns of a proxy host they read.

  Time. A timestamp is the number of milliseconds since 1970, an integer. The tables hold the ISO
  text of it; for the years 0 to 9999 that text has a fixed width, so the order of the texts the
  queries compare is the order of the numbers, and the first 10 and 16 characters of the text are
  the day and the minute, which the model numbers by floor division.
\<close>

section \<open>Time\<close>

definition DAY_MS :: int where
  "DAY_MS = 86400000"

definition day_of :: "int \<Rightarrow> int" where
  "day_of t = t div DAY_MS"

definition day_start :: "int \<Rightarrow> int" where
  "day_start d = d * DAY_MS"

definition minute_of :: "int \<Rightarrow> int" where
  "minute_of t = t div 60000"

definition pad :: "nat \<Rightarrow> int \<Rightarrow> string" where
  "pad n i = (let s = nat_str (nat i) in replicate (n - length s) (CHR ''0'') @ s)"

text \<open>The civil date of a day number, in the proleptic Gregorian calendar.\<close>

definition civil_date :: "int \<Rightarrow> int \<times> int \<times> int" where
  "civil_date day =
     (let z = day + 719468; era = z div 146097; doe = z mod 146097;
          yoe = (doe - doe div 1460 + doe div 36524 - doe div 146096) div 365;
          doy = doe - (365 * yoe + yoe div 4 - yoe div 100);
          mp = (5 * doy + 2) div 153;
          d = doy - (153 * mp + 2) div 5 + 1;
          m = (if mp < 10 then mp + 3 else mp - 9);
          y = yoe + era * 400 + (if m \<le> 2 then 1 else 0)
      in (y, m, d))"

definition day_string :: "int \<Rightarrow> string" where
  "day_string day = (let (y, m, d) = civil_date day in pad 4 y @ ''-'' @ pad 2 m @ ''-'' @ pad 2 d)"

definition iso_string :: "int \<Rightarrow> string" where
  "iso_string t =
     (let r = t mod DAY_MS
      in day_string (day_of t) @ ''T'' @ pad 2 (r div 3600000) @ '':'' @ pad 2 (r div 60000 mod 60) @ '':'' @
         pad 2 (r div 1000 mod 60) @ ''.'' @ pad 3 (r mod 1000) @ ''Z'')"

lemma DAY_MS_pos [simp]: "0 < DAY_MS"
  by (simp add: DAY_MS_def)

lemma day_of_bounds: "day_start (day_of t) \<le> t" "t < day_start (day_of t) + DAY_MS"
  unfolding day_start_def day_of_def DAY_MS_def by presburger+

lemma day_of_eq: "day_start d \<le> t \<Longrightarrow> t < day_start d + DAY_MS \<Longrightarrow> day_of t = d"
  by (simp add: day_start_def day_of_def DAY_MS_def)

lemma day_of_mono: "s \<le> t \<Longrightarrow> day_of s \<le> day_of t"
  by (simp add: day_of_def zdiv_mono1)

lemma iso_string_examples:
  "iso_string 0 = ''1970-01-01T00:00:00.000Z''" "iso_string 951782399999 = ''2000-02-28T23:59:59.999Z''"
  by code_simp+

section \<open>States and rows\<close>

datatype check_state = St_up | St_down | St_unknown

fun state_text :: "check_state \<Rightarrow> string" where
  "state_text St_up = ''up''"
| "state_text St_down = ''down''"
| "state_text St_unknown = ''unknown''"

text \<open>The result of a probe; the probes round \<open>response_ms\<close> to an integer.\<close>

record check_result =
  cr_state :: check_state
  cr_response_ms :: int
  cr_status_code :: "int option"
  cr_message :: string

record monitor_row =
  m_id :: nat
  m_host_id :: int
  m_enabled :: bool
  m_type :: string
  m_path :: string
  m_interval_seconds :: int
  m_timeout_ms :: int
  m_expected_status :: int
  m_alert_enabled :: bool
  m_upstream_ca :: "string option"
  m_upstream_server_name :: "string option"
  m_skip_certificate_verification :: bool
  m_version :: int
  m_state :: check_state
  m_checked_at :: "int option"
  m_next_check_at :: "int option"
  m_response_ms :: "int option"
  m_status_code :: "int option"
  m_message :: "string option"
  m_last_alert_at :: "int option"
  m_last_alert_state :: "check_state option"

record check_row =
  k_id :: nat
  k_host_id :: int
  k_checked_at :: int
  k_state :: check_state
  k_response_ms :: int
  k_status_code :: "int option"
  k_message :: string
  k_transition :: bool

text \<open>A proxy host: the columns every query reads by name, its domain rows in identifier order, and
  the remaining columns as the object the policy functions read.\<close>

record proxy_host =
  ph_id :: int
  ph_owner_user_id :: int
  ph_enabled :: bool
  ph_is_deleted :: bool
  ph_host_domains :: "string list"
  ph_columns :: jsval

definition ph_get :: "proxy_host \<Rightarrow> string \<Rightarrow> jsval" where
  "ph_get h k = js_get (ph_columns h) k"

text \<open>\<open>value.replace(/\p{Cc}/gu, " ").trim().slice(0, max)\<close>, empty for anything but a string.\<close>

definition plain_text :: "jsval \<Rightarrow> nat \<Rightarrow> string" where
  "plain_text v n =
     (case v of JStr s \<Rightarrow> take n (js_trim (map (\<lambda>c. if is_control c then CHR '' '' else c) s)) | _ \<Rightarrow> [])"

lemma length_plain_text: "length (plain_text v n) \<le> n"
  by (cases v) (auto simp: plain_text_def)

lemma set_js_trim: "set (js_trim s) \<subseteq> set s"
  unfolding js_trim_def by (auto dest!: set_dropWhileD)

lemma plain_text_no_control: "c \<in> set (plain_text v n) \<Longrightarrow> \<not> is_control c"
proof -
  have sp: "\<not> is_control (CHR '' '')" by code_simp
  assume c: "c \<in> set (plain_text v n)"
  then obtain s where s: "v = JStr s" by (cases v) (auto simp: plain_text_def)
  with c have "c \<in> set (map (\<lambda>c. if is_control c then CHR '' '' else c) s)"
    by (simp only: plain_text_def jsval.case) (blast dest: in_set_takeD subsetD [OF set_js_trim])
  with sp show "\<not> is_control c" by (auto split: if_splits)
qed

end
