(* ===== verification/Audit_Log.thy ===== *)
theory Audit_Log
  imports Access
begin

text \<open>
  The audit log: \<open>backend/internal/audit-log.js\<close> over the table of \<open>backend/models/audit-log.js\<close>.

  Parameters. \<open>like\<close> is the database's pattern match of a search text against a column.
\<close>

record audit_row =
  al_id :: nat
  al_user_id :: jsval
  al_action :: string
  al_object_type :: string
  al_object_id :: jsval
  al_meta :: jsval
  al_created_on :: int

text \<open>\<open>Object.entries\<close>: the elements of an array are its properties with the index as name.\<close>

fun js_entries :: "jsval \<Rightarrow> (string \<times> jsval) list" where
  "js_entries (JObj kvs) = kvs"
| "js_entries (JArr xs) = zip (map nat_str [0..<length xs]) xs"
| "js_entries _ = []"

definition safeAuditMetadata :: "string \<Rightarrow> jsval \<Rightarrow> jsval" where
  "safeAuditMetadata objectType meta =
     (if objectType \<noteq> ''ddns-provider'' \<or> \<not> (is_obj meta \<or> is_arr meta) then meta
      else JObj (filter (\<lambda>kv. fst kv \<noteq> ''config'') (js_entries meta)))"

definition safeAuditRow :: "audit_row \<Rightarrow> audit_row" where
  "safeAuditRow row =
     (if al_object_type row \<noteq> ''ddns-provider'' then row
      else row\<lparr>al_meta := safeAuditMetadata (al_object_type row) (al_meta row)\<rparr>)"

section \<open>Writing\<close>

record audit_event =
  ev_action :: string
  ev_object_type :: string
  ev_object_id :: jsval
  ev_meta :: jsval

definition audit_add ::
  "access \<Rightarrow> int \<Rightarrow> audit_event \<Rightarrow> audit_row list \<Rightarrow> nat \<Rightarrow> (audit_row list \<times> nat) result" where
  "audit_add acc now ev log n =
     (if ev_action ev = [] then Inl (InternalValidationError ''Audit log entry must contain an Action'')
      else Inr (log @ [\<lparr>al_id = n, al_user_id = acc_user acc 1, al_action = ev_action ev,
                  al_object_type = ev_object_type ev, al_object_id = ev_object_id ev,
                  al_meta = safeAuditMetadata (ev_object_type ev) (if truthy (ev_meta ev) then ev_meta ev else JObj []),
                  al_created_on = now\<rparr>], Suc n))"

section \<open>Reading\<close>

record audit_filters =
  f_action :: "string option"
  f_object_type :: "string option"
  f_user_id :: "jsval option"
  f_object_id :: "jsval option"
  f_created_after :: "int option"
  f_created_before :: "int option"

definition opt_match :: "('a \<Rightarrow> bool) \<Rightarrow> 'a option \<Rightarrow> bool" where
  "opt_match p v \<longleftrightarrow> (case v of None \<Rightarrow> True | Some x \<Rightarrow> p x)"

text \<open>The rows a query selects, newest first.\<close>

definition audit_selected ::
  "(string \<Rightarrow> string \<Rightarrow> bool) \<Rightarrow> string \<Rightarrow> audit_filters \<Rightarrow> audit_row list \<Rightarrow> audit_row list" where
  "audit_selected like search f log =
     rev (sort_key (\<lambda>r. al_created_on r) (sort_key al_id (filter (\<lambda>r.
       (search = [] \<or> like search (json_text (al_meta r)) \<or> like search (al_action r) \<or> like search (al_object_type r)) \<and>
       opt_match (\<lambda>v. al_action r = v) (f_action f) \<and> opt_match (\<lambda>v. al_object_type r = v) (f_object_type f) \<and>
       opt_match (\<lambda>v. al_user_id r = v) (f_user_id f) \<and> opt_match (\<lambda>v. al_object_id r = v) (f_object_id f) \<and>
       opt_match (\<lambda>v. v \<le> al_created_on r) (f_created_after f) \<and>
       opt_match (\<lambda>v. al_created_on r \<le> v) (f_created_before f)) log)))"

record audit_page =
  pg_items :: "audit_row list"
  pg_limit :: nat
  pg_page :: nat
  pg_totalItems :: nat
  pg_totalPages :: nat

text \<open>A page of the selection, or its first hundred rows when no page is asked for.\<close>

definition audit_getAll ::
  "(string \<Rightarrow> string \<Rightarrow> bool) \<Rightarrow> access \<Rightarrow> string \<Rightarrow> audit_filters \<Rightarrow> (nat \<times> nat) option \<Rightarrow> audit_row list
     \<Rightarrow> (audit_row list + audit_page) result" where
  "audit_getAll like acc search f pagination log =
     rbind (acc_can acc ''auditlog:list'' Undef) (\<lambda>_.
       let rows = audit_selected like search f log in
       case pagination of
         None \<Rightarrow> Inr (Inl (map safeAuditRow (take 100 rows)))
       | Some (limit, page) \<Rightarrow>
           Inr (Inr \<lparr>pg_items = map safeAuditRow (take limit (drop ((page - 1) * limit) rows)),
                  pg_limit = limit, pg_page = page, pg_totalItems = length rows,
                  pg_totalPages = (length rows + limit - 1) div limit\<rparr>))"

definition audit_get :: "access \<Rightarrow> nat \<Rightarrow> audit_row list \<Rightarrow> audit_row result" where
  "audit_get acc i log =
     rbind (acc_can acc ''auditlog:list'' Undef) (\<lambda>_.
       case List.find (\<lambda>r. al_id r = i \<and> al_id r \<noteq> 0) log of
         None \<Rightarrow> Inl (mk_ItemNotFoundError (nat_str i))
       | Some r \<Rightarrow> Inr (safeAuditRow r))"

section \<open>Lemmas\<close>

lemma audit_add_Inr [res_simps]:
  "audit_add acc now ev log n = Inr (log', n') \<longleftrightarrow> ev_action ev \<noteq> [] \<and> n' = Suc n \<and>
     log' = log @ [\<lparr>al_id = n, al_user_id = acc_user acc 1, al_action = ev_action ev,
                  al_object_type = ev_object_type ev, al_object_id = ev_object_id ev,
                  al_meta = safeAuditMetadata (ev_object_type ev) (if truthy (ev_meta ev) then ev_meta ev else JObj []),
                  al_created_on = now\<rparr>]"
  by (auto simp: audit_add_def)

text \<open>What an audit response may show of a row.\<close>

definition redacted :: "audit_row \<Rightarrow> bool" where
  "redacted r \<longleftrightarrow> al_object_type r = ''ddns-provider'' \<longrightarrow> \<not> has_own (al_meta r) ''config''"

lemma safeAuditMetadata_no_config: "\<not> has_own (safeAuditMetadata ''ddns-provider'' m) ''config''"
  by (cases m) (auto simp: safeAuditMetadata_def has_own_def js_keys_def)

lemma safeAuditRow_redacted: "redacted (safeAuditRow r)"
  by (auto simp: redacted_def safeAuditRow_def safeAuditMetadata_no_config)

lemma safeAuditMetadata_idem: "safeAuditMetadata t (safeAuditMetadata t m) = safeAuditMetadata t m"
  by (auto simp: safeAuditMetadata_def)

lemma set_audit_selected: "r \<in> set (audit_selected like search f log) \<Longrightarrow> r \<in> set log"
  by (simp add: audit_selected_def)

text \<open>No audit response carries the configuration of a dynamic DNS provider. Every row of a page or of the
  unpaged list is a row of the log, a row of such a provider is shown without the property "config"
  whatever older rows store, every other row is shown unchanged, and the list is as long as asked for at most.\<close>

theorem audit_redacts_credentials:
  assumes "audit_getAll like acc search f pg log = Inr out"
    and "r \<in> set (case out of Inl rows \<Rightarrow> rows | Inr p \<Rightarrow> pg_items p)"
  shows "redacted r \<and> (\<exists>r0 \<in> set log. al_id r0 = al_id r \<and> (al_object_type r \<noteq> ''ddns-provider'' \<longrightarrow> r = r0)) \<and>
     length (case out of Inl rows \<Rightarrow> rows | Inr p \<Rightarrow> pg_items p) \<le> (case pg of None \<Rightarrow> 100 | Some (limit, _) \<Rightarrow> limit)"
proof -
  obtain rows where rows: "(case out of Inl rows \<Rightarrow> rows | Inr p \<Rightarrow> pg_items p) = map safeAuditRow rows" "set rows \<subseteq> set log"
      "length rows \<le> (case pg of None \<Rightarrow> 100 | Some (limit, _) \<Rightarrow> limit)"
  proof (cases pg)
    case None
    show ?thesis
      by (rule that [of "take 100 (audit_selected like search f log)"])
        (use assms(1) in \<open>auto simp: None audit_getAll_def Let_def res_simps dest!: in_set_takeD set_audit_selected\<close>)
  next
    case (Some lp)
    show ?thesis
      by (rule that [of "take (fst lp) (drop ((snd lp - 1) * fst lp) (audit_selected like search f log))"])
        (use assms(1) in \<open>auto simp: Some audit_getAll_def Let_def res_simps split: prod.splits
          dest!: in_set_takeD in_set_dropD set_audit_selected\<close>)
  qed
  from assms(2) obtain r0 where r0: "r0 \<in> set rows" "r = safeAuditRow r0" unfolding rows(1) by auto
  have "al_id r0 = al_id r" "al_object_type r \<noteq> ''ddns-provider'' \<longrightarrow> r = r0" by (auto simp: r0(2) safeAuditRow_def)
  with r0 rows safeAuditRow_redacted [of r0] show ?thesis by auto
qed

definition admin0 :: access where
  "admin0 = \<lparr>acc_can = (\<lambda>p d. Inr (JBool True)), acc_token = JObj []\<rparr>"

definition log0 :: "audit_row list" where
  "log0 = [\<lparr>al_id = 1, al_user_id = JNum 1, al_action = ''created'', al_object_type = ''ddns-provider'', al_object_id = JNum 4,
     al_meta = JObj [(''name'', JStr ''home''), (''config'', JStr ''token'')], al_created_on = 5\<rparr>]"

definition no_filters :: audit_filters where
  "no_filters = \<lparr>f_action = None, f_object_type = None, f_user_id = None, f_object_id = None,
     f_created_after = None, f_created_before = None\<rparr>"

theorem audit_redacts_credentials_witness:
  "audit_getAll (\<lambda>a b. True) admin0 [] no_filters None log0 = Inr (Inl [safeAuditRow (hd log0)]) \<and>
   redacted (safeAuditRow (hd log0))"
proof -
  have g: "audit_getAll (\<lambda>a b. True) admin0 [] no_filters None log0 = Inr (Inl [safeAuditRow (hd log0)])"
    by code_simp
  from audit_redacts_credentials [OF g, of "safeAuditRow (hd log0)"] g show ?thesis by simp
qed

end
