(* ===== verification/Outbound_Requests.thy ===== *)
theory Outbound_Requests
  imports Firewall_Policy_Props
begin

text \<open>
  Requests the server makes to addresses its users supply: the list downloader of
  \<open>backend/lib/firewall-download.js\<close> and the notification sender of
  \<open>backend/lib/notification-http.js\<close>.

  Parameters, in \<open>net\<close>: name resolution, the answer of the remote side to one request, the URL
  parser applied to a relative reference, and the UTF-8 decoder. An answer is the status and headers
  of a response with the chunks of its body and how the body ended. Every request that leaves the
  server is recorded in the trace the functions return.
\<close>

section \<open>The network\<close>

datatype body_end = Ended bool | Aborted | Closed | Failed

record response =
  rs_status :: int
  rs_location :: "string option"
  rs_encoding :: "string option"
  rs_length :: "string option"
  rs_chunks :: "8 word list list"
  rs_end :: body_end

type_synonym address = "string \<times> nat"

record net =
  dns_lookup :: "string \<Rightarrow> address list result"
  http_get :: "url \<Rightarrow> address list \<Rightarrow> response result"
  join_url :: "string \<Rightarrow> url \<Rightarrow> string option"
  utf8_decode :: "8 word list \<Rightarrow> string option"

type_synonym trace = "(url \<times> address list) list"

section \<open>Downloading a list\<close>

definition MAX_BYTES :: nat where
  "MAX_BYTES = 8 * 1024 * 1024"

definition MAX_REDIRECTS :: nat where
  "MAX_REDIRECTS = 3"

definition REDIRECT_STATUSES :: "int list" where
  "REDIRECT_STATUSES = [301, 302, 303, 307, 308]"

definition public_addresses :: "ip_lib \<Rightarrow> url_lib \<Rightarrow> address list \<Rightarrow> bool" where
  "public_addresses lib ul addresses \<longleftrightarrow> addresses \<noteq> [] \<and> (\<forall>a \<in> set addresses. isPublicAddress lib ul (fst a))"

definition resolvePublicAddresses :: "ip_lib \<Rightarrow> url_lib \<Rightarrow> net \<Rightarrow> url \<Rightarrow> address list result" where
  "resolvePublicAddresses lib ul nt u =
     (let hostname = strip_brackets (url_hostname u) in
      rbind (if isIP hostname \<noteq> 0 then Inr [(hostname, isIP hostname)] else dns_lookup nt hostname) (\<lambda>addresses.
        if public_addresses lib ul addresses then Inr addresses
        else Inl (ValidationError ''Firewall list source must resolve only to public IP addresses'')))"

text \<open>The addresses the socket layer is given: those of the requested family, all or the first.\<close>

definition pinnedLookup :: "address list \<Rightarrow> nat option \<Rightarrow> bool \<Rightarrow> address list result" where
  "pinnedLookup addresses family all =
     (let candidates = (case family of None \<Rightarrow> addresses | Some f \<Rightarrow> filter (\<lambda>a. snd a = f) addresses)
      in if candidates = [] then Inl (ValidationError ''Firewall list source has no validated address for this IP family'')
         else Inr (if all then candidates else [hd candidates]))"

text \<open>The body: every chunk is counted before it is kept.\<close>

fun receive :: "8 word list list \<Rightarrow> 8 word list \<Rightarrow> 8 word list result" where
  "receive [] got = Inr got"
| "receive (c # cs) got =
     (if MAX_BYTES < length got + length c
      then Inl (ValidationError ''Firewall list download exceeds the 8 MiB limit'')
      else receive cs (got @ c))"

datatype reply = Text string | Redirect string

definition read_body :: "net \<Rightarrow> response \<Rightarrow> reply result" where
  "read_body nt r =
     rbind (receive (rs_chunks r) []) (\<lambda>bytes.
       case rs_end r of
         Failed \<Rightarrow> Inl (ValidationError ''Firewall list download failed'')
       | Ended complete \<Rightarrow>
           (if \<not> complete \<or> (case rs_length r of None \<Rightarrow> False | Some h \<Rightarrow> digits_value h \<noteq> length bytes)
            then Inl (ValidationError ''Firewall list download was incomplete'')
            else case utf8_decode nt bytes of
              None \<Rightarrow> Inl (ValidationError ''Firewall list source must contain valid UTF-8 text'')
            | Some t \<Rightarrow> Inr (Text t))
       | _ \<Rightarrow> Inl (ValidationError ''Firewall list download was incomplete''))"

definition readResponse :: "net \<Rightarrow> url \<Rightarrow> address list \<Rightarrow> reply result" where
  "readResponse nt u addresses =
     (case http_get nt u addresses of
        Inl _ \<Rightarrow> Inl (ValidationError ''Firewall list download failed'')
      | Inr r \<Rightarrow>
          (if rs_status r \<in> set REDIRECT_STATUSES then
             (case rs_location r of
                None \<Rightarrow> Inl (ValidationError ''Firewall list redirect is missing its destination'')
              | Some l \<Rightarrow> if l = [] then Inl (ValidationError ''Firewall list redirect is missing its destination'')
                          else Inr (Redirect l))
           else if rs_status r \<noteq> 200 then Inl (ValidationError (''Firewall list source returned HTTP '' @ int_str (rs_status r)))
           else if (case rs_encoding r of None \<Rightarrow> False | Some e \<Rightarrow> e \<noteq> [] \<and> js_lower (js_trim e) \<noteq> ''identity'')
           then Inl (ValidationError ''Firewall list source must return uncompressed text'')
           else if (case rs_length r of None \<Rightarrow> False
                    | Some h \<Rightarrow> h = [] \<or> \<not> list_all is_digit h \<or> MAX_BYTES < digits_value h)
           then Inl (ValidationError ''Firewall list download exceeds the 8 MiB limit or has an invalid size'')
           else read_body nt r))"

text \<open>\<open>n\<close> is the number of redirects that may still be followed.\<close>

fun download_from :: "ip_lib \<Rightarrow> url_lib \<Rightarrow> net \<Rightarrow> nat \<Rightarrow> url \<Rightarrow> string result \<times> trace" where
  "download_from lib ul nt n u =
     (case resolvePublicAddresses lib ul nt u of
        Inl e \<Rightarrow> (Inl e, [])
      | Inr addresses \<Rightarrow>
          (case readResponse nt u addresses of
             Inl e \<Rightarrow> (Inl e, [(u, addresses)])
           | Inr (Text t) \<Rightarrow> (Inr t, [(u, addresses)])
           | Inr (Redirect l) \<Rightarrow>
               (case n of
                  0 \<Rightarrow> (Inl (ValidationError ''Firewall list source exceeded the maximum of 3 redirects''), [(u, addresses)])
                | Suc m \<Rightarrow>
                    (case (case join_url nt l u of None \<Rightarrow> Inl (JSTypeError ''Invalid URL'')
                           | Some href \<Rightarrow> validateSourceUrl lib ul (JStr href)) of
                       Inl _ \<Rightarrow> (Inl (ValidationError ''Firewall list redirect destination is invalid or not public HTTPS''), [(u, addresses)])
                     | Inr u' \<Rightarrow> (let (r, tr) = download_from lib ul nt m u' in (r, (u, addresses) # tr))))))"

definition download :: "ip_lib \<Rightarrow> url_lib \<Rightarrow> net \<Rightarrow> jsval \<Rightarrow> string result \<times> trace" where
  "download lib ul nt sourceUrl =
     (case validateSourceUrl lib ul sourceUrl of
        Inl e \<Rightarrow> (Inl e, [])
      | Inr u \<Rightarrow> download_from lib ul nt MAX_REDIRECTS u)"

text \<open>\<open>late\<close> tells that the fifteen second timer fires before the download settles.\<close>

definition fetchIpList :: "ip_lib \<Rightarrow> url_lib \<Rightarrow> net \<Rightarrow> bool \<Rightarrow> jsval \<Rightarrow> string result \<times> trace" where
  "fetchIpList lib ul nt late sourceUrl =
     (let (r, tr) = download lib ul nt sourceUrl in
      (if late then Inl (ValidationError ''Firewall list download exceeded the 15 second timeout'')
       else case r of
         Inl (ValidationError e) \<Rightarrow> Inl (ValidationError e)
       | Inl _ \<Rightarrow> Inl (ValidationError ''Firewall list download failed'')
       | Inr t \<Rightarrow> Inr t, tr))"

declare download_from.simps [simp del]

section \<open>Sending a notification\<close>

definition discord_host :: "string \<Rightarrow> bool" where
  "discord_host h \<longleftrightarrow> js_lower h \<in> {''discord.com'', ''canary.discord.com'', ''ptb.discord.com''}"

definition word_char :: "char \<Rightarrow> bool" where
  "word_char c \<longleftrightarrow> is_alnum c \<or> c = CHR ''_''"

fun discord_tail :: "string list \<Rightarrow> bool" where
  "discord_tail [w, i, t] \<longleftrightarrow> w = ''webhooks'' \<and> i \<noteq> [] \<and> list_all is_digit i \<and> t \<noteq> [] \<and>
     list_all (\<lambda>c. word_char c \<or> c = CHR ''-'') t"
| "discord_tail _ \<longleftrightarrow> False"

text \<open>\<open>/^\/api(?:\/v\d+)?\/webhooks\/\d+\/[\w-]+$/\<close>\<close>

definition discord_path :: "string \<Rightarrow> bool" where
  "discord_path p \<longleftrightarrow>
     (case split_char (CHR ''/'') p of
        e # a # rest \<Rightarrow>
          e = [] \<and> a = ''api'' \<and>
          (discord_tail rest \<or>
           (case rest of v # rest' \<Rightarrow> starts_with v ''v'' \<and> tl v \<noteq> [] \<and> list_all is_digit (tl v) \<and> discord_tail rest'
            | [] \<Rightarrow> False))
      | _ \<Rightarrow> False)"

definition validateNotificationUrl :: "ip_lib \<Rightarrow> url_lib \<Rightarrow> jsval \<Rightarrow> string \<Rightarrow> url result" where
  "validateNotificationUrl lib ul v type =
     (case validateSourceUrl lib ul v of
        Inl _ \<Rightarrow> Inl (ValidationError ''Notification endpoint must be a public HTTPS URL without URL credentials'')
      | Inr u \<Rightarrow>
          (if type = ''discord'' \<and> (\<not> discord_host (url_hostname u) \<or> \<not> discord_path (url_pathname u))
           then Inl (ValidationError ''Discord requires a discord.com API webhook URL'')
           else Inr u))"

record payload =
  pl_event :: string
  pl_incident_id :: nat
  pl_host_id :: int
  pl_state :: string
  pl_message :: string
  pl_checked_at :: string

definition payload_obj :: "payload \<Rightarrow> jsval" where
  "payload_obj p = JObj [(''event'', JStr (pl_event p)), (''incident_id'', JNum (int (pl_incident_id p))),
     (''host_id'', JNum (pl_host_id p)), (''state'', JStr (pl_state p)), (''message'', JStr (pl_message p)),
     (''checked_at'', JStr (pl_checked_at p))]"

record post =
  po_url :: url
  po_port :: string
  po_path :: string
  po_servername :: string
  po_addresses :: "address list"
  po_headers :: "(string \<times> string) list"
  po_body :: string

text \<open>\<open>stop i\<close> is the reason of an abort seen at the \<open>i\<close>-th test of the signal; \<open>send\<close> answers a request
  with the status of the response or the error of the connection.\<close>

definition notification_text :: "payload \<Rightarrow> string" where
  "notification_text p = ''ShieldPM '' @ js_upper (pl_state p) @ '': host #'' @ int_str (pl_host_id p) @ '', incident #'' @
     nat_str (pl_incident_id p) @ [CHR 10] @ pl_message p @ [CHR 10] @ pl_checked_at p"

definition notification_body :: "string \<Rightarrow> payload \<Rightarrow> string" where
  "notification_body type p =
     (if type = ''ntfy'' then notification_text p
      else json_text (if type = ''discord''
             then JObj [(''content'', JStr (notification_text p)), (''allowed_mentions'', JObj [(''parse'', JArr [])])]
             else payload_obj p))"

definition notification_post :: "string \<Rightarrow> jsval \<Rightarrow> payload \<Rightarrow> nat \<Rightarrow> url \<Rightarrow> address list \<Rightarrow> post" where
  "notification_post type secret p deliveryId u addresses =
     (let hostname = strip_brackets (url_hostname u); body = notification_body type p; token = js_get secret ''token''
      in \<lparr>po_url = u, po_port = (if url_port u = [] then ''443'' else url_port u),
           po_path = url_pathname u @ url_search u,
           po_servername = (if isIP hostname \<noteq> 0 then [] else hostname),
           po_addresses = addresses,
           po_headers = [(''Host'', url_host u),
             (''Content-Type'', if type = ''ntfy'' then ''text/plain; charset=utf-8'' else ''application/json''),
             (''Content-Length'', nat_str (utf8_length body)),
             (''User-Agent'', ''ShieldPM-Notifications/1''),
             (''Idempotency-Key'', ''shieldpm-delivery-'' @ nat_str deliveryId)] @
             (if truthy token then [(''Authorization'', ''Bearer '' @ str_of token)] else []),
           po_body = body\<rparr>)"

definition post_result :: "(post \<Rightarrow> int result) \<Rightarrow> post \<Rightarrow> int result" where
  "post_result send rq =
     (case send rq of
        Inl _ \<Rightarrow> Inl (InternalError ''Notification connection failed'')
      | Inr status \<Rightarrow>
          if 200 \<le> status \<and> status < 300 then Inr status
          else Inl (InternalError (''Notification endpoint returned HTTP '' @ int_str status)))"

definition deliverNotification ::
  "ip_lib \<Rightarrow> url_lib \<Rightarrow> net \<Rightarrow> (post \<Rightarrow> int result) \<Rightarrow> (nat \<Rightarrow> err option) \<Rightarrow> string \<Rightarrow> jsval \<Rightarrow> payload \<Rightarrow> nat
     \<Rightarrow> int result \<times> post option" where
  "deliverNotification lib ul nt send stop type secret p deliveryId =
     (case validateNotificationUrl lib ul (js_get secret ''url'') type of
        Inl e \<Rightarrow> (Inl e, None)
      | Inr u \<Rightarrow>
          (case stop 0 of
             Some e \<Rightarrow> (Inl e, None)
           | None \<Rightarrow>
               (let hostname = strip_brackets (url_hostname u) in
                case (if isIP hostname \<noteq> 0 then Inr [(hostname, isIP hostname)]
                      else if stop 1 \<noteq> None then Inl (InternalError ''Notification request timed out'')
                      else dns_lookup nt hostname) of
                  Inl e \<Rightarrow> (Inl e, None)
                | Inr addresses \<Rightarrow>
                    (case stop 2 of
                       Some e \<Rightarrow> (Inl e, None)
                     | None \<Rightarrow>
                         (if \<not> public_addresses lib ul addresses
                          then (Inl (ValidationError ''Notification endpoint must resolve only to public IP addresses''), None)
                          else
                            (let rq = notification_post type secret p deliveryId u addresses
                             in (post_result send rq, Some rq)))))))"

section \<open>Properties\<close>

lemma validated_url:
  assumes "validateSourceUrl lib ul v = Inr u"
  shows "url_protocol u = ''https:'' \<and> url_hostname u \<noteq> [] \<and> url_username u = [] \<and> url_password u = [] \<and>
     (isIP (strip_brackets (url_hostname u)) \<noteq> 0 \<longrightarrow> isPublicAddress lib ul (strip_brackets (url_hostname u)))"
  using assms by (auto simp: validateSourceUrl_def Let_def split: jsval.splits if_splits option.splits)

lemma resolve_public: "resolvePublicAddresses lib ul nt u = Inr addresses \<Longrightarrow> public_addresses lib ul addresses"
  by (auto simp: resolvePublicAddresses_def Let_def res_simps split: if_splits)

text \<open>A request of the trace that may leave the server.\<close>

definition safe_request :: "ip_lib \<Rightarrow> url_lib \<Rightarrow> url \<times> address list \<Rightarrow> bool" where
  "safe_request lib ul q \<longleftrightarrow>
     url_protocol (fst q) = ''https:'' \<and> url_username (fst q) = [] \<and> url_password (fst q) = [] \<and> public_addresses lib ul (snd q)"

lemma download_from_safe:
  assumes "validateSourceUrl lib ul v = Inr u"
  shows "(\<forall>q \<in> set (snd (download_from lib ul nt n u)). safe_request lib ul q) \<and> length (snd (download_from lib ul nt n u)) \<le> Suc n"
  using assms
proof (induction n arbitrary: u v)
  case 0
  then show ?case
    using validated_url [OF 0] resolve_public [of lib ul nt u]
    by (simp add: download_from.simps [of lib ul nt 0 u] safe_request_def split: sum.split reply.split)
next
  case (Suc n)
  have q: "safe_request lib ul (u, addresses)" if "resolvePublicAddresses lib ul nt u = Inr addresses" for addresses
    using validated_url [OF Suc.prems] resolve_public [OF that] by (simp add: safe_request_def)
  have rec: "(\<forall>q \<in> set (snd (download_from lib ul nt n u')). safe_request lib ul q) \<and> length (snd (download_from lib ul nt n u')) \<le> Suc n"
    if "validateSourceUrl lib ul (JStr href) = Inr u'" for href u' using Suc.IH [OF that] .
  show ?case
    unfolding download_from.simps [of lib ul nt "Suc n" u] using q rec
    by (simp add: case_prod_beta split: sum.split reply.split option.split)
qed

text \<open>C22. A download never reaches a private destination. Whatever the remote side answers, at most four requests
  are made, each over HTTPS to an address without credentials, and each with a nonempty list of
  resolved addresses that are all public; the socket layer can only pick from that list.\<close>

theorem fetch_reaches_public_only:
  assumes "fetchIpList lib ul nt late sourceUrl = (r, tr)"
  shows "length tr \<le> 4 \<and> (\<forall>q \<in> set tr. safe_request lib ul q \<and>
     (\<forall>family all as. pinnedLookup (snd q) family all = Inr as \<longrightarrow> as \<noteq> [] \<and> (\<forall>a \<in> set as. isPublicAddress lib ul (fst a))))"
proof -
  have tr: "tr = snd (download lib ul nt sourceUrl)" using assms by (auto simp: fetchIpList_def Let_def split: prod.splits)
  have d: "(\<forall>q \<in> set tr. safe_request lib ul q) \<and> length tr \<le> 4"
  proof (cases "validateSourceUrl lib ul sourceUrl")
    case (Inl e)
    then show ?thesis by (simp add: tr download_def)
  next
    case (Inr u)
    from download_from_safe [OF Inr, of nt 3] show ?thesis by (simp add: tr download_def Inr MAX_REDIRECTS_def)
  qed
  have "as \<noteq> [] \<and> (\<forall>a \<in> set as. isPublicAddress lib ul (fst a))"
    if "safe_request lib ul q" "pinnedLookup (snd q) family all = Inr as" for q family all as
  proof -
    define cs where "cs = (case family of None \<Rightarrow> snd q | Some f \<Rightarrow> filter (\<lambda>a. snd a = f) (snd q))"
    have "set cs \<subseteq> set (snd q)" by (auto simp: cs_def split: option.splits)
    moreover have "as \<noteq> []" "set as \<subseteq> set cs" using that(2) unfolding pinnedLookup_def cs_def [symmetric] Let_def
      by (auto split: if_splits)
    ultimately show ?thesis using that(1) by (auto simp: safe_request_def public_addresses_def)
  qed
  with d show ?thesis by blast
qed

lemma receive_ok: "receive cs got = Inr bytes \<Longrightarrow> bytes = got @ concat cs \<and> (length got \<le> MAX_BYTES \<longrightarrow> length bytes \<le> MAX_BYTES)"
  by (induction cs got rule: receive.induct) (auto split: if_splits)

text \<open>What a response must be for its text to be used.\<close>

definition complete_response :: "net \<Rightarrow> response \<Rightarrow> string \<Rightarrow> bool" where
  "complete_response nt r t \<longleftrightarrow>
     rs_status r = 200 \<and> rs_end r = Ended True \<and> length (concat (rs_chunks r)) \<le> MAX_BYTES \<and>
     (\<forall>h. rs_length r = Some h \<longrightarrow> digits_value h = length (concat (rs_chunks r))) \<and>
     utf8_decode nt (concat (rs_chunks r)) = Some t"

lemma read_text:
  assumes "readResponse nt u addresses = Inr (Text t)"
  shows "\<exists>r. http_get nt u addresses = Inr r \<and> complete_response nt r t"
proof -
  from assms obtain r where r: "http_get nt u addresses = Inr r" by (auto simp: readResponse_def split: sum.splits)
  have "rs_status r \<notin> set REDIRECT_STATUSES"
  proof
    assume "rs_status r \<in> set REDIRECT_STATUSES"
    with assms show False by (simp add: readResponse_def r split: option.splits if_splits)
  qed
  with assms have b: "rs_status r = 200" "read_body nt r = Inr (Text t)" by (simp_all add: readResponse_def r split: if_splits)
  from b(2) obtain bytes where g: "receive (rs_chunks r) [] = Inr bytes" by (auto simp: read_body_def res_simps)
  with b(2) have "rs_end r = Ended True" "utf8_decode nt bytes = Some t"
      "\<not> (case rs_length r of None \<Rightarrow> False | Some h \<Rightarrow> digits_value h \<noteq> length bytes)"
    by (simp_all add: read_body_def split: body_end.splits if_splits option.splits)
  with receive_ok [OF g] b(1) r show ?thesis by (auto simp: complete_response_def split: option.splits)
qed

lemma download_text:
  assumes "download_from lib ul nt n u = (Inr t, tr)"
  shows "tr \<noteq> [] \<and> (\<exists>r. http_get nt (fst (last tr)) (snd (last tr)) = Inr r \<and> complete_response nt r t)"
  using assms
proof (induction n arbitrary: u tr)
  case 0
  then show ?case
    by (auto simp: download_from.simps [of lib ul nt 0 u] split: sum.splits reply.splits dest!: read_text)
next
  case (Suc n)
  from Suc.prems obtain addresses where a: "resolvePublicAddresses lib ul nt u = Inr addresses"
    by (auto simp: download_from.simps [of lib ul nt "Suc n" u] split: sum.splits)
  show ?case
  proof (cases "\<exists>t'. readResponse nt u addresses = Inr (Text t')")
    case True
    then obtain t' where t': "readResponse nt u addresses = Inr (Text t')" by blast
    with Suc.prems a have "t' = t" "tr = [(u, addresses)]" by (simp_all add: download_from.simps [of lib ul nt "Suc n" u])
    with read_text [OF t'] show ?thesis by simp
  next
    case False
    with Suc.prems a obtain u' tr' where "download_from lib ul nt n u' = (Inr t, tr')" "tr = (u, addresses) # tr'"
      by (auto simp: download_from.simps [of lib ul nt "Suc n" u] split: sum.splits reply.splits option.splits prod.splits)
    with Suc.IH show ?thesis by fastforce
  qed
qed

text \<open>What a download returns is one complete answer. A returned text is the decoded body of the last
  request of the trace, which answered with status 200, was at most eight mebibytes long, ended
  completely and had the announced length; every failure is a validation error.\<close>

theorem fetch_returns_complete_text:
  assumes "fetchIpList lib ul nt late sourceUrl = (res, tr)"
  shows "case res of
       Inl e \<Rightarrow> \<exists>m. e = ValidationError m
     | Inr t \<Rightarrow> \<not> late \<and> tr \<noteq> [] \<and> (\<exists>r. http_get nt (fst (last tr)) (snd (last tr)) = Inr r \<and> complete_response nt r t)"
proof -
  obtain r0 where d: "download lib ul nt sourceUrl = (r0, tr)" using assms
    by (auto simp: fetchIpList_def Let_def split: prod.splits)
  have res: "res = (if late then Inl (ValidationError ''Firewall list download exceeded the 15 second timeout'')
       else case r0 of
         Inl (ValidationError e) \<Rightarrow> Inl (ValidationError e)
       | Inl _ \<Rightarrow> Inl (ValidationError ''Firewall list download failed'')
       | Inr t \<Rightarrow> Inr t)" using assms by (simp add: fetchIpList_def d)
  show ?thesis
  proof (cases res)
    case (Inl e)
    with res show ?thesis by (auto split: if_splits sum.splits err.splits)
  next
    case (Inr t)
    with res have "\<not> late" "r0 = Inr t" by (auto split: if_splits sum.splits err.splits)
    with d obtain u where "download_from lib ul nt MAX_REDIRECTS u = (Inr t, tr)"
      by (auto simp: download_def split: sum.splits)
    from download_text [OF this] Inr \<open>\<not> late\<close> show ?thesis by simp
  qed
qed

lemma notification_endpoint:
  assumes "deliverNotification lib ul nt send stop type secret p i = (r, Some rq)"
  shows "validateNotificationUrl lib ul (js_get secret ''url'') type = Inr (po_url rq) \<and>
     safe_request lib ul (po_url rq, po_addresses rq) \<and>
     (type = ''discord'' \<longrightarrow> discord_host (url_hostname (po_url rq))) \<and>
     map_of (po_headers rq) ''Idempotency-Key'' = Some (''shieldpm-delivery-'' @ nat_str i) \<and>
     (map_of (po_headers rq) ''Authorization'' \<noteq> None \<longleftrightarrow> truthy (js_get secret ''token'')) \<and>
     po_body rq = notification_body type p \<and>
     r = post_result send rq"
proof -
  from assms obtain u where u: "validateNotificationUrl lib ul (js_get secret ''url'') type = Inr u"
    by (cases "validateNotificationUrl lib ul (js_get secret ''url'') type") (simp_all add: deliverNotification_def)
  then obtain v where v: "validateSourceUrl lib ul v = Inr u" "type = ''discord'' \<longrightarrow> discord_host (url_hostname u)"
    by (auto simp: validateNotificationUrl_def split: sum.splits if_splits)
  from assms have s0: "stop 0 = None" by (cases "stop 0") (simp_all add: deliverNotification_def u)
  define found where "found = (let hostname = strip_brackets (url_hostname u) in
      if isIP hostname \<noteq> 0 then Inr [(hostname, isIP hostname)]
      else if stop 1 \<noteq> None then Inl (InternalError ''Notification request timed out'')
      else dns_lookup nt hostname)"
  have d: "(case found of Inl e \<Rightarrow> (Inl e, None)
      | Inr addresses \<Rightarrow> (case stop 2 of Some e \<Rightarrow> (Inl e, None)
         | None \<Rightarrow> (if \<not> public_addresses lib ul addresses
              then (Inl (ValidationError ''Notification endpoint must resolve only to public IP addresses''), None)
              else (let rq = notification_post type secret p i u addresses in (post_result send rq, Some rq))))) = (r, Some rq)"
    using assms unfolding deliverNotification_def u s0 Let_def found_def by simp
  then obtain a where f: "found = Inr a" by (cases found) simp_all
  from d have "stop 2 = None" by (cases "stop 2") (simp_all add: f)
  with d f have a: "public_addresses lib ul a" "rq = notification_post type secret p i u a" "r = post_result send rq"
    by (auto simp: Let_def split: if_splits)
  have rq: "po_url rq = u" "po_addresses rq = a" "po_body rq = notification_body type p"
      "map_of (po_headers rq) ''Idempotency-Key'' = Some (''shieldpm-delivery-'' @ nat_str i)"
      "map_of (po_headers rq) ''Authorization'' \<noteq> None \<longleftrightarrow> truthy (js_get secret ''token'')"
    by (simp_all add: a(2) notification_post_def Let_def)
  show ?thesis
    using u v(2) validated_url [OF v(1)] a(1,3) rq by (simp add: safe_request_def)
qed

lemma notification_request_safe:
  "deliverNotification lib ul nt send stop type secret p i = (r, Some rq) \<Longrightarrow> safe_request lib ul (po_url rq, po_addresses rq)"
  by (drule notification_endpoint) blast

text \<open>A notification leaves the server only for a validated public HTTPS endpoint. When a request is made, the
  stored address passed validation for the target's type, the socket addresses are all public, the
  body and headers are those of this delivery, and the bearer token is sent only if one is stored.\<close>

theorem notification_endpoint_safe:
  assumes "deliverNotification lib ul nt send stop type secret p i = (r, Some rq)"
  shows "validateNotificationUrl lib ul (js_get secret ''url'') type = Inr (po_url rq) \<and>
     safe_request lib ul (po_url rq, po_addresses rq) \<and>
     (type = ''discord'' \<longrightarrow> discord_host (url_hostname (po_url rq))) \<and>
     map_of (po_headers rq) ''Idempotency-Key'' = Some (''shieldpm-delivery-'' @ nat_str i) \<and>
     (map_of (po_headers rq) ''Authorization'' \<noteq> None \<longleftrightarrow> truthy (js_get secret ''token'')) \<and>
     po_body rq = notification_body type p \<and>
     r = post_result send rq"
  using assms by (rule notification_endpoint)

section \<open>Concrete runs\<close>

definition url0 :: "string \<Rightarrow> url" where
  "url0 h = \<lparr>url_protocol = ''https:'', url_hostname = h, url_username = [], url_password = [], url_hash = [],
     url_href = ''https://'' @ h, url_host = h, url_port = [], url_pathname = ''/'', url_search = []\<rparr>"

definition moved :: response where
  "moved = \<lparr>rs_status = 302, rs_location = Some ''https://b.example'', rs_encoding = None, rs_length = None,
     rs_chunks = [], rs_end = Ended True\<rparr>"

definition found0 :: response where
  "found0 = \<lparr>rs_status = 200, rs_location = None, rs_encoding = None, rs_length = Some ''2'',
     rs_chunks = [[65], [66]], rs_end = Ended True\<rparr>"

definition net0 :: net where
  "net0 = \<lparr>dns_lookup = (\<lambda>_. Inr [(''8.8.8.8'', 4)]),
     http_get = (\<lambda>u as. if url_hostname u = ''a.example'' then Inr moved else Inr found0),
     join_url = (\<lambda>l u. Some l), utf8_decode = (\<lambda>bs. Some (map (\<lambda>b. char_of (unat b)) bs))\<rparr>"

lemma found0_text: "read_body net0 found0 = Inr (Text ''AB'')"
proof -
  have "digits_value ''2'' = 2" "map (\<lambda>b. char_of (unat b)) [65, 66 :: 8 word] = ''AB''" by code_simp+
  then show ?thesis by (simp add: read_body_def found0_def MAX_BYTES_def net0_def)
qed

lemma fetch_run:
  "fetchIpList ip0 ul0 net0 False (JStr ''https://a.example'') =
     (Inr ''AB'', [(url0 ''a.example'', [(''8.8.8.8'', 4)]), (url0 ''b.example'', [(''8.8.8.8'', 4)])])"
proof -
  have v: "validateSourceUrl ip0 ul0 (JStr ''https://a.example'') = Inr (url0 ''a.example'')"
    "validateSourceUrl ip0 ul0 (JStr ''https://b.example'') = Inr (url0 ''b.example'')" by code_simp+
  have r: "resolvePublicAddresses ip0 ul0 net0 (url0 ''a.example'') = Inr [(''8.8.8.8'', 4)]"
    "resolvePublicAddresses ip0 ul0 net0 (url0 ''b.example'') = Inr [(''8.8.8.8'', 4)]" by code_simp+
  have "digits_value ''2'' = 2" "list_all is_digit ''2''" by code_simp+
  then have h: "\<not> (case rs_length found0 of None \<Rightarrow> False | Some h \<Rightarrow> h = [] \<or> \<not> list_all is_digit h \<or> MAX_BYTES < digits_value h)"
    by (simp add: found0_def MAX_BYTES_def)
  have g: "http_get net0 (url0 ''a.example'') as = Inr moved" "http_get net0 (url0 ''b.example'') as = Inr found0" for as
    by (simp_all add: net0_def url0_def)
  have t: "readResponse net0 (url0 ''a.example'') as = Inr (Redirect ''https://b.example'')" for as
    by (simp add: readResponse_def g moved_def REDIRECT_STATUSES_def)
  have "rs_status found0 = 200" "rs_encoding found0 = None" by (simp_all add: found0_def)
  then have t2: "readResponse net0 (url0 ''b.example'') as = Inr (Text ''AB'')" for as
    using h by (simp add: readResponse_def g REDIRECT_STATUSES_def found0_text)
  have j: "join_url net0 l u = Some l" for l u by (simp add: net0_def)
  show ?thesis
    by (simp add: fetchIpList_def download_def v(1) MAX_REDIRECTS_def numeral_3_eq_3 download_from.simps r t t2 j v(2))
qed

theorem fetch_reaches_public_only_witness:
  "length [(url0 ''a.example'', [(''8.8.8.8'', 4 :: nat)]), (url0 ''b.example'', [(''8.8.8.8'', 4)])] \<le> 4 \<and>
   safe_request ip0 ul0 (url0 ''b.example'', [(''8.8.8.8'', 4)])"
  using fetch_reaches_public_only [OF fetch_run] by simp

theorem fetch_returns_complete_text_witness:
  "fetchIpList ip0 ul0 net0 False (JStr ''https://a.example'') =
     (Inr ''AB'', [(url0 ''a.example'', [(''8.8.8.8'', 4)]), (url0 ''b.example'', [(''8.8.8.8'', 4)])]) \<and>
   (\<exists>r. http_get net0 (url0 ''b.example'') [(''8.8.8.8'', 4)] = Inr r \<and> complete_response net0 r ''AB'')"
  using fetch_returns_complete_text [OF fetch_run] fetch_run by simp

definition payload_down :: payload where
  "payload_down = \<lparr>pl_event = ''incident.opened'', pl_incident_id = 3, pl_host_id = 7, pl_state = ''down'',
     pl_message = ''HTTP 502'', pl_checked_at = ''2026-01-01T00:00:00.000Z''\<rparr>"

definition secret0 :: jsval where
  "secret0 = JObj [(''url'', JStr ''https://hooks.example''), (''token'', JStr ''abc'')]"

theorem notification_endpoint_safe_witness:
  "\<exists>rq. deliverNotification ip0 ul0 net0 (\<lambda>_. Inr 204) (\<lambda>_. None) ''webhook'' secret0 payload_down 9 = (Inr 204, Some rq) \<and>
     safe_request ip0 ul0 (po_url rq, po_addresses rq) \<and> map_of (po_headers rq) ''Authorization'' \<noteq> None"
proof -
  have v: "validateNotificationUrl ip0 ul0 (js_get secret0 ''url'') ''webhook'' = Inr (url0 ''hooks.example'')"
    "isIP (strip_brackets (url_hostname (url0 ''hooks.example''))) = 0"
    "dns_lookup net0 (strip_brackets (url_hostname (url0 ''hooks.example''))) = Inr [(''8.8.8.8'', 4)]"
    "public_addresses ip0 ul0 [(''8.8.8.8'', 4)]" "truthy (js_get secret0 ''token'')" by code_simp+
  have d: "deliverNotification ip0 ul0 net0 (\<lambda>_. Inr 204) (\<lambda>_. None) ''webhook'' secret0 payload_down 9 =
      (Inr 204, Some (notification_post ''webhook'' secret0 payload_down 9 (url0 ''hooks.example'') [(''8.8.8.8'', 4)]))"
    by (simp add: deliverNotification_def v Let_def post_result_def)
  from notification_endpoint_safe [OF d] v(5) d show ?thesis by blast
qed

end
