(* ===== verification/Incidents.thy ===== *)
theory Incidents
  imports Monitor_Data Audit_Log Outbound_Requests
begin

text \<open>
  The incident centre: \<open>backend/internal/incidents.js\<close> over the tables of
  \<open>backend/models/monitor_incident.js\<close>, with the unique indexes of their migration.

  An operation that reads the clock takes the reading \<open>now\<close>. An operation of the interface returns
  its result with the new tables; an error leaves them as they were. Parameters, in \<open>notify_env\<close>: the
  address and URL libraries, the network, the encryption of stored secrets and the JSON parser.
\<close>

section \<open>Tables\<close>

record incident =
  in_id :: nat
  in_host_id :: int
  in_opened_at :: int
  in_resolved_at :: "int option"
  in_last_seen_at :: int
  in_resolution :: "string option"
  in_failure_count :: nat
  in_message :: string

record observation =
  ob_host_id :: int
  ob_checked_at :: int
  ob_state :: check_state
  ob_interval_seconds :: int

record daily =
  da_host_id :: int
  da_day :: int
  da_up_ms :: int
  da_down_ms :: int
  da_checks :: nat

record latency =
  la_host_id :: int
  la_bucket :: int
  la_samples :: nat
  la_total_ms :: int
  la_min_ms :: int
  la_max_ms :: int

record mute =
  mu_host_id :: int
  mu_starts_at :: int
  mu_ends_at :: int
  mu_reason :: string

record target =
  nt_id :: nat
  nt_owner_user_id :: int
  nt_name :: string
  nt_type :: string
  nt_enabled :: bool
  nt_host_ids :: "int list"
  nt_secret :: string
  nt_version :: int

datatype delivery_status = Pending | Sending | Sent | Delivery_failed | Muted | Cancelled

record delivery =
  nd_id :: nat
  nd_target_id :: nat
  nd_incident_id :: nat
  nd_host_id :: int
  nd_event :: string
  nd_payload :: payload
  nd_status :: delivery_status
  nd_attempts :: nat
  nd_next_attempt_at :: int
  nd_last_error :: "string option"
  nd_created_on :: int
  nd_sent_at :: "int option"

record incident_db =
  i_hosts :: "proxy_host list"
  i_incidents :: "incident list"
  i_observations :: "observation list"
  i_daily :: "daily list"
  i_latency :: "latency list"
  i_mutes :: "mute list"
  i_targets :: "target list"
  i_deliveries :: "delivery list"
  i_audit :: "audit_row list"
  i_incident_seq :: nat
  i_target_seq :: nat
  i_delivery_seq :: nat
  i_audit_seq :: nat

definition MAX_ATTEMPTS :: nat where
  "MAX_ATTEMPTS = 5"

section \<open>Helpers\<close>

definition idNumber :: "jsval \<Rightarrow> int result" where
  "idNumber v =
     (case js_number v of
        JNum n \<Rightarrow> if \<bar>n\<bar> \<le> MAX_SAFE_INTEGER \<and> 0 < n then Inr n else Inl (ValidationError ''Invalid identifier'')
      | _ \<Rightarrow> Inl (ValidationError ''Invalid identifier''))"

text \<open>A target as the API shows it: without its secret.\<close>

record public_target =
  pt_id :: nat
  pt_owner_user_id :: int
  pt_name :: string
  pt_type :: string
  pt_enabled :: bool
  pt_host_ids :: "int list"
  pt_version :: int
  pt_has_credentials :: bool

definition publicTarget :: "target \<Rightarrow> public_target" where
  "publicTarget t = \<lparr>pt_id = nt_id t, pt_owner_user_id = nt_owner_user_id t, pt_name = nt_name t, pt_type = nt_type t,
     pt_enabled = nt_enabled t, pt_host_ids = nt_host_ids t, pt_version = nt_version t, pt_has_credentials = (nt_secret t \<noteq> [])\<rparr>"

text \<open>The hosts a permission lets its caller see.\<close>

definition visible :: "access \<Rightarrow> jsval \<Rightarrow> proxy_host \<Rightarrow> bool" where
  "visible acc permission h \<longleftrightarrow>
     \<not> ph_is_deleted h \<and> (permission = JBool True \<or> sees_all permission \<or> JNum (ph_owner_user_id h) = acc_user acc 1)"

definition getHost :: "access \<Rightarrow> jsval \<Rightarrow> string \<Rightarrow> incident_db \<Rightarrow> proxy_host result" where
  "getHost acc hostId op db =
     rbind (idNumber hostId) (\<lambda>i.
     rbind (acc_can acc (''proxy_hosts:'' @ op) (JNum i)) (\<lambda>permission.
       case List.find (\<lambda>h. ph_id h = i \<and> visible acc permission h) (i_hosts db) of
         None \<Rightarrow> Inl (mk_ItemNotFoundError (int_str i))
       | Some h \<Rightarrow> Inr h))"

text \<open>\<open>ownTarget\<close> after the permission check.\<close>

definition findTarget :: "access \<Rightarrow> jsval \<Rightarrow> incident_db \<Rightarrow> target result" where
  "findTarget acc targetId db =
     rbind (idNumber targetId) (\<lambda>i.
       case List.find (\<lambda>t. int (nt_id t) = i \<and> JNum (nt_owner_user_id t) = acc_user acc 1) (i_targets db) of
         None \<Rightarrow> Inl (mk_ItemNotFoundError (js_string targetId))
       | Some t \<Rightarrow> Inr t)"

definition ownTarget :: "access \<Rightarrow> jsval \<Rightarrow> string \<Rightarrow> incident_db \<Rightarrow> target result" where
  "ownTarget acc targetId op db = rbind (acc_can acc (''proxy_hosts:'' @ op) Undef) (\<lambda>_. findTarget acc targetId db)"

definition getMute :: "int \<Rightarrow> incident_db \<Rightarrow> mute option" where
  "getMute hostId db = List.find (\<lambda>m. mu_host_id m = hostId) (i_mutes db)"

definition isMuted :: "int \<Rightarrow> int \<Rightarrow> incident_db \<Rightarrow> bool" where
  "isMuted hostId checkedAt db =
     (case getMute hostId db of None \<Rightarrow> False | Some m \<Rightarrow> mu_starts_at m \<le> checkedAt \<and> checkedAt < mu_ends_at m)"

section \<open>Accepted checks\<close>

text \<open>The row of a host and day is unique; the amounts are added to it.\<close>

definition addDaily :: "int \<Rightarrow> int \<Rightarrow> int \<Rightarrow> int \<Rightarrow> nat \<Rightarrow> daily list \<Rightarrow> daily list" where
  "addDaily hostId day up down n ds =
     (if (\<exists>d \<in> set ds. da_host_id d = hostId \<and> da_day d = day)
      then patch_where (\<lambda>d. da_host_id d = hostId \<and> da_day d = day)
             (\<lambda>d. d\<lparr>da_up_ms := da_up_ms d + up, da_down_ms := da_down_ms d + down, da_checks := da_checks d + n\<rparr>) ds
      else ds @ [\<lparr>da_host_id = hostId, da_day = day, da_up_ms = up, da_down_ms = down, da_checks = n\<rparr>])"

text \<open>The loop that splits a span of time at the ends of the days.\<close>

function add_span :: "int \<Rightarrow> check_state \<Rightarrow> int \<Rightarrow> int \<Rightarrow> daily list \<Rightarrow> daily list" where
  "add_span hostId st start finish ds =
     (if start < finish then
        (let day = day_of start; boundary = min finish (day_start day + DAY_MS); ms = boundary - start
         in add_span hostId st boundary finish
              (addDaily hostId day (if st = St_up then ms else 0) (if st = St_down then ms else 0) 0 ds))
      else ds)"
  by pat_completeness auto
termination
proof (relation "measure (\<lambda>(_, _, start, finish, _). nat (finish - start))")
  show "wf (measure (\<lambda>(_, _, start, finish, _). nat (finish - start)))" by simp
next
  fix hostId st start finish ds x y z
  assume "start < finish" "(x :: int) = day_of start" "y = min finish (day_start x + DAY_MS)" "z = y - start"
  then show "((hostId, st, y, finish, addDaily hostId x (if st = St_up then z else 0) (if st = St_down then z else 0) 0 ds), hostId, st, start, finish, ds)
      \<in> measure (\<lambda>(_, _, start, finish, _). nat (finish - start))"
    using day_of_bounds(2) [of start] by simp
qed

declare add_span.simps [simp del]

definition addLatency :: "int \<Rightarrow> int \<Rightarrow> int \<Rightarrow> latency list \<Rightarrow> latency list" where
  "addLatency hostId bucket ms ls =
     (let v = max 0 ms
      in if (\<exists>l \<in> set ls. la_host_id l = hostId \<and> la_bucket l = bucket)
         then patch_where (\<lambda>l. la_host_id l = hostId \<and> la_bucket l = bucket)
                (\<lambda>l. l\<lparr>la_samples := la_samples l + 1, la_total_ms := la_total_ms l + v,
                       la_min_ms := min (la_min_ms l) v, la_max_ms := max (la_max_ms l) v\<rparr>) ls
         else ls @ [\<lparr>la_host_id = hostId, la_bucket = bucket, la_samples = 1, la_total_ms = v, la_min_ms = v, la_max_ms = v\<rparr>])"

definition mute_error :: string where
  "mute_error = ''Suppressed by scheduled alarm mute''"

text \<open>One row of the outbox. The index over incident, event and target is unique.\<close>

definition insertDelivery :: "delivery \<Rightarrow> incident_db \<Rightarrow> incident_db result" where
  "insertDelivery d db =
     (if (\<exists>e \<in> set (i_deliveries db). nd_incident_id e = nd_incident_id d \<and> nd_event e = nd_event d \<and> nd_target_id e = nd_target_id d)
      then Inl (DBError ''UniqueViolationError'')
      else Inr (db\<lparr>i_deliveries := i_deliveries db @ [d\<lparr>nd_id := i_delivery_seq db\<rparr>], i_delivery_seq := Suc (i_delivery_seq db)\<rparr>))"

definition subscribed :: "target \<Rightarrow> int \<Rightarrow> bool" where
  "subscribed t hostId \<longleftrightarrow> nt_host_ids t = [] \<or> hostId \<in> set (nt_host_ids t)"

definition new_delivery :: "proxy_host \<Rightarrow> nat \<Rightarrow> string \<Rightarrow> check_result \<Rightarrow> int \<Rightarrow> bool \<Rightarrow> target \<Rightarrow> delivery" where
  "new_delivery host incidentId event res checkedAt muted t =
     \<lparr>nd_id = 0, nd_target_id = nt_id t, nd_incident_id = incidentId, nd_host_id = ph_id host, nd_event = event,
      nd_payload = \<lparr>pl_event = event, pl_incident_id = incidentId, pl_host_id = ph_id host,
        pl_state = state_text (cr_state res), pl_message = plain_text (JStr (cr_message res)) 255,
        pl_checked_at = iso_string checkedAt\<rparr>,
      nd_status = (if muted then Muted else Pending), nd_attempts = 0, nd_next_attempt_at = checkedAt,
      nd_last_error = (if muted then Some mute_error else None), nd_created_on = checkedAt, nd_sent_at = None\<rparr>"

definition enqueue ::
  "proxy_host \<Rightarrow> bool \<Rightarrow> nat \<Rightarrow> string \<Rightarrow> check_result \<Rightarrow> int \<Rightarrow> bool \<Rightarrow> incident_db \<Rightarrow> incident_db result" where
  "enqueue host alerts incidentId event res checkedAt muted db =
     (if \<not> alerts then Inr db
      else rfold (\<lambda>t. insertDelivery (new_delivery host incidentId event res checkedAt muted t))
             (filter (\<lambda>t. subscribed t (ph_id host))
               (take 100 (filter (\<lambda>t. nt_owner_user_id t = ph_owner_user_id host \<and> nt_enabled t) (i_targets db)))) db)"

definition open_incident :: "int \<Rightarrow> incident_db \<Rightarrow> incident option" where
  "open_incident hostId db = List.find (\<lambda>i. in_host_id i = hostId \<and> in_resolved_at i = None) (i_incidents db)"

definition patch_incident :: "nat \<Rightarrow> (incident \<Rightarrow> incident) \<Rightarrow> incident_db \<Rightarrow> incident_db" where
  "patch_incident i f db = db\<lparr>i_incidents := patch_where (\<lambda>x. in_id x = i) f (i_incidents db)\<rparr>"

text \<open>The opening, extension and closing of incidents.\<close>

definition recordIncident ::
  "proxy_host \<Rightarrow> bool \<Rightarrow> check_result \<Rightarrow> int \<Rightarrow> bool \<Rightarrow> incident_db \<Rightarrow> incident_db result" where
  "recordIncident host alerts res checkedAt muted db =
     (case cr_state res of
        St_down \<Rightarrow>
          (case open_incident (ph_id host) db of
             Some i \<Rightarrow> Inr (patch_incident (in_id i) (\<lambda>x. x\<lparr>in_last_seen_at := checkedAt,
                 in_failure_count := in_failure_count i + 1, in_message := plain_text (JStr (cr_message res)) 255\<rparr>) db)
           | None \<Rightarrow>
               (let n = i_incident_seq db;
                    db1 = db\<lparr>i_incidents := i_incidents db @ [\<lparr>in_id = n, in_host_id = ph_id host, in_opened_at = checkedAt,
                        in_resolved_at = None, in_last_seen_at = checkedAt, in_resolution = None, in_failure_count = 1,
                        in_message = plain_text (JStr (cr_message res)) 255\<rparr>], i_incident_seq := Suc n\<rparr>
                in enqueue host alerts n ''incident.opened'' res checkedAt muted db1))
      | St_up \<Rightarrow>
          (case open_incident (ph_id host) db of
             None \<Rightarrow> Inr db
           | Some i \<Rightarrow>
               enqueue host alerts (in_id i) ''incident.resolved'' res checkedAt muted
                 (patch_incident (in_id i) (\<lambda>x. x\<lparr>in_resolved_at := Some checkedAt, in_last_seen_at := checkedAt,
                    in_resolution := Some ''recovered''\<rparr>) db))
      | St_unknown \<Rightarrow> Inr db)"

definition find_observation :: "int \<Rightarrow> incident_db \<Rightarrow> observation option" where
  "find_observation hostId db = List.find (\<lambda>o'. ob_host_id o' = hostId) (i_observations db)"

definition put_observation :: "observation \<Rightarrow> observation list \<Rightarrow> observation list" where
  "put_observation v os =
     (if (\<exists>o' \<in> set os. ob_host_id o' = ob_host_id v) then patch_where (\<lambda>o'. ob_host_id o' = ob_host_id v) (\<lambda>_. v) os
      else os @ [v])"

text \<open>The day totals a check adds: the time since the previous observation, as far as its interval reaches,
  and one check on the day of this one.\<close>

definition credit_days :: "int \<Rightarrow> observation option \<Rightarrow> int \<Rightarrow> daily list \<Rightarrow> daily list" where
  "credit_days hostId prev checkedAt ds =
     addDaily hostId (day_of checkedAt) 0 0 1
       (case prev of
          None \<Rightarrow> ds
        | Some p \<Rightarrow>
            if ob_state p = St_unknown then ds
            else add_span hostId (ob_state p) (ob_checked_at p)
                   (min checkedAt (ob_checked_at p + ob_interval_seconds p * 1000)) ds)"

definition recordCheck ::
  "proxy_host \<Rightarrow> monitor_row \<Rightarrow> check_result \<Rightarrow> int \<Rightarrow> bool \<Rightarrow> incident_db \<Rightarrow> incident_db result" where
  "recordCheck host config res checkedAt muted db =
     (let prev = find_observation (ph_id host) db in
      if (case prev of Some p \<Rightarrow> checkedAt \<le> ob_checked_at p | None \<Rightarrow> False) then Inr db
      else
        recordIncident host (m_alert_enabled config) res checkedAt muted
          (db\<lparr>i_daily := credit_days (ph_id host) prev checkedAt (i_daily db),
              i_latency := (if cr_state res = St_up
                 then addLatency (ph_id host) (minute_of checkedAt) (cr_response_ms res) (i_latency db) else i_latency db),
              i_observations := put_observation \<lparr>ob_host_id = ph_id host, ob_checked_at = checkedAt,
                 ob_state = cr_state res, ob_interval_seconds = m_interval_seconds config\<rparr> (i_observations db)\<rparr>))"

definition resetHost :: "int \<Rightarrow> int \<Rightarrow> incident_db \<Rightarrow> incident_db" where
  "resetHost now hostId db =
     db\<lparr>i_observations := delete_where (\<lambda>o'. ob_host_id o' = hostId) (i_observations db),
        i_incidents := patch_where (\<lambda>i. in_host_id i = hostId \<and> in_resolved_at i = None)
          (\<lambda>i. i\<lparr>in_resolved_at := Some now, in_resolution := Some ''monitor_changed''\<rparr>) (i_incidents db)\<rparr>"

definition removeHost :: "int \<Rightarrow> incident_db \<Rightarrow> incident_db" where
  "removeHost hostId db =
     db\<lparr>i_deliveries := delete_where (\<lambda>x. nd_host_id x = hostId) (i_deliveries db),
        i_incidents := delete_where (\<lambda>x. in_host_id x = hostId) (i_incidents db),
        i_observations := delete_where (\<lambda>x. ob_host_id x = hostId) (i_observations db),
        i_daily := delete_where (\<lambda>x. da_host_id x = hostId) (i_daily db),
        i_latency := delete_where (\<lambda>x. la_host_id x = hostId) (i_latency db),
        i_mutes := delete_where (\<lambda>x. mu_host_id x = hostId) (i_mutes db)\<rparr>"

end
