(* ===== verification/Incident_Service.thy ===== *)
theory Incident_Service
  imports Incidents
begin

text \<open>
  The interface and the notification worker of \<open>backend/internal/incidents.js\<close>: lists, daily
  availability, mutes, notification targets, the outbox and its delivery.

  Delivering one row is two steps, because the request to the remote side runs between two
  statements on the database: \<open>deliver_claim\<close> is the transaction that takes the row, \<open>deliver_settle\<close> what
  follows the request. Percentages are kept as the exact fraction whose floating point quotient
  the code returns.
\<close>

section \<open>Parameters\<close>

record notify_env =
  ne_lib :: ip_lib
  ne_ul :: url_lib
  ne_net :: net
  ne_send :: "post \<Rightarrow> int result"
  ne_stop :: "nat \<Rightarrow> err option"
  ne_encrypt :: "string \<Rightarrow> string"
  ne_decrypt :: "string \<Rightarrow> string result"
  ne_parse :: "string \<Rightarrow> jsval option"

definition stored_secret :: "notify_env \<Rightarrow> target \<Rightarrow> jsval result" where
  "stored_secret env t =
     rbind (ne_decrypt env (nt_secret t)) (\<lambda>s.
       case ne_parse env s of None \<Rightarrow> Inl (JSTypeError ''Unexpected token'') | Some v \<Rightarrow> Inr v)"

definition add_audit :: "access \<Rightarrow> int \<Rightarrow> string \<Rightarrow> string \<Rightarrow> int \<Rightarrow> (string \<times> jsval) list \<Rightarrow> incident_db \<Rightarrow> incident_db result" where
  "add_audit acc now action objectType objectId meta db =
     rbind (audit_add acc now \<lparr>ev_action = action, ev_object_type = objectType, ev_object_id = JNum objectId, ev_meta = JObj meta\<rparr>
              (i_audit db) (i_audit_seq db)) (\<lambda>(log, n).
       Inr (db\<lparr>i_audit := log, i_audit_seq := n\<rparr>))"

section \<open>Lists\<close>

record host_summary =
  hs_id :: int
  hs_domain_names :: "string list"
  hs_enabled :: bool
  hs_owned :: bool

definition hosts :: "access \<Rightarrow> incident_db \<Rightarrow> host_summary list result" where
  "hosts acc db =
     rbind (acc_can acc ''proxy_hosts:list'' Undef) (\<lambda>permission.
       Inr (map (\<lambda>h. \<lparr>hs_id = ph_id h, hs_domain_names = ph_host_domains h, hs_enabled = ph_enabled h,
                      hs_owned = (JNum (ph_owner_user_id h) = acc_user acc 1)\<rparr>)
              (take 2000 (sort_key ph_id (filter (visible acc permission) (i_hosts db))))))"

record list_options =
  lo_host_id :: jsval
  lo_status :: string
  lo_before :: jsval

text \<open>A falsy option is not applied; another must be an identifier.\<close>

definition opt_id :: "jsval \<Rightarrow> int option result" where
  "opt_id v = (if truthy v then rbind (idNumber v) (\<lambda>i. Inr (Some i)) else Inr None)"

definition incident_list :: "access \<Rightarrow> list_options \<Rightarrow> incident_db \<Rightarrow> incident list result" where
  "incident_list acc opts db =
     rbind (acc_can acc ''proxy_hosts:list'' Undef) (\<lambda>permission.
     rbind (opt_id (lo_host_id opts)) (\<lambda>hostId.
     rbind (opt_id (lo_before opts)) (\<lambda>before.
       Inr (take 100 (rev (sort_key in_id (filter (\<lambda>i.
         (\<exists>h \<in> set (i_hosts db). ph_id h = in_host_id i \<and> visible acc permission h) \<and>
         (case hostId of None \<Rightarrow> True | Some x \<Rightarrow> in_host_id i = x) \<and>
         (if lo_status opts = ''open'' then in_resolved_at i = None
          else if lo_status opts = ''resolved'' then in_resolved_at i \<noteq> None else True) \<and>
         (case before of None \<Rightarrow> True | Some x \<Rightarrow> int (in_id i) < x)) (i_incidents db))))))))"

section \<open>Daily availability\<close>

record day_report =
  dr_day :: int
  dr_up_ms :: int
  dr_down_ms :: int
  dr_unknown_ms :: int
  dr_coverage :: "int \<times> int"
  dr_uptime :: "(int \<times> int) option"
  dr_checks :: nat

text \<open>One day of the report. A current observation extends the stored totals up to now, as far as its
  interval reaches.\<close>

definition live_ms :: "int \<Rightarrow> int \<Rightarrow> observation \<Rightarrow> int" where
  "live_ms now date ob =
     (let start = max date (ob_checked_at ob);
          finish = min (min now (date + DAY_MS)) (ob_checked_at ob + ob_interval_seconds ob * 1000)
      in if start < finish then finish - start else 0)"

definition day_line :: "int \<Rightarrow> bool \<Rightarrow> observation option \<Rightarrow> daily list \<Rightarrow> int \<Rightarrow> day_report" where
  "day_line now enabled ob rows day =
     (let row = List.find (\<lambda>d. da_day d = day) (rev rows);
          date = day_start day;
          duration = max 0 (min DAY_MS (now - date));
          up0 = (case row of None \<Rightarrow> 0 | Some d \<Rightarrow> da_up_ms d);
          down0 = (case row of None \<Rightarrow> 0 | Some d \<Rightarrow> da_down_ms d);
          up = up0 + (case ob of None \<Rightarrow> 0 | Some x \<Rightarrow> if ob_state x = St_up \<and> enabled then live_ms now date x else 0);
          down = down0 + (case ob of None \<Rightarrow> 0 | Some x \<Rightarrow> if ob_state x = St_down \<and> enabled then live_ms now date x else 0);
          known = up + down
      in \<lparr>dr_day = day, dr_up_ms = up, dr_down_ms = down, dr_unknown_ms = max 0 (duration - known),
          dr_coverage = (if duration = 0 then (0, 1) else (known, duration)),
          dr_uptime = (if known = 0 then None else Some (up, known)),
          dr_checks = (case row of None \<Rightarrow> 0 | Some d \<Rightarrow> da_checks d)\<rparr>)"

record host_detail =
  hd_host_id :: int
  hd_daily :: "day_report list"
  hd_mute :: "mute option"
  hd_latency :: "latency list"
  hd_current :: "observation option"

definition hostDetail :: "access \<Rightarrow> int \<Rightarrow> jsval \<Rightarrow> jsval \<Rightarrow> incident_db \<Rightarrow> host_detail result" where
  "hostDetail acc now hostId days db =
     rbind (getHost acc hostId ''get'' db) (\<lambda>host.
       case js_number days of
         JNum n \<Rightarrow>
           (if n < 1 \<or> 365 < n then Inl (ValidationError ''Days must be from 1 to 365'')
            else
              (let today = day_of now; first = today - (n - 1);
                   rows = filter (\<lambda>d. da_host_id d = ph_id host \<and> first \<le> da_day d) (i_daily db);
                   ob = find_observation (ph_id host) db
               in Inr \<lparr>hd_host_id = ph_id host,
                    hd_daily = map (day_line now (ph_enabled host) ob rows) [first..today],
                    hd_mute = getMute (ph_id host) db,
                    hd_latency = take 1441 (sort_key la_bucket (filter (\<lambda>l. la_host_id l = ph_id host \<and>
                      now - DAY_MS \<le> la_bucket l * 60000) (i_latency db))),
                    hd_current = ob\<rparr>))
       | _ \<Rightarrow> Inl (ValidationError ''Days must be from 1 to 365''))"

section \<open>Mutes\<close>

text \<open>\<open>Date.parse\<close> of the two ends of the window is a parameter (\<open>None\<close> for NaN).\<close>

record mute_input =
  mi_starts_at :: "int option"
  mi_ends_at :: "int option"
  mi_reason :: jsval

definition mute_obj :: "mute \<Rightarrow> jsval" where
  "mute_obj m = JObj [(''host_id'', JNum (mu_host_id m)), (''starts_at'', JStr (iso_string (mu_starts_at m))),
     (''ends_at'', JStr (iso_string (mu_ends_at m))), (''reason'', JStr (mu_reason m))]"

definition setMute :: "access \<Rightarrow> int \<Rightarrow> jsval \<Rightarrow> mute_input option \<Rightarrow> incident_db \<Rightarrow> (mute option \<times> incident_db) result" where
  "setMute acc now hostId data db =
     rbind (getHost acc hostId ''update'' db) (\<lambda>host.
       case data of
         None \<Rightarrow>
           rbind (add_audit acc now ''updated'' ''proxy-host'' (ph_id host) [(''alarm_mute'', Null)]
                    (db\<lparr>i_mutes := delete_where (\<lambda>m. mu_host_id m = ph_id host) (i_mutes db)\<rparr>)) (\<lambda>db'. Inr (None, db'))
       | Some d \<Rightarrow>
           (case (mi_starts_at d, mi_ends_at d) of
              (Some s, Some e) \<Rightarrow>
                (if e \<le> s \<or> 366 * DAY_MS < e - s \<or> e \<le> now
                 then Inl (ValidationError ''Provide a future alarm mute window, at most 366 days'')
                 else
                   (let m = \<lparr>mu_host_id = ph_id host, mu_starts_at = s, mu_ends_at = e, mu_reason = plain_text (mi_reason d) 255\<rparr>;
                        ms = (if (\<exists>x \<in> set (i_mutes db). mu_host_id x = ph_id host)
                              then patch_where (\<lambda>x. mu_host_id x = ph_id host) (\<lambda>_. m) (i_mutes db) else i_mutes db @ [m])
                    in rbind (add_audit acc now ''updated'' ''proxy-host'' (ph_id host) [(''alarm_mute'', mute_obj m)]
                                (db\<lparr>i_mutes := ms\<rparr>)) (\<lambda>db'. Inr (Some m, db'))))
            | _ \<Rightarrow> Inl (ValidationError ''Provide a future alarm mute window, at most 366 days'')))"

section \<open>Targets\<close>

definition targets :: "access \<Rightarrow> incident_db \<Rightarrow> public_target list result" where
  "targets acc db =
     rbind (acc_can acc ''proxy_hosts:list'' Undef) (\<lambda>_.
       Inr (map publicTarget (sort_key nt_id (filter (\<lambda>t. JNum (nt_owner_user_id t) = acc_user acc 1) (i_targets db)))))"

record target_input =
  ti_name :: string
  ti_type :: string
  ti_enabled :: bool
  ti_host_ids :: "int list"
  ti_url :: jsval
  ti_token :: jsval
  ti_version :: jsval

definition token_ok :: "jsval \<Rightarrow> bool" where
  "token_ok token \<longleftrightarrow> truthy token \<longrightarrow>
     is_str token \<and> CHR 10 \<notin> set (str_of token) \<and> CHR 13 \<notin> set (str_of token) \<and> length (str_of token) \<le> 4096"

definition target_meta :: "target \<Rightarrow> (string \<times> jsval) list" where
  "target_meta t = [(''name'', JStr (nt_name t)), (''module'', JStr ''notification-channel''),
     (''channel_type'', JStr (nt_type t)), (''target_id'', JNum (int (nt_id t)))]"

text \<open>The body of the transaction of \<open>saveTarget\<close>: the row to store and the table after it.\<close>

definition target_row :: "notify_env \<Rightarrow> int \<Rightarrow> target option \<Rightarrow> target_input \<Rightarrow> nat \<Rightarrow> target result" where
  "target_row env owner current data fresh =
     rbind (case current of
              Some c \<Rightarrow> if JNum (nt_version c) \<noteq> ti_version data
                        then Inl (ValidationError ''Notification target changed; reload before saving'')
                        else if nt_type c = ti_type data then stored_secret env c else Inr (JObj [])
            | None \<Rightarrow> Inr (JObj [])) (\<lambda>old.
       let url = (if truthy (ti_url data) then ti_url data else js_get old ''url'');
           token = (if ti_token data = Undef
                    then (if truthy (js_get old ''token'') then js_get old ''token'' else JStr []) else ti_token data)
       in
       rbind (validateNotificationUrl (ne_lib env) (ne_ul env) url (ti_type data)) (\<lambda>_.
       if \<not> token_ok token then Inl (ValidationError ''Invalid notification bearer token'')
       else Inr \<lparr>nt_id = (case current of Some c \<Rightarrow> nt_id c | None \<Rightarrow> fresh), nt_owner_user_id = owner,
              nt_name = ti_name data, nt_type = ti_type data, nt_enabled = ti_enabled data, nt_host_ids = ti_host_ids data,
              nt_secret = ne_encrypt env (json_text (JObj [(''url'', url), (''token'', token)])),
              nt_version = (case current of Some c \<Rightarrow> nt_version c | None \<Rightarrow> 0) + 1\<rparr>))"

definition put_target :: "target option \<Rightarrow> target \<Rightarrow> incident_db \<Rightarrow> incident_db" where
  "put_target current row db =
     (case current of
        Some c \<Rightarrow> db\<lparr>i_targets := patch_where (\<lambda>t. nt_id t = nt_id c) (\<lambda>_. row) (i_targets db)\<rparr>
      | None \<Rightarrow> db\<lparr>i_targets := i_targets db @ [row], i_target_seq := Suc (i_target_seq db)\<rparr>)"

definition own_hosts_only :: "access \<Rightarrow> int list \<Rightarrow> incident_db \<Rightarrow> unit result" where
  "own_hosts_only acc ids db =
     rfold (\<lambda>i _. rbind (getHost acc (JNum i) ''update'' db) (\<lambda>host.
       rguard (JNum (ph_owner_user_id host) = acc_user acc 1)
         (ValidationError ''Notification targets may subscribe only to your own hosts''))) ids ()"

definition saveTarget ::
  "notify_env \<Rightarrow> access \<Rightarrow> int \<Rightarrow> jsval \<Rightarrow> target_input \<Rightarrow> incident_db \<Rightarrow> (public_target \<times> incident_db) result" where
  "saveTarget env acc now targetId data db =
     rbind (acc_can acc ''proxy_hosts:update'' Undef) (\<lambda>_.
     if \<not> truthy targetId \<and> 100 \<le> count_where (\<lambda>t. JNum (nt_owner_user_id t) = acc_user acc 1) (i_targets db)
     then Inl (ValidationError ''At most 100 notification targets are allowed'')
     else
     rbind (own_hosts_only acc (ti_host_ids data) db) (\<lambda>_.
     rbind (if truthy targetId then rbind (findTarget acc targetId db) (\<lambda>t. Inr (Some t)) else Inr None) (\<lambda>current.
     rbind (target_row env (int_of (acc_user acc 1)) current data (i_target_seq db)) (\<lambda>row.
     rbind (add_audit acc now (if truthy targetId then ''updated'' else ''created'') ''setting'' (int (nt_id row))
              (target_meta row @ [(''enabled'', JBool (nt_enabled row)), (''host_ids'', JArr (map JNum (nt_host_ids row)))])
              (put_target current row db)) (\<lambda>db2.
       Inr (publicTarget row, db2))))))"

definition deleteTarget :: "access \<Rightarrow> int \<Rightarrow> jsval \<Rightarrow> incident_db \<Rightarrow> incident_db result" where
  "deleteTarget acc now targetId db =
     rbind (ownTarget acc targetId ''update'' db) (\<lambda>t.
       add_audit acc now ''deleted'' ''setting'' (int (nt_id t)) (target_meta t)
         (db\<lparr>i_deliveries := delete_where (\<lambda>d. nd_target_id d = nt_id t) (i_deliveries db),
             i_targets := delete_where (\<lambda>x. nt_id x = nt_id t) (i_targets db)\<rparr>))"

section \<open>The outbox\<close>

definition deliveries :: "access \<Rightarrow> incident_db \<Rightarrow> (delivery \<times> string) list result" where
  "deliveries acc db =
     rbind (acc_can acc ''proxy_hosts:list'' Undef) (\<lambda>_.
       Inr (take 100 (rev (sort_key (\<lambda>x. nd_id (fst x)) (List.maps (\<lambda>d.
         map (\<lambda>t. (d, nt_name t)) (filter (\<lambda>t. nt_id t = nd_target_id d \<and> JNum (nt_owner_user_id t) = acc_user acc 1) (i_targets db)))
         (i_deliveries db))))))"

definition patch_delivery :: "nat \<Rightarrow> (delivery \<Rightarrow> delivery) \<Rightarrow> incident_db \<Rightarrow> incident_db" where
  "patch_delivery i f db = db\<lparr>i_deliveries := patch_where (\<lambda>d. nd_id d = i) f (i_deliveries db)\<rparr>"

definition retry_row :: "access \<Rightarrow> int \<Rightarrow> delivery \<Rightarrow> incident_db \<Rightarrow> incident_db result" where
  "retry_row acc now row db =
     (if nd_status row \<notin> {Delivery_failed, Pending, Muted}
      then Inl (ValidationError ''Only failed, pending or muted deliveries may be retried'')
      else
        (let hit = (\<lambda>d. nd_id d = nd_id row \<and> nd_status d = nd_status row \<and> nd_attempts d = nd_attempts row)
         in if count_where hit (i_deliveries db) = 0
            then Inl (ValidationError ''Delivery changed while retrying; refresh its status'')
            else add_audit acc now ''updated'' ''setting'' (int (nd_target_id row))
                   [(''name'', JStr ''Notification delivery retry''), (''module'', JStr ''notification-channel''),
                    (''delivery_id'', JNum (int (nd_id row))), (''target_id'', JNum (int (nd_target_id row))),
                    (''host_id'', JNum (nd_host_id row)), (''incident_id'', JNum (int (nd_incident_id row)))]
                   (db\<lparr>i_deliveries := patch_where hit (\<lambda>d. d\<lparr>nd_status := Pending, nd_attempts := 0,
                       nd_next_attempt_at := now, nd_last_error := None\<rparr>) (i_deliveries db)\<rparr>)))"

definition retry :: "access \<Rightarrow> int \<Rightarrow> jsval \<Rightarrow> incident_db \<Rightarrow> incident_db result" where
  "retry acc now deliveryId db =
     rbind (idNumber deliveryId) (\<lambda>i.
       case List.find (\<lambda>d. int (nd_id d) = i) (i_deliveries db) of
         None \<Rightarrow> Inl (mk_ItemNotFoundError (js_string deliveryId))
       | Some row \<Rightarrow>
           rbind (ownTarget acc (JNum (int (nd_target_id row))) ''update'' db) (\<lambda>_.
           rbind (getHost acc (JNum (nd_host_id row)) ''update'' db) (\<lambda>_. retry_row acc now row db)))"

text \<open>\<open>deliverOne\<close>. The row object holds the values it was patched with.\<close>

definition deliver_claim :: "int \<Rightarrow> nat \<Rightarrow> incident_db \<Rightarrow> delivery option \<times> incident_db" where
  "deliver_claim now i db =
     (case List.find (\<lambda>d. nd_id d = i) (i_deliveries db) of
        None \<Rightarrow> (None, db)
      | Some row \<Rightarrow>
          (if nd_status row \<noteq> Pending \<or> now < nd_next_attempt_at row then (None, db)
           else
             (let taken = row\<lparr>nd_status := Sending, nd_attempts := nd_attempts row + 1, nd_next_attempt_at := now + 300000\<rparr>
              in (Some taken, patch_delivery i (\<lambda>d. d\<lparr>nd_status := Sending, nd_attempts := nd_attempts row + 1,
                    nd_next_attempt_at := now + 300000\<rparr>) db))))"

definition failure_message :: "err \<Rightarrow> string" where
  "failure_message e =
     (let m = err_message e; p = ''Notification endpoint returned HTTP ''
      in if starts_with m p \<and> length m = length p + 3 \<and> list_all is_digit (drop (length p) m) then m
         else ''Notification delivery failed; check endpoint, HTTPS and credentials'')"

definition backoff_ms :: "nat \<Rightarrow> int" where
  "backoff_ms attempts = min 3600000 (30000 * 2 ^ (attempts - 1))"

text \<open>The target a claimed row may be sent to, if it still may.\<close>

definition delivery_target :: "delivery \<Rightarrow> incident_db \<Rightarrow> target option" where
  "delivery_target d db =
     (case (List.find (\<lambda>t. nt_id t = nd_target_id d) (i_targets db),
            List.find (\<lambda>h. ph_id h = nd_host_id d \<and> \<not> ph_is_deleted h) (i_hosts db)) of
        (Some t, Some h) \<Rightarrow>
          if nt_enabled t \<and> ph_owner_user_id h = nt_owner_user_id t \<and> subscribed t (ph_id h) then Some t else None
      | _ \<Rightarrow> None)"

text \<open>The request, if one is made, and the outcome.\<close>

definition attempt :: "notify_env \<Rightarrow> delivery \<Rightarrow> target \<Rightarrow> int result \<times> post option" where
  "attempt env d t =
     (case stored_secret env t of
        Inl e \<Rightarrow> (Inl e, None)
      | Inr secret \<Rightarrow> deliverNotification (ne_lib env) (ne_ul env) (ne_net env) (ne_send env) (ne_stop env)
                        (nt_type t) secret (nd_payload d) (nd_id d))"

definition deliver_settle :: "notify_env \<Rightarrow> int \<Rightarrow> delivery \<Rightarrow> incident_db \<Rightarrow> incident_db \<times> post option" where
  "deliver_settle env now d db =
     (case delivery_target d db of
        None \<Rightarrow> (patch_delivery (nd_id d) (\<lambda>x. x\<lparr>nd_status := Cancelled,
                   nd_last_error := Some ''Target or host subscription is no longer enabled''\<rparr>) db, None)
      | Some t \<Rightarrow>
          (if isMuted (nd_host_id d) now db
           then (patch_delivery (nd_id d) (\<lambda>x. x\<lparr>nd_status := Muted, nd_last_error := Some mute_error\<rparr>) db, None)
           else
             (let (r, rq) = attempt env d t
              in (case r of
                    Inr _ \<Rightarrow> patch_delivery (nd_id d) (\<lambda>x. x\<lparr>nd_status := Sent, nd_sent_at := Some now, nd_last_error := None\<rparr>) db
                  | Inl e \<Rightarrow> patch_delivery (nd_id d) (\<lambda>x. x\<lparr>nd_status := (if MAX_ATTEMPTS \<le> nd_attempts d then Delivery_failed else Pending),
                        nd_next_attempt_at := now + backoff_ms (nd_attempts d), nd_last_error := Some (failure_message e)\<rparr>) db, rq))))"

definition deliverOne :: "notify_env \<Rightarrow> int \<Rightarrow> nat \<Rightarrow> incident_db \<Rightarrow> incident_db \<times> post option" where
  "deliverOne env now i db =
     (case deliver_claim now i db of
        (None, db1) \<Rightarrow> (db1, None)
      | (Some d, db1) \<Rightarrow> deliver_settle env now d db1)"

text \<open>Rows whose sender was interrupted: the lease of five minutes has run out.\<close>

definition recover_sending :: "int \<Rightarrow> incident_db \<Rightarrow> incident_db" where
  "recover_sending now db =
     db\<lparr>i_deliveries :=
       patch_where (\<lambda>d. nd_status d = Sending \<and> nd_next_attempt_at d \<le> now \<and> nd_attempts d < MAX_ATTEMPTS)
         (\<lambda>d. d\<lparr>nd_status := Pending, nd_last_error := Some ''Previous delivery attempt was interrupted''\<rparr>)
         (patch_where (\<lambda>d. nd_status d = Sending \<and> nd_next_attempt_at d \<le> now \<and> MAX_ATTEMPTS \<le> nd_attempts d)
           (\<lambda>d. d\<lparr>nd_status := Delivery_failed, nd_last_error := Some ''Final delivery attempt was interrupted; retry explicitly if needed''\<rparr>)
           (i_deliveries db))\<rparr>"

definition due_deliveries :: "int \<Rightarrow> incident_db \<Rightarrow> nat list" where
  "due_deliveries now db =
     take 20 (sort (map nd_id (filter (\<lambda>d. nd_status d = Pending \<and> nd_next_attempt_at d \<le> now) (i_deliveries db))))"

definition cleanup :: "int \<Rightarrow> incident_db \<Rightarrow> incident_db" where
  "cleanup now db =
     db\<lparr>i_latency := delete_where (\<lambda>l. la_bucket l * 60000 < now - 7 * DAY_MS) (i_latency db),
        i_daily := delete_where (\<lambda>d. da_day d < day_of (now - 366 * DAY_MS)) (i_daily db),
        i_deliveries := delete_where (\<lambda>d. nd_created_on d < now - 366 * DAY_MS \<and> nd_status d \<noteq> Sending) (i_deliveries db),
        i_incidents := delete_where (\<lambda>i. case in_resolved_at i of None \<Rightarrow> False | Some r \<Rightarrow> r < now - 366 * DAY_MS) (i_incidents db)\<rparr>"

record worker =
  wk_timer :: bool
  wk_running :: bool
  wk_aborted :: bool
  wk_lastCleanup :: int

text \<open>One pass of the worker, with one reading of the clock; the requests it made are listed.\<close>

fun deliver_all :: "notify_env \<Rightarrow> int \<Rightarrow> nat list \<Rightarrow> incident_db \<Rightarrow> incident_db \<times> post list" where
  "deliver_all env now [] db = (db, [])"
| "deliver_all env now (i # is) db =
     (let (db1, rq) = deliverOne env now i db; (db2, rqs) = deliver_all env now is db1
      in (db2, (case rq of None \<Rightarrow> [] | Some q \<Rightarrow> [q]) @ rqs))"

definition incidents_tick :: "notify_env \<Rightarrow> int \<Rightarrow> worker \<Rightarrow> incident_db \<Rightarrow> worker \<times> incident_db \<times> post list" where
  "incidents_tick env now w db =
     (if wk_running w \<or> wk_aborted w then (w, db, [])
      else
        (let db1 = recover_sending now db;
             (db2, rqs) = deliver_all env now (due_deliveries now db1) db1
         in if now - wk_lastCleanup w > 3600000 then (w\<lparr>wk_lastCleanup := now\<rparr>, cleanup now db2, rqs)
            else (w, db2, rqs)))"

definition incidents_init :: "notify_env \<Rightarrow> int \<Rightarrow> worker \<Rightarrow> incident_db \<Rightarrow> worker \<times> incident_db \<times> post list" where
  "incidents_init env now w db =
     (if wk_timer w then (w, db, []) else incidents_tick env now (w\<lparr>wk_timer := True, wk_aborted := False\<rparr>) db)"

definition incidents_stop :: "worker \<Rightarrow> worker" where
  "incidents_stop w = w\<lparr>wk_timer := False, wk_aborted := True\<rparr>"

end
