(* ===== verification/Incident_Props.thy ===== *)
theory Incident_Props
  imports Incident_Service
begin

text \<open>
  The incident centre as a transition system and its invariants: the availability of a day is never
  counted twice, a host has at most one open incident, the outbox never holds two rows for the same
  event and target, and a row is attempted at most \<open>MAX_ATTEMPTS\<close> times before it needs an explicit retry.
\<close>

section \<open>Transitions\<close>

text \<open>The state: the tables, for every host the time of the latest event on it, and the rows whose request
  is under way. The worker does not start a pass while another runs, so interrupted rows are only
  recovered when no request is under way; \<open>s_restart\<close> is a restart of the process.\<close>

record inc_state =
  is_db :: incident_db
  is_clock :: "int \<Rightarrow> int"
  is_flight :: "delivery list"

inductive inc_step :: "notify_env \<Rightarrow> inc_state \<Rightarrow> inc_state \<Rightarrow> bool" for env where
  s_clock: "(\<And>h. is_clock s h \<le> c h) \<Longrightarrow> inc_step env s (s\<lparr>is_clock := c\<rparr>)"
| s_hosts: "inc_step env s (s\<lparr>is_db := (is_db s)\<lparr>i_hosts := hs\<rparr>\<rparr>)"
| s_record: "recordCheck host config res (is_clock s (ph_id host)) muted (is_db s) = Inr db' \<Longrightarrow> inc_step env s (s\<lparr>is_db := db'\<rparr>)"
| s_reset: "inc_step env s (s\<lparr>is_db := resetHost now h (is_db s)\<rparr>)"
| s_remove: "inc_step env s (s\<lparr>is_db := removeHost h (is_db s)\<rparr>)"
| s_mute: "setMute acc now h data (is_db s) = Inr (m, db') \<Longrightarrow> inc_step env s (s\<lparr>is_db := db'\<rparr>)"
| s_save: "saveTarget env acc now t input (is_db s) = Inr (p, db') \<Longrightarrow> inc_step env s (s\<lparr>is_db := db'\<rparr>)"
| s_delete: "deleteTarget acc now t (is_db s) = Inr db' \<Longrightarrow> inc_step env s (s\<lparr>is_db := db'\<rparr>)"
| s_retry: "retry acc now i (is_db s) = Inr db' \<Longrightarrow> inc_step env s (s\<lparr>is_db := db'\<rparr>)"
| s_claim: "deliver_claim now n (is_db s) = (Some d, db') \<Longrightarrow> inc_step env s (s\<lparr>is_db := db', is_flight := d # is_flight s\<rparr>)"
| s_settle: "d \<in> set (is_flight s) \<Longrightarrow> deliver_settle env now d (is_db s) = (db', rq) \<Longrightarrow>
     inc_step env s (s\<lparr>is_db := db', is_flight := remove1 d (is_flight s)\<rparr>)"
| s_recover: "is_flight s = [] \<Longrightarrow> inc_step env s (s\<lparr>is_db := recover_sending now (is_db s)\<rparr>)"
| s_cleanup: "inc_step env s (s\<lparr>is_db := cleanup now (is_db s)\<rparr>)"
| s_restart: "inc_step env s (s\<lparr>is_flight := []\<rparr>)"

definition inc_empty :: "proxy_host list \<Rightarrow> inc_state" where
  "inc_empty hs = \<lparr>is_db = \<lparr>i_hosts = hs, i_incidents = [], i_observations = [], i_daily = [], i_latency = [], i_mutes = [],
       i_targets = [], i_deliveries = [], i_audit = [], i_incident_seq = 1, i_target_seq = 1, i_delivery_seq = 1, i_audit_seq = 1\<rparr>,
     is_clock = (\<lambda>_. 0), is_flight = []\<rparr>"

definition inc_reachable :: "notify_env \<Rightarrow> inc_state \<Rightarrow> bool" where
  "inc_reachable env s \<longleftrightarrow> (\<exists>hs. (inc_step env)\<^sup>*\<^sup>* (inc_empty hs) s)"

section \<open>What the operations leave alone\<close>

definition same_days :: "incident_db \<Rightarrow> incident_db \<Rightarrow> bool" where
  "same_days db db' \<longleftrightarrow> i_daily db' = i_daily db \<and> i_observations db' = i_observations db"

definition same_incidents :: "incident_db \<Rightarrow> incident_db \<Rightarrow> bool" where
  "same_incidents db db' \<longleftrightarrow> i_incidents db' = i_incidents db \<and> i_observations db' = i_observations db \<and>
     i_incident_seq db' = i_incident_seq db"

lemma add_audit_Inr [res_simps]:
  "add_audit acc now a t i m db = Inr db' \<longleftrightarrow> (\<exists>log n. db' = db\<lparr>i_audit := log, i_audit_seq := n\<rparr> \<and>
     audit_add acc now \<lparr>ev_action = a, ev_object_type = t, ev_object_id = JNum i, ev_meta = JObj m\<rparr> (i_audit db) (i_audit_seq db) = Inr (log, n))"
  by (auto simp: add_audit_def rbind_Inr)

lemma add_audit_frame:
  assumes "add_audit acc now a t i m db = Inr db'"
  obtains log n where "db' = db\<lparr>i_audit := log, i_audit_seq := n\<rparr>"
  using assms by (auto simp: add_audit_Inr)

lemma setMute_frame:
  assumes "setMute acc now h data db = Inr (m, db')"
  obtains ms log n where "db' = db\<lparr>i_mutes := ms, i_audit := log, i_audit_seq := n\<rparr>"
proof (cases data)
  case None
  with assms obtain host :: proxy_host where
    "add_audit acc now ''updated'' ''proxy-host'' (ph_id host) [(''alarm_mute'', Null)]
       (db\<lparr>i_mutes := delete_where (\<lambda>m. mu_host_id m = ph_id host) (i_mutes db)\<rparr>) = Inr db'"
    by (auto simp: setMute_def rbind_Inr)
  then show ?thesis by (rule add_audit_frame) (rule that)
next
  case (Some d)
  with assms obtain i x ms where "add_audit acc now ''updated'' ''proxy-host'' i x (db\<lparr>i_mutes := ms\<rparr>) = Inr db'"
    by (cases "mi_starts_at d"; cases "mi_ends_at d") (auto simp: setMute_def rbind_Inr Let_def split: if_splits)
  then show ?thesis by (rule add_audit_frame) (rule that)
qed

lemma retry_frame:
  assumes "retry acc now i db = Inr db'"
  obtains row log n where "row \<in> set (i_deliveries db)" "nd_status row \<in> {Delivery_failed, Pending, Muted}"
    "db' = db\<lparr>i_deliveries := patch_where (\<lambda>d. nd_id d = nd_id row \<and> nd_status d = nd_status row \<and> nd_attempts d = nd_attempts row)
        (\<lambda>d. d\<lparr>nd_status := Pending, nd_attempts := 0, nd_next_attempt_at := now, nd_last_error := None\<rparr>) (i_deliveries db),
        i_audit := log, i_audit_seq := n\<rparr>"
proof -
  from assms obtain k where k: "(case List.find (\<lambda>d. int (nd_id d) = k) (i_deliveries db) of
         None \<Rightarrow> Inl (mk_ItemNotFoundError (js_string i))
       | Some row \<Rightarrow> rbind (ownTarget acc (JNum (int (nd_target_id row))) ''update'' db) (\<lambda>_.
           rbind (getHost acc (JNum (nd_host_id row)) ''update'' db) (\<lambda>_. retry_row acc now row db))) = Inr db'"
    unfolding retry_def retry_row_def rbind_Inr by blast
  then obtain row where row: "List.find (\<lambda>d. int (nd_id d) = k) (i_deliveries db) = Some row" by (cases "List.find (\<lambda>d. int (nd_id d) = k) (i_deliveries db)") simp_all
  with k have "retry_row acc now row db = Inr db'" by (auto simp: rbind_Inr)
  then have st: "nd_status row \<in> {Delivery_failed, Pending, Muted}"
      and a: "\<exists>a t i m. add_audit acc now a t i m (db\<lparr>i_deliveries := patch_where
        (\<lambda>d. nd_id d = nd_id row \<and> nd_status d = nd_status row \<and> nd_attempts d = nd_attempts row)
        (\<lambda>d. d\<lparr>nd_status := Pending, nd_attempts := 0, nd_next_attempt_at := now, nd_last_error := None\<rparr>) (i_deliveries db)\<rparr>) = Inr db'"
    unfolding retry_row_def Let_def by (simp_all split: if_splits) blast
  from a obtain log n where "db' = db\<lparr>i_deliveries := patch_where
        (\<lambda>d. nd_id d = nd_id row \<and> nd_status d = nd_status row \<and> nd_attempts d = nd_attempts row)
        (\<lambda>d. d\<lparr>nd_status := Pending, nd_attempts := 0, nd_next_attempt_at := now, nd_last_error := None\<rparr>) (i_deliveries db),
        i_audit := log, i_audit_seq := n\<rparr>"
    by (auto elim!: add_audit_frame)
  with find_SomeD [OF row] st that show ?thesis by blast
qed

lemma deleteTarget_frame:
  assumes "deleteTarget acc now t db = Inr db'"
  obtains i log n where "db' = db\<lparr>i_deliveries := delete_where (\<lambda>d. nd_target_id d = i) (i_deliveries db),
     i_targets := delete_where (\<lambda>x. nt_id x = i) (i_targets db), i_audit := log, i_audit_seq := n\<rparr>"
  using assms by (auto simp: deleteTarget_def rbind_Inr elim!: add_audit_frame)

lemma deliver_claim_Some:
  assumes "deliver_claim now i db = (Some d, db')"
  obtains row where "List.find (\<lambda>d. nd_id d = i) (i_deliveries db) = Some row" "nd_status row = Pending" "nd_next_attempt_at row \<le> now"
    "d = row\<lparr>nd_status := Sending, nd_attempts := nd_attempts row + 1, nd_next_attempt_at := now + 300000\<rparr>"
    "db' = patch_delivery i (\<lambda>d. d\<lparr>nd_status := Sending, nd_attempts := nd_attempts row + 1, nd_next_attempt_at := now + 300000\<rparr>) db"
  using assms by (auto simp: deliver_claim_def Let_def split: option.splits if_splits)

text \<open>A settled row is only patched; its identity and attempts stay.\<close>

lemma deliver_settle_patch:
  assumes "deliver_settle env now d db = (db', rq)"
  obtains f where "db' = patch_delivery (nd_id d) f db"
    "\<And>x. nd_id (f x) = nd_id x \<and> nd_attempts (f x) = nd_attempts x \<and> nd_incident_id (f x) = nd_incident_id x \<and> nd_event (f x) = nd_event x \<and>
       nd_target_id (f x) = nd_target_id x \<and> nd_host_id (f x) = nd_host_id x \<and> nd_status (f x) \<noteq> Sending \<and>
       (nd_status (f x) = Pending \<longrightarrow> nd_attempts d < MAX_ATTEMPTS)"
proof (cases "delivery_target d db")
  case None
  with assms show ?thesis by (intro that) (auto simp: deliver_settle_def)
next
  case (Some t)
  show ?thesis
  proof (cases "isMuted (nd_host_id d) now db")
    case True
    with assms Some show ?thesis by (intro that) (auto simp: deliver_settle_def)
  next
    case False
    obtain r q where a: "attempt env d t = (r, q)" by (cases "attempt env d t")
    show ?thesis
    proof (cases r)
      case (Inl e)
      with assms Some False a have "db' = patch_delivery (nd_id d) (\<lambda>x. x\<lparr>nd_status := (if MAX_ATTEMPTS \<le> nd_attempts d then Delivery_failed else Pending),
          nd_next_attempt_at := now + backoff_ms (nd_attempts d), nd_last_error := Some (failure_message e)\<rparr>) db"
        by (simp add: deliver_settle_def)
      then show ?thesis by (rule that) simp
    next
      case (Inr v)
      with assms Some False a show ?thesis by (intro that) (auto simp: deliver_settle_def)
    qed
  qed
qed

lemma insertDelivery_Inr:
  "insertDelivery d db = Inr db' \<longleftrightarrow>
     \<not> (\<exists>e \<in> set (i_deliveries db). nd_incident_id e = nd_incident_id d \<and> nd_event e = nd_event d \<and> nd_target_id e = nd_target_id d) \<and>
     db' = db\<lparr>i_deliveries := i_deliveries db @ [d\<lparr>nd_id := i_delivery_seq db\<rparr>], i_delivery_seq := Suc (i_delivery_seq db)\<rparr>"
  by (auto simp: insertDelivery_def)

text \<open>Filling the outbox changes nothing else.\<close>

definition only_outbox :: "incident_db \<Rightarrow> incident_db \<Rightarrow> bool" where
  "only_outbox db db' \<longleftrightarrow> (\<exists>ds n. db' = db\<lparr>i_deliveries := ds, i_delivery_seq := n\<rparr>)"

lemma only_outbox_refl [simp]: "only_outbox db db"
  unfolding only_outbox_def by (intro exI [of _ "i_deliveries db"] exI [of _ "i_delivery_seq db"]) simp

lemma only_outbox_trans: "only_outbox a b \<Longrightarrow> only_outbox b c \<Longrightarrow> only_outbox a c"
  unfolding only_outbox_def by (elim exE) (simp, blast)

lemma enqueue_only_outbox:
  assumes "enqueue host al i ev res t mu db = Inr db'"
  shows "only_outbox db db'"
proof (cases al)
  case False
  with assms show ?thesis by (simp add: enqueue_def)
next
  case True
  have ins: "only_outbox db d2" if "only_outbox db d1" "insertDelivery x d1 = Inr d2" for x d1 d2
  proof -
    have "only_outbox d1 d2" using that(2) unfolding insertDelivery_Inr only_outbox_def by blast
    with that(1) show ?thesis by (rule only_outbox_trans)
  qed
  from assms True show ?thesis unfolding enqueue_def
    by simp (erule rfold_inv [where P = "only_outbox db"], simp, rule ins)
qed

lemma saveTarget_put:
  assumes "saveTarget env acc now t input db = Inr (p, db')"
  obtains cur row log k where "target_row env (int_of (acc_user acc 1)) cur input (i_target_seq db) = Inr row"
    "cur = None \<or> (\<exists>c. cur = Some c \<and> findTarget acc t db = Inr c)" "p = publicTarget row"
    "db' = (put_target cur row db)\<lparr>i_audit := log, i_audit_seq := k\<rparr>"
proof -
  show ?thesis
  proof (cases "truthy t")
    case True
    with assms obtain c where c: "findTarget acc t db = Inr c" by (auto simp: saveTarget_def rbind_Inr)
    with True assms obtain row a b x d where r: "target_row env (int_of (acc_user acc 1)) (Some c) input (i_target_seq db) = Inr row" "p = publicTarget row"
        "add_audit acc now a b x d (put_target (Some c) row db) = Inr db'"
      by (auto simp: saveTarget_def rbind_Inr)
    with c show ?thesis by (elim add_audit_frame) (rule that [of "Some c" row], simp_all)
  next
    case False
    with assms obtain row a b x d where r: "target_row env (int_of (acc_user acc 1)) None input (i_target_seq db) = Inr row" "p = publicTarget row"
        "add_audit acc now a b x d (put_target None row db) = Inr db'"
      by (auto simp: saveTarget_def rbind_Inr split: if_splits)
    then show ?thesis by (elim add_audit_frame) (rule that [of None row], simp_all)
  qed
qed

lemma saveTarget_frame:
  assumes "saveTarget env acc now t input db = Inr (p, db')"
  obtains ts n log k where "db' = db\<lparr>i_targets := ts, i_target_seq := n, i_audit := log, i_audit_seq := k\<rparr>"
proof -
  obtain cur row log k where s: "db' = (put_target cur row db)\<lparr>i_audit := log, i_audit_seq := k\<rparr>"
    using assms by (rule saveTarget_put)
  show ?thesis
  proof (cases cur)
    case None
    with s show ?thesis by (intro that [where ts = "i_targets db @ [row]" and n = "Suc (i_target_seq db)" and log = log and k = k]) (simp add: put_target_def)
  next
    case (Some c)
    with s show ?thesis
      by (intro that [where ts = "patch_where (\<lambda>t. nt_id t = nt_id c) (\<lambda>_. row) (i_targets db)" and n = "i_target_seq db" and log = log and k = k]) (simp add: put_target_def)
  qed
qed

end
