(* ===== verification/Incident_Days.thy ===== *)
theory Incident_Days
  imports Incident_Props
begin

text \<open>
  Daily availability: the time a check credits is conserved, and no day of a host is ever credited with
  more time than has passed of it.
\<close>

section \<open>Totals of a day\<close>

text \<open>What may be known of a day when the events up to \<open>lim\<close> have been counted.\<close>

definition cap :: "int \<Rightarrow> int \<Rightarrow> int" where
  "cap lim day = max 0 (min DAY_MS (lim - day_start day))"

abbreviation day_key :: "daily \<Rightarrow> int \<times> int" where
  "day_key d \<equiv> (da_host_id d, da_day d)"

definition days_ok :: "(int \<Rightarrow> int) \<Rightarrow> daily list \<Rightarrow> bool" where
  "days_ok lim ds \<longleftrightarrow> distinct (map day_key ds) \<and>
     (\<forall>d \<in> set ds. 0 \<le> da_up_ms d \<and> 0 \<le> da_down_ms d \<and> da_up_ms d + da_down_ms d \<le> cap (lim (da_host_id d)) (da_day d))"

lemma cap_mono: "a \<le> b \<Longrightarrow> cap a d \<le> cap b d"
  by (simp add: cap_def)

lemma cap_nonneg [simp]: "0 \<le> cap a d"
  by (simp add: cap_def)

lemma cap_step:
  assumes "start \<le> boundary" and "boundary \<le> day_start (day_of start) + DAY_MS"
  shows "cap start (day_of start) + (boundary - start) \<le> cap boundary (day_of start)"
  using assms day_of_bounds [of start] by (simp add: cap_def)

lemma days_ok_mono: "days_ok lim ds \<Longrightarrow> (\<And>h. lim h \<le> lim' h) \<Longrightarrow> days_ok lim' ds"
  unfolding days_ok_def by (meson cap_mono order_trans)

lemma days_ok_delete: "days_ok lim ds \<Longrightarrow> days_ok lim (delete_where p ds)"
  unfolding days_ok_def by (auto simp: delete_where_def distinct_map_filter)

lemma addDaily_ok:
  assumes ok: "days_ok lim ds" and nn: "0 \<le> up" "0 \<le> down" and lim: "\<And>h. lim h \<le> lim' h"
    and room: "cap (lim h) day + (up + down) \<le> cap (lim' h) day"
  shows "days_ok lim' (addDaily h day up down n ds)"
proof (cases "\<exists>d \<in> set ds. da_host_id d = h \<and> da_day d = day")
  case True
  let ?p = "\<lambda>d. da_host_id d = h \<and> da_day d = day"
  let ?f = "\<lambda>d. d\<lparr>da_up_ms := da_up_ms d + up, da_down_ms := da_down_ms d + down, da_checks := da_checks d + n\<rparr>"
  have keys: "map day_key (patch_where ?p ?f ds) = map day_key ds" by (simp add: patch_where_def)
  have rows: "0 \<le> da_up_ms e \<and> 0 \<le> da_down_ms e \<and> da_up_ms e + da_down_ms e \<le> cap (lim' (da_host_id e)) (da_day e)"
    if "d \<in> set ds" "e = (if ?p d then ?f d else d)" for d e
  proof -
    have d: "0 \<le> da_up_ms d" "0 \<le> da_down_ms d" "da_up_ms d + da_down_ms d \<le> cap (lim (da_host_id d)) (da_day d)"
      using ok that(1) unfolding days_ok_def by blast+
    show ?thesis
    proof (cases "?p d")
      case True
      then have "e = ?f d" using that(2) by simp
      with True d nn room show ?thesis by simp
    next
      case False
      then have "e = d" unfolding that(2) by (rule if_not_P)
      with d cap_mono [OF lim [of "da_host_id d"], of "da_day d"] show ?thesis by simp
    qed
  qed
  have a: "addDaily h day up down n ds = patch_where ?p ?f ds" using True by (simp add: addDaily_def)
  have "distinct (map day_key (patch_where ?p ?f ds))" unfolding keys using ok by (simp add: days_ok_def)
  moreover have "\<forall>e \<in> set (patch_where ?p ?f ds). 0 \<le> da_up_ms e \<and> 0 \<le> da_down_ms e \<and>
      da_up_ms e + da_down_ms e \<le> cap (lim' (da_host_id e)) (da_day e)"
    unfolding set_patch_where using rows by blast
  ultimately show ?thesis unfolding days_ok_def a by blast
next
  case False
  let ?new = "\<lparr>da_host_id = h, da_day = day, da_up_ms = up, da_down_ms = down, da_checks = n\<rparr>"
  have "addDaily h day up down n ds = ds @ [?new]" using False by (auto simp: addDaily_def)
  moreover have "days_ok lim' ds" using ok lim by (rule days_ok_mono)
  moreover have "up + down \<le> cap (lim' h) day" using room cap_nonneg [of "lim h" day] by linarith
  ultimately show ?thesis using False nn unfolding days_ok_def by auto
qed

lemma add_span_ok:
  assumes "days_ok (lim(h := start)) ds"
  shows "days_ok (lim(h := max start finish)) (add_span h st start finish ds)"
  using assms
proof (induction h st start finish ds rule: add_span.induct)
  case (1 h st start finish ds)
  show ?case
  proof (cases "start < finish")
    case False
    with 1(2) show ?thesis by (simp add: add_span.simps [of h st start finish ds])
  next
    case True
    define day where "day = day_of start"
    define b where "b = min finish (day_start day + DAY_MS)"
    define ds1 where "ds1 = addDaily h day (if st = St_up then b - start else 0) (if st = St_down then b - start else 0) 0 ds"
    have b: "start \<le> b" "b \<le> day_start (day_of start) + DAY_MS" "b \<le> finish"
      using True day_of_bounds(2) [of start] by (auto simp: b_def day_def)
    have "days_ok (lim(h := b)) ds1"
      unfolding ds1_def using 1(2)
      by (rule addDaily_ok) (use b cap_step [OF b(1,2)] cap_mono [OF b(1), of day] in \<open>auto simp: day_def\<close>)
    from 1(1) [OF True day_def b_def refl, folded ds1_def, OF this] have "days_ok (lim(h := max b finish)) (add_span h st b finish ds1)" .
    moreover have "max b finish = max start finish" using b True by simp
    moreover have "add_span h st start finish ds = add_span h st b finish ds1"
      using True by (simp add: add_span.simps [of h st start finish ds] ds1_def b_def day_def Let_def)
    ultimately show ?thesis by (simp only:)
  qed
qed

lemma credit_days_ok:
  assumes ok: "days_ok (lim(h := (case prev of None \<Rightarrow> t | Some p \<Rightarrow> ob_checked_at p))) ds"
    and later: "case prev of None \<Rightarrow> True | Some p \<Rightarrow> ob_checked_at p \<le> t"
  shows "days_ok (lim(h := t)) (credit_days h prev t ds)"
proof -
  have one: "days_ok (lim(h := t)) (addDaily h (day_of t) 0 0 1 x)" if "days_ok (lim(h := u)) x" "u \<le> t" for x u
    by (rule addDaily_ok [OF that(1)]) (use that(2) cap_mono [OF that(2), of "day_of t"] in auto)
  show ?thesis
  proof (cases prev)
    case None
    then show ?thesis using one [of t ds] ok by (simp add: credit_days_def)
  next
    case (Some p)
    let ?e = "min t (ob_checked_at p + ob_interval_seconds p * 1000)"
    have "days_ok (lim(h := max (ob_checked_at p) ?e)) (add_span h (ob_state p) (ob_checked_at p) ?e ds)"
      by (rule add_span_ok) (use ok Some in simp)
    moreover have "max (ob_checked_at p) ?e \<le> t" using later Some by simp
    ultimately show ?thesis using one ok later Some unfolding credit_days_def by simp
  qed
qed

section \<open>Conservation\<close>

definition total :: "(daily \<Rightarrow> int) \<Rightarrow> int \<Rightarrow> daily list \<Rightarrow> int" where
  "total f h ds = sum_list (map f (filter (\<lambda>d. da_host_id d = h) ds))"

lemma total_patch:
  assumes "distinct (map day_key ds)" and "d \<in> set ds" and "day_key d = (h, day)"
    and "\<And>d. f (g d) = f d + v" and "\<And>d. da_host_id (g d) = da_host_id d"
  shows "total f h (patch_where (\<lambda>d. da_host_id d = h \<and> da_day d = day) g ds) = total f h ds + v"
  using assms(1-3)
proof (induction ds)
  case Nil
  then show ?case by simp
next
  case (Cons e ds)
  show ?case
  proof (cases "day_key e = (h, day)")
    case True
    with Cons.prems(1) have "patch_where (\<lambda>d. da_host_id d = h \<and> da_day d = day) g ds = ds"
      by (intro patch_where_none) (auto simp: image_iff)
    with True assms(4,5) show ?thesis by (simp add: total_def)
  next
    case False
    with Cons show ?thesis by (auto simp: total_def)
  qed
qed

lemma total_addDaily:
  assumes "distinct (map day_key ds)"
    and "\<And>d. f (d\<lparr>da_up_ms := da_up_ms d + up, da_down_ms := da_down_ms d + down, da_checks := da_checks d + n\<rparr>) = f d + v"
    and "f \<lparr>da_host_id = h, da_day = day, da_up_ms = up, da_down_ms = down, da_checks = n\<rparr> = v"
  shows "total f h (addDaily h day up down n ds) = total f h ds + v \<and> distinct (map day_key (addDaily h day up down n ds))"
proof (cases "\<exists>d \<in> set ds. da_host_id d = h \<and> da_day d = day")
  case True
  then obtain d where d: "d \<in> set ds" "day_key d = (h, day)" by auto
  have "map day_key (addDaily h day up down n ds) = map day_key ds"
    using True by (simp add: addDaily_def patch_where_def)
  moreover have "total f h (addDaily h day up down n ds) = total f h ds + v"
    using True total_patch [OF assms(1) d, of f] assms(2) by (simp add: addDaily_def)
  ultimately show ?thesis using assms(1) by simp
next
  case False
  then have e: "addDaily h day up down n ds = ds @ [\<lparr>da_host_id = h, da_day = day, da_up_ms = up, da_down_ms = down, da_checks = n\<rparr>]"
    by (auto simp: addDaily_def)
  show ?thesis using False assms(1,3) unfolding e by (auto simp: total_def)
qed

lemma total_span:
  assumes "distinct (map day_key ds)"
  shows "total da_up_ms h (add_span h st start finish ds) = total da_up_ms h ds + (if st = St_up then max 0 (finish - start) else 0) \<and>
     total da_down_ms h (add_span h st start finish ds) = total da_down_ms h ds + (if st = St_down then max 0 (finish - start) else 0) \<and>
     total (\<lambda>d. int (da_checks d)) h (add_span h st start finish ds) = total (\<lambda>d. int (da_checks d)) h ds \<and>
     distinct (map day_key (add_span h st start finish ds))"
  using assms
proof (induction h st start finish ds rule: add_span.induct)
  case (1 h st start finish ds)
  show ?case
  proof (cases "start < finish")
    case False
    with 1(2) show ?thesis by (simp add: add_span.simps [of h st start finish ds])
  next
    case True
    define day where "day = day_of start"
    define b where "b = min finish (day_start day + DAY_MS)"
    define u where "u = (if st = St_up then b - start else 0)"
    define w where "w = (if st = St_down then b - start else 0)"
    define ds1 where "ds1 = addDaily h day u w 0 ds"
    have b: "start \<le> b" "b \<le> finish" using True day_of_bounds(2) [of start] by (auto simp: b_def day_def)
    have t: "total da_up_ms h ds1 = total da_up_ms h ds + u" "distinct (map day_key ds1)"
        "total da_down_ms h ds1 = total da_down_ms h ds + w"
        "total (\<lambda>d. int (da_checks d)) h ds1 = total (\<lambda>d. int (da_checks d)) h ds"
      unfolding ds1_def using total_addDaily [OF 1(2), where f = da_up_ms and up = u and down = w and n = 0 and v = u and h = h and day = day]
        total_addDaily [OF 1(2), where f = da_down_ms and up = u and down = w and n = 0 and v = w and h = h and day = day]
        total_addDaily [OF 1(2), where f = "\<lambda>d. int (da_checks d)" and up = u and down = w and n = 0 and v = 0 and h = h and day = day]
      by simp_all
    have e: "add_span h st start finish ds = add_span h st b finish ds1"
      using True by (simp add: add_span.simps [of h st start finish ds] ds1_def b_def day_def u_def w_def Let_def)
    from 1(1) [OF True day_def b_def refl, folded u_def w_def, folded ds1_def, OF t(2)] show ?thesis
      unfolding e t using b True by (simp add: u_def w_def)
  qed
qed

section \<open>Observations\<close>

lemma find_put_observation:
  "List.find (\<lambda>o'. ob_host_id o' = h) (put_observation v os) =
     (if h = ob_host_id v then Some v else List.find (\<lambda>o'. ob_host_id o' = h) os)"
proof (cases "\<exists>o' \<in> set os. ob_host_id o' = ob_host_id v")
  case True
  have "List.find (\<lambda>o'. ob_host_id o' = h) (patch_where (\<lambda>o'. ob_host_id o' = ob_host_id v) (\<lambda>_. v) os) =
      (if h = ob_host_id v then Some v else List.find (\<lambda>o'. ob_host_id o' = h) os)" using True
  proof (induction os)
    case Nil
    then show ?case by simp
  next
    case (Cons x os)
    show ?case
    proof (cases "\<exists>o' \<in> set os. ob_host_id o' = ob_host_id v")
      case True
      then show ?thesis using Cons.IH by auto
    next
      case False
      then have "patch_where (\<lambda>o'. ob_host_id o' = ob_host_id v) (\<lambda>_. v) os = os" by (intro patch_where_none) auto
      with Cons.prems False show ?thesis by auto
    qed
  qed
  with True show ?thesis by (simp add: put_observation_def)
next
  case False
  then show ?thesis by (induction os) (auto simp: put_observation_def)
qed

lemma find_delete_observation:
  "List.find (\<lambda>o'. ob_host_id o' = h) (delete_where (\<lambda>o'. ob_host_id o' = k) os) =
     (if h = k then None else List.find (\<lambda>o'. ob_host_id o' = h) os)"
  by (induction os) (auto simp: delete_where_def)

text \<open>Incidents and the outbox do not touch the totals.\<close>

lemma enqueue_days: "enqueue host al i ev res t mu db = Inr db' \<Longrightarrow> same_days db db'"
  using enqueue_only_outbox by (fastforce simp: only_outbox_def same_days_def)

lemma recordIncident_days: "recordIncident host al res t mu db = Inr db' \<Longrightarrow> same_days db db'"
proof (cases "cr_state res")
  case St_up
  assume r: "recordIncident host al res t mu db = Inr db'"
  show ?thesis
  proof (cases "open_incident (ph_id host) db")
    case None
    with r St_up show ?thesis by (simp add: recordIncident_def same_days_def)
  next
    case (Some i)
    with r St_up show ?thesis by (auto simp: recordIncident_def same_days_def patch_incident_def dest!: enqueue_days)
  qed
next
  case St_down
  assume r: "recordIncident host al res t mu db = Inr db'"
  show ?thesis
  proof (cases "open_incident (ph_id host) db")
    case None
    with r St_down show ?thesis by (auto simp: recordIncident_def same_days_def Let_def dest!: enqueue_days)
  next
    case (Some i)
    with r St_down show ?thesis by (auto simp: recordIncident_def same_days_def patch_incident_def)
  qed
next
  case St_unknown
  assume "recordIncident host al res t mu db = Inr db'"
  with St_unknown show ?thesis by (simp add: recordIncident_def same_days_def)
qed

lemma recordCheck_days:
  assumes "recordCheck host config res t muted db = Inr db'"
  shows "(\<exists>p. find_observation (ph_id host) db = Some p \<and> t \<le> ob_checked_at p \<and> db' = db) \<or>
     ((\<forall>p. find_observation (ph_id host) db = Some p \<longrightarrow> ob_checked_at p < t) \<and>
      i_daily db' = credit_days (ph_id host) (find_observation (ph_id host) db) t (i_daily db) \<and>
      i_observations db' = put_observation \<lparr>ob_host_id = ph_id host, ob_checked_at = t,
         ob_state = cr_state res, ob_interval_seconds = m_interval_seconds config\<rparr> (i_observations db))"
proof (cases "case find_observation (ph_id host) db of Some p \<Rightarrow> t \<le> ob_checked_at p | None \<Rightarrow> False")
  case True
  with assms show ?thesis by (auto simp: recordCheck_def Let_def split: option.splits)
next
  case False
  with assms have "same_days (db\<lparr>i_daily := credit_days (ph_id host) (find_observation (ph_id host) db) t (i_daily db),
              i_latency := (if cr_state res = St_up
                 then addLatency (ph_id host) (minute_of t) (cr_response_ms res) (i_latency db) else i_latency db),
              i_observations := put_observation \<lparr>ob_host_id = ph_id host, ob_checked_at = t,
                 ob_state = cr_state res, ob_interval_seconds = m_interval_seconds config\<rparr> (i_observations db)\<rparr>) db'"
    by (intro recordIncident_days) (simp add: recordCheck_def Let_def)
  with False show ?thesis by (auto simp: same_days_def split: option.splits)
qed

section \<open>The invariant\<close>

text \<open>How far the time of a host has been counted: up to its observation, or to its latest event.\<close>

definition counted_to :: "inc_state \<Rightarrow> int \<Rightarrow> int" where
  "counted_to s h = (case find_observation h (is_db s) of Some p \<Rightarrow> ob_checked_at p | None \<Rightarrow> is_clock s h)"

definition days_inv :: "inc_state \<Rightarrow> bool" where
  "days_inv s \<longleftrightarrow> days_ok (counted_to s) (i_daily (is_db s)) \<and>
     (\<forall>h p. find_observation h (is_db s) = Some p \<longrightarrow> ob_checked_at p \<le> is_clock s h)"

lemma counted_to_clock: "days_inv s \<Longrightarrow> counted_to s h \<le> is_clock s h"
  by (auto simp: days_inv_def counted_to_def split: option.splits)

lemma counted_to_cong:
  "find_observation h (is_db s') = find_observation h (is_db s) \<Longrightarrow> is_clock s' h = is_clock s h \<Longrightarrow> counted_to s' h = counted_to s h"
  by (simp add: counted_to_def split: option.splits)

lemma days_inv_same:
  assumes "days_inv s" and "same_days (is_db s) (is_db s')" and "is_clock s' = is_clock s"
  shows "days_inv s'"
proof -
  have f: "find_observation h (is_db s') = find_observation h (is_db s)" for h
    using assms(2) by (simp add: same_days_def find_observation_def)
  have "counted_to s' = counted_to s" by (rule ext, rule counted_to_cong) (simp_all add: f assms(3))
  with assms f show ?thesis by (simp add: days_inv_def same_days_def)
qed

lemma days_inv_forget:
  assumes "days_inv s" and "is_clock s' = is_clock s"
    and "\<And>k. find_observation k (is_db s') = (if k = h then None else find_observation k (is_db s))"
    and "days_ok (counted_to s) (i_daily (is_db s'))"
  shows "days_inv s'"
proof -
  have "counted_to s k \<le> counted_to s' k" for k
    using counted_to_clock [OF assms(1), of k] counted_to_cong [of k s' s]
    by (cases "k = h") (simp_all add: counted_to_def [of s'] assms(2,3))
  with assms show ?thesis by (auto simp: days_inv_def intro: days_ok_mono)
qed

lemma days_inv_record:
  assumes inv: "days_inv s" and r: "recordCheck host config res (is_clock s (ph_id host)) muted (is_db s) = Inr db'"
  shows "days_inv (s\<lparr>is_db := db'\<rparr>)"
  using recordCheck_days [OF r]
proof (elim disjE exE conjE)
  fix p
  assume "db' = is_db s"
  with inv show ?thesis by simp
next
  let ?h = "ph_id host" let ?t = "is_clock s (ph_id host)" let ?prev = "find_observation (ph_id host) (is_db s)"
  assume old: "\<forall>p. ?prev = Some p \<longrightarrow> ob_checked_at p < ?t"
    and d: "i_daily db' = credit_days ?h ?prev ?t (i_daily (is_db s))"
    and o': "i_observations db' = put_observation \<lparr>ob_host_id = ?h, ob_checked_at = ?t,
         ob_state = cr_state res, ob_interval_seconds = m_interval_seconds config\<rparr> (i_observations (is_db s))"
  have f: "find_observation k db' = (if k = ?h then Some \<lparr>ob_host_id = ?h, ob_checked_at = ?t,
         ob_state = cr_state res, ob_interval_seconds = m_interval_seconds config\<rparr> else find_observation k (is_db s))" for k
    unfolding find_observation_def o' by (simp add: find_put_observation)
  have c: "counted_to (s\<lparr>is_db := db'\<rparr>) = (counted_to s)(?h := ?t)"
    by (rule ext) (simp add: counted_to_def f split: option.splits)
  have p: "counted_to s = (counted_to s)(?h := (case ?prev of None \<Rightarrow> ?t | Some p \<Rightarrow> ob_checked_at p))"
    by (rule ext) (simp add: counted_to_def split: option.splits)
  have "days_ok ((counted_to s)(?h := ?t)) (i_daily db')"
    unfolding d using inv old p by (intro credit_days_ok) (auto simp: days_inv_def split: option.splits)
  with inv f show ?thesis by (auto simp: days_inv_def c split: if_splits)
qed

lemma days_inv_step: "inc_step env s t \<Longrightarrow> days_inv s \<Longrightarrow> days_inv t"
proof (induction rule: inc_step.induct)
  case (s_clock s c)
  have "counted_to s h \<le> counted_to (s\<lparr>is_clock := c\<rparr>) h" for h
    using s_clock(1) by (simp add: counted_to_def split: option.splits)
  then have "days_ok (counted_to (s\<lparr>is_clock := c\<rparr>)) (i_daily (is_db s))"
    using s_clock(2) by (auto simp: days_inv_def intro: days_ok_mono)
  moreover have "ob_checked_at p \<le> c h" if "find_observation h (is_db s) = Some p" for h p
    using s_clock that order_trans unfolding days_inv_def by blast
  ultimately show ?case unfolding days_inv_def by simp
next
  case (s_record host config res s muted db')
  then show ?case by (blast intro: days_inv_record)
next
  case (s_reset s now h)
  show ?case
    by (rule days_inv_forget [OF s_reset, where h = h])
      (use s_reset in \<open>auto simp: resetHost_def find_observation_def find_delete_observation days_inv_def\<close>)
next
  case (s_remove s h)
  show ?case
    by (rule days_inv_forget [OF s_remove, where h = h])
      (use s_remove in \<open>auto simp: removeHost_def find_observation_def find_delete_observation days_inv_def intro: days_ok_delete\<close>)
next
  case (s_cleanup s now)
  then have "days_ok (counted_to s) (i_daily (cleanup now (is_db s)))"
    by (simp add: cleanup_def days_inv_def days_ok_delete)
  moreover have "find_observation h (cleanup now (is_db s)) = find_observation h (is_db s)" for h
    by (simp add: cleanup_def find_observation_def)
  moreover have "counted_to (s\<lparr>is_db := cleanup now (is_db s)\<rparr>) = counted_to s"
    by (rule ext, rule counted_to_cong) (simp_all add: cleanup_def find_observation_def)
  ultimately show ?case using s_cleanup by (simp add: days_inv_def)
next
  case (s_hosts s hs)
  then show ?case by (rule days_inv_same) (simp_all add: same_days_def)
next
  case (s_mute acc now h data s m db')
  then show ?case by (elim setMute_frame) (rule days_inv_same, simp_all add: same_days_def)
next
  case (s_save acc now t input s p db')
  then show ?case by (elim saveTarget_frame) (rule days_inv_same, simp_all add: same_days_def)
next
  case (s_delete acc now t s db')
  then show ?case by (elim deleteTarget_frame) (rule days_inv_same, simp_all add: same_days_def)
next
  case (s_retry acc now i s db')
  then show ?case by (elim retry_frame) (rule days_inv_same, simp_all add: same_days_def)
next
  case (s_claim now n s d db')
  then show ?case by (elim deliver_claim_Some) (rule days_inv_same, simp_all add: same_days_def patch_delivery_def)
next
  case (s_settle d s now db' rq)
  then show ?case by (elim deliver_settle_patch) (rule days_inv_same, simp_all add: same_days_def patch_delivery_def)
next
  case (s_recover s now)
  from s_recover(2) show ?case by (rule days_inv_same) (simp_all add: same_days_def recover_sending_def)
next
  case (s_restart s)
  then show ?case by (rule days_inv_same) (simp_all add: same_days_def)
qed

interpretation days_system: invariant_system "inc_step env" days_inv for env
  by unfold_locales (blast intro: days_inv_step)

lemma days_inv_reachable: "inc_reachable env s \<Longrightarrow> days_inv s"
  unfolding inc_reachable_def
  by (elim exE days_system.steps_inv) (simp add: days_inv_def days_ok_def inc_empty_def find_observation_def)

section \<open>Properties\<close>

text \<open>C29. The time a check credits is conserved. In every reachable state an accepted check adds to the day totals of its
  host exactly the time since the previous observation, as far as the interval of that observation
  reaches, to the column of the observed state, however many days the span crosses; it adds one
  check; and without a previous observation, or after one of unknown state, it adds no time.\<close>

theorem check_time_conserved:
  assumes s: "inc_reachable env s" and r: "recordCheck host config res t muted (is_db s) = Inr db'"
    and new: "\<forall>p. find_observation (ph_id host) (is_db s) = Some p \<longrightarrow> ob_checked_at p < t"
    and span: "span = (\<lambda>st. case find_observation (ph_id host) (is_db s) of None \<Rightarrow> 0
        | Some p \<Rightarrow> if ob_state p = st then max 0 (min (t - ob_checked_at p) (ob_interval_seconds p * 1000)) else 0)"
  shows "total da_up_ms (ph_id host) (i_daily db') = total da_up_ms (ph_id host) (i_daily (is_db s)) + span St_up \<and>
     total da_down_ms (ph_id host) (i_daily db') = total da_down_ms (ph_id host) (i_daily (is_db s)) + span St_down \<and>
     total (\<lambda>d. int (da_checks d)) (ph_id host) (i_daily db') = total (\<lambda>d. int (da_checks d)) (ph_id host) (i_daily (is_db s)) + 1"
proof -
  let ?h = "ph_id host" let ?prev = "find_observation (ph_id host) (is_db s)"
  have k: "distinct (map day_key (i_daily (is_db s)))"
    using days_inv_reachable [OF s] by (simp add: days_inv_def days_ok_def)
  have d: "i_daily db' = credit_days ?h ?prev t (i_daily (is_db s))"
    using recordCheck_days [OF r] new by auto
  have one: "total f ?h (addDaily ?h (day_of t) 0 0 1 x) = total f ?h x + v"
    if "distinct (map day_key x)" "\<And>d. f (d\<lparr>da_checks := Suc (da_checks d)\<rparr>) = f d + v"
      "f \<lparr>da_host_id = ?h, da_day = day_of t, da_up_ms = 0, da_down_ms = 0, da_checks = 1\<rparr> = v" for f x v
    using total_addDaily [OF that(1), where f = f and up = 0 and down = 0 and n = 1 and v = v and h = ?h and day = "day_of t"] that(2,3) by simp
  obtain x where x: "i_daily db' = addDaily ?h (day_of t) 0 0 1 x" "distinct (map day_key x)"
      "total da_up_ms ?h x = total da_up_ms ?h (i_daily (is_db s)) + span St_up"
      "total da_down_ms ?h x = total da_down_ms ?h (i_daily (is_db s)) + span St_down"
      "total (\<lambda>d. int (da_checks d)) ?h x = total (\<lambda>d. int (da_checks d)) ?h (i_daily (is_db s))"
  proof (cases ?prev)
    case None
    with k show ?thesis by (intro that [of "i_daily (is_db s)"]) (simp_all add: d credit_days_def span)
  next
    case (Some p)
    let ?e = "min t (ob_checked_at p + ob_interval_seconds p * 1000)"
    have e: "?e - ob_checked_at p = min (t - ob_checked_at p) (ob_interval_seconds p * 1000)" by simp
    show ?thesis
    proof (cases "ob_state p = St_unknown")
      case True
      with Some k show ?thesis by (intro that [of "i_daily (is_db s)"]) (simp_all add: d credit_days_def span)
    next
      case False
      from total_span [OF k, of ?h "ob_state p" "ob_checked_at p" ?e] False Some show ?thesis
        by (intro that [of "add_span ?h (ob_state p) (ob_checked_at p) ?e (i_daily (is_db s))"])
          (auto simp: d credit_days_def span e)
    qed
  qed
  show ?thesis unfolding x(1) using one [OF x(2)] x(3-5) by simp
qed

lemma live_cap:
  assumes "ob_checked_at p \<le> now"
  shows "0 \<le> live_ms now (day_start day) p" "cap (ob_checked_at p) day + live_ms now (day_start day) p \<le> max 0 (min DAY_MS (now - day_start day))"
  using assms less_imp_le [OF DAY_MS_pos] by (auto simp: live_ms_def cap_def Let_def)

lemma day_line_cap:
  assumes ok: "days_inv s" and now: "is_clock s h \<le> now" and day: "day_start day \<le> now"
    and rows: "\<forall>d \<in> set rows. da_host_id d = h \<and> d \<in> set (i_daily (is_db s))"
    and line: "x = day_line now en (find_observation h (is_db s)) rows day"
  shows "dr_day x = day \<and> 0 \<le> dr_up_ms x \<and> 0 \<le> dr_down_ms x \<and> 0 \<le> dr_unknown_ms x \<and>
     dr_up_ms x + dr_down_ms x + dr_unknown_ms x = min DAY_MS (now - day_start day)"
proof -
  define row where "row = List.find (\<lambda>d. da_day d = day) (rev rows)"
  define up where "up = (case row of None \<Rightarrow> 0 | Some d \<Rightarrow> da_up_ms d)"
  define down where "down = (case row of None \<Rightarrow> 0 | Some d \<Rightarrow> da_down_ms d)"
  have base: "0 \<le> up \<and> 0 \<le> down \<and> up + down \<le> cap (counted_to s h) day"
  proof (cases row)
    case None
    then show ?thesis by (simp add: up_def down_def)
  next
    case (Some d)
    then have "d \<in> set rows" "da_day d = day" by (auto simp: row_def dest!: find_SomeD)
    with rows ok show ?thesis by (auto simp: up_def down_def Some days_inv_def days_ok_def)
  qed
  let ?D = "max 0 (min DAY_MS (now - day_start day))"
  have D: "?D = min DAY_MS (now - day_start day)" using day less_imp_le [OF DAY_MS_pos] by simp
  show ?thesis
  proof (cases "find_observation h (is_db s)")
    case None
    have "cap (counted_to s h) day \<le> ?D" unfolding cap_def [symmetric] using now None by (intro cap_mono) (simp add: counted_to_def)
    with base D show ?thesis
      by (simp add: line None day_line_def Let_def row_def [symmetric] up_def [symmetric] down_def [symmetric])
  next
    case (Some p)
    have "counted_to s h = ob_checked_at p" by (simp add: counted_to_def Some)
    moreover have "ob_checked_at p \<le> now" using ok Some now by (fastforce simp: days_inv_def)
    ultimately have b: "0 \<le> live_ms now (day_start day) p" "up + down + live_ms now (day_start day) p \<le> ?D" "up + down \<le> ?D"
      using live_cap [of p now day] base by auto
    with base D show ?thesis
      by (simp add: line Some day_line_def Let_def row_def [symmetric] up_def [symmetric] down_def [symmetric])
  qed
qed

lemma hostDetail_Inr:
  assumes "hostDetail acc now hostId days db = Inr r"
  obtains host n where "getHost acc hostId ''get'' db = Inr host" "js_number days = JNum n" "1 \<le> n" "n \<le> 365" "hd_host_id r = ph_id host"
    "hd_daily r = map (day_line now (ph_enabled host) (find_observation (ph_id host) db)
       (filter (\<lambda>d. da_host_id d = ph_id host \<and> day_of now - (n - 1) \<le> da_day d) (i_daily db))) [day_of now - (n - 1)..day_of now]"
  using assms by (cases "js_number days") (auto simp: hostDetail_def rbind_Inr Let_def split: if_splits)

text \<open>A day is never reported with more than it lasted. In every reachable state the availability report of a host
  has one line per requested day, and in each line the known and the unknown time are nonnegative and
  add up to exactly the part of the day that has passed: the coverage never exceeds 100 percent, even
  though the running observation is extended on the fly.\<close>

theorem availability_bounded:
  assumes s: "inc_reachable env s" and r: "hostDetail acc now hostId days (is_db s) = Inr r"
    and now: "is_clock s (hd_host_id r) \<le> now"
  shows "(\<exists>n. js_number days = JNum n \<and> int (length (hd_daily r)) = n \<and> 1 \<le> n \<and> n \<le> 365) \<and>
     (\<forall>x \<in> set (hd_daily r). 0 \<le> dr_up_ms x \<and> 0 \<le> dr_down_ms x \<and> 0 \<le> dr_unknown_ms x \<and>
        dr_up_ms x + dr_down_ms x + dr_unknown_ms x = min DAY_MS (now - day_start (dr_day x)))"
proof -
  obtain host :: proxy_host and n where h: "js_number days = JNum n" "1 \<le> n" "n \<le> 365" "hd_host_id r = ph_id host"
    "hd_daily r = map (day_line now (ph_enabled host) (find_observation (ph_id host) (is_db s))
       (filter (\<lambda>d. da_host_id d = ph_id host \<and> day_of now - (n - 1) \<le> da_day d) (i_daily (is_db s)))) [day_of now - (n - 1)..day_of now]"
    using r by (rule hostDetail_Inr)
  have "int (length (hd_daily r)) = n" using h(2) by (simp add: h(5))
  moreover have "dr_day x = day \<and> 0 \<le> dr_up_ms x \<and> 0 \<le> dr_down_ms x \<and> 0 \<le> dr_unknown_ms x \<and>
      dr_up_ms x + dr_down_ms x + dr_unknown_ms x = min DAY_MS (now - day_start day)"
    if d: "day \<le> day_of now" and x: "x = day_line now (ph_enabled host) (find_observation (ph_id host) (is_db s))
       (filter (\<lambda>d. da_host_id d = ph_id host \<and> day_of now - (n - 1) \<le> da_day d) (i_daily (is_db s))) day" for x day
  proof (rule day_line_cap [OF days_inv_reachable [OF s] _ _ _ x])
    show "is_clock s (ph_id host) \<le> now" using now h(4) by simp
    show "day_start day \<le> now" using d day_of_bounds(1) [of now] by (simp add: day_start_def DAY_MS_def)
  qed auto
  ultimately show ?thesis using h(1-3) unfolding h(5) by auto
qed

section \<open>A concrete run\<close>

definition host7 :: proxy_host where
  "host7 = \<lparr>ph_id = 7, ph_owner_user_id = 2, ph_enabled = True, ph_is_deleted = False, ph_host_domains = [''a.example''],
     ph_columns = JObj []\<rparr>"

definition monitor7 :: monitor_row where
  "monitor7 = \<lparr>m_id = 1, m_host_id = 7, m_enabled = True, m_type = ''http'', m_path = ''/'', m_interval_seconds = 60,
     m_timeout_ms = 5000, m_expected_status = 200, m_alert_enabled = True, m_upstream_ca = None, m_upstream_server_name = None,
     m_skip_certificate_verification = False, m_version = 1, m_state = St_unknown, m_checked_at = None, m_next_check_at = None,
     m_response_ms = None, m_status_code = None, m_message = None, m_last_alert_at = None, m_last_alert_state = None\<rparr>"

definition up_result :: check_result where
  "up_result = \<lparr>cr_state = St_up, cr_response_ms = 12, cr_status_code = Some 200, cr_message = ''HTTP 200''\<rparr>"

definition down_result :: check_result where
  "down_result = \<lparr>cr_state = St_down, cr_response_ms = 12, cr_status_code = Some 502, cr_message = ''HTTP 502''\<rparr>"

text \<open>A check at the start of time, then another 50 seconds later.\<close>

definition after_first :: inc_state where
  "after_first = (let s = inc_empty [host7] in
     s\<lparr>is_db := (case recordCheck host7 monitor7 up_result 0 False (is_db s) of Inr db \<Rightarrow> db | Inl _ \<Rightarrow> is_db s)\<rparr>)"

definition later0 :: inc_state where
  "later0 = after_first\<lparr>is_clock := (\<lambda>_. 50000)\<rparr>"

lemma after_first_reachable: "inc_reachable env after_first"
proof -
  have "case recordCheck host7 monitor7 up_result 0 False (is_db (inc_empty [host7])) of Inr _ \<Rightarrow> True | Inl _ \<Rightarrow> False" by code_simp
  then obtain db where db: "recordCheck host7 monitor7 up_result 0 False (is_db (inc_empty [host7])) = Inr db" by (auto split: sum.splits)
  have "is_clock (inc_empty [host7]) (ph_id host7) = 0" by (simp add: inc_empty_def)
  with db have "inc_step env (inc_empty [host7]) ((inc_empty [host7])\<lparr>is_db := db\<rparr>)" by (intro s_record [of host7 monitor7 up_result _ False]) simp
  then show ?thesis by (auto simp: inc_reachable_def after_first_def db)
qed

lemma later0_reachable: "inc_reachable env later0"
proof -
  have "is_clock after_first h = 0" for h by (simp add: after_first_def inc_empty_def Let_def)
  then have "inc_step env after_first later0" unfolding later0_def by (intro s_clock) simp
  with after_first_reachable [of env] show ?thesis by (auto simp: inc_reachable_def intro: rtranclp.rtrancl_into_rtrancl)
qed

theorem check_time_conserved_witness:
  "\<exists>db'. recordCheck host7 monitor7 down_result 50000 False (is_db later0) = Inr db' \<and>
     total da_up_ms 7 (i_daily db') = total da_up_ms 7 (i_daily (is_db later0)) + 50000"
proof -
  have f: "find_observation (ph_id host7) (is_db later0) =
      Some \<lparr>ob_host_id = 7, ob_checked_at = 0, ob_state = St_up, ob_interval_seconds = 60\<rparr>" "ph_id host7 = 7" by code_simp+
  have "case recordCheck host7 monitor7 down_result 50000 False (is_db later0) of Inr db \<Rightarrow> True | Inl _ \<Rightarrow> False" by code_simp
  then obtain db' where db: "recordCheck host7 monitor7 down_result 50000 False (is_db later0) = Inr db'" by (auto split: sum.splits)
  have "\<forall>p. find_observation (ph_id host7) (is_db later0) = Some p \<longrightarrow> ob_checked_at p < 50000" unfolding f(1) by simp
  from check_time_conserved [OF later0_reachable db this refl, unfolded f(1)] db show ?thesis by (simp add: f(2))
qed

theorem availability_bounded_witness:
  "\<exists>r. hostDetail admin0 50000 (JNum 7) (JNum 2) (is_db later0) = Inr r \<and> length (hd_daily r) = 2 \<and>
     dr_up_ms (hd_daily r ! 1) = 50000 \<and>
     (\<forall>x \<in> set (hd_daily r). dr_up_ms x + dr_down_ms x + dr_unknown_ms x = min DAY_MS (50000 - day_start (dr_day x)))"
proof -
  have "case hostDetail admin0 50000 (JNum 7) (JNum 2) (is_db later0) of
      Inr r \<Rightarrow> hd_host_id r = 7 \<and> length (hd_daily r) = 2 \<and> dr_up_ms (hd_daily r ! 1) = 50000 | Inl _ \<Rightarrow> False" by code_simp
  then obtain r where r: "hostDetail admin0 50000 (JNum 7) (JNum 2) (is_db later0) = Inr r" "hd_host_id r = 7"
      "length (hd_daily r) = 2" "dr_up_ms (hd_daily r ! 1) = 50000" by (auto split: sum.splits)
  have "is_clock later0 (hd_host_id r) \<le> 50000" by (simp add: later0_def)
  from availability_bounded [OF later0_reachable r(1) this] r show ?thesis by blast
qed

end
