(* ===== verification/Incident_Outbox.thy ===== *)
theory Incident_Outbox
  imports Incident_Days
begin

text \<open>
  Incidents and the outbox: at most one open incident per host, one row per incident, event and target, and a
  bounded number of attempts per row.
\<close>

interpretation incident_table: keyed_table in_id "{f. \<forall>x. in_id (f x) = in_id x}"
  by unfold_locales simp

interpretation delivery_table: keyed_table nd_id "{f. \<forall>x. nd_id (f x) = nd_id x}"
  by unfold_locales simp

interpretation target_table: keyed_table nt_id "{f. \<forall>x. nt_id (f x) = nt_id x}"
  by unfold_locales simp

section \<open>Filling the outbox\<close>

fun numbered :: "nat \<Rightarrow> delivery list \<Rightarrow> delivery list" where
  "numbered n [] = []"
| "numbered n (d # ds) = d\<lparr>nd_id := n\<rparr> # numbered (Suc n) ds"

abbreviation out_key :: "delivery \<Rightarrow> nat \<times> string \<times> nat" where
  "out_key d \<equiv> (nd_incident_id d, nd_event d, nd_target_id d)"

lemma numbered_keys [simp]: "map out_key (numbered n ds) = map out_key ds"
  by (induction n ds rule: numbered.induct) auto

lemma numbered_ids: "map nd_id (numbered n ds) = [n..<n + length ds]"
  by (induction n ds rule: numbered.induct) (auto simp: upt_rec)

lemma numbered_set: "e \<in> set (numbered n ds) \<Longrightarrow> \<exists>d \<in> set ds. \<exists>i. e = d\<lparr>nd_id := i\<rparr> \<and> n \<le> i \<and> i < n + length ds"
proof (induction n ds rule: numbered.induct)
  case (1 n)
  then show ?case by simp
next
  case (2 n d ds)
  then show ?case by fastforce
qed

lemma insert_all:
  assumes "distinct (map nt_id ts)" and "\<And>t. nd_incident_id (mk t) = i \<and> nd_event (mk t) = ev \<and> nd_target_id (mk t) = nt_id t"
    and "\<And>t e. t \<in> set ts \<Longrightarrow> e \<in> set (i_deliveries db) \<Longrightarrow> out_key e \<noteq> (i, ev, nt_id t)"
  shows "rfold (\<lambda>t. insertDelivery (mk t)) ts db =
     Inr (db\<lparr>i_deliveries := i_deliveries db @ numbered (i_delivery_seq db) (map mk ts), i_delivery_seq := i_delivery_seq db + length ts\<rparr>)"
  using assms(1,3)
proof (induction ts arbitrary: db)
  case Nil
  then show ?case by simp
next
  case (Cons t ts)
  let ?db = "db\<lparr>i_deliveries := i_deliveries db @ [(mk t)\<lparr>nd_id := i_delivery_seq db\<rparr>], i_delivery_seq := Suc (i_delivery_seq db)\<rparr>"
  have ins: "insertDelivery (mk t) db = Inr ?db"
    unfolding insertDelivery_Inr using Cons.prems(2) [of t] assms(2) [of t] by auto
  have "rfold (\<lambda>t. insertDelivery (mk t)) ts ?db =
      Inr (?db\<lparr>i_deliveries := i_deliveries ?db @ numbered (i_delivery_seq ?db) (map mk ts), i_delivery_seq := i_delivery_seq ?db + length ts\<rparr>)"
  proof (rule Cons.IH)
    show "distinct (map nt_id ts)" using Cons.prems(1) by simp
    fix t' e
    assume t': "t' \<in> set ts" and e: "e \<in> set (i_deliveries ?db)"
    show "out_key e \<noteq> (i, ev, nt_id t')"
    proof (cases "e \<in> set (i_deliveries db)")
      case True
      with Cons.prems(2) t' show ?thesis by (meson list.set_intros(2))
    next
      case False
      with e have "e = (mk t)\<lparr>nd_id := i_delivery_seq db\<rparr>" by simp
      moreover have "nt_id t \<noteq> nt_id t'" using Cons.prems(1) t' by (metis distinct.simps(2) image_eqI list.set_map list.simps(9))
      ultimately show ?thesis using assms(2) [of t] by simp
    qed
  qed
  then show ?case by (simp add: ins)
qed

text \<open>The targets an event of a host is announced to.\<close>

definition audience :: "proxy_host \<Rightarrow> incident_db \<Rightarrow> target list" where
  "audience host db = filter (\<lambda>t. subscribed t (ph_id host))
     (take 100 (filter (\<lambda>t. nt_owner_user_id t = ph_owner_user_id host \<and> nt_enabled t) (i_targets db)))"

definition announcements :: "proxy_host \<Rightarrow> bool \<Rightarrow> nat \<Rightarrow> string \<Rightarrow> check_result \<Rightarrow> int \<Rightarrow> bool \<Rightarrow> incident_db \<Rightarrow> delivery list" where
  "announcements host alerts i ev res t muted db =
     (if alerts then numbered (i_delivery_seq db) (map (new_delivery host i ev res t muted) (audience host db)) else [])"

lemma audience_distinct: "distinct (map nt_id (i_targets db)) \<Longrightarrow> distinct (map nt_id (audience host db))"
  unfolding audience_def by (intro distinct_map_filter) (metis distinct_map_filter distinct_take take_map)

lemma audience_set: "t \<in> set (audience host db) \<Longrightarrow> t \<in> set (i_targets db) \<and> nt_owner_user_id t = ph_owner_user_id host \<and>
    nt_enabled t \<and> subscribed t (ph_id host)"
  unfolding audience_def by (auto dest!: in_set_takeD)

lemma enqueue_eq:
  assumes "distinct (map nt_id (i_targets db))" and "\<And>e. e \<in> set (i_deliveries db) \<Longrightarrow> \<not> (nd_incident_id e = i \<and> nd_event e = ev)"
  shows "enqueue host alerts i ev res t muted db =
     Inr (db\<lparr>i_deliveries := i_deliveries db @ announcements host alerts i ev res t muted db,
             i_delivery_seq := i_delivery_seq db + length (announcements host alerts i ev res t muted db)\<rparr>)"
proof (cases alerts)
  case False
  then show ?thesis by (simp add: enqueue_def announcements_def)
next
  case True
  have l: "length (numbered n ds) = length ds" for n ds by (induction n ds rule: numbered.induct) auto
  have "rfold (\<lambda>t'. insertDelivery (new_delivery host i ev res t muted t')) (audience host db) db =
      Inr (db\<lparr>i_deliveries := i_deliveries db @ numbered (i_delivery_seq db) (map (new_delivery host i ev res t muted) (audience host db)),
        i_delivery_seq := i_delivery_seq db + length (audience host db)\<rparr>)"
    by (rule insert_all [where i = i and ev = ev])
      (use audience_distinct [OF assms(1)] assms(2) in \<open>auto simp: new_delivery_def\<close>)
  with True show ?thesis unfolding enqueue_def announcements_def audience_def [symmetric] by (simp add: l)
qed

section \<open>The invariant\<close>

definition is_open :: "incident \<Rightarrow> bool" where
  "is_open i \<longleftrightarrow> in_resolved_at i = None"

definition open_hosts :: "incident list \<Rightarrow> int set" where
  "open_hosts is = set (map in_host_id (filter is_open is))"

definition observations_ok :: "int set \<Rightarrow> observation list \<Rightarrow> bool" where
  "observations_ok H os \<longleftrightarrow> (\<forall>p \<in> set os. (ob_state p = St_down \<longrightarrow> ob_host_id p \<in> H) \<and> (ob_state p = St_up \<longrightarrow> ob_host_id p \<notin> H))"

definition incidents_ok :: "incident_db \<Rightarrow> bool" where
  "incidents_ok db \<longleftrightarrow> incident_table.keys_ok (i_incidents db) (i_incident_seq db) \<and>
     distinct (map in_host_id (filter is_open (i_incidents db))) \<and>
     observations_ok (open_hosts (i_incidents db)) (i_observations db)"

definition outbox_ok :: "incident_db \<Rightarrow> bool" where
  "outbox_ok db \<longleftrightarrow> target_table.keys_ok (i_targets db) (i_target_seq db) \<and> delivery_table.keys_ok (i_deliveries db) (i_delivery_seq db) \<and>
     distinct (map out_key (i_deliveries db)) \<and>
     (\<forall>d \<in> set (i_deliveries db). nd_incident_id d < i_incident_seq db \<and> nd_event d \<in> {''incident.opened'', ''incident.resolved''} \<and>
        (nd_event d = ''incident.resolved'' \<longrightarrow> nd_incident_id d \<notin> in_id ` set (filter is_open (i_incidents db))))"

definition attempts_ok :: "delivery list \<Rightarrow> bool" where
  "attempts_ok ds \<longleftrightarrow> (\<forall>d \<in> set ds. nd_attempts d \<le> MAX_ATTEMPTS \<and> (nd_status d = Pending \<longrightarrow> nd_attempts d < MAX_ATTEMPTS))"

definition flight_ok :: "delivery list \<Rightarrow> delivery list \<Rightarrow> bool" where
  "flight_ok fl ds \<longleftrightarrow> distinct (map nd_id fl) \<and>
     (\<forall>f \<in> set fl. \<forall>d \<in> set ds. nd_id d = nd_id f \<longrightarrow> nd_status d = Sending \<and> nd_attempts d = nd_attempts f)"

definition outbox_inv :: "inc_state \<Rightarrow> bool" where
  "outbox_inv s \<longleftrightarrow> incidents_ok (is_db s) \<and> outbox_ok (is_db s) \<and> attempts_ok (i_deliveries (is_db s)) \<and>
     flight_ok (is_flight s) (i_deliveries (is_db s)) \<and> (\<forall>f \<in> set (is_flight s). nd_id f < i_delivery_seq (is_db s))"

lemma open_incident_Some:
  "open_incident h db = Some i \<Longrightarrow> i \<in> set (i_incidents db) \<and> in_host_id i = h \<and> is_open i"
  unfolding open_incident_def is_open_def by (auto dest: find_SomeD)

lemma open_incident_None: "open_incident h db = None \<longleftrightarrow> h \<notin> open_hosts (i_incidents db)"
  unfolding open_incident_def is_open_def open_hosts_def find_None by auto

lemma open_hostsI: "i \<in> set is \<Longrightarrow> is_open i \<Longrightarrow> in_host_id i \<in> open_hosts is"
  by (auto simp: open_hosts_def)

lemma outbox_ok_targets: "outbox_ok db \<Longrightarrow> distinct (map nt_id (i_targets db))"
  by (simp add: outbox_ok_def target_table.keys_ok_def)

text \<open>Appending announcements of an event that has none yet.\<close>

lemma announcements_facts:
  assumes "e \<in> set (announcements host alerts i ev res t muted db)"
  shows "nd_incident_id e = i \<and> nd_event e = ev \<and> nd_attempts e = 0 \<and> nd_status e = (if muted then Muted else Pending) \<and>
     nd_host_id e = ph_id host \<and> i_delivery_seq db \<le> nd_id e \<and>
     nd_id e < i_delivery_seq db + length (announcements host alerts i ev res t muted db)"
proof -
  have l: "length (numbered n ds) = length ds" for n ds by (induction n ds rule: numbered.induct) auto
  from assms have "alerts" by (auto simp: announcements_def split: if_splits)
  with assms obtain d j where d: "d \<in> set (map (new_delivery host i ev res t muted) (audience host db))" "e = d\<lparr>nd_id := j\<rparr>"
      "i_delivery_seq db \<le> j" "j < i_delivery_seq db + length (audience host db)"
    unfolding announcements_def by (auto dest!: numbered_set)
  with \<open>alerts\<close> show ?thesis by (auto simp: announcements_def l new_delivery_def)
qed

lemma announcements_keys:
  assumes "distinct (map nt_id (i_targets db))"
  shows "distinct (map out_key (announcements host alerts i ev res t muted db))"
    "distinct (map nd_id (announcements host alerts i ev res t muted db))"
proof -
  have m: "map out_key (map (new_delivery host i ev res t muted) xs) = map (\<lambda>n. (i, ev, n)) (map nt_id xs)" for xs
    by (simp add: new_delivery_def)
  have "distinct (map (\<lambda>n. (i, ev, n)) (map nt_id (audience host db)))"
    using audience_distinct [OF assms, of host] unfolding distinct_map [of "\<lambda>n. (i, ev, n)"] by (simp add: inj_on_def)
  then show "distinct (map out_key (announcements host alerts i ev res t muted db))"
    unfolding announcements_def using numbered_keys [of "i_delivery_seq db"] m by (cases alerts) (simp_all only: if_True if_False, simp)
  show "distinct (map nd_id (announcements host alerts i ev res t muted db))"
    by (simp add: announcements_def numbered_ids)
qed

definition announce :: "proxy_host \<Rightarrow> bool \<Rightarrow> nat \<Rightarrow> string \<Rightarrow> check_result \<Rightarrow> int \<Rightarrow> bool \<Rightarrow> incident_db \<Rightarrow> incident_db" where
  "announce host alerts i ev res t muted db =
     db\<lparr>i_deliveries := i_deliveries db @ announcements host alerts i ev res t muted db,
        i_delivery_seq := i_delivery_seq db + length (announcements host alerts i ev res t muted db)\<rparr>"

lemma announce_outbox:
  assumes ok: "outbox_ok db" and fresh: "\<And>e. e \<in> set (i_deliveries db) \<Longrightarrow> \<not> (nd_incident_id e = i \<and> nd_event e = ev)"
    and i: "i < i_incident_seq db" and ev: "ev \<in> {''incident.opened'', ''incident.resolved''}"
    and closed: "ev = ''incident.resolved'' \<Longrightarrow> i \<notin> in_id ` set (filter is_open (i_incidents db))"
  shows "outbox_ok (announce host alerts i ev res t muted db)"
proof -
  let ?a = "announcements host alerts i ev res t muted db"
  note f = announcements_facts [of _ host alerts i ev res t muted db]
  have ids: "delivery_table.keys_ok (i_deliveries db @ ?a) (i_delivery_seq db + length ?a)"
    using ok announcements_keys(2) [OF outbox_ok_targets [OF ok], of host alerts i ev res t muted] f
    unfolding outbox_ok_def delivery_table.keys_ok_def by (fastforce simp: distinct_append)
  have keys: "distinct (map out_key (i_deliveries db @ ?a))"
    using ok announcements_keys(1) [OF outbox_ok_targets [OF ok], of host alerts i ev res t muted] f fresh
    unfolding outbox_ok_def by (fastforce simp: distinct_append)
  have rows: "nd_incident_id d < i_incident_seq db \<and> nd_event d \<in> {''incident.opened'', ''incident.resolved''} \<and>
        (nd_event d = ''incident.resolved'' \<longrightarrow> nd_incident_id d \<notin> in_id ` set (filter is_open (i_incidents db)))"
    if "d \<in> set (i_deliveries db @ ?a)" for d
    using that ok f [of d] i ev closed unfolding outbox_ok_def by (cases "d \<in> set ?a") simp_all
  show ?thesis using ok ids keys rows unfolding outbox_ok_def announce_def by simp
qed

lemma announce_rest:
  assumes "attempts_ok (i_deliveries db)" and "flight_ok fl (i_deliveries db)" and "\<forall>f \<in> set fl. nd_id f < i_delivery_seq db"
  shows "attempts_ok (i_deliveries (announce host alerts i ev res t muted db))"
    "flight_ok fl (i_deliveries (announce host alerts i ev res t muted db))"
    "\<forall>f \<in> set fl. nd_id f < i_delivery_seq (announce host alerts i ev res t muted db)"
proof -
  note f = announcements_facts [of _ host alerts i ev res t muted db]
  show "attempts_ok (i_deliveries (announce host alerts i ev res t muted db))"
    using assms(1) f unfolding attempts_ok_def announce_def by (fastforce simp: MAX_ATTEMPTS_def)
  show "flight_ok fl (i_deliveries (announce host alerts i ev res t muted db))"
    using assms(2,3) f unfolding flight_ok_def announce_def by fastforce
  show "\<forall>f \<in> set fl. nd_id f < i_delivery_seq (announce host alerts i ev res t muted db)"
    using assms(3) by (auto simp: announce_def)
qed

section \<open>Recording a check\<close>

definition resolve_incident :: "int \<Rightarrow> incident \<Rightarrow> incident" where
  "resolve_incident t x = x\<lparr>in_resolved_at := Some t, in_last_seen_at := t, in_resolution := Some ''recovered''\<rparr>"

definition new_incident :: "proxy_host \<Rightarrow> check_result \<Rightarrow> int \<Rightarrow> nat \<Rightarrow> incident" where
  "new_incident host res t n = \<lparr>in_id = n, in_host_id = ph_id host, in_opened_at = t, in_resolved_at = None, in_last_seen_at = t,
     in_resolution = None, in_failure_count = 1, in_message = plain_text (JStr (cr_message res)) 255\<rparr>"

lemma filter_open_patch:
  assumes "\<And>x. is_open (f x) = is_open x" and "\<And>x. in_host_id (f x) = in_host_id x"
  shows "map in_host_id (filter is_open (patch_where p f is)) = map in_host_id (filter is_open is)"
  using assms by (induction "is") simp_all

lemma filter_open_resolve:
  assumes "\<And>x. \<not> is_open (f x)"
  shows "filter is_open (patch_where p f is) = filter (\<lambda>x. is_open x \<and> \<not> p x) is"
  using assms by (induction "is") auto

lemma open_ids_unique:
  assumes "incidents_ok db" and "i \<in> set (i_incidents db)" and "is_open i" and "x \<in> set (i_incidents db)" and "is_open x"
    and "in_host_id x = in_host_id i"
  shows "x = i"
proof -
  have "distinct (map in_host_id (filter is_open (i_incidents db)))" using assms(1) by (simp add: incidents_ok_def)
  from distinct_key_eq [OF this, of x i] assms show ?thesis by simp
qed

text \<open>The database on which \<open>recordIncident\<close> runs: the observation of the host has just been replaced.\<close>

definition observed :: "proxy_host \<Rightarrow> check_result \<Rightarrow> incident_db \<Rightarrow> incident_db \<Rightarrow> bool" where
  "observed host res db db1 \<longleftrightarrow> i_incidents db1 = i_incidents db \<and> i_incident_seq db1 = i_incident_seq db \<and>
     i_targets db1 = i_targets db \<and> i_target_seq db1 = i_target_seq db \<and> i_deliveries db1 = i_deliveries db \<and>
     i_delivery_seq db1 = i_delivery_seq db \<and>
     (\<forall>p \<in> set (i_observations db1). p \<in> set (i_observations db) \<and> ob_host_id p \<noteq> ph_id host \<or>
        ob_host_id p = ph_id host \<and> ob_state p = cr_state res)"

lemma set_put_observation:
  "set (put_observation v os) \<subseteq> insert v {p \<in> set os. ob_host_id p \<noteq> ob_host_id v}"
  unfolding put_observation_def by (auto simp: set_patch_where)

lemma recordIncident_eq:
  assumes inv: "incidents_ok db" "outbox_ok db" and ob: "observed host res db db1"
  shows "recordIncident host alerts res t muted db1 = Inr (case cr_state res of
       St_unknown \<Rightarrow> db1
     | St_down \<Rightarrow> (case open_incident (ph_id host) db of
          Some i \<Rightarrow> patch_incident (in_id i) (\<lambda>x. x\<lparr>in_last_seen_at := t, in_failure_count := in_failure_count i + 1,
                      in_message := plain_text (JStr (cr_message res)) 255\<rparr>) db1
        | None \<Rightarrow> announce host alerts (i_incident_seq db) ''incident.opened'' res t muted
            (db1\<lparr>i_incidents := i_incidents db @ [new_incident host res t (i_incident_seq db)], i_incident_seq := Suc (i_incident_seq db)\<rparr>))
     | St_up \<Rightarrow> (case open_incident (ph_id host) db of
          None \<Rightarrow> db1
        | Some i \<Rightarrow> announce host alerts (in_id i) ''incident.resolved'' res t muted (patch_incident (in_id i) (resolve_incident t) db1)))"
proof -
  have o1: "open_incident (ph_id host) db1 = open_incident (ph_id host) db" using ob by (simp add: open_incident_def observed_def)
  have t1: "distinct (map nt_id (i_targets db1))" using outbox_ok_targets [OF inv(2)] ob by (simp add: observed_def)
  show ?thesis
  proof (cases "cr_state res")
    case St_unknown
    then show ?thesis by (simp add: recordIncident_def)
  next
    case St_down
    show ?thesis
    proof (cases "open_incident (ph_id host) db")
      case (Some i)
      with St_down o1 show ?thesis by (simp add: recordIncident_def)
    next
      case None
      let ?db = "db1\<lparr>i_incidents := i_incidents db @ [new_incident host res t (i_incident_seq db)], i_incident_seq := Suc (i_incident_seq db)\<rparr>"
      have "enqueue host alerts (i_incident_seq db) ''incident.opened'' res t muted ?db =
          Inr (announce host alerts (i_incident_seq db) ''incident.opened'' res t muted ?db)"
        unfolding announce_def by (rule enqueue_eq) (use t1 inv(2) ob in \<open>auto simp: observed_def outbox_ok_def\<close>)
      with St_down None o1 ob show ?thesis by (simp add: recordIncident_def Let_def new_incident_def observed_def)
    qed
  next
    case St_up
    show ?thesis
    proof (cases "open_incident (ph_id host) db")
      case None
      with St_up o1 show ?thesis by (simp add: recordIncident_def)
    next
      case (Some i)
      let ?db = "patch_incident (in_id i) (resolve_incident t) db1"
      have i: "in_id i \<in> in_id ` set (filter is_open (i_incidents db))" using open_incident_Some [OF Some] by auto
      have "enqueue host alerts (in_id i) ''incident.resolved'' res t muted ?db =
          Inr (announce host alerts (in_id i) ''incident.resolved'' res t muted ?db)"
        unfolding announce_def
        by (rule enqueue_eq) (use t1 inv(2) ob i in \<open>auto simp: observed_def outbox_ok_def patch_incident_def\<close>)
      with St_up Some o1 show ?thesis by (simp add: recordIncident_def resolve_incident_def [abs_def])
    qed
  qed
qed

text \<open>Each outcome keeps the invariant.\<close>

lemma keys_patch_incident:
  "(\<And>x. in_id (f x) = in_id x) \<Longrightarrow> incident_table.keys_ok is n \<Longrightarrow> incident_table.keys_ok (patch_where p f is) n"
  by (rule incident_table.keys_ok_patch) auto

lemma observations_ok_observed:
  assumes "observations_ok H (i_observations db)" and "observed host res db db1"
    and "\<And>h. h \<noteq> ph_id host \<Longrightarrow> h \<in> H' \<longleftrightarrow> h \<in> H"
    and "cr_state res = St_down \<Longrightarrow> ph_id host \<in> H'" and "cr_state res = St_up \<Longrightarrow> ph_id host \<notin> H'"
  shows "observations_ok H' (i_observations db1)"
  using assms unfolding observations_ok_def observed_def by metis

lemma incidents_ok_extend:
  assumes inv: "incidents_ok db" and ob: "observed host res db db1" and st: "cr_state res = St_down"
    and i: "open_incident (ph_id host) db = Some i"
    and f: "\<And>x. in_id (f x) = in_id x" "\<And>x. is_open (f x) = is_open x" "\<And>x. in_host_id (f x) = in_host_id x"
  shows "incidents_ok (patch_incident (in_id i) f db1)"
proof -
  have m: "map in_host_id (filter is_open (patch_where p f (i_incidents db))) = map in_host_id (filter is_open (i_incidents db))" for p
    by (rule filter_open_patch) (simp_all add: f)
  have h: "ph_id host \<in> open_hosts (i_incidents db)" using open_incident_Some [OF i] open_hostsI by metis
  have "observations_ok (open_hosts (i_incidents db)) (i_observations db1)"
    by (rule observations_ok_observed [OF _ ob]) (use inv h st in \<open>simp_all add: incidents_ok_def\<close>)
  with inv ob show ?thesis unfolding incidents_ok_def patch_incident_def observed_def
    by (simp add: m open_hosts_def keys_patch_incident f(1))
qed

lemma incidents_ok_open:
  assumes inv: "incidents_ok db" and ob: "observed host res db db1" and st: "cr_state res = St_down"
    and i: "open_incident (ph_id host) db = None"
  shows "incidents_ok (db1\<lparr>i_incidents := i_incidents db @ [new_incident host res t (i_incident_seq db)], i_incident_seq := Suc (i_incident_seq db)\<rparr>)"
proof -
  have n: "is_open (new_incident host res t n)" "in_id (new_incident host res t n) = n" "in_host_id (new_incident host res t n) = ph_id host" for n
    by (simp_all add: new_incident_def is_open_def)
  have h: "ph_id host \<notin> open_hosts (i_incidents db)" using i by (simp add: open_incident_None)
  have "observations_ok (insert (ph_id host) (open_hosts (i_incidents db))) (i_observations db1)"
    by (rule observations_ok_observed [OF _ ob]) (use inv st in \<open>simp_all add: incidents_ok_def\<close>)
  moreover have "open_hosts (i_incidents db @ [new_incident host res t (i_incident_seq db)]) = insert (ph_id host) (open_hosts (i_incidents db))"
    by (simp add: open_hosts_def n)
  ultimately show ?thesis using inv h unfolding incidents_ok_def
    by (simp add: n incident_table.keys_ok_insert open_hosts_def)
qed

lemma incidents_ok_resolve:
  assumes inv: "incidents_ok db" and ob: "observed host res db db1" and st: "cr_state res = St_up"
    and i: "open_incident (ph_id host) db = Some i"
  shows "incidents_ok (patch_incident (in_id i) (resolve_incident t) db1) \<and>
     set (filter is_open (i_incidents (patch_incident (in_id i) (resolve_incident t) db1))) =
       {x \<in> set (i_incidents db). is_open x \<and> in_id x \<noteq> in_id i}"
proof -
  have o': "\<not> is_open (resolve_incident t x)" "in_id (resolve_incident t x) = in_id x" for x
    by (simp_all add: resolve_incident_def is_open_def)
  have f: "filter is_open (patch_where (\<lambda>x. in_id x = in_id i) (resolve_incident t) (i_incidents db)) =
      filter (\<lambda>x. in_id x \<noteq> in_id i) (filter is_open (i_incidents db))"
    unfolding filter_open_resolve [of "resolve_incident t", OF o'(1)] by (simp add: conj_commute)
  have i': "i \<in> set (i_incidents db)" "in_host_id i = ph_id host" "is_open i" using open_incident_Some [OF i] by auto
  have other: "x \<in> set (i_incidents db) \<Longrightarrow> is_open x \<Longrightarrow> in_host_id x = ph_id host \<Longrightarrow> in_id x = in_id i" for x
    using open_ids_unique [OF inv i'(1,3)] i'(2) by simp
  have same: "x \<in> set (i_incidents db) \<Longrightarrow> in_id x = in_id i \<Longrightarrow> x = i" for x
    using inv i'(1) incident_table.keys_ok_eq by (auto simp: incidents_ok_def)
  have d: "distinct (map in_host_id (filter (\<lambda>x. in_id x \<noteq> in_id i) (filter is_open (i_incidents db))))"
    using inv by (simp only: incidents_ok_def distinct_map_filter)
  let ?is = "patch_where (\<lambda>x. in_id x = in_id i) (resolve_incident t) (i_incidents db)"
  have H: "h \<in> open_hosts ?is \<longleftrightarrow> h \<in> open_hosts (i_incidents db) \<and> h \<noteq> ph_id host" for h
    unfolding open_hosts_def f using other same i'(2) by auto
  have "observations_ok (open_hosts ?is) (i_observations db1)"
    by (rule observations_ok_observed [OF _ ob, of "open_hosts (i_incidents db)"]) (use inv H st in \<open>simp_all add: incidents_ok_def\<close>)
  moreover have "incident_table.keys_ok ?is (i_incident_seq db)"
    using inv by (intro keys_patch_incident o'(2)) (simp add: incidents_ok_def)
  moreover have "i_incidents db1 = i_incidents db" "i_incident_seq db1 = i_incident_seq db" using ob by (simp_all add: observed_def)
  ultimately show ?thesis using d unfolding incidents_ok_def patch_incident_def by (auto simp: f)
qed

lemma incidents_ok_observed:
  assumes inv: "incidents_ok db" and ob: "observed host res db db1" and st: "cr_state res = St_unknown \<or> cr_state res = St_up \<and> open_incident (ph_id host) db = None"
  shows "incidents_ok db1"
proof -
  have "observations_ok (open_hosts (i_incidents db)) (i_observations db1)"
    by (rule observations_ok_observed [OF _ ob]) (use inv st in \<open>auto simp: incidents_ok_def open_incident_None\<close>)
  with inv ob show ?thesis unfolding incidents_ok_def observed_def by simp
qed

lemma outbox_ok_cong:
  assumes "outbox_ok db" and "i_targets db' = i_targets db" "i_target_seq db' = i_target_seq db" "i_deliveries db' = i_deliveries db"
    "i_delivery_seq db' = i_delivery_seq db" "i_incident_seq db \<le> i_incident_seq db'"
    "\<And>x. x \<in> set (i_incidents db') \<Longrightarrow> is_open x \<Longrightarrow> in_id x \<in> in_id ` set (filter is_open (i_incidents db)) \<or> i_incident_seq db \<le> in_id x"
  shows "outbox_ok db'"
proof -
  have "nd_incident_id d \<notin> in_id ` set (filter is_open (i_incidents db'))"
    if "d \<in> set (i_deliveries db)" "nd_event d = ''incident.resolved''" for d
    using assms(1,7) that unfolding outbox_ok_def by (fastforce simp: not_less [symmetric])
  with assms show ?thesis unfolding outbox_ok_def by (auto intro: less_le_trans)
qed

lemma recordIncident_inv:
  assumes inv: "outbox_inv s" and ob: "observed host res (is_db s) db1"
  shows "\<exists>db'. recordIncident host alerts res t muted db1 = Inr db' \<and> outbox_inv (s\<lparr>is_db := db'\<rparr>)"
proof -
  let ?db = "is_db s"
  have i: "incidents_ok ?db" and o': "outbox_ok ?db" and a: "attempts_ok (i_deliveries ?db)" "flight_ok (is_flight s) (i_deliveries ?db)"
      "\<forall>f \<in> set (is_flight s). nd_id f < i_delivery_seq ?db"
    using inv by (simp_all add: outbox_inv_def)
  note eq = recordIncident_eq [OF i o' ob, of alerts t muted]
  have keep: "outbox_inv (s\<lparr>is_db := db'\<rparr>)" if "incidents_ok db'" "outbox_ok db'" "i_deliveries db' = i_deliveries ?db"
      "i_delivery_seq db' = i_delivery_seq ?db" for db'
    using that a by (simp add: outbox_inv_def)
  have ann: "outbox_inv (s\<lparr>is_db := announce host alerts n ev res t muted db'\<rparr>)"
    if d: "incidents_ok db'" "outbox_ok (announce host alerts n ev res t muted db')" "i_deliveries db' = i_deliveries ?db"
      "i_delivery_seq db' = i_delivery_seq ?db" for db' n ev
  proof -
    have "incidents_ok (announce host alerts n ev res t muted db')" using d(1) by (simp add: incidents_ok_def announce_def)
    moreover note announce_rest [of db' "is_flight s" host alerts n ev res t muted, unfolded d(3,4), OF a]
    ultimately show ?thesis using d(2) by (simp add: outbox_inv_def)
  qed
  have db1: "outbox_ok db1" by (rule outbox_ok_cong [OF o']) (use ob in \<open>auto simp: observed_def\<close>)
  show ?thesis
  proof (cases "cr_state res")
    case St_unknown
    with eq keep [of db1] db1 ob incidents_ok_observed [OF i ob] show ?thesis by (auto simp: observed_def)
  next
    case St_down
    show ?thesis
    proof (cases "open_incident (ph_id host) ?db")
      case (Some x)
      let ?f = "\<lambda>x'. x'\<lparr>in_last_seen_at := t, in_failure_count := in_failure_count x + 1, in_message := plain_text (JStr (cr_message res)) 255\<rparr>"
      have "incidents_ok (patch_incident (in_id x) ?f db1)"
        by (rule incidents_ok_extend [OF i ob St_down Some]) (simp_all add: is_open_def)
      moreover have "outbox_ok (patch_incident (in_id x) ?f db1)"
        by (rule outbox_ok_cong [OF o']) (use ob in \<open>auto simp: observed_def patch_incident_def set_patch_where is_open_def image_iff split: if_splits\<close>)
      ultimately show ?thesis using eq keep St_down Some ob by (simp add: observed_def patch_incident_def)
    next
      case None
      let ?n = "i_incident_seq ?db"
      let ?d = "db1\<lparr>i_incidents := i_incidents ?db @ [new_incident host res t ?n], i_incident_seq := Suc ?n\<rparr>"
      have "outbox_ok ?d"
        by (rule outbox_ok_cong [OF o']) (use ob in \<open>auto simp: observed_def new_incident_def\<close>)
      then have "outbox_ok (announce host alerts ?n ''incident.opened'' res t muted ?d)"
        by (rule announce_outbox) (use o' ob in \<open>auto simp: outbox_ok_def observed_def\<close>)
      with ann [OF incidents_ok_open [OF i ob St_down None]] eq St_down None ob show ?thesis by (simp add: observed_def)
    qed
  next
    case St_up
    show ?thesis
    proof (cases "open_incident (ph_id host) ?db")
      case None
      with eq keep [of db1] db1 ob incidents_ok_observed [OF i ob] St_up show ?thesis by (auto simp: observed_def)
    next
      case (Some x)
      let ?d = "patch_incident (in_id x) (resolve_incident t) db1"
      note r = incidents_ok_resolve [OF i ob St_up Some, of t]
      have x: "x \<in> set (i_incidents ?db)" "is_open x" using open_incident_Some [OF Some] by auto
      have xs: "in_id x < i_incident_seq ?db" using i x by (simp add: incidents_ok_def incident_table.keys_ok_def)
      have "outbox_ok ?d"
      proof (rule outbox_ok_cong [OF o'])
        fix y
        assume "y \<in> set (i_incidents ?d)" "is_open y"
        then have "y \<in> set (filter is_open (i_incidents ?d))" by simp
        then show "in_id y \<in> in_id ` set (filter is_open (i_incidents ?db)) \<or> i_incident_seq ?db \<le> in_id y"
          unfolding r [THEN conjunct2] by auto
      qed (use ob in \<open>auto simp: observed_def patch_incident_def\<close>)
      then have "outbox_ok (announce host alerts (in_id x) ''incident.resolved'' res t muted ?d)"
      proof (rule announce_outbox)
        show "in_id x \<notin> in_id ` set (filter is_open (i_incidents ?d))" unfolding r [THEN conjunct2] by auto
        show "in_id x < i_incident_seq ?d" using xs ob by (simp add: observed_def patch_incident_def)
        show "\<not> (nd_incident_id e = in_id x \<and> nd_event e = ''incident.resolved'')" if "e \<in> set (i_deliveries ?d)" for e
          using that o' ob x by (auto simp: outbox_ok_def observed_def patch_incident_def)
      qed simp
      with ann [OF r [THEN conjunct1]] eq St_up Some ob show ?thesis by (simp add: observed_def patch_incident_def)
    qed
  qed
qed

lemma recordCheck_inv:
  assumes inv: "outbox_inv s"
  shows "\<exists>db'. recordCheck host config res t muted (is_db s) = Inr db' \<and> outbox_inv (s\<lparr>is_db := db'\<rparr>)"
proof (cases "case find_observation (ph_id host) (is_db s) of Some p \<Rightarrow> t \<le> ob_checked_at p | None \<Rightarrow> False")
  case True
  with inv show ?thesis by (simp add: recordCheck_def Let_def)
next
  case False
  define db1 where "db1 = (is_db s)\<lparr>i_daily := credit_days (ph_id host) (find_observation (ph_id host) (is_db s)) t (i_daily (is_db s)),
              i_latency := (if cr_state res = St_up
                 then addLatency (ph_id host) (minute_of t) (cr_response_ms res) (i_latency (is_db s)) else i_latency (is_db s)),
              i_observations := put_observation \<lparr>ob_host_id = ph_id host, ob_checked_at = t,
                 ob_state = cr_state res, ob_interval_seconds = m_interval_seconds config\<rparr> (i_observations (is_db s))\<rparr>"
  have "observed host res (is_db s) db1"
    unfolding observed_def db1_def using set_put_observation by fastforce
  from recordIncident_inv [OF inv this] have
    "\<exists>db'. recordIncident host (m_alert_enabled config) res t muted db1 = Inr db' \<and> outbox_inv (s\<lparr>is_db := db'\<rparr>)" .
  with False show ?thesis unfolding db1_def recordCheck_def Let_def by simp
qed

section \<open>The other steps\<close>

text \<open>Patching rows of the outbox without changing their identity.\<close>

definition keeps_identity :: "(delivery \<Rightarrow> delivery) \<Rightarrow> bool" where
  "keeps_identity f \<longleftrightarrow> (\<forall>x. nd_id (f x) = nd_id x \<and> out_key (f x) = out_key x)"

lemma outbox_ok_patch:
  assumes "outbox_ok db" and "keeps_identity f"
  shows "outbox_ok (db\<lparr>i_deliveries := patch_where p f (i_deliveries db)\<rparr>)"
proof -
  have k: "map out_key (patch_where p f ds) = map out_key ds" for ds
    using assms(2) by (induction ds) (simp_all add: keeps_identity_def)
  have r: "\<exists>x \<in> set ds. nd_incident_id e = nd_incident_id x \<and> nd_event e = nd_event x" if "e \<in> set (patch_where p f ds)" for e ds
    using that assms(2) by (auto simp: set_patch_where keeps_identity_def split: if_splits)
  have i: "delivery_table.keys_ok (patch_where p f (i_deliveries db)) (i_delivery_seq db)"
    by (rule delivery_table.keys_ok_patch) (use assms in \<open>simp_all add: keeps_identity_def outbox_ok_def\<close>)
  have "nd_incident_id e < i_incident_seq db \<and> nd_event e \<in> {''incident.opened'', ''incident.resolved''} \<and>
      (nd_event e = ''incident.resolved'' \<longrightarrow> nd_incident_id e \<notin> in_id ` set (filter is_open (i_incidents db)))"
    if "e \<in> set (patch_where p f (i_deliveries db))" for e
  proof -
    from r [OF that] obtain x where x: "x \<in> set (i_deliveries db)" "nd_incident_id e = nd_incident_id x" "nd_event e = nd_event x" by blast
    show ?thesis unfolding x(2,3) using assms(1) x(1) unfolding outbox_ok_def by blast
  qed
  with assms(1) i show ?thesis unfolding outbox_ok_def by (simp add: k)
qed

lemma outbox_ok_delete: "outbox_ok db \<Longrightarrow> outbox_ok (db\<lparr>i_deliveries := delete_where p (i_deliveries db)\<rparr>)"
  unfolding outbox_ok_def delete_where_def using delivery_table.keys_ok_delete [of _ _ p] by (auto simp: delete_where_def distinct_map_filter)

lemma rest_delete:
  "attempts_ok ds \<Longrightarrow> attempts_ok (delete_where p ds)" "flight_ok fl ds \<Longrightarrow> flight_ok fl (delete_where p ds)"
  by (auto simp: attempts_ok_def flight_ok_def)

text \<open>Operations that leave incidents, observations and the outbox alone.\<close>

lemma outbox_inv_frame:
  assumes "outbox_inv s" and "is_flight s' = is_flight s" and "i_incidents (is_db s') = i_incidents (is_db s)"
    and "i_observations (is_db s') = i_observations (is_db s)" and "i_incident_seq (is_db s') = i_incident_seq (is_db s)"
    and "i_deliveries (is_db s') = i_deliveries (is_db s)" and "i_delivery_seq (is_db s') = i_delivery_seq (is_db s)"
    and "target_table.keys_ok (i_targets (is_db s')) (i_target_seq (is_db s'))"
  shows "outbox_inv s'"
  using assms unfolding outbox_inv_def incidents_ok_def outbox_ok_def by simp

lemma put_target_keys:
  assumes "target_table.keys_ok (i_targets db) (i_target_seq db)"
    and "target_row env owner cur input (i_target_seq db) = Inr row"
    and "cur = None \<or> (\<exists>c. cur = Some c \<and> c \<in> set (i_targets db))"
  shows "target_table.keys_ok (i_targets (put_target cur row db)) (i_target_seq (put_target cur row db))"
proof (cases cur)
  case None
  with assms(2) have "nt_id row = i_target_seq db"
    by (auto simp: target_row_def Let_def rbind_Inr split: if_splits)
  with None assms(1) show ?thesis by (simp add: put_target_def target_table.keys_ok_insert)
next
  case (Some c)
  with assms(2) have "nt_id row = nt_id c" by (auto simp: target_row_def Let_def rbind_Inr split: if_splits)
  then have "map nt_id (patch_where (\<lambda>t. nt_id t = nt_id c) (\<lambda>_. row) (i_targets db)) = map nt_id (i_targets db)"
    by (simp add: patch_where_def)
  with Some assms(1) \<open>nt_id row = nt_id c\<close> show ?thesis
    unfolding put_target_def target_table.keys_ok_def by (auto simp: set_patch_where)
qed

lemma findTarget_Inr:
  assumes "findTarget acc t db = Inr c"
  shows "c \<in> set (i_targets db) \<and> JNum (nt_owner_user_id c) = acc_user acc 1"
proof -
  from assms obtain i where i: "(case List.find (\<lambda>t. int (nt_id t) = i \<and> JNum (nt_owner_user_id t) = acc_user acc 1) (i_targets db) of
      None \<Rightarrow> Inl (mk_ItemNotFoundError (js_string t)) | Some t \<Rightarrow> Inr t) = Inr c"
    unfolding findTarget_def rbind_Inr by blast
  then have "List.find (\<lambda>t. int (nt_id t) = i \<and> JNum (nt_owner_user_id t) = acc_user acc 1) (i_targets db) = Some c"
    by (auto split: option.splits)
  from find_SomeD [OF this] show ?thesis by simp
qed

lemma outbox_inv_save:
  assumes inv: "outbox_inv s" and sv: "saveTarget env acc now t input (is_db s) = Inr (p, db')"
  shows "outbox_inv (s\<lparr>is_db := db'\<rparr>)"
proof -
  from sv obtain cur row log k where r: "target_row env (int_of (acc_user acc 1)) cur input (i_target_seq (is_db s)) = Inr row"
      "cur = None \<or> (\<exists>c. cur = Some c \<and> findTarget acc t (is_db s) = Inr c)"
      "db' = (put_target cur row (is_db s))\<lparr>i_audit := log, i_audit_seq := k\<rparr>"
    by (rule saveTarget_put)
  have "target_table.keys_ok (i_targets (put_target cur row (is_db s))) (i_target_seq (put_target cur row (is_db s)))"
  proof (rule put_target_keys [OF _ r(1)])
    show "target_table.keys_ok (i_targets (is_db s)) (i_target_seq (is_db s))" using inv by (simp add: outbox_inv_def outbox_ok_def)
    show "cur = None \<or> (\<exists>c. cur = Some c \<and> c \<in> set (i_targets (is_db s)))"
      using r(2) findTarget_Inr by blast
  qed
  then show ?thesis
    by (intro outbox_inv_frame [OF inv]) (simp_all add: r(3) put_target_def split: option.splits)
qed

lemma outbox_inv_reset:
  assumes "outbox_inv s"
  shows "outbox_inv (s\<lparr>is_db := resetHost now h (is_db s)\<rparr>)"
proof -
  define p :: "incident \<Rightarrow> bool" where "p = (\<lambda>i. in_host_id i = h \<and> in_resolved_at i = None)"
  define f :: "incident \<Rightarrow> incident" where "f = (\<lambda>i. i\<lparr>in_resolved_at := Some now, in_resolution := Some ''monitor_changed''\<rparr>)"
  have f: "\<not> is_open (f x)" "in_id (f x) = in_id x" for x by (simp_all add: f_def is_open_def)
  have o': "filter is_open (patch_where p f is) = filter (\<lambda>x. \<not> p x) (filter is_open is)" for "is"
    unfolding filter_open_resolve [of f, OF f(1)] by (simp add: conj_commute)
  have H: "k \<in> open_hosts (patch_where p f is) \<longleftrightarrow> k \<in> open_hosts is \<and> k \<noteq> h" for k "is"
    unfolding open_hosts_def o' by (auto simp: p_def is_open_def)
  have r: "resetHost now h db = db\<lparr>i_observations := delete_where (\<lambda>o'. ob_host_id o' = h) (i_observations db),
      i_incidents := patch_where p f (i_incidents db)\<rparr>" for db by (simp add: resetHost_def p_def f_def)
  have "distinct (map in_host_id (filter is_open (patch_where p f (i_incidents (is_db s)))))"
    unfolding o' using assms by (simp only: outbox_inv_def incidents_ok_def distinct_map_filter)
  then have "incidents_ok (resetHost now h (is_db s))"
    using assms unfolding outbox_inv_def incidents_ok_def r
    by (auto simp: keys_patch_incident f(2) observations_ok_def H)
  moreover have "outbox_ok (resetHost now h (is_db s))"
  proof (rule outbox_ok_cong [of "is_db s"])
    show "in_id x \<in> in_id ` set (filter is_open (i_incidents (is_db s))) \<or> i_incident_seq (is_db s) \<le> in_id x"
      if "x \<in> set (i_incidents (resetHost now h (is_db s)))" "is_open x" for x
    proof -
      have "x \<in> set (filter is_open (patch_where p f (i_incidents (is_db s))))" using that by (simp add: r)
      then show ?thesis unfolding o' by auto
    qed
  qed (use assms in \<open>simp_all add: outbox_inv_def r\<close>)
  ultimately show ?thesis using assms by (simp add: outbox_inv_def r)
qed

lemma outbox_inv_drop:
  assumes inv: "outbox_inv s" and inc: "i_incidents db' = delete_where q (i_incidents (is_db s))"
    and obs: "i_observations db' = delete_where o' (i_observations (is_db s))"
    and cover: "\<And>x p. x \<in> set (i_incidents (is_db s)) \<Longrightarrow> q x \<Longrightarrow> is_open x \<Longrightarrow> p \<in> set (i_observations (is_db s)) \<Longrightarrow>
       ob_host_id p = in_host_id x \<Longrightarrow> o' p"
    and dl: "i_deliveries db' = delete_where r (i_deliveries (is_db s))"
    and rest: "i_incident_seq db' = i_incident_seq (is_db s)" "i_delivery_seq db' = i_delivery_seq (is_db s)"
      "i_targets db' = i_targets (is_db s)" "i_target_seq db' = i_target_seq (is_db s)"
  shows "outbox_inv (s\<lparr>is_db := db'\<rparr>)"
proof -
  have f: "filter is_open (delete_where q is) = filter (\<lambda>x. \<not> q x) (filter is_open is)" for "is"
    by (simp add: delete_where_def conj_commute)
  have "incident_table.keys_ok (i_incidents db') (i_incident_seq db')"
    unfolding inc rest(1) using inv by (intro incident_table.keys_ok_delete) (simp add: outbox_inv_def incidents_ok_def)
  moreover have "distinct (map in_host_id (filter is_open (i_incidents db')))"
    unfolding inc f using inv by (simp only: outbox_inv_def incidents_ok_def distinct_map_filter)
  moreover have "observations_ok (open_hosts (i_incidents db')) (i_observations db')"
    using inv cover unfolding outbox_inv_def incidents_ok_def observations_ok_def open_hosts_def inc f obs by fastforce
  ultimately have "incidents_ok db'" by (simp add: incidents_ok_def)
  moreover have "outbox_ok db'"
  proof (rule outbox_ok_cong [of "(is_db s)\<lparr>i_deliveries := delete_where r (i_deliveries (is_db s))\<rparr>"])
    show "outbox_ok ((is_db s)\<lparr>i_deliveries := delete_where r (i_deliveries (is_db s))\<rparr>)"
      using inv by (intro outbox_ok_delete) (simp add: outbox_inv_def)
  qed (auto simp: inc dl rest)
  ultimately show ?thesis using inv by (simp add: outbox_inv_def dl rest rest_delete)
qed

lemma outbox_inv_patch:
  assumes inv: "outbox_inv s" and f: "keeps_identity f"
    and a: "attempts_ok (patch_where p f (i_deliveries (is_db s)))" and fl: "flight_ok fl (patch_where p f (i_deliveries (is_db s)))"
    and ids: "\<forall>g \<in> set fl. nd_id g < i_delivery_seq (is_db s)"
  shows "outbox_inv (s\<lparr>is_db := (is_db s)\<lparr>i_deliveries := patch_where p f (i_deliveries (is_db s))\<rparr>, is_flight := fl\<rparr>)"
proof -
  have "outbox_ok ((is_db s)\<lparr>i_deliveries := patch_where p f (i_deliveries (is_db s))\<rparr>)"
    using inv f by (intro outbox_ok_patch) (simp add: outbox_inv_def)
  with assms show ?thesis by (simp add: outbox_inv_def incidents_ok_def)
qed

lemma flight_ok_patch:
  assumes fl: "flight_ok fl ds" and f: "\<And>x. nd_id (f x) = nd_id x"
    and p: "\<And>x. x \<in> set ds \<Longrightarrow> p x \<Longrightarrow> nd_status x \<noteq> Sending \<or> nd_id x \<notin> nd_id ` set fl"
  shows "flight_ok fl (patch_where p f ds)"
  unfolding flight_ok_def
proof (intro conjI ballI impI)
  show "distinct (map nd_id fl)" using fl by (simp add: flight_ok_def)
  fix g y
  assume g: "g \<in> set fl" and y: "y \<in> set (patch_where p f ds)" and e: "nd_id y = nd_id g"
  from y obtain x where x: "x \<in> set ds" "y = (if p x then f x else x)" unfolding set_patch_where by blast
  have "nd_id x = nd_id g" using x(2) e f by (cases "p x") simp_all
  with fl g x(1) have st: "nd_status x = Sending" "nd_attempts x = nd_attempts g" by (simp_all add: flight_ok_def)
  have "\<not> p x" using p [OF x(1)] st(1) g \<open>nd_id x = nd_id g\<close> by auto
  with x(2) st show "nd_status y = Sending" "nd_attempts y = nd_attempts g" by simp_all
qed

lemma outbox_inv_retry:
  assumes inv: "outbox_inv s" and r: "retry acc now i (is_db s) = Inr db'"
  shows "outbox_inv (s\<lparr>is_db := db'\<rparr>)"
proof -
  from r obtain row :: delivery and log n where row: "nd_status row \<in> {Delivery_failed, Pending, Muted}" and
    db': "db' = (is_db s)\<lparr>i_deliveries := patch_where (\<lambda>d. nd_id d = nd_id row \<and> nd_status d = nd_status row \<and> nd_attempts d = nd_attempts row)
        (\<lambda>d. d\<lparr>nd_status := Pending, nd_attempts := 0, nd_next_attempt_at := now, nd_last_error := None\<rparr>) (i_deliveries (is_db s)),
        i_audit := log, i_audit_seq := n\<rparr>" by (rule retry_frame)
  let ?p = "\<lambda>d. nd_id d = nd_id row \<and> nd_status d = nd_status row \<and> nd_attempts d = nd_attempts row"
  let ?f = "\<lambda>d. d\<lparr>nd_status := Pending, nd_attempts := 0, nd_next_attempt_at := now, nd_last_error := None\<rparr>"
  have "outbox_inv (s\<lparr>is_db := (is_db s)\<lparr>i_deliveries := patch_where ?p ?f (i_deliveries (is_db s))\<rparr>, is_flight := is_flight s\<rparr>)"
  proof (rule outbox_inv_patch [OF inv])
    show "keeps_identity ?f" by (simp add: keeps_identity_def)
    show "attempts_ok (patch_where ?p ?f (i_deliveries (is_db s)))"
      using inv by (auto simp: outbox_inv_def attempts_ok_def set_patch_where MAX_ATTEMPTS_def)
    have "nd_status d \<noteq> Sending" if "?p d" for d using that row by auto
    then show "flight_ok (is_flight s) (patch_where ?p ?f (i_deliveries (is_db s)))"
      using inv by (intro flight_ok_patch) (auto simp: outbox_inv_def)
    show "\<forall>g \<in> set (is_flight s). nd_id g < i_delivery_seq (is_db s)" using inv by (simp add: outbox_inv_def)
  qed
  then show ?thesis by (rule outbox_inv_frame) (use inv in \<open>simp_all add: db' outbox_inv_def outbox_ok_def\<close>)
qed

lemma outbox_inv_claim:
  assumes inv: "outbox_inv s" and c: "deliver_claim now n (is_db s) = (Some d, db')"
  shows "outbox_inv (s\<lparr>is_db := db', is_flight := d # is_flight s\<rparr>)"
proof -
  from c obtain row where row: "List.find (\<lambda>d. nd_id d = n) (i_deliveries (is_db s)) = Some row" "nd_status row = Pending"
    "d = row\<lparr>nd_status := Sending, nd_attempts := nd_attempts row + 1, nd_next_attempt_at := now + 300000\<rparr>"
    "db' = patch_delivery n (\<lambda>d. d\<lparr>nd_status := Sending, nd_attempts := nd_attempts row + 1, nd_next_attempt_at := now + 300000\<rparr>) (is_db s)"
    by (rule deliver_claim_Some)
  have r: "row \<in> set (i_deliveries (is_db s))" "nd_id row = n" using find_SomeD [OF row(1)] by simp_all
  have att: "nd_attempts row < MAX_ATTEMPTS" using inv r(1) row(2) by (simp add: outbox_inv_def attempts_ok_def)
  have nfl: "n \<notin> nd_id ` set (is_flight s)" using inv r row(2) by (fastforce simp: outbox_inv_def flight_ok_def)
  have id_lt: "n < i_delivery_seq (is_db s)" using inv r by (auto simp: outbox_inv_def outbox_ok_def delivery_table.keys_ok_def)
  let ?f = "\<lambda>d. d\<lparr>nd_status := Sending, nd_attempts := nd_attempts row + 1, nd_next_attempt_at := now + 300000\<rparr>"
  have "outbox_inv (s\<lparr>is_db := (is_db s)\<lparr>i_deliveries := patch_where (\<lambda>x. nd_id x = n) ?f (i_deliveries (is_db s))\<rparr>, is_flight := d # is_flight s\<rparr>)"
  proof (rule outbox_inv_patch [OF inv])
    show "keeps_identity ?f" by (simp add: keeps_identity_def)
    show "attempts_ok (patch_where (\<lambda>x. nd_id x = n) ?f (i_deliveries (is_db s)))"
      using inv att by (auto simp: outbox_inv_def attempts_ok_def set_patch_where)
    show "flight_ok (d # is_flight s) (patch_where (\<lambda>x. nd_id x = n) ?f (i_deliveries (is_db s)))"
      using inv nfl r(2) unfolding outbox_inv_def flight_ok_def set_patch_where row(3) by (auto split: if_splits)
    show "\<forall>g \<in> set (d # is_flight s). nd_id g < i_delivery_seq (is_db s)"
      using inv id_lt r(2) by (auto simp: outbox_inv_def row(3))
  qed
  then show ?thesis by (simp add: row(4) patch_delivery_def)
qed

lemma outbox_inv_settle:
  assumes inv: "outbox_inv s" and d: "d \<in> set (is_flight s)" and c: "deliver_settle env now d (is_db s) = (db', rq)"
  shows "outbox_inv (s\<lparr>is_db := db', is_flight := remove1 d (is_flight s)\<rparr>)"
proof -
  from c obtain f where f: "db' = patch_delivery (nd_id d) f (is_db s)"
    "\<And>x. nd_id (f x) = nd_id x \<and> nd_attempts (f x) = nd_attempts x \<and> nd_incident_id (f x) = nd_incident_id x \<and> nd_event (f x) = nd_event x \<and>
       nd_target_id (f x) = nd_target_id x \<and> nd_host_id (f x) = nd_host_id x \<and> nd_status (f x) \<noteq> Sending \<and>
       (nd_status (f x) = Pending \<longrightarrow> nd_attempts d < MAX_ATTEMPTS)" by (rule deliver_settle_patch) blast
  have dist: "distinct (map nd_id (is_flight s))" using inv by (simp add: outbox_inv_def flight_ok_def)
  then have rest: "distinct (map nd_id (remove1 d (is_flight s)))" "\<forall>g \<in> set (remove1 d (is_flight s)). g \<in> set (is_flight s) \<and> nd_id g \<noteq> nd_id d"
    using d by (auto simp: distinct_map inj_on_def)
  have row: "nd_attempts x = nd_attempts d" if "x \<in> set (i_deliveries (is_db s))" "nd_id x = nd_id d" for x
    using inv d that by (auto simp: outbox_inv_def flight_ok_def)
  have "outbox_inv (s\<lparr>is_db := (is_db s)\<lparr>i_deliveries := patch_where (\<lambda>x. nd_id x = nd_id d) f (i_deliveries (is_db s))\<rparr>,
      is_flight := remove1 d (is_flight s)\<rparr>)"
  proof (rule outbox_inv_patch [OF inv])
    show "keeps_identity f" using f(2) by (simp add: keeps_identity_def)
    show "attempts_ok (patch_where (\<lambda>x. nd_id x = nd_id d) f (i_deliveries (is_db s)))"
      unfolding attempts_ok_def
    proof
      fix y
      assume "y \<in> set (patch_where (\<lambda>x. nd_id x = nd_id d) f (i_deliveries (is_db s)))"
      then obtain x where x: "x \<in> set (i_deliveries (is_db s))" "y = (if nd_id x = nd_id d then f x else x)" unfolding set_patch_where by blast
      have "nd_attempts x \<le> MAX_ATTEMPTS \<and> (nd_status x = Pending \<longrightarrow> nd_attempts x < MAX_ATTEMPTS)"
        using inv x(1) by (simp add: outbox_inv_def attempts_ok_def)
      with x f(2) [of x] row [of x] show "nd_attempts y \<le> MAX_ATTEMPTS \<and> (nd_status y = Pending \<longrightarrow> nd_attempts y < MAX_ATTEMPTS)"
        by (cases "nd_id x = nd_id d") simp_all
    qed
    show "flight_ok (remove1 d (is_flight s)) (patch_where (\<lambda>x. nd_id x = nd_id d) f (i_deliveries (is_db s)))"
    proof (rule flight_ok_patch)
      show "flight_ok (remove1 d (is_flight s)) (i_deliveries (is_db s))"
        using inv rest unfolding outbox_inv_def flight_ok_def by blast
      show "nd_id (f x) = nd_id x" for x using f(2) [of x] by blast
      show "nd_status x \<noteq> Sending \<or> nd_id x \<notin> nd_id ` set (remove1 d (is_flight s))" if "nd_id x = nd_id d" for x
        using rest(2) that by (metis imageE)
    qed
    show "\<forall>g \<in> set (remove1 d (is_flight s)). nd_id g < i_delivery_seq (is_db s)"
      using inv rest(2) unfolding outbox_inv_def by blast
  qed
  then show ?thesis by (simp add: f(1) patch_delivery_def)
qed

lemma recover_eq:
  "recover_sending now db = db\<lparr>i_deliveries := patch_where (\<lambda>d. nd_status d = Sending \<and> nd_next_attempt_at d \<le> now)
     (\<lambda>d. if nd_attempts d < MAX_ATTEMPTS then d\<lparr>nd_status := Pending, nd_last_error := Some ''Previous delivery attempt was interrupted''\<rparr>
          else d\<lparr>nd_status := Delivery_failed, nd_last_error := Some ''Final delivery attempt was interrupted; retry explicitly if needed''\<rparr>)
     (i_deliveries db)\<rparr>"
  unfolding recover_sending_def patch_where_def by (simp add: not_less)

lemma outbox_inv_recover:
  assumes inv: "outbox_inv s" and e: "is_flight s = []"
  shows "outbox_inv (s\<lparr>is_db := recover_sending now (is_db s)\<rparr>)"
proof -
  have "outbox_inv (s\<lparr>is_db := recover_sending now (is_db s), is_flight := []\<rparr>)"
    unfolding recover_eq
    by (rule outbox_inv_patch [OF inv])
      (use inv in \<open>auto simp: keeps_identity_def flight_ok_def outbox_inv_def attempts_ok_def set_patch_where split: if_splits\<close>)
  with e show ?thesis by (simp add: outbox_inv_def)
qed

lemma outbox_inv_step: "inc_step env s t \<Longrightarrow> outbox_inv s \<Longrightarrow> outbox_inv t"
proof (induction rule: inc_step.induct)
  case (s_clock s c)
  from s_clock(2) show ?case by (rule outbox_inv_frame) (use s_clock(2) in \<open>simp_all add: outbox_inv_def outbox_ok_def\<close>)
next
  case (s_hosts s hs)
  then show ?case by (intro outbox_inv_frame [OF s_hosts]) (simp_all add: outbox_inv_def outbox_ok_def)
next
  case (s_record host config res s muted db')
  with recordCheck_inv [OF s_record(2), of host config res "is_clock s (ph_id host)" muted] show ?case by auto
next
  case (s_reset s now h)
  then show ?case by (rule outbox_inv_reset)
next
  case (s_remove s h)
  then show ?case
    by (rule outbox_inv_drop [where q = "\<lambda>x. in_host_id x = h" and o' = "\<lambda>x. ob_host_id x = h" and r = "\<lambda>x. nd_host_id x = h"])
      (simp_all add: removeHost_def)
next
  case (s_mute acc now h data s m db')
  then show ?case by (elim setMute_frame) (rule outbox_inv_frame, simp_all add: outbox_inv_def outbox_ok_def)
next
  case (s_save acc now t input s p db')
  then show ?case by (blast intro: outbox_inv_save)
next
  case (s_delete acc now t s db')
  from s_delete(1) obtain i log n where d: "db' = (is_db s)\<lparr>i_deliveries := delete_where (\<lambda>d. nd_target_id d = i) (i_deliveries (is_db s)),
     i_targets := delete_where (\<lambda>x. nt_id x = i) (i_targets (is_db s)), i_audit := log, i_audit_seq := n\<rparr>" by (rule deleteTarget_frame)
  have "outbox_inv (s\<lparr>is_db := (is_db s)\<lparr>i_deliveries := delete_where (\<lambda>d. nd_target_id d = i) (i_deliveries (is_db s))\<rparr>\<rparr>)"
    by (rule outbox_inv_drop [OF s_delete(2), where q = "\<lambda>_. False" and o' = "\<lambda>_. False" and r = "\<lambda>d. nd_target_id d = i"])
      (simp_all add: delete_where_def)
  then show ?case
    by (rule outbox_inv_frame) (use s_delete(2) in \<open>simp_all add: d target_table.keys_ok_delete outbox_inv_def outbox_ok_def\<close>)
next
  case (s_retry acc now i s db')
  then show ?case by (blast intro: outbox_inv_retry)
next
  case (s_claim now n s d db')
  then show ?case by (blast intro: outbox_inv_claim)
next
  case (s_settle d s now db' rq)
  then show ?case by (blast intro: outbox_inv_settle)
next
  case (s_recover s now)
  then show ?case by (blast intro: outbox_inv_recover)
next
  case (s_cleanup s now)
  then show ?case
    by (rule outbox_inv_drop [where q = "\<lambda>i. case in_resolved_at i of None \<Rightarrow> False | Some r \<Rightarrow> r < now - 366 * DAY_MS"
          and o' = "\<lambda>_. False" and r = "\<lambda>d. nd_created_on d < now - 366 * DAY_MS \<and> nd_status d \<noteq> Sending"])
      (auto simp: cleanup_def is_open_def delete_where_def)
next
  case (s_restart s)
  then show ?case by (simp add: outbox_inv_def flight_ok_def)
qed

interpretation outbox_system: invariant_system "inc_step env" outbox_inv for env
  by unfold_locales (blast intro: outbox_inv_step)

lemma outbox_inv_reachable: "inc_reachable env s \<Longrightarrow> outbox_inv s"
  unfolding inc_reachable_def
  by (elim exE outbox_system.steps_inv)
    (simp add: outbox_inv_def incidents_ok_def outbox_ok_def inc_empty_def incident_table.keys_ok_def delivery_table.keys_ok_def
      target_table.keys_ok_def observations_ok_def attempts_ok_def flight_ok_def)

end
