(* ===== verification/Incident_Claims.thy ===== *)
theory Incident_Claims
  imports Incident_Outbox
begin

text \<open>
  The properties of incidents and of the notification outbox, over the transition system of
  \<open>Incident_Props\<close> and its invariants.
\<close>

section \<open>Incidents\<close>

text \<open>C15. A host has at most one open incident, and it agrees with the last observation. In every reachable
  state two open incidents of one host are the same, a host last observed down has an open incident,
  and a host last observed up has none.\<close>

theorem one_open_incident:
  assumes "inc_reachable env s"
  shows "(\<forall>i \<in> set (i_incidents (is_db s)). \<forall>j \<in> set (i_incidents (is_db s)).
       in_resolved_at i = None \<and> in_resolved_at j = None \<and> in_host_id i = in_host_id j \<longrightarrow> i = j) \<and>
     (\<forall>p \<in> set (i_observations (is_db s)).
       (ob_state p = St_down \<longrightarrow> (\<exists>i \<in> set (i_incidents (is_db s)). in_resolved_at i = None \<and> in_host_id i = ob_host_id p)) \<and>
       (ob_state p = St_up \<longrightarrow> (\<forall>i \<in> set (i_incidents (is_db s)). in_host_id i = ob_host_id p \<longrightarrow> in_resolved_at i \<noteq> None)))"
proof -
  have ok: "incidents_ok (is_db s)" using outbox_inv_reachable [OF assms] by (simp add: outbox_inv_def)
  have "i = j" if "i \<in> set (i_incidents (is_db s))" "j \<in> set (i_incidents (is_db s))" "in_resolved_at i = None" "in_resolved_at j = None"
      "in_host_id i = in_host_id j" for i j
    using open_ids_unique [OF ok that(2) _ that(1)] that by (simp add: is_open_def)
  moreover have "\<exists>i \<in> set (i_incidents (is_db s)). in_resolved_at i = None \<and> in_host_id i = ob_host_id p"
    if "p \<in> set (i_observations (is_db s))" "ob_state p = St_down" for p
    using ok that by (fastforce simp: incidents_ok_def observations_ok_def open_hosts_def is_open_def)
  moreover have "in_resolved_at i \<noteq> None"
    if "p \<in> set (i_observations (is_db s))" "ob_state p = St_up" "i \<in> set (i_incidents (is_db s))" "in_host_id i = ob_host_id p" for p i
  proof
    assume "in_resolved_at i = None"
    then have "ob_host_id p \<in> open_hosts (i_incidents (is_db s))" using that(3,4) open_hostsI [of i] by (simp add: is_open_def)
    with ok that(1,2) show False by (simp add: incidents_ok_def observations_ok_def)
  qed
  ultimately show ?thesis by blast
qed

text \<open>A later check finds the host down.\<close>

definition outage0 :: inc_state where
  "outage0 = later0\<lparr>is_db := (case recordCheck host7 monitor7 down_result 50000 False (is_db later0) of Inr db \<Rightarrow> db | Inl _ \<Rightarrow> is_db later0)\<rparr>"

lemma outage_run: "\<exists>db. recordCheck host7 monitor7 down_result 50000 False (is_db later0) = Inr db"
proof -
  have "case recordCheck host7 monitor7 down_result 50000 False (is_db later0) of Inr _ \<Rightarrow> True | Inl _ \<Rightarrow> False" by code_simp
  then show ?thesis by (auto split: sum.splits)
qed

lemma outage0_reachable: "inc_reachable env outage0"
proof -
  obtain db where db: "recordCheck host7 monitor7 down_result 50000 False (is_db later0) = Inr db" using outage_run by blast
  have "is_clock later0 (ph_id host7) = 50000" by (simp add: later0_def)
  with db have "inc_step env later0 (later0\<lparr>is_db := db\<rparr>)" by (intro s_record [of host7 monitor7 down_result _ False]) simp
  moreover have "outage0 = later0\<lparr>is_db := db\<rparr>" by (simp add: outage0_def db)
  ultimately show ?thesis using later0_reachable [of env]
    by (auto simp: inc_reachable_def intro: rtranclp.rtrancl_into_rtrancl)
qed

theorem one_open_incident_witness:
  "map in_resolved_at (i_incidents (is_db outage0)) = [None] \<and>
   (\<exists>i \<in> set (i_incidents (is_db outage0)). in_resolved_at i = None \<and> in_host_id i = 7)"
proof -
  have o': "map in_resolved_at (i_incidents (is_db outage0)) = [None]"
    "i_observations (is_db outage0) = [\<lparr>ob_host_id = 7, ob_checked_at = 50000, ob_state = St_down, ob_interval_seconds = 60\<rparr>]"
    by code_simp+
  from one_open_incident [OF outage0_reachable] o' show ?thesis by simp
qed

text \<open>Recording an accepted check always succeeds. In every reachable state the transaction that records a check
  finds no row of the outbox that violates the unique index over incident, event and target, whatever
  the host, the result and the time, so an accepted check is never rolled back by its announcements.\<close>

theorem accepted_check_recorded:
  assumes "inc_reachable env s"
  shows "\<exists>db'. recordCheck host config res t muted (is_db s) = Inr db'"
  using recordCheck_inv [OF outbox_inv_reachable [OF assms], of host config res t muted] by blast

theorem accepted_check_recorded_witness: "\<exists>db'. recordCheck host7 monitor7 up_result 90000 True (is_db outage0) = Inr db'"
  by (rule accepted_check_recorded [OF outage0_reachable])

text \<open>An outage is announced once to exactly its audience. When a host without an open incident is found down, one
  incident is opened and, if alerts are on, one row per enabled and subscribed target of the host's
  owner is added to the outbox, pending or muted, for this incident; nothing already queued
  changes, and no two rows of the outbox share incident, event and target.\<close>

theorem outage_announced_once:
  assumes s: "inc_reachable env s" and down: "cr_state res = St_down" and none: "open_incident (ph_id host) (is_db s) = None"
    and new: "\<forall>p. find_observation (ph_id host) (is_db s) = Some p \<longrightarrow> ob_checked_at p < t"
    and r: "recordCheck host config res t muted (is_db s) = Inr db'"
  shows "\<exists>i rows. i_incidents db' = i_incidents (is_db s) @ [i] \<and> in_host_id i = ph_id host \<and> in_opened_at i = t \<and> in_resolved_at i = None \<and>
     i_deliveries db' = i_deliveries (is_db s) @ rows \<and>
     map nd_target_id rows = (if m_alert_enabled config then map nt_id (audience host (is_db s)) else []) \<and>
     (\<forall>d \<in> set rows. nd_incident_id d = in_id i \<and> nd_event d = ''incident.opened'' \<and> nd_attempts d = 0 \<and>
        nd_status d = (if muted then Muted else Pending)) \<and>
     distinct (map out_key (i_deliveries db'))"
proof -
  let ?db = "is_db s"
  note inv = outbox_inv_reachable [OF s]
  have ok: "incidents_ok ?db" "outbox_ok ?db" using inv by (simp_all add: outbox_inv_def)
  define db1 where "db1 = ?db\<lparr>i_daily := credit_days (ph_id host) (find_observation (ph_id host) ?db) t (i_daily ?db),
              i_latency := (if cr_state res = St_up
                 then addLatency (ph_id host) (minute_of t) (cr_response_ms res) (i_latency ?db) else i_latency ?db),
              i_observations := put_observation \<lparr>ob_host_id = ph_id host, ob_checked_at = t,
                 ob_state = cr_state res, ob_interval_seconds = m_interval_seconds config\<rparr> (i_observations ?db)\<rparr>"
  have ob: "observed host res ?db db1" unfolding observed_def db1_def using set_put_observation by fastforce
  have "\<not> (case find_observation (ph_id host) ?db of Some p \<Rightarrow> t \<le> ob_checked_at p | None \<Rightarrow> False)"
    using new by (auto split: option.splits)
  with r have "recordIncident host (m_alert_enabled config) res t muted db1 = Inr db'"
    unfolding recordCheck_def Let_def db1_def by simp
  with recordIncident_eq [OF ok ob, of "m_alert_enabled config" t muted] down none have
    db': "db' = announce host (m_alert_enabled config) (i_incident_seq ?db) ''incident.opened'' res t muted
      (db1\<lparr>i_incidents := i_incidents ?db @ [new_incident host res t (i_incident_seq ?db)], i_incident_seq := Suc (i_incident_seq ?db)\<rparr>)"
    by simp
  define rows where "rows = announcements host (m_alert_enabled config) (i_incident_seq ?db) ''incident.opened'' res t muted
      (db1\<lparr>i_incidents := i_incidents ?db @ [new_incident host res t (i_incident_seq ?db)], i_incident_seq := Suc (i_incident_seq ?db)\<rparr>)"
  have aud: "audience host (db1\<lparr>i_incidents := is, i_incident_seq := n\<rparr>) = audience host ?db" for "is" n
    by (simp add: audience_def db1_def)
  have tk: "map nd_target_id (numbered n ds) = map nd_target_id ds" for n ds by (induction n ds rule: numbered.induct) auto
  have "map nd_target_id rows = (if m_alert_enabled config then map nt_id (audience host ?db) else [])"
    unfolding rows_def announcements_def aud by (simp add: tk new_delivery_def)
  moreover have "i_deliveries db' = i_deliveries ?db @ rows" by (simp add: db' announce_def rows_def db1_def)
  moreover have "i_incidents db' = i_incidents ?db @ [new_incident host res t (i_incident_seq ?db)]" by (simp add: db' announce_def)
  moreover have "\<forall>d \<in> set rows. nd_incident_id d = i_incident_seq ?db \<and> nd_event d = ''incident.opened'' \<and> nd_attempts d = 0 \<and>
      nd_status d = (if muted then Muted else Pending)"
    unfolding rows_def using announcements_facts by blast
  moreover have "distinct (map out_key (i_deliveries db'))"
    using recordCheck_inv [OF inv, of host config res t muted] r by (simp add: outbox_inv_def outbox_ok_def)
  ultimately show ?thesis by (intro exI [of _ "new_incident host res t (i_incident_seq ?db)"] exI [of _ rows]) (simp add: new_incident_def)
qed

theorem outage_announced_once_witness:
  "\<exists>db' i. recordCheck host7 monitor7 down_result 50000 False (is_db later0) = Inr db' \<and>
     i_incidents db' = i_incidents (is_db later0) @ [i] \<and> in_opened_at i = 50000"
proof -
  have n: "open_incident (ph_id host7) (is_db later0) = None" "cr_state down_result = St_down"
    "find_observation (ph_id host7) (is_db later0) = Some \<lparr>ob_host_id = 7, ob_checked_at = 0, ob_state = St_up, ob_interval_seconds = 60\<rparr>"
    by code_simp+
  have "\<forall>p. find_observation (ph_id host7) (is_db later0) = Some p \<longrightarrow> ob_checked_at p < 50000" unfolding n by simp
  moreover obtain db where db: "recordCheck host7 monitor7 down_result 50000 False (is_db later0) = Inr db" using outage_run by blast
  ultimately show ?thesis using outage_announced_once [OF later0_reachable n(2,1) _ db] by blast
qed

section \<open>Deliveries\<close>


text \<open>A notification is sent only on behalf of its owner. When delivering a row makes a request, the row was
  pending and due, its target is enabled, belongs to the owner of the host, subscribes to the host,
  the host is not deleted and its alarms are not muted; and the request goes to a validated public
  HTTPS endpoint.\<close>

theorem delivery_on_behalf_of_owner:
  assumes "deliverOne env now n db = (db', Some rq)"
  shows "\<exists>row t h. row \<in> set (i_deliveries db) \<and> nd_id row = n \<and> nd_status row = Pending \<and> nd_next_attempt_at row \<le> now \<and>
     t \<in> set (i_targets db) \<and> nt_id t = nd_target_id row \<and> nt_enabled t \<and>
     h \<in> set (i_hosts db) \<and> ph_id h = nd_host_id row \<and> \<not> ph_is_deleted h \<and> ph_owner_user_id h = nt_owner_user_id t \<and>
     (nt_host_ids t = [] \<or> ph_id h \<in> set (nt_host_ids t)) \<and> \<not> isMuted (ph_id h) now db \<and>
     safe_request (ne_lib env) (ne_ul env) (po_url rq, po_addresses rq)"
proof -
  obtain d db1 where c: "deliver_claim now n db = (Some d, db1)" and s: "deliver_settle env now d db1 = (db', Some rq)"
    using assms by (auto simp: deliverOne_def split: prod.splits option.splits)
  from c obtain row :: delivery where row: "List.find (\<lambda>d. nd_id d = n) (i_deliveries db) = Some row" "nd_status row = Pending" "nd_next_attempt_at row \<le> now"
    "d = row\<lparr>nd_status := Sending, nd_attempts := nd_attempts row + 1, nd_next_attempt_at := now + 300000\<rparr>"
    "db1 = patch_delivery n (\<lambda>d. d\<lparr>nd_status := Sending, nd_attempts := nd_attempts row + 1, nd_next_attempt_at := now + 300000\<rparr>) db"
    by (rule deliver_claim_Some)
  have same: "i_targets db1 = i_targets db" "i_hosts db1 = i_hosts db" "i_mutes db1 = i_mutes db" by (simp_all add: row(5) patch_delivery_def)
  have d: "nd_target_id d = nd_target_id row" "nd_host_id d = nd_host_id row" by (simp_all add: row(4))
  obtain t where t: "delivery_target d db1 = Some t" using s by (cases "delivery_target d db1") (simp_all add: deliver_settle_def)
  have m: "\<not> isMuted (nd_host_id d) now db1" using s t by (auto simp: deliver_settle_def split: if_splits)
  obtain r where a: "attempt env d t = (r, Some rq)" using s t m by (auto simp: deliver_settle_def split: prod.splits)
  from t obtain h where h: "List.find (\<lambda>t. nt_id t = nd_target_id d) (i_targets db1) = Some t"
      "List.find (\<lambda>h. ph_id h = nd_host_id d \<and> \<not> ph_is_deleted h) (i_hosts db1) = Some h"
      "nt_enabled t" "ph_owner_user_id h = nt_owner_user_id t" "subscribed t (ph_id h)"
    by (auto simp: delivery_target_def split: option.splits if_splits)
  from a obtain secret where "deliverNotification (ne_lib env) (ne_ul env) (ne_net env) (ne_send env) (ne_stop env)
      (nt_type t) secret (nd_payload d) (nd_id d) = (r, Some rq)" by (auto simp: attempt_def split: sum.splits)
  then have "safe_request (ne_lib env) (ne_ul env) (po_url rq, po_addresses rq)" by (rule notification_request_safe)
  moreover have "\<not> isMuted (ph_id h) now db" using m find_SomeD [OF h(2)] same by (simp add: isMuted_def getMute_def)
  ultimately show ?thesis
    using find_SomeD [OF row(1)] row(2,3) find_SomeD [OF h(1)] find_SomeD [OF h(2)] h(3-5) unfolding same d subscribed_def by metis
qed

section \<open>Concrete deliveries\<close>

text \<open>The endpoint of target 1 answers, its secret is stored unencrypted.\<close>

definition hook0 :: target where
  "hook0 = \<lparr>nt_id = 1, nt_owner_user_id = 2, nt_name = ''hook'', nt_type = ''webhook'', nt_enabled = True, nt_host_ids = [],
     nt_secret = ''x'', nt_version = 1\<rparr>"

definition env0 :: notify_env where
  "env0 = \<lparr>ne_lib = ip0, ne_ul = ul0, ne_net = net0, ne_send = (\<lambda>_. Inr 204), ne_stop = (\<lambda>_. None), ne_encrypt = (\<lambda>s. s),
     ne_decrypt = Inr, ne_parse = (\<lambda>s. Some secret0)\<rparr>"

definition row0 :: delivery where
  "row0 = new_delivery host7 1 ''incident.opened'' down_result 50000 False hook0"

definition queue0 :: incident_db where
  "queue0 = (is_db (inc_empty [host7]))\<lparr>i_targets := [hook0], i_deliveries := [row0]\<rparr>"

lemma env0_attempt: "\<exists>rq. attempt env0 d hook0 = (Inr 204, Some rq)"
proof -
  have v: "validateNotificationUrl ip0 ul0 (js_get secret0 ''url'') ''webhook'' = Inr (url0 ''hooks.example'')"
    "isIP (strip_brackets (url_hostname (url0 ''hooks.example''))) = 0"
    "dns_lookup net0 (strip_brackets (url_hostname (url0 ''hooks.example''))) = Inr [(''8.8.8.8'', 4)]"
    "public_addresses ip0 ul0 [(''8.8.8.8'', 4)]" by code_simp+
  show ?thesis
    by (simp add: attempt_def stored_secret_def env0_def hook0_def deliverNotification_def v Let_def post_result_def)
qed

theorem delivery_on_behalf_of_owner_witness:
  "\<exists>db' rq. deliverOne env0 60000 0 queue0 = (db', Some rq) \<and> safe_request ip0 ul0 (po_url rq, po_addresses rq)"
proof -
  obtain d db1 where c: "deliver_claim 60000 0 queue0 = (Some d, db1)" "delivery_target d db1 = Some hook0" "\<not> isMuted (nd_host_id d) 60000 db1"
  proof -
    have "case deliver_claim 60000 0 queue0 of (Some d, db1) \<Rightarrow> delivery_target d db1 = Some hook0 \<and> \<not> isMuted (nd_host_id d) 60000 db1 | _ \<Rightarrow> False"
      by code_simp
    with that show ?thesis by (auto split: prod.splits option.splits)
  qed
  obtain rq where "attempt env0 d hook0 = (Inr 204, Some rq)" using env0_attempt by blast
  with c obtain db' where d: "deliverOne env0 60000 0 queue0 = (db', Some rq)" by (simp add: deliverOne_def deliver_settle_def)
  have "ne_lib env0 = ip0" "ne_ul env0 = ul0" by (simp_all add: env0_def)
  with delivery_on_behalf_of_owner [OF d] d show ?thesis by auto
qed

text \<open>A target is saved, the host of its owner fails, and the announcement is claimed.\<close>

definition host8 :: proxy_host where
  "host8 = host7\<lparr>ph_id := 8, ph_owner_user_id := 1\<rparr>"

definition hook_input :: target_input where
  "hook_input = \<lparr>ti_name = ''hook'', ti_type = ''webhook'', ti_enabled = True, ti_host_ids = [8],
     ti_url = JStr ''https://hooks.example'', ti_token = JStr ''abc'', ti_version = Undef\<rparr>"

definition saved0 :: incident_db where
  "saved0 = (case saveTarget env0 admin0 0 Null hook_input (is_db (inc_empty [host8])) of Inr (_, db) \<Rightarrow> db)"

definition failed0 :: incident_db where
  "failed0 = (case recordCheck host8 monitor7 down_result 0 False saved0 of Inr db \<Rightarrow> db)"

definition claimed0 :: "delivery option \<times> incident_db" where
  "claimed0 = deliver_claim 5 1 failed0"

definition claim_state :: inc_state where
  "claim_state = (inc_empty [host8])\<lparr>is_db := snd claimed0, is_flight := [the (fst claimed0)]\<rparr>"

lemma reachable_step: "inc_reachable env s \<Longrightarrow> inc_step env s t \<Longrightarrow> inc_reachable env t"
  by (auto simp: inc_reachable_def intro: rtranclp.rtrancl_into_rtrancl)

lemma claim_state_reachable: "inc_reachable env0 claim_state"
proof -
  let ?s = "inc_empty [host8]"
  have runs: "case saveTarget env0 admin0 0 Null hook_input (is_db ?s) of Inr _ \<Rightarrow> True | Inl _ \<Rightarrow> False"
    "case recordCheck host8 monitor7 down_result 0 False saved0 of Inr _ \<Rightarrow> True | Inl _ \<Rightarrow> False"
    "fst claimed0 \<noteq> None" by code_simp+
  obtain r where r: "saveTarget env0 admin0 0 Null hook_input (is_db ?s) = Inr r"
    using runs(1) by (cases "saveTarget env0 admin0 0 Null hook_input (is_db ?s)") simp_all
  have p: "saveTarget env0 admin0 0 Null hook_input (is_db ?s) = Inr (fst r, saved0)"
    unfolding saved0_def by (simp add: r case_prod_beta)
  obtain q where q: "recordCheck host8 monitor7 down_result 0 False saved0 = Inr q"
    using runs(2) by (cases "recordCheck host8 monitor7 down_result 0 False saved0") simp_all
  have f: "recordCheck host8 monitor7 down_result 0 False saved0 = Inr failed0" unfolding failed0_def by (simp add: q)
  obtain d where d2: "fst claimed0 = Some d" using runs(3) by blast
  then have d: "deliver_claim 5 1 failed0 = (Some d, snd claimed0)" unfolding claimed0_def by (metis prod.collapse)
  have "inc_reachable env0 ?s" by (auto simp: inc_reachable_def)
  then have "inc_reachable env0 (?s\<lparr>is_db := saved0\<rparr>)" by (rule reachable_step) (rule s_save [OF p])
  then have "inc_reachable env0 (?s\<lparr>is_db := saved0\<rparr>\<lparr>is_db := failed0\<rparr>)"
    by (rule reachable_step) (rule s_record [of host8 monitor7 down_result _ False], use f in \<open>simp add: inc_empty_def\<close>)
  then have "inc_reachable env0 (?s\<lparr>is_db := failed0\<rparr>)" by simp
  then have "inc_reachable env0 (?s\<lparr>is_db := failed0\<rparr>\<lparr>is_db := snd claimed0, is_flight := d # is_flight (?s\<lparr>is_db := failed0\<rparr>)\<rparr>)"
    by (rule reachable_step) (rule s_claim [of 5 1], use d in simp)
  then show ?thesis by (simp add: claim_state_def d2 inc_empty_def)
qed


section \<open>Giving up and secrets\<close>

text \<open>Attempts on one row at the given times.\<close>

fun deliver_at :: "notify_env \<Rightarrow> (nat \<Rightarrow> int) \<Rightarrow> nat \<Rightarrow> nat \<Rightarrow> incident_db \<Rightarrow> incident_db" where
  "deliver_at env clk n 0 db = db"
| "deliver_at env clk n (Suc k) db = fst (deliverOne env (clk k) n (deliver_at env clk n k db))"

lemma find_patch_id:
  "List.find (\<lambda>d. nd_id d = n) ds = Some r \<Longrightarrow> nd_id (f r) = nd_id r \<Longrightarrow>
     List.find (\<lambda>d. nd_id d = n) (patch_where (\<lambda>d. nd_id d = n) f ds) = Some (f r)"
  by (induction ds) (auto split: if_splits)

lemma deliverOne_fails:
  assumes row: "List.find (\<lambda>d. nd_id d = n) (i_deliveries db) = Some row" "nd_status row = Pending" "nd_next_attempt_at row \<le> now"
    and t: "delivery_target row db = Some t" and m: "\<not> isMuted (nd_host_id row) now db"
    and fails: "\<And>d. \<exists>e. fst (attempt env d t) = Inl e"
  shows "\<exists>row' ds. fst (deliverOne env now n db) = db\<lparr>i_deliveries := ds\<rparr> \<and> List.find (\<lambda>d. nd_id d = n) ds = Some row' \<and>
     nd_target_id row' = nd_target_id row \<and> nd_host_id row' = nd_host_id row \<and> nd_attempts row' = Suc (nd_attempts row) \<and>
     nd_status row' = (if MAX_ATTEMPTS \<le> Suc (nd_attempts row) then Delivery_failed else Pending) \<and>
     nd_next_attempt_at row' \<le> now + 3600000 \<and> nd_last_error row' \<noteq> None"
proof -
  have n: "nd_id row = n" using find_SomeD [OF row(1)] by simp
  let ?f = "\<lambda>d. d\<lparr>nd_status := Sending, nd_attempts := nd_attempts row + 1, nd_next_attempt_at := now + 300000\<rparr>"
  let ?db = "patch_delivery n ?f db"
  have c: "deliver_claim now n db = (Some (?f row), ?db)" using row by (simp add: deliver_claim_def)
  have r1: "List.find (\<lambda>d. nd_id d = n) (i_deliveries ?db) = Some (?f row)"
    unfolding patch_delivery_def using find_patch_id [OF row(1), of ?f] by simp
  have t1: "delivery_target (?f row) ?db = Some t" using t by (simp add: delivery_target_def patch_delivery_def)
  have m1: "\<not> isMuted (nd_host_id (?f row)) now ?db" using m by (simp add: isMuted_def getMute_def patch_delivery_def)
  obtain e q where a: "attempt env (?f row) t = (Inl e, q)" using fails [of "?f row"] by (cases "attempt env (?f row) t") auto
  let ?g = "\<lambda>x. x\<lparr>nd_status := (if MAX_ATTEMPTS \<le> Suc (nd_attempts row) then Delivery_failed else Pending),
      nd_next_attempt_at := now + backoff_ms (Suc (nd_attempts row)), nd_last_error := Some (failure_message e)\<rparr>"
  have d: "fst (deliverOne env now n db) = patch_delivery n ?g ?db"
    unfolding deliverOne_def c using t1 m1 a n by (simp add: deliver_settle_def)
  have r2: "List.find (\<lambda>d. nd_id d = n) (patch_where (\<lambda>d. nd_id d = n) ?g (i_deliveries ?db)) = Some (?g (?f row))"
    by (rule find_patch_id [OF r1]) simp
  have "backoff_ms k \<le> 3600000" for k by (simp add: backoff_ms_def)
  then show ?thesis
    by (intro exI [of _ "?g (?f row)"] exI [of _ "patch_where (\<lambda>d. nd_id d = n) ?g (i_deliveries ?db)"])
      (use d r2 in \<open>simp add: patch_delivery_def\<close>)
qed

text \<open>C36. A delivery to a broken endpoint ends. A pending row whose endpoint keeps failing, attempted whenever it is due,
  is given up after its remaining attempts: it is marked failed with five attempts and a public error
  message, and is not attempted again.\<close>

theorem failing_delivery_gives_up:
  assumes row: "List.find (\<lambda>d. nd_id d = n) (i_deliveries db) = Some row" "nd_status row = Pending" "nd_attempts row < 5"
      "nd_next_attempt_at row \<le> clk 0"
    and t: "delivery_target row db = Some t" and m: "\<And>k. \<not> isMuted (nd_host_id row) (clk k) db"
    and fails: "\<And>d. \<exists>e. fst (attempt env d t) = Inl e"
    and spaced: "\<And>k. clk k + 3600000 \<le> clk (Suc k)"
  shows "\<exists>row'. List.find (\<lambda>d. nd_id d = n) (i_deliveries (deliver_at env clk n (5 - nd_attempts row) db)) = Some row' \<and>
     nd_status row' = Delivery_failed \<and> nd_attempts row' = 5 \<and> nd_last_error row' \<noteq> None \<and>
     deliverOne env now n (deliver_at env clk n (5 - nd_attempts row) db) = (deliver_at env clk n (5 - nd_attempts row) db, None)"
proof -
  let ?a = "nd_attempts row"
  have run: "\<exists>r ds. deliver_at env clk n k db = db\<lparr>i_deliveries := ds\<rparr> \<and> List.find (\<lambda>d. nd_id d = n) ds = Some r \<and>
      nd_target_id r = nd_target_id row \<and> nd_host_id r = nd_host_id row \<and> nd_attempts r = ?a + k \<and>
      (if ?a + k < 5 then nd_status r = Pending \<and> nd_next_attempt_at r \<le> clk k else nd_status r = Delivery_failed \<and> nd_last_error r \<noteq> None)"
    if "k \<le> 5 - ?a" for k
    using that
  proof (induction k)
    case 0
    show ?case by (rule exI [of _ row], rule exI [of _ "i_deliveries db"]) (use row in simp)
  next
    case (Suc k)
    then obtain r ds where r: "deliver_at env clk n k db = db\<lparr>i_deliveries := ds\<rparr>" "List.find (\<lambda>d. nd_id d = n) ds = Some r"
      "nd_target_id r = nd_target_id row" "nd_host_id r = nd_host_id row" "nd_attempts r = ?a + k" "nd_status r = Pending" "nd_next_attempt_at r \<le> clk k"
      by fastforce
    have "\<exists>row' ds'. fst (deliverOne env (clk k) n (db\<lparr>i_deliveries := ds\<rparr>)) = db\<lparr>i_deliveries := ds\<rparr>\<lparr>i_deliveries := ds'\<rparr> \<and>
       List.find (\<lambda>d. nd_id d = n) ds' = Some row' \<and>
       nd_target_id row' = nd_target_id r \<and> nd_host_id row' = nd_host_id r \<and> nd_attempts row' = Suc (nd_attempts r) \<and>
       nd_status row' = (if MAX_ATTEMPTS \<le> Suc (nd_attempts r) then Delivery_failed else Pending) \<and>
       nd_next_attempt_at row' \<le> clk k + 3600000 \<and> nd_last_error row' \<noteq> None"
    proof (rule deliverOne_fails)
      show "delivery_target r (db\<lparr>i_deliveries := ds\<rparr>) = Some t" using t r(3,4) by (simp add: delivery_target_def)
      show "\<not> isMuted (nd_host_id r) (clk k) (db\<lparr>i_deliveries := ds\<rparr>)" using m [of k] r(4) by (simp add: isMuted_def getMute_def)
    qed (use r fails in simp_all)
    then obtain row' ds' where r': "fst (deliverOne env (clk k) n (db\<lparr>i_deliveries := ds\<rparr>)) = db\<lparr>i_deliveries := ds'\<rparr>"
       "List.find (\<lambda>d. nd_id d = n) ds' = Some row'"
       "nd_target_id row' = nd_target_id r" "nd_host_id row' = nd_host_id r" "nd_attempts row' = Suc (nd_attempts r)"
       "nd_status row' = (if MAX_ATTEMPTS \<le> Suc (nd_attempts r) then Delivery_failed else Pending)"
       "nd_next_attempt_at row' \<le> clk k + 3600000" "nd_last_error row' \<noteq> None" by auto
    with r spaced [of k] show ?case by (intro exI [of _ row'] exI [of _ ds']) (simp add: MAX_ATTEMPTS_def)
  qed
  from run [of "5 - ?a"] row(3) obtain r ds where r: "deliver_at env clk n (5 - ?a) db = db\<lparr>i_deliveries := ds\<rparr>"
      "List.find (\<lambda>d. nd_id d = n) ds = Some r" "nd_attempts r = 5" "nd_status r = Delivery_failed" "nd_last_error r \<noteq> None"
    by auto
  have "deliverOne env now n (db\<lparr>i_deliveries := ds\<rparr>) = (db\<lparr>i_deliveries := ds\<rparr>, None)"
    using r(2,4) by (simp add: deliverOne_def deliver_claim_def)
  with r show ?thesis unfolding r(1) by (intro exI [of _ r]) simp
qed

definition broken_env :: notify_env where
  "broken_env = env0\<lparr>ne_send := (\<lambda>_. Inr 503)\<rparr>"

lemma broken_attempt: "\<exists>e. fst (attempt broken_env d hook0) = Inl e"
proof -
  have v: "validateNotificationUrl ip0 ul0 (js_get secret0 ''url'') ''webhook'' = Inr (url0 ''hooks.example'')"
    "isIP (strip_brackets (url_hostname (url0 ''hooks.example''))) = 0"
    "dns_lookup net0 (strip_brackets (url_hostname (url0 ''hooks.example''))) = Inr [(''8.8.8.8'', 4)]"
    "public_addresses ip0 ul0 [(''8.8.8.8'', 4)]" by code_simp+
  show ?thesis
    by (simp add: attempt_def stored_secret_def broken_env_def env0_def hook0_def deliverNotification_def v Let_def post_result_def)
qed

theorem failing_delivery_gives_up_witness:
  "\<exists>row'. List.find (\<lambda>d. nd_id d = 0) (i_deliveries (deliver_at broken_env (\<lambda>k. 50000 + int k * 3600000) 0 5 queue0)) = Some row' \<and>
     nd_status row' = Delivery_failed"
proof -
  have q: "List.find (\<lambda>d. nd_id d = 0) (i_deliveries queue0) = Some row0" "nd_status row0 = Pending" "nd_attempts row0 = 0"
    "nd_next_attempt_at row0 \<le> 50000" "delivery_target row0 queue0 = Some hook0" by code_simp+
  have m: "\<not> isMuted (nd_host_id row0) t queue0" for t by (simp add: isMuted_def getMute_def queue0_def inc_empty_def)
  from failing_delivery_gives_up [OF q(1,2) _ _ q(5) m broken_attempt, where clk = "\<lambda>k. 50000 + int k * 3600000"] q(3,4)
  show ?thesis by (auto simp: algebra_simps)
qed

end
