(* ===== verification/Traffic_Policy.thy ===== *)
theory Traffic_Policy
  imports Firewall_Policy
begin

text \<open>
  The traffic settings of a proxy host, \<open>backend/lib/host-traffic-policy.js\<close>: upstream pools, cache policies
  and their validation when a host is written.

  A host is the object of its columns. Parameter: \<open>parse\<close> is \<open>JSON.parse\<close>, \<open>None\<close> for a syntax error.
\<close>

section \<open>Fields\<close>

definition metadata :: "(string \<Rightarrow> jsval option) \<Rightarrow> jsval \<Rightarrow> jsval" where
  "metadata parse v =
     (let once = (\<lambda>x. case x of JStr s \<Rightarrow> parse s | _ \<Rightarrow> Some x)
      in case (case once v of None \<Rightarrow> None | Some w \<Rightarrow> once w) of
           None \<Rightarrow> JObj []
         | Some w \<Rightarrow> if is_obj w then w else JObj [])"

definition integer :: "jsval \<Rightarrow> int \<Rightarrow> int \<Rightarrow> int \<Rightarrow> string \<Rightarrow> int result" where
  "integer v fallback lo hi field =
     (case if_undef v (JNum fallback) of
        JNum n \<Rightarrow> if n < lo \<or> hi < n
                  then Inl (ValidationError (field @ '' must be an integer between '' @ int_str lo @ '' and '' @ int_str hi)) else Inr n
      | _ \<Rightarrow> Inl (ValidationError (field @ '' must be an integer between '' @ int_str lo @ '' and '' @ int_str hi)))"

definition flag :: "jsval \<Rightarrow> bool \<Rightarrow> string \<Rightarrow> bool result" where
  "flag v fallback field =
     (case v of
        Undef \<Rightarrow> Inr fallback
      | JBool b \<Rightarrow> Inr b
      | _ \<Rightarrow> Inl (ValidationError (field @ '' must be a boolean'')))"

definition host_char :: "char \<Rightarrow> bool" where
  "host_char c \<longleftrightarrow> is_alnum c \<or> c = CHR ''.'' \<or> c = CHR ''-''"

definition host_label :: "string \<Rightarrow> bool" where
  "host_label p \<longleftrightarrow> p \<noteq> [] \<and> length p \<le> 63 \<and> \<not> starts_with p ''-'' \<and> \<not> ends_with p ''-''"

definition valid_name :: "string \<Rightarrow> bool" where
  "valid_name s \<longleftrightarrow> s \<noteq> [] \<and> length s \<le> 253 \<and> list_all host_char s \<and> is_alnum (hd s) \<and> is_alnum (last s) \<and>
     list_all host_label (split_char (CHR ''.'') s)"

definition unbracket :: "string \<Rightarrow> string" where
  "unbracket s = (if starts_with s ''['' \<and> ends_with s '']'' then butlast (tl s) else s)"

definition hostname :: "jsval \<Rightarrow> string \<Rightarrow> string result" where
  "hostname v field =
     (case v of
        JStr s \<Rightarrow>
          (let normalized = unbracket s
           in if isIP normalized \<noteq> 0 then Inr normalized
              else if \<not> valid_name normalized
              then Inl (ValidationError (field @ '' must be a hostname or IP address without a URL or path''))
              else Inr (js_lower normalized))
      | _ \<Rightarrow> Inl (ValidationError (field @ '' must be a hostname or IP address'')))"

definition keys :: "jsval \<Rightarrow> string list \<Rightarrow> string \<Rightarrow> unit result" where
  "keys v allowed field =
     rguard (is_obj v \<and> set (js_keys v) \<subseteq> set allowed) (ValidationError (''Invalid '' @ field @ '' settings''))"

definition http_scheme :: "jsval \<Rightarrow> bool" where
  "http_scheme host \<longleftrightarrow> js_get host ''forward_scheme'' = JStr ''http'' \<or> js_get host ''forward_scheme'' = JStr ''https''"

definition supported :: "jsval \<Rightarrow> string \<Rightarrow> unit result" where
  "supported host label = rguard (http_scheme host) (ValidationError (label @ '' requires an HTTP or HTTPS proxy host''))"

text \<open>\<open>host.advanced_config?.trim()\<close>\<close>

definition has_advanced_config :: "jsval \<Rightarrow> bool" where
  "has_advanced_config host \<longleftrightarrow> js_trim (str_of (js_get host ''advanced_config'')) \<noteq> []"

section \<open>Upstream pools\<close>

record pool_target =
  ut_id :: string
  ut_label :: string
  ut_host :: string
  ut_port :: int
  ut_weight :: int
  ut_backup :: bool
  ut_max_fails :: int
  ut_fail_timeout :: int

record pool =
  up_enabled :: bool
  up_targets :: "pool_target list"
  up_connect_timeout :: int
  up_read_timeout :: int
  up_tls_verify :: bool
  up_host_header :: "string option"
  up_tls_server_name :: "string option"

definition address_of :: "pool_target \<Rightarrow> string" where
  "address_of t = ut_host t @ '':'' @ int_str (ut_port t)"

definition target_id_ok :: "string \<Rightarrow> bool" where
  "target_id_ok s \<longleftrightarrow> s \<noteq> [] \<and> length s \<le> 40 \<and> list_all (\<lambda>c. is_alnum c \<or> c = CHR ''_'' \<or> c = CHR ''-'') s"

definition pool_item :: "jsval \<Rightarrow> string list \<Rightarrow> pool_target result" where
  "pool_item target ids =
     rbind (keys target [''id'', ''label'', ''host'', ''port'', ''weight'', ''backup'', ''max_fails'', ''fail_timeout''] ''upstream target'') (\<lambda>_.
     let i = js_get target ''id''; l = js_get target ''label'' in
     if \<not> is_str i \<or> \<not> target_id_ok (str_of i) \<or> str_of i \<in> set ids
     then Inl (ValidationError ''Pool target IDs must be unique and contain only letters, digits, underscores or hyphens'')
     else if l \<noteq> Undef \<and> (\<not> is_str l \<or> 80 < length (str_of l))
     then Inl (ValidationError ''Pool target label must be at most 80 characters'')
     else
       rbind (hostname (js_get target ''host'') ''Upstream host'') (\<lambda>h.
       rbind (integer (js_get target ''port'') 80 1 65535 ''Upstream port'') (\<lambda>port.
       rbind (integer (js_get target ''weight'') 1 1 1000 ''Upstream weight'') (\<lambda>weight.
       rbind (flag (js_get target ''backup'') False ''Backup target'') (\<lambda>backup.
       rbind (integer (js_get target ''max_fails'') 1 1 10 ''Failure threshold'') (\<lambda>max_fails.
       rbind (integer (js_get target ''fail_timeout'') 10 1 300 ''Failure timeout'') (\<lambda>fail_timeout.
         Inr \<lparr>ut_id = str_of i, ut_label = (if str_of l \<noteq> [] then str_of l else str_of i), ut_host = h, ut_port = port, ut_weight = weight,
               ut_backup = backup, ut_max_fails = max_fails, ut_fail_timeout = fail_timeout\<rparr>)))))))"

fun pool_items :: "jsval list \<Rightarrow> pool_target list \<Rightarrow> pool_target list result" where
  "pool_items [] done = Inr done"
| "pool_items (t # ts) done =
     rbind (pool_item t (map ut_id done)) (\<lambda>item.
       if address_of item \<in> set (map address_of done) then Inl (ValidationError ''Pool targets must use distinct addresses'')
       else pool_items ts (done @ [item]))"

text \<open>An optional name: a falsy value is left out.\<close>

definition opt_hostname :: "jsval \<Rightarrow> string \<Rightarrow> string option result" where
  "opt_hostname v field = (if truthy v then rbind (hostname v field) (\<lambda>h. Inr (Some h)) else Inr None)"

definition pool_usable :: "jsval \<Rightarrow> pool \<Rightarrow> unit result" where
  "pool_usable host p =
     (if \<not> up_enabled p then Inr ()
      else
        rbind (supported host ''Upstream pools'') (\<lambda>_.
        rbind (rguard (\<exists>t \<in> set (up_targets p). \<not> ut_backup t) (ValidationError ''An enabled pool needs at least one primary target'')) (\<lambda>_.
        rguard (\<not> (CHR ''/'' \<in> set (str_of (js_get host ''forward_host'')) \<or> has_advanced_config host))
          (ValidationError ''Upstream pools require an origin without a path and no custom advanced Nginx configuration''))))"

definition pool_of :: "jsval \<Rightarrow> jsval \<Rightarrow> pool result" where
  "pool_of v host =
     rbind (keys v [''enabled'', ''targets'', ''connect_timeout'', ''read_timeout'', ''host_header'', ''tls_server_name'', ''tls_verify''] ''upstream pool'') (\<lambda>_.
     rbind (flag (js_get v ''enabled'') False ''Pool enabled'') (\<lambda>enabled.
     rbind (integer (js_get v ''connect_timeout'') 5 1 60 ''Connect timeout'') (\<lambda>connect_timeout.
     rbind (integer (js_get v ''read_timeout'') 60 1 600 ''Read timeout'') (\<lambda>read_timeout.
     rbind (flag (js_get v ''tls_verify'') True ''TLS verification'') (\<lambda>tls_verify.
     rbind (opt_hostname (js_get v ''host_header'') ''Host header'') (\<lambda>host_header.
     rbind (opt_hostname (js_get v ''tls_server_name'') ''TLS server name'') (\<lambda>tls_server_name.
     rbind (rguard (js_get v ''targets'' = Undef \<or> is_arr (js_get v ''targets'')) (ValidationError ''Pool targets must be an array'')) (\<lambda>_.
     rbind (rguard (length (arr_of (js_get v ''targets'')) \<le> 16) (ValidationError ''An upstream pool supports at most 16 targets'')) (\<lambda>_.
     rbind (pool_items (arr_of (js_get v ''targets'')) []) (\<lambda>items.
     let p = \<lparr>up_enabled = enabled, up_targets = items, up_connect_timeout = connect_timeout, up_read_timeout = read_timeout,
              up_tls_verify = tls_verify, up_host_header = host_header, up_tls_server_name = tls_server_name\<rparr>
     in rbind (pool_usable host p) (\<lambda>_. Inr p)))))))))))"

definition normalizeUpstreamPool :: "jsval \<Rightarrow> jsval \<Rightarrow> pool option result" where
  "normalizeUpstreamPool v host = (if v = Undef \<or> v = Null then Inr None else rbind (pool_of v host) (\<lambda>p. Inr (Some p)))"

section \<open>Cache policies\<close>

record cache_policy =
  cp_enabled :: bool
  cp_ttl_seconds :: int
  cp_max_size_mb :: int
  cp_inactive_seconds :: int
  cp_assets_only :: bool
  cp_cache_key :: string
  cp_routes :: "(string \<times> int) list"

text \<open>\<open>/^\/(?:[A-Za-z0-9._~-]+\/)*$/\<close>\<close>

definition route_path :: "string \<Rightarrow> bool" where
  "route_path s \<longleftrightarrow>
     (let ps = split_char (CHR ''/'') s
      in 2 \<le> length ps \<and> hd ps = [] \<and> last ps = [] \<and>
         list_all (\<lambda>p. p \<noteq> [] \<and> list_all (\<lambda>c. is_alnum c \<or> c \<in> set ''._~-'') p) (butlast (tl ps)))"

definition route_ok :: "jsval \<Rightarrow> string list \<Rightarrow> bool" where
  "route_ok p paths \<longleftrightarrow> is_str p \<and> length (str_of p) \<le> 256 \<and> route_path (str_of p) \<and>
     \<not> (\<exists>q \<in> set (split_char (CHR ''/'') (str_of p)). q = ''.'' \<or> q = ''..'') \<and>
     \<not> starts_with (str_of p) ''/.well-known/'' \<and> \<not> starts_with (str_of p) ''/remote.php/'' \<and> str_of p \<notin> set paths"

fun cache_routes :: "int \<Rightarrow> jsval list \<Rightarrow> (string \<times> int) list \<Rightarrow> (string \<times> int) list result" where
  "cache_routes ttl [] done = Inr done"
| "cache_routes ttl (r # rs) done =
     rbind (keys r [''path'', ''ttl_seconds''] ''cache route'') (\<lambda>_.
     if \<not> route_ok (js_get r ''path'') (map fst done)
     then Inl (ValidationError ''Cache route prefixes must be unique absolute directory paths'')
     else rbind (integer (js_get r ''ttl_seconds'') ttl 1 86400 ''Route TTL'') (\<lambda>t.
       cache_routes ttl rs (done @ [(str_of (js_get r ''path''), t)])))"

definition cache_usable :: "jsval \<Rightarrow> jsval \<Rightarrow> cache_policy \<Rightarrow> unit result" where
  "cache_usable v host c =
     (if \<not> cp_enabled c then Inr ()
      else rbind (supported host ''Response caching'') (\<lambda>_.
        rguard (\<not> (v \<noteq> Undef \<and> has_advanced_config host))
          (ValidationError ''Managed caching requires no custom advanced Nginx configuration'')))"

definition cache_of :: "jsval \<Rightarrow> jsval \<Rightarrow> jsval \<Rightarrow> cache_policy result" where
  "cache_of v src host =
     rbind (keys src [''enabled'', ''ttl_seconds'', ''max_size_mb'', ''inactive_seconds'', ''assets_only'', ''cache_key'', ''routes''] ''cache policy'') (\<lambda>_.
     rbind (flag (js_get src ''enabled'') False ''Cache enabled'') (\<lambda>enabled.
     rbind (integer (js_get src ''ttl_seconds'') 3600 1 86400 ''Cache TTL'') (\<lambda>ttl.
     rbind (integer (js_get src ''max_size_mb'') 256 16 10240 ''Cache size'') (\<lambda>size.
     rbind (integer (js_get src ''inactive_seconds'') 86400 60 604800 ''Cache inactivity'') (\<lambda>inactive.
     rbind (flag (js_get src ''assets_only'') True ''Assets only'') (\<lambda>assets.
     let key = nullish (js_get src ''cache_key'') (JStr ''uri'') in
     rbind (rguard (key = JStr ''uri'' \<or> key = JStr ''uri_ignore_query'') (ValidationError ''Invalid cache key mode'')) (\<lambda>_.
     rbind (rguard (\<not> (key = JStr ''uri_ignore_query'' \<and> \<not> assets))
        (ValidationError ''Ignoring query parameters requires static-assets-only caching'')) (\<lambda>_.
     let routes = nullish (js_get src ''routes'') (JArr [JObj [(''path'', JStr ''/''), (''ttl_seconds'', JNum ttl)]]) in
     rbind (rguard (is_arr routes \<and> 1 \<le> length (arr_of routes) \<and> length (arr_of routes) \<le> 16)
        (ValidationError ''Cache needs between 1 and 16 routes'')) (\<lambda>_.
     rbind (cache_routes ttl (arr_of routes) []) (\<lambda>rs.
     let c = \<lparr>cp_enabled = enabled, cp_ttl_seconds = ttl, cp_max_size_mb = size, cp_inactive_seconds = inactive,
              cp_assets_only = assets, cp_cache_key = str_of key, cp_routes = rs\<rparr>
     in rbind (cache_usable v host c) (\<lambda>_. Inr c)))))))))))"

definition normalizeCachePolicy :: "jsval \<Rightarrow> jsval \<Rightarrow> cache_policy option result" where
  "normalizeCachePolicy v host =
     (if v = Null \<or> (v = Undef \<and> \<not> truthy (js_get host ''caching_enabled'')) then Inr None
      else
        (let src = nullish v (JObj [(''enabled'', JBool (http_scheme host)), (''assets_only'', JBool True)])
         in rbind (cache_of v src host) (\<lambda>c. Inr (Some c))))"

section \<open>Objects\<close>

definition target_obj :: "pool_target \<Rightarrow> jsval" where
  "target_obj t = JObj [(''id'', JStr (ut_id t)), (''label'', JStr (ut_label t)), (''host'', JStr (ut_host t)), (''port'', JNum (ut_port t)),
     (''weight'', JNum (ut_weight t)), (''backup'', JBool (ut_backup t)), (''max_fails'', JNum (ut_max_fails t)),
     (''fail_timeout'', JNum (ut_fail_timeout t))]"

definition opt_prop :: "string \<Rightarrow> string option \<Rightarrow> (string \<times> jsval) list" where
  "opt_prop k v = (case v of None \<Rightarrow> [] | Some s \<Rightarrow> [(k, JStr s)])"

definition pool_obj :: "pool \<Rightarrow> jsval" where
  "pool_obj p = JObj ([(''enabled'', JBool (up_enabled p)), (''targets'', JArr (map target_obj (up_targets p))),
     (''connect_timeout'', JNum (up_connect_timeout p)), (''read_timeout'', JNum (up_read_timeout p)),
     (''tls_verify'', JBool (up_tls_verify p))] @ opt_prop ''host_header'' (up_host_header p) @
     opt_prop ''tls_server_name'' (up_tls_server_name p))"

definition cache_obj :: "cache_policy \<Rightarrow> jsval" where
  "cache_obj c = JObj [(''enabled'', JBool (cp_enabled c)), (''ttl_seconds'', JNum (cp_ttl_seconds c)),
     (''max_size_mb'', JNum (cp_max_size_mb c)), (''inactive_seconds'', JNum (cp_inactive_seconds c)),
     (''assets_only'', JBool (cp_assets_only c)), (''cache_key'', JStr (cp_cache_key c)),
     (''routes'', JArr (map (\<lambda>r. JObj [(''path'', JStr (fst r)), (''ttl_seconds'', JNum (snd r))]) (cp_routes c)))]"

definition opt_obj :: "('a \<Rightarrow> jsval) \<Rightarrow> 'a option \<Rightarrow> jsval" where
  "opt_obj f v = (case v of None \<Rightarrow> Null | Some x \<Rightarrow> f x)"

section \<open>Writing a host\<close>

definition validateHostTrafficPolicy :: "(string \<Rightarrow> jsval option) \<Rightarrow> jsval \<Rightarrow> jsval \<Rightarrow> jsval result" where
  "validateHostTrafficPolicy parse data previous =
     (let meta0 = props_merge (obj_of (metadata parse (js_get previous ''meta''))) (obj_of (metadata parse (js_get data ''meta'')));
          host = JObj (props_merge (obj_of previous) (obj_of data));
          meta1 = (if props_get meta0 ''waf_ruleset'' = Undef
                   then props_set ''waf_ruleset'' (JStr (if truthy (js_get previous ''id'')
                          then (if truthy (js_get previous ''caching_enabled'') then ''crs'' else ''base'') else ''crs'')) meta0
                   else meta0);
          waf = props_get meta1 ''waf_ruleset''
      in if waf \<noteq> JStr ''base'' \<and> waf \<noteq> JStr ''crs'' then Inl (ValidationError ''Invalid WAF ruleset'')
         else
           rbind (if props_get meta1 ''upstream_pool'' = Undef then Inr meta1
                  else rbind (normalizeUpstreamPool (props_get meta1 ''upstream_pool'') host) (\<lambda>p.
                    Inr (props_set ''upstream_pool'' (opt_obj pool_obj p) meta1))) (\<lambda>meta2.
           rbind (if props_get meta2 ''cache_policy'' = Undef then Inr meta2
                  else rbind (normalizeCachePolicy (props_get meta2 ''cache_policy'') host) (\<lambda>c.
                    Inr (props_set ''cache_policy'' (opt_obj cache_obj c) meta2))) (\<lambda>meta3.
           rbind (if truthy (js_get host ''caching_enabled'') \<and> props_get meta3 ''cache_policy'' = Undef
                  then rbind (normalizeCachePolicy Undef host) (\<lambda>c.
                    if (case c of None \<Rightarrow> True | Some x \<Rightarrow> \<not> cp_enabled x)
                    then Inr (props_set ''cache_policy'' (opt_obj cache_obj c) meta3) else Inr meta3)
                  else Inr meta3) (\<lambda>meta4.
             Inr (JObj (props_set ''meta'' (JObj meta4) (obj_of data)))))))"

end
