(* ===== verification/Monitor_Probes.thy ===== *)
theory Monitor_Probes
  imports Traffic_Policy Monitor_Data
begin

text \<open>
  The measurements of the health monitor, the first half of \<open>backend/internal/proxy-host-monitor.js\<close>: the
  settings of a monitor, the address a check reaches, the HTTP, TCP and pool probes, and the
  fingerprint of a measurement (\<open>backend/lib/upstream-pool-observations.js\<close>).

  A probe reacts to the events of its request in the order in which they arrive, each with the nanoseconds
  since the probe started; an abort signal that was raised before is an event at the head of the list.
  Parameters: \<open>x509\<close> tells whether the X.509 parser accepts a certificate, \<open>sha\<close> is the hexadecimal SHA-256
  digest, and \<open>io\<close> collects what the network and the clock answer.
\<close>

section \<open>Constants\<close>

definition MAX_CONCURRENT :: nat where
  "MAX_CONCURRENT = 5"

definition MAX_SCHEDULED_CHECKS_PER_TICK :: nat where
  "MAX_SCHEDULED_CHECKS_PER_TICK = 100"

definition MAX_HISTORY :: nat where
  "MAX_HISTORY = 100"

definition RETENTION_DAYS :: int where
  "RETENTION_DAYS = 30"

definition RETENTION_CLEANUP_MS :: int where
  "RETENTION_CLEANUP_MS = 24 * 60 * 60 * 1000"

definition ALERT_COOLDOWN_MS :: int where
  "ALERT_COOLDOWN_MS = 5 * 60 * 1000"

definition MAX_PERSIST_ATTEMPTS :: nat where
  "MAX_PERSIST_ATTEMPTS = 3"

definition MYSQL_TRANSACTION_CONFLICTS :: "(int \<times> string) list" where
  "MYSQL_TRANSACTION_CONFLICTS = [(1020, ''ER_CHECKREAD''), (1205, ''ER_LOCK_WAIT_TIMEOUT''), (1213, ''ER_LOCK_DEADLOCK'')]"

definition path_char :: "char \<Rightarrow> bool" where
  "path_char c \<longleftrightarrow> is_alnum c \<or> c \<in> set ''/_~.!$&()*+,;=:-'' \<or> c = CHR 39"

definition SAFE_PATH :: "string \<Rightarrow> bool" where
  "SAFE_PATH s \<longleftrightarrow> starts_with s ''/'' \<and> \<not> starts_with s ''//'' \<and> list_all path_char s"

definition MAX_CA_BYTES :: nat where
  "MAX_CA_BYTES = 65535"

definition PEM_START :: string where
  "PEM_START = ''-----BEGIN CERTIFICATE-----''"

definition PEM_END :: string where
  "PEM_END = ''-----END CERTIFICATE-----''"

definition TLS_CERTIFICATE_ERRORS :: "string list" where
  "TLS_CERTIFICATE_ERRORS =
    [''CERT_HAS_EXPIRED'', ''CERT_NOT_YET_VALID'', ''CERT_REVOKED'', ''CERT_UNTRUSTED'', ''DEPTH_ZERO_SELF_SIGNED_CERT'',
     ''ERR_TLS_CERT_ALTNAME_INVALID'', ''INVALID_CA'', ''INVALID_PURPOSE'', ''SELF_SIGNED_CERT_IN_CHAIN'',
     ''UNABLE_TO_GET_ISSUER_CERT'', ''UNABLE_TO_GET_ISSUER_CERT_LOCALLY'', ''UNABLE_TO_VERIFY_LEAF_SIGNATURE'']"

definition NETWORK_ERRORS :: "(string \<times> string) list" where
  "NETWORK_ERRORS =
    [(''ENOTFOUND'', ''DNS lookup failed (ENOTFOUND)''),
     (''EAI_AGAIN'', ''DNS lookup failed (EAI_AGAIN)''),
     (''ECONNREFUSED'', ''Connection refused (ECONNREFUSED)''),
     (''EHOSTUNREACH'', ''Host unreachable (EHOSTUNREACH)''),
     (''ENETUNREACH'', ''Network unreachable (ENETUNREACH)''),
     (''ECONNRESET'', ''Connection reset (ECONNRESET)''),
     (''EPROTO'', ''TLS handshake failed (EPROTO)''),
     (''ERR_SSL_WRONG_VERSION_NUMBER'', ''TLS handshake failed (ERR_SSL_WRONG_VERSION_NUMBER)'')]"

text \<open>The code of an error may be missing.\<close>

definition networkMessage :: "string option \<Rightarrow> bool \<Rightarrow> string" where
  "networkMessage err_code isHttps =
     (if (err_code = Some ''EPROTO'' \<or> err_code = Some ''ERR_SSL_WRONG_VERSION_NUMBER'') \<and> \<not> isHttps then ''Connection failed''
      else case err_code of
        None \<Rightarrow> ''Connection failed''
      | Some c \<Rightarrow> (case map_of NETWORK_ERRORS c of Some m \<Rightarrow> m | None \<Rightarrow> ''Connection failed''))"

section \<open>Certificate bundles\<close>

definition pemWhitespace :: "char \<Rightarrow> bool" where
  "pemWhitespace c \<longleftrightarrow> code c = 9 \<or> code c = 10 \<or> code c = 13 \<or> code c = 32"

definition pemBase64 :: "char \<Rightarrow> bool" where
  "pemBase64 c \<longleftrightarrow> code_between 65 90 c \<or> code_between 97 122 c \<or> code_between 48 57 c \<or> code c = 43 \<or> code c = 47 \<or> code c = 61"

text \<open>\<open>s.indexOf(p)\<close>\<close>

fun index_of :: "string \<Rightarrow> string \<Rightarrow> nat option" where
  "index_of p [] = (if p = [] then Some 0 else None)"
| "index_of p (c # s) = (if starts_with (c # s) p then Some 0 else map_option Suc (index_of p s))"

text \<open>The state of the loop is the number of certificates so far and the text from the position on.\<close>

function bundle_from :: "(string \<Rightarrow> bool) \<Rightarrow> nat \<Rightarrow> string \<Rightarrow> bool" where
  "bundle_from x509 count s =
     (let r = dropWhile pemWhitespace s; t = drop (length PEM_START) r
      in if r = [] then 0 < count
         else if count = 8 \<or> \<not> starts_with r PEM_START then False
         else case index_of PEM_END t of
           None \<Rightarrow> False
         | Some n \<Rightarrow>
             (let body = take n t
              in if \<not> list_all (\<lambda>c. pemWhitespace c \<or> pemBase64 c) body then False
                 else if list_all pemWhitespace body then False
                 else if \<not> x509 (PEM_START @ body @ PEM_END) then False
                 else bundle_from x509 (Suc count) (drop (n + length PEM_END) t)))"
  by pat_completeness auto

termination
proof (relation "measure (\<lambda>(x509, count, s). length s)", goal_cases)
  case (2 x509 count s r t n body)
  have "length r \<le> length s" by (simp add: 2(1) length_dropWhile_le)
  moreover have "0 < length r" "0 < length PEM_START" using 2(3) by (simp_all add: PEM_START_def)
  ultimately have "length r - length PEM_START - (n + length PEM_END) < length s" by linarith
  then show ?case using 2(2) by simp
qed simp

definition validCertificateBundle :: "(string \<Rightarrow> bool) \<Rightarrow> string \<Rightarrow> bool" where
  "validCertificateBundle x509 pem = bundle_from x509 0 pem"

declare bundle_from.simps [simp del]

section \<open>Settings\<close>

record monitor_settings =
  ms_enabled :: bool
  ms_type :: string
  ms_path :: string
  ms_interval_seconds :: int
  ms_timeout_ms :: int
  ms_expected_status :: int
  ms_alert_enabled :: bool
  ms_upstream_ca :: "string option"
  ms_upstream_server_name :: "string option"
  ms_skip_certificate_verification :: bool

definition settings_required :: "string list" where
  "settings_required = [''enabled'', ''type'', ''path'', ''interval_seconds'', ''timeout_ms'', ''expected_status'', ''alert_enabled'']"

definition settings_optional :: "string list" where
  "settings_optional = [''upstream_ca'', ''upstream_server_name'', ''skip_certificate_verification'']"

definition int_between :: "int \<Rightarrow> int \<Rightarrow> jsval \<Rightarrow> bool" where
  "int_between lo hi v \<longleftrightarrow> is_integer v \<and> lo \<le> int_of v \<and> int_of v \<le> hi"

definition server_label :: "string \<Rightarrow> bool" where
  "server_label p \<longleftrightarrow> p \<noteq> [] \<and> length p \<le> 63 \<and> list_all (\<lambda>c. is_alnum c \<or> c = CHR ''-'') p \<and> is_alnum (hd p) \<and> is_alnum (last p)"

definition server_name_ok :: "string \<Rightarrow> bool" where
  "server_name_ok s \<longleftrightarrow> length s \<le> 253 \<and> list_all server_label (split_char (CHR ''.'') s)"

definition ca_ok :: "(string \<Rightarrow> bool) \<Rightarrow> string \<Rightarrow> bool" where
  "ca_ok x509 s \<longleftrightarrow> utf8_length s \<le> MAX_CA_BYTES \<and> validCertificateBundle x509 s"

text \<open>A nullable text column: \<open>value ?? null\<close>.\<close>

definition opt_text :: "jsval \<Rightarrow> string option" where
  "opt_text v = (if v = Undef \<or> v = Null then None else Some (str_of v))"

definition assertMonitorConfig :: "(string \<Rightarrow> bool) \<Rightarrow> jsval \<Rightarrow> monitor_settings result" where
  "assertMonitorConfig x509 data =
     (let g = js_get data; ca = g ''upstream_ca''; serverName = g ''upstream_server_name''; skip = g ''skip_certificate_verification''
      in if \<not> is_obj data \<or> \<not> set (js_keys data) \<subseteq> set (settings_required @ settings_optional) \<or>
            \<not> list_all (has_own data) settings_required
         then Inl (ValidationError ''Invalid monitor settings'')
         else if \<not> is_bool (g ''enabled'') \<or> \<not> is_bool (g ''alert_enabled'') \<or> (skip \<noteq> Undef \<and> \<not> is_bool skip) \<or>
            \<not> (g ''type'' = JStr ''http'' \<or> g ''type'' = JStr ''tcp'') \<or> \<not> is_str (g ''path'') \<or> 255 < length (str_of (g ''path'')) \<or>
            \<not> SAFE_PATH (str_of (g ''path'')) \<or> \<not> int_between 15 3600 (g ''interval_seconds'') \<or>
            \<not> int_between 500 15000 (g ''timeout_ms'') \<or> \<not> int_between 100 599 (g ''expected_status'')
         then Inl (ValidationError ''Invalid monitor settings'')
         else if int_of (g ''timeout_ms'') \<ge> int_of (g ''interval_seconds'') * 1000
         then Inl (ValidationError ''Timeout must be shorter than the interval'')
         else if opt_text ca \<noteq> None \<and> (\<not> is_str ca \<or> \<not> ca_ok x509 (str_of ca))
         then Inl (ValidationError ''Invalid upstream CA certificate'')
         else if opt_text serverName \<noteq> None \<and> (\<not> is_str serverName \<or> \<not> server_name_ok (str_of serverName))
         then Inl (ValidationError ''Invalid upstream TLS server name'')
         else Inr \<lparr>ms_enabled = bool_of (g ''enabled''), ms_type = str_of (g ''type''), ms_path = str_of (g ''path''),
                ms_interval_seconds = int_of (g ''interval_seconds''), ms_timeout_ms = int_of (g ''timeout_ms''),
                ms_expected_status = int_of (g ''expected_status''), ms_alert_enabled = bool_of (g ''alert_enabled''),
                ms_upstream_ca = opt_text ca, ms_upstream_server_name = opt_text serverName,
                ms_skip_certificate_verification = bool_of skip\<rparr>)"

section \<open>Targets\<close>

record upstream_target =
  tg_scheme :: jsval
  tg_host :: string
  tg_port :: int
  tg_path :: string

text \<open>\<open>text.replace(/\\/$/, "")\<close>\<close>

definition drop_slash :: "string \<Rightarrow> string" where
  "drop_slash s = (if ends_with s ''/'' then butlast s else s)"

definition js_or :: "jsval \<Rightarrow> jsval \<Rightarrow> jsval" where
  "js_or a b = (if truthy a then a else b)"

text \<open>A target from the scheme, the host name, the port and the path of the check.\<close>

definition target_parts :: "jsval \<Rightarrow> string \<Rightarrow> jsval \<Rightarrow> string \<Rightarrow> upstream_target option" where
  "target_parts scheme name port path =
     (let nested = (scheme \<noteq> JStr ''terminal'' \<and> CHR ''/'' \<in> set name);
          parts = split_char (CHR ''/'') name;
          basePath = (if nested then drop_slash (''/'' @ js_join ''/'' (tl parts)) else []);
          hostname = unbracket (if nested then hd parts else name);
          n = js_number port;
          full = (if basePath \<noteq> [] then basePath @ (if path = ''/'' then [] else path) else path)
      in if hostname = [] \<or> \<not> int_between 1 65535 n then None
         else if \<not> SAFE_PATH full \<or> 255 < length full then None
         else Some \<lparr>tg_scheme = scheme, tg_host = hostname, tg_port = int_of n, tg_path = full\<rparr>)"

definition resolveTarget :: "proxy_host \<Rightarrow> string \<Rightarrow> string \<Rightarrow> upstream_target option" where
  "resolveTarget host type path =
     (let scheme = ph_get host ''forward_scheme'';
          terminal = (scheme = JStr ''terminal'');
          name = (if terminal then ph_get host ''terminal_host'' else ph_get host ''forward_host'');
          port = (if terminal then js_or (ph_get host ''terminal_port'') (JNum 22) else ph_get host ''forward_port'')
      in if scheme = JStr ''path'' then None
         else if type = ''http'' \<and> \<not> http_scheme (ph_columns host) then None
         else if \<not> is_str name \<or> starts_with (str_of name) ''unix'' \<or> starts_with (str_of name) ''/'' then None
         else target_parts scheme (str_of name) port path)"

section \<open>Probes\<close>

text \<open>The settings a probe reads; an empty name or certificate counts as absent.\<close>

record probe_config =
  pc_path :: string
  pc_timeout_ms :: int
  pc_expected_status :: int
  pc_upstream_ca :: "string option"
  pc_upstream_server_name :: "string option"
  pc_skip_certificate_verification :: bool
  pc_host_header :: "string option"

record tls_options =
  to_rejectUnauthorized :: bool
  to_ca :: "string option"
  to_servername :: "string option"

record request_options =
  ro_hostname :: string
  ro_port :: int
  ro_path :: string
  ro_tls :: "tls_options option"
  ro_headers :: "(string \<times> string) list"

datatype probe_event =
    Ev_lookup | Ev_connect | Ev_secureConnect | Ev_response "int option" | Ev_error "string option" | Ev_timeout | Ev_abort

type_synonym probe_events = "(int \<times> probe_event) list"

definition nonempty :: "string option \<Rightarrow> string option" where
  "nonempty v = (if v = Some [] then None else v)"

definition is_https :: "upstream_target \<Rightarrow> bool" where
  "is_https t \<longleftrightarrow> tg_scheme t = JStr ''https''"

text \<open>\<open>Math.round\<close> of a time in nanoseconds, to milliseconds.\<close>

definition round_ms :: "int \<Rightarrow> int" where
  "round_ms ns = (ns + 500000) div 1000000"

definition http_request :: "upstream_target \<Rightarrow> probe_config \<Rightarrow> request_options" where
  "http_request t c =
     \<lparr>ro_hostname = tg_host t, ro_port = tg_port t, ro_path = pc_path c,
      ro_tls = (if is_https t
         then Some \<lparr>to_rejectUnauthorized = (\<not> pc_skip_certificate_verification c),
                to_ca = (if pc_skip_certificate_verification c then None else nonempty (pc_upstream_ca c)),
                to_servername = nonempty (pc_upstream_server_name c)\<rparr>
         else None),
      ro_headers = [(''User-Agent'', ''ShieldPM-Monitor/1''), (''Accept'', ''*/*'')] @
         (case nonempty (pc_host_header c) of Some h \<Rightarrow> [(''Host'', h)] | None \<Rightarrow> [])\<rparr>"

definition first_phase :: "upstream_target \<Rightarrow> string" where
  "first_phase t = (if isIP (tg_host t) \<noteq> 0 then ''connecting'' else ''resolving'')"

text \<open>The socket events move the phase; each handler runs once.\<close>

definition next_phase :: "bool \<Rightarrow> probe_event list \<Rightarrow> probe_event \<Rightarrow> string \<Rightarrow> string" where
  "next_phase https seen ev phase =
     (if ev \<in> set seen then phase
      else case ev of
        Ev_lookup \<Rightarrow> ''connecting''
      | Ev_connect \<Rightarrow> (if https then ''tls'' else ''headers'')
      | Ev_secureConnect \<Rightarrow> ''headers''
      | _ \<Rightarrow> phase)"

definition down_result :: "int \<Rightarrow> string \<Rightarrow> check_result" where
  "down_result ns msg = \<lparr>cr_state = St_down, cr_response_ms = round_ms ns, cr_status_code = None, cr_message = msg\<rparr>"

text \<open>The event that settles an HTTP probe; an abort only destroys the request, whose error event follows.\<close>

definition http_settle :: "bool \<Rightarrow> probe_config \<Rightarrow> string \<Rightarrow> int \<Rightarrow> probe_event \<Rightarrow> check_result option" where
  "http_settle https c phase ns ev =
     (case ev of
        Ev_response status \<Rightarrow>
          Some \<lparr>cr_state = (if status = Some (pc_expected_status c) then St_up else St_down), cr_response_ms = round_ms ns,
                cr_status_code = status,
                cr_message = ''HTTP '' @ (case status of Some n \<Rightarrow> int_str n | None \<Rightarrow> ''unknown'')\<rparr>
      | Ev_error err_code \<Rightarrow>
          (if https \<and> \<not> pc_skip_certificate_verification c \<and> (case err_code of Some x \<Rightarrow> x \<in> set TLS_CERTIFICATE_ERRORS | None \<Rightarrow> False)
           then Some \<lparr>cr_state = St_unknown, cr_response_ms = round_ms ns, cr_status_code = None,
                      cr_message = ''TLS certificate could not be verified''\<rparr>
           else Some (down_result ns (networkMessage err_code https)))
      | Ev_timeout \<Rightarrow> Some (down_result ns (''Timed out during '' @ phase))
      | _ \<Rightarrow> None)"

fun http_events :: "bool \<Rightarrow> probe_config \<Rightarrow> probe_event list \<Rightarrow> string \<Rightarrow> probe_events \<Rightarrow> check_result option" where
  "http_events https c seen phase [] = None"
| "http_events https c seen phase ((ns, ev) # evs) =
     (case http_settle https c phase ns ev of
        Some r \<Rightarrow> Some r
      | None \<Rightarrow> http_events https c (ev # seen) (next_phase https seen ev phase) evs)"

text \<open>\<open>accepted\<close> tells whether the client accepts the options of the request instead of throwing.\<close>

definition probeHttp :: "(request_options \<Rightarrow> bool) \<Rightarrow> upstream_target \<Rightarrow> probe_config \<Rightarrow> probe_events \<Rightarrow> check_result option" where
  "probeHttp accepted t c evs =
     (if accepted (http_request t c) then http_events (is_https t) c [] (first_phase t) evs
      else Some (down_result 0 ''Invalid upstream''))"

definition tcp_settle :: "string \<Rightarrow> int \<Rightarrow> probe_event \<Rightarrow> check_result option" where
  "tcp_settle phase ns ev =
     (case ev of
        Ev_connect \<Rightarrow> Some \<lparr>cr_state = St_up, cr_response_ms = round_ms ns, cr_status_code = None, cr_message = ''TCP connected''\<rparr>
      | Ev_error err_code \<Rightarrow> Some (down_result ns (networkMessage err_code False))
      | Ev_timeout \<Rightarrow> Some (down_result ns (''Timed out during '' @ phase))
      | Ev_abort \<Rightarrow> Some (down_result ns ''Stopped'')
      | _ \<Rightarrow> None)"

fun tcp_events :: "string \<Rightarrow> probe_events \<Rightarrow> check_result option" where
  "tcp_events phase [] = None"
| "tcp_events phase ((ns, ev) # evs) =
     (case tcp_settle phase ns ev of
        Some r \<Rightarrow> Some r
      | None \<Rightarrow> tcp_events (if ev = Ev_lookup then ''connecting'' else phase) evs)"

definition probeTcp :: "(string \<Rightarrow> int \<Rightarrow> bool) \<Rightarrow> upstream_target \<Rightarrow> probe_events \<Rightarrow> check_result option" where
  "probeTcp accepted t evs =
     (if accepted (tg_host t) (tg_port t) then tcp_events (first_phase t) evs else Some (down_result 0 ''Invalid upstream''))"

section \<open>Pools\<close>

text \<open>What the network and the clock answer while a pool is probed: the events of the i-th probe, whether the signal
  is raised and how many nanoseconds have passed when the i-th candidate is considered, and the time at the end.\<close>

record probe_io =
  io_request_ok :: "request_options \<Rightarrow> bool"
  io_connect_ok :: "string \<Rightarrow> int \<Rightarrow> bool"
  io_events :: "nat \<Rightarrow> probe_events"
  io_aborted :: "nat \<Rightarrow> bool"
  io_clock :: "nat \<Rightarrow> int"
  io_finished :: int

record pool_observation =
  po_id :: string
  po_result :: check_result

definition probe_one :: "probe_io \<Rightarrow> string \<Rightarrow> nat \<Rightarrow> upstream_target \<Rightarrow> probe_config \<Rightarrow> check_result option" where
  "probe_one io type i t c =
     (if type = ''tcp'' then probeTcp (io_connect_ok io) t (io_events io i) else probeHttp (io_request_ok io) t c (io_events io i))"

definition canonical_name :: "string \<Rightarrow> bool" where
  "canonical_name s \<longleftrightarrow> s \<noteq> [] \<and> length s \<le> 253 \<and> list_all host_char s \<and> is_alnum (hd s) \<and> is_alnum (last s)"

text \<open>\<open>a || b\<close> of two optional texts.\<close>

definition opt_or :: "string option \<Rightarrow> string option \<Rightarrow> string option" where
  "opt_or a b = (case nonempty a of Some x \<Rightarrow> Some x | None \<Rightarrow> b)"

definition pool_options :: "pool \<Rightarrow> string option \<Rightarrow> pool_target \<Rightarrow> int \<Rightarrow> probe_config \<Rightarrow> probe_config" where
  "pool_options p canonical t budget c =
     (let header = opt_or (up_host_header p) (opt_or canonical (Some (ut_host t)))
      in c\<lparr>pc_timeout_ms := budget, pc_host_header := header,
           pc_upstream_server_name := opt_or (pc_upstream_server_name c) (opt_or (up_tls_server_name p) header)\<rparr>)"

text \<open>A time-out of a shared slice does not prove that the target is down.\<close>

definition slice_result :: "check_result \<Rightarrow> check_result" where
  "slice_result r =
     (if cr_state r = St_down \<and> starts_with (cr_message r) ''Timed out during''
      then r\<lparr>cr_state := St_unknown, cr_message := ''Pool probe budget exhausted before a response''\<rparr> else r)"

definition slice_budget :: "int \<Rightarrow> nat \<Rightarrow> int" where
  "slice_budget remaining_ns n = max 1 (remaining_ns div (1000000 * int n))"

fun pool_loop ::
  "probe_io \<Rightarrow> jsval \<Rightarrow> string \<Rightarrow> probe_config \<Rightarrow> pool \<Rightarrow> string option \<Rightarrow> nat \<Rightarrow> pool_target list \<Rightarrow> pool_observation list \<Rightarrow>
     pool_observation list option" where
  "pool_loop io scheme type c p canonical i [] obs = Some obs"
| "pool_loop io scheme type c p canonical i (t # ts) obs =
     (let remaining = pc_timeout_ms c * 1000000 - io_clock io i
      in if io_aborted io i \<or> remaining \<le> 0 then Some obs
         else
           case probe_one io type i \<lparr>tg_scheme = scheme, tg_host = ut_host t, tg_port = ut_port t, tg_path = pc_path c\<rparr>
                  (pool_options p canonical t (slice_budget remaining (Suc (length ts))) c) of
             None \<Rightarrow> None
           | Some r \<Rightarrow>
               (let obs' = obs @ [\<lparr>po_id = ut_id t, po_result = slice_result r\<rparr>]
                in if cr_state (slice_result r) = St_up then Some obs'
                   else pool_loop io scheme type c p canonical (Suc i) ts obs'))"

definition candidates :: "pool \<Rightarrow> pool_target list" where
  "candidates p = filter (\<lambda>t. \<not> ut_backup t) (up_targets p) @ filter ut_backup (up_targets p)"

definition pool_verdict :: "nat \<Rightarrow> int \<Rightarrow> pool_observation list \<Rightarrow> check_result" where
  "pool_verdict n elapsed_ns obs =
     (let healthy = (obs \<noteq> [] \<and> cr_state (po_result (last obs)) = St_up);
          state = (if healthy then St_up
                   else if (\<exists>o' \<in> set obs. cr_state (po_result o') = St_unknown) \<or> length obs < n then St_unknown else St_down)
      in \<lparr>cr_state = state, cr_response_ms = round_ms elapsed_ns,
          cr_status_code = (if healthy then cr_status_code (po_result (last obs)) else None),
          cr_message = (if healthy then ''Pool target '' @ po_id (last obs) @ '': '' @ cr_message (po_result (last obs))
             else if state = St_down then ''All upstream pool targets failed'' else ''Upstream pool availability could not be verified'')\<rparr>)"

definition probePool ::
  "probe_io \<Rightarrow> jsval \<Rightarrow> string list \<Rightarrow> string \<Rightarrow> probe_config \<Rightarrow> pool \<Rightarrow> (check_result \<times> pool_observation list) option" where
  "probePool io scheme domains type c p =
     map_option (\<lambda>obs. (pool_verdict (length (candidates p)) (io_finished io) obs, obs))
       (pool_loop io scheme type c p (List.find canonical_name domains) 0 (candidates p) [])"

section \<open>Fingerprints\<close>

definition host_pool :: "proxy_host \<Rightarrow> pool option result" where
  "host_pool host = normalizeUpstreamPool (js_get (ph_get host ''meta'') ''upstream_pool'') (ph_columns host)"

text \<open>The names \<open>run\<close> and \<open>persistCheck\<close> load into \<open>host.domain_names\<close>: for an enabled pool only.\<close>

definition pool_domains :: "proxy_host \<Rightarrow> pool option \<Rightarrow> string list" where
  "pool_domains host p = (case p of Some q \<Rightarrow> if up_enabled q then take 5 (ph_host_domains host) else [] | None \<Rightarrow> [])"

definition poolObservationKey :: "(string \<Rightarrow> string) \<Rightarrow> proxy_host \<Rightarrow> string list \<Rightarrow> string result" where
  "poolObservationKey sha host domains =
     rbind (host_pool host) (\<lambda>p.
       Inr (sha (json_text (JObj [(''scheme'', ph_get host ''forward_scheme''), (''domains'', JArr (map JStr (take 5 domains))),
         (''pool'', opt_obj pool_obj p)]))))"

definition target_json :: "upstream_target option \<Rightarrow> jsval" where
  "target_json t = (case t of None \<Rightarrow> Null
     | Some x \<Rightarrow> JObj [(''forward_scheme'', tg_scheme x), (''forward_host'', JStr (tg_host x)), (''forward_port'', JNum (tg_port x)),
         (''path'', JStr (tg_path x))])"

definition probeIdentity :: "(string \<Rightarrow> string) \<Rightarrow> proxy_host \<Rightarrow> string \<Rightarrow> string \<Rightarrow> string result" where
  "probeIdentity sha host type path =
     rbind (host_pool host) (\<lambda>p.
     rbind (poolObservationKey sha host (pool_domains host p)) (\<lambda>key.
       Inr (json_text (JArr [JStr key,
         if (case p of Some q \<Rightarrow> up_enabled q | None \<Rightarrow> False) then Null else target_json (resolveTarget host type path)]))))"

end
