(* ===== verification/Monitor_Alerts.thy ===== *)
theory Monitor_Alerts
  imports Monitor_Probes
begin

text \<open>
  The alerts of the health monitor, the middle of \<open>backend/internal/proxy-host-monitor.js\<close>: when a change of state is
  announced, and the text of the announcement. The umlauts of the texts are single code units.
\<close>

section \<open>When an alert is sent\<close>

record alert_decision =
  ad_send :: bool
  ad_last_alert_state :: "check_state option"
  ad_last_alert_at :: "int option"

definition decideAlert :: "monitor_row \<Rightarrow> check_state \<Rightarrow> int \<Rightarrow> alert_decision" where
  "decideAlert current nextState checkedAt =
     (if \<not> m_alert_enabled current then \<lparr>ad_send = False, ad_last_alert_state = None, ad_last_alert_at = None\<rparr>
      else if nextState = St_unknown
      then \<lparr>ad_send = False, ad_last_alert_state = m_last_alert_state current, ad_last_alert_at = m_last_alert_at current\<rparr>
      else if m_last_alert_state current = None \<and> nextState = St_up
      then \<lparr>ad_send = False, ad_last_alert_state = Some St_up, ad_last_alert_at = None\<rparr>
      else if m_last_alert_state current \<noteq> Some nextState \<and>
        (case m_last_alert_at current of Some t \<Rightarrow> ALERT_COOLDOWN_MS \<le> checkedAt - t | None \<Rightarrow> True)
      then \<lparr>ad_send = True, ad_last_alert_state = Some nextState, ad_last_alert_at = Some checkedAt\<rparr>
      else \<lparr>ad_send = False, ad_last_alert_state = m_last_alert_state current, ad_last_alert_at = m_last_alert_at current\<rparr>)"

section \<open>The text of an alert\<close>

definition ae :: string where
  "ae = [CHR 0xE4]"

definition oe :: string where
  "oe = [CHR 0xF6]"

definition ue :: string where
  "ue = [CHR 0xFC]"

definition alertLabel :: "jsval \<Rightarrow> nat \<Rightarrow> string" where
  "alertLabel v maxLength = plain_text v maxLength"

definition secret_segments :: "string list" where
  "secret_segments = [''token'', ''secret'', ''apikey'', ''api-key'', ''api_key'', ''password'', ''passwd'', ''auth'', ''authorization'', ''jwt'',
     ''bearer'', ''session'']"

definition secret_keys :: "string list" where
  "secret_keys = [''token='', ''secret='', ''key='', ''password='', ''passwd='', ''auth='', ''jwt='', ''session='']"

definition redacted_segment :: "string \<Rightarrow> string \<Rightarrow> bool" where
  "redacted_segment previous part \<longleftrightarrow> js_lower previous \<in> set secret_segments \<or>
     (\<exists>k \<in> set secret_keys. has_infix (js_lower part) k) \<or> 32 < length part"

fun redact_segments :: "string \<Rightarrow> string list \<Rightarrow> string list" where
  "redact_segments previous [] = []"
| "redact_segments previous (part # parts) =
     (if redacted_segment previous part then ''[redigiert]'' else part) # redact_segments part parts"

definition alertPath :: "string \<Rightarrow> string" where
  "alertPath path = (if \<not> SAFE_PATH path \<or> 255 < length path then []
     else js_join ''/'' (redact_segments [] (split_char (CHR ''/'') path)))"

text \<open>The target of an alert is a pool, with its number of targets, or an address.\<close>

datatype alert_target = Pool_target jsval nat | Host_target upstream_target

fun target_scheme :: "alert_target \<Rightarrow> jsval" where
  "target_scheme (Pool_target scheme n) = scheme"
| "target_scheme (Host_target t) = tg_scheme t"

definition target_name_char :: "char \<Rightarrow> bool" where
  "target_name_char c \<longleftrightarrow> is_alnum c \<or> c = CHR ''.'' \<or> c = CHR ''_'' \<or> c = CHR ''-''"

definition target_name_ok :: "string \<Rightarrow> bool" where
  "target_name_ok s \<longleftrightarrow> s \<noteq> [] \<and> length s \<le> 253 \<and> list_all target_name_char s"

fun alertTarget :: "alert_target option \<Rightarrow> string \<Rightarrow> string" where
  "alertTarget None type = ''kein unterst'' @ ue @ ''tztes Netzwerkziel''"
| "alertTarget (Some (Pool_target scheme n)) type =
     (if n \<noteq> 0 then ''Upstream-Pool ('' @ nat_str n @ '' Ziele)'' else ''ung'' @ ue @ ''ltiger Zielname'')"
| "alertTarget (Some (Host_target t)) type =
     (let ip = isIP (tg_host t)
      in if ip = 0 \<and> \<not> target_name_ok (tg_host t) then ''ung'' @ ue @ ''ltiger Zielname''
         else if tg_port t < 1 \<or> 65535 < tg_port t then ''ung'' @ ue @ ''ltiger Zielport''
         else (if type = ''http'' then js_string (tg_scheme t) @ ''://'' else []) @
              (if ip = 6 then ''['' @ tg_host t @ '']'' else tg_host t) @ '':'' @ int_str (tg_port t) @
              (if type = ''http'' then alertPath (tg_path t) else []))"

definition descriptions :: "(string \<times> string \<times> string) list" where
  "descriptions =
    [(''Timed out during resolving'', (''Zeitlimit bei der DNS-Aufl'' @ oe @ ''sung erreicht.'', ''DNS-Aufl'' @ oe @ ''sung und Nameserver des ShieldPM-Servers pr'' @ ue @ ''fen.'')),
     (''Timed out during connecting'', (''TCP-Verbindung kam innerhalb des Zeitlimits nicht zustande.'', ''Erreichbarkeit, Firewall und Zielport pr'' @ ue @ ''fen.'')),
     (''Timed out during tls'', (''TCP verbunden; TLS-Handshake nicht innerhalb des Zeitlimits abgeschlossen.'', ''HTTPS am Zielport und TLS-Konfiguration pr'' @ ue @ ''fen.'')),
     (''Timed out during headers'', (''Verbindung hergestellt; keine HTTP-Antwortheader innerhalb des Zeitlimits.'', ''Health-Endpunkt und Anwendung pr'' @ ue @ ''fen.'')),
     (''DNS lookup failed (ENOTFOUND)'', (''DNS konnte den Zielnamen nicht aufl'' @ oe @ ''sen (ENOTFOUND).'', ''Hostname und DNS-Eintr'' @ ae @ ''ge vom ShieldPM-Server aus pr'' @ ue @ ''fen.'')),
     (''DNS lookup failed (EAI_AGAIN)'', (''DNS-Aufl'' @ oe @ ''sung vor'' @ ue @ ''bergehend fehlgeschlagen (EAI_AGAIN).'', ''DNS-Server und Verbindung des ShieldPM-Servers pr'' @ ue @ ''fen.'')),
     (''Connection refused (ECONNREFUSED)'', (''TCP-Verbindung zum Zielport wurde abgelehnt (ECONNREFUSED).'', ''Pr'' @ ue @ ''fen, ob der Dienst auf diesem Host und Port lauscht.'')),
     (''Host unreachable (EHOSTUNREACH)'', (''Zielhost '' @ ue @ ''ber das Netzwerk nicht erreichbar (EHOSTUNREACH).'', ''Routing, Netzwerk und Firewall pr'' @ ue @ ''fen.'')),
     (''Network unreachable (ENETUNREACH)'', (''Netzwerk zum Ziel nicht erreichbar (ENETUNREACH).'', ''Routing und Netzwerkverbindung pr'' @ ue @ ''fen.'')),
     (''Connection reset (ECONNRESET)'', (''Verbindung wurde vor der Antwort zur'' @ ue @ ''ckgesetzt (ECONNRESET).'', ''Logs des Dienstes und eventuelle Zwischenproxies pr'' @ ue @ ''fen.'')),
     (''TLS handshake failed (EPROTO)'', (''TLS-Handshake fehlgeschlagen (EPROTO).'', ''Zielprotokoll und Port pr'' @ ue @ ''fen: Eventuell spricht der Port HTTP statt HTTPS.'')),
     (''TLS handshake failed (ERR_SSL_WRONG_VERSION_NUMBER)'', (''TLS-Handshake wegen unpassender Protokollversion fehlgeschlagen.'', ''Zielprotokoll und Port pr'' @ ue @ ''fen: Eventuell spricht der Port HTTP statt HTTPS.'')),
     (''All upstream pool targets failed'', (''Alle gepr'' @ ue @ ''ften Pool-Ziele sind ausgefallen.'', ''HTTP-/TCP-Beobachtungen im Pool-Tab und die Dienste auf den einzelnen Zielen pr'' @ ue @ ''fen.'')),
     (''Invalid upstream'', (''Upstream-Ziel ist ung'' @ ue @ ''ltig.'', ''Zieladresse und Port des Proxy-Hosts pr'' @ ue @ ''fen.'')),
     (''Unsupported upstream'', (''Der konfigurierte Pr'' @ ue @ ''ftyp unterst'' @ ue @ ''tzt dieses Upstream-Ziel nicht.'', ''Pr'' @ ue @ ''ftyp und Upstream-Ziel des Proxy-Hosts pr'' @ ue @ ''fen.''))]"

definition status_hint :: "int \<Rightarrow> string" where
  "status_hint n =
     (if n \<in> {301, 302, 303, 307, 308} then ''Weiterleitung wird nicht verfolgt; Pr'' @ ue @ ''fpfad und erwarteten Status pr'' @ ue @ ''fen.''
      else if n \<in> {401, 403} then ''Der Pr'' @ ue @ ''fpfad verlangt m'' @ oe @ ''glicherweise eine Anmeldung oder sperrt den Zugriff.''
      else if n = 404 then ''Pfad des Health-Endpunkts pr'' @ ue @ ''fen.''
      else if n \<in> {502, 503, 504} then ''Dienst hinter dem Proxy und dessen Logs pr'' @ ue @ ''fen.''
      else ''Antwort des Dienstes und erwarteten Status pr'' @ ue @ ''fen.'')"

text \<open>The cause and the hint for a result: its status code, or else its message.\<close>

definition alertDiagnosis :: "int option \<Rightarrow> string option \<Rightarrow> int \<Rightarrow> string \<times> string" where
  "alertDiagnosis status_code message expectedStatus =
     (case status_code of
        Some n \<Rightarrow> (''Der Upstream antwortete mit HTTP '' @ int_str n @ '' statt HTTP '' @ int_str expectedStatus @ ''.'', status_hint n)
      | None \<Rightarrow>
          (case (case message of None \<Rightarrow> None | Some m \<Rightarrow> map_of descriptions m) of
             Some d \<Rightarrow> d
           | None \<Rightarrow> (''Verbindung zum Upstream ist fehlgeschlagen.'', ''Erreichbarkeit, Zielport und Dienstlogs pr'' @ ue @ ''fen.'')))"

text \<open>An earlier failed check, from the history or from the row of the monitor.\<close>

record finding =
  fd_id :: "nat option"
  fd_state :: check_state
  fd_checked_at :: "int option"
  fd_status_code :: "int option"
  fd_message :: "string option"

definition opt_iso :: "int option \<Rightarrow> string" where
  "opt_iso t = (case t of Some x \<Rightarrow> iso_string x | None \<Rightarrow> ''null'')"

definition finding_line :: "string \<Rightarrow> int \<Rightarrow> finding option \<Rightarrow> string list" where
  "finding_line label expected f =
     (case f of
        Some x \<Rightarrow> if fd_state x = St_down
          then [label @ '' (UTC '' @ opt_iso (fd_checked_at x) @ ''): '' @ fst (alertDiagnosis (fd_status_code x) (fd_message x) expected)] else []
      | None \<Rightarrow> [])"

definition alert_domain_char :: "char \<Rightarrow> bool" where
  "alert_domain_char c \<longleftrightarrow> target_name_char c \<or> c = CHR ''*''"

definition alert_domains :: "string list \<Rightarrow> string list" where
  "alert_domains ds =
     take 3 (filter (\<lambda>d. d \<noteq> [] \<and> length d \<le> 253 \<and> list_all alert_domain_char d) (map (\<lambda>d. alertLabel (JStr d) 253) ds))"

definition check_lines :: "monitor_row \<Rightarrow> alert_target option \<Rightarrow> check_result \<Rightarrow> string list" where
  "check_lines config target res =
     (let https = (case target of Some t \<Rightarrow> target_scheme t = JStr ''https'' | None \<Rightarrow> False)
      in if m_type config = ''http''
         then [''Pr'' @ ue @ ''fung: '' @ (if https then ''HTTPS'' else ''HTTP'') @ '' GET'',
               ''HTTP-Status: '' @ (case cr_status_code res of Some n \<Rightarrow> int_str n | None \<Rightarrow> ''keine Antwort'') @
                 '' (erwartet '' @ int_str (m_expected_status config) @ '')''] @
              (if https then [''TLS-Zertifikat: '' @ (if m_skip_certificate_verification config then ''Pr'' @ ue @ ''fung deaktiviert'' else ''Pr'' @ ue @ ''fung aktiv'')] else [])
         else [''Pr'' @ ue @ ''fung: TCP-Verbindung''])"

definition diagnosis_lines :: "monitor_row \<Rightarrow> check_result \<Rightarrow> finding option \<Rightarrow> finding option \<Rightarrow> string list" where
  "diagnosis_lines config res initialFailure lastFailedCheck =
     (if cr_state res = St_up
      then [''Diagnose: Der Upstream antwortet wieder wie erwartet.''] @
           finding_line ''Befund beim DOWN-Alarm'' (m_expected_status config) initialFailure @
           finding_line ''Letzter fehlgeschlagener Check'' (m_expected_status config) lastFailedCheck @
           (if initialFailure = None \<and> lastFailedCheck = None then [''Fr'' @ ue @ ''here Ausfallbefunde sind im Verlauf nicht mehr verf'' @ ue @ ''gbar.''] else [])
      else (let d = alertDiagnosis (cr_status_code res) (Some (cr_message res)) (m_expected_status config)
            in [''Diagnose: '' @ fst d, ''Hinweis: '' @ snd d]))"

definition formatHostMonitorAlert ::
  "int \<Rightarrow> monitor_row \<Rightarrow> alert_target option \<Rightarrow> check_result \<Rightarrow> finding option \<Rightarrow> finding option \<Rightarrow> string list \<Rightarrow> int \<Rightarrow> string" where
  "formatHostMonitorAlert hostId config target res initialFailure lastFailedCheck domains checkedAt =
     js_join [CHR 10]
       ([''ShieldPM: Proxy-Host #'' @ int_str hostId @ '' ist '' @ js_upper (state_text (cr_state res))] @
        (if alert_domains domains \<noteq> [] then [''Domain: '' @ js_join '', '' (alert_domains domains)] else []) @
        [''Ziel: '' @ alertTarget target (m_type config)] @
        check_lines config target res @
        [''Dauer: '' @ int_str (cr_response_ms res) @ '' ms (Zeitlimit: '' @ int_str (m_timeout_ms config) @ '' ms)'',
         ''Zeitpunkt (UTC): '' @ iso_string checkedAt] @
        diagnosis_lines config res initialFailure lastFailedCheck)"

section \<open>Public views\<close>

definition publicConfig :: "monitor_row \<Rightarrow> monitor_settings" where
  "publicConfig row = \<lparr>ms_enabled = m_enabled row, ms_type = m_type row, ms_path = m_path row, ms_interval_seconds = m_interval_seconds row,
     ms_timeout_ms = m_timeout_ms row, ms_expected_status = m_expected_status row, ms_alert_enabled = m_alert_enabled row,
     ms_upstream_ca = m_upstream_ca row, ms_upstream_server_name = m_upstream_server_name row,
     ms_skip_certificate_verification = m_skip_certificate_verification row\<rparr>"

record public_status =
  ps_state :: string
  ps_checked_at :: "int option"
  ps_response_ms :: "int option"
  ps_status_code :: "int option"
  ps_message :: "string option"

definition publicStatus :: "monitor_row \<Rightarrow> proxy_host \<Rightarrow> public_status" where
  "publicStatus row host = \<lparr>ps_state = (if \<not> ph_enabled host \<or> \<not> m_enabled row then ''paused'' else state_text (m_state row)),
     ps_checked_at = m_checked_at row, ps_response_ms = m_response_ms row, ps_status_code = m_status_code row, ps_message = m_message row\<rparr>"

end
