(* ===== verification/Monitor_Service.thy ===== *)
theory Monitor_Service
  imports Monitor_Alerts Incidents "HOL-Library.Product_Lexorder"
begin

text \<open>
  The service of the health monitor, the second half of \<open>backend/internal/proxy-host-monitor.js\<close>, and the probe
  results it remembers for pools (\<open>backend/lib/upstream-pool-observations.js\<close>).

  The state holds the tables \<open>proxy_host_monitor\<close> and \<open>proxy_host_monitor_check\<close>, the database of the incident centre with the
  proxy hosts, and the variables of the module: the checks in flight with the state of their
  abort signal, the remembered observations, the timer and the scheduler's flags. Alerts handed to the chat module and
  triggers of the GitOps module are recorded in the order in which they happen; a failing alert is
  logged by the code and changes nothing.

  A check has several phases between which other operations run: \<open>run_claim\<close>, \<open>run_read\<close>, \<open>run_measure\<close>,
  \<open>run_commit\<close> and \<open>run_release\<close>; \<open>run\<close> composes them without interruption.
  \<open>fails\<close> tells which attempts of the commit the database rejects, and with which error.
\<close>

section \<open>State\<close>

record pool_record =
  pr_host :: int
  pr_key :: string
  pr_expires :: int
  pr_targets :: "(pool_observation \<times> int) list"

record monitor_state =
  mo_monitors :: "monitor_row list"
  mo_checks :: "check_row list"
  mo_inc :: incident_db
  mo_monitor_seq :: nat
  mo_check_seq :: nat
  mo_active :: "(int \<times> bool) list"
  mo_observations :: "pool_record list"
  mo_timer :: bool
  mo_scanning :: bool
  mo_last_cleanup :: int
  mo_generation :: nat
  mo_alerts :: "(int \<times> string) list"
  mo_pushes :: "string list"

definition is_active :: "int \<Rightarrow> monitor_state \<Rightarrow> bool" where
  "is_active h s \<longleftrightarrow> h \<in> fst ` set (mo_active s)"

definition aborted :: "int \<Rightarrow> monitor_state \<Rightarrow> bool" where
  "aborted h s \<longleftrightarrow> (h, True) \<in> set (mo_active s)"

definition abort_check :: "int \<Rightarrow> monitor_state \<Rightarrow> monitor_state" where
  "abort_check h s = s\<lparr>mo_active := map (\<lambda>a. if fst a = h then (h, True) else a) (mo_active s)\<rparr>"

definition live_host :: "int \<Rightarrow> monitor_state \<Rightarrow> proxy_host option" where
  "live_host h s = List.find (\<lambda>x. ph_id x = h \<and> \<not> ph_is_deleted x) (i_hosts (mo_inc s))"

definition find_monitor :: "int \<Rightarrow> monitor_state \<Rightarrow> monitor_row option" where
  "find_monitor h s = List.find (\<lambda>m. m_host_id m = h) (mo_monitors s)"

section \<open>Remembered observations\<close>

definition clearPoolObservations :: "int \<Rightarrow> monitor_state \<Rightarrow> monitor_state" where
  "clearPoolObservations h s = s\<lparr>mo_observations := delete_where (\<lambda>r. pr_host r = h) (mo_observations s)\<rparr>"

text \<open>A map of targets keeps the last entry of an identifier, at the place of the first.\<close>

fun put_target :: "pool_observation \<times> int \<Rightarrow> (pool_observation \<times> int) list \<Rightarrow> (pool_observation \<times> int) list" where
  "put_target x [] = [x]"
| "put_target x (y # ys) = (if po_id (fst y) = po_id (fst x) then x # ys else y # put_target x ys)"

definition recordPoolObservations ::
  "(string \<Rightarrow> string) \<Rightarrow> int \<Rightarrow> proxy_host \<Rightarrow> string list \<Rightarrow> pool_observation list \<Rightarrow> int \<Rightarrow> monitor_state \<Rightarrow> monitor_state result" where
  "recordPoolObservations sha now host domains targets checkedAt s =
     rbind (poolObservationKey sha host domains) (\<lambda>key.
       let r = \<lparr>pr_host = ph_id host, pr_key = key, pr_expires = now + 5 * 60000,
                pr_targets = foldl (\<lambda>acc t. put_target (t, checkedAt) acc) [] targets\<rparr>;
           all = delete_where (\<lambda>x. pr_host x = ph_id host) (mo_observations s) @ [r]
       in Inr (s\<lparr>mo_observations := (if 100 < length all then tl all else all)\<rparr>))"

definition getPoolObservations ::
  "(string \<Rightarrow> string) \<Rightarrow> int \<Rightarrow> proxy_host \<Rightarrow> string list \<Rightarrow> monitor_state \<Rightarrow> (pool_observation \<times> int) list result" where
  "getPoolObservations sha now host domains s =
     (case List.find (\<lambda>r. pr_host r = ph_id host) (mo_observations s) of
        None \<Rightarrow> Inr []
      | Some r \<Rightarrow>
          if pr_expires r < now then Inr []
          else rbind (poolObservationKey sha host domains) (\<lambda>key. Inr (if pr_key r = key then pr_targets r else [])))"

section \<open>Reading\<close>

definition monitor_getHost :: "access \<Rightarrow> int \<Rightarrow> string \<Rightarrow> monitor_state \<Rightarrow> proxy_host result" where
  "monitor_getHost acc hostId permission s =
     rbind (acc_can acc (''proxy_hosts:'' @ permission) (JNum hostId)) (\<lambda>grant.
       case List.find (\<lambda>h. ph_id h = hostId \<and> \<not> ph_is_deleted h \<and> (sees_all grant \<or> JNum (ph_owner_user_id h) = acc_user acc 1))
              (i_hosts (mo_inc s)) of
         None \<Rightarrow> Inl (mk_ItemNotFoundError (int_str hostId))
       | Some h \<Rightarrow> Inr h)"

definition newest_first :: "check_row list \<Rightarrow> check_row list" where
  "newest_first rows = rev (sort_key k_id rows)"

record monitor_view =
  mv_config :: "monitor_settings option"
  mv_status :: "public_status option"
  mv_history :: "check_row list"

definition monitor_get :: "access \<Rightarrow> int \<Rightarrow> monitor_state \<Rightarrow> monitor_view result" where
  "monitor_get acc hostId s =
     rbind (monitor_getHost acc hostId ''get'' s) (\<lambda>host.
       Inr (case find_monitor hostId s of
         None \<Rightarrow> \<lparr>mv_config = None, mv_status = None, mv_history = []\<rparr>
       | Some m \<Rightarrow> \<lparr>mv_config = Some (publicConfig m), mv_status = Some (publicStatus m host),
           mv_history = take MAX_HISTORY (newest_first (filter (\<lambda>k. k_host_id k = hostId) (mo_checks s)))\<rparr>))"

definition listStatus :: "access \<Rightarrow> int list \<Rightarrow> monitor_state \<Rightarrow> (int \<times> public_status) list result" where
  "listStatus acc ids s =
     rbind (acc_can acc ''proxy_hosts:list'' Undef) (\<lambda>grant.
       let hosts = filter (\<lambda>h. ph_id h \<in> set ids \<and> \<not> ph_is_deleted h \<and> (sees_all grant \<or> JNum (ph_owner_user_id h) = acc_user acc 1))
             (i_hosts (mo_inc s))
       in Inr (if ids = [] then []
          else map (\<lambda>m. (m_host_id m, publicStatus m (hd (filter (\<lambda>h. ph_id h = m_host_id m) hosts))))
                 (filter (\<lambda>m. m_host_id m \<in> ph_id ` set hosts) (mo_monitors s))))"

section \<open>Storing a check\<close>

definition pruneHistory :: "int \<Rightarrow> int \<Rightarrow> check_row list \<Rightarrow> check_row list" where
  "pruneHistory now hostId checks =
     (let cutoff = now - RETENTION_DAYS * 24 * 60 * 60 * 1000;
          recent = newest_first (filter (\<lambda>k. k_host_id k = hostId \<and> cutoff \<le> k_checked_at k) checks);
          boundary = (if MAX_HISTORY - 1 < length recent then Some (k_id (recent ! (MAX_HISTORY - 1))) else None)
      in delete_where (\<lambda>k. k_host_id k = hostId \<and>
           (k_checked_at k < cutoff \<or> (case boundary of Some b \<Rightarrow> k_id k < b | None \<Rightarrow> False))) checks)"

record native_error =
  ne_client :: string
  ne_errno :: "int option"
  ne_code :: "string option"
  ne_error :: err

definition retryablePersistenceError :: "native_error \<Rightarrow> bool" where
  "retryablePersistenceError e \<longleftrightarrow> (ne_client e = ''mysql'' \<or> ne_client e = ''mysql2'') \<and>
     (case ne_errno e of Some n \<Rightarrow> map_of MYSQL_TRANSACTION_CONFLICTS n | None \<Rightarrow> None) = ne_code e \<and> ne_code e \<noteq> None"

record persisted =
  pe_current :: monitor_row
  pe_host :: proxy_host
  pe_transition :: bool
  pe_alert :: alert_decision
  pe_muted :: bool

definition stored_monitor :: "int \<Rightarrow> monitor_row \<Rightarrow> monitor_row \<Rightarrow> check_result \<Rightarrow> int \<Rightarrow> bool \<Rightarrow> monitor_row \<Rightarrow> monitor_row" where
  "stored_monitor now config current res checkedAt muted m =
     (let alert = decideAlert current (cr_state res) checkedAt
      in m\<lparr>m_state := cr_state res, m_response_ms := Some (cr_response_ms res), m_status_code := cr_status_code res,
           m_message := Some (cr_message res), m_checked_at := Some checkedAt,
           m_last_alert_at := (if muted then m_last_alert_at current else ad_last_alert_at alert),
           m_last_alert_state := (if muted then m_last_alert_state current else ad_last_alert_state alert),
           m_next_check_at := Some (now + m_interval_seconds config * 1000)\<rparr>)"

text \<open>Whether the monitor and the host are still the measured ones.\<close>

definition still_current :: "(string \<Rightarrow> string) \<Rightarrow> int \<Rightarrow> monitor_row \<Rightarrow> string \<Rightarrow> monitor_row \<Rightarrow> proxy_host \<Rightarrow> monitor_state \<Rightarrow> bool" where
  "still_current sha hostId config identity current host s \<longleftrightarrow> \<not> aborted hostId s \<and> m_enabled current \<and> ph_enabled host \<and>
     m_version current = m_version config \<and> probeIdentity sha host (m_type current) (m_path current) = Inr identity"

definition persist_transaction ::
  "(string \<Rightarrow> string) \<Rightarrow> int \<Rightarrow> int \<Rightarrow> monitor_row \<Rightarrow> string \<Rightarrow> check_result \<Rightarrow> int \<Rightarrow> monitor_state \<Rightarrow> (persisted option \<times> monitor_state) result" where
  "persist_transaction sha now hostId config identity res checkedAt s =
     (case (List.find (\<lambda>m. m_id m = m_id config) (mo_monitors s), live_host hostId s) of
        (Some current, Some host) \<Rightarrow>
          rbind (host_pool host) (\<lambda>_.
            let muted = isMuted hostId checkedAt (mo_inc s);
                mine = (\<lambda>m. m_id m = m_id config \<and> m_version m = m_version config)
            in if \<not> still_current sha hostId config identity current host s \<or> count_where mine (mo_monitors s) = 0 then Inr (None, s)
               else
                 let transition = (m_state current \<noteq> cr_state res);
                     row = \<lparr>k_id = mo_check_seq s, k_host_id = hostId, k_checked_at = checkedAt, k_state = cr_state res,
                       k_response_ms = cr_response_ms res, k_status_code = cr_status_code res, k_message = cr_message res,
                       k_transition = transition\<rparr>
                 in rbind (recordCheck host config res checkedAt muted (mo_inc s)) (\<lambda>inc'.
                      Inr (Some \<lparr>pe_current = current, pe_host = host, pe_transition = transition,
                                 pe_alert = decideAlert current (cr_state res) checkedAt, pe_muted = muted\<rparr>,
                        s\<lparr>mo_monitors := patch_where mine (stored_monitor now config current res checkedAt muted) (mo_monitors s),
                          mo_checks := pruneHistory now hostId (mo_checks s @ [row]),
                          mo_check_seq := Suc (mo_check_seq s), mo_inc := inc'\<rparr>)))
      | (None, Some host) \<Rightarrow> rbind (host_pool host) (\<lambda>_. Inr (None, s))
      | _ \<Rightarrow> Inr (None, s))"

function persistCheck ::
  "(string \<Rightarrow> string) \<Rightarrow> (nat \<Rightarrow> native_error option) \<Rightarrow> int \<Rightarrow> nat \<Rightarrow> int \<Rightarrow> monitor_row \<Rightarrow> string \<Rightarrow> check_result \<Rightarrow> int \<Rightarrow> monitor_state \<Rightarrow>
     (persisted option \<times> monitor_state) result" where
  "persistCheck sha fails now n hostId config identity res checkedAt s =
     (if aborted hostId s then Inr (None, s)
      else case fails n of
        None \<Rightarrow> persist_transaction sha now hostId config identity res checkedAt s
      | Some e \<Rightarrow>
          if MAX_PERSIST_ATTEMPTS \<le> n + 1 \<or> \<not> retryablePersistenceError e then Inl (ne_error e)
          else persistCheck sha fails now (Suc n) hostId config identity res checkedAt s)"
  by pat_completeness auto

termination by (relation "measure (\<lambda>(sha, fails, now, n, hostId, config, identity, res, checkedAt, s). MAX_PERSIST_ATTEMPTS - n)") auto

declare persistCheck.simps [simp del]

section \<open>Settings\<close>

definition measurement_fields :: "monitor_settings \<Rightarrow> string \<times> string \<times> int \<times> string option \<times> string option \<times> bool" where
  "measurement_fields m = (ms_type m, ms_path m, ms_expected_status m, ms_upstream_ca m, ms_upstream_server_name m,
     ms_skip_certificate_verification m)"

definition apply_settings :: "monitor_settings \<Rightarrow> monitor_row \<Rightarrow> monitor_row" where
  "apply_settings c m = m\<lparr>m_enabled := ms_enabled c, m_type := ms_type c, m_path := ms_path c, m_interval_seconds := ms_interval_seconds c,
     m_timeout_ms := ms_timeout_ms c, m_expected_status := ms_expected_status c, m_alert_enabled := ms_alert_enabled c,
     m_upstream_ca := ms_upstream_ca c, m_upstream_server_name := ms_upstream_server_name c,
     m_skip_certificate_verification := ms_skip_certificate_verification c\<rparr>"

definition clear_result :: "monitor_row \<Rightarrow> monitor_row" where
  "clear_result m = m\<lparr>m_state := St_unknown, m_checked_at := None, m_response_ms := None, m_status_code := None, m_message := None\<rparr>"

definition clear_alert :: "monitor_row \<Rightarrow> monitor_row" where
  "clear_alert m = m\<lparr>m_last_alert_at := None, m_last_alert_state := None\<rparr>"

definition bump :: "monitor_row \<Rightarrow> monitor_row" where
  "bump m = m\<lparr>m_version := m_version m + 1, m_next_check_at := None\<rparr>"

text \<open>The row a new monitor starts from, before the settings are applied.\<close>

definition blank_monitor :: "nat \<Rightarrow> int \<Rightarrow> monitor_row" where
  "blank_monitor n hostId = \<lparr>m_id = n, m_host_id = hostId, m_enabled = False, m_type = [], m_path = [], m_interval_seconds = 0, m_timeout_ms = 0,
     m_expected_status = 0, m_alert_enabled = False, m_upstream_ca = None, m_upstream_server_name = None,
     m_skip_certificate_verification = False, m_version = 0, m_state = St_unknown, m_checked_at = None, m_next_check_at = None,
     m_response_ms = None, m_status_code = None, m_message = None, m_last_alert_at = None, m_last_alert_state = None\<rparr>"

definition settings_fit :: "proxy_host \<Rightarrow> monitor_settings \<Rightarrow> unit result" where
  "settings_fit host c =
     rbind (rguard (\<not> (ms_skip_certificate_verification c \<and> (ms_type c \<noteq> ''http'' \<or> ph_get host ''forward_scheme'' \<noteq> JStr ''https'')))
       (ValidationError ''Skipping certificate verification requires an HTTPS upstream check'')) (\<lambda>_.
     rbind (rguard (\<not> (ms_enabled c \<and> ms_type c = ''http'' \<and> \<not> http_scheme (ph_columns host)))
       (ValidationError ''HTTP checks require an HTTP or HTTPS upstream'')) (\<lambda>_.
     rguard (\<not> (ms_enabled c \<and> resolveTarget host (ms_type c) (ms_path c) = None))
       (ValidationError ''Monitoring requires a TCP upstream; file and Unix socket targets are unsupported'')))"

definition restart_needed :: "monitor_row option \<Rightarrow> monitor_settings \<Rightarrow> bool" where
  "restart_needed existing c = (case existing of None \<Rightarrow> True
     | Some m \<Rightarrow> measurement_fields (publicConfig m) \<noteq> measurement_fields c \<or> m_enabled m \<noteq> ms_enabled c)"

definition measurement_changed :: "monitor_row option \<Rightarrow> monitor_settings \<Rightarrow> bool" where
  "measurement_changed existing c = (case existing of None \<Rightarrow> True | Some m \<Rightarrow> measurement_fields (publicConfig m) \<noteq> measurement_fields c)"

definition next_row :: "monitor_row option \<Rightarrow> monitor_settings \<Rightarrow> monitor_row \<Rightarrow> monitor_row" where
  "next_row existing c m =
     (let m1 = bump (apply_settings c m);
          m2 = (if restart_needed existing c then clear_result m1 else m1)
      in if restart_needed existing c \<or> (case existing of Some e \<Rightarrow> m_alert_enabled e \<noteq> ms_alert_enabled c | None \<Rightarrow> True)
         then clear_alert m2 else m2)"

text \<open>The writes of \<open>update\<close> for accepted settings.\<close>

definition put_settings :: "int \<Rightarrow> int \<Rightarrow> monitor_settings \<Rightarrow> monitor_state \<Rightarrow> monitor_state result" where
  "put_settings now hostId c s0 =
     (let existing = find_monitor hostId s0;
          s = clearPoolObservations hostId (abort_check hostId s0);
          stored = (case existing of
             Some e \<Rightarrow>
               (let mine = (\<lambda>m. m_id m = m_id e \<and> m_version m = m_version e)
                in if count_where mine (mo_monitors s) = 0 then Inl (ValidationError ''Monitor settings changed; reload before saving'')
                   else Inr (s\<lparr>mo_monitors := patch_where mine (next_row existing c) (mo_monitors s)\<rparr>))
           | None \<Rightarrow> Inr (s\<lparr>mo_monitors := mo_monitors s @ [next_row None c (blank_monitor (mo_monitor_seq s) hostId)],
                         mo_monitor_seq := Suc (mo_monitor_seq s)\<rparr>))
      in rbind stored (\<lambda>t.
           Inr (if restart_needed existing c
                then t\<lparr>mo_inc := resetHost now hostId (mo_inc t),
                       mo_checks := (if measurement_changed existing c then delete_where (\<lambda>k. k_host_id k = hostId) (mo_checks t) else mo_checks t)\<rparr>
                else t)))"

text \<open>The answer is read after the write, with its own permission check.\<close>

definition monitor_update ::
  "(string \<Rightarrow> bool) \<Rightarrow> access \<Rightarrow> int \<Rightarrow> int \<Rightarrow> jsval \<Rightarrow> bool \<Rightarrow> monitor_state \<Rightarrow> monitor_view result \<times> monitor_state" where
  "monitor_update x509 acc now hostId data skipAutoPush s =
     (case rbind (monitor_getHost acc hostId ''update'' s) (\<lambda>host.
           rbind (assertMonitorConfig x509 data) (\<lambda>c.
           rbind (settings_fit host c) (\<lambda>_. put_settings now hostId c s))) of
        Inl e \<Rightarrow> (Inl e, s)
      | Inr t \<Rightarrow>
          (let u = (if skipAutoPush then t else t\<lparr>mo_pushes := mo_pushes t @ [''proxy-host-monitor'']\<rparr>)
           in (monitor_get acc hostId u, u)))"

section \<open>Running a check\<close>

definition run_claim :: "int \<Rightarrow> monitor_state \<Rightarrow> monitor_state option" where
  "run_claim hostId s =
     (if is_active hostId s \<or> MAX_CONCURRENT \<le> length (mo_active s) then None
      else Some (s\<lparr>mo_active := mo_active s @ [(hostId, False)]\<rparr>))"

definition run_release :: "int \<Rightarrow> monitor_state \<Rightarrow> monitor_state" where
  "run_release hostId s = s\<lparr>mo_active := filter (\<lambda>a. fst a \<noteq> hostId) (mo_active s)\<rparr>"

text \<open>What a check reads before it measures.\<close>

record check_plan =
  pl_config :: monitor_row
  pl_host :: proxy_host
  pl_pool :: "pool option"
  pl_identity :: string

definition pool_enabled :: "pool option \<Rightarrow> bool" where
  "pool_enabled p \<longleftrightarrow> (case p of Some q \<Rightarrow> up_enabled q | None \<Rightarrow> False)"

definition run_read :: "(string \<Rightarrow> string) \<Rightarrow> int \<Rightarrow> monitor_state \<Rightarrow> check_plan option result" where
  "run_read sha hostId s =
     (case (find_monitor hostId s, live_host hostId s) of
        (Some config, Some host) \<Rightarrow>
          if \<not> m_enabled config \<or> \<not> ph_enabled host then Inr None
          else
            rbind (host_pool host) (\<lambda>p.
            rbind (probeIdentity sha host (m_type config) (m_path config)) (\<lambda>identity.
              Inr (Some \<lparr>pl_config = config, pl_host = host, pl_pool = p, pl_identity = identity\<rparr>)))
      | _ \<Rightarrow> Inr None)"

definition plan_target :: "check_plan \<Rightarrow> alert_target option" where
  "plan_target pl =
     (case pl_pool pl of
        Some p \<Rightarrow> if up_enabled p then Some (Pool_target (ph_get (pl_host pl) ''forward_scheme'') (length (up_targets p)))
                  else map_option Host_target (resolveTarget (pl_host pl) (m_type (pl_config pl)) (m_path (pl_config pl)))
      | None \<Rightarrow> map_option Host_target (resolveTarget (pl_host pl) (m_type (pl_config pl)) (m_path (pl_config pl))))"

definition probe_settings :: "monitor_row \<Rightarrow> string \<Rightarrow> probe_config" where
  "probe_settings c path = \<lparr>pc_path = path, pc_timeout_ms = m_timeout_ms c, pc_expected_status = m_expected_status c,
     pc_upstream_ca = m_upstream_ca c, pc_upstream_server_name = m_upstream_server_name c,
     pc_skip_certificate_verification = m_skip_certificate_verification c, pc_host_header = None\<rparr>"

definition unsupported_result :: check_result where
  "unsupported_result = \<lparr>cr_state = St_down, cr_response_ms = 0, cr_status_code = None, cr_message = ''Unsupported upstream''\<rparr>"

definition run_measure :: "probe_io \<Rightarrow> check_plan \<Rightarrow> (check_result \<times> pool_observation list option) option" where
  "run_measure io pl =
     (let c = pl_config pl
      in case pl_pool pl of
           Some p \<Rightarrow>
             if up_enabled p
             then map_option (\<lambda>(r, obs). (r, Some obs))
                    (probePool io (ph_get (pl_host pl) ''forward_scheme'') (pool_domains (pl_host pl) (pl_pool pl)) (m_type c) (probe_settings c (m_path c)) p)
             else (case resolveTarget (pl_host pl) (m_type c) (m_path c) of
                None \<Rightarrow> Some (unsupported_result, None)
              | Some t \<Rightarrow> map_option (\<lambda>r. (r, None)) (probe_one io (m_type c) 0 t (probe_settings c (tg_path t))))
         | None \<Rightarrow> (case resolveTarget (pl_host pl) (m_type c) (m_path c) of
                None \<Rightarrow> Some (unsupported_result, None)
              | Some t \<Rightarrow> map_option (\<lambda>r. (r, None)) (probe_one io (m_type c) 0 t (probe_settings c (tg_path t)))))"

definition check_finding :: "check_row \<Rightarrow> finding" where
  "check_finding k = \<lparr>fd_id = Some (k_id k), fd_state = k_state k, fd_checked_at = Some (k_checked_at k), fd_status_code = k_status_code k,
     fd_message = Some (k_message k)\<rparr>"

definition monitor_finding :: "monitor_row \<Rightarrow> finding" where
  "monitor_finding m = \<lparr>fd_id = None, fd_state = m_state m, fd_checked_at = m_checked_at m, fd_status_code = m_status_code m, fd_message = m_message m\<rparr>"

text \<open>The failures a recovery reports: the one that was announced, and the last one when it is another.\<close>

definition priorFindings :: "int \<Rightarrow> monitor_row \<Rightarrow> check_row list \<Rightarrow> finding option \<times> finding option" where
  "priorFindings hostId current checks =
     (let down = filter (\<lambda>k. k_host_id k = hostId \<and> k_state k = St_down) checks;
          initial = (case m_last_alert_at current of
             Some t \<Rightarrow> (case sort_key k_id (filter (\<lambda>k. k_checked_at k = t) down) of k # _ \<Rightarrow> Some k | [] \<Rightarrow> None)
           | None \<Rightarrow> None);
          since = filter (\<lambda>k. case m_last_alert_at current of Some t \<Rightarrow> t \<le> k_checked_at k | None \<Rightarrow> True) down;
          latest = (case rev (sort_key (\<lambda>k. (k_checked_at k, k_id k)) since) of k # _ \<Rightarrow> Some k | [] \<Rightarrow> None)
      in (map_option check_finding initial,
          case latest of
            Some k \<Rightarrow> if map_option k_id initial = Some (k_id k) then None else Some (check_finding k)
          | None \<Rightarrow> if m_state current = St_down then Some (monitor_finding current) else None))"

definition run_alert :: "int \<Rightarrow> check_plan \<Rightarrow> check_result \<Rightarrow> int \<Rightarrow> persisted \<Rightarrow> monitor_state \<Rightarrow> monitor_state" where
  "run_alert hostId pl res checkedAt pe s =
     (if ad_send (pe_alert pe) \<and> \<not> pe_muted pe
      then let findings = (if cr_state res = St_up \<and> m_last_alert_state (pe_current pe) = Some St_down
                 then priorFindings hostId (pe_current pe) (mo_checks s) else (None, None))
           in s\<lparr>mo_alerts := mo_alerts s @ [(ph_owner_user_id (pe_host pe),
                formatHostMonitorAlert hostId (pl_config pl) (plan_target pl) res (fst findings) (snd findings)
                  (take 3 (ph_host_domains (pe_host pe))) checkedAt)]\<rparr>
      else s)"

record run_result =
  rr_result :: check_result
  rr_checked_at :: int
  rr_transition :: bool

definition run_commit ::
  "(string \<Rightarrow> string) \<Rightarrow> (nat \<Rightarrow> native_error option) \<Rightarrow> int \<Rightarrow> int \<Rightarrow> check_plan \<Rightarrow> check_result \<times> pool_observation list option \<Rightarrow> monitor_state \<Rightarrow>
     (run_result option \<times> monitor_state) result" where
  "run_commit sha fails now hostId pl measured s =
     (if aborted hostId s then Inr (None, s)
      else
        rbind (persistCheck sha fails now 0 hostId (pl_config pl) (pl_identity pl) (fst measured) now s) (\<lambda>(pe, t).
          case pe of
            None \<Rightarrow> Inr (None, t)
          | Some x \<Rightarrow>
              rbind (case snd measured of
                  Some obs \<Rightarrow> recordPoolObservations sha now (pl_host pl) (pool_domains (pl_host pl) (pl_pool pl)) obs now t
                | None \<Rightarrow> Inr t) (\<lambda>u.
                Inr (Some \<lparr>rr_result = fst measured, rr_checked_at = now, rr_transition = pe_transition x\<rparr>,
                     run_alert hostId pl (fst measured) now x u))))"

text \<open>An error of a phase leaves the check released; a measurement that never ends is \<open>None\<close>.\<close>

definition run ::
  "(string \<Rightarrow> string) \<Rightarrow> (nat \<Rightarrow> native_error option) \<Rightarrow> probe_io \<Rightarrow> int \<Rightarrow> int \<Rightarrow> monitor_state \<Rightarrow> (run_result option result \<times> monitor_state) option" where
  "run sha fails io now hostId s0 =
     (case run_claim hostId s0 of
        None \<Rightarrow> Some (Inr None, s0)
      | Some s \<Rightarrow>
          (case run_read sha hostId s of
             Inl e \<Rightarrow> Some (Inl e, run_release hostId s)
           | Inr None \<Rightarrow> Some (Inr None, run_release hostId s)
           | Inr (Some pl) \<Rightarrow>
               (case run_measure io pl of
                  None \<Rightarrow> None
                | Some measured \<Rightarrow>
                    (case run_commit sha fails now hostId pl measured s of
                       Inl e \<Rightarrow> Some (Inl e, run_release hostId s)
                     | Inr (r, t) \<Rightarrow> Some (Inr r, run_release hostId t)))))"

definition monitor_check ::
  "(string \<Rightarrow> string) \<Rightarrow> (nat \<Rightarrow> native_error option) \<Rightarrow> probe_io \<Rightarrow> access \<Rightarrow> int \<Rightarrow> int \<Rightarrow> monitor_state \<Rightarrow> (run_result option result \<times> monitor_state) option" where
  "monitor_check sha fails io acc now hostId s =
     (case monitor_getHost acc hostId ''update'' s of
        Inl e \<Rightarrow> Some (Inl e, s)
      | Inr host \<Rightarrow>
          if \<not> ph_enabled host then Some (Inl (ValidationError ''Enable the proxy host before running a check''), s)
          else if \<not> (case find_monitor hostId s of Some m \<Rightarrow> m_enabled m | None \<Rightarrow> False)
          then Some (Inl (ValidationError ''Enable monitoring before running a check''), s)
          else if is_active hostId s then Some (Inl (ValidationError ''A check is already running''), s)
          else if MAX_CONCURRENT \<le> length (mo_active s) then Some (Inl (ValidationError ''Too many checks are running''), s)
          else run sha fails io now hostId s)"

section \<open>Removing and resetting\<close>

definition monitor_removeHost :: "int \<Rightarrow> monitor_state \<Rightarrow> monitor_state" where
  "monitor_removeHost hostId s0 =
     (let s = clearPoolObservations hostId (abort_check hostId s0)
      in s\<lparr>mo_checks := delete_where (\<lambda>k. k_host_id k = hostId) (mo_checks s),
           mo_inc := removeHost hostId (mo_inc s),
           mo_monitors := delete_where (\<lambda>m. m_host_id m = hostId) (mo_monitors s)\<rparr>)"

definition reset_row :: "bool \<Rightarrow> monitor_row \<Rightarrow> monitor_row" where
  "reset_row unsupported m =
     (let m1 = clear_alert (clear_result (bump (m\<lparr>m_skip_certificate_verification := False\<rparr>)))
      in if unsupported then m1\<lparr>m_enabled := False\<rparr> else m1)"

definition monitor_resetHost :: "int \<Rightarrow> int \<Rightarrow> bool \<Rightarrow> monitor_state \<Rightarrow> monitor_state" where
  "monitor_resetHost now hostId disableUnsupported s0 =
     (let s = clearPoolObservations hostId (abort_check hostId s0)
      in case find_monitor hostId s of
           None \<Rightarrow> s
         | Some m \<Rightarrow>
             (let unsupported = (disableUnsupported \<and>
                    (case live_host hostId s of None \<Rightarrow> True | Some h \<Rightarrow> resolveTarget h (m_type m) (m_path m) = None))
              in s\<lparr>mo_monitors := patch_where (\<lambda>x. m_id x = m_id m) (reset_row unsupported) (mo_monitors s),
                   mo_checks := delete_where (\<lambda>k. k_host_id k = hostId) (mo_checks s),
                   mo_inc := resetHost now hostId (mo_inc s)\<rparr>))"

section \<open>The scheduler\<close>

definition retention_cleanup :: "int \<Rightarrow> monitor_state \<Rightarrow> monitor_state" where
  "retention_cleanup now s0 =
     (if now - mo_last_cleanup s0 < RETENTION_CLEANUP_MS then s0
      else
        (let s = s0\<lparr>mo_last_cleanup := now,
                  mo_checks := delete_where (\<lambda>k. k_checked_at k < now - RETENTION_DAYS * RETENTION_CLEANUP_MS) (mo_checks s0)\<rparr>;
             deleted = take 200 (filter (\<lambda>m. live_host (m_host_id m) s = None) (mo_monitors s))
         in foldl (\<lambda>t m. monitor_removeHost (m_host_id m) t) s deleted))"

text \<open>Monitors that were never checked since their last change come first; ties are broken by the host.\<close>

definition due_order :: "monitor_row \<Rightarrow> bool \<times> int \<times> int" where
  "due_order m = (case m_next_check_at m of None \<Rightarrow> (False, 0, m_host_id m) | Some t \<Rightarrow> (True, t, m_host_id m))"

definition due_monitors :: "int \<Rightarrow> monitor_state \<Rightarrow> monitor_row list" where
  "due_monitors now s =
     take (MAX_SCHEDULED_CHECKS_PER_TICK + length (mo_active s))
       (sort_key due_order (filter (\<lambda>m. m_enabled m \<and> (case live_host (m_host_id m) s of Some h \<Rightarrow> ph_enabled h | None \<Rightarrow> False) \<and>
          (case m_next_check_at m of None \<Rightarrow> True | Some t \<Rightarrow> t \<le> now)) (mo_monitors s)))"

definition tick_candidates :: "int \<Rightarrow> monitor_state \<Rightarrow> int list" where
  "tick_candidates now s =
     take MAX_SCHEDULED_CHECKS_PER_TICK (filter (\<lambda>h. \<not> is_active h s) (map m_host_id (due_monitors now s)))"

text \<open>The schedule of one worker: each check ends before the next starts, and a failed check is logged and skipped.
  \<open>generation\<close> is the number of restarts when the scan began.\<close>

fun worker ::
  "(string \<Rightarrow> string) \<Rightarrow> (nat \<Rightarrow> native_error option) \<Rightarrow> (int \<Rightarrow> probe_io) \<Rightarrow> int \<Rightarrow> nat \<Rightarrow> int list \<Rightarrow> monitor_state \<Rightarrow> monitor_state option" where
  "worker sha fails io now generation [] s = Some s"
| "worker sha fails io now generation (h # hs) s =
     (if generation \<noteq> mo_generation s then Some s
      else case run sha fails (io h) now h s of
        None \<Rightarrow> None
      | Some (r, t) \<Rightarrow> worker sha fails io now generation hs t)"

definition monitor_tick ::
  "(string \<Rightarrow> string) \<Rightarrow> (nat \<Rightarrow> native_error option) \<Rightarrow> (int \<Rightarrow> probe_io) \<Rightarrow> int \<Rightarrow> monitor_state \<Rightarrow> monitor_state option" where
  "monitor_tick sha fails io now s0 =
     (if mo_scanning s0 \<or> MAX_CONCURRENT \<le> length (mo_active s0) then Some s0
      else
        (let s = retention_cleanup now (s0\<lparr>mo_scanning := True\<rparr>)
         in map_option (\<lambda>t. t\<lparr>mo_scanning := False\<rparr>) (worker sha fails io now (mo_generation s0) (tick_candidates now s) s)))"

definition monitor_init ::
  "(string \<Rightarrow> string) \<Rightarrow> (nat \<Rightarrow> native_error option) \<Rightarrow> (int \<Rightarrow> probe_io) \<Rightarrow> int \<Rightarrow> monitor_state \<Rightarrow> monitor_state option" where
  "monitor_init sha fails io now s =
     (if mo_timer s then Some s else monitor_tick sha fails io now (s\<lparr>mo_timer := True\<rparr>))"

definition monitor_stop :: "monitor_state \<Rightarrow> monitor_state" where
  "monitor_stop s = s\<lparr>mo_timer := False, mo_last_cleanup := 0, mo_generation := Suc (mo_generation s),
     mo_active := map (\<lambda>a. (fst a, True)) (mo_active s)\<rparr>"

end
