(* ===== verification/Monitor_Props.thy ===== *)
theory Monitor_Props
  imports Monitor_Service
begin

text \<open>
  The health monitor as a transition system: any number of checks in flight, interleaved with changes of the settings,
  of the hosts and of the incident centre.
\<close>

interpretation monitor_table: keyed_table m_id "{f. \<forall>x. m_id (f x) = m_id x}"
  by unfold_locales simp

interpretation check_table: keyed_table k_id "{f. \<forall>x. k_id (f x) = k_id x}"
  by unfold_locales simp

section \<open>Steps\<close>

text \<open>The phases of checks are separate steps, with any plan and any measurement; other components may change the
  database of the hosts and incidents at any time.\<close>

inductive mon_step :: "(string \<Rightarrow> string) \<Rightarrow> (string \<Rightarrow> bool) \<Rightarrow> monitor_state \<Rightarrow> monitor_state \<Rightarrow> bool" for sha x509 where
  s_claim: "run_claim h s = Some t \<Longrightarrow> mon_step sha x509 s t"
| s_commit: "run_commit sha fails now h pl measured s = Inr (r, t) \<Longrightarrow> mon_step sha x509 s t"
| s_release: "mon_step sha x509 s (run_release h s)"
| s_update: "monitor_update x509 acc now h data b s = (r, t) \<Longrightarrow> mon_step sha x509 s t"
| s_reset: "mon_step sha x509 s (monitor_resetHost now h b s)"
| s_remove: "mon_step sha x509 s (monitor_removeHost h s)"
| s_cleanup: "mon_step sha x509 s (retention_cleanup now s)"
| s_stop: "mon_step sha x509 s (monitor_stop s)"
| s_flags: "mon_step sha x509 s (s\<lparr>mo_timer := b, mo_scanning := c\<rparr>)"
| s_others: "mon_step sha x509 s (s\<lparr>mo_inc := db\<rparr>)"

definition mon_empty :: "incident_db \<Rightarrow> monitor_state" where
  "mon_empty db = \<lparr>mo_monitors = [], mo_checks = [], mo_inc = db, mo_monitor_seq = 1, mo_check_seq = 1, mo_active = [], mo_observations = [],
     mo_timer = False, mo_scanning = False, mo_last_cleanup = 0, mo_generation = 0, mo_alerts = [], mo_pushes = []\<rparr>"

definition mon_reachable :: "(string \<Rightarrow> string) \<Rightarrow> (string \<Rightarrow> bool) \<Rightarrow> monitor_state \<Rightarrow> bool" where
  "mon_reachable sha x509 s \<longleftrightarrow> (\<exists>db. (mon_step sha x509)\<^sup>*\<^sup>* (mon_empty db) s)"

section \<open>History\<close>

definition host_rows :: "int \<Rightarrow> check_row list \<Rightarrow> check_row list" where
  "host_rows h rows = filter (\<lambda>k. k_host_id k = h) rows"

lemma sorted_desc_prefix:
  fixes L :: "'a list" and key :: "'a \<Rightarrow> nat"
  assumes "distinct (map key L)" and "sorted (map key (rev L))" and "n < length L" and "x \<in> set L" and "key (L ! n) \<le> key x"
  shows "x \<in> set (take (Suc n) L)"
proof -
  from assms(4) obtain j where j: "j < length L" "x = L ! j" by (auto simp: in_set_conv_nth)
  have "j \<le> n"
  proof (rule ccontr)
    assume "\<not> j \<le> n"
    with j(1) have "length L - Suc j \<le> length L - Suc n" "length L - Suc n < length (map key (rev L))" by auto
    from sorted_nth_mono [OF assms(2) this] j(1) assms(3) have "key (L ! j) \<le> key (L ! n)" by (simp add: rev_nth)
    with assms(5) j(2) have "map key L ! j = map key L ! n" using j(1) assms(3) by simp
    with nth_eq_iff_index_eq [OF assms(1), of j n] assms(3) j(1) \<open>\<not> j \<le> n\<close> show False by simp
  qed
  with j show ?thesis by (auto simp: in_set_conv_nth)
qed

lemma newest_first_facts:
  "set (newest_first rows) = set rows" "distinct (map k_id rows) \<Longrightarrow> distinct (map k_id (newest_first rows))"
  "sorted (map k_id (rev (newest_first rows)))" "length (newest_first rows) = length rows"
  by (simp_all add: newest_first_def rev_map [symmetric] distinct_map)

lemma pruneHistory_host:
  assumes "distinct (map k_id checks)"
  shows "length (host_rows h (pruneHistory now h checks)) \<le> MAX_HISTORY"
proof -
  define cutoff where "cutoff = now - RETENTION_DAYS * 24 * 60 * 60 * 1000"
  define recent where "recent = filter (\<lambda>k. k_host_id k = h \<and> cutoff \<le> k_checked_at k) checks"
  define L where "L = newest_first recent"
  have d: "distinct (map k_id recent)" unfolding recent_def using assms by (rule distinct_map_filter)
  have L: "set L = set recent" "distinct (map k_id L)" "sorted (map k_id (rev L))" "length L = length recent"
    unfolding L_def using newest_first_facts [of recent] d by simp_all
  define rest where "rest = host_rows h (pruneHistory now h checks)"
  have rest: "distinct rest" "set rest \<subseteq> set recent" "MAX_HISTORY - 1 < length L \<Longrightarrow> \<forall>k \<in> set rest. k_id (L ! (MAX_HISTORY - 1)) \<le> k_id k"
    using assms unfolding rest_def host_rows_def pruneHistory_def Let_def cutoff_def [symmetric] recent_def [symmetric] L_def [symmetric]
    by (auto simp: recent_def distinct_map delete_where_def)
  show ?thesis
  proof (cases "MAX_HISTORY - 1 < length L")
    case True
    have "set rest \<subseteq> set (take MAX_HISTORY L)"
      using sorted_desc_prefix [OF L(2,3) True] rest(2,3) True L(1) by (auto simp: MAX_HISTORY_def)
    then have "card (set rest) \<le> card (set (take MAX_HISTORY L))" by (simp add: card_mono)
    also have "\<dots> \<le> MAX_HISTORY" using card_length [of "take MAX_HISTORY L"] by simp
    finally show ?thesis using rest(1) by (simp add: rest_def distinct_card)
  next
    case False
    have "card (set rest) \<le> card (set L)" using rest(2) L(1) by (simp add: card_mono)
    also have "\<dots> \<le> length L" by (rule card_length)
    finally show ?thesis using False rest(1) by (simp add: rest_def distinct_card)
  qed
qed

lemma pruneHistory_others: "h' \<noteq> h \<Longrightarrow> host_rows h' (pruneHistory now h checks) = host_rows h' checks"
  unfolding pruneHistory_def host_rows_def Let_def delete_where_def by (auto intro!: filter_cong)

lemma pruneHistory_delete: "\<exists>P. pruneHistory now h checks = delete_where P checks"
  unfolding pruneHistory_def Let_def by blast

lemma pruneHistory_recent: "k \<in> set (pruneHistory now h checks) \<Longrightarrow> k_host_id k = h \<Longrightarrow> now - RETENTION_DAYS * 24 * 60 * 60 * 1000 \<le> k_checked_at k"
  by (auto simp: pruneHistory_def Let_def)

lemma host_rows_delete: "length (host_rows h (delete_where P rows)) \<le> length (host_rows h rows)"
  unfolding host_rows_def delete_where_def by (induction rows) auto

section \<open>Changes of the tables\<close>

text \<open>Every operation changes the monitors by patches that keep identifier and host and never lower the version, by the insertion of
  a monitor for a host without one, and by deletions.\<close>

definition keeps_row :: "(monitor_row \<Rightarrow> monitor_row) \<Rightarrow> bool" where
  "keeps_row f \<longleftrightarrow> (\<forall>m. m_id (f m) = m_id m \<and> m_host_id (f m) = m_host_id m \<and> m_version m \<le> m_version (f m))"

inductive monitors_change :: "monitor_row list \<times> nat \<Rightarrow> monitor_row list \<times> nat \<Rightarrow> bool" where
  mc_patch: "keeps_row f \<Longrightarrow> monitors_change (ms, n) (patch_where P f ms, n)"
| mc_insert: "m_id m = n \<Longrightarrow> m_host_id m \<notin> m_host_id ` set ms \<Longrightarrow> monitors_change (ms, n) (ms @ [m], Suc n)"
| mc_delete: "monitors_change (ms, n) (delete_where P ms, n)"

text \<open>The history grows by one pruned row or shrinks.\<close>

inductive checks_change :: "check_row list \<times> nat \<Rightarrow> check_row list \<times> nat \<Rightarrow> bool" where
  cc_insert: "k_id k = n \<Longrightarrow> checks_change (ks, n) (pruneHistory now (k_host_id k) (ks @ [k]), Suc n)"
| cc_delete: "checks_change (ks, n) (delete_where P ks, n)"

definition monitors_ok :: "monitor_row list \<times> nat \<Rightarrow> bool" where
  "monitors_ok x \<longleftrightarrow> monitor_table.keys_ok (fst x) (snd x) \<and> distinct (map m_host_id (fst x))"

definition checks_ok :: "check_row list \<times> nat \<Rightarrow> bool" where
  "checks_ok x \<longleftrightarrow> check_table.keys_ok (fst x) (snd x) \<and> (\<forall>h. length (host_rows h (fst x)) \<le> MAX_HISTORY)"

text \<open>A version of a monitor that is gone for good: the row, which belongs to one host, was deleted or has a higher version.\<close>

definition outdated :: "monitor_row list \<times> nat \<Rightarrow> nat \<times> int \<times> int \<Rightarrow> bool" where
  "outdated x k \<longleftrightarrow> (case k of (i, h, v) \<Rightarrow> i < snd x \<and> (\<forall>m \<in> set (fst x). m_id m = i \<longrightarrow> m_host_id m = h \<and> v < m_version m))"

lemma monitors_change_ok: "monitors_change x y \<Longrightarrow> monitors_ok x \<Longrightarrow> monitors_ok y"
proof (induction rule: monitors_change.induct)
  case (mc_patch f ms n P)
  then have "map m_host_id (patch_where P f ms) = map m_host_id ms" by (simp add: patch_where_def keeps_row_def)
  with mc_patch monitor_table.keys_ok_patch [of f ms n P] show ?case by (simp add: monitors_ok_def keeps_row_def)
next
  case (mc_insert m n ms)
  with monitor_table.keys_ok_insert [of ms n m] show ?case by (auto simp: monitors_ok_def)
next
  case (mc_delete ms n P)
  with monitor_table.keys_ok_delete [of ms n P] show ?case by (simp add: monitors_ok_def delete_where_def distinct_map_filter)
qed

lemma monitors_change_outdated: "monitors_change x y \<Longrightarrow> outdated x k \<Longrightarrow> outdated y k"
proof (induction rule: monitors_change.induct)
  case (mc_patch f ms n P)
  then have f: "m_id (f m) = m_id m" "m_host_id (f m) = m_host_id m" "m_version m \<le> m_version (f m)" for m by (simp_all add: keeps_row_def)
  have "v < m_version (f m)" if "v < m_version m" for v m using that f(3) [of m] by simp
  with mc_patch.prems f(1,2) show ?case by (auto simp: outdated_def tbl_simps split: prod.splits)
next
  case (mc_insert m n ms)
  then show ?case by (auto simp: outdated_def)
next
  case (mc_delete ms n P)
  then show ?case by (auto simp: outdated_def)
qed

lemma checks_change_ok: "checks_change x y \<Longrightarrow> checks_ok x \<Longrightarrow> checks_ok y"
proof (induction rule: checks_change.induct)
  case (cc_insert k n ks now)
  let ?rows = "ks @ [k]" and ?h = "k_host_id k"
  have k: "check_table.keys_ok ?rows (Suc n)" using cc_insert check_table.keys_ok_insert [of ks n k] by (simp add: checks_ok_def)
  then have d: "distinct (map k_id ?rows)" by (simp only: check_table.keys_ok_def)
  obtain P where P: "pruneHistory now ?h ?rows = delete_where P ?rows" using pruneHistory_delete by blast
  have "length (host_rows h (pruneHistory now ?h ?rows)) \<le> MAX_HISTORY" for h
  proof (cases "h = ?h")
    case True
    with pruneHistory_host [OF d] show ?thesis by simp
  next
    case False
    with pruneHistory_others [OF False] cc_insert.prems show ?thesis by (simp add: checks_ok_def host_rows_def)
  qed
  with check_table.keys_ok_delete [OF k, of P] show ?case by (simp add: checks_ok_def P)
next
  case (cc_delete ks n P)
  with check_table.keys_ok_delete [of ks n P] host_rows_delete [of _ P ks] show ?case
    by (auto simp: checks_ok_def intro: order_trans)
qed

lemma changes_ok: "monitors_change\<^sup>*\<^sup>* x y \<Longrightarrow> monitors_ok x \<Longrightarrow> monitors_ok y"
  "checks_change\<^sup>*\<^sup>* u v \<Longrightarrow> checks_ok u \<Longrightarrow> checks_ok v"
  "monitors_change\<^sup>*\<^sup>* x y \<Longrightarrow> outdated x k \<Longrightarrow> outdated y k"
  by (induction rule: rtranclp_induct; blast dest: monitors_change_ok checks_change_ok monitors_change_outdated)+

section \<open>Effects of the operations\<close>

abbreviation mons :: "monitor_state \<Rightarrow> monitor_row list \<times> nat" where
  "mons s \<equiv> (mo_monitors s, mo_monitor_seq s)"

abbreviation chks :: "monitor_state \<Rightarrow> check_row list \<times> nat" where
  "chks s \<equiv> (mo_checks s, mo_check_seq s)"

definition changes :: "monitor_state \<Rightarrow> monitor_state \<Rightarrow> bool" where
  "changes s t \<longleftrightarrow> monitors_change\<^sup>*\<^sup>* (mons s) (mons t) \<and> checks_change\<^sup>*\<^sup>* (chks s) (chks t)"

definition flight_ok :: "monitor_state \<Rightarrow> bool" where
  "flight_ok s \<longleftrightarrow> distinct (map fst (mo_active s)) \<and> length (mo_active s) \<le> MAX_CONCURRENT"

definition memory_ok :: "monitor_state \<Rightarrow> bool" where
  "memory_ok s \<longleftrightarrow> distinct (map pr_host (mo_observations s)) \<and> length (mo_observations s) \<le> 100"

lemma changes_refl: "mons t = mons s \<Longrightarrow> chks t = chks s \<Longrightarrow> changes s t"
  by (simp add: changes_def)

lemma changes_trans: "changes s t \<Longrightarrow> changes t u \<Longrightarrow> changes s u"
  unfolding changes_def by (meson rtranclp_trans)

lemma changes_one: "monitors_change (mons s) (mons t) \<Longrightarrow> checks_change (chks s) (chks t) \<Longrightarrow> changes s t"
  unfolding changes_def by blast

lemma checks_keep: "checks_change (ks, n) (ks, n)"
  using cc_delete [of ks n "\<lambda>_. False"] by (simp add: delete_where_def)

lemma monitors_keep: "monitors_change (ms, n) (ms, n)"
  using mc_delete [of ms n "\<lambda>_. False"] by (simp add: delete_where_def)

lemma keeps_row_settings: "keeps_row (next_row e c)" "keeps_row (reset_row u)" "keeps_row (stored_monitor now config current res t muted)"
  by (simp_all add: keeps_row_def next_row_def reset_row_def stored_monitor_def bump_def apply_settings_def clear_result_def clear_alert_def Let_def)

lemma abort_clear_frame:
  defines "u h s \<equiv> clearPoolObservations h (abort_check h s)"
  shows "mo_monitors (u h s) = mo_monitors s" "mo_monitor_seq (u h s) = mo_monitor_seq s" "mo_checks (u h s) = mo_checks s"
    "mo_check_seq (u h s) = mo_check_seq s" "flight_ok (u h s) = flight_ok s" "memory_ok s \<Longrightarrow> memory_ok (u h s)"
proof -
  have m: "map fst (map (\<lambda>a. if fst a = h then (h, True) else a) xs) = map fst xs" for xs :: "(int \<times> bool) list" by simp
  show "flight_ok (u h s) = flight_ok s" by (simp add: u_def flight_ok_def clearPoolObservations_def abort_check_def m del: map_map)
  show "memory_ok s \<Longrightarrow> memory_ok (u h s)"
    by (auto simp: u_def memory_ok_def clearPoolObservations_def abort_check_def delete_where_def distinct_map_filter intro: order_trans [OF length_filter_le])
qed (simp_all add: u_def clearPoolObservations_def abort_check_def)

lemma removeHost_changes:
  "changes s (monitor_removeHost h s)" "flight_ok s \<Longrightarrow> flight_ok (monitor_removeHost h s)" "memory_ok s \<Longrightarrow> memory_ok (monitor_removeHost h s)"
proof -
  show "changes s (monitor_removeHost h s)"
    by (rule changes_one) (simp_all add: monitor_removeHost_def Let_def abort_clear_frame mc_delete cc_delete)
  show "flight_ok s \<Longrightarrow> flight_ok (monitor_removeHost h s)" "memory_ok s \<Longrightarrow> memory_ok (monitor_removeHost h s)"
    using abort_clear_frame(5,6) [where h = h and s = s] by (simp_all add: monitor_removeHost_def Let_def flight_ok_def memory_ok_def)
qed

lemma resetHost_changes:
  "changes s (monitor_resetHost now h b s)" "flight_ok s \<Longrightarrow> flight_ok (monitor_resetHost now h b s)"
  "memory_ok s \<Longrightarrow> memory_ok (monitor_resetHost now h b s)"
proof -
  show "changes s (monitor_resetHost now h b s)"
    by (cases "find_monitor h (clearPoolObservations h (abort_check h s))")
      (auto simp: monitor_resetHost_def Let_def abort_clear_frame monitors_keep checks_keep intro!: changes_one mc_patch cc_delete keeps_row_settings)
  show "flight_ok s \<Longrightarrow> flight_ok (monitor_resetHost now h b s)" "memory_ok s \<Longrightarrow> memory_ok (monitor_resetHost now h b s)"
    using abort_clear_frame(5,6) [where h = h and s = s]
    by (auto simp: monitor_resetHost_def Let_def flight_ok_def memory_ok_def split: option.splits)
qed

lemma put_settings_changes:
  assumes "put_settings now h c s = Inr t"
  shows "changes s t" "flight_ok s \<Longrightarrow> flight_ok t" "memory_ok s \<Longrightarrow> memory_ok t"
proof -
  note f = abort_clear_frame [where h = h and s = s]
  show "changes s t"
  proof (cases "find_monitor h s")
    case None
    then have "h \<notin> m_host_id ` set (mo_monitors s)" by (auto simp: find_monitor_def find_None)
    moreover have "m_id (next_row None c (blank_monitor n h)) = n" "m_host_id (next_row None c (blank_monitor n h)) = h" for n
      using keeps_row_settings(1) by (simp_all add: keeps_row_def blank_monitor_def)
    ultimately show ?thesis using assms
      by (auto simp: put_settings_def None Let_def f restart_needed_def measurement_changed_def intro!: changes_one mc_insert cc_delete)
  next
    case (Some e)
    with assms show ?thesis
      by (auto simp: put_settings_def Let_def f rbind_Inr split: if_splits intro!: changes_one mc_patch cc_delete checks_keep keeps_row_settings)
  qed
  show "flight_ok s \<Longrightarrow> flight_ok t" "memory_ok s \<Longrightarrow> memory_ok t"
    using assms f(5,6) by (auto simp: put_settings_def Let_def rbind_Inr flight_ok_def memory_ok_def split: if_splits option.splits)
qed

lemma update_changes:
  assumes "monitor_update x509 acc now h data b s = (r, t)"
  shows "changes s t" "flight_ok s \<Longrightarrow> flight_ok t" "memory_ok s \<Longrightarrow> memory_ok t"
proof -
  from assms consider "t = s" | c u where "put_settings now h c s = Inr u" "mons t = mons u" "chks t = chks u" "mo_active t = mo_active u"
      "mo_observations t = mo_observations u"
    by (auto simp: monitor_update_def rbind_Inr Let_def split: sum.splits if_splits)
  then have "changes s t \<and> (flight_ok s \<longrightarrow> flight_ok t) \<and> (memory_ok s \<longrightarrow> memory_ok t)"
  proof cases
    case 2
    with put_settings_changes [OF 2(1)] show ?thesis by (simp add: changes_def flight_ok_def memory_ok_def)
  qed (simp add: changes_refl)
  then show "changes s t" "flight_ok s \<Longrightarrow> flight_ok t" "memory_ok s \<Longrightarrow> memory_ok t" by blast+
qed

text \<open>A commit stores one row of the measured version, or nothing.\<close>

definition stores :: "int \<Rightarrow> int \<Rightarrow> monitor_row \<Rightarrow> monitor_state \<Rightarrow> monitor_state \<Rightarrow> bool" where
  "stores now h config s t \<longleftrightarrow> \<not> aborted h s \<and> (\<exists>m \<in> set (mo_monitors s). m_id m = m_id config \<and> m_version m = m_version config) \<and>
     (\<exists>P f k db. keeps_row f \<and> k_id k = mo_check_seq s \<and> k_host_id k = h \<and>
        t = s\<lparr>mo_monitors := patch_where P f (mo_monitors s), mo_checks := pruneHistory now h (mo_checks s @ [k]),
          mo_check_seq := Suc (mo_check_seq s), mo_inc := db\<rparr>)"

lemma persist_transaction_stores:
  assumes "persist_transaction sha now h config identity res checkedAt s = Inr (r, t)"
  shows "r = None \<and> t = s \<or> r \<noteq> None \<and> stores now h config s t"
proof (cases "List.find (\<lambda>m. m_id m = m_id config) (mo_monitors s)")
  case None
  with assms show ?thesis by (auto simp: persist_transaction_def rbind_Inr split: option.splits)
next
  case (Some current)
  then have c: "current \<in> set (mo_monitors s)" "m_id current = m_id config" using find_SomeD by fast+
  show ?thesis
  proof (cases "live_host h s")
    case None
    with assms Some show ?thesis by (simp add: persist_transaction_def)
  next
    case (Some host)
    show ?thesis
    proof (cases "\<not> still_current sha h config identity current host s \<or>
        count_where (\<lambda>m. m_id m = m_id config \<and> m_version m = m_version config) (mo_monitors s) = 0")
      case True
      with assms Some \<open>List.find _ _ = Some current\<close> show ?thesis by (auto simp: persist_transaction_def rbind_Inr Let_def)
    next
      case False
      define k where "k = \<lparr>k_id = mo_check_seq s, k_host_id = h, k_checked_at = checkedAt, k_state = cr_state res, k_response_ms = cr_response_ms res,
        k_status_code = cr_status_code res, k_message = cr_message res, k_transition = (m_state current \<noteq> cr_state res)\<rparr>"
      define f where "f = stored_monitor now config current res checkedAt (isMuted h checkedAt (mo_inc s))"
      from assms Some \<open>List.find _ _ = Some current\<close> False obtain db where
        t: "r \<noteq> None" "t = s\<lparr>mo_monitors := patch_where (\<lambda>m. m_id m = m_id config \<and> m_version m = m_version config) f (mo_monitors s),
          mo_checks := pruneHistory now h (mo_checks s @ [k]), mo_check_seq := Suc (mo_check_seq s), mo_inc := db\<rparr>"
        by (auto simp: persist_transaction_def rbind_Inr Let_def k_def f_def)
      have "keeps_row f" "k_id k = mo_check_seq s" "k_host_id k = h" by (simp_all add: f_def keeps_row_settings k_def)
      with t have "\<exists>P f k db. keeps_row f \<and> k_id k = mo_check_seq s \<and> k_host_id k = h \<and>
        t = s\<lparr>mo_monitors := patch_where P f (mo_monitors s), mo_checks := pruneHistory now h (mo_checks s @ [k]),
          mo_check_seq := Suc (mo_check_seq s), mo_inc := db\<rparr>" by blast
      moreover have "\<not> aborted h s" "m_version current = m_version config" using False by (auto simp: still_current_def)
      ultimately show ?thesis using c t(1) by (auto simp: stores_def)
    qed
  qed
qed

lemma persistCheck_stores:
  "persistCheck sha fails now n h config identity res checkedAt s = Inr (r, t) \<Longrightarrow> r = None \<and> t = s \<or> r \<noteq> None \<and> stores now h config s t"
proof (induction sha fails now n h config identity res checkedAt s rule: persistCheck.induct)
  case (1 sha fails now n h config identity res checkedAt s)
  then show ?case
    by (subst (asm) (2) persistCheck.simps) (auto split: if_splits option.splits dest: persist_transaction_stores)
qed

lemma stores_changes:
  assumes "stores now h config s t"
  shows "changes s t" "mo_active t = mo_active s" "mo_observations t = mo_observations s"
proof -
  from assms obtain P f k db where k: "keeps_row f" "k_id k = mo_check_seq s" "k_host_id k = h"
      "t = s\<lparr>mo_monitors := patch_where P f (mo_monitors s), mo_checks := pruneHistory now h (mo_checks s @ [k]),
          mo_check_seq := Suc (mo_check_seq s), mo_inc := db\<rparr>" by (auto simp: stores_def)
  show "changes s t"
    by (rule changes_one) (use k mc_patch cc_insert [OF k(2), of "mo_checks s" now] in \<open>simp_all add: mc_patch\<close>)
  show "mo_active t = mo_active s" "mo_observations t = mo_observations s" by (simp_all add: k(4))
qed

lemma recordPoolObservations_frame:
  assumes "recordPoolObservations sha now host ds obs t0 s = Inr t"
  shows "mons t = mons s" "chks t = chks s" "mo_active t = mo_active s" "memory_ok s \<Longrightarrow> memory_ok t"
proof -
  define kept where "kept = delete_where (\<lambda>x. pr_host x = ph_id host) (mo_observations s)"
  define row where "row key = \<lparr>pr_host = ph_id host, pr_key = key, pr_expires = now + 5 * 60000,
    pr_targets = foldl (\<lambda>acc t. put_target (t, t0) acc) [] obs\<rparr>" for key
  from assms obtain key where "t = s\<lparr>mo_observations := (if 100 < length (kept @ [row key]) then tl (kept @ [row key]) else kept @ [row key])\<rparr>"
    unfolding recordPoolObservations_def rbind_Inr Let_def kept_def [symmetric] row_def [symmetric] by auto
  moreover have "pr_host (row key) = ph_id host" by (simp add: row_def)
  ultimately obtain r where r: "pr_host r = ph_id host"
    "t = s\<lparr>mo_observations := (if 100 < length (kept @ [r]) then tl (kept @ [r]) else kept @ [r])\<rparr>" by blast
  then show "mons t = mons s" "chks t = chks s" "mo_active t = mo_active s" by simp_all
  assume "memory_ok s"
  then have "distinct (map pr_host kept)" "length kept \<le> 100"
    by (auto simp: memory_ok_def kept_def delete_where_def distinct_map_filter intro: order_trans [OF length_filter_le])
  moreover have "ph_id host \<notin> pr_host ` set kept" by (auto simp: kept_def)
  ultimately have "distinct (map pr_host (kept @ [r]))" "length (kept @ [r]) \<le> 101" by (simp_all add: r(1))
  then show "memory_ok t" by (auto simp: memory_ok_def r(2) map_tl distinct_tl)
qed

lemma run_commit_cases:
  assumes "run_commit sha fails now h pl measured s = Inr (r, t)"
  shows "r = None \<and> t = s \<or> r \<noteq> None \<and> (\<exists>u v. stores now h (pl_config pl) s u \<and> mons v = mons u \<and> chks v = chks u \<and> mo_active v = mo_active u \<and>
     (memory_ok u \<longrightarrow> memory_ok v) \<and> mons t = mons v \<and> chks t = chks v \<and> mo_active t = mo_active v \<and> mo_observations t = mo_observations v)"
proof (cases "aborted h s")
  case False
  with assms obtain pe u where u: "persistCheck sha fails now 0 h (pl_config pl) (pl_identity pl) (fst measured) now s = Inr (pe, u)"
      "(case pe of None \<Rightarrow> Inr (None, u)
          | Some x \<Rightarrow>
              rbind (case snd measured of
                  Some obs \<Rightarrow> recordPoolObservations sha now (pl_host pl) (pool_domains (pl_host pl) (pl_pool pl)) obs now u
                | None \<Rightarrow> Inr u) (\<lambda>v.
                Inr (Some \<lparr>rr_result = fst measured, rr_checked_at = now, rr_transition = pe_transition x\<rparr>,
                     run_alert h pl (fst measured) now x v))) = Inr (r, t)"
    by (auto simp: run_commit_def rbind_Inr)
  show ?thesis
  proof (cases pe)
    case None
    with u persistCheck_stores [OF u(1)] show ?thesis by auto
  next
    case (Some x)
    with persistCheck_stores [OF u(1)] have st: "stores now h (pl_config pl) s u" by auto
    from u(2) Some obtain v where v: "(case snd measured of
        Some obs \<Rightarrow> recordPoolObservations sha now (pl_host pl) (pool_domains (pl_host pl) (pl_pool pl)) obs now u | None \<Rightarrow> Inr u) = Inr v"
        "r \<noteq> None" "t = run_alert h pl (fst measured) now x v" by (auto simp: rbind_Inr)
    have "mons v = mons u \<and> chks v = chks u \<and> mo_active v = mo_active u \<and> (memory_ok u \<longrightarrow> memory_ok v)"
      using v(1) recordPoolObservations_frame by (auto split: option.splits)
    moreover have "mons t = mons v \<and> chks t = chks v \<and> mo_active t = mo_active v \<and> mo_observations t = mo_observations v"
      by (simp add: v(3) run_alert_def Let_def)
    ultimately show ?thesis using st v(2) by blast
  qed
qed (use assms in \<open>simp add: run_commit_def\<close>)

lemma run_commit_changes:
  assumes "run_commit sha fails now h pl measured s = Inr (r, t)"
  shows "changes s t" "flight_ok s \<Longrightarrow> flight_ok t" "memory_ok s \<Longrightarrow> memory_ok t"
proof -
  from run_commit_cases [OF assms] have "changes s t \<and> (flight_ok s \<longrightarrow> flight_ok t) \<and> (memory_ok s \<longrightarrow> memory_ok t)"
  proof (elim disjE conjE exE)
    fix u v
    assume a: "stores now h (pl_config pl) s u" "mons v = mons u" "chks v = chks u" "mo_active v = mo_active u" "memory_ok u \<longrightarrow> memory_ok v"
      "mons t = mons v" "chks t = chks v" "mo_active t = mo_active v" "mo_observations t = mo_observations v"
    from stores_changes [OF a(1)] a show ?thesis by (simp add: changes_def flight_ok_def memory_ok_def)
  qed (simp add: changes_refl)
  then show "changes s t" "flight_ok s \<Longrightarrow> flight_ok t" "memory_ok s \<Longrightarrow> memory_ok t" by blast+
qed

lemma cleanup_changes:
  "changes s (retention_cleanup now s)" "flight_ok s \<Longrightarrow> flight_ok (retention_cleanup now s)" "memory_ok s \<Longrightarrow> memory_ok (retention_cleanup now s)"
proof -
  have fold: "changes u (foldl (\<lambda>t m. monitor_removeHost (m_host_id m) t) u ms) \<and>
      (flight_ok u \<longrightarrow> flight_ok (foldl (\<lambda>t m. monitor_removeHost (m_host_id m) t) u ms)) \<and>
      (memory_ok u \<longrightarrow> memory_ok (foldl (\<lambda>t m. monitor_removeHost (m_host_id m) t) u ms))" for u and ms :: "monitor_row list"
  proof (induction ms arbitrary: u)
    case (Cons m ms)
    from Cons.IH [of "monitor_removeHost (m_host_id m) u"] removeHost_changes [of u "m_host_id m"] show ?case
      by (auto intro: changes_trans)
  qed (simp add: changes_refl)
  let ?u = "s\<lparr>mo_last_cleanup := now, mo_checks := delete_where (\<lambda>k. k_checked_at k < now - RETENTION_DAYS * RETENTION_CLEANUP_MS) (mo_checks s)\<rparr>"
  have u: "changes s ?u" by (rule changes_one) (simp_all add: monitors_keep cc_delete)
  have "changes s (retention_cleanup now s) \<and> (flight_ok s \<longrightarrow> flight_ok (retention_cleanup now s)) \<and> (memory_ok s \<longrightarrow> memory_ok (retention_cleanup now s))"
  proof (cases "now - mo_last_cleanup s < RETENTION_CLEANUP_MS")
    case False
    from fold [of ?u] u show ?thesis
      by (simp add: retention_cleanup_def Let_def False flight_ok_def memory_ok_def) (meson changes_trans)
  qed (simp add: retention_cleanup_def changes_refl)
  then show "changes s (retention_cleanup now s)" "flight_ok s \<Longrightarrow> flight_ok (retention_cleanup now s)" "memory_ok s \<Longrightarrow> memory_ok (retention_cleanup now s)"
    by blast+
qed

lemma claim_release_stop:
  "run_claim h s = Some t \<Longrightarrow> changes s t \<and> (flight_ok s \<longrightarrow> flight_ok t) \<and> (memory_ok s \<longrightarrow> memory_ok t)"
  "changes s (run_release h s) \<and> (flight_ok s \<longrightarrow> flight_ok (run_release h s)) \<and> (memory_ok s \<longrightarrow> memory_ok (run_release h s))"
  "changes s (monitor_stop s) \<and> (flight_ok s \<longrightarrow> flight_ok (monitor_stop s)) \<and> (memory_ok s \<longrightarrow> memory_ok (monitor_stop s))"
proof -
  show "run_claim h s = Some t \<Longrightarrow> changes s t \<and> (flight_ok s \<longrightarrow> flight_ok t) \<and> (memory_ok s \<longrightarrow> memory_ok t)"
    by (auto simp: run_claim_def flight_ok_def memory_ok_def is_active_def split: if_splits intro: changes_refl)
  have "map fst (map (\<lambda>a. (fst a, True)) xs) = map fst xs" for xs :: "(int \<times> bool) list" by simp
  then show "changes s (monitor_stop s) \<and> (flight_ok s \<longrightarrow> flight_ok (monitor_stop s)) \<and> (memory_ok s \<longrightarrow> memory_ok (monitor_stop s))"
    by (simp add: monitor_stop_def flight_ok_def memory_ok_def changes_refl del: map_map)
  show "changes s (run_release h s) \<and> (flight_ok s \<longrightarrow> flight_ok (run_release h s)) \<and> (memory_ok s \<longrightarrow> memory_ok (run_release h s))"
    by (auto simp: run_release_def flight_ok_def memory_ok_def distinct_map_filter intro: changes_refl order_trans [OF length_filter_le])
qed

lemma step_changes:
  assumes "mon_step sha x509 s t"
  shows "changes s t \<and> (flight_ok s \<longrightarrow> flight_ok t) \<and> (memory_ok s \<longrightarrow> memory_ok t)"
  using assms
proof cases
  case (s_claim h)
  then show ?thesis by (rule claim_release_stop)
next
  case (s_commit fails now h pl measured r)
  from run_commit_changes [OF s_commit] show ?thesis by blast
next
  case (s_update acc now h data b r)
  from update_changes [OF s_update] show ?thesis by blast
next
  case s_flags
  then show ?thesis by (simp add: changes_refl flight_ok_def memory_ok_def)
next
  case s_others
  then show ?thesis by (simp add: changes_refl flight_ok_def memory_ok_def)
qed (simp_all add: claim_release_stop removeHost_changes resetHost_changes cleanup_changes)

section \<open>The invariant\<close>

definition mon_inv :: "monitor_state \<Rightarrow> bool" where
  "mon_inv s \<longleftrightarrow> monitors_ok (mons s) \<and> checks_ok (chks s) \<and> flight_ok s \<and> memory_ok s"

interpretation monitor: stable_system "mon_step sha x509" mon_inv "\<lambda>s. outdated (mons s)" for sha x509
proof unfold_locales
  fix s t k
  assume inv: "mon_inv s" and "mon_step sha x509 s t"
  from step_changes [OF this(2)] have c: "changes s t \<and> (flight_ok s \<longrightarrow> flight_ok t) \<and> (memory_ok s \<longrightarrow> memory_ok t)" .
  from c inv show "mon_inv t" unfolding mon_inv_def changes_def by (blast intro: changes_ok(1,2))
  from c show "outdated (mons s) k \<Longrightarrow> outdated (mons t) k" unfolding changes_def by (blast intro: changes_ok(3))
qed

lemma mon_inv_empty: "mon_inv (mon_empty db)"
  by (simp add: mon_inv_def mon_empty_def monitors_ok_def checks_ok_def flight_ok_def memory_ok_def host_rows_def monitor_table.keys_ok_def
    check_table.keys_ok_def)

lemma mon_inv_reachable: "mon_reachable sha x509 s \<Longrightarrow> mon_inv s"
  by (auto simp: mon_reachable_def intro: monitor.steps_inv mon_inv_empty)

end
