(* ===== verification/Traffic_Policy_Props.thy ===== *)
theory Traffic_Policy_Props
  imports Traffic_Policy Store
begin

text \<open>
  Normal forms of the traffic settings: an accepted pool is well formed and is accepted again unchanged, and a
  written host keeps the metadata the settings do not manage.
\<close>

section \<open>Names\<close>

definition name_ok :: "string \<Rightarrow> bool" where
  "name_ok s \<longleftrightarrow> unbracket s = s \<and> (isIP s \<noteq> 0 \<or> valid_name s \<and> js_lower s = s)"

lemma alnum_facts: "is_alnum c \<Longrightarrow> is_alnum (lower_char c)" "\<not> is_alnum (CHR ''['')" "\<not> is_alnum (CHR ''.'')" "\<not> is_alnum (CHR ''-'')"
proof -
  show "is_alnum (lower_char c)" if "is_alnum c"
  proof (cases "is_upper c")
    case True
    then have "code (char_of (code c + 32)) = code c + 32" by (auto simp: code_def is_upper_def code_between_def)
    with True show ?thesis by (auto simp: is_alnum_def is_alpha_def is_lower_def is_upper_def lower_char_def code_between_def)
  next
    case False
    with that have "lower_char c = c"
      by (auto simp: lower_char_def is_alnum_def is_alpha_def is_lower_def is_digit_def code_between_def)
    with that show ?thesis by simp
  qed
  show "\<not> is_alnum (CHR ''['')" "\<not> is_alnum (CHR ''.'')" "\<not> is_alnum (CHR ''-'')" by code_simp+
qed

lemma lower_char_keep: "code c < 65 \<Longrightarrow> lower_char c = c"
  by (auto simp: lower_char_def is_upper_def code_between_def)

lemma lower_char_sep:
  assumes "host_char c"
  shows "lower_char c = CHR ''.'' \<longleftrightarrow> c = CHR ''.''" "lower_char c = CHR ''-'' \<longleftrightarrow> c = CHR ''-''" "host_char (lower_char c)"
proof -
  have k: "lower_char (CHR ''.'') = CHR ''.''" "lower_char (CHR ''-'') = CHR ''-''" by code_simp+
  have "is_alnum c \<or> c = CHR ''.'' \<or> c = CHR ''-''" using assms by (simp add: host_char_def)
  then show "lower_char c = CHR ''.'' \<longleftrightarrow> c = CHR ''.''" "lower_char c = CHR ''-'' \<longleftrightarrow> c = CHR ''-''" "host_char (lower_char c)"
    using alnum_facts(1) [of c] alnum_facts(3,4) k by (auto simp: host_char_def)
qed

lemma split_char_map: "(\<And>x. x \<in> set s \<Longrightarrow> f x = c \<longleftrightarrow> x = c) \<Longrightarrow> split_char c (map f s) = map (map f) (split_char c s)"
  by (induction s) (auto split: list.splits)

lemma split_char_parts: "p \<in> set (split_char c s) \<Longrightarrow> x \<in> set p \<Longrightarrow> x \<in> set s"
proof (induction s arbitrary: p)
  case (Cons a s)
  obtain y ys where y: "split_char c s = y # ys" by (cases "split_char c s") auto
  show ?case
  proof (cases "p \<in> set (split_char c s)")
    case True
    with Cons.IH Cons.prems(2) show ?thesis by auto
  next
    case False
    with Cons.prems y have "p = [] \<or> p = a # y" by (auto split: if_splits)
    with Cons.IH [of y] Cons.prems(2) y show ?thesis by auto
  qed
qed simp

lemma host_label_lower: "list_all host_char p \<Longrightarrow> host_label p \<Longrightarrow> host_label (js_lower p)"
proof -
  assume c: "list_all host_char p" and l: "host_label p"
  have st: "starts_with (map lower_char q) ''-'' \<longleftrightarrow> starts_with q ''-''" if "list_all host_char q" for q
    using that by (cases q) (auto simp: starts_with_def lower_char_sep)
  have "list_all host_char (rev p)" using c by (simp add: list_all_iff)
  with st [OF c] st [of "rev p"] l show ?thesis by (simp add: host_label_def js_lower_def ends_with_def rev_map)
qed

lemma valid_name_lower:
  assumes "valid_name s"
  shows "valid_name (js_lower s)"
proof -
  have c: "list_all host_char s" "s \<noteq> []" using assms by (simp_all add: valid_name_def)
  have sp: "split_char (CHR ''.'') (js_lower s) = map js_lower (split_char (CHR ''.'') s)"
    unfolding js_lower_def by (rule split_char_map) (use c(1) lower_char_sep(1) in \<open>auto simp: list_all_iff\<close>)
  have labels: "list_all host_label (map js_lower (split_char (CHR ''.'') s))"
    using assms c(1) unfolding valid_name_def list_all_iff
    by (auto intro!: host_label_lower simp: list_all_iff) (use split_char_parts in blast)
  have "list_all host_char (js_lower s)" using c(1) lower_char_sep(3) by (auto simp: list_all_iff js_lower_def)
  moreover have "is_alnum (hd (js_lower s))" "is_alnum (last (js_lower s))"
    using assms c(2) by (simp_all add: valid_name_def js_lower_def hd_map last_map alnum_facts(1))
  ultimately show ?thesis using assms labels by (simp add: valid_name_def sp)
qed

lemma unbracket_alnum: "s \<noteq> [] \<Longrightarrow> hd s \<noteq> CHR ''['' \<Longrightarrow> unbracket s = s"
  by (cases s) (auto simp: unbracket_def starts_with_def)

lemma name_ok_nonempty: "name_ok s \<Longrightarrow> s \<noteq> []"
  by (auto simp: name_ok_def valid_name_def)

lemma hostname_ok: "hostname v f = Inr s \<Longrightarrow> name_ok s"
proof -
  assume h: "hostname v f = Inr s"
  then obtain x where x: "v = JStr x" by (cases v) (auto simp: hostname_def)
  have br: "\<not> addr_char (CHR ''['')" by code_simp
  show ?thesis
  proof (cases "isIP (unbracket x) \<noteq> 0")
    case True
    with h x have s: "s = unbracket x" by (simp add: hostname_def)
    have "list_all addr_char s" "s \<noteq> []" using True isIP_chars [of s] isIP_Nil by (auto simp: s)
    then have "hd s \<noteq> CHR ''[''" using br by (cases s) auto
    with \<open>s \<noteq> []\<close> True s show ?thesis by (simp add: name_ok_def unbracket_alnum)
  next
    case False
    with h x have s: "s = js_lower (unbracket x)" "valid_name (unbracket x)" by (auto simp: hostname_def Let_def split: if_splits)
    then have v: "valid_name s" using valid_name_lower by simp
    then have "s \<noteq> []" "hd s \<noteq> CHR ''[''" using alnum_facts(2) by (auto simp: valid_name_def)
    with v s(1) show ?thesis by (simp add: name_ok_def unbracket_alnum)
  qed
qed

lemma hostname_fix: "name_ok s \<Longrightarrow> hostname (JStr s) f = Inr s"
  by (auto simp: hostname_def name_ok_def Let_def)

lemma integer_ok: "integer v d lo hi f = Inr n \<Longrightarrow> lo \<le> n \<and> n \<le> hi"
  by (auto simp: integer_def split: jsval.splits if_splits)

lemma integer_fix: "lo \<le> n \<Longrightarrow> n \<le> hi \<Longrightarrow> integer (JNum n) d lo hi f = Inr n"
  by (simp add: integer_def if_undef_def)

lemma flag_fix: "flag (JBool b) d f = Inr b"
  by (simp add: flag_def)

section \<open>Pools\<close>

definition item_ok :: "pool_target \<Rightarrow> bool" where
  "item_ok t \<longleftrightarrow> target_id_ok (ut_id t) \<and> ut_label t \<noteq> [] \<and> length (ut_label t) \<le> 80 \<and> name_ok (ut_host t) \<and>
     1 \<le> ut_port t \<and> ut_port t \<le> 65535 \<and> 1 \<le> ut_weight t \<and> ut_weight t \<le> 1000 \<and>
     1 \<le> ut_max_fails t \<and> ut_max_fails t \<le> 10 \<and> 1 \<le> ut_fail_timeout t \<and> ut_fail_timeout t \<le> 300"

definition items_ok :: "pool_target list \<Rightarrow> bool" where
  "items_ok ts \<longleftrightarrow> list_all item_ok ts \<and> distinct (map ut_id ts) \<and> distinct (map address_of ts)"

definition pool_ok :: "jsval \<Rightarrow> pool \<Rightarrow> bool" where
  "pool_ok host p \<longleftrightarrow> items_ok (up_targets p) \<and> length (up_targets p) \<le> 16 \<and> 1 \<le> up_connect_timeout p \<and> up_connect_timeout p \<le> 60 \<and>
     1 \<le> up_read_timeout p \<and> up_read_timeout p \<le> 600 \<and> pred_option name_ok (up_host_header p) \<and>
     pred_option name_ok (up_tls_server_name p) \<and> pool_usable host p = Inr ()"

lemma pool_item_ok:
  assumes "pool_item v ids = Inr t"
  shows "item_ok t \<and> ut_id t \<notin> set ids"
proof -
  define i where "i = js_get v ''id''"
  define l where "l = js_get v ''label''"
  from assms obtain h port weight backup mf ft where
    c: "is_str i" "target_id_ok (str_of i)" "str_of i \<notin> set ids" "l = Undef \<or> is_str l \<and> length (str_of l) \<le> 80"
    and r: "hostname (js_get v ''host'') ''Upstream host'' = Inr h" "integer (js_get v ''port'') 80 1 65535 ''Upstream port'' = Inr port"
      "integer (js_get v ''weight'') 1 1 1000 ''Upstream weight'' = Inr weight"
      "integer (js_get v ''max_fails'') 1 1 10 ''Failure threshold'' = Inr mf" "integer (js_get v ''fail_timeout'') 10 1 300 ''Failure timeout'' = Inr ft"
    and t: "t = \<lparr>ut_id = str_of i, ut_label = (if str_of l \<noteq> [] then str_of l else str_of i), ut_host = h, ut_port = port, ut_weight = weight,
               ut_backup = backup, ut_max_fails = mf, ut_fail_timeout = ft\<rparr>"
    unfolding pool_item_def Let_def rbind_Inr i_def [symmetric] l_def [symmetric] by (auto simp: rbind_Inr split: if_splits)
  have "str_of l \<noteq> [] \<Longrightarrow> length (str_of l) \<le> 80" using c(4) by auto
  with c(2) have "(if str_of l \<noteq> [] then str_of l else str_of i) \<noteq> [] \<and> length (if str_of l \<noteq> [] then str_of l else str_of i) \<le> 80"
    by (auto simp: target_id_ok_def)
  with c(2,3) hostname_ok [OF r(1)] integer_ok [OF r(2)] show ?thesis
    by (simp add: t item_ok_def integer_ok [OF r(3)] integer_ok [OF r(4)] integer_ok [OF r(5)])
qed

lemma pool_item_fix: "item_ok t \<Longrightarrow> ut_id t \<notin> set ids \<Longrightarrow> pool_item (target_obj t) ids = Inr t"
  by (simp add: item_ok_def pool_item_def keys_def target_obj_def rguard_def hostname_fix integer_fix flag_fix)

lemma pool_items_ok: "pool_items vs acc = Inr ts \<Longrightarrow> items_ok acc \<Longrightarrow> items_ok ts \<and> length ts = length acc + length vs"
proof (induction vs arbitrary: acc)
  case (Cons v vs)
  from Cons.prems(1) obtain t where t: "pool_item v (map ut_id acc) = Inr t" "address_of t \<notin> set (map address_of acc)"
      "pool_items vs (acc @ [t]) = Inr ts" by (auto simp: rbind_Inr split: if_splits)
  have "items_ok (acc @ [t])" using Cons.prems(2) pool_item_ok [OF t(1)] t(2) by (auto simp: items_ok_def)
  from Cons.IH [OF t(3) this] show ?case by simp
qed simp

lemma pool_items_fix: "items_ok (acc @ ts) \<Longrightarrow> pool_items (map target_obj ts) acc = Inr (acc @ ts)"
proof (induction ts arbitrary: acc)
  case (Cons t ts)
  have t: "item_ok t" "ut_id t \<notin> set (map ut_id acc)" "address_of t \<notin> set (map address_of acc)"
    using Cons.prems by (auto simp: items_ok_def)
  with Cons.IH [of "acc @ [t]"] Cons.prems show ?case by (simp add: pool_item_fix [OF t(1,2)])
qed simp

lemma opt_hostname_ok: "opt_hostname v f = Inr h \<Longrightarrow> pred_option name_ok h"
  by (auto simp: opt_hostname_def rbind_Inr split: if_splits dest: hostname_ok)

lemma opt_hostname_fix: "pred_option name_ok h \<Longrightarrow> opt_hostname (case h of None \<Rightarrow> Undef | Some s \<Rightarrow> JStr s) f = Inr h"
  by (cases h) (auto simp: opt_hostname_def hostname_fix dest: name_ok_nonempty)

lemma pool_of_ok: "pool_of v host = Inr p \<Longrightarrow> pool_ok host p"
  unfolding pool_of_def Let_def
  by (auto simp: rbind_Inr rguard_def pool_ok_def items_ok_def [of "[]"] split: if_splits
        dest!: pool_items_ok opt_hostname_ok integer_ok)

lemma pool_of_fix:
  assumes "pool_ok host p"
  shows "pool_of (pool_obj p) host = Inr p"
proof -
  have g: "js_get (pool_obj p) ''host_header'' = (case up_host_header p of None \<Rightarrow> Undef | Some s \<Rightarrow> JStr s)"
      "js_get (pool_obj p) ''tls_server_name'' = (case up_tls_server_name p of None \<Rightarrow> Undef | Some s \<Rightarrow> JStr s)"
      "js_get (pool_obj p) ''enabled'' = JBool (up_enabled p)" "js_get (pool_obj p) ''connect_timeout'' = JNum (up_connect_timeout p)"
      "js_get (pool_obj p) ''read_timeout'' = JNum (up_read_timeout p)" "js_get (pool_obj p) ''tls_verify'' = JBool (up_tls_verify p)"
      "js_get (pool_obj p) ''targets'' = JArr (map target_obj (up_targets p))"
    by (auto simp: pool_obj_def opt_prop_def split: option.splits)
  have k: "keys (pool_obj p) [''enabled'', ''targets'', ''connect_timeout'', ''read_timeout'', ''host_header'', ''tls_server_name'', ''tls_verify''] ''upstream pool'' = Inr ()"
    by (auto simp: keys_def rguard_def pool_obj_def opt_prop_def split: option.splits)
  have r: "\<lparr>up_enabled = up_enabled p, up_targets = up_targets p, up_connect_timeout = up_connect_timeout p,
      up_read_timeout = up_read_timeout p, up_tls_verify = up_tls_verify p, up_host_header = up_host_header p,
      up_tls_server_name = up_tls_server_name p\<rparr> = p" by simp
  show ?thesis
    using assms pool_items_fix [of "[]" "up_targets p"]
    by (simp add: pool_of_def g k r pool_ok_def opt_hostname_fix integer_fix flag_fix rguard_def Let_def)
qed

interpretation pool_norm: normalizer "\<lambda>v. pool_of v host" pool_obj "pool_ok host" for host
  by unfold_locales (fact pool_of_ok, fact pool_of_fix)

section \<open>Refusals\<close>

definition validation :: "'a result \<Rightarrow> bool" where
  "validation r \<longleftrightarrow> (\<forall>e. r = Inl e \<longrightarrow> (\<exists>m. e = ValidationError m))"

lemma validation_Inr [simp]: "validation (Inr x)"
  by (simp add: validation_def)

lemma validation_Inl [simp]: "validation (Inl e) \<longleftrightarrow> (\<exists>m. e = ValidationError m)"
  by (simp add: validation_def)

lemma validation_rbind: "validation r \<Longrightarrow> (\<And>x. validation (f x)) \<Longrightarrow> validation (rbind r f)"
  by (cases r) auto

lemma validation_rguard: "validation (rguard b (ValidationError m))"
  by (simp add: rguard_def)

lemma validation_if: "validation a \<Longrightarrow> validation b \<Longrightarrow> validation (if c then a else b)"
  by simp

lemmas validation_rules = validation_rbind validation_rguard validation_if validation_Inr

lemma validation_fields: "validation (integer v d lo hi f)" "validation (flag v b f)" "validation (hostname v f)" "validation (keys v ks f)"
    "validation (supported h l)"
  by (auto simp: integer_def flag_def hostname_def keys_def supported_def rguard_def Let_def split: jsval.splits)

lemma validation_opt_hostname: "validation (opt_hostname v f)"
  unfolding opt_hostname_def by (intro validation_rules validation_fields)

lemma validation_pool_item: "validation (pool_item v ids)"
  unfolding pool_item_def Let_def by (intro validation_rules validation_fields) simp_all

lemma validation_pool_items: "validation (pool_items vs acc)"
  by (induction vs arbitrary: acc) (auto intro!: validation_rbind validation_pool_item)

lemma validation_pool: "validation (normalizeUpstreamPool v h)"
  unfolding normalizeUpstreamPool_def pool_of_def pool_usable_def Let_def
  by (intro validation_rules validation_fields validation_opt_hostname validation_pool_items)

lemma validation_cache_routes: "validation (cache_routes ttl vs acc)"
  by (induction vs arbitrary: acc) (auto intro!: validation_rbind validation_fields)

lemma validation_cache: "validation (normalizeCachePolicy v h)"
  unfolding normalizeCachePolicy_def cache_of_def cache_usable_def Let_def
  by (intro validation_rules validation_fields validation_cache_routes)

lemma validation_policy: "validation (validateHostTrafficPolicy parse data previous)"
  unfolding validateHostTrafficPolicy_def Let_def
  by (intro validation_rules validation_pool validation_cache) simp_all

section \<open>The stages of a write\<close>

text \<open>Each managed setting is rewritten by one stage, which leaves every other property alone.\<close>

definition only_changes :: "string \<Rightarrow> (string \<times> jsval) list \<Rightarrow> (string \<times> jsval) list \<Rightarrow> bool" where
  "only_changes k a b \<longleftrightarrow> (\<forall>k'. k' \<noteq> k \<longrightarrow> props_get b k' = props_get a k')"

lemma only_changes_set [simp]: "only_changes k a a" "only_changes k a (props_set k v a)"
  by (simp_all add: only_changes_def)

lemma policy_steps:
  assumes "validateHostTrafficPolicy parse data previous = Inr d"
  obtains meta1 meta2 meta3 meta4 where
    "only_changes ''waf_ruleset'' (props_merge (obj_of (metadata parse (js_get previous ''meta''))) (obj_of (metadata parse (js_get data ''meta'')))) meta1"
    "props_get meta1 ''waf_ruleset'' \<in> {JStr ''base'', JStr ''crs''}"
    "only_changes ''upstream_pool'' meta1 meta2"
    "props_get meta2 ''upstream_pool'' = Undef \<or> (\<exists>v p. normalizeUpstreamPool v (JObj (props_merge (obj_of previous) (obj_of data))) = Inr p \<and>
       props_get meta2 ''upstream_pool'' = opt_obj pool_obj p)"
    "only_changes ''cache_policy'' meta2 meta3" "only_changes ''cache_policy'' meta3 meta4"
    "d = JObj (props_set ''meta'' (JObj meta4) (obj_of data))"
proof -
  define meta0 where "meta0 = props_merge (obj_of (metadata parse (js_get previous ''meta''))) (obj_of (metadata parse (js_get data ''meta'')))"
  define host where "host = JObj (props_merge (obj_of previous) (obj_of data))"
  define waf where "waf = (if props_get meta0 ''waf_ruleset'' = Undef
      then props_set ''waf_ruleset'' (JStr (if truthy (js_get previous ''id'')
             then (if truthy (js_get previous ''caching_enabled'') then ''crs'' else ''base'') else ''crs'')) meta0 else meta0)"
  define pool_stage where "pool_stage m = (if props_get m ''upstream_pool'' = Undef then Inr m
      else rbind (normalizeUpstreamPool (props_get m ''upstream_pool'') host) (\<lambda>p. Inr (props_set ''upstream_pool'' (opt_obj pool_obj p) m)))" for m
  define cache_stage where "cache_stage m = (if props_get m ''cache_policy'' = Undef then Inr m
      else rbind (normalizeCachePolicy (props_get m ''cache_policy'') host) (\<lambda>c. Inr (props_set ''cache_policy'' (opt_obj cache_obj c) m)))" for m
  define legacy_stage where "legacy_stage m = (if truthy (js_get host ''caching_enabled'') \<and> props_get m ''cache_policy'' = Undef
      then rbind (normalizeCachePolicy Undef host) (\<lambda>c. if (case c of None \<Rightarrow> True | Some x \<Rightarrow> \<not> cp_enabled x)
             then Inr (props_set ''cache_policy'' (opt_obj cache_obj c) m) else Inr m) else Inr m)" for m
  from assms have w: "props_get waf ''waf_ruleset'' \<in> {JStr ''base'', JStr ''crs''}" and
    r: "rbind (pool_stage waf) (\<lambda>m. rbind (cache_stage m) (\<lambda>m. rbind (legacy_stage m) (\<lambda>m.
          Inr (JObj (props_set ''meta'' (JObj m) (obj_of data)))))) = Inr d"
    unfolding validateHostTrafficPolicy_def Let_def meta0_def [symmetric] host_def [symmetric] waf_def [symmetric]
      pool_stage_def cache_stage_def legacy_stage_def by (auto split: if_splits)
  from r obtain m2 m3 m4 where s: "pool_stage waf = Inr m2" "cache_stage m2 = Inr m3" "legacy_stage m3 = Inr m4"
      "d = JObj (props_set ''meta'' (JObj m4) (obj_of data))" by (auto simp: rbind_Inr)
  show ?thesis
  proof (rule that [OF _ w _ _ _ _ s(4)])
    show "only_changes ''waf_ruleset'' (props_merge (obj_of (metadata parse (js_get previous ''meta''))) (obj_of (metadata parse (js_get data ''meta'')))) waf"
      unfolding meta0_def [symmetric] waf_def by simp
    show "only_changes ''upstream_pool'' waf m2" "only_changes ''cache_policy'' m2 m3" "only_changes ''cache_policy'' m3 m4"
      using s(1-3) by (auto simp: pool_stage_def cache_stage_def legacy_stage_def rbind_Inr split: if_splits)
    show "props_get m2 ''upstream_pool'' = Undef \<or> (\<exists>v p. normalizeUpstreamPool v (JObj (props_merge (obj_of previous) (obj_of data))) = Inr p \<and>
       props_get m2 ''upstream_pool'' = opt_obj pool_obj p)"
      using s(1) unfolding host_def [symmetric] by (fastforce simp: pool_stage_def rbind_Inr split: if_splits)
  qed
qed

lemma normalized_pool:
  assumes "x = Undef \<or> (\<exists>v p. normalizeUpstreamPool v host = Inr p \<and> x = opt_obj pool_obj p)"
  shows "x \<in> {Undef, Null} \<or> (\<exists>q. x = pool_obj q \<and> pool_ok host q)"
proof (cases "x = Undef")
  case False
  with assms obtain v p where p: "normalizeUpstreamPool v host = Inr p" "x = opt_obj pool_obj p" by blast
  show ?thesis
  proof (cases p)
    case (Some q)
    with p(1) have "pool_of v host = Inr q" by (auto simp: normalizeUpstreamPool_def rbind_Inr split: if_splits)
    with pool_of_ok p(2) Some show ?thesis by (fastforce simp: opt_obj_def)
  qed (use p(2) in \<open>simp add: opt_obj_def\<close>)
qed simp

section \<open>Properties\<close>


definition host0 :: jsval where
  "host0 = JObj [(''forward_scheme'', JStr ''http''), (''forward_host'', JStr ''app'')]"

definition pool0 :: jsval where
  "pool0 = JObj [(''enabled'', JBool True), (''targets'', JArr [JObj [(''id'', JStr ''a''), (''host'', JStr ''App.Lan'')],
     JObj [(''id'', JStr ''b''), (''host'', JStr ''10.0.0.2''), (''port'', JNum 8080), (''backup'', JBool True)]])]"


text \<open>Writing a host never loses metadata. An accepted write returns its data with a new "meta" only, whose rule set is
  "base" or "crs", whose pool is absent, null or a normal form for the written host, and in which every
  setting other than the three managed ones is the written one, or else the stored one. A refusal is always a validation error.\<close>

theorem traffic_policy_keeps_metadata:
  assumes "distinct (map fst (obj_of (metadata parse (js_get data ''meta''))))"
  shows "(case validateHostTrafficPolicy parse data previous of
      Inl e \<Rightarrow> err_status e = Some 400
    | Inr d \<Rightarrow>
        (\<forall>k. k \<noteq> ''meta'' \<longrightarrow> js_get d k = js_get data k) \<and>
        js_get (js_get d ''meta'') ''waf_ruleset'' \<in> {JStr ''base'', JStr ''crs''} \<and>
        (js_get (js_get d ''meta'') ''upstream_pool'' \<in> {Undef, Null} \<or>
          (\<exists>p. js_get (js_get d ''meta'') ''upstream_pool'' = pool_obj p \<and> pool_ok (JObj (props_merge (obj_of previous) (obj_of data))) p)) \<and>
        (\<forall>k. k \<notin> {''waf_ruleset'', ''upstream_pool'', ''cache_policy''} \<longrightarrow>
           js_get (js_get d ''meta'') k =
             (if has_own (metadata parse (js_get data ''meta'')) k then js_get (metadata parse (js_get data ''meta'')) k
              else js_get (metadata parse (js_get previous ''meta'')) k)))"
proof (cases "validateHostTrafficPolicy parse data previous")
  case (Inl e)
  with validation_policy [of parse data previous] show ?thesis by (auto simp: validation_def)
next
  case (Inr d)
  define host where "host = JObj (props_merge (obj_of previous) (obj_of data))"
  define meta0 where "meta0 = props_merge (obj_of (metadata parse (js_get previous ''meta''))) (obj_of (metadata parse (js_get data ''meta'')))"
  obtain m1 m2 m3 m4 where m: "only_changes ''waf_ruleset'' meta0 m1" "props_get m1 ''waf_ruleset'' \<in> {JStr ''base'', JStr ''crs''}"
      "only_changes ''upstream_pool'' m1 m2" "only_changes ''cache_policy'' m2 m3" "only_changes ''cache_policy'' m3 m4"
    and p: "props_get m2 ''upstream_pool'' = Undef \<or> (\<exists>v p. normalizeUpstreamPool v host = Inr p \<and> props_get m2 ''upstream_pool'' = opt_obj pool_obj p)"
    and d: "d = JObj (props_set ''meta'' (JObj m4) (obj_of data))"
    using policy_steps [OF Inr] unfolding meta0_def host_def by metis
  have own: "props_get meta0 k = (if has_own (metadata parse (js_get data ''meta'')) k then js_get (metadata parse (js_get data ''meta'')) k
      else js_get (metadata parse (js_get previous ''meta'')) k)" for k
    using props_get_merge [OF assms] by (simp add: meta0_def has_own_def js_keys_def js_get_def)
  have get: "js_get d k = (if k = ''meta'' then JObj m4 else js_get data k)" for k by (simp add: d js_get_def)
  have pool: "props_get m4 ''upstream_pool'' \<in> {Undef, Null} \<or> (\<exists>q. props_get m4 ''upstream_pool'' = pool_obj q \<and> pool_ok host q)"
    using m(4,5) normalized_pool [OF p] by (simp add: only_changes_def)
  have waf: "props_get m4 ''waf_ruleset'' \<in> {JStr ''base'', JStr ''crs''}" using m(2-5) by (simp add: only_changes_def)
  have rest: "k \<notin> {''waf_ruleset'', ''upstream_pool'', ''cache_policy''} \<Longrightarrow> props_get m4 k = props_get meta0 k" for k
    using m by (simp add: only_changes_def)
  show ?thesis using pool waf rest by (simp add: Inr get own host_def)
qed

definition written0 :: jsval where
  "written0 = JObj [(''caching_enabled'', JBool False), (''meta'', JObj [(''nginx_online'', JBool True)])]"

definition stored0 :: jsval where
  "stored0 = JObj [(''id'', JNum 3), (''meta'', JObj [(''color'', JStr ''red''), (''nginx_online'', JBool False)])]"

theorem traffic_policy_keeps_metadata_witness:
  "\<exists>d. validateHostTrafficPolicy (\<lambda>_. None) written0 stored0 = Inr d \<and> js_get (js_get d ''meta'') ''color'' = JStr ''red'' \<and>
     js_get (js_get d ''meta'') ''nginx_online'' = JBool True"
proof -
  have "\<not> isl (validateHostTrafficPolicy (\<lambda>_. None) written0 stored0)" by code_simp
  then obtain d where d: "validateHostTrafficPolicy (\<lambda>_. None) written0 stored0 = Inr d" by (auto simp: isl_def) (meson sumE)
  have m: "metadata (\<lambda>_. None) (js_get written0 ''meta'') = JObj [(''nginx_online'', JBool True)]"
      "metadata (\<lambda>_. None) (js_get stored0 ''meta'') = JObj [(''color'', JStr ''red''), (''nginx_online'', JBool False)]"
    by (simp_all add: written0_def stored0_def metadata_def)
  have "distinct (map fst (obj_of (metadata (\<lambda>_. None) (js_get written0 ''meta''))))" by (simp add: m)
  from traffic_policy_keeps_metadata [OF this, of stored0] show ?thesis by (simp add: d m has_own_def js_keys_def)
qed

end
