(* ===== verification/Monitor_Probe_Props.thy ===== *)
theory Monitor_Probe_Props
  imports Monitor_Probes Traffic_Policy_Props
begin

text \<open>
  The measurements of the monitor: accepted certificate bundles and settings, and what the verdict of a probe means.
\<close>

section \<open>Certificate bundles\<close>

text \<open>One certificate of a bundle, and a bundle as its certificates with the white space before each of them.\<close>

definition pem_block :: "(string \<Rightarrow> bool) \<Rightarrow> string \<Rightarrow> bool" where
  "pem_block x509 b \<longleftrightarrow> (\<exists>body. b = PEM_START @ body @ PEM_END \<and> list_all (\<lambda>c. pemWhitespace c \<or> pemBase64 c) body \<and>
     \<not> list_all pemWhitespace body \<and> x509 b)"

definition bundle_of :: "(string \<Rightarrow> bool) \<Rightarrow> (string \<times> string) list \<Rightarrow> string \<Rightarrow> string \<Rightarrow> bool" where
  "bundle_of x509 parts rest s \<longleftrightarrow> s = concat (map (\<lambda>(w, b). w @ b) parts) @ rest \<and>
     list_all (\<lambda>(w, b). list_all pemWhitespace w \<and> pem_block x509 b) parts \<and> list_all pemWhitespace rest"

lemma bundle_of_simps:
  "bundle_of x509 [] rest s \<longleftrightarrow> s = rest \<and> list_all pemWhitespace rest"
  "bundle_of x509 ((w, b) # parts) rest s \<longleftrightarrow>
     list_all pemWhitespace w \<and> pem_block x509 b \<and> (\<exists>t. s = w @ b @ t \<and> bundle_of x509 parts rest t)"
  by (auto simp: bundle_of_def)

lemma pem_dash: "\<not> pemWhitespace (CHR ''-'')" "\<not> pemBase64 (CHR ''-'')"
  by (simp_all add: pemWhitespace_def pemBase64_def code_between_def code_def)

lemma pem_ends: "\<exists>t. PEM_START = CHR ''-'' # t" "\<exists>t. PEM_END = CHR ''-'' # t"
  by (simp_all add: PEM_START_def PEM_END_def)

lemma index_of_split: "index_of p s = Some n \<Longrightarrow> s = take n s @ p @ drop (n + length p) s"
proof (induction s arbitrary: n)
  case (Cons c s)
  show ?case
  proof (cases "starts_with (c # s) p")
    case True
    with Cons.prems have "n = 0" "take (length p) (c # s) = p" by (simp_all add: starts_with_def)
    then show ?thesis by (metis add_0 append_Nil append_take_drop_id take_0)
  next
    case False
    with Cons.prems obtain m where "n = Suc m" "index_of p s = Some m" by auto
    with Cons.IH show ?thesis by simp
  qed
qed (simp split: if_splits)

lemma index_of_first: "CHR ''-'' \<notin> set body \<Longrightarrow> index_of PEM_END (body @ PEM_END @ rest) = Some (length body)"
proof (induction body)
  case Nil
  obtain t where t: "PEM_END = CHR ''-'' # t" using pem_ends(2) by blast
  have "index_of p (c # s) = Some 0" if "starts_with (c # s) p" for p c s using that by simp
  moreover have "starts_with (PEM_END @ rest) PEM_END" by (simp add: starts_with_def)
  ultimately show ?case by (simp add: t)
next
  case (Cons c body)
  obtain t where t: "PEM_END = CHR ''-'' # t" using pem_ends(2) by blast
  from Cons.prems have "\<not> starts_with (c # body @ PEM_END @ rest) PEM_END" by (auto simp: t starts_with_def)
  with Cons show ?case by simp
qed

lemma bundle_from_step:
  assumes "list_all pemWhitespace w" "pem_block x509 b" "count < 8"
  shows "bundle_from x509 count (w @ b @ s) = bundle_from x509 (Suc count) s"
proof -
  from assms(2) obtain body where b: "b = PEM_START @ body @ PEM_END" "list_all (\<lambda>c. pemWhitespace c \<or> pemBase64 c) body"
      "\<not> list_all pemWhitespace body" "x509 b" by (auto simp: pem_block_def)
  obtain t where t: "PEM_START = CHR ''-'' # t" using pem_ends(1) by blast
  have r: "dropWhile pemWhitespace (w @ b @ s) = PEM_START @ body @ PEM_END @ s"
    using assms(1) pem_dash(1) by (simp add: b(1) t list_all_iff dropWhile_append2)
  have "CHR ''-'' \<notin> set body" using b(2) pem_dash by (auto simp: list_all_iff)
  from index_of_first [OF this] have i: "index_of PEM_END (body @ PEM_END @ s) = Some (length body)" .
  have st: "starts_with (PEM_START @ body @ PEM_END @ s) PEM_START" "PEM_START \<noteq> []" by (simp_all add: t starts_with_def)
  have x: "x509 (PEM_START @ body @ PEM_END)" using b(1,4) by simp
  show ?thesis
    using assms(3) b(2,3) x by (subst bundle_from.simps) (simp add: r i st Let_def)
qed

lemma bundle_from_complete:
  "bundle_of x509 parts rest s \<Longrightarrow> count + length parts \<le> 8 \<Longrightarrow> 1 \<le> count + length parts \<Longrightarrow> bundle_from x509 count s"
proof (induction parts arbitrary: count s)
  case Nil
  then have "dropWhile pemWhitespace s = []" by (simp add: bundle_of_simps list_all_iff)
  with Nil.prems(3) show ?case by (subst bundle_from.simps) simp
next
  case (Cons wb parts)
  obtain w b where wb: "wb = (w, b)" by (cases wb)
  from Cons.prems(1) obtain t where t: "list_all pemWhitespace w" "pem_block x509 b" "s = w @ b @ t" "bundle_of x509 parts rest t"
    by (auto simp: wb bundle_of_simps)
  from Cons.prems Cons.IH [OF t(4), of "Suc count"] bundle_from_step [OF t(1,2), of count t] show ?case by (simp add: t(3))
qed

lemma bundle_from_sound:
  "bundle_from x509 count s \<Longrightarrow> count \<le> 8 \<Longrightarrow>
     \<exists>parts rest. bundle_of x509 parts rest s \<and> count + length parts \<le> 8 \<and> 1 \<le> count + length parts"
proof (induction x509 count s rule: bundle_from.induct)
  case (1 x509 count s)
  define w where "w = takeWhile pemWhitespace s"
  define r where "r = dropWhile pemWhitespace s"
  define t where "t = drop (length PEM_START) r"
  have ws: "list_all pemWhitespace w" "s = w @ r" by (auto simp: w_def r_def list_all_iff dest: set_takeWhileD)
  show ?case
  proof (cases "r = []")
    case True
    with "1.prems" have "0 < count" by (subst (asm) bundle_from.simps) (simp add: r_def)
    with True ws "1.prems"(2) have "bundle_of x509 [] s s \<and> count + length [] \<le> 8 \<and> 1 \<le> count + length []" by (simp add: bundle_of_simps)
    then show ?thesis by blast
  next
    case False
    from "1.prems"(1) False obtain n where n: "count \<noteq> 8" "starts_with r PEM_START" "index_of PEM_END t = Some n"
        "list_all (\<lambda>c. pemWhitespace c \<or> pemBase64 c) (take n t)" "\<not> list_all pemWhitespace (take n t)"
        "x509 (PEM_START @ take n t @ PEM_END)" "bundle_from x509 (Suc count) (drop (n + length PEM_END) t)"
      by (subst (asm) bundle_from.simps) (auto simp: Let_def r_def [symmetric] t_def [symmetric] split: if_splits option.splits)
    have "r = PEM_START @ t" using n(2) by (metis t_def starts_with_def append_take_drop_id)
    with index_of_split [OF n(3)] have r: "r = (PEM_START @ take n t @ PEM_END) @ drop (n + length PEM_END) t" by simp
    have blk: "pem_block x509 (PEM_START @ take n t @ PEM_END)" using n(4-6) by (auto simp: pem_block_def)
    from "1.IH" [OF r_def t_def False _ _ refl] n "1.prems"(2)
    obtain parts rest where p: "bundle_of x509 parts rest (drop (n + length PEM_END) t)" "Suc count + length parts \<le> 8" by auto
    from p(1) ws r blk have "bundle_of x509 ((w, PEM_START @ take n t @ PEM_END) # parts) rest s"
      by (auto simp: bundle_of_simps)
    moreover have "count + length ((w, PEM_START @ take n t @ PEM_END) # parts) \<le> 8" using p(2) by simp
    ultimately show ?thesis by (metis One_nat_def Suc_leI add_is_0 length_0_conv list.distinct(1) neq0_conv)
  qed
qed

text \<open>C34. The single pass over a certificate bundle decides exactly the intended language: an accepted text is a sequence of one to eight
  certificates, each a non-empty base64 body between the two markers that the X.509 parser accepts, with nothing but
  white space between and after them. The pass ends on every text.\<close>

theorem certificate_bundle_language:
  "validCertificateBundle x509 pem \<longleftrightarrow>
     (\<exists>parts rest. bundle_of x509 parts rest pem \<and> 1 \<le> length parts \<and> length parts \<le> 8)"
  using bundle_from_sound [of x509 0 pem] bundle_from_complete [of x509 _ _ pem 0]
  by (auto simp: validCertificateBundle_def)

section \<open>Settings\<close>

definition settings_ok :: "(string \<Rightarrow> bool) \<Rightarrow> monitor_settings \<Rightarrow> bool" where
  "settings_ok x509 m \<longleftrightarrow> ms_type m \<in> {''http'', ''tcp''} \<and> SAFE_PATH (ms_path m) \<and> length (ms_path m) \<le> 255 \<and>
     15 \<le> ms_interval_seconds m \<and> ms_interval_seconds m \<le> 3600 \<and> 500 \<le> ms_timeout_ms m \<and> ms_timeout_ms m \<le> 15000 \<and>
     ms_timeout_ms m < ms_interval_seconds m * 1000 \<and> 100 \<le> ms_expected_status m \<and> ms_expected_status m \<le> 599 \<and>
     pred_option (ca_ok x509) (ms_upstream_ca m) \<and> pred_option server_name_ok (ms_upstream_server_name m)"

definition nullable :: "string option \<Rightarrow> jsval" where
  "nullable v = (case v of None \<Rightarrow> Null | Some s \<Rightarrow> JStr s)"

definition settings_obj :: "monitor_settings \<Rightarrow> jsval" where
  "settings_obj m = JObj [(''enabled'', JBool (ms_enabled m)), (''type'', JStr (ms_type m)), (''path'', JStr (ms_path m)),
     (''interval_seconds'', JNum (ms_interval_seconds m)), (''timeout_ms'', JNum (ms_timeout_ms m)),
     (''expected_status'', JNum (ms_expected_status m)), (''alert_enabled'', JBool (ms_alert_enabled m)),
     (''upstream_ca'', nullable (ms_upstream_ca m)), (''upstream_server_name'', nullable (ms_upstream_server_name m)),
     (''skip_certificate_verification'', JBool (ms_skip_certificate_verification m))]"

lemma opt_text_ok: "\<not> (opt_text v \<noteq> None \<and> (\<not> is_str v \<or> \<not> P (str_of v))) \<longleftrightarrow> (v = Undef \<or> v = Null \<or> is_str v) \<and> pred_option P (opt_text v)"
  by (auto simp: opt_text_def)

lemma opt_text_nullable [simp]: "opt_text (nullable v) = v" "nullable v = Undef \<longleftrightarrow> False"
    "\<not> (nullable v = Undef \<or> nullable v = Null) \<Longrightarrow> is_str (nullable v)"
  by (auto simp: opt_text_def nullable_def split: option.splits)

lemma assertMonitorConfig_ok:
  assumes "assertMonitorConfig x509 v = Inr m"
  shows "settings_ok x509 m"
proof -
  define ty where "ty = js_get v ''type''"
  define ca where "ca = js_get v ''upstream_ca''"
  define sn where "sn = js_get v ''upstream_server_name''"
  from assms have t: "ty = JStr ''http'' \<or> ty = JStr ''tcp''" "SAFE_PATH (ms_path m)" "length (ms_path m) \<le> 255" "ms_type m = str_of ty"
    and n: "15 \<le> ms_interval_seconds m \<and> ms_interval_seconds m \<le> 3600" "500 \<le> ms_timeout_ms m \<and> ms_timeout_ms m \<le> 15000"
      "100 \<le> ms_expected_status m \<and> ms_expected_status m \<le> 599" "ms_timeout_ms m < ms_interval_seconds m * 1000"
    and o: "\<not> (opt_text ca \<noteq> None \<and> (\<not> is_str ca \<or> \<not> ca_ok x509 (str_of ca)))" "ms_upstream_ca m = opt_text ca"
      "\<not> (opt_text sn \<noteq> None \<and> (\<not> is_str sn \<or> \<not> server_name_ok (str_of sn)))" "ms_upstream_server_name m = opt_text sn"
    unfolding assertMonitorConfig_def Let_def ty_def [symmetric] ca_def [symmetric] sn_def [symmetric] int_between_def
    by (simp_all split: if_split_asm) (hypsubst, simp)+
  have "ms_type m \<in> {''http'', ''tcp''}" using t(1,4) by auto
  moreover have "pred_option (ca_ok x509) (ms_upstream_ca m)" "pred_option server_name_ok (ms_upstream_server_name m)"
    using o(1,3) unfolding opt_text_ok o(2,4) by simp_all
  ultimately show ?thesis using t n by (simp add: settings_ok_def)
qed

lemma assertMonitorConfig_fix: "settings_ok x509 m \<Longrightarrow> assertMonitorConfig x509 (settings_obj m) = Inr m"
proof -
  assume ok: "settings_ok x509 m"
  have g: "js_get (settings_obj m) ''enabled'' = JBool (ms_enabled m)" "js_get (settings_obj m) ''type'' = JStr (ms_type m)"
      "js_get (settings_obj m) ''path'' = JStr (ms_path m)" "js_get (settings_obj m) ''interval_seconds'' = JNum (ms_interval_seconds m)"
      "js_get (settings_obj m) ''timeout_ms'' = JNum (ms_timeout_ms m)" "js_get (settings_obj m) ''expected_status'' = JNum (ms_expected_status m)"
      "js_get (settings_obj m) ''alert_enabled'' = JBool (ms_alert_enabled m)" "js_get (settings_obj m) ''upstream_ca'' = nullable (ms_upstream_ca m)"
      "js_get (settings_obj m) ''upstream_server_name'' = nullable (ms_upstream_server_name m)"
      "js_get (settings_obj m) ''skip_certificate_verification'' = JBool (ms_skip_certificate_verification m)"
    by (simp_all add: settings_obj_def)
  have o: "is_obj (settings_obj m)" "set (js_keys (settings_obj m)) \<subseteq> set settings_required \<union> set settings_optional"
      "list_all (has_own (settings_obj m)) settings_required"
    by (simp_all add: settings_obj_def settings_required_def settings_optional_def js_keys_def has_own_def)
  have n: "\<not> (opt_text (nullable v) \<noteq> None \<and> (\<not> is_str (nullable v) \<or> \<not> P (str_of (nullable v))))" if "pred_option P v" for v P
    using that by (cases v) (auto simp: nullable_def opt_text_def)
  from ok n [of "ca_ok x509" "ms_upstream_ca m"] n [of server_name_ok "ms_upstream_server_name m"] show ?thesis
    by (auto simp: assertMonitorConfig_def g o Let_def settings_ok_def int_between_def)
qed

interpretation settings_norm: normalizer "assertMonitorConfig x509" settings_obj "settings_ok x509" for x509
  by unfold_locales (fact assertMonitorConfig_ok, fact assertMonitorConfig_fix)

text \<open>Monitor settings, whether sent to the interface or imported, are stored in one normal form: the type is HTTP or TCP, the path is safe and at
  most 255 characters long, interval, time limit and status are in their ranges with the time limit shorter than the interval, and certificate bundle and
  server name are valid or absent. Validating the stored settings again changes nothing.\<close>

theorem monitor_settings_normal_form:
  assumes "assertMonitorConfig x509 v = Inr m"
  shows "settings_ok x509 m \<and> assertMonitorConfig x509 (settings_obj m) = Inr m"
  using settings_norm.norm_ok [OF assms] settings_norm.norm_idem [OF assms] by simp

definition settings0 :: jsval where
  "settings0 = JObj [(''enabled'', JBool True), (''type'', JStr ''tcp''), (''path'', JStr ''/''), (''interval_seconds'', JNum 60),
     (''timeout_ms'', JNum 500), (''expected_status'', JNum 200), (''alert_enabled'', JBool False), (''upstream_server_name'', Null)]"

theorem monitor_settings_normal_form_witness:
  "\<exists>m. assertMonitorConfig (\<lambda>_. False) settings0 = Inr m \<and> ms_timeout_ms m = 500 \<and> assertMonitorConfig (\<lambda>_. False) (settings_obj m) = Inr m"
proof -
  have "path_char (CHR ''/'')" by code_simp
  then have "(case assertMonitorConfig (\<lambda>_. False) settings0 of Inr m \<Rightarrow> ms_timeout_ms m = 500 | Inl _ \<Rightarrow> False)"
    by (simp add: assertMonitorConfig_def settings0_def settings_required_def settings_optional_def js_keys_def has_own_def
      int_between_def SAFE_PATH_def starts_with_def opt_text_def)
  then obtain m where m: "assertMonitorConfig (\<lambda>_. False) settings0 = Inr m" "ms_timeout_ms m = 500" by (auto split: sum.splits)
  from monitor_settings_normal_form [OF m(1)] m show ?thesis by simp
qed

section \<open>Probes\<close>

definition phases :: "string set" where
  "phases = {''resolving'', ''connecting'', ''tls'', ''headers''}"

text \<open>Every text a probe can report.\<close>

definition probe_messages :: "string set" where
  "probe_messages = {''TLS certificate could not be verified'', ''Connection failed'', ''Invalid upstream'', ''TCP connected'', ''Stopped'', ''HTTP unknown''} \<union>
     snd ` set NETWORK_ERRORS \<union> {''HTTP '' @ int_str n | n. True} \<union> {''Timed out during '' @ f | f. f \<in> phases}"

lemma networkMessage_known: "networkMessage c h \<in> probe_messages"
proof -
  have "map_of NETWORK_ERRORS x = Some m \<Longrightarrow> m \<in> snd ` set NETWORK_ERRORS" for x m by (force dest: map_of_SomeD)
  then show ?thesis by (auto simp: networkMessage_def probe_messages_def split: option.splits)
qed

lemma phase_messages: "f \<in> phases \<Longrightarrow> ''Timed out during '' @ f \<in> probe_messages" "''HTTP '' @ int_str n \<in> probe_messages"
  by (auto simp: probe_messages_def)

lemma fixed_messages: "''TLS certificate could not be verified'' \<in> probe_messages" "''Invalid upstream'' \<in> probe_messages"
    "''TCP connected'' \<in> probe_messages" "''Stopped'' \<in> probe_messages" "''HTTP unknown'' \<in> probe_messages"
  by (simp_all add: probe_messages_def)

lemmas known_messages = networkMessage_known fixed_messages phase_messages [simplified]

lemma next_phase_in: "f \<in> phases \<Longrightarrow> next_phase h seen ev f \<in> phases"
  by (auto simp: next_phase_def phases_def split: probe_event.splits)

lemma first_phase_in: "first_phase t \<in> phases"
  by (simp add: first_phase_def phases_def)

lemma http_settle_known: "http_settle h c f ns ev = Some r \<Longrightarrow> f \<in> phases \<Longrightarrow> cr_message r \<in> probe_messages \<and>
    (cr_state r = St_up \<longleftrightarrow> ev = Ev_response (Some (pc_expected_status c))) \<and> (cr_state r = St_up \<longrightarrow> cr_status_code r = Some (pc_expected_status c))"
  by (auto simp: http_settle_def down_result_def known_messages split: probe_event.splits option.splits if_splits)

lemma tcp_settle_known: "tcp_settle f ns ev = Some r \<Longrightarrow> f \<in> phases \<Longrightarrow> cr_message r \<in> probe_messages \<and> (cr_state r = St_up \<longleftrightarrow> ev = Ev_connect)"
  by (auto simp: tcp_settle_def down_result_def known_messages split: probe_event.splits)

lemma http_events_known:
  "http_events h c seen f evs = Some r \<Longrightarrow> f \<in> phases \<Longrightarrow> cr_message r \<in> probe_messages \<and>
     (cr_state r = St_up \<longrightarrow> Ev_response (Some (pc_expected_status c)) \<in> snd ` set evs)"
proof (induction h c seen f evs rule: http_events.induct)
  case (2 https c seen phase ns ev evs)
  then show ?case by (auto simp: next_phase_in split: option.splits dest: http_settle_known)
qed simp

lemma tcp_events_known:
  "tcp_events f evs = Some r \<Longrightarrow> f \<in> phases \<Longrightarrow> cr_message r \<in> probe_messages \<and> (cr_state r = St_up \<longrightarrow> Ev_connect \<in> snd ` set evs)"
proof (induction f evs rule: tcp_events.induct)
  case (2 phase ns ev evs)
  have "''connecting'' \<in> phases" by (simp add: phases_def)
  with 2 show ?case by (auto split: option.splits if_splits dest: tcp_settle_known)
qed simp

lemma http_events_settle: "Ev_timeout \<in> snd ` set evs \<Longrightarrow> \<exists>r. http_events h c seen f evs = Some r"
  by (induction h c seen f evs rule: http_events.induct) (auto simp: http_settle_def split: option.splits)

lemma tcp_events_settle: "Ev_timeout \<in> snd ` set evs \<Longrightarrow> \<exists>r. tcp_events f evs = Some r"
  by (induction f evs rule: tcp_events.induct) (auto simp: tcp_settle_def split: option.splits)

lemma probe_one_answers:
  assumes "Ev_timeout \<in> snd ` set (io_events io i)"
  obtains r where "probe_one io type i t c = Some r"
proof -
  have "\<exists>r. probe_one io type i t c = Some r"
    using http_events_settle [OF assms] tcp_events_settle [OF assms] by (simp add: probe_one_def probeHttp_def probeTcp_def)
  with that show thesis by blast
qed

lemma probe_one_known:
  assumes "probe_one io type i t c = Some r"
  shows "cr_message r \<in> probe_messages \<and> (cr_state r = St_up \<longrightarrow>
     (if type = ''tcp'' then Ev_connect \<in> snd ` set (io_events io i)
      else Ev_response (Some (pc_expected_status c)) \<in> snd ` set (io_events io i)))"
  using assms http_events_known [OF _ first_phase_in] tcp_events_known [OF _ first_phase_in]
  by (auto simp: probe_one_def probeHttp_def probeTcp_def down_result_def known_messages split: if_splits)

section \<open>Pools\<close>

abbreviation obs_state :: "pool_observation \<Rightarrow> check_state" where
  "obs_state o' \<equiv> cr_state (po_result o')"

text \<open>What the loop adds to the observations: results of the next candidates in order, none of which but the last is up.\<close>

definition probed :: "pool_target list \<Rightarrow> pool_observation list \<Rightarrow> bool" where
  "probed ts obs \<longleftrightarrow> length obs \<le> length ts \<and> map po_id obs = map ut_id (take (length obs) ts) \<and>
     (\<forall>o' \<in> set (butlast obs). obs_state o' \<noteq> St_up) \<and>
     (\<forall>o' \<in> set obs. obs_state o' = St_down \<longrightarrow> \<not> starts_with (cr_message (po_result o')) ''Timed out during'')"

lemma probed_simps:
  "probed ts []"
  "obs_state o' \<noteq> St_up \<or> obs = [] \<Longrightarrow> probed (t # ts) (o' # obs) \<longleftrightarrow> po_id o' = ut_id t \<and>
     (obs_state o' = St_down \<longrightarrow> \<not> starts_with (cr_message (po_result o')) ''Timed out during'') \<and> probed ts obs"
  by (auto simp: probed_def)

lemma slice_result_down: "cr_state (slice_result r) = St_down \<Longrightarrow> \<not> starts_with (cr_message (slice_result r)) ''Timed out during''"
  by (auto simp: slice_result_def)

lemma pool_loop_probed:
  assumes "\<forall>j. Ev_timeout \<in> snd ` set (io_events io j)"
  shows "\<exists>new. pool_loop io scheme type c p can i ts obs = Some (obs @ new) \<and> probed ts new"
proof (induction ts arbitrary: i obs)
  case (Cons t ts)
  define rem where "rem = pc_timeout_ms c * 1000000 - io_clock io i"
  define cfg where "cfg = pool_options p can t (slice_budget rem (Suc (length ts))) c"
  define up where "up = \<lparr>tg_scheme = scheme, tg_host = ut_host t, tg_port = ut_port t, tg_path = pc_path c\<rparr>"
  obtain r where r: "probe_one io type i up cfg = Some r" using assms probe_one_answers by blast
  define o' where "o' = \<lparr>po_id = ut_id t, po_result = slice_result r\<rparr>"
  have o: "po_id o' = ut_id t" "obs_state o' = cr_state (slice_result r)"
      "obs_state o' = St_down \<longrightarrow> \<not> starts_with (cr_message (po_result o')) ''Timed out during''"
    using slice_result_down by (simp_all add: o'_def)
  have eq: "pool_loop io scheme type c p can i (t # ts) obs =
      (if io_aborted io i \<or> rem \<le> 0 then Some obs else if obs_state o' = St_up then Some (obs @ [o'])
       else pool_loop io scheme type c p can (Suc i) ts (obs @ [o']))"
    using r by (simp add: rem_def cfg_def up_def o'_def Let_def)
  consider "io_aborted io i \<or> rem \<le> 0" | "\<not> (io_aborted io i \<or> rem \<le> 0)" "obs_state o' = St_up"
    | "\<not> (io_aborted io i \<or> rem \<le> 0)" "obs_state o' \<noteq> St_up" by blast
  then show ?case
  proof cases
    case 1
    then have "pool_loop io scheme type c p can i (t # ts) obs = Some (obs @ []) \<and> probed (t # ts) []" by (simp add: eq probed_simps del: pool_loop.simps)
    then show ?thesis by blast
  next
    case 2
    then have "pool_loop io scheme type c p can i (t # ts) obs = Some (obs @ [o']) \<and> probed (t # ts) [o']"
      using o by (simp add: eq probed_simps del: pool_loop.simps)
    then show ?thesis by blast
  next
    case 3
    obtain new where "pool_loop io scheme type c p can (Suc i) ts (obs @ [o']) = Some ((obs @ [o']) @ new)" "probed ts new"
      using Cons.IH by blast
    with 3 o have "pool_loop io scheme type c p can i (t # ts) obs = Some (obs @ o' # new) \<and> probed (t # ts) (o' # new)"
      by (simp add: eq probed_simps del: pool_loop.simps)
    then show ?thesis by blast
  qed
qed (simp add: probed_simps)

text \<open>C33. A pool is measured without guessing. As every probe has a timer, the measurement ends; it asks the targets in order, all primary ones before any
  backup, and stops at the first that answers. The pool is up exactly when that target answered, and down only when every target was asked and
  failed for a reason other than the shared time limit; in every other case it is unknown.\<close>

theorem pool_measured_soundly:
  assumes "\<forall>i. Ev_timeout \<in> snd ` set (io_events io i)"
  shows "\<exists>r obs. probePool io scheme domains type c p = Some (r, obs) \<and>
    map po_id obs = map ut_id (take (length obs) (filter (\<lambda>t. \<not> ut_backup t) (up_targets p) @ filter ut_backup (up_targets p))) \<and>
    (\<forall>o' \<in> set (butlast obs). obs_state o' \<noteq> St_up) \<and>
    (cr_state r = St_up \<longleftrightarrow> obs \<noteq> [] \<and> obs_state (last obs) = St_up) \<and>
    (cr_state r = St_down \<longrightarrow> length obs = length (up_targets p) \<and>
       (\<forall>o' \<in> set obs. obs_state o' = St_down \<and> \<not> starts_with (cr_message (po_result o')) ''Timed out during''))"
proof -
  obtain obs where l: "pool_loop io scheme type c p (List.find canonical_name domains) 0 (candidates p) [] = Some obs" "probed (candidates p) obs"
    using pool_loop_probed [OF assms] by force
  define r where "r = pool_verdict (length (candidates p)) (io_finished io) obs"
  have "probePool io scheme domains type c p = Some (r, obs)" by (simp add: probePool_def l(1) r_def)
  moreover have n: "length (candidates p) = length (up_targets p)"
    using sum_length_filter_compl [of ut_backup "up_targets p"] by (simp add: candidates_def)
  moreover have "cr_state r = St_up \<longleftrightarrow> obs \<noteq> [] \<and> obs_state (last obs) = St_up" by (auto simp: r_def pool_verdict_def Let_def)
  moreover have "length obs = length (up_targets p)" "\<forall>o' \<in> set obs. obs_state o' = St_down" if "cr_state r = St_down"
  proof -
    from that have d: "\<not> (obs \<noteq> [] \<and> obs_state (last obs) = St_up)" "\<forall>o' \<in> set obs. obs_state o' \<noteq> St_unknown" "length (candidates p) \<le> length obs"
      by (auto simp: r_def pool_verdict_def Let_def split: if_splits)
    with l(2) n show "length obs = length (up_targets p)" by (simp add: probed_def)
    have "obs_state o' \<noteq> St_up" if "o' \<in> set obs" for o'
      using that d(1) l(2) by (cases obs rule: rev_cases) (auto simp: probed_def)
    with d(2) show "\<forall>o' \<in> set obs. obs_state o' = St_down" using check_state.exhaust by metis
  qed
  ultimately show ?thesis using l(2) by (auto simp: probed_def candidates_def)
qed

definition io0 :: probe_io where
  "io0 = \<lparr>io_request_ok = (\<lambda>_. True), io_connect_ok = (\<lambda>_ _. True),
     io_events = (\<lambda>i. if i = 0 then [(3, Ev_error (Some ''ECONNREFUSED'')), (5, Ev_timeout)] else [(2, Ev_connect), (5, Ev_timeout)]),
     io_aborted = (\<lambda>_. False), io_clock = (\<lambda>_. 0), io_finished = 9\<rparr>"

definition probe_config0 :: probe_config where
  "probe_config0 = \<lparr>pc_path = ''/'', pc_timeout_ms = 500, pc_expected_status = 200, pc_upstream_ca = None,
     pc_upstream_server_name = None, pc_skip_certificate_verification = False, pc_host_header = None\<rparr>"

definition two_targets :: pool where
  "two_targets = \<lparr>up_enabled = True,
     up_targets = [\<lparr>ut_id = ''a'', ut_label = ''a'', ut_host = ''a'', ut_port = 1, ut_weight = 1, ut_backup = True, ut_max_fails = 1, ut_fail_timeout = 1\<rparr>,
       \<lparr>ut_id = ''b'', ut_label = ''b'', ut_host = ''b'', ut_port = 1, ut_weight = 1, ut_backup = False, ut_max_fails = 1, ut_fail_timeout = 1\<rparr>],
     up_connect_timeout = 1, up_read_timeout = 1, up_tls_verify = True, up_host_header = None, up_tls_server_name = None\<rparr>"

theorem pool_measured_soundly_witness:
  "\<exists>r obs. probePool io0 (JStr ''http'') [] ''tcp'' probe_config0 two_targets = Some (r, obs) \<and> map po_id obs = [''b'', ''a''] \<and> cr_state r = St_up"
proof -
  have "\<forall>i. Ev_timeout \<in> snd ` set (io_events io0 i)" by (simp add: io0_def)
  from pool_measured_soundly [OF this, of "JStr ''http''" "[]" "''tcp''" probe_config0 two_targets]
  obtain r obs where r: "probePool io0 (JStr ''http'') [] ''tcp'' probe_config0 two_targets = Some (r, obs)"
      "map po_id obs = map ut_id (take (length obs) (filter (\<lambda>t. \<not> ut_backup t) (up_targets two_targets) @ filter ut_backup (up_targets two_targets)))"
      "cr_state r = St_up \<longleftrightarrow> obs \<noteq> [] \<and> obs_state (last obs) = St_up" by blast
  have l: "length obs = 2" "obs_state (last obs) = St_up" using r(1)
    by (auto simp: probePool_def candidates_def two_targets_def io0_def probe_config0_def probe_one_def probeTcp_def tcp_settle_def
      down_result_def networkMessage_def NETWORK_ERRORS_def slice_result_def starts_with_def Let_def)
  then have "obs \<noteq> []" by auto
  with r l show ?thesis by (simp add: two_targets_def)
qed

end
