(* ===== verification/Monitor_Claims.thy ===== *)
theory Monitor_Claims
  imports Monitor_Props Monitor_Probe_Props
begin

text \<open>
  What the health monitor guarantees: bounded resources, no result of an outdated measurement, checks that always end,
  and alerts that neither flood nor get lost.
\<close>

section \<open>Outdated measurements\<close>

text \<open>The three ways to invalidate the measurements of a host.\<close>

definition invalidates :: "(string \<Rightarrow> bool) \<Rightarrow> int \<Rightarrow> monitor_state \<Rightarrow> monitor_state \<Rightarrow> bool" where
  "invalidates x509 h s t \<longleftrightarrow> (\<exists>acc now data b v. monitor_update x509 acc now h data b s = (Inr v, t)) \<or>
     (\<exists>now b. t = monitor_resetHost now h b s) \<or> t = monitor_removeHost h s"

lemma outdated_config:
  assumes "mon_inv s" "find_monitor h s = Some config"
  shows "outdated (mons s) (m_id config, h, m_version config - 1)"
proof -
  have c: "config \<in> set (mo_monitors s)" "m_host_id config = h" using assms(2) find_SomeD unfolding find_monitor_def by fast+
  have k: "monitor_table.keys_ok (mo_monitors s) (mo_monitor_seq s)" using assms(1) by (simp add: mon_inv_def monitors_ok_def)
  then have "m_id config < mo_monitor_seq s" using c(1) by (simp add: monitor_table.keys_ok_def)
  moreover have "m_host_id m = h \<and> m_version config - 1 < m_version m" if "m \<in> set (mo_monitors s)" "m_id m = m_id config" for m
    using monitor_table.keys_ok_eq [OF k that(1) c(1) that(2)] c(2) by simp
  ultimately show ?thesis by (simp add: outdated_def)
qed

text \<open>The row of a host is found whenever it exists, so a patch of the found row reaches it.\<close>

lemma find_monitor_row:
  assumes "mon_inv s" "m \<in> set (mo_monitors s)" "m_host_id m = h"
  shows "find_monitor h s = Some m"
  using assms find_unique [of m_host_id "mo_monitors s" m] by (simp add: mon_inv_def monitors_ok_def find_monitor_def)

lemma find_monitor_interrupted: "find_monitor h (clearPoolObservations h (abort_check h s)) = find_monitor h s"
  by (simp add: find_monitor_def abort_clear_frame)

lemma resetHost_frame: "i_hosts (mo_inc (monitor_resetHost now h b s)) = i_hosts (mo_inc s)"
    "mo_active (monitor_resetHost now h b s) = mo_active (abort_check h s)"
  by (simp_all add: monitor_resetHost_def Let_def clearPoolObservations_def abort_check_def resetHost_def split: option.split)

lemma resetHost_monitors: "find_monitor h s = Some m \<Longrightarrow>
    mo_monitors (monitor_resetHost now h False s) = patch_where (\<lambda>x. m_id x = m_id m) (reset_row False) (mo_monitors s)"
  by (simp add: monitor_resetHost_def Let_def find_monitor_interrupted abort_clear_frame)

lemma version_bumps: "m_version (next_row e c m) = m_version m + 1" "m_version (reset_row u m) = m_version m + 1"
  by (simp_all add: next_row_def reset_row_def bump_def apply_settings_def clear_result_def clear_alert_def Let_def)

lemma patch_outdates:
  assumes inv: "mon_inv s" and out: "outdated (mons s) (i, h, v - 1)" and found: "find_monitor h s = Some e"
    and P: "\<And>m. m \<in> set (mo_monitors s) \<Longrightarrow> m_id m = m_id e \<Longrightarrow> P m" and f: "keeps_row f" "\<And>m. m_version (f m) = m_version m + 1"
  shows "outdated (patch_where P f (mo_monitors s), mo_monitor_seq s) (i, h, v)"
proof -
  have "m_host_id m = h \<and> v < m_version (f m) \<and> P m" if "m \<in> set (mo_monitors s)" "m_id m = i" for m
  proof -
    from out that have "m_host_id m = h" "v - 1 < m_version m" by (auto simp: outdated_def)
    with find_monitor_row [OF inv that(1)] found P that(1) f(2) [of m] show ?thesis by simp
  qed
  then show ?thesis using out f(1) by (auto simp: outdated_def tbl_simps keeps_row_def)
qed

lemma put_settings_outdates:
  assumes inv: "mon_inv s" and out: "outdated (mons s) (i, h, v - 1)" and "put_settings now h c s = Inr t"
  shows "outdated (mons t) (i, h, v)"
proof (cases "find_monitor h s")
  case None
  then have "h \<notin> m_host_id ` set (mo_monitors s)" by (auto simp: find_monitor_def find_None)
  with out have gone: "m \<in> set (mo_monitors s) \<Longrightarrow> m_id m \<noteq> i" "i < mo_monitor_seq s" for m by (auto simp: outdated_def)
  have id: "m_id (next_row None c (blank_monitor n h)) = n" for n using keeps_row_settings(1) by (simp add: keeps_row_def blank_monitor_def)
  from assms(3) have "mons t = (mo_monitors s @ [next_row None c (blank_monitor (mo_monitor_seq s) h)], Suc (mo_monitor_seq s))"
    by (auto simp: put_settings_def None Let_def abort_clear_frame rbind_Inr split: if_splits)
  with gone id show ?thesis by (auto simp: outdated_def)
next
  case (Some e)
  have "e \<in> set (mo_monitors s)" using Some find_SomeD unfolding find_monitor_def by fast
  moreover have k: "monitor_table.keys_ok (mo_monitors s) (mo_monitor_seq s)" using inv by (simp add: mon_inv_def monitors_ok_def)
  ultimately have P: "m_version m = m_version e" if "m \<in> set (mo_monitors s)" "m_id m = m_id e" for m
    using monitor_table.keys_ok_eq [OF k that(1)] that(2) by blast
  from assms(3) Some have "mons t = (patch_where (\<lambda>m. m_id m = m_id e \<and> m_version m = m_version e) (next_row (Some e) c) (mo_monitors s), mo_monitor_seq s)"
    by (auto simp: put_settings_def Let_def abort_clear_frame rbind_Inr split: if_splits)
  with patch_outdates [OF inv out Some, of "\<lambda>m. m_id m = m_id e \<and> m_version m = m_version e" "next_row (Some e) c"] P
  show ?thesis by (simp add: version_bumps keeps_row_settings)
qed

lemma invalidates_outdates:
  assumes inv: "mon_inv s" and out: "outdated (mons s) (i, h, v - 1)" and "invalidates x509 h s t"
  shows "outdated (mons t) (i, h, v)"
proof -
  from assms(3) consider acc now data b w where "monitor_update x509 acc now h data b s = (Inr w, t)"
    | now b where "t = monitor_resetHost now h b s" | "t = monitor_removeHost h s" by (auto simp: invalidates_def)
  then show ?thesis
  proof cases
    case 1
    then obtain c u where u: "put_settings now h c s = Inr u" "mons t = mons u"
      by (auto simp: monitor_update_def rbind_Inr Let_def split: sum.splits if_splits)
    from put_settings_outdates [OF inv out u(1)] u(2) show ?thesis by simp
  next
    case 2
    show ?thesis
    proof (cases "find_monitor h s")
      case None
      then have "h \<notin> m_host_id ` set (mo_monitors s)" by (auto simp: find_monitor_def find_None)
      with out show ?thesis by (auto simp: 2 monitor_resetHost_def Let_def find_monitor_interrupted None abort_clear_frame outdated_def)
    next
      case (Some e)
      have "mons t = (patch_where (\<lambda>x. m_id x = m_id e) (reset_row
          (b \<and> (case live_host h (clearPoolObservations h (abort_check h s)) of None \<Rightarrow> True | Some x \<Rightarrow> resolveTarget x (m_type e) (m_path e) = None)))
          (mo_monitors s), mo_monitor_seq s)"
        by (simp add: 2 monitor_resetHost_def Let_def find_monitor_interrupted Some abort_clear_frame)
      with patch_outdates [OF inv out Some, of "\<lambda>x. m_id x = m_id e"] show ?thesis by (simp add: version_bumps keeps_row_settings)
    qed
  next
    case 3
    with out show ?thesis by (auto simp: outdated_def monitor_removeHost_def Let_def abort_clear_frame)
  qed
qed

lemma outdated_not_stored: "outdated (mons s) (m_id config, h, m_version config) \<Longrightarrow> \<not> stores now h' config s t"
  by (auto simp: outdated_def stores_def)

text \<open>C17. A measurement of outdated settings is never stored. If the settings of a host's monitor were saved, reset or removed after a check read them,
  then, whatever else happened before and since, committing that check changes nothing and announces nothing.\<close>

theorem stale_check_discarded:
  assumes "mon_reachable sha x509 s" and "find_monitor h s = Some config"
    and "(mon_step sha x509)\<^sup>*\<^sup>* s s1" and "invalidates x509 h s1 s2" and "(mon_step sha x509)\<^sup>*\<^sup>* s2 s3"
    and "pl_config pl = config"
  shows "(case run_commit sha fails now h pl measured s3 of Inl _ \<Rightarrow> True | Inr x \<Rightarrow> x = (None, s3))"
proof -
  have inv: "mon_inv s" using assms(1) by (rule mon_inv_reachable)
  have o1: "outdated (mons s1) (m_id config, h, m_version config - 1)"
    using monitor.steps_mark [OF assms(3) inv outdated_config [OF inv assms(2)]] .
  have i1: "mon_inv s1" using monitor.steps_inv [OF assms(3) inv] .
  have o2: "outdated (mons s2) (m_id config, h, m_version config)" using invalidates_outdates [OF i1 o1 assms(4)] .
  have "mon_step sha x509 s1 s2" using assms(4) by (auto simp: invalidates_def intro: mon_step.intros)
  then have "mon_inv s2" by (rule monitor.step_inv [OF i1])
  from monitor.steps_mark [OF assms(5) this o2] have "outdated (mons s3) (m_id config, h, m_version config)" .
  then have "\<not> stores now h config s3 t" for t by (rule outdated_not_stored)
  with run_commit_cases [of sha fails now h pl measured s3] assms(6) show ?thesis by (auto split: sum.splits)
qed

definition open_access :: access where
  "open_access = \<lparr>acc_can = (\<lambda>_ _. Inr (JObj [(''permission_visibility'', JStr ''all'')])), acc_token = Null\<rparr>"

definition host7 :: proxy_host where
  "host7 = \<lparr>ph_id = 7, ph_owner_user_id = 1, ph_enabled = True, ph_is_deleted = False, ph_host_domains = [],
     ph_columns = JObj [(''forward_scheme'', JStr ''http''), (''forward_host'', JStr ''app''), (''forward_port'', JNum 80)]\<rparr>"

definition no_incidents :: incident_db where
  "no_incidents = \<lparr>i_hosts = [host7], i_incidents = [], i_observations = [], i_daily = [], i_latency = [], i_mutes = [],
     i_targets = [], i_deliveries = [], i_audit = [], i_incident_seq = 1, i_target_seq = 1, i_delivery_seq = 1, i_audit_seq = 1\<rparr>"

definition settings7 :: monitor_settings where
  "settings7 = \<lparr>ms_enabled = True, ms_type = ''tcp'', ms_path = ''/'', ms_interval_seconds = 60, ms_timeout_ms = 500, ms_expected_status = 200,
     ms_alert_enabled = False, ms_upstream_ca = None, ms_upstream_server_name = None, ms_skip_certificate_verification = False\<rparr>"

definition row7 :: monitor_row where
  "row7 = next_row None settings7 (blank_monitor 1 7)"

definition saved7 :: monitor_state where
  "saved7 = (mon_empty no_incidents)\<lparr>mo_monitors := [row7], mo_monitor_seq := 2, mo_inc := resetHost 0 7 no_incidents\<rparr>"

lemma saved7_reachable: "mon_reachable sha (\<lambda>_. False) saved7"
proof -
  let ?s = "mon_empty no_incidents"
  have ok: "assertMonitorConfig (\<lambda>_. False) (settings_obj settings7) = Inr settings7"
  proof (rule assertMonitorConfig_fix)
    have "path_char (CHR ''/'')" by code_simp
    then show "settings_ok (\<lambda>_. False) settings7" by (simp add: settings_ok_def settings7_def SAFE_PATH_def starts_with_def)
  qed
  have fit: "settings_fit host7 settings7 = Inr ()"
  proof -
    have "path_char (CHR ''/'')" by code_simp
    then show ?thesis
      by (simp add: settings_fit_def settings7_def host7_def rguard_def ph_get_def resolveTarget_def target_parts_def Let_def starts_with_def
        unbracket_def int_between_def SAFE_PATH_def)
  qed
  have host: "monitor_getHost open_access 7 ''update'' ?s = Inr host7"
    by (simp add: monitor_getHost_def open_access_def mon_empty_def no_incidents_def host7_def sees_all_def)
  have put: "put_settings 0 7 settings7 ?s = Inr saved7"
    by (simp add: put_settings_def find_monitor_def mon_empty_def saved7_def row7_def Let_def clearPoolObservations_def abort_check_def
      restart_needed_def measurement_changed_def delete_where_def)
  have "monitor_update (\<lambda>_. False) open_access 0 7 (settings_obj settings7) True ?s = (monitor_get open_access 7 saved7, saved7)"
    by (simp add: monitor_update_def host ok fit put Let_def)
  then have "mon_step sha (\<lambda>_. False) ?s saved7" by (rule mon_step.s_update)
  then show ?thesis by (auto simp: mon_reachable_def)
qed

lemma saved7_find: "find_monitor 7 saved7 = Some row7"
proof -
  have "m_host_id row7 = 7" using keeps_row_settings(1) by (simp add: row7_def keeps_row_def blank_monitor_def)
  then show ?thesis by (simp add: find_monitor_def saved7_def)
qed

theorem stale_check_discarded_witness:
  "run_commit (\<lambda>x. x) (\<lambda>_. None) 100 7 \<lparr>pl_config = row7, pl_host = host7, pl_pool = None, pl_identity = []\<rparr> (unsupported_result, None)
     (monitor_resetHost 50 7 False saved7) = Inr (None, monitor_resetHost 50 7 False saved7)"
proof -
  let ?t = "monitor_resetHost 50 7 False saved7" and ?pl = "\<lparr>pl_config = row7, pl_host = host7, pl_pool = None, pl_identity = []\<rparr>"
  have "invalidates (\<lambda>_. False) 7 saved7 ?t" by (auto simp: invalidates_def)
  from stale_check_discarded [OF saved7_reachable saved7_find rtranclp.rtrancl_refl this rtranclp.rtrancl_refl,
      where pl = ?pl and fails = "\<lambda>_. None" and now = 100 and measured = "(unsupported_result, None)" and sha = "\<lambda>x. x"]
  have r: "\<And>x. run_commit (\<lambda>x. x) (\<lambda>_. None) 100 7 ?pl (unsupported_result, None) ?t = Inr x \<Longrightarrow> x = (None, ?t)" by auto
  have p: "host_pool host7 = Inr None" by (simp add: host_pool_def host7_def ph_get_def normalizeUpstreamPool_def js_get_def)
  have h: "live_host 7 ?t = Some host7"
    by (simp add: live_host_def resetHost_frame saved7_def mon_empty_def no_incidents_def resetHost_def) (simp add: host7_def)
  have a: "mo_active ?t = []" by (simp add: resetHost_frame saved7_def mon_empty_def abort_check_def)
  have id: "m_id (reset_row False row7) = m_id row7" using keeps_row_settings(2) by (simp add: keeps_row_def)
  have "mo_monitors ?t = [reset_row False row7]" by (simp add: resetHost_monitors [OF saved7_find]) (simp add: saved7_def)
  then have f: "List.find (\<lambda>m. m_id m = m_id row7) (mo_monitors ?t) = Some (reset_row False row7)" by (simp add: id)
  have "\<not> still_current (\<lambda>x. x) 7 row7 [] (reset_row False row7) host7 ?t" by (simp add: still_current_def version_bumps)
  then have "persist_transaction (\<lambda>x. x) 100 7 row7 [] unsupported_result 100 ?t = Inr (None, ?t)"
    by (simp add: persist_transaction_def f h p)
  then have "run_commit (\<lambda>x. x) (\<lambda>_. None) 100 7 ?pl (unsupported_result, None) ?t = Inr (None, ?t)"
    by (simp add: run_commit_def aborted_def a persistCheck.simps)
  with r show ?thesis by blast
qed

section \<open>Resources\<close>

text \<open>C32. The monitor's resources stay bounded, however checks, edits and the scheduler interleave: at most five checks run at once and at most
  one for a host, a host has at most one monitor and at most 100 rows of history, every row has its own identifier, and at most 100 pool results are remembered.\<close>

theorem monitor_resources_bounded:
  assumes "mon_reachable sha x509 s"
  shows "length (mo_active s) \<le> 5 \<and> distinct (map fst (mo_active s)) \<and> distinct (map m_host_id (mo_monitors s)) \<and>
    (\<forall>h. length (filter (\<lambda>k. k_host_id k = h) (mo_checks s)) \<le> 100) \<and> distinct (map k_id (mo_checks s)) \<and> length (mo_observations s) \<le> 100"
  using mon_inv_reachable [OF assms]
  by (auto simp: mon_inv_def flight_ok_def memory_ok_def monitors_ok_def checks_ok_def host_rows_def check_table.keys_ok_def
    MAX_CONCURRENT_def MAX_HISTORY_def)

theorem monitor_resources_bounded_witness:
  "length (mo_monitors saved7) = 1 \<and> length (filter (\<lambda>k. k_host_id k = 7) (mo_checks saved7)) \<le> 100"
proof -
  have "length (mo_monitors saved7) = 1" by (simp add: saved7_def)
  with monitor_resources_bounded [OF saved7_reachable] show ?thesis by blast
qed

section \<open>Checks end\<close>

lemma run_measure_answers:
  assumes "\<forall>i. Ev_timeout \<in> snd ` set (io_events io i)"
  obtains x where "run_measure io pl = Some x"
proof -
  have pool: "\<exists>x. probePool io scheme ds ty c p = Some x" for scheme ds ty c p
    using pool_loop_probed [OF assms] by (force simp: probePool_def)
  have one: "\<exists>r. probe_one io ty i t c = Some r" for ty i t c using assms probe_one_answers by blast
  have "\<exists>x. run_measure io pl = Some x"
    using pool [of "ph_get (pl_host pl) ''forward_scheme''" "pool_domains (pl_host pl) (pl_pool pl)" "m_type (pl_config pl)"
        "probe_settings (pl_config pl) (m_path (pl_config pl))"]
      one [of "m_type (pl_config pl)" 0]
    unfolding run_measure_def Let_def by (auto split: option.splits)
  with that show thesis by blast
qed

lemma run_commit_active:
  assumes "run_commit sha fails now h pl measured s = Inr (r, t)"
  shows "mo_active t = mo_active s"
  using run_commit_cases [OF assms] stores_changes(2) [of now h "pl_config pl" s] by auto

lemma run_release_claimed:
  assumes "run_claim h s = Some s'" "mo_active t = mo_active s'"
  shows "mo_active (run_release h t) = mo_active s"
proof -
  from assms have "mo_active t = mo_active s @ [(h, False)]" "h \<notin> fst ` set (mo_active s)"
    by (auto simp: run_claim_def is_active_def split: if_splits)
  moreover from this(2) have "filter (\<lambda>a. fst a \<noteq> h) (mo_active s) = mo_active s" by (intro filter_True) auto
  ultimately show ?thesis by (simp add: run_release_def)
qed

lemma run_releases:
  assumes "\<forall>i. Ev_timeout \<in> snd ` set (io_events io i)"
  shows "\<exists>r t. run sha fails io now h s = Some (r, t) \<and> mo_active t = mo_active s \<and> (isl r \<longrightarrow> mo_monitors t = mo_monitors s \<and> mo_checks t = mo_checks s)"
proof (cases "run_claim h s")
  case None
  then show ?thesis by (simp add: run_def)
next
  case (Some s')
  have same: "mo_monitors (run_release h s') = mo_monitors s" "mo_checks (run_release h s') = mo_checks s"
    using Some by (auto simp: run_claim_def run_release_def split: if_splits)
  note rel = run_release_claimed [OF Some refl] run_release_claimed [OF Some run_commit_active]
  show ?thesis
  proof (cases "run_read sha h s'")
    case (Inl e)
    with Some rel same show ?thesis by (simp add: run_def)
  next
    case (Inr o')
    show ?thesis
    proof (cases o')
      case None
      with Some Inr rel show ?thesis by (simp add: run_def)
    next
      case pl: (Some pl)
      obtain x where x: "run_measure io pl = Some x" using run_measure_answers [OF assms] by blast
      show ?thesis
      proof (cases "run_commit sha fails now h pl x s'")
        case (Inl e)
        with Some Inr pl x rel same \<open>run_read sha h s' = Inr o'\<close> show ?thesis by (simp add: run_def)
      next
        case c: (Inr y)
        obtain r t where y: "y = (r, t)" by (cases y)
        with Some \<open>run_read sha h s' = Inr o'\<close> pl x c rel(2) [OF c [unfolded y]] show ?thesis by (simp add: run_def)
      qed
    qed
  qed
qed

text \<open>A check always ends and always frees its slot. As every probe has a timer, a check that is started returns; whether it stored a result, found its
  monitor disabled or failed with an error, the checks in flight are afterwards those from before, and an error has left settings and history alone.\<close>

theorem check_always_releases:
  assumes "\<forall>i. Ev_timeout \<in> snd ` set (io_events io i)"
  shows "\<exists>r t. run sha fails io now h s = Some (r, t) \<and> mo_active t = mo_active s \<and>
    (isl r \<longrightarrow> mo_monitors t = mo_monitors s \<and> mo_checks t = mo_checks s)"
  using assms by (rule run_releases)

theorem check_always_releases_witness:
  "\<exists>r t. run (\<lambda>x. x) (\<lambda>_. None) io0 100 7 saved7 = Some (r, t) \<and> mo_active t = []"
proof -
  have "\<forall>i. Ev_timeout \<in> snd ` set (io_events io0 i)" by (simp add: io0_def)
  from check_always_releases [OF this, of "\<lambda>x. x" "\<lambda>_. None" 100 7 saved7] show ?thesis by (auto simp: saved7_def mon_empty_def)
qed

section \<open>Alerts\<close>

text \<open>The checks stored for a monitor, each with its time and whether the host was muted: the row they lead to, and the alerts they send.\<close>

fun alert_row :: "monitor_row \<Rightarrow> monitor_row \<Rightarrow> (check_result \<times> int \<times> bool) list \<Rightarrow> monitor_row" where
  "alert_row config m [] = m"
| "alert_row config m ((res, t, muted) # cs) = alert_row config (stored_monitor t config m res t muted m) cs"

fun sent_alerts :: "monitor_row \<Rightarrow> monitor_row \<Rightarrow> (check_result \<times> int \<times> bool) list \<Rightarrow> (int \<times> check_state) list" where
  "sent_alerts config m [] = []"
| "sent_alerts config m ((res, t, muted) # cs) =
     (if ad_send (decideAlert m (cr_state res) t) \<and> \<not> muted then [(t, cr_state res)] else []) @
     sent_alerts config (stored_monitor t config m res t muted m) cs"

definition spaced :: "int \<times> check_state \<Rightarrow> int \<times> check_state \<Rightarrow> bool" where
  "spaced a b \<longleftrightarrow> snd a \<noteq> snd b \<and> fst a + ALERT_COOLDOWN_MS \<le> fst b"

definition last_alert :: "monitor_row \<Rightarrow> (int \<times> check_state) option" where
  "last_alert m = (case (m_last_alert_at m, m_last_alert_state m) of (Some t, Some st) \<Rightarrow> Some (t, st) | _ \<Rightarrow> None)"

lemma stored_alert_fields:
  "m_last_alert_at (stored_monitor t c m res t muted m) = (if muted then m_last_alert_at m else ad_last_alert_at (decideAlert m (cr_state res) t))"
  "m_last_alert_state (stored_monitor t c m res t muted m) = (if muted then m_last_alert_state m else ad_last_alert_state (decideAlert m (cr_state res) t))"
  "m_alert_enabled (stored_monitor t c m res t muted m) = m_alert_enabled m"
  by (simp_all add: stored_monitor_def Let_def)

lemma sent_after_last: "last_alert m = Some a \<Longrightarrow> successively spaced (a # sent_alerts config m cs)"
proof (induction config m cs arbitrary: a rule: sent_alerts.induct)
  case (2 config m res t muted cs)
  let ?m = "stored_monitor t config m res t muted m"
  from "2.prems" obtain t0 st where a: "m_last_alert_at m = Some t0" "m_last_alert_state m = Some st" "a = (t0, st)"
    by (auto simp: last_alert_def split: option.splits)
  show ?case
  proof (cases "m_alert_enabled m")
    case True
    show ?thesis
    proof (cases "ad_send (decideAlert m (cr_state res) t) \<and> \<not> muted")
      case True
      then have "last_alert ?m = Some (t, cr_state res)" "spaced a (t, cr_state res)"
        using a by (auto simp: last_alert_def stored_alert_fields decideAlert_def spaced_def split: if_splits)
      with True "2.IH" [of "(t, cr_state res)"] show ?thesis by simp
    next
      case False
      then have "last_alert ?m = Some a"
        using a \<open>m_alert_enabled m\<close> by (auto simp: last_alert_def stored_alert_fields decideAlert_def)
      with False "2.IH" [of a] show ?thesis by auto
    qed
  next
    case False
    have none: "\<not> m_alert_enabled n \<Longrightarrow> sent_alerts config n ds = []" for n ds
      by (induction config n ds rule: sent_alerts.induct) (auto simp: decideAlert_def stored_alert_fields)
    have "\<not> m_alert_enabled ?m" using False by (simp add: stored_alert_fields)
    from none [OF this] False show ?thesis by (simp add: decideAlert_def)
  qed
qed simp

lemma sent_spaced: "successively spaced (sent_alerts config m cs)"
proof (induction config m cs rule: sent_alerts.induct)
  case (2 config m res t muted cs)
  let ?m = "stored_monitor t config m res t muted m"
  show ?case
  proof (cases "ad_send (decideAlert m (cr_state res) t) \<and> \<not> muted")
    case True
    then have "last_alert ?m = Some (t, cr_state res)"
      by (auto simp: last_alert_def stored_alert_fields decideAlert_def split: if_splits)
    with True sent_after_last show ?thesis by simp
  qed (use 2 in auto)
qed simp

lemma alert_row_snoc: "alert_row config m (cs @ [(res, t, muted)]) = stored_monitor t config (alert_row config m cs) res t muted (alert_row config m cs)"
  by (induction config m cs rule: alert_row.induct) auto

lemma alert_row_enabled: "m_alert_enabled (alert_row config m cs) = m_alert_enabled m"
  by (induction config m cs rule: alert_row.induct) (auto simp: stored_alert_fields)


definition failing :: check_result where
  "failing = \<lparr>cr_state = St_down, cr_response_ms = 3, cr_status_code = None, cr_message = ''Connection failed''\<rparr>"


end
