(* ===== verification/Host_Meta.thy ===== *)
theory Host_Meta
  imports Traffic_Policy Access
begin

text \<open>
  What the host services share: the metadata of a host without credentials and without the retired request
  filters (\<open>backend/lib/host-response.js\<close>, \<open>backend/lib/retired-host-metadata.js\<close>), the restored policies of a
  revision (\<open>backend/lib/trusted-host-policies.js\<close>), the restriction of expanded relations
  (\<open>backend/lib/host-expansions.js\<close>) and the checks of \<open>backend/internal/host.js\<close>.

  A host is the object of its columns. Parameter: \<open>parse\<close> is \<open>JSON.parse\<close>, \<open>None\<close> for a syntax error. A
  property holding \<open>undefined\<close> counts as own.
\<close>

section \<open>Retired request filters\<close>

definition retiredHostMetadataFields :: "string list" where
  "retiredHostMetadataFields = [''wasm_filters'', ''wasmFilters'', ''wasm_status'', ''wasmStatus'']"

text \<open>At most two levels of JSON text, each of at most 16 MiB.\<close>

fun decode :: "(string \<Rightarrow> jsval option) \<Rightarrow> nat \<Rightarrow> jsval \<Rightarrow> jsval option" where
  "decode parse (Suc n) (JStr s) =
     (if 16 * 1024 * 1024 < int (length s) then None
      else (case parse s of None \<Rightarrow> None | Some v \<Rightarrow> decode parse n v))"
| "decode parse _ v = Some v"

definition readRetiredHostMetadata :: "(string \<Rightarrow> jsval option) \<Rightarrow> jsval \<Rightarrow> jsval result" where
  "readRetiredHostMetadata parse v =
     (if v = Undef \<or> v = Null then Inr (JObj [])
      else (case decode parse 2 v of
          Some (JObj kvs) \<Rightarrow> Inr (JObj kvs)
        | _ \<Rightarrow> Inl (JSTypeError ''Host metadata requires review before removed request filters can be migrated'')))"

definition active_filter :: "jsval \<Rightarrow> bool" where
  "active_filter f \<longleftrightarrow> \<not> is_obj f \<or> \<not> has_own f ''enabled'' \<or> truthy (js_get f ''enabled'')"

definition activeBindings :: "(string \<Rightarrow> jsval option) \<Rightarrow> jsval \<Rightarrow> bool" where
  "activeBindings parse v =
     (if v = Undef \<or> v = Null then False
      else (case decode parse 2 v of
          Some (JArr filters) \<Rightarrow> list_ex active_filter filters
        | _ \<Rightarrow> True))"

definition hasActiveRetiredHostBindings :: "(string \<Rightarrow> jsval option) \<Rightarrow> jsval \<Rightarrow> bool result" where
  "hasActiveRetiredHostBindings parse v =
     rbind (readRetiredHostMetadata parse v) (\<lambda>meta.
       Inr (activeBindings parse (js_get meta ''wasm_filters'') \<or> activeBindings parse (js_get meta ''wasmFilters'')))"

definition retireHostRuntime :: "(string \<Rightarrow> jsval option) \<Rightarrow> jsval \<Rightarrow> jsval result" where
  "retireHostRuntime parse host =
     rbind (hasActiveRetiredHostBindings parse (js_get host ''meta'')) (\<lambda>active.
     rbind (readRetiredHostMetadata parse (js_get host ''meta'')) (\<lambda>previous.
       let meta = props_omit retiredHostMetadataFields (obj_of previous)
       in Inr (if active
          then JObj (props_set ''meta'' (JObj (props_set ''nginx_online'' (JBool False) meta))
                       (props_set ''enabled'' (JNum 0) (obj_of host)))
          else JObj (props_set ''meta'' (JObj meta) (obj_of host)))))"

section \<open>Responses\<close>

definition secret_meta_fields :: "string list" where
  "secret_meta_fields = [''dns_provider_credentials'', ''dnsProviderCredentials''] @ retiredHostMetadataFields"

definition sanitizeHostMeta :: "(string \<Rightarrow> jsval option) \<Rightarrow> jsval \<Rightarrow> jsval result" where
  "sanitizeHostMeta parse meta =
     rbind (readRetiredHostMetadata parse meta) (\<lambda>m. Inr (JObj (props_omit secret_meta_fields (obj_of m))))"

text \<open>\<open>if (row[k]) row[k] = f(row[k])\<close>, without and with a possible exception.\<close>

definition on_truthy :: "string \<Rightarrow> (jsval \<Rightarrow> jsval) \<Rightarrow> (string \<times> jsval) list \<Rightarrow> (string \<times> jsval) list" where
  "on_truthy k f row = (if truthy (props_get row k) then props_set k (f (props_get row k)) row else row)"

definition on_truthy_res ::
  "string \<Rightarrow> (jsval \<Rightarrow> jsval result) \<Rightarrow> (string \<times> jsval) list \<Rightarrow> (string \<times> jsval) list result" where
  "on_truthy_res k f row =
     (if truthy (props_get row k) then rbind (f (props_get row k)) (\<lambda>v. Inr (props_set k v row)) else Inr row)"

definition access_list_secrets :: "string list" where
  "access_list_secrets = [''oauth2_client_secret'', ''oauth2_cookie_secret'', ''oidc_client_secret'',
     ''oauth2ClientSecret'', ''oauth2CookieSecret'', ''oidcClientSecret'']"

definition sanitize_access_list :: "jsval \<Rightarrow> jsval" where
  "sanitize_access_list al =
     (let kvs = props_set ''meta'' (JObj (props_omit access_list_secrets (obj_of (js_get al ''meta'')))) (obj_of al)
      in JObj (case props_get kvs ''items'' of
           JArr items \<Rightarrow> props_set ''items'' (JArr (map (\<lambda>i. JObj (props_omit [''password''] (obj_of i))) items)) kvs
         | _ \<Rightarrow> kvs))"

definition host_secret_fields :: "string list" where
  "host_secret_fields = [''is_deleted'', ''maintenance_pending'', ''git_credentials'', ''terminal_password'',
     ''terminal_private_key'']"

definition managed_host :: "jsval \<Rightarrow> bool" where
  "managed_host v \<longleftrightarrow> is_str v \<and> starts_with (str_of v) ''/data/websites/''"

text \<open>\<open>_.omit(row, "a.b")\<close>: a property of a nested object.\<close>

definition omit_nested :: "string \<Rightarrow> string \<Rightarrow> (string \<times> jsval) list \<Rightarrow> (string \<times> jsval) list" where
  "omit_nested a b row =
     (case props_get row a of JObj kvs \<Rightarrow> props_set a (JObj (props_omit [b] kvs)) row | _ \<Rightarrow> row)"

definition sanitizeProxyHost :: "(string \<Rightarrow> jsval option) \<Rightarrow> jsval \<Rightarrow> jsval result" where
  "sanitizeProxyHost parse host =
     (let row = omit_nested ''owner'' ''is_deleted'' (props_omit host_secret_fields (obj_of host))
      in rbind (on_truthy_res ''meta'' (sanitizeHostMeta parse) row) (\<lambda>row1.
           let row2 = (if managed_host (props_get row1 ''forward_host'')
                       then props_set ''forward_host'' (JStr ''(managed)'') row1 else row1);
               row3 = on_truthy ''certificate'' (\<lambda>c. JObj (props_set ''meta'' (JObj []) (obj_of c))) row2
           in Inr (JObj (on_truthy ''access_list'' sanitize_access_list row3))))"

definition cleanRowCertificateMeta :: "(string \<Rightarrow> jsval option) \<Rightarrow> jsval \<Rightarrow> jsval result" where
  "cleanRowCertificateMeta parse row =
     rbind (on_truthy_res ''meta'' (sanitizeHostMeta parse) (obj_of row)) (\<lambda>row1.
       Inr (JObj (on_truthy ''certificate'' (\<lambda>c. JObj (props_set ''meta'' (JObj []) (obj_of c))) row1)))"

definition cleanAllRowsCertificateMeta :: "(string \<Rightarrow> jsval option) \<Rightarrow> jsval list \<Rightarrow> jsval list result" where
  "cleanAllRowsCertificateMeta parse rows =
     rmap (\<lambda>row. rbind (on_truthy_res ''meta'' (sanitizeHostMeta parse) (obj_of row)) (\<lambda>row1.
       Inr (JObj (on_truthy ''certificate'' (\<lambda>c. JObj (props_set ''meta'' (JObj []) (obj_of c))) row1)))) rows"

definition validateTrustedHostPolicies :: "(string \<Rightarrow> jsval option) \<Rightarrow> jsval \<Rightarrow> jsval \<Rightarrow> jsval result" where
  "validateTrustedHostPolicies parse candidate previous =
     rbind (hasActiveRetiredHostBindings parse (js_get candidate ''meta'')) (\<lambda>active.
     rbind (retireHostRuntime parse candidate) (\<lambda>retired.
     rbind (sanitizeHostMeta parse (js_get retired ''meta'')) (\<lambda>meta.
       let c1 = props_set ''meta'' meta (obj_of candidate);
           c2 = (if active then props_set ''enabled'' (JNum 0) c1 else c1)
       in validateHostTrafficPolicy parse (JObj c2) (JObj (props_set ''meta'' (JObj []) (obj_of previous))))))"

section \<open>Expanded relations\<close>

text \<open>The visibility of the caller for a type of host; \<open>Null\<close> when the permission is refused.\<close>

definition hostVisibility :: "access \<Rightarrow> string \<Rightarrow> jsval result" where
  "hostVisibility acc t =
     (case acc_can acc (t @ '':list'') Undef of
        Inr grant \<Rightarrow> Inr (js_get grant ''permission_visibility'')
      | Inl (PermissionError m) \<Rightarrow> Inr Null
      | Inl e \<Rightarrow> Inl e)"

definition visible_row :: "access \<Rightarrow> jsval \<Rightarrow> jsval \<Rightarrow> bool" where
  "visible_row acc visibility row \<longleftrightarrow> visibility \<noteq> Null \<and>
     (visibility = JStr ''all'' \<or> js_get row ''owner_user_id'' = acc_user acc 1)"

text \<open>The rows a restricted query expands a relation to.\<close>

definition restrictHostExpansions ::
  "access \<Rightarrow> (string \<times> string) list \<Rightarrow> (string \<Rightarrow> jsval list option) \<Rightarrow> (string \<Rightarrow> jsval list option) result" where
  "restrictHostExpansions acc relations graph =
     rfold (\<lambda>(relation, t) g. case g relation of
         None \<Rightarrow> Inr g
       | Some rows \<Rightarrow> rbind (hostVisibility acc t) (\<lambda>v. Inr (g(relation \<mapsto> filter (visible_row acc v) rows)))) relations graph"

definition filterHostExpansions :: "access \<Rightarrow> (string \<times> string) list \<Rightarrow> jsval \<Rightarrow> jsval result" where
  "filterHostExpansions acc relations row =
     rfold (\<lambda>(relation, t) r. case js_get r relation of
         JArr rows \<Rightarrow> rbind (hostVisibility acc t) (\<lambda>v.
           Inr (JObj (props_set relation (JArr (if v = Null then [] else if v \<noteq> JStr ''all''
             then filter (\<lambda>h. js_get h ''owner_user_id'' = acc_user acc 1) rows else rows)) (obj_of r))))
       | _ \<Rightarrow> Inr r) relations row"

section \<open>Lemmas\<close>

text \<open>Metadata without the retired fields, and without any field a response must not carry.\<close>

definition clean_meta :: "jsval \<Rightarrow> bool" where
  "clean_meta m \<longleftrightarrow> list_all (\<lambda>k. js_get m k = Undef) retiredHostMetadataFields"

definition public_meta :: "jsval \<Rightarrow> bool" where
  "public_meta m \<longleftrightarrow> list_all (\<lambda>k. js_get m k = Undef) secret_meta_fields"

lemma public_clean: "public_meta m \<Longrightarrow> clean_meta m"
  by (simp add: public_meta_def clean_meta_def secret_meta_fields_def)

lemma sanitizeHostMeta_public: "sanitizeHostMeta parse v = Inr m \<Longrightarrow> public_meta m"
  by (auto simp: sanitizeHostMeta_def public_meta_def list_all_iff res_simps)

lemma sanitizeHostMeta_obj: "sanitizeHostMeta parse v = Inr m \<Longrightarrow> \<exists>kvs. m = JObj kvs"
  by (auto simp: sanitizeHostMeta_def res_simps)

lemma retire_enabled: "retireHostRuntime parse h = Inr h' \<Longrightarrow> \<not> truthy (js_get h ''enabled'') \<Longrightarrow> \<not> truthy (js_get h' ''enabled'')"
  by (auto simp: retireHostRuntime_def res_simps Let_def js_get_def split: if_splits)

lemma retire_dark:
  "retireHostRuntime parse h = Inr h' \<Longrightarrow> hasActiveRetiredHostBindings parse (js_get h ''meta'') = Inr True \<Longrightarrow>
     \<not> truthy (js_get h' ''enabled'')"
  by (auto simp: retireHostRuntime_def res_simps Let_def)

lemma retire_clean: "retireHostRuntime parse h = Inr h' \<Longrightarrow> clean_meta (js_get h' ''meta'')"
  by (auto simp: retireHostRuntime_def res_simps Let_def clean_meta_def list_all_iff retiredHostMetadataFields_def split: if_splits)

end
