(* ===== verification/Host_Checks.thy ===== *)
theory Host_Checks
  imports Host_Meta
begin

text \<open>
  The checks the host services share, \<open>backend/internal/host.js\<close>.

  Parameters. \<open>certificate_get\<close> and \<open>access_list_get\<close> read a resource with the caller's permission and fail when
  it is not visible; \<open>ilike\<close> is the database's case-insensitive pattern match; \<open>column_text\<close> is the text a JSON
  column is compared as. Tables hold the rows as the models return them: the objects of their columns.
\<close>

section \<open>References\<close>

definition referenceId :: "jsval \<Rightarrow> jsval" where
  "referenceId v =
     (case v of
        JStr s \<Rightarrow>
          if s = [] \<or> \<not> list_all is_digit s then v
          else if int (digits_value s) \<le> MAX_SAFE_INTEGER then JNum (int (digits_value s)) else v
      | _ \<Rightarrow> v)"

definition validateReferences ::
  "(jsval \<Rightarrow> jsval result) \<Rightarrow> (jsval \<Rightarrow> jsval result) \<Rightarrow> jsval \<Rightarrow> jsval \<Rightarrow> unit result" where
  "validateReferences certificate_get access_list_get data existing =
     (let certificateId = referenceId (js_get data ''certificate_id'');
          accessListId = referenceId (js_get data ''access_list_id'')
      in rbind (if truthy certificateId \<and> certificateId \<noteq> JStr ''new'' \<and>
                   certificateId \<noteq> referenceId (js_get existing ''certificate_id'')
                then rbind (certificate_get certificateId) (\<lambda>_. Inr ()) else Inr ()) (\<lambda>_.
         if truthy accessListId \<and> accessListId \<noteq> referenceId (js_get existing ''access_list_id'')
         then rbind (access_list_get accessListId) (\<lambda>_. Inr ()) else Inr ()))"

section \<open>Domain names\<close>

definition domain_char :: "char \<Rightarrow> bool" where
  "domain_char c \<longleftrightarrow> \<not> is_ws c \<and> \<not> is_control c \<and> c \<notin> set [CHR '';'', CHR ''{'', CHR ''}'', CHR 0x22, CHR 0x27, CHR ''#'']"

definition domain_ok :: "jsval \<Rightarrow> bool" where
  "domain_ok d \<longleftrightarrow> is_str d \<and> str_of d \<noteq> [] \<and> list_all domain_char (str_of d)"

definition validateDomainNames :: "jsval \<Rightarrow> jsval result" where
  "validateDomainNames domains =
     (if \<not> is_arr domains \<or> length (arr_of domains) < 1 \<or> 99 < length (arr_of domains) \<or>
         \<not> list_all domain_ok (arr_of domains)
      then Inl (ValidationError ''Domain names must be nonempty Nginx server names without whitespace or directives'')
      else Inr domains)"

definition cleanSslHstsData :: "bool \<Rightarrow> jsval \<Rightarrow> jsval \<Rightarrow> jsval" where
  "cleanSslHstsData newCert data existingData =
     (let c0 = props_merge (props_merge [] (obj_of existingData)) (obj_of data);
          c1 = (if props_get c0 ''certificate_id'' \<noteq> Undef
                then props_set ''certificate_id'' (referenceId (props_get c0 ''certificate_id'')) c0 else c0);
          c2 = (if \<not> truthy (props_get c1 ''certificate_id'') \<and> \<not> newCert
                then props_set ''ssl_forced'' (JBool False) (props_set ''hsts_subdomains'' (JBool False) c1) else c1)
      in JObj (if \<not> truthy (props_get c2 ''ssl_forced'') then props_set ''hsts_enabled'' (JBool False) c2 else c2))"

section \<open>Names in use\<close>

definition row_live :: "jsval \<Rightarrow> bool" where
  "row_live row \<longleftrightarrow> \<not> truthy (js_get row ''is_deleted'')"

definition row_domains :: "jsval \<Rightarrow> string list" where
  "row_domains row = map str_of (arr_of (js_get row ''domain_names''))"

definition checkHostnameRecordsTaken :: "string \<Rightarrow> jsval list \<Rightarrow> jsval \<Rightarrow> bool" where
  "checkHostnameRecordsTaken hname existingRows ignoreId =
     list_ex (\<lambda>row. js_get row ''id'' \<noteq> ignoreId \<and>
                list_ex (\<lambda>d. js_lower d = js_lower hname) (row_domains row)) existingRows"

definition isHostnameTaken ::
  "(string \<Rightarrow> string \<Rightarrow> bool) \<Rightarrow> (jsval \<Rightarrow> string) \<Rightarrow> (string \<Rightarrow> jsval list) \<Rightarrow> string \<Rightarrow> string \<Rightarrow> jsval \<Rightarrow> bool" where
  "isHostnameTaken ilike column_text tables hname ignore_type ignore_id =
     (let ignored = (\<lambda>t. if ignore_type = t \<and> truthy ignore_id then ignore_id else JNum 0);
          like_rows = (\<lambda>t. filter (\<lambda>r. row_live r \<and>
            ilike (''%'' @ hname @ ''%'') (column_text (js_get r ''domain_names''))) (tables t));
          proxies = filter (\<lambda>r. row_live r \<and> list_ex (ilike hname) (row_domains r)) (tables ''proxy'')
      in checkHostnameRecordsTaken hname proxies (ignored ''proxy'') \<or>
         checkHostnameRecordsTaken hname (like_rows ''redirection'') (ignored ''redirection'') \<or>
         checkHostnameRecordsTaken hname (like_rows ''dead'') (ignored ''dead''))"

definition hosts_with_domains :: "jsval list \<Rightarrow> string list \<Rightarrow> jsval list" where
  "hosts_with_domains hosts domainNames =
     (let domains = map js_lower domainNames
      in filter (\<lambda>host. list_ex (\<lambda>d. js_lower d \<in> set domains) (row_domains host)) hosts)"

record hosts_response =
  total_count :: nat
  dead_hosts :: "jsval list"
  proxy_hosts :: "jsval list"
  redirection_hosts :: "jsval list"

definition getHostsWithDomains :: "(string \<Rightarrow> jsval list) \<Rightarrow> string list \<Rightarrow> hosts_response" where
  "getHostsWithDomains tables domainNames =
     (let find_in = (\<lambda>t. hosts_with_domains (filter row_live (tables t)) domainNames);
          p = find_in ''proxy''; r = find_in ''redirection''; d = find_in ''dead''
      in \<lparr>total_count = length p + length r + length d, dead_hosts = d, proxy_hosts = p, redirection_hosts = r\<rparr>)"

section \<open>Lemmas\<close>

lemma referenceId_idem [simp]: "referenceId (referenceId v) = referenceId v"
  by (cases v) (simp_all add: referenceId_def)

lemma validateDomainNames_Inr:
  "validateDomainNames v = Inr ds \<longleftrightarrow> ds = v \<and> is_arr v \<and> 1 \<le> length (arr_of v) \<and> length (arr_of v) \<le> 99 \<and>
     list_all domain_ok (arr_of v)"
  by (cases "arr_of v") (auto simp: validateDomainNames_def)

lemma cleanSslHstsData_hsts:
  "\<not> truthy (js_get (cleanSslHstsData nc data ex) ''ssl_forced'') \<Longrightarrow>
     \<not> truthy (js_get (cleanSslHstsData nc data ex) ''hsts_enabled'')"
  by (simp add: cleanSslHstsData_def Let_def split: if_splits)

lemma cleanSslHstsData_no_certificate:
  "\<not> truthy (js_get (cleanSslHstsData False data ex) ''certificate_id'') \<Longrightarrow>
     \<not> truthy (js_get (cleanSslHstsData False data ex) ''ssl_forced'') \<and>
     \<not> truthy (js_get (cleanSslHstsData False data ex) ''hsts_subdomains'')"
  by (simp add: cleanSslHstsData_def Let_def split: if_splits)

end
