(* ===== verification/Nginx_Config.thy ===== *)
theory Nginx_Config
  imports Host_Checks
begin

text \<open>
  The configuration engine, \<open>backend/internal/nginx.js\<close>: installing the rendered configuration of a host,
  checking it, activating it and undoing it, for one host and for a batch.

  State. The host tables by model, the files by path, the configuration the running Nginx has loaded (the files at
  its last successful reload), the number of requested Anubis policy updates, and a clock that advances with every
  operation that can fail. Callers hold the configuration lock, so that nothing else runs between two operations.

  Parameters, in \<open>nginx_env\<close>. \<open>fs_fault\<close> and \<open>write_fault\<close> give the failures of file operations other than a missing
  file, with what a failed copy or write leaves in its target; \<open>template\<close> is what the template and the components
  it is prepared with make of the host; \<open>nginx_check\<close> is the verdict of the check of the configuration
  (\<open>nginx -tq\<close> and the lookup assertions) on the files; \<open>nginx_signal\<close> the outcome of signalling a reload;
  \<open>db_fault\<close> the failure of a status transaction; \<open>relations\<close> the fetched relations of a row and \<open>parse\<close> is
  \<open>JSON.parse\<close>. The stapling helpers of a reload are run for their own files and cannot fail it. The traffic
  files of a proxy host, prepared before its configuration is rendered, are not among the modelled files; a failure
  to prepare them is one of \<open>template\<close>.
\<close>

section \<open>State\<close>

type_synonym files = "string \<Rightarrow> string option"

record nginx_state =
  ng_tables :: "string \<Rightarrow> jsval list"
  ng_files :: files
  ng_live :: files
  ng_anubis :: nat
  ng_clock :: nat

record nginx_env =
  fs_fault :: "nat \<Rightarrow> (err \<times> string option) option"
  write_fault :: "nat \<Rightarrow> (err \<times> string option) option"
  template :: "nat \<Rightarrow> string \<Rightarrow> jsval \<Rightarrow> string result"
  nginx_check :: "nat \<Rightarrow> files \<Rightarrow> err option"
  nginx_signal :: "nat \<Rightarrow> err option"
  db_fault :: "nat \<Rightarrow> err option"
  relations :: "string \<Rightarrow> jsval \<Rightarrow> (string \<times> jsval) list"
  parse_json :: "string \<Rightarrow> jsval option"
  clock_text :: "nat \<Rightarrow> string"

type_synonym ('a, 's) op = "'s \<Rightarrow> 'a result \<times> 's"
type_synonym 'a ng_op = "nginx_state \<Rightarrow> 'a result \<times> nginx_state"

definition op_ret :: "'a \<Rightarrow> ('a, 's) op" where
  "op_ret x s = (Inr x, s)"

definition op_throw :: "err \<Rightarrow> ('a, 's) op" where
  "op_throw e s = (Inl e, s)"

definition op_bind :: "('a, 's) op \<Rightarrow> ('a \<Rightarrow> ('b, 's) op) \<Rightarrow> ('b, 's) op" where
  "op_bind m f s = (case m s of (Inl e, s') \<Rightarrow> (Inl e, s') | (Inr x, s') \<Rightarrow> f x s')"

text \<open>\<open>await a; await b\<close> and \<open>try { m } catch (err) { h }\<close>\<close>

definition op_seq :: "('a, 's) op \<Rightarrow> ('b, 's) op \<Rightarrow> ('b, 's) op" where
  "op_seq m n = op_bind m (\<lambda>_. n)"

definition op_catch :: "('a, 's) op \<Rightarrow> (err \<Rightarrow> ('a, 's) op) \<Rightarrow> ('a, 's) op" where
  "op_catch m h s = (case m s of (Inl e, s') \<Rightarrow> h e s' | r \<Rightarrow> r)"

text \<open>\<open>Promise.allSettled\<close>. The operations run one after the other; those of a batch work on the files and
  the row of different hosts.\<close>

fun op_settled :: "('a \<Rightarrow> ('b, 's) op) \<Rightarrow> 'a list \<Rightarrow> 's \<Rightarrow> 'b result list \<times> 's" where
  "op_settled f [] s = ([], s)"
| "op_settled f (x # xs) s =
     (case f x s of (r, s') \<Rightarrow> (case op_settled f xs s' of (rs, s'') \<Rightarrow> (r # rs, s'')))"

text \<open>The values of settled operations, or the reason of the first that failed.\<close>

definition settled_values :: "'b result list \<Rightarrow> 'b list result" where
  "settled_values rs = rmap id rs"

section \<open>Files\<close>

definition tick :: "nginx_state \<Rightarrow> nginx_state" where
  "tick s = s\<lparr>ng_clock := Suc (ng_clock s)\<rparr>"

definition leave :: "string \<Rightarrow> string option \<Rightarrow> nginx_state \<Rightarrow> nginx_state" where
  "leave path rest s = (case rest of None \<Rightarrow> s | Some c \<Rightarrow> s\<lparr>ng_files := (ng_files s)(path \<mapsto> c)\<rparr>)"

text \<open>The operations of \<open>fs.promises\<close> return whether the source exists: \<open>ENOENT\<close> is the result false.\<close>

definition fs_copy :: "nginx_env \<Rightarrow> string \<Rightarrow> string \<Rightarrow> bool ng_op" where
  "fs_copy env src dst s =
     (case fs_fault env (ng_clock s) of
        Some (e, rest) \<Rightarrow> (Inl e, leave dst rest (tick s))
      | None \<Rightarrow>
          (case ng_files s src of
             None \<Rightarrow> (Inr False, tick s)
           | Some c \<Rightarrow> (Inr True, (tick s)\<lparr>ng_files := (ng_files s)(dst \<mapsto> c)\<rparr>)))"

definition fs_rename :: "nginx_env \<Rightarrow> string \<Rightarrow> string \<Rightarrow> bool ng_op" where
  "fs_rename env src dst s =
     (case fs_fault env (ng_clock s) of
        Some (e, _) \<Rightarrow> (Inl e, tick s)
      | None \<Rightarrow>
          (case ng_files s src of
             None \<Rightarrow> (Inr False, tick s)
           | Some c \<Rightarrow> (Inr True, (tick s)\<lparr>ng_files := (ng_files s)(src := None, dst \<mapsto> c)\<rparr>)))"

definition fs_unlink :: "nginx_env \<Rightarrow> string \<Rightarrow> bool ng_op" where
  "fs_unlink env path s =
     (case fs_fault env (ng_clock s) of
        Some (e, _) \<Rightarrow> (Inl e, tick s)
      | None \<Rightarrow>
          (case ng_files s path of
             None \<Rightarrow> (Inr False, tick s)
           | Some c \<Rightarrow> (Inr True, (tick s)\<lparr>ng_files := (ng_files s)(path := None)\<rparr>)))"

definition fs_write :: "nginx_env \<Rightarrow> string \<Rightarrow> string \<Rightarrow> unit ng_op" where
  "fs_write env path text s =
     (case write_fault env (ng_clock s) of
        Some (e, rest) \<Rightarrow> (Inl e, leave path rest (tick s))
      | None \<Rightarrow> (Inr (), (tick s)\<lparr>ng_files := (ng_files s)(path \<mapsto> text)\<rparr>))"

definition getFileFriendlyHostType :: "string \<Rightarrow> string" where
  "getFileFriendlyHostType host_type = map (\<lambda>c. if c = CHR ''-'' then CHR ''_'' else c) host_type"

definition getConfigName :: "string \<Rightarrow> jsval \<Rightarrow> string" where
  "getConfigName host_type host_id =
     (if host_type = ''default'' then ''/data/nginx/default.conf''
      else ''/data/nginx/'' @ getFileFriendlyHostType host_type @ ''/'' @ js_string host_id @ ''.conf'')"

text \<open>The configuration file of a host, its backup and its rejected version.\<close>

definition config_file :: "string \<Rightarrow> jsval \<Rightarrow> string" where
  "config_file host_type host = getConfigName (getFileFriendlyHostType host_type) (js_get host ''id'')"

definition backup_file :: "string \<Rightarrow> jsval \<Rightarrow> string" where
  "backup_file host_type host = config_file host_type host @ ''.bak''"

definition error_file :: "string \<Rightarrow> jsval \<Rightarrow> string" where
  "error_file host_type host = config_file host_type host @ ''.err''"

definition deleteFile :: "nginx_env \<Rightarrow> string \<Rightarrow> unit ng_op" where
  "deleteFile env path = op_bind (fs_unlink env path) (\<lambda>_. op_ret ())"

definition deleteConfig :: "nginx_env \<Rightarrow> string \<Rightarrow> jsval \<Rightarrow> unit ng_op" where
  "deleteConfig env host_type host =
     op_seq (deleteFile env (config_file host_type host)) (deleteFile env (error_file host_type host))"

definition renameConfigAsError :: "nginx_env \<Rightarrow> string \<Rightarrow> jsval \<Rightarrow> unit ng_op" where
  "renameConfigAsError env host_type host =
     op_bind (fs_rename env (config_file host_type host) (error_file host_type host)) (\<lambda>_. op_ret ())"

definition backupConfig :: "nginx_env \<Rightarrow> string \<Rightarrow> jsval \<Rightarrow> unit ng_op" where
  "backupConfig env host_type host =
     op_bind (fs_copy env (config_file host_type host) (backup_file host_type host)) (\<lambda>found.
       if found then op_ret () else deleteFile env (backup_file host_type host))"

definition restoreConfig :: "nginx_env \<Rightarrow> string \<Rightarrow> jsval \<Rightarrow> unit ng_op" where
  "restoreConfig env host_type host =
     op_bind (fs_rename env (backup_file host_type host) (config_file host_type host)) (\<lambda>_. op_ret ())"

definition deleteBackupConfig :: "nginx_env \<Rightarrow> string \<Rightarrow> jsval \<Rightarrow> unit ng_op" where
  "deleteBackupConfig env host_type host = deleteFile env (backup_file host_type host)"

section \<open>The running Nginx\<close>

definition nginx_test :: "nginx_env \<Rightarrow> unit ng_op" where
  "nginx_test env s =
     (case nginx_check env (ng_clock s) (ng_files s) of Some e \<Rightarrow> (Inl e, tick s) | None \<Rightarrow> (Inr (), tick s))"

definition reloadCommands :: "nginx_env \<Rightarrow> unit ng_op" where
  "reloadCommands env =
     op_seq (nginx_test env) (\<lambda>s. case nginx_signal env (ng_clock s) of
         Some e \<Rightarrow> (Inl e, tick s)
       | None \<Rightarrow> (Inr (), (tick s)\<lparr>ng_live := ng_files s\<rparr>))"

section \<open>Host rows\<close>

definition find_row :: "jsval \<Rightarrow> jsval list \<Rightarrow> jsval option" where
  "find_row i rows = List.find (\<lambda>r. js_get r ''id'' = i) rows"

text \<open>The boolean columns of the models: written as 0 or 1 and read back as booleans.\<close>

definition bool_fields :: "string \<Rightarrow> string list" where
  "bool_fields model =
     (if model = ''proxy_host'' then
        [''is_deleted'', ''ssl_forced'', ''caching_enabled'', ''zstd_enabled'', ''block_exploits'', ''allow_websocket_upgrade'',
         ''http2_support'', ''enabled'', ''hsts_enabled'', ''hsts_subdomains'', ''maintenance_on_failure'', ''disable_buffering'',
         ''security_crowdsec'', ''maintenance_active'', ''maintenance_pending'', ''php_enabled'', ''git_sync_enabled'',
         ''anubis_enabled'', ''turbo_loader'', ''upload_relay_enabled'']
      else if model = ''redirection_host'' then
        [''is_deleted'', ''enabled'', ''preserve_path'', ''ssl_forced'', ''block_exploits'', ''hsts_enabled'',
         ''hsts_subdomains'', ''http2_support'']
      else if model = ''dead_host'' then
        [''is_deleted'', ''ssl_forced'', ''http2_support'', ''enabled'', ''hsts_enabled'', ''hsts_subdomains'']
      else if model = ''stream'' then
        [''is_deleted'', ''enabled'', ''tcp_forwarding'', ''udp_forwarding'', ''proxy_protocol_forwarding'']
      else [])"

definition stored :: "string \<Rightarrow> (string \<times> jsval) list \<Rightarrow> (string \<times> jsval) list" where
  "stored model cols =
     map (\<lambda>kv. if fst kv \<in> set (bool_fields model) then (fst kv, JBool (truthy (snd kv))) else kv)
       (filter (\<lambda>kv. snd kv \<noteq> Undef) cols)"

text \<open>\<open>.where("id", i).patch(cols)\<close>\<close>

definition patch_row :: "nginx_env \<Rightarrow> nat \<Rightarrow> string \<Rightarrow> jsval \<Rightarrow> (string \<times> jsval) list \<Rightarrow> jsval list \<Rightarrow> jsval list" where
  "patch_row env now model i cols rows =
     patch_where (\<lambda>r. js_get r ''id'' = i)
       (\<lambda>r. JObj (props_set ''modified_on'' (JStr (clock_text env now)) (props_merge (obj_of r) (stored model cols)))) rows"

definition set_table :: "string \<Rightarrow> jsval list \<Rightarrow> nginx_state \<Rightarrow> nginx_state" where
  "set_table model rows s = s\<lparr>ng_tables := (ng_tables s)(model := rows)\<rparr>"

definition updateHostStatus :: "nginx_env \<Rightarrow> string \<Rightarrow> jsval \<Rightarrow> (string \<times> jsval) list \<Rightarrow> jsval ng_op" where
  "updateHostStatus env model host status s =
     (case db_fault env (ng_clock s) of
        Some e \<Rightarrow> (Inl e, tick s)
      | None \<Rightarrow>
          (let current = find_row (js_get host ''id'') (ng_tables s model);
               meta0 = (case current of None \<Rightarrow> js_get host ''meta'' | Some r \<Rightarrow> nullish (js_get r ''meta'') (js_get host ''meta''))
           in case sanitizeHostMeta (parse_json env) meta0 of
                Inl e \<Rightarrow> (Inl e, tick s)
              | Inr m \<Rightarrow>
                  (let meta = JObj (props_merge (obj_of m) status)
                   in (Inr meta,
                       case current of
                         None \<Rightarrow> tick s
                       | Some r \<Rightarrow> set_table model (patch_row env (ng_clock s) model (js_get host ''id'') [(''meta'', meta)]
                                     (ng_tables s model)) (tick s)))))"

definition relation_names :: "string list" where
  "relation_names = [''certificate'', ''access_list'', ''host_domains'']"

definition getCurrentHost :: "nginx_env \<Rightarrow> string \<Rightarrow> string \<Rightarrow> jsval \<Rightarrow> nginx_state \<Rightarrow> jsval option" where
  "getCurrentHost env model host_type i s =
     map_option (\<lambda>r.
       let joined = props_merge (obj_of r) (filter (\<lambda>kv. fst kv \<in> set relation_names) (relations env model r))
       in if getFileFriendlyHostType host_type = ''proxy_host''
          then JObj (props_set ''domain_names''
                 (JArr (map (\<lambda>d. js_get d ''domain_name'') (arr_of (props_get joined ''host_domains'')))) joined)
          else JObj joined) (find_row i (ng_tables s model))"

section \<open>Rendering\<close>

text \<open>What the renderer does with the row before it prepares the template: a retired protected host is never
  rendered as public, a deleted or disabled host is rendered disabled.\<close>

definition render_host :: "nginx_env \<Rightarrow> string \<Rightarrow> jsval \<Rightarrow> jsval result" where
  "render_host env host_type host_row =
     rbind (if getFileFriendlyHostType host_type = ''proxy_host'' then retireHostRuntime (parse_json env) host_row else Inr host_row) (\<lambda>h.
       Inr (if truthy (js_get h ''is_deleted'') \<or> \<not> truthy (js_get h ''enabled'')
            then JObj (props_set ''enabled'' (JBool False) (obj_of h)) else h))"

definition renderConfig :: "nginx_env \<Rightarrow> string \<Rightarrow> jsval \<Rightarrow> string ng_op" where
  "renderConfig env host_type host_row s =
     (rbind (render_host env host_type host_row) (template env (ng_clock s) (getFileFriendlyHostType host_type)), tick s)"

definition generateConfig :: "nginx_env \<Rightarrow> string \<Rightarrow> jsval \<Rightarrow> unit ng_op" where
  "generateConfig env host_type host_row =
     op_catch
       (op_bind (renderConfig env host_type host_row)
          (fs_write env (getConfigName host_type (js_get host_row ''id''))))
       (\<lambda>e. op_throw (ConfigurationError (err_message e)))"

section \<open>Installing a host\<close>

text \<open>A proxy host whose retired request filters are still active is disabled in the database and in the row.\<close>

definition retire_current :: "nginx_env \<Rightarrow> string \<Rightarrow> jsval \<Rightarrow> jsval ng_op" where
  "retire_current env model host s =
     (case db_fault env (ng_clock s) of
        Some e \<Rightarrow> (Inl e, tick s)
      | None \<Rightarrow>
          (case find_row (js_get host ''id'') (ng_tables s model) of
             None \<Rightarrow> (Inr (JObj [(''enabled'', JBool False), (''meta'', JObj [])]), tick s)
           | Some latest \<Rightarrow>
               (case rbind (retireHostRuntime (parse_json env) latest) (\<lambda>safe.
                       rbind (hasActiveRetiredHostBindings (parse_json env) (js_get latest ''meta'')) (\<lambda>active.
                       rbind (if active then sanitizeHostMeta (parse_json env) (js_get safe ''meta'') else Inr Undef) (\<lambda>m.
                         Inr (safe, active, m)))) of
                  Inl e \<Rightarrow> (Inl e, tick s)
                | Inr (safe, active, m) \<Rightarrow>
                    (Inr safe,
                     if active then set_table model (patch_row env (ng_clock s) model (js_get host ''id'')
                       [(''enabled'', JNum 0), (''meta'', m)] (ng_tables s model)) (tick s)
                     else tick s))))"

definition current_host :: "nginx_env \<Rightarrow> string \<Rightarrow> string \<Rightarrow> jsval \<Rightarrow> jsval ng_op" where
  "current_host env model host_type hostSnapshot s =
     (case getCurrentHost env model host_type (js_get hostSnapshot ''id'') s of
        None \<Rightarrow> (Inr (JObj (props_set ''enabled'' (JBool False) (obj_of hostSnapshot))), tick s)
      | Some current \<Rightarrow>
          if truthy (js_get current ''is_deleted'')
          then (Inr (JObj (props_set ''enabled'' (JBool False) (obj_of current))), tick s)
          else if getFileFriendlyHostType host_type \<noteq> ''proxy_host'' then (Inr current, tick s)
          else
            (case hasActiveRetiredHostBindings (parse_json env) (js_get current ''meta'') of
               Inl e \<Rightarrow> (Inl e, tick s)
             | Inr False \<Rightarrow> (Inr current, tick s)
             | Inr True \<Rightarrow>
                 op_bind (retire_current env model current) (\<lambda>retired.
                   op_ret (JObj (props_set ''meta'' (js_get retired ''meta'')
                     (props_set ''enabled'' (JBool (truthy (js_get retired ''enabled''))) (obj_of current))))) (tick s)))"

text \<open>The first half of \<open>configureHost\<close>: the current row, its backup and the new file.\<close>

definition stage_host :: "nginx_env \<Rightarrow> string \<Rightarrow> string \<Rightarrow> jsval \<Rightarrow> jsval ng_op" where
  "stage_host env model host_type hostSnapshot =
     op_bind (current_host env model host_type hostSnapshot) (\<lambda>host.
     op_seq (backupConfig env host_type host)
       (op_catch (op_seq (generateConfig env host_type host) (op_ret host))
         (\<lambda>e. op_seq (renameConfigAsError env host_type host)
                 (op_seq (restoreConfig env host_type host) (op_throw e)))))"

definition online_status :: "jsval \<Rightarrow> (string \<times> jsval) list" where
  "online_status host = [(''nginx_online'', JBool (truthy (js_get host ''enabled''))), (''nginx_err'', Null)]"

definition failed_status :: "err \<Rightarrow> (string \<times> jsval) list" where
  "failed_status e = [(''nginx_online'', JBool False), (''nginx_err'', JStr (''[Rolled back] Configuration failed: '' @ err_message e))]"

definition generatePolicy :: "unit ng_op" where
  "generatePolicy s = (Inr (), s\<lparr>ng_anubis := Suc (ng_anubis s)\<rparr>)"

text \<open>\<open>configureHost\<close> without deferred validation.\<close>

definition configureHost :: "nginx_env \<Rightarrow> bool \<Rightarrow> string \<Rightarrow> string \<Rightarrow> jsval \<Rightarrow> jsval ng_op" where
  "configureHost env skip_reload model host_type hostSnapshot =
     op_bind (stage_host env model host_type hostSnapshot) (\<lambda>host.
       op_catch
         (op_seq (if skip_reload then nginx_test env else reloadCommands env)
         (op_bind (updateHostStatus env model host (online_status host)) (\<lambda>meta.
          op_seq (deleteBackupConfig env host_type host)
         (op_seq generatePolicy (op_ret meta)))))
         (\<lambda>e. op_seq (renameConfigAsError env host_type host)
              (op_seq (restoreConfig env host_type host)
              (op_seq (if skip_reload then op_ret () else reloadCommands env)
                (updateHostStatus env model host (failed_status e))))))"

section \<open>Batches\<close>

record stage =
  st_host :: jsval
  st_type :: string
  st_model :: string

definition commitStagedConfig :: "nginx_env \<Rightarrow> bool \<Rightarrow> stage \<Rightarrow> jsval ng_op" where
  "commitStagedConfig env preserveBackup st =
     op_bind (updateHostStatus env (st_model st) (st_host st) (online_status (st_host st))) (\<lambda>meta.
       op_seq (if preserveBackup then op_ret () else deleteBackupConfig env (st_type st) (st_host st)) (op_ret meta))"

definition rollbackStagedConfig :: "nginx_env \<Rightarrow> err \<Rightarrow> stage \<Rightarrow> jsval ng_op" where
  "rollbackStagedConfig env e st =
     op_seq (renameConfigAsError env (st_type st) (st_host st))
     (op_seq (restoreConfig env (st_type st) (st_host st))
       (updateHostStatus env (st_model st) (st_host st) (failed_status e)))"

record group =
  gr_model :: string
  gr_type :: string
  gr_hosts :: "jsval list"

definition group_items :: "group list \<Rightarrow> (string \<times> string \<times> jsval) list" where
  "group_items groups = concat (map (\<lambda>g. map (\<lambda>h. (gr_model g, gr_type g, h)) (gr_hosts g)) groups)"

text \<open>Staging stops at the first host that fails; the stages made so far are kept.\<close>

fun stage_all :: "nginx_env \<Rightarrow> (string \<times> string \<times> jsval) list \<Rightarrow> stage list \<Rightarrow> nginx_state
    \<Rightarrow> (stage list \<times> err option) \<times> nginx_state" where
  "stage_all env [] stages s = ((stages, None), s)"
| "stage_all env ((model, t, h) # items) stages s =
     (case stage_host env model t h s of
        (Inl e, s') \<Rightarrow> ((stages, Some e), s')
      | (Inr host, s') \<Rightarrow>
          stage_all env items (stages @ [\<lparr>st_host = host, st_type = t, st_model = model\<rparr>]) s')"

record bulk_options =
  throwOnError :: bool
  bulk_reload :: bool

definition activate :: "nginx_env \<Rightarrow> bulk_options \<Rightarrow> unit ng_op" where
  "activate env opts = (if bulk_reload opts then reloadCommands env else nginx_test env)"

text \<open>The rest of the \<open>try\<close> block once every host is staged.\<close>

definition bulk_commit :: "nginx_env \<Rightarrow> bulk_options \<Rightarrow> stage list \<Rightarrow> jsval list ng_op" where
  "bulk_commit env opts stages =
     op_seq (activate env opts) (\<lambda>s.
       case op_settled (commitStagedConfig env True) stages s of
         (commits, s1) \<Rightarrow>
           (case settled_values commits of
              Inl e \<Rightarrow> (Inl e, s1)
            | Inr statuses \<Rightarrow>
                (case op_settled (\<lambda>st. deleteBackupConfig env (st_type st) (st_host st)) stages s1 of
                   (cleanups, s2) \<Rightarrow> op_seq generatePolicy (op_ret statuses) s2)))"

definition bulk_rollback :: "nginx_env \<Rightarrow> bulk_options \<Rightarrow> stage list \<Rightarrow> err \<Rightarrow> jsval list ng_op" where
  "bulk_rollback env opts stages e s =
     (case op_settled (rollbackStagedConfig env e) stages s of
        (rollbacks, s1) \<Rightarrow>
          op_seq (if bulk_reload opts then reloadCommands env else op_ret ())
            (case settled_values rollbacks of
               Inl e' \<Rightarrow> op_throw e'
             | Inr metas \<Rightarrow> if throwOnError opts then op_throw e else op_ret metas) s1)"

definition bulkGenerateConfigGroups :: "nginx_env \<Rightarrow> group list \<Rightarrow> bulk_options \<Rightarrow> jsval list ng_op" where
  "bulkGenerateConfigGroups env groups opts s =
     (case stage_all env (group_items groups) [] s of
        ((stages, Some e), s1) \<Rightarrow> bulk_rollback env opts stages e s1
      | ((stages, None), s1) \<Rightarrow> op_catch (bulk_commit env opts stages) (bulk_rollback env opts stages) s1)"

definition bulkGenerateConfigs :: "nginx_env \<Rightarrow> string \<Rightarrow> string \<Rightarrow> jsval list \<Rightarrow> jsval list ng_op" where
  "bulkGenerateConfigs env model hostType hosts =
     bulkGenerateConfigGroups env [\<lparr>gr_model = model, gr_type = hostType, gr_hosts = hosts\<rparr>]
       \<lparr>throwOnError = False, bulk_reload = False\<rparr>"

end
