(* ===== verification/Nginx_Config_Props.thy ===== *)
theory Nginx_Config_Props
  imports Nginx_Config
begin

text \<open>
  What the configuration engine guarantees while renames, removals and copies of files succeed. Rendering, writing the
  new file, the check of Nginx, its reload and the status transaction may all fail.
\<close>

section \<open>Operations\<close>

lemma op_bind_simp [simp]: "op_bind m f s = (case m s of (Inl e, s') \<Rightarrow> (Inl e, s') | (Inr x, s') \<Rightarrow> f x s')"
  by (simp add: op_bind_def)

lemma op_catch_simp [simp]: "op_catch m h s = (case m s of (Inl e, s') \<Rightarrow> h e s' | (Inr x, s') \<Rightarrow> (Inr x, s'))"
  by (auto simp: op_catch_def split: prod.split sum.split)

lemma op_seq_simp [simp]: "op_seq m n s = (case m s of (Inl e, s') \<Rightarrow> (Inl e, s') | (Inr x, s') \<Rightarrow> n s')"
  by (simp add: op_seq_def)

lemma op_base_simps [simp]: "op_ret x s = (Inr x, s)" "op_throw e s = (Inl e, s)"
  by (simp_all add: op_ret_def op_throw_def)

lemma tick_simps [simp]: "ng_files (tick s) = ng_files s" "ng_live (tick s) = ng_live s"
  "ng_tables (tick s) = ng_tables s" "ng_anubis (tick s) = ng_anubis s"
  by (simp_all add: tick_def)

lemma last_config_file: "last (config_file t h) = CHR ''f''"
  by (simp add: config_file_def getConfigName_def)

lemma path_neq [simp]:
  "backup_file t h \<noteq> config_file t' h'" "config_file t h \<noteq> backup_file t' h'"
  "error_file t h \<noteq> config_file t' h'" "config_file t h \<noteq> error_file t' h'"
  "backup_file t h \<noteq> error_file t' h'" "error_file t h \<noteq> backup_file t' h'"
proof -
  have l: "last (backup_file t h) = CHR ''k''" "last (error_file t h) = CHR ''r''" for t h
    by (simp_all add: backup_file_def error_file_def)
  have "CHR ''f'' \<noteq> CHR ''k''" "CHR ''f'' \<noteq> CHR ''r''" "CHR ''k'' \<noteq> CHR ''r''" by simp_all
  then show "backup_file t h \<noteq> config_file t' h'" "config_file t h \<noteq> backup_file t' h'"
    "error_file t h \<noteq> config_file t' h'" "config_file t h \<noteq> error_file t' h'"
    "backup_file t h \<noteq> error_file t' h'" "error_file t h \<noteq> backup_file t' h'"
    using l last_config_file by metis+
qed

lemma path_inj: "backup_file t h = backup_file t' h' \<longleftrightarrow> config_file t h = config_file t' h'"
  "error_file t h = error_file t' h' \<longleftrightarrow> config_file t h = config_file t' h'"
  by (simp_all add: backup_file_def error_file_def)

text \<open>The three files of a host depend on its type and identifier only.\<close>

definition host_paths :: "string \<Rightarrow> jsval \<Rightarrow> string set" where
  "host_paths t h = {config_file t h, backup_file t h, error_file t h}"

lemma paths_cong:
  assumes "js_get h ''id'' = js_get h' ''id''"
  shows "config_file t h = config_file t h'" "backup_file t h = backup_file t h'" "error_file t h = error_file t h'"
    "host_paths t h = host_paths t h'"
  using assms by (simp_all add: config_file_def backup_file_def error_file_def host_paths_def)

section \<open>Effects on the files\<close>

text \<open>The fault-free file operations; only writing the new configuration may fail.\<close>

definition reliable_files :: "nginx_env \<Rightarrow> bool" where
  "reliable_files env \<longleftrightarrow> (\<forall>n. fs_fault env n = None)"

definition with_files :: "files \<Rightarrow> nginx_state \<Rightarrow> nginx_state \<Rightarrow> bool" where
  "with_files fs s s' \<longleftrightarrow> ng_files s' = fs \<and> ng_live s' = ng_live s \<and> ng_tables s' = ng_tables s \<and>
     ng_anubis s' = ng_anubis s"

lemma backup_effect:
  assumes "reliable_files env"
  obtains s' where "backupConfig env t h s = (Inr (), s')"
    and "with_files ((ng_files s)(backup_file t h := ng_files s (config_file t h))) s s'"
  using assms that
  by (cases "ng_files s (config_file t h)"; cases "ng_files s (backup_file t h)")
    (auto simp: backupConfig_def fs_copy_def deleteFile_def fs_unlink_def reliable_files_def with_files_def tick_def fun_upd_idem)

lemma restore_effect:
  assumes "reliable_files env"
  obtains s' where "restoreConfig env t h s = (Inr (), s')"
    and "with_files (case ng_files s (backup_file t h) of None \<Rightarrow> ng_files s
      | Some c \<Rightarrow> (ng_files s)(backup_file t h := None, config_file t h \<mapsto> c)) s s'"
  using assms that
  by (cases "ng_files s (backup_file t h)") (auto simp: restoreConfig_def fs_rename_def reliable_files_def with_files_def tick_def)

lemma set_aside_effect:
  assumes "reliable_files env"
  obtains s' where "renameConfigAsError env t h s = (Inr (), s')"
    and "with_files (case ng_files s (config_file t h) of None \<Rightarrow> ng_files s
      | Some c \<Rightarrow> (ng_files s)(config_file t h := None, error_file t h \<mapsto> c)) s s'"
  using assms that
  by (cases "ng_files s (config_file t h)")
    (auto simp: renameConfigAsError_def fs_rename_def reliable_files_def with_files_def tick_def)

lemma delete_file_effect:
  assumes "reliable_files env"
  obtains s' where "deleteFile env p s = (Inr (), s')" and "with_files ((ng_files s)(p := None)) s s'"
  using assms that
  by (cases "ng_files s p") (auto simp: deleteFile_def fs_unlink_def reliable_files_def with_files_def tick_def fun_upd_idem)

lemma delete_config_effect:
  assumes "reliable_files env"
  obtains s' where "deleteConfig env t h s = (Inr (), s')"
    and "with_files ((ng_files s)(config_file t h := None, error_file t h := None)) s s'"
proof -
  obtain s1 where 1: "deleteFile env (config_file t h) s = (Inr (), s1)" "with_files ((ng_files s)(config_file t h := None)) s s1"
    by (rule delete_file_effect [OF assms])
  obtain s2 where 2: "deleteFile env (error_file t h) s1 = (Inr (), s2)" "with_files ((ng_files s1)(error_file t h := None)) s1 s2"
    by (rule delete_file_effect [OF assms])
  from 1 2 show thesis by (intro that [of s2]) (auto simp: deleteConfig_def with_files_def)
qed

text \<open>Undoing an installation: whatever the new file holds, the backup becomes the configuration again and nothing
  but the rejected version is left.\<close>

definition undone :: "string \<Rightarrow> jsval \<Rightarrow> files \<Rightarrow> files" where
  "undone t h fs = fs(config_file t h := fs (backup_file t h), backup_file t h := None,
     error_file t h := (case fs (config_file t h) of None \<Rightarrow> fs (error_file t h) | Some c \<Rightarrow> Some c))"

lemma undo_effect:
  assumes "reliable_files env"
  obtains s1 s' where "renameConfigAsError env t h s = (Inr (), s1)" and "restoreConfig env t h s1 = (Inr (), s')"
    and "with_files (undone t h (ng_files s)) s s'"
proof -
  obtain s1 where 1: "renameConfigAsError env t h s = (Inr (), s1)" "with_files (case ng_files s (config_file t h) of None \<Rightarrow> ng_files s
      | Some c \<Rightarrow> (ng_files s)(config_file t h := None, error_file t h \<mapsto> c)) s s1"
    by (rule set_aside_effect [OF assms])
  obtain s2 where 2: "restoreConfig env t h s1 = (Inr (), s2)" "with_files (case ng_files s1 (backup_file t h) of None \<Rightarrow> ng_files s1
      | Some c \<Rightarrow> (ng_files s1)(backup_file t h := None, config_file t h \<mapsto> c)) s1 s2"
    by (rule restore_effect [OF assms])
  have "with_files (undone t h (ng_files s)) s s2"
    using 1(2) 2(2) unfolding with_files_def undone_def
    by (auto simp: fun_eq_iff split: option.splits)
  with 1(1) 2(1) show thesis by (rule that)
qed

lemma generate_effect:
  obtains (written) cfg n h' s' where "generateConfig env t h s = (Inr (), s')"
      and "render_host env t h = Inr h'" and "template env n (getFileFriendlyHostType t) h' = Inr cfg"
      and "with_files ((ng_files s)(getConfigName t (js_get h ''id'') \<mapsto> cfg)) s s'"
    | (failed) e rest s' where "generateConfig env t h s = (Inl (ConfigurationError e), s')"
      and "with_files ((ng_files s)(getConfigName t (js_get h ''id'') := rest)) s s'"
proof (cases "renderConfig env t h s")
  case (Pair r s1)
  have s1: "s1 = tick s" using Pair by (simp add: renderConfig_def)
  show thesis
  proof (cases r)
    case (Inl e)
    with Pair s1 show thesis
      by (intro failed [of "err_message e" "tick s" "ng_files s (getConfigName t (js_get h ''id''))"])
        (simp_all add: generateConfig_def with_files_def tick_def)
  next
    case (Inr cfg)
    then obtain h' where h': "render_host env t h = Inr h'" "template env (ng_clock s) (getFileFriendlyHostType t) h' = Inr cfg"
      using Pair by (auto simp: renderConfig_def res_simps)
    show thesis
    proof (cases "write_fault env (ng_clock s1)")
      case None
      with Pair Inr s1 show thesis
        by (intro written [OF _ h']) (auto simp: generateConfig_def fs_write_def with_files_def tick_def)
    next
      case (Some f)
      obtain e rest where f: "f = (e, rest)" by (cases f)
      show thesis
        by (rule failed [of "err_message e" "leave (getConfigName t (js_get h ''id'')) rest (tick s1)"
              "case rest of None \<Rightarrow> ng_files s (getConfigName t (js_get h ''id'')) | Some c \<Rightarrow> Some c"])
          (use Pair Inr s1 Some f in \<open>auto simp: generateConfig_def fs_write_def with_files_def tick_def leave_def split: option.split\<close>)
    qed
  qed
qed

lemma friendly_default: "getFileFriendlyHostType t = ''default'' \<longleftrightarrow> t = ''default''"
proof
  let ?f = "\<lambda>c. if c = CHR ''-'' then CHR ''_'' else c"
  assume d: "getFileFriendlyHostType t = ''default''"
  have "CHR ''-'' \<notin> set t"
  proof
    assume "CHR ''-'' \<in> set t"
    then have "CHR ''_'' \<in> set (getFileFriendlyHostType t)"
      unfolding getFileFriendlyHostType_def by (force simp: image_iff)
    then show False by (simp add: d)
  qed
  then have "getFileFriendlyHostType t = t"
    unfolding getFileFriendlyHostType_def by (intro map_idI) auto
  with d show "t = ''default''" by simp
qed (simp add: getFileFriendlyHostType_def)

lemma friendly_idem [simp]: "getFileFriendlyHostType (getFileFriendlyHostType t) = getFileFriendlyHostType t"
  by (simp add: getFileFriendlyHostType_def comp_def cong: if_cong)

lemma config_name: "getConfigName t (js_get h ''id'') = config_file t h"
  by (simp add: config_file_def getConfigName_def friendly_default)

section \<open>The current row\<close>

lemma props_get_merge_other: "k \<notin> fst ` set b \<Longrightarrow> props_get (props_merge a b) k = props_get a k"
  by (induction b arbitrary: a) (auto simp: props_merge_def)

lemma find_row_id: "find_row i rows = Some r \<Longrightarrow> js_get r ''id'' = i"
  by (auto simp: find_row_def dest: find_SomeD)

lemma getCurrentHost_col:
  assumes "getCurrentHost env model t i s = Some h"
  obtains r where "find_row i (ng_tables s model) = Some r"
    and "\<And>k. k \<notin> set (''domain_names'' # relation_names) \<Longrightarrow> js_get h k = js_get r k"
proof -
  from assms obtain r where r: "find_row i (ng_tables s model) = Some r"
    by (auto simp: getCurrentHost_def)
  have "js_get h k = js_get r k" if "k \<notin> set (''domain_names'' # relation_names)" for k
  proof -
    have "k \<notin> fst ` set (filter (\<lambda>kv. fst kv \<in> set relation_names) (relations env model r))" using that by auto
    then have "props_get (props_merge (obj_of r) (filter (\<lambda>kv. fst kv \<in> set relation_names) (relations env model r))) k = js_get r k"
      by (simp add: props_get_merge_other js_get_def)
    with assms r that show ?thesis
      by (auto simp: getCurrentHost_def js_get_def Let_def split: if_splits)
  qed
  with r show thesis by (rule that)
qed

lemma getCurrentHost_id: "getCurrentHost env model t i s = Some h \<Longrightarrow> js_get h ''id'' = i"
proof (erule getCurrentHost_col)
  fix r
  assume "find_row i (ng_tables s model) = Some r" and "\<And>k. k \<notin> set (''domain_names'' # relation_names) \<Longrightarrow> js_get h k = js_get r k"
  then show "js_get h ''id'' = i" using find_row_id [of i "ng_tables s model" r] by (simp add: relation_names_def)
qed

definition same_system :: "nginx_state \<Rightarrow> nginx_state \<Rightarrow> bool" where
  "same_system s s' \<longleftrightarrow> ng_files s' = ng_files s \<and> ng_live s' = ng_live s"

lemma retire_current_system: "retire_current env model h s = (r, s') \<Longrightarrow> same_system s s'"
  by (auto simp: retire_current_def same_system_def set_table_def split: option.splits sum.splits if_splits)

lemma current_host_system:
  assumes "current_host env model t snap s = (r, s')"
  shows "same_system s s'" "\<And>h. r = Inr h \<Longrightarrow> js_get h ''id'' = js_get snap ''id''"
proof -
  show "same_system s s'"
    using assms retire_current_system [of env model _ "tick s"]
    by (auto simp: current_host_def same_system_def split: option.splits sum.splits if_splits bool.splits prod.splits)
  show "js_get h ''id'' = js_get snap ''id''" if "r = Inr h" for h
    using assms that
    by (auto simp: current_host_def simp flip: js_get_def dest: getCurrentHost_id
        split: option.splits sum.splits if_splits bool.splits prod.splits)
qed

lemma status_system: "updateHostStatus env model h status s = (r, s') \<Longrightarrow> same_system s s'"
  by (auto simp: updateHostStatus_def same_system_def set_table_def Let_def split: option.splits sum.splits)

lemma status_online: "updateHostStatus env model h (online_status h') s = (Inr meta, s') \<Longrightarrow> js_get meta ''nginx_err'' = Null"
  by (auto simp: updateHostStatus_def online_status_def props_merge_def Let_def split: option.splits sum.splits)

lemma status_failed: "updateHostStatus env model h (failed_status e) s = (Inr meta, s') \<Longrightarrow> js_get meta ''nginx_err'' \<noteq> Null"
  by (auto simp: updateHostStatus_def failed_status_def props_merge_def Let_def split: option.splits sum.splits)

section \<open>Staging one host\<close>

text \<open>A staged host: the backup holds what the configuration was, the configuration what the template made of the host.\<close>

definition rendered :: "nginx_env \<Rightarrow> string \<Rightarrow> jsval \<Rightarrow> string \<Rightarrow> bool" where
  "rendered env t h cfg \<longleftrightarrow> (\<exists>n h'. render_host env t h = Inr h' \<and> template env n (getFileFriendlyHostType t) h' = Inr cfg)"

lemma stage_effect [consumes 1, case_names staged failed]:
  assumes "reliable_files env"
  obtains (staged) h s' cfg where "stage_host env model t snap s = (Inr h, s')"
      and "js_get h ''id'' = js_get snap ''id''" and "rendered env t h cfg" and "ng_live s' = ng_live s"
      and "ng_files s' = (ng_files s)(backup_file t snap := ng_files s (config_file t snap), config_file t snap \<mapsto> cfg)"
    | (failed) e s' where "stage_host env model t snap s = (Inl e, s')" and "ng_live s' = ng_live s"
      and "ng_files s' (config_file t snap) = ng_files s (config_file t snap)"
      and "\<And>p. p \<notin> host_paths t snap \<Longrightarrow> ng_files s' p = ng_files s p"
proof (cases "current_host env model t snap s")
  case (Pair r s0)
  note C = current_host_system [OF Pair]
  show thesis
  proof (cases r)
    case (Inl e)
    with Pair C(1) show thesis by (intro failed [of e s0]) (auto simp: stage_host_def same_system_def)
  next
    case (Inr h)
    note P = paths_cong [OF C(2) [OF Inr], of t]
    obtain s1 where b: "backupConfig env t h s0 = (Inr (), s1)"
        "with_files ((ng_files s0)(backup_file t h := ng_files s0 (config_file t h))) s0 s1"
      by (rule backup_effect [OF assms])
    show thesis
    proof (cases rule: generate_effect [of env t h s1])
      case (written cfg n h' s2)
      with Pair Inr b C P show thesis
        by (intro staged [of h s2 cfg]) (auto simp: stage_host_def rendered_def with_files_def same_system_def config_name)
    next
      case not_written: (failed m rest s2)
      obtain s3 s4 where u: "renameConfigAsError env t h s2 = (Inr (), s3)" "restoreConfig env t h s3 = (Inr (), s4)"
          "with_files (undone t h (ng_files s2)) s2 s4"
        by (rule undo_effect [OF assms])
      have "stage_host env model t snap s = (Inl (ConfigurationError m), s4)"
        using Pair Inr b(1) not_written(1) u by (simp add: stage_host_def)
      then show thesis
        using not_written(2) u(3) b(2) C(1) P
        by (intro failed [of "ConfigurationError m" s4]) (auto simp: with_files_def undone_def same_system_def config_name host_paths_def)
    qed
  qed
qed

section \<open>Activation\<close>

lemma test_effect:
  obtains (passed) s' where "nginx_test env s = (Inr (), s')" and "with_files (ng_files s) s s'"
    | (rejected) e s' where "nginx_test env s = (Inl e, s')" and "with_files (ng_files s) s s'"
  by (cases "nginx_check env (ng_clock s) (ng_files s)") (auto simp: nginx_test_def with_files_def tick_def)

lemma reload_effect:
  obtains (loaded) s' where "reloadCommands env s = (Inr (), s')" and "with_files (ng_files s) (s\<lparr>ng_live := ng_files s\<rparr>) s'"
    | (rejected) e s' where "reloadCommands env s = (Inl e, s')" and "with_files (ng_files s) s s'"
proof (cases rule: test_effect [of env s])
  case (passed s1)
  show thesis
  proof (cases "nginx_signal env (ng_clock s1)")
    case None
    with passed show thesis by (intro loaded) (auto simp: reloadCommands_def with_files_def tick_def)
  next
    case (Some e)
    with passed show thesis by (intro rejected [of e "tick s1"]) (auto simp: reloadCommands_def with_files_def)
  qed
next
  case t: (rejected e s1)
  then show thesis by (intro rejected) (auto simp: reloadCommands_def)
qed

text \<open>\<open>live_after b\<close>: the configuration a successful check leaves running, when it is followed by a reload or not.\<close>

definition live_after :: "bool \<Rightarrow> nginx_state \<Rightarrow> files" where
  "live_after reloaded s = (if reloaded then ng_files s else ng_live s)"

lemma activate_effect:
  obtains (active) s' where "(if reloaded then reloadCommands env else nginx_test env) s = (Inr (), s')"
      and "with_files (ng_files s) (s\<lparr>ng_live := live_after reloaded s\<rparr>) s'"
    | (rejected) e s' where "(if reloaded then reloadCommands env else nginx_test env) s = (Inl e, s')" and "with_files (ng_files s) s s'"
proof (cases reloaded)
  case True
  show thesis
    by (cases rule: reload_effect [of env s]) (use True in \<open>auto simp: live_after_def intro: that\<close>)
next
  case False
  show thesis
    by (cases rule: test_effect [of env s]) (use False in \<open>auto simp: live_after_def intro: that\<close>)
qed

lemma reactivate_effect:
  obtains (active) s' where "(if reloaded then reloadCommands env else op_ret ()) s = (Inr (), s')"
      and "with_files (ng_files s) (s\<lparr>ng_live := live_after reloaded s\<rparr>) s'"
    | (rejected) e s' where "(if reloaded then reloadCommands env else op_ret ()) s = (Inl e, s')" and "with_files (ng_files s) s s'"
proof (cases reloaded)
  case True
  show thesis
    by (cases rule: reload_effect [of env s]) (use True in \<open>auto simp: live_after_def intro: that\<close>)
next
  case False
  then show thesis by (intro active [of s]) (auto simp: live_after_def with_files_def)
qed

section \<open>One host\<close>

text \<open>The outcome of an operation that returns the status of a host: whether its new configuration stays.\<close>

definition accepted_status :: "jsval \<Rightarrow> bool" where
  "accepted_status meta \<longleftrightarrow> js_get meta ''nginx_err'' = Null"

definition committed :: "jsval result \<Rightarrow> bool" where
  "committed r \<longleftrightarrow> (case r of Inl e \<Rightarrow> False | Inr meta \<Rightarrow> accepted_status meta)"

definition installed :: "nginx_env \<Rightarrow> string \<Rightarrow> jsval \<Rightarrow> files \<Rightarrow> bool" where
  "installed env t snap fs \<longleftrightarrow> fs (backup_file t snap) = None \<and>
     (\<exists>h cfg. js_get h ''id'' = js_get snap ''id'' \<and> rendered env t h cfg \<and> fs (config_file t snap) = Some cfg)"

lemma undone_cong: "js_get h ''id'' = js_get h' ''id'' \<Longrightarrow> undone t h = undone t h'"
  by (rule ext) (simp only: undone_def paths_cong [of h h'])

text \<open>A property of the host tables that no status write of a host loses.\<close>

definition status_fields :: "(string \<times> jsval) list \<Rightarrow> bool" where
  "status_fields st \<longleftrightarrow> map fst st = [''nginx_online'', ''nginx_err'']"

lemma status_fields_simps [simp]: "status_fields (online_status h)" "status_fields (failed_status e)"
  by (simp_all add: status_fields_def online_status_def failed_status_def)

definition status_closed :: "nginx_env \<Rightarrow> string \<Rightarrow> jsval \<Rightarrow> ((string \<Rightarrow> jsval list) \<Rightarrow> bool) \<Rightarrow> bool" where
  "status_closed env model i P \<longleftrightarrow> (\<forall>h st s r s'. js_get h ''id'' = i \<longrightarrow> status_fields st \<longrightarrow>
     updateHostStatus env model h st s = (r, s') \<longrightarrow> P (ng_tables s) \<longrightarrow> P (ng_tables s'))"

lemma status_closedD:
  "status_closed env model i P \<Longrightarrow> js_get h ''id'' = i \<Longrightarrow> status_fields st \<Longrightarrow>
     updateHostStatus env model h st s = (r, s') \<Longrightarrow> P (ng_tables s) \<Longrightarrow> P (ng_tables s')"
  unfolding status_closed_def by blast

lemma undo_and_report:
  assumes "reliable_files env" and "js_get h ''id'' = js_get snap ''id''"
    and "op_seq (renameConfigAsError env t h) (op_seq (restoreConfig env t h)
       (op_seq (if reloaded then reloadCommands env else op_ret ()) (updateHostStatus env model h (failed_status e)))) s = (r, s')"
  shows "ng_files s' = undone t snap (ng_files s)" "\<not> committed r" "reloaded \<Longrightarrow> isl r \<or> ng_live s' = ng_files s'"
    "status_closed env model (js_get snap ''id'') P \<Longrightarrow> P (ng_tables s) \<Longrightarrow> P (ng_tables s')"
proof -
  note P = undone_cong [OF assms(2), of t]
  obtain s1 s2 where u: "renameConfigAsError env t h s = (Inr (), s1)" "restoreConfig env t h s1 = (Inr (), s2)"
      "with_files (undone t h (ng_files s)) s s2"
    by (rule undo_effect [OF assms(1)])
  have "ng_files s' = undone t h (ng_files s) \<and> \<not> committed r \<and> (reloaded \<longrightarrow> isl r \<or> ng_live s' = ng_files s') \<and>
      (status_closed env model (js_get snap ''id'') P \<longrightarrow> P (ng_tables s) \<longrightarrow> P (ng_tables s'))"
  proof (cases rule: reactivate_effect [of reloaded env s2])
    case (active s3)
    then have "updateHostStatus env model h (failed_status e) s3 = (r, s')" using assms(3) u by simp
    from status_system [OF this] this u(3) active(2) status_closedD [OF _ assms(2) status_fields_simps(2) this, of P] show ?thesis
      by (cases r) (auto simp: same_system_def with_files_def committed_def accepted_status_def live_after_def
          dest: status_failed)
  next
    case (rejected e' s3)
    with assms(3) u show ?thesis by (auto simp: with_files_def committed_def)
  qed
  then show "ng_files s' = undone t snap (ng_files s)" "\<not> committed r" "reloaded \<Longrightarrow> isl r \<or> ng_live s' = ng_files s'"
    "status_closed env model (js_get snap ''id'') P \<Longrightarrow> P (ng_tables s) \<Longrightarrow> P (ng_tables s')"
    using P by auto
qed

lemma undone_files:
  "undone t h fs (config_file t h) = fs (backup_file t h)" "undone t h fs (backup_file t h) = None"
  "p \<notin> host_paths t h \<Longrightarrow> undone t h fs p = fs p"
  by (auto simp: undone_def host_paths_def)

lemma configure_effect:
  assumes "reliable_files env" and "configureHost env skip_reload model t snap s = (r, s')"
  shows "(if committed r then ng_files s' (backup_file t snap) = None \<and>
        (\<exists>h s1 cfg. stage_host env model t snap s = (Inr h, s1) \<and> js_get h ''id'' = js_get snap ''id'' \<and> rendered env t h cfg \<and>
           ng_files s' (config_file t snap) = Some cfg)
      else ng_files s' (config_file t snap) = ng_files s (config_file t snap)) \<and>
    (\<forall>p. p \<notin> host_paths t snap \<longrightarrow> ng_files s' p = ng_files s p) \<and>
    (skip_reload \<or> isl r \<or> (\<forall>p. p \<noteq> backup_file t snap \<longrightarrow> ng_live s' p = ng_files s' p)) \<and>
    (\<forall>P h s1. status_closed env model (js_get snap ''id'') P \<longrightarrow> stage_host env model t snap s = (Inr h, s1) \<longrightarrow>
       P (ng_tables s1) \<longrightarrow> P (ng_tables s')) \<and>
    (isl (fst (stage_host env model t snap s)) \<longrightarrow> isl r)"
  using assms(1)
proof (cases rule: stage_effect [where model = model and t = t and snap = snap and s = s])
  case (failed e s1)
  with assms(2) show ?thesis by (auto simp: configureHost_def committed_def)
next
  case (staged h s1 cfg)
  note P = paths_cong [OF staged(2), of t]
  have undo: ?thesis
    if "op_seq (renameConfigAsError env t h) (op_seq (restoreConfig env t h)
         (op_seq (if \<not> skip_reload then reloadCommands env else op_ret ()) (updateHostStatus env model h (failed_status e)))) s2 = (r, s')"
      and "ng_files s2 = ng_files s1"
      and "\<And>P. status_closed env model (js_get snap ''id'') P \<Longrightarrow> P (ng_tables s1) \<Longrightarrow> P (ng_tables s2)" for e s2
    using undo_and_report [OF assms(1) staged(2) that(1)] that(2,3) staged(1,5)
    by (auto simp: undone_files host_paths_def)
  have sw: "(if skip_reload then nginx_test env else reloadCommands env) = (if \<not> skip_reload then reloadCommands env else nginx_test env)"
    "(if skip_reload then op_ret () else reloadCommands env) = (if \<not> skip_reload then reloadCommands env else op_ret ())"
    by simp_all
  show ?thesis
  proof (cases rule: activate_effect [of "\<not> skip_reload" env s1])
    case (rejected e s2)
    then have "op_seq (renameConfigAsError env t h) (op_seq (restoreConfig env t h)
         (op_seq (if \<not> skip_reload then reloadCommands env else op_ret ()) (updateHostStatus env model h (failed_status e)))) s2 = (r, s')"
      using assms(2) staged(1) unfolding configureHost_def sw by simp
    then show ?thesis by (rule undo) (use rejected(2) in \<open>simp_all add: with_files_def\<close>)
  next
    case (active s2)
    obtain r3 s3 where u: "updateHostStatus env model h (online_status h) s2 = (r3, s3)" by (cases "updateHostStatus env model h (online_status h) s2")
    have same: "ng_files s3 = ng_files s1" "ng_live s3 = live_after (\<not> skip_reload) s1"
      using status_system [OF u] active(2) by (simp_all add: same_system_def with_files_def)
    show ?thesis
    proof (cases r3)
      case (Inl e)
      with active(1) u assms(2) staged(1)
      have "op_seq (renameConfigAsError env t h) (op_seq (restoreConfig env t h)
           (op_seq (if \<not> skip_reload then reloadCommands env else op_ret ()) (updateHostStatus env model h (failed_status e)))) s3 = (r, s')"
        unfolding configureHost_def sw by simp
      moreover have "P (ng_tables s3)" if "status_closed env model (js_get snap ''id'') P" "P (ng_tables s1)" for P
        using status_closedD [OF that(1) staged(2) status_fields_simps(1) u] active(2) that(2) by (simp add: with_files_def)
      ultimately show ?thesis using same(1) by (intro undo)
    next
      case (Inr meta)
      obtain s4 where d: "deleteBackupConfig env t h s3 = (Inr (), s4)" "with_files ((ng_files s3)(backup_file t h := None)) s3 s4"
        unfolding deleteBackupConfig_def by (rule delete_file_effect [OF assms(1)])
      have r: "r = Inr meta" "ng_files s' = ng_files s4" "ng_live s' = ng_live s4"
        using active(1) u Inr d(1) assms(2) staged(1) unfolding configureHost_def sw by (auto simp: generatePolicy_def)
      have "committed r" using u Inr r by (auto simp: committed_def accepted_status_def dest: status_online)
      moreover have "ng_tables s' = ng_tables s3" "ng_tables s2 = ng_tables s1"
        using active(1,2) u Inr d assms(2) staged(1) unfolding configureHost_def sw by (auto simp: generatePolicy_def with_files_def)
      moreover have "\<forall>P. status_closed env model (js_get snap ''id'') P \<longrightarrow> P (ng_tables s2) \<longrightarrow> P (ng_tables s3)"
        using status_closedD [OF _ staged(2) status_fields_simps(1) u] by blast
      ultimately show ?thesis
        using staged(1,2,3,5) same d(2) r P by (auto simp: with_files_def host_paths_def live_after_def)
    qed
  qed
qed

section \<open>Batches\<close>

definition item_id :: "string \<times> string \<times> jsval \<Rightarrow> jsval" where
  "item_id i = js_get (snd (snd i)) ''id''"

definition item_config :: "string \<times> string \<times> jsval \<Rightarrow> string" where
  "item_config i = config_file (fst (snd i)) (snd (snd i))"

definition item_paths :: "string \<times> string \<times> jsval \<Rightarrow> string set" where
  "item_paths i = host_paths (fst (snd i)) (snd (snd i))"

definition item_backup :: "string \<times> string \<times> jsval \<Rightarrow> string" where
  "item_backup i = backup_file (fst (snd i)) (snd (snd i))"

lemma item_paths_disjoint: "item_config i \<noteq> item_config j \<Longrightarrow> item_paths i \<inter> item_paths j = {}"
  by (auto simp: item_config_def item_paths_def host_paths_def path_inj)

lemma item_in_paths [simp]: "item_config i \<in> item_paths i" "item_backup i \<in> item_paths i"
  by (simp_all add: item_config_def item_paths_def item_backup_def host_paths_def)

lemma item_other_paths:
  "item_config i \<noteq> item_config j \<Longrightarrow> item_config j \<notin> item_paths i \<and> item_backup j \<notin> item_paths i"
  using item_paths_disjoint [of i j] item_in_paths [of j] by blast

text \<open>A stage that was made of an item.\<close>

definition stage_of :: "string \<times> string \<times> jsval \<Rightarrow> stage \<Rightarrow> bool" where
  "stage_of i st \<longleftrightarrow> st_model st = fst i \<and> st_type st = fst (snd i) \<and> js_get (st_host st) ''id'' = item_id i"

text \<open>Relative to the files before the batch, a staged item has a backup of its configuration and a new one.\<close>

definition item_staged :: "nginx_env \<Rightarrow> files \<Rightarrow> files \<Rightarrow> string \<times> string \<times> jsval \<Rightarrow> bool" where
  "item_staged env f0 f i \<longleftrightarrow> f (item_backup i) = f0 (item_config i) \<and>
     (\<exists>h cfg. js_get h ''id'' = item_id i \<and> rendered env (fst (snd i)) h cfg \<and> f (item_config i) = Some cfg)"

lemma item_staged_cong:
  "f (item_backup i) = g (item_backup i) \<Longrightarrow> f (item_config i) = g (item_config i) \<Longrightarrow>
     item_staged env f0 f i = item_staged env f0 g i"
  by (simp add: item_staged_def)

definition all_paths :: "(string \<times> string \<times> jsval) list \<Rightarrow> string set" where
  "all_paths items = (\<Union>i \<in> set items. item_paths i)"

lemma all_paths_simps [simp]: "all_paths [] = {}" "all_paths (i # items) = item_paths i \<union> all_paths items"
  by (simp_all add: all_paths_def)

lemma item_not_in_all:
  assumes "item_config i \<notin> set (map item_config items)"
  shows "item_config i \<notin> all_paths items" "item_backup i \<notin> all_paths items"
proof -
  have "item_config i \<notin> item_paths j \<and> item_backup i \<notin> item_paths j" if "j \<in> set items" for j
    using item_other_paths [of j i] assms that by (metis image_eqI list.set_map)
  then show "item_config i \<notin> all_paths items" "item_backup i \<notin> all_paths items"
    by (auto simp: all_paths_def)
qed

text \<open>Staging: the items before the failing one are staged, the failing one and the rest keep their configuration.\<close>

lemma stage_all_effect:
  assumes "reliable_files env" and "stage_all env items stages s = ((stages', failure), s')"
    and "distinct (map item_config items)"
  shows "\<exists>new pre post. items = pre @ post \<and> stages' = stages @ new \<and> list_all2 stage_of pre new \<and>
    (failure = None \<longleftrightarrow> post = []) \<and> (\<forall>i \<in> set pre. item_staged env (ng_files s) (ng_files s') i) \<and>
    (\<forall>i \<in> set post. ng_files s' (item_config i) = ng_files s (item_config i)) \<and>
    (\<forall>p. p \<notin> all_paths items \<longrightarrow> ng_files s' p = ng_files s p)"
  using assms(2,3)
proof (induction items arbitrary: stages s)
  case Nil
  then show ?case by (intro exI [of _ "[]"]) auto
next
  case (Cons i items)
  obtain m t h where i: "i = (m, t, h)" by (cases i)
  have fresh: "item_config i \<notin> set (map item_config items)" and d: "distinct (map item_config items)" using Cons.prems(2) by simp_all
  from assms(1) show ?case
  proof (cases rule: stage_effect [where model = m and t = t and snap = h and s = s])
    case (failed e s1)
    have r: "stages' = stages" "failure = Some e" "s' = s1" using Cons.prems(1) failed(1) by (auto simp: i)
    have "ng_files s' (item_config j) = ng_files s (item_config j)" if "j \<in> set (i # items)" for j
    proof (cases "j = i")
      case True
      then show ?thesis using failed(3) r by (simp add: i item_config_def)
    next
      case False
      with that fresh have "item_config i \<noteq> item_config j" by (auto simp: image_iff)
      from item_other_paths [OF this] failed(4) r show ?thesis by (simp add: i item_paths_def)
    qed
    moreover have "ng_files s' p = ng_files s p" if "p \<notin> all_paths (i # items)" for p
      using that failed(4) r by (simp add: i item_paths_def)
    ultimately show ?thesis using r by (intro exI [of _ "[]"] exI [of _ "i # items"]) auto
  next
    case (staged host s1 cfg)
    let ?st = "\<lparr>st_host = host, st_type = t, st_model = m\<rparr>"
    have "stage_all env items (stages @ [?st]) s1 = ((stages', failure), s')" using Cons.prems(1) staged(1) by (simp add: i)
    from Cons.IH [OF this d] obtain new pre post where IH: "items = pre @ post" "stages' = (stages @ [?st]) @ new"
        "list_all2 stage_of pre new" "failure = None \<longleftrightarrow> post = []"
        "\<forall>j \<in> set pre. item_staged env (ng_files s1) (ng_files s') j"
        "\<forall>j \<in> set post. ng_files s' (item_config j) = ng_files s1 (item_config j)"
        "\<forall>p. p \<notin> all_paths items \<longrightarrow> ng_files s' p = ng_files s1 p" by blast
    have f1: "ng_files s1 = (ng_files s)(item_backup i := ng_files s (item_config i), item_config i \<mapsto> cfg)"
      using staged(5) by (simp add: i item_backup_def item_config_def)
    have keep: "ng_files s1 (item_config j) = ng_files s (item_config j)" if "j \<in> set items" for j
      using that fresh item_in_paths(2) [of i] item_other_paths [of i j] unfolding f1
      by (auto simp: image_iff)
    have "item_staged env (ng_files s) (ng_files s') i"
    proof -
      have "item_staged env (ng_files s) (ng_files s1) i"
        using staged(2,3) unfolding f1 item_staged_def
        by (auto simp: i item_id_def item_config_def item_backup_def)
      with IH(7) item_not_in_all [OF fresh] show ?thesis by (simp cong: item_staged_cong add: item_staged_def)
    qed
    moreover have "\<forall>j \<in> set pre. item_staged env (ng_files s) (ng_files s') j"
      using IH(1,5) keep by (auto simp: item_staged_def)
    moreover have "\<forall>j \<in> set post. ng_files s' (item_config j) = ng_files s (item_config j)"
      using IH(1,6) keep by auto
    moreover have "\<forall>p. p \<notin> all_paths (i # items) \<longrightarrow> ng_files s' p = ng_files s p"
      using IH(7) unfolding f1 by (auto simp: fun_upd_apply)
    moreover have "stage_of i ?st" using staged(2) by (simp add: stage_of_def i item_id_def)
    ultimately show ?thesis using IH(1-4)
      by (intro exI [of _ "?st # new"] exI [of _ "i # pre"] exI [of _ post]) auto
  qed
qed

lemma rollback_effect:
  assumes "reliable_files env" and "stage_of i st" and "rollbackStagedConfig env e st s = (r, s')"
  shows "ng_files s' = undone (fst (snd i)) (snd (snd i)) (ng_files s)" "ng_live s' = ng_live s" "\<not> committed r"
proof -
  have id: "st_type st = fst (snd i)" "js_get (st_host st) ''id'' = js_get (snd (snd i)) ''id''"
    using assms(2) by (simp_all add: stage_of_def item_id_def)
  note u = undo_and_report [OF assms(1) id(2), of "fst (snd i)" False "st_model st" e s r s']
  have run: "op_seq (renameConfigAsError env (fst (snd i)) (st_host st)) (op_seq (restoreConfig env (fst (snd i)) (st_host st))
      (op_seq (if False then reloadCommands env else op_ret ()) (updateHostStatus env (st_model st) (st_host st) (failed_status e)))) s = (r, s')"
    using assms(3) id(1) by (simp add: rollbackStagedConfig_def split: prod.splits sum.splits)
  from u [OF run] show "ng_files s' = undone (fst (snd i)) (snd (snd i)) (ng_files s)" "\<not> committed r" by simp_all
  obtain s1 s2 where "renameConfigAsError env (fst (snd i)) (st_host st) s = (Inr (), s1)"
      "restoreConfig env (fst (snd i)) (st_host st) s1 = (Inr (), s2)"
      "with_files (undone (fst (snd i)) (st_host st) (ng_files s)) s s2"
    by (rule undo_effect [OF assms(1)])
  with run show "ng_live s' = ng_live s"
    by (auto simp: with_files_def same_system_def dest: status_system)
qed

text \<open>Undoing a batch gives every staged item the configuration its backup holds.\<close>

lemma rollback_all_effect:
  assumes "reliable_files env" and "op_settled (rollbackStagedConfig env e) stages s = (rs, s')"
    and "list_all2 stage_of items stages" and "distinct (map item_config items)"
  shows "(\<forall>i \<in> set items. ng_files s' (item_config i) = ng_files s (item_backup i)) \<and>
    (\<forall>p. p \<notin> all_paths items \<longrightarrow> ng_files s' p = ng_files s p) \<and> ng_live s' = ng_live s \<and>
    length rs = length items \<and> list_all (\<lambda>r. \<not> committed r) rs"
  using assms(2-4)
proof (induction stages arbitrary: items s rs)
  case Nil
  then show ?case by simp
next
  case (Cons st stages)
  then obtain i rest where items: "items = i # rest" and st: "stage_of i st" and r2: "list_all2 stage_of rest stages"
    by (auto simp: list_all2_Cons2)
  obtain r s1 where r: "rollbackStagedConfig env e st s = (r, s1)" by (cases "rollbackStagedConfig env e st s")
  obtain rs2 where rest: "op_settled (rollbackStagedConfig env e) stages s1 = (rs2, s')" and eq: "rs = r # rs2"
    using Cons.prems(1) r by (auto split: prod.splits)
  have fresh: "item_config i \<notin> set (map item_config rest)" and d: "distinct (map item_config rest)"
    using Cons.prems(3) items by simp_all
  note one = rollback_effect [OF assms(1) st r] and IH = Cons.IH [OF rest r2 d]
  have f1: "ng_files s1 (item_config i) = ng_files s (item_backup i)"
    "\<And>p. p \<notin> item_paths i \<Longrightarrow> ng_files s1 p = ng_files s p"
    using one(1) by (simp_all add: undone_files item_config_def item_backup_def item_paths_def)
  have keep: "ng_files s1 (item_backup j) = ng_files s (item_backup j)" if "j \<in> set rest" for j
  proof -
    have "item_config i \<noteq> item_config j" using that fresh by (auto simp: image_iff)
    then show ?thesis using f1(2) item_other_paths by blast
  qed
  show ?case unfolding items eq
    using IH keep f1 one(2,3) item_not_in_all [OF fresh] by auto
qed

lemma settled_values_Inr: "settled_values rs = Inr vs \<longleftrightarrow> rs = map Inr vs"
proof (induction rs arbitrary: vs)
  case Nil
  then show ?case by (auto simp: settled_values_def)
next
  case (Cons r rs)
  show ?case using Cons.IH by (cases vs) (auto simp: settled_values_def res_simps)
qed

lemma commit_all_effect:
  assumes "op_settled (commitStagedConfig env True) stages s = (rs, s')"
  shows "same_system s s'" "length rs = length stages" "settled_values rs = Inr metas \<Longrightarrow> list_all accepted_status metas"
proof -
  have one: "same_system s s' \<and> (\<forall>m. r = Inr m \<longrightarrow> accepted_status m)" if "commitStagedConfig env True st s = (r, s')" for st s r s'
    using that by (auto simp: commitStagedConfig_def accepted_status_def dest: status_system status_online
        split: prod.splits sum.splits)
  have "same_system s s' \<and> length rs = length stages \<and> list_all (\<lambda>r. \<forall>m. r = Inr m \<longrightarrow> accepted_status m) rs"
    using assms
  proof (induction stages arbitrary: s rs)
    case Nil
    then show ?case by (auto simp: same_system_def)
  next
    case (Cons st stages)
    from Cons.prems obtain r s1 rs2 where r: "commitStagedConfig env True st s = (r, s1)"
        "op_settled (commitStagedConfig env True) stages s1 = (rs2, s')" "rs = r # rs2"
      by (auto split: prod.splits)
    from Cons.IH [OF r(2)] one [OF r(1)] r(3) show ?case by (auto simp: same_system_def)
  qed
  then show "same_system s s'" "length rs = length stages" "settled_values rs = Inr metas \<Longrightarrow> list_all accepted_status metas"
    by (auto simp: settled_values_Inr list_all_iff)
qed

lemma cleanup_all_effect:
  assumes "reliable_files env"
    and "op_settled (\<lambda>st. deleteBackupConfig env (st_type st) (st_host st)) stages s = (rs, s')"
    and "list_all2 stage_of items stages"
  shows "ng_files s' = (\<lambda>p. if p \<in> item_backup ` set items then None else ng_files s p) \<and> ng_live s' = ng_live s"
  using assms(2,3)
proof (induction stages arbitrary: items s rs)
  case Nil
  from Nil.prems have "items = []" "s' = s" by simp_all
  then show ?case by simp
next
  case (Cons st stages)
  then obtain i rest where items: "items = i # rest" and st: "stage_of i st" and r2: "list_all2 stage_of rest stages"
    by (auto simp: list_all2_Cons2)
  have b: "backup_file (st_type st) (st_host st) = item_backup i"
    using st paths_cong(2) [of "st_host st" "snd (snd i)"] by (simp add: stage_of_def item_id_def item_backup_def)
  obtain s1 where d: "deleteBackupConfig env (st_type st) (st_host st) s = (Inr (), s1)"
      "with_files ((ng_files s)(item_backup i := None)) s s1"
    unfolding deleteBackupConfig_def b by (rule delete_file_effect [OF assms(1)])
  from Cons.prems(1) d(1) obtain rs2 where "op_settled (\<lambda>st. deleteBackupConfig env (st_type st) (st_host st)) stages s1 = (rs2, s')"
    by (auto split: prod.splits)
  from Cons.IH [OF this r2] d(2) show ?case unfolding items by (auto simp: with_files_def fun_eq_iff)
qed

definition batch_committed :: "nat \<Rightarrow> jsval list result \<Rightarrow> bool" where
  "batch_committed n r \<longleftrightarrow> (case r of Inl e \<Rightarrow> False | Inr metas \<Rightarrow> length metas = n \<and> list_all accepted_status metas)"

lemma bulk_rollback_effect:
  assumes "reliable_files env" and "list_all2 stage_of items stages" and "distinct (map item_config items)"
    and "bulk_rollback env opts stages e s = (r, s')"
  shows "(\<forall>i \<in> set items. ng_files s' (item_config i) = ng_files s (item_backup i)) \<and>
    (\<forall>p. p \<notin> all_paths items \<longrightarrow> ng_files s' p = ng_files s p) \<and>
    (\<forall>metas. r = Inr metas \<longrightarrow> length metas = length items \<and> list_all (\<lambda>m. \<not> accepted_status m) metas \<and>
       (bulk_reload opts \<longrightarrow> ng_live s' = ng_files s'))"
proof -
  obtain rs s1 where rb: "op_settled (rollbackStagedConfig env e) stages s = (rs, s1)"
    by (cases "op_settled (rollbackStagedConfig env e) stages s")
  note R = rollback_all_effect [OF assms(1) rb assms(2,3)]
  have vs: "length metas = length items \<and> list_all (\<lambda>m. \<not> accepted_status m) metas" if "settled_values rs = Inr metas" for metas
    using that R by (auto simp: settled_values_Inr list_all_iff committed_def)
  show ?thesis
  proof (cases rule: reactivate_effect [of "bulk_reload opts" env s1])
    case (active s2)
    have f: "ng_files s2 = ng_files s1" "bulk_reload opts \<Longrightarrow> ng_live s2 = ng_files s1"
      using active(2) by (simp_all add: with_files_def live_after_def)
    show ?thesis
    proof (cases "settled_values rs")
      case (Inl e')
      then have "r = Inl e'" "s' = s2" using assms(4) rb active(1) by (simp_all add: bulk_rollback_def)
      then show ?thesis using R f by simp
    next
      case (Inr metas)
      then have "r = (if throwOnError opts then Inl e else Inr metas)" "s' = s2"
        using assms(4) rb active(1) by (auto simp: bulk_rollback_def split: if_splits)
      then show ?thesis using R f vs [OF Inr] by simp
    qed
  next
    case (rejected e' s2)
    with assms(4) rb R show ?thesis by (auto simp: bulk_rollback_def with_files_def)
  qed
qed

lemma bulk_commit_effect:
  assumes "reliable_files env" and "list_all2 stage_of items stages" and "bulk_commit env opts stages s = (r, s')"
  obtains (committed) metas where "r = Inr metas" and "length metas = length items" and "list_all accepted_status metas"
      and "ng_files s' = (\<lambda>p. if p \<in> item_backup ` set items then None else ng_files s p)"
      and "ng_live s' = live_after (bulk_reload opts) s"
    | (failed) e where "r = Inl e" and "ng_files s' = ng_files s"
proof (cases rule: activate_effect [of "bulk_reload opts" env s])
  case (rejected e s1)
  with assms(3) show thesis by (intro failed [of e]) (auto simp: bulk_commit_def activate_def with_files_def)
next
  case (active s1)
  obtain rs s2 where c: "op_settled (commitStagedConfig env True) stages s1 = (rs, s2)"
    by (cases "op_settled (commitStagedConfig env True) stages s1")
  note C = commit_all_effect [OF c]
  show thesis
  proof (cases "settled_values rs")
    case (Inl e)
    with active c C(1) assms(3) show thesis
      by (intro failed [of e]) (auto simp: bulk_commit_def activate_def with_files_def same_system_def)
  next
    case (Inr metas)
    obtain rs3 s3 where d: "op_settled (\<lambda>st. deleteBackupConfig env (st_type st) (st_host st)) stages s2 = (rs3, s3)"
      by (cases "op_settled (\<lambda>st. deleteBackupConfig env (st_type st) (st_host st)) stages s2")
    have "r = Inr metas" "ng_files s' = ng_files s3" "ng_live s' = ng_live s3"
      using active(1) c Inr d assms(3) by (auto simp: bulk_commit_def activate_def generatePolicy_def)
    moreover have "length metas = length items"
      using C(2) Inr assms(2) by (auto simp: settled_values_Inr dest: list_all2_lengthD)
    ultimately show thesis
      using cleanup_all_effect [OF assms(1) d assms(2)] C(1) C(3) [OF Inr] active(2)
      by (intro committed [of metas]) (auto simp: with_files_def same_system_def)
  qed
qed

text \<open>The outcome of a batch for every host of it.\<close>

definition batch_outcome :: "nginx_env \<Rightarrow> (string \<times> string \<times> jsval) list \<Rightarrow> jsval list result \<Rightarrow> files \<Rightarrow> files \<Rightarrow> bool" where
  "batch_outcome env items r f f' \<longleftrightarrow>
     (if batch_committed (length items) r
      then \<forall>i \<in> set items. installed env (fst (snd i)) (snd (snd i)) f'
      else \<forall>i \<in> set items. f' (item_config i) = f (item_config i)) \<and>
     (\<forall>p. p \<notin> all_paths items \<longrightarrow> f' p = f p)"

lemma batch_undone:
  assumes "reliable_files env" and "distinct (map item_config items)" and "items = pre @ post"
    and "list_all2 stage_of pre stages"
    and "\<forall>i \<in> set pre. item_staged env (ng_files s) (ng_files s1) i"
    and "\<forall>i \<in> set post. ng_files s1 (item_config i) = ng_files s (item_config i)"
    and "\<forall>p. p \<notin> all_paths items \<longrightarrow> ng_files s1 p = ng_files s p"
    and "bulk_rollback env opts stages e s2 = (r, s')" and "ng_files s2 = ng_files s1"
  shows "batch_outcome env items r (ng_files s) (ng_files s')"
proof -
  have dp: "distinct (map item_config pre)" using assms(2,3) by simp
  note B = bulk_rollback_effect [OF assms(1,4) dp assms(8), unfolded assms(9)]
  have "\<not> batch_committed (length items) r \<or> items = []"
  proof (cases r)
    case (Inr metas)
    with B have "list_all (\<lambda>m. \<not> accepted_status m) metas" by blast
    then have "list_all accepted_status metas \<Longrightarrow> metas = []" by (cases metas) auto
    with Inr show ?thesis by (auto simp: batch_committed_def)
  qed (simp add: batch_committed_def)
  moreover have "ng_files s' (item_config i) = ng_files s (item_config i)" if "i \<in> set items" for i
  proof (cases "i \<in> set pre")
    case True
    with B assms(5) show ?thesis by (simp add: item_staged_def)
  next
    case False
    with that assms(3) have post: "i \<in> set post" by simp
    have "item_config i \<notin> set (map item_config pre)" using assms(2,3) post by (auto simp: image_iff)
    with item_not_in_all(1) [OF this] B assms(6) post show ?thesis by simp
  qed
  moreover have "\<forall>p. p \<notin> all_paths items \<longrightarrow> ng_files s' p = ng_files s p"
    using B assms(3,7) by (auto simp: all_paths_def)
  ultimately show ?thesis by (auto simp: batch_outcome_def)
qed

lemma batch_installed:
  assumes "reliable_files env" and "list_all2 stage_of items stages"
    and "\<forall>i \<in> set items. item_staged env (ng_files s) (ng_files s1) i"
    and "\<forall>p. p \<notin> all_paths items \<longrightarrow> ng_files s1 p = ng_files s p"
    and "ng_files s2 = (\<lambda>p. if p \<in> item_backup ` set items then None else ng_files s1 p)"
    and "length metas = length items" and "list_all accepted_status metas"
  shows "batch_outcome env items (Inr metas) (ng_files s) (ng_files s2)"
proof -
  have "installed env (fst (snd i)) (snd (snd i)) (ng_files s2)" if "i \<in> set items" for i
  proof -
    have "item_config i \<notin> item_backup ` set items" by (auto simp: item_config_def item_backup_def)
    with assms(3,5) that show ?thesis
      by (auto simp: installed_def item_staged_def item_id_def item_config_def item_backup_def)
  qed
  moreover have "ng_files s2 p = ng_files s p" if "p \<notin> all_paths items" for p
    using that assms(4,5) item_in_paths(2) by (auto simp: all_paths_def)
  ultimately show ?thesis using assms(6,7) by (simp add: batch_outcome_def batch_committed_def)
qed

end
