(* ===== verification/Nginx_Claims.thy ===== *)
theory Nginx_Claims
  imports Nginx_Config_Props
begin

text \<open>
  The properties of the configuration engine: installing one host, installing a batch, retired hosts, and the
  configuration Nginx runs.
\<close>

section \<open>Installing configurations\<close>

text \<open>Two hosts; Nginx rejects the new configuration of the second. The template only shows whether the host is on.\<close>

definition row_of :: "int \<Rightarrow> jsval \<Rightarrow> jsval" where
  "row_of i meta = JObj [(''id'', JNum i), (''is_deleted'', JBool False), (''enabled'', JBool True), (''meta'', meta)]"

definition ref_of :: "int \<Rightarrow> jsval" where
  "ref_of i = JObj [(''id'', JNum i)]"

definition engine0 :: nginx_env where
  "engine0 = \<lparr>fs_fault = (\<lambda>_. None), write_fault = (\<lambda>_. None),
     template = (\<lambda>_ _ h. Inr (if truthy (js_get h ''enabled'') then ''on'' else ''off'')),
     nginx_check = (\<lambda>_ fs. if fs ''/data/nginx/dead_host/2.conf'' = Some ''on'' then Some (CommandError ''bad'' 1) else None),
     nginx_signal = (\<lambda>_. None), db_fault = (\<lambda>_. None), relations = (\<lambda>_ _. []), parse_json = (\<lambda>_. None),
     clock_text = (\<lambda>_. ''now'')\<rparr>"

definition files0 :: files where
  "files0 = [''/data/nginx/dead_host/1.conf'' \<mapsto> ''old1'', ''/data/nginx/dead_host/2.conf'' \<mapsto> ''old2'']"

definition nginx0 :: nginx_state where
  "nginx0 = \<lparr>ng_tables = (\<lambda>m. if m = ''dead_host'' then [row_of 1 (JObj []), row_of 2 (JObj [])]
       else if m = ''proxy_host'' then [row_of 3 (JObj [(''wasm_filters'', JStr ''?'')])] else []),
     ng_files = files0, ng_live = files0, ng_anubis = 0, ng_clock = 0\<rparr>"

lemma engine0_reliable: "reliable_files engine0"
  by (simp add: reliable_files_def engine0_def)

text \<open>C18. Installing the configuration of a host replaces it or leaves it as it was. While renames, removals and copies of files
  succeed, and whatever happens to rendering, writing, the check of Nginx, its reload and the database: when the operation
  reports an accepted configuration, the host's file is what the template made of the host's row and no backup is left;
  otherwise the file is byte for byte what it was, or absent as it was. Of the configuration files only the three of the host change.
  When the operation returns after a reload, accepted or rolled back, Nginx runs exactly the files on disk, backups aside.
\<close>

theorem configure_replaces_or_restores:
  assumes "reliable_files env" and "configureHost env skip_reload model t snap s = (r, s')"
  shows "(if committed r then installed env t snap (ng_files s')
      else ng_files s' (config_file t snap) = ng_files s (config_file t snap)) \<and>
    (\<forall>p. p \<notin> host_paths t snap \<longrightarrow> ng_files s' p = ng_files s p) \<and>
    (skip_reload \<or> isl r \<or> (\<forall>p. p \<noteq> backup_file t snap \<longrightarrow> ng_live s' p = ng_files s' p))"
  using configure_effect [OF assms] by (auto simp: installed_def split: if_splits)

lemma configure_replaces_or_restores_witness:
  "\<exists>r s'. configureHost engine0 False ''dead_host'' ''dead_host'' (ref_of 2) nginx0 = (r, s') \<and> \<not> committed r \<and>
     ng_files s' (config_file ''dead_host'' (ref_of 2)) = ng_files nginx0 (config_file ''dead_host'' (ref_of 2)) \<and>
     ng_files s' (config_file ''dead_host'' (ref_of 1)) = ng_files nginx0 (config_file ''dead_host'' (ref_of 1))"
proof -
  obtain r s' where c: "configureHost engine0 False ''dead_host'' ''dead_host'' (ref_of 2) nginx0 = (r, s')" by (metis surj_pair)
  have "committed (fst (configureHost engine0 False ''dead_host'' ''dead_host'' (ref_of 2) nginx0)) = False" by code_simp
  with c have n: "\<not> committed r" by simp
  have p: "config_file ''dead_host'' (ref_of 1) \<notin> host_paths ''dead_host'' (ref_of 2)" by code_simp
  show ?thesis using configure_replaces_or_restores [OF engine0_reliable c] c n p by auto
qed

text \<open>C19. A batch of configurations is installed as a whole or not at all. For a batch of different hosts and reliable renames,
  removals and copies, whatever happens to rendering, writing, the check, the reload and the database: when every host of
  the batch reports an accepted configuration, each file is what the template made of that host's row and no backup is
  left; in every other outcome (a host that cannot be staged, a rejected check, a failed status write of any host) the
  file of every host of the batch is what it was before. No configuration file of another host changes.
\<close>

theorem batch_all_or_nothing:
  assumes "reliable_files env" and "distinct (map item_config (group_items groups))"
    and "bulkGenerateConfigGroups env groups opts s = (r, s')"
  shows "batch_outcome env (group_items groups) r (ng_files s) (ng_files s')"
proof -
  let ?items = "group_items groups"
  obtain stages failure s1 where st: "stage_all env ?items [] s = ((stages, failure), s1)"
    by (metis prod.collapse)
  from stage_all_effect [OF assms(1) st assms(2)] obtain pre post where S:
      "?items = pre @ post" "list_all2 stage_of pre stages" "failure = None \<longleftrightarrow> post = []"
      "\<forall>i \<in> set pre. item_staged env (ng_files s) (ng_files s1) i"
      "\<forall>i \<in> set post. ng_files s1 (item_config i) = ng_files s (item_config i)"
      "\<forall>p. p \<notin> all_paths ?items \<longrightarrow> ng_files s1 p = ng_files s p" by auto
  note undo = batch_undone [OF assms(1,2) S(1,2,4-6)]
  show ?thesis
  proof (cases failure)
    case (Some e)
    with assms(3) st have "bulk_rollback env opts stages e s1 = (r, s')" by (simp add: bulkGenerateConfigGroups_def)
    then show ?thesis by (rule undo) simp
  next
    case None
    with S(1,3) have pre: "pre = ?items" by simp
    obtain rc s2 where c: "bulk_commit env opts stages s1 = (rc, s2)" by (cases "bulk_commit env opts stages s1")
    show ?thesis
    proof (cases rule: bulk_commit_effect [OF assms(1) S(2) c])
      case 1: (1 metas)
      then have r: "r = Inr metas" "s' = s2" using assms(3) st None c by (simp_all add: bulkGenerateConfigGroups_def)
      show ?thesis unfolding r
        by (rule batch_installed [OF assms(1) S(2) [unfolded pre] S(4) [unfolded pre] S(6)]) (use 1 pre in simp_all)
    next
      case 2: (2 e)
      then have "bulk_rollback env opts stages e s2 = (r, s')" using assms(3) st None c by (simp add: bulkGenerateConfigGroups_def)
      then show ?thesis using 2(2) by (rule undo)
    qed
  qed
qed

lemma batch_all_or_nothing_witness:
  "\<exists>r s'. bulkGenerateConfigGroups engine0 [\<lparr>gr_model = ''dead_host'', gr_type = ''dead-host'', gr_hosts = [ref_of 1, ref_of 2]\<rparr>]
       \<lparr>throwOnError = False, bulk_reload = True\<rparr> nginx0 = (r, s') \<and> \<not> batch_committed 2 r \<and>
     ng_files s' ''/data/nginx/dead_host/1.conf'' = Some ''old1'' \<and> ng_files s' ''/data/nginx/dead_host/2.conf'' = Some ''old2''"
proof -
  let ?g = "[\<lparr>gr_model = ''dead_host'', gr_type = ''dead-host'', gr_hosts = [ref_of 1, ref_of 2]\<rparr>]"
  let ?o = "\<lparr>throwOnError = False, bulk_reload = True\<rparr>"
  obtain r s' where c: "bulkGenerateConfigGroups engine0 ?g ?o nginx0 = (r, s')" by (metis surj_pair)
  have "batch_committed 2 (fst (bulkGenerateConfigGroups engine0 ?g ?o nginx0)) = False" by code_simp
  with c have n: "\<not> batch_committed 2 r" by simp
  have items: "group_items ?g = [(''dead_host'', ''dead-host'', ref_of 1), (''dead_host'', ''dead-host'', ref_of 2)]"
    by (simp add: group_items_def)
  have conf: "item_config (''dead_host'', ''dead-host'', ref_of 1) = ''/data/nginx/dead_host/1.conf''"
    "item_config (''dead_host'', ''dead-host'', ref_of 2) = ''/data/nginx/dead_host/2.conf''" by code_simp+
  have "distinct (map item_config (group_items ?g))" by (simp add: items conf)
  from batch_all_or_nothing [OF engine0_reliable this c] n [unfolded numeral_2_eq_2]
  have "ng_files s' ''/data/nginx/dead_host/1.conf'' = ng_files nginx0 ''/data/nginx/dead_host/1.conf''"
    "ng_files s' ''/data/nginx/dead_host/2.conf'' = ng_files nginx0 ''/data/nginx/dead_host/2.conf''"
    by (simp_all add: batch_outcome_def items conf)
  with c n show ?thesis by (simp add: nginx0_def files0_def)
qed

section \<open>Retired hosts\<close>

text \<open>A host whose request filters were retired while active: disabled in the table, its metadata without the filters.\<close>

definition dark :: "string \<Rightarrow> jsval \<Rightarrow> (string \<Rightarrow> jsval list) \<Rightarrow> bool" where
  "dark model i T \<longleftrightarrow> (case find_row i (T model) of None \<Rightarrow> False
     | Some row \<Rightarrow> \<not> truthy (js_get row ''enabled'') \<and> clean_meta (js_get row ''meta''))"

lemma stored_keys: "k \<in> fst ` set (stored model cols) \<Longrightarrow> k \<in> fst ` set cols"
  by (auto simp: stored_def image_iff split: if_splits) (metis fst_conv)+

lemma find_row_patch:
  assumes "find_row i rows = Some r" and "''id'' \<notin> fst ` set cols"
  shows "find_row i (patch_row env n model i cols rows) =
    Some (JObj (props_set ''modified_on'' (JStr (clock_text env n)) (props_merge (obj_of r) (stored model cols))))"
proof -
  let ?f = "\<lambda>r. JObj (props_set ''modified_on'' (JStr (clock_text env n)) (props_merge (obj_of r) (stored model cols)))"
  have id: "js_get (?f r) ''id'' = js_get r ''id''" for r
  proof -
    have "''id'' \<notin> fst ` set (stored model cols)" using assms(2) stored_keys by blast
    then show ?thesis by (simp add: props_get_merge_other js_get_def)
  qed
  show ?thesis using assms(1) unfolding find_row_def patch_row_def
    by (induction rows) (auto simp: id simp del: js_get_simps split: if_splits)
qed

lemma dark_status_closed: "status_closed env model i (dark model i)"
  unfolding status_closed_def
proof (intro allI impI)
  fix h st s r s'
  assume h: "js_get h ''id'' = i" and st: "status_fields st" and u: "updateHostStatus env model h st s = (r, s')" and d: "dark model i (ng_tables s)"
  from d obtain row where row: "find_row i (ng_tables s model) = Some row" "\<not> truthy (js_get row ''enabled'')" "clean_meta (js_get row ''meta'')"
    by (auto simp: dark_def split: option.splits)
  show "dark model i (ng_tables s')"
  proof (cases "r")
    case (Inl e)
    with u d show ?thesis by (auto simp: updateHostStatus_def set_table_def Let_def split: option.splits sum.splits)
  next
    case (Inr meta)
    with u h row(1) obtain m where m: "sanitizeHostMeta (parse_json env) (nullish (js_get row ''meta'') (js_get h ''meta'')) = Inr m"
        "meta = JObj (props_merge (obj_of m) st)"
        "ng_tables s' = (ng_tables s)(model := patch_row env (ng_clock s) model i [(''meta'', meta)] (ng_tables s model))"
      by (auto simp: updateHostStatus_def set_table_def Let_def split: option.splits sum.splits)
    have "clean_meta meta"
      using public_clean [OF sanitizeHostMeta_public [OF m(1)]] st
      by (auto simp: m(2) clean_meta_def list_all_iff status_fields_def retiredHostMetadataFields_def props_get_merge_other js_get_def
          simp flip: set_map)
    moreover have "find_row i (patch_row env (ng_clock s) model i [(''meta'', meta)] (ng_tables s model)) =
        Some (JObj (props_set ''modified_on'' (JStr (clock_text env (ng_clock s))) (props_merge (obj_of row) (stored model [(''meta'', meta)]))))"
      by (rule find_row_patch [OF row(1)]) simp
    moreover have "stored model [(''meta'', meta)] = [(''meta'', meta)]"
      by (simp add: stored_def m(2) bool_fields_def)
    ultimately show ?thesis using row(2,3) by (simp add: m(3) dark_def props_merge_def js_get_def)
  qed
qed

lemma retire_current_dark:
  assumes "retire_current env model h s = (Inr safe, s')" and "find_row (js_get h ''id'') (ng_tables s model) = Some row"
    and "hasActiveRetiredHostBindings (parse_json env) (js_get row ''meta'') = Inr True"
  shows "\<not> truthy (js_get safe ''enabled'') \<and> dark model (js_get h ''id'') (ng_tables s')"
proof -
  from assms obtain m where s: "retireHostRuntime (parse_json env) row = Inr safe"
      "sanitizeHostMeta (parse_json env) (js_get safe ''meta'') = Inr m"
      "ng_tables s' = (ng_tables s)(model := patch_row env (ng_clock s) model (js_get h ''id'') [(''enabled'', JNum 0), (''meta'', m)] (ng_tables s model))"
    by (auto simp: retire_current_def set_table_def res_simps split: option.splits sum.splits)
  obtain kvs where m: "m = JObj kvs" using sanitizeHostMeta_obj [OF s(2)] by blast
  have "find_row (js_get h ''id'') (patch_row env (ng_clock s) model (js_get h ''id'') [(''enabled'', JNum 0), (''meta'', m)] (ng_tables s model)) =
      Some (JObj (props_set ''modified_on'' (JStr (clock_text env (ng_clock s)))
        (props_merge (obj_of row) (stored model [(''enabled'', JNum 0), (''meta'', m)]))))"
    by (rule find_row_patch [OF assms(2)]) simp
  moreover have "stored model [(''enabled'', JNum 0), (''meta'', m)] =
      [(''enabled'', if ''enabled'' \<in> set (bool_fields model) then JBool False else JNum 0), (''meta'', m)]"
    by (simp add: stored_def m bool_fields_def)
  ultimately have "dark model (js_get h ''id'') (ng_tables s')"
    using public_clean [OF sanitizeHostMeta_public [OF s(2)]] by (simp add: s(3) dark_def props_merge_def)
  with retire_dark [OF s(1) assms(3)] show ?thesis by simp
qed

text \<open>The row the engine works on: neither the row nor, unless the host was deleted, the table is enabled.\<close>

lemma current_host_dark:
  assumes "current_host env model t snap s = (Inr h, s')" and "getFileFriendlyHostType t = ''proxy_host''"
    and "find_row (js_get snap ''id'') (ng_tables s model) = Some row"
    and "hasActiveRetiredHostBindings (parse_json env) (js_get row ''meta'') = Inr True"
  shows "\<not> truthy (js_get h ''enabled'')"
    and "truthy (js_get row ''is_deleted'') \<or> dark model (js_get snap ''id'') (ng_tables s')"
proof -
  obtain c where c: "getCurrentHost env model t (js_get snap ''id'') s = Some c"
    using assms(3) by (simp add: getCurrentHost_def)
  have cols: "js_get c ''is_deleted'' = js_get row ''is_deleted''" "js_get c ''meta'' = js_get row ''meta''"
  proof -
    obtain r where "find_row (js_get snap ''id'') (ng_tables s model) = Some r"
      and k: "\<And>k. k \<notin> set (''domain_names'' # relation_names) \<Longrightarrow> js_get c k = js_get r k"
      using getCurrentHost_col [OF c] by blast
    with assms(3) have "r = row" by simp
    then show "js_get c ''is_deleted'' = js_get row ''is_deleted''" "js_get c ''meta'' = js_get row ''meta''"
      using k by (simp_all add: relation_names_def)
  qed
  have "\<not> truthy (js_get h ''enabled'') \<and> (truthy (js_get row ''is_deleted'') \<or> dark model (js_get snap ''id'') (ng_tables s'))"
  proof (cases "truthy (js_get row ''is_deleted'')")
    case True
    with assms(1) c cols show ?thesis by (auto simp: current_host_def)
  next
    case False
    with assms(1,2,4) c cols obtain safe where r: "retire_current env model c (tick s) = (Inr safe, s')"
        "h = JObj (props_set ''meta'' (js_get safe ''meta'') (props_set ''enabled'' (JBool (truthy (js_get safe ''enabled''))) (obj_of c)))"
      by (auto simp: current_host_def split: prod.splits sum.splits)
    from retire_current_dark [OF r(1)] getCurrentHost_id [OF c] assms(3,4) r(2) show ?thesis by simp
  qed
  then show "\<not> truthy (js_get h ''enabled'')" "truthy (js_get row ''is_deleted'') \<or> dark model (js_get snap ''id'') (ng_tables s')"
    by simp_all
qed

lemma render_disabled: "render_host env t h = Inr h' \<Longrightarrow> \<not> truthy (js_get h ''enabled'') \<Longrightarrow> \<not> truthy (js_get h' ''enabled'')"
  by (auto simp: render_host_def res_simps dest: retire_enabled split: if_splits)

lemma stage_host_current:
  assumes "reliable_files env" and "stage_host env model t snap s = (Inr h, s1)"
  obtains s0 where "current_host env model t snap s = (Inr h, s0)" and "ng_tables s1 = ng_tables s0"
proof (cases "current_host env model t snap s")
  case (Pair r s0)
  with assms(2) obtain h0 where h0: "r = Inr h0" by (auto simp: stage_host_def split: sum.splits)
  obtain s2 where b: "backupConfig env t h0 s0 = (Inr (), s2)"
      "with_files ((ng_files s0)(backup_file t h0 := ng_files s0 (config_file t h0))) s0 s2"
    by (rule backup_effect [OF assms(1)])
  show thesis
  proof (cases rule: generate_effect [of env t h0 s2])
    case (written cfg n h' s3)
    with Pair h0 b assms(2) show thesis by (intro that [of s0]) (auto simp: stage_host_def with_files_def)
  next
    case (failed e rest s3)
    with Pair h0 b assms(2) show thesis
      by (auto simp: stage_host_def split: prod.splits sum.splits)
  qed
qed

text \<open>C27. A proxy host whose retired request filters are still active is never served again without them. When its configuration
  is installed (files renamed, removed and copied reliably), the file is what it was before or what the template makes of a
  disabled host, whatever the row and the caller's snapshot say; and when the operation returns a status, the row in the
  table is disabled and its metadata no longer holds the filters, unless the host had been deleted already.
\<close>

theorem retired_host_stays_dark:
  assumes "reliable_files env" and "getFileFriendlyHostType t = ''proxy_host''"
    and "find_row (js_get snap ''id'') (ng_tables s model) = Some row"
    and "hasActiveRetiredHostBindings (parse_json env) (js_get row ''meta'') = Inr True"
    and "configureHost env skip_reload model t snap s = (r, s')"
  shows "(ng_files s' (config_file t snap) = ng_files s (config_file t snap) \<or>
      (\<exists>n h cfg. template env n ''proxy_host'' h = Inr cfg \<and> \<not> truthy (js_get h ''enabled'') \<and>
         ng_files s' (config_file t snap) = Some cfg)) \<and>
    (isl r \<or> truthy (js_get row ''is_deleted'') \<or> dark model (js_get snap ''id'') (ng_tables s'))"
proof -
  note C = configure_effect [OF assms(1,5)]
  have files: "ng_files s' (config_file t snap) = ng_files s (config_file t snap) \<or>
      (\<exists>n h cfg. template env n ''proxy_host'' h = Inr cfg \<and> \<not> truthy (js_get h ''enabled'') \<and>
         ng_files s' (config_file t snap) = Some cfg)"
  proof (cases "committed r")
    case True
    with C obtain h s1 cfg where st: "stage_host env model t snap s = (Inr h, s1)" "rendered env t h cfg"
        "ng_files s' (config_file t snap) = Some cfg" by auto
    obtain s0 where c: "current_host env model t snap s = (Inr h, s0)" by (rule stage_host_current [OF assms(1) st(1)])
    have "\<not> truthy (js_get h ''enabled'')" by (rule current_host_dark(1) [OF c assms(2-4)])
    then show ?thesis using st(2,3) assms(2) by (auto simp: rendered_def dest: render_disabled)
  qed (use C in simp)
  have "isl r \<or> truthy (js_get row ''is_deleted'') \<or> dark model (js_get snap ''id'') (ng_tables s')"
  proof (cases "stage_host env model t snap s")
    case (Pair rs s1)
    show ?thesis
    proof (cases rs)
      case (Inl e)
      with Pair C show ?thesis by simp
    next
      case (Inr h)
      then obtain s0 where c: "current_host env model t snap s = (Inr h, s0)" "ng_tables s1 = ng_tables s0"
        using stage_host_current [OF assms(1)] Pair by metis
      show ?thesis
        using current_host_dark(2) [OF c(1) assms(2-4)] C Pair Inr c(2) dark_status_closed [of env model "js_get snap ''id''"]
        by (metis (no_types, lifting))
    qed
  qed
  with files show ?thesis by blast
qed

lemma retired_host_stays_dark_witness:
  "\<exists>r s'. configureHost engine0 False ''proxy_host'' ''proxy_host'' (ref_of 3) nginx0 = (r, s') \<and> \<not> isl r \<and>
     dark ''proxy_host'' (JNum 3) (ng_tables s') \<and> \<not> dark ''proxy_host'' (JNum 3) (ng_tables nginx0)"
proof -
  let ?c = "configureHost engine0 False ''proxy_host'' ''proxy_host'' (ref_of 3) nginx0"
  obtain r s' where c: "?c = (r, s')" by (metis surj_pair)
  have row: "find_row (js_get (ref_of 3) ''id'') (ng_tables nginx0 ''proxy_host'') = Some (row_of 3 (JObj [(''wasm_filters'', JStr ''?'')]))"
    by (simp add: ref_of_def nginx0_def row_of_def find_row_def)
  have active: "hasActiveRetiredHostBindings (parse_json engine0)
      (js_get (row_of 3 (JObj [(''wasm_filters'', JStr ''?'')])) ''meta'') = Inr True" by code_simp
  have "isl (fst ?c) = False" by code_simp
  moreover have "getFileFriendlyHostType ''proxy_host'' = ''proxy_host''" by (simp add: getFileFriendlyHostType_def)
  moreover have "\<not> dark ''proxy_host'' (JNum 3) (ng_tables nginx0)" by code_simp
  ultimately show ?thesis
    using retired_host_stays_dark [OF engine0_reliable _ row active c] c by (auto simp: ref_of_def row_of_def)
qed

end
