(* ===== verification/Host_Service.thy ===== *)
theory Host_Service
  imports Nginx_Config Host_Domain_Claims Audit_Log
begin

text \<open>
  What the services of 404 hosts, redirections and streams have in common: the state they work on, the queries of the
  query builder they share, the reading of one host, the listing, and the two blocks that take a listener down.

  Parameters, in \<open>service_env\<close>, beside those of the configuration engine. \<open>se_access\<close> is the caller.
  \<open>se_certificate_get\<close> and \<open>se_access_list_get\<close> read a referenced resource with the caller's permission.
  \<open>se_quick_certificate\<close> requests a certificate: it may change the whole state and returns its row or fails. \<open>se_fresh_id\<close>
  is the next identifier of a table, \<open>se_defaults\<close> its column defaults, \<open>se_like\<close> and \<open>se_order\<close> the database's pattern
  match on and ordering by a column's text, \<open>se_sha\<close> the digest of the domain registry.
\<close>

record service_state =
  ss_ng :: nginx_state
  ss_claims :: claim_db
  ss_audit :: "audit_row list"
  ss_audit_id :: nat
  ss_pushes :: "string list"

record service_env =
  se_ng :: nginx_env
  se_access :: access
  se_certificate_get :: "jsval \<Rightarrow> jsval result"
  se_access_list_get :: "jsval \<Rightarrow> jsval result"
  se_quick_certificate :: "jsval \<Rightarrow> service_state \<Rightarrow> jsval result \<times> service_state"
  se_fresh_id :: "string \<Rightarrow> jsval list \<Rightarrow> int"
  se_defaults :: "string \<Rightarrow> (string \<times> jsval) list"
  se_like :: "string \<Rightarrow> jsval \<Rightarrow> bool"
  se_order :: "string \<Rightarrow> jsval list \<Rightarrow> jsval list"
  se_sha :: "string \<Rightarrow> string"
  se_now :: int

type_synonym 'a sv_op = "service_state \<Rightarrow> 'a result \<times> service_state"

text \<open>The kind of a host: the prefix of its permissions, its model, the type of its configuration files, its type in the
  domain registry and in the audit log, the relations of its model and the messages that differ.\<close>

record host_kind =
  hk_permission :: string
  hk_model :: string
  hk_type :: string
  hk_claim_type :: string
  hk_object :: string
  hk_label :: string

section \<open>Lifting\<close>

definition lift_result :: "'a result \<Rightarrow> 'a sv_op" where
  "lift_result r s = (r, s)"

definition lift_ng :: "'a ng_op \<Rightarrow> 'a sv_op" where
  "lift_ng m s = (case m (ss_ng s) of (r, n) \<Rightarrow> (r, s\<lparr>ss_ng := n\<rparr>))"

definition can :: "service_env \<Rightarrow> string \<Rightarrow> jsval \<Rightarrow> jsval sv_op" where
  "can env permission data = lift_result (acc_can (se_access env) permission data)"

definition caller :: "service_env \<Rightarrow> jsval" where
  "caller env = acc_user (se_access env) 1"

text \<open>\<open>model.transaction\<close>: the tables are rolled back when the callback throws, files are not.\<close>

definition transaction :: "'a ng_op \<Rightarrow> 'a sv_op" where
  "transaction m s =
     (case m (ss_ng s) of
        (Inl e, n) \<Rightarrow> (Inl e, s\<lparr>ss_ng := n\<lparr>ng_tables := ng_tables (ss_ng s)\<rparr>\<rparr>)
      | (Inr x, n) \<Rightarrow> (Inr x, s\<lparr>ss_ng := n\<rparr>))"

text \<open>\<open>withHostDomainClaims\<close> with a callback on the tables and the files. The callback's result comes with its \<open>id\<close>.\<close>

definition claim_options_of :: "string \<Rightarrow> jsval \<Rightarrow> jsval \<Rightarrow> claim_options" where
  "claim_options_of t i names = \<lparr>hostType = t, hostId = i, domainNames = names, retainedDomainNames = Undef\<rparr>"

definition claiming :: "service_env \<Rightarrow> claim_options \<Rightarrow> ('a \<times> int option) ng_op \<Rightarrow> 'a sv_op" where
  "claiming env opts m s =
     (case withHostDomainClaims (se_sha env) opts
             (\<lambda>h n. case m (n\<lparr>ng_tables := h\<rparr>) of (r, n') \<Rightarrow> (r, ng_tables n', n'))
             (ss_claims s) (ng_tables (ss_ng s)) (ss_ng s) of
        (r, reg, h, n) \<Rightarrow> (r, s\<lparr>ss_claims := reg, ss_ng := n\<lparr>ng_tables := h\<rparr>\<rparr>))"

definition audit :: "service_env \<Rightarrow> audit_event \<Rightarrow> unit sv_op" where
  "audit env ev s =
     (case audit_add (se_access env) (se_now env) ev (ss_audit s) (ss_audit_id s) of
        Inl e \<Rightarrow> (Inl e, s)
      | Inr (log, n) \<Rightarrow> (Inr (), s\<lparr>ss_audit := log, ss_audit_id := n\<rparr>))"

definition audit_host :: "service_env \<Rightarrow> host_kind \<Rightarrow> string \<Rightarrow> jsval \<Rightarrow> jsval \<Rightarrow> unit sv_op" where
  "audit_host env k action i meta =
     audit env \<lparr>ev_action = action, ev_object_type = hk_object k, ev_object_id = i, ev_meta = meta\<rparr>"

text \<open>\<open>internalGitOps.triggerAutoPush\<close> is only recorded.\<close>

definition triggerAutoPush :: "string \<Rightarrow> unit sv_op" where
  "triggerAutoPush t s = (Inr (), s\<lparr>ss_pushes := ss_pushes s @ [t]\<rparr>)"

section \<open>Queries\<close>

text \<open>\<open>$beforeInsert\<close>: the default of a column that is undefined.\<close>

definition with_default :: "string \<Rightarrow> jsval \<Rightarrow> (string \<times> jsval) list \<Rightarrow> (string \<times> jsval) list" where
  "with_default k d cols = (if props_get cols k = Undef then props_set k d cols else cols)"

definition before_insert :: "string \<Rightarrow> (string \<times> jsval) list \<Rightarrow> (string \<times> jsval) list" where
  "before_insert model cols =
     with_default ''meta'' (JObj []) (if model = ''stream'' then cols else with_default ''domain_names'' (JArr []) cols)"

definition inserted_row :: "service_env \<Rightarrow> string \<Rightarrow> nat \<Rightarrow> int \<Rightarrow> (string \<times> jsval) list \<Rightarrow> jsval" where
  "inserted_row env model now i cols =
     (let t = JStr (clock_text (se_ng env) now)
      in JObj (props_set ''id'' (JNum i) (props_set ''modified_on'' t (props_set ''created_on'' t
           (props_merge (stored model (se_defaults env model)) (stored model (before_insert model cols)))))))"

definition insertAndFetch :: "service_env \<Rightarrow> string \<Rightarrow> jsval \<Rightarrow> (jsval \<times> int option) ng_op" where
  "insertAndFetch env model data s =
     (let i = se_fresh_id env model (ng_tables s model);
          row = inserted_row env model (ng_clock s) i (obj_of data)
      in case db_fault (se_ng env) (ng_clock s) of
           Some e \<Rightarrow> (Inl e, tick s)
         | None \<Rightarrow> (Inr (row, Some i), set_table model (ng_tables s model @ [row]) (tick s)))"

definition patch_host :: "service_env \<Rightarrow> string \<Rightarrow> jsval \<Rightarrow> (string \<times> jsval) list \<Rightarrow> unit ng_op" where
  "patch_host env model i cols s =
     (case db_fault (se_ng env) (ng_clock s) of
        Some e \<Rightarrow> (Inl e, tick s)
      | None \<Rightarrow> (Inr (), set_table model (patch_row (se_ng env) (ng_clock s) model i cols (ng_tables s model)) (tick s)))"

definition visible_to :: "service_env \<Rightarrow> jsval \<Rightarrow> jsval \<Rightarrow> bool" where
  "visible_to env grant row \<longleftrightarrow> sees_all grant \<or> js_get row ''owner_user_id'' = caller env"

definition allowed_relations :: "string list" where
  "allowed_relations = [''owner'', ''certificate'']"

definition expand_row :: "service_env \<Rightarrow> string \<Rightarrow> string list \<Rightarrow> jsval \<Rightarrow> jsval" where
  "expand_row env model expand row =
     JObj (props_merge (obj_of row)
       (filter (\<lambda>kv. fst kv \<in> set expand \<and> fst kv \<in> set allowed_relations) (relations (se_ng env) model row)))"

definition omit_row :: "host_kind \<Rightarrow> jsval \<Rightarrow> jsval" where
  "omit_row k row =
     (let kvs = props_omit [''is_deleted''] (obj_of row)
      in JObj (if hk_model k = ''stream''
               then omit_nested ''certificate'' ''is_deleted'' (omit_nested ''owner'' ''is_deleted'' kvs) else kvs))"

definition not_found :: "jsval \<Rightarrow> err" where
  "not_found i = mk_ItemNotFoundError (if truthy i then js_string i else [])"

section \<open>Reading\<close>

definition get_host :: "service_env \<Rightarrow> host_kind \<Rightarrow> jsval \<Rightarrow> string list option \<Rightarrow> jsval sv_op" where
  "get_host env k i expand =
     op_bind (can env (hk_permission k @ '':get'') i) (\<lambda>grant s.
       if \<not> list_all (\<lambda>e. e \<in> set allowed_relations) (case expand of None \<Rightarrow> [] | Some es \<Rightarrow> es)
       then (Inl (DBError ''eager expression not allowed''), s)
       else if i = Undef then (Inl (DBError ''undefined binding''), s)
       else
         (case List.find (\<lambda>r. row_live r \<and> js_get r ''id'' = i \<and> visible_to env grant r) (ng_tables (ss_ng s) (hk_model k)) of
            None \<Rightarrow> (Inl (not_found i), s)
          | Some r \<Rightarrow>
              if \<not> truthy (js_get r ''id'') then (Inl (not_found i), s)
              else (cleanRowCertificateMeta (parse_json (se_ng env))
                      (omit_row k (case expand of None \<Rightarrow> r | Some es \<Rightarrow> expand_row env (hk_model k) es r)), s)))"

text \<open>The listing: live hosts the caller may see, matching a search text in a column.\<close>

definition list_hosts :: "service_env \<Rightarrow> host_kind \<Rightarrow> string \<Rightarrow> string list option \<Rightarrow> jsval \<Rightarrow> jsval list sv_op" where
  "list_hosts env k column expand search =
     op_bind (can env (hk_permission k @ '':list'') Undef) (\<lambda>grant s.
       if \<not> list_all (\<lambda>e. e \<in> set allowed_relations) (case expand of None \<Rightarrow> [] | Some es \<Rightarrow> es)
       then (Inl (DBError ''eager expression not allowed''), s)
       else
         (let rows = se_order env column
                (filter (\<lambda>r. row_live r \<and> visible_to env grant r \<and>
                   (is_str search \<and> str_of search \<noteq> [] \<longrightarrow> se_like env (''%'' @ str_of search @ ''%'') (js_get r column)))
                   (ng_tables (ss_ng s) (hk_model k)))
          in (cleanAllRowsCertificateMeta (parse_json (se_ng env))
                (map (\<lambda>r. omit_row k (case expand of None \<Rightarrow> r | Some es \<Rightarrow> expand_row env (hk_model k) es r)) rows), s)))"

definition count_hosts :: "host_kind \<Rightarrow> jsval \<Rightarrow> jsval \<Rightarrow> service_state \<Rightarrow> nat" where
  "count_hosts k user_id visibility s =
     length (filter (\<lambda>r. row_live r \<and> (visibility = JStr ''all'' \<or> js_get r ''owner_user_id'' = user_id))
       (ng_tables (ss_ng s) (hk_model k)))"

section \<open>Taking a listener down\<close>

text \<open>The block under the configuration lock: back up, change the database and the files and reload in one transaction,
  and give the listener back when any of it fails.\<close>

definition take_down :: "service_env \<Rightarrow> host_kind \<Rightarrow> jsval \<Rightarrow> unit sv_op \<Rightarrow> unit sv_op" where
  "take_down env k row change s =
     (let hadConfig = (ng_files (ss_ng s) (getConfigName (hk_type k) (js_get row ''id'')) \<noteq> None)
      in op_seq (lift_ng (backupConfig (se_ng env) (hk_type k) row))
        (op_seq
          (op_catch change
            (\<lambda>e. op_seq (if hadConfig then lift_ng (restoreConfig (se_ng env) (hk_type k) row) else op_ret ())
                 (op_seq (lift_ng (reloadCommands (se_ng env))) (op_throw e))))
          (lift_ng (deleteBackupConfig (se_ng env) (hk_type k) row))) s)"

text \<open>The change itself: one column of the row, the files, the reload.\<close>

definition remove_listener :: "service_env \<Rightarrow> host_kind \<Rightarrow> jsval \<Rightarrow> (string \<times> jsval) list \<Rightarrow> unit ng_op" where
  "remove_listener env k row cols =
     op_seq (patch_host env (hk_model k) (js_get row ''id'') cols)
       (op_seq (deleteConfig (se_ng env) (hk_type k) row) (reloadCommands (se_ng env)))"

definition delete_claimed :: "service_env \<Rightarrow> host_kind \<Rightarrow> jsval \<Rightarrow> unit sv_op" where
  "delete_claimed env k row =
     take_down env k row
       (claiming env (claim_options_of (hk_claim_type k) (js_get row ''id'') (JArr []))
         (op_bind (remove_listener env k row [(''is_deleted'', JNum 1)]) (\<lambda>_. op_ret ((), None))))"

definition delete_unclaimed :: "service_env \<Rightarrow> host_kind \<Rightarrow> jsval \<Rightarrow> unit sv_op" where
  "delete_unclaimed env k row = take_down env k row (transaction (remove_listener env k row [(''is_deleted'', JNum 1)]))"

text \<open>\<open>delete\<close> and \<open>disable\<close>; the first argument of \<open>delete_host\<close> is one of the two blocks above.\<close>

definition delete_host ::
  "(service_env \<Rightarrow> host_kind \<Rightarrow> jsval \<Rightarrow> unit sv_op) \<Rightarrow> service_env \<Rightarrow> host_kind \<Rightarrow> jsval \<Rightarrow> bool sv_op" where
  "delete_host block env k data =
     op_seq (can env (hk_permission k @ '':delete'') (js_get data ''id''))
     (op_bind (get_host env k (js_get data ''id'') None) (\<lambda>row.
       op_seq (block env k row)
       (op_seq (audit_host env k ''deleted'' (js_get row ''id'') (omit_row k row))
       (op_seq (triggerAutoPush (hk_object k)) (op_ret True)))))"

definition set_col :: "string \<Rightarrow> jsval \<Rightarrow> jsval \<Rightarrow> jsval" where
  "set_col k v row = JObj (props_set k v (obj_of row))"

definition disable_host :: "service_env \<Rightarrow> host_kind \<Rightarrow> jsval \<Rightarrow> bool sv_op" where
  "disable_host env k data =
     op_seq (can env (hk_permission k @ '':update'') (js_get data ''id''))
     (op_bind (get_host env k (js_get data ''id'') None) (\<lambda>row0.
       if \<not> truthy (js_get row0 ''enabled'') then op_throw (ValidationError (hk_label k @ '' is already disabled''))
       else
         (let row = set_col ''enabled'' (JNum 0) row0
          in op_seq (take_down env k row (transaction (remove_listener env k row [(''enabled'', JNum 0)])))
            (op_seq (audit_host env k ''disabled'' (js_get row ''id'') (omit_row k row)) (op_ret True)))))"

text \<open>\<open>enable\<close>: the column first, then the configuration. Redirections and streams put the status into the audited row.\<close>

definition enable_host :: "bool \<Rightarrow> service_env \<Rightarrow> host_kind \<Rightarrow> jsval \<Rightarrow> bool sv_op" where
  "enable_host keep_status env k data =
     op_seq (can env (hk_permission k @ '':update'') (js_get data ''id''))
     (op_bind (get_host env k (js_get data ''id'') (Some [''certificate'', ''owner''])) (\<lambda>row0.
       if truthy (js_get row0 ''enabled'') then op_throw (ValidationError (hk_label k @ '' is already enabled''))
       else
         (let row = set_col ''enabled'' (JNum 1) row0
          in op_seq (lift_ng (patch_host env (hk_model k) (js_get row ''id'') [(''enabled'', JNum 1)]))
            (op_bind (lift_ng (configureHost (se_ng env) False (hk_model k) (hk_type k) row)) (\<lambda>meta.
              op_seq (audit_host env k ''enabled'' (js_get row ''id'')
                (omit_row k (if keep_status then set_col ''meta'' meta row else row))) (op_ret True))))))"

end
