(* ===== verification/Host_Service_Props.thy ===== *)
theory Host_Service_Props
  imports Nginx_Claims Host_Service
begin

text \<open>
  What taking a listener down guarantees, for the two ways the services change the database, and what a caller sees of
  the hosts of others.
\<close>

section \<open>The files a change removes\<close>

definition sv_files :: "service_state \<Rightarrow> files" where
  "sv_files s = ng_files (ss_ng s)"

definition sv_rows :: "service_state \<Rightarrow> string \<Rightarrow> jsval list" where
  "sv_rows s = ng_tables (ss_ng s)"

text \<open>Nothing but files, the clock and the running configuration differs.\<close>

definition same_records :: "service_state \<Rightarrow> service_state \<Rightarrow> bool" where
  "same_records s s' \<longleftrightarrow> sv_rows s' = sv_rows s \<and> ss_claims s' = ss_claims s \<and> ss_audit s' = ss_audit s \<and>
     ss_audit_id s' = ss_audit_id s \<and> ss_pushes s' = ss_pushes s"

lemma same_records_refl [simp]: "same_records s s"
  by (simp add: same_records_def)

lemma same_records_trans: "same_records s t \<Longrightarrow> same_records t u \<Longrightarrow> same_records s u"
  by (simp add: same_records_def)

definition removed :: "string \<Rightarrow> string \<Rightarrow> files \<Rightarrow> files" where
  "removed conf err fs = fs(conf := None, err := None)"

text \<open>A change of the database together with the removal of a listener: done as a whole, or no record is changed and
  of the files only the configuration and its rejected version may be gone.\<close>

locale listener_change =
  fixes env :: nginx_env
    and change :: "unit sv_op"
    and conf err :: string
    and effect :: "service_state \<Rightarrow> service_state \<Rightarrow> bool"
  assumes change_done: "reliable_files env \<Longrightarrow> change s = (Inr u, s') \<Longrightarrow>
      effect s s' \<and> sv_files s' = removed conf err (sv_files s)"
    and change_failed: "reliable_files env \<Longrightarrow> change s = (Inl e, s') \<Longrightarrow> same_records s s' \<and>
      (sv_files s' conf = sv_files s conf \<or> sv_files s' conf = None) \<and> (\<forall>p. p \<noteq> conf \<longrightarrow> p \<noteq> err \<longrightarrow> sv_files s' p = sv_files s p)"

begin

text \<open>Taking the listener down with such a change: the block of \<open>take_down\<close>, with the configuration of one host.\<close>

lemma take_down_outcome:
  assumes "reliable_files env" and "se_ng senv = env" and "conf = config_file (hk_type k) row" and "err = error_file (hk_type k) row"
    and "take_down senv k row change s = (r, s')"
  shows "(case r of
      Inl e \<Rightarrow> same_records s s' \<and> sv_files s' conf = sv_files s conf
    | Inr _ \<Rightarrow> (\<exists>s0 s1. same_records s s0 \<and> effect s0 s1 \<and> same_records s1 s') \<and>
        sv_files s' conf = None \<and> sv_files s' (backup_file (hk_type k) row) = None) \<and>
    (\<forall>p. p \<notin> host_paths (hk_type k) row \<longrightarrow> sv_files s' p = sv_files s p)"
proof -
  let ?t = "hk_type k" let ?bak = "backup_file (hk_type k) row"
  have had: "getConfigName ?t (js_get row ''id'') = conf" using assms(3) config_name by simp
  have ne: "?bak \<noteq> conf" "?bak \<noteq> err" "conf \<noteq> err" by (simp_all add: assms(3,4))
  have P: "host_paths ?t row = {conf, ?bak, err}" by (simp add: host_paths_def assms(3,4))
  obtain n0 where b: "backupConfig env ?t row (ss_ng s) = (Inr (), n0)"
      "with_files ((ng_files (ss_ng s))(?bak := ng_files (ss_ng s) conf)) (ss_ng s) n0"
    unfolding assms(3) by (rule backup_effect [OF assms(1)])
  define s0 where "s0 = s\<lparr>ss_ng := n0\<rparr>"
  have s0: "same_records s s0" "sv_files s0 = (sv_files s)(?bak := sv_files s conf)"
    using b(2) by (simp_all add: s0_def same_records_def sv_rows_def sv_files_def with_files_def)
  obtain rc s1 where c: "change s0 = (rc, s1)" by (cases "change s0")
  show ?thesis
  proof (cases rc)
    case (Inr u)
    note D = change_done [OF assms(1) c [unfolded Inr]]
    obtain n2 where d: "deleteBackupConfig env ?t row (ss_ng s1) = (Inr (), n2)" "with_files ((ng_files (ss_ng s1))(?bak := None)) (ss_ng s1) n2"
      unfolding deleteBackupConfig_def by (rule delete_file_effect [OF assms(1)])
    have "r = Inr ()" "s' = s1\<lparr>ss_ng := n2\<rparr>"
      using assms(5) b(1) c Inr d(1) by (auto simp: take_down_def Let_def lift_ng_def assms(2) s0_def [symmetric])
    moreover have "same_records s1 (s1\<lparr>ss_ng := n2\<rparr>)" "sv_files (s1\<lparr>ss_ng := n2\<rparr>) = (sv_files s1)(?bak := None)"
      using d(2) by (simp_all add: same_records_def sv_rows_def sv_files_def with_files_def)
    ultimately show ?thesis using D s0 ne by (auto simp: removed_def P)
  next
    case (Inl e)
    note F = change_failed [OF assms(1) c [unfolded Inl]]
    let ?res = "op_seq (if ng_files (ss_ng s) conf \<noteq> None then lift_ng (restoreConfig env ?t row) else op_ret ())
        (op_seq (lift_ng (reloadCommands env)) (op_throw e)) :: unit sv_op"
    have run: "?res s1 = (r, s')"
      using assms(5) b(1) c Inl by (auto simp: take_down_def Let_def lift_ng_def assms(2) had s0_def [symmetric] split: prod.splits sum.splits)
    obtain n2 where n2: "(if ng_files (ss_ng s) conf \<noteq> None then restoreConfig env ?t row else op_ret ()) (ss_ng s1) = (Inr (), n2)"
        "with_files (if ng_files (ss_ng s) conf \<noteq> None then (sv_files s1)(?bak := None, conf := sv_files s conf) else sv_files s1) (ss_ng s1) n2"
    proof (cases "ng_files (ss_ng s) conf")
      case None
      then show thesis by (intro that [of "ss_ng s1"]) (auto simp: with_files_def sv_files_def)
    next
      case (Some txt0)
      obtain n2 where "restoreConfig env ?t row (ss_ng s1) = (Inr (), n2)"
          "with_files (case ng_files (ss_ng s1) ?bak of None \<Rightarrow> ng_files (ss_ng s1)
            | Some c \<Rightarrow> (ng_files (ss_ng s1))(?bak := None, config_file ?t row \<mapsto> c)) (ss_ng s1) n2"
        by (rule restore_effect [OF assms(1)])
      with F s0(2) ne Some show thesis
        by (intro that [of n2]) (auto simp: sv_files_def assms(3))
    qed
    obtain rr n3 where n3: "reloadCommands env n2 = (rr, n3)" "with_files (ng_files n2) (n2\<lparr>ng_live := ng_live n3\<rparr>) n3"
      by (cases rule: reload_effect [of env n2]) (auto simp: with_files_def)
    have fin: "isl r" "s' = s1\<lparr>ss_ng := n3\<rparr>"
      using run n2(1) n3(1) by (cases rr; auto simp: lift_ng_def split: if_splits)+
    have "same_records s1 s'" "sv_files s' = ng_files n2"
      using n2(2) n3(2) by (simp_all add: fin(2) same_records_def sv_rows_def sv_files_def with_files_def)
    then show ?thesis using fin(1) F s0 n2(2) ne
      by (cases r) (auto simp: same_records_def sv_files_def with_files_def P split: if_splits)
  qed
qed

end

section \<open>Changes of the database\<close>

definition patched :: "service_env \<Rightarrow> string \<Rightarrow> jsval \<Rightarrow> (string \<times> jsval) list \<Rightarrow> service_state \<Rightarrow> service_state \<Rightarrow> bool" where
  "patched env model i cols s s' \<longleftrightarrow> (\<exists>now. sv_rows s' = (sv_rows s)(model := patch_row (se_ng env) now model i cols (sv_rows s model))) \<and>
     ss_audit s' = ss_audit s \<and> ss_audit_id s' = ss_audit_id s \<and> ss_pushes s' = ss_pushes s"

lemma remove_listener_effect:
  assumes "reliable_files (se_ng env)" and "remove_listener env k row cols n = (r, n')"
  shows "(\<forall>u. r = Inr u \<longrightarrow> ng_tables n' = (ng_tables n)(hk_model k := patch_row (se_ng env) (ng_clock n) (hk_model k) (js_get row ''id'') cols (ng_tables n (hk_model k))) \<and>
      ng_files n' = removed (config_file (hk_type k) row) (error_file (hk_type k) row) (ng_files n)) \<and>
    (ng_files n' = ng_files n \<or> ng_files n' = removed (config_file (hk_type k) row) (error_file (hk_type k) row) (ng_files n))"
proof (cases "db_fault (se_ng env) (ng_clock n)")
  case (Some e)
  with assms(2) show ?thesis by (auto simp: remove_listener_def patch_host_def)
next
  case None
  let ?n1 = "set_table (hk_model k) (patch_row (se_ng env) (ng_clock n) (hk_model k) (js_get row ''id'') cols (ng_tables n (hk_model k))) (tick n)"
  obtain n2 where d: "deleteConfig (se_ng env) (hk_type k) row ?n1 = (Inr (), n2)"
      "with_files ((ng_files ?n1)(config_file (hk_type k) row := None, error_file (hk_type k) row := None)) ?n1 n2"
    by (rule delete_config_effect [OF assms(1)])
  show ?thesis
  proof (cases rule: reload_effect [of "se_ng env" n2])
    case (loaded n3)
    with None d assms(2) show ?thesis by (auto simp: remove_listener_def patch_host_def with_files_def set_table_def removed_def)
  next
    case (rejected e n3)
    with None d assms(2) show ?thesis by (auto simp: remove_listener_def patch_host_def with_files_def set_table_def removed_def)
  qed
qed

text \<open>The two ways: a plain transaction, and a transaction that releases the names of the host.\<close>

interpretation unclaimed: listener_change "se_ng env" "transaction (remove_listener env k row cols)"
  "config_file (hk_type k) row" "error_file (hk_type k) row"
  "\<lambda>s s'. patched env (hk_model k) (js_get row ''id'') cols s s' \<and> ss_claims s' = ss_claims s" for env k row cols
proof unfold_locales
  fix s u s'
  assume f: "reliable_files (se_ng env)" and t: "transaction (remove_listener env k row cols) s = (Inr u, s')"
  then obtain n' where n: "remove_listener env k row cols (ss_ng s) = (Inr u, n')" "s' = s\<lparr>ss_ng := n'\<rparr>"
    by (auto simp: transaction_def split: prod.splits sum.splits)
  from remove_listener_effect [OF f n(1)] n(2)
  show "(patched env (hk_model k) (js_get row ''id'') cols s s' \<and> ss_claims s' = ss_claims s) \<and>
      sv_files s' = removed (config_file (hk_type k) row) (error_file (hk_type k) row) (sv_files s)"
    by (auto simp: patched_def sv_rows_def sv_files_def)
next
  fix s e s'
  assume f: "reliable_files (se_ng env)" and t: "transaction (remove_listener env k row cols) s = (Inl e, s')"
  then obtain n' where n: "remove_listener env k row cols (ss_ng s) = (Inl e, n')" "s' = s\<lparr>ss_ng := n'\<lparr>ng_tables := ng_tables (ss_ng s)\<rparr>\<rparr>"
    by (auto simp: transaction_def split: prod.splits sum.splits)
  from remove_listener_effect [OF f n(1)] n(2)
  show "same_records s s' \<and> (sv_files s' (config_file (hk_type k) row) = sv_files s (config_file (hk_type k) row) \<or>
      sv_files s' (config_file (hk_type k) row) = None) \<and>
      (\<forall>p. p \<noteq> config_file (hk_type k) row \<longrightarrow> p \<noteq> error_file (hk_type k) row \<longrightarrow> sv_files s' p = sv_files s p)"
    by (auto simp: same_records_def sv_rows_def sv_files_def removed_def)
qed

lemma withHostDomainClaims_Inl:
  assumes "withHostDomainClaims sha opts wr reg h x = (Inl e, reg', h', x')"
  shows "reg' = reg \<and> h' = h \<and> (x' = x \<or> (\<exists>r h1. wr h x = (r, h1, x')))"
  using assms
  by (auto simp: withHostDomainClaims_def claims_transaction_def Let_def
      split: if_splits sum.splits prod.splits option.splits)

text \<open>The names of a host are given back; every other host keeps its own.\<close>

definition released :: "string \<Rightarrow> jsval \<Rightarrow> claim_db \<Rightarrow> claim_db \<Rightarrow> bool" where
  "released t i reg reg' \<longleftrightarrow> (\<exists>n. i = JNum n \<and> holds reg' = (holds reg)((t, n) := (\<lambda>_. False)))"

definition removal :: "service_env \<Rightarrow> host_kind \<Rightarrow> jsval \<Rightarrow> (unit \<times> int option) ng_op" where
  "removal env k row = op_bind (remove_listener env k row [(''is_deleted'', JNum 1)]) (\<lambda>_. op_ret ((), None))"

lemma removal_run: "removal env k row n = (case remove_listener env k row [(''is_deleted'', JNum 1)] n of
    (Inl e, n') \<Rightarrow> (Inl e, n') | (Inr u, n') \<Rightarrow> (Inr ((), None), n'))"
  by (simp add: removal_def split: prod.split sum.split)

interpretation claimed: listener_change "se_ng env"
  "claiming env (claim_options_of (hk_claim_type k) (js_get row ''id'') (JArr [])) (removal env k row)"
  "config_file (hk_type k) row" "error_file (hk_type k) row"
  "\<lambda>s s'. patched env (hk_model k) (js_get row ''id'') [(''is_deleted'', JNum 1)] s s' \<and>
     (claims_ok (se_sha env) (ss_claims s) \<longrightarrow> released (hk_claim_type k) (js_get row ''id'') (ss_claims s) (ss_claims s'))" for env k row
proof unfold_locales
  let ?o = "claim_options_of (hk_claim_type k) (js_get row ''id'') (JArr [])"
  let ?w = "\<lambda>h n. case removal env k row (n\<lparr>ng_tables := h\<rparr>) of (r, n') \<Rightarrow> (r, ng_tables n', n')"
  {
    fix s u s'
    assume f: "reliable_files (se_ng env)" and t: "claiming env ?o (removal env k row) s = (Inr u, s')"
    then obtain reg h n where w: "withHostDomainClaims (se_sha env) ?o ?w (ss_claims s) (ng_tables (ss_ng s)) (ss_ng s) = (Inr u, reg, h, n)"
        "s' = s\<lparr>ss_claims := reg, ss_ng := n\<lparr>ng_tables := h\<rparr>\<rparr>"
      by (auto simp: claiming_def split: prod.splits)
    obtain names oid rid where c: "?w (ng_tables (ss_ng s)) (ss_ng s) = (Inr (u, rid), h, n)"
      by (rule withHostDomainClaims_Inr [OF w(1)], erule claims_transaction_Inr) auto
    then obtain n' where n: "remove_listener env k row [(''is_deleted'', JNum 1)] (ss_ng s) = (Inr (), n)" "h = ng_tables n"
      by (auto simp: removal_run split: prod.splits sum.splits)
    have rel: "released (hk_claim_type k) (js_get row ''id'') (ss_claims s) reg" if ok: "claims_ok (se_sha env) (ss_claims s)"
    proof (rule withHostDomainClaims_claimed [OF ok w(1)])
      fix oid rid'
      assume r: "registry_claimed (se_sha env) (hostId ?o) (hostType ?o, oid) (requested ?o) (ss_claims s) reg"
        and c2: "?w (ng_tables (ss_ng s)) (ss_ng s) = (Inr (u, rid'), h, n)"
        and i: "if hostId ?o = Undef then rid' = Some oid else hostId ?o = JNum oid"
      have "rid' = None" using c2 by (auto simp: removal_run split: prod.splits sum.splits)
      with i have "js_get row ''id'' = JNum oid" by (auto simp: claim_options_of_def split: if_splits)
      moreover have "requested ?o = {}" by (simp add: requested_def claim_options_of_def)
      ultimately show ?thesis using claims.claim_frame [OF r] by (auto simp: released_def claim_options_of_def)
    qed
    from remove_listener_effect [OF f n(1)] rel w(2) n(2)
    show "(patched env (hk_model k) (js_get row ''id'') [(''is_deleted'', JNum 1)] s s' \<and>
        (claims_ok (se_sha env) (ss_claims s) \<longrightarrow> released (hk_claim_type k) (js_get row ''id'') (ss_claims s) (ss_claims s'))) \<and>
        sv_files s' = removed (config_file (hk_type k) row) (error_file (hk_type k) row) (sv_files s)"
      by (auto simp: patched_def sv_rows_def sv_files_def)
  next
    fix s e s'
    assume f: "reliable_files (se_ng env)" and t: "claiming env ?o (removal env k row) s = (Inl e, s')"
    then obtain reg h n where w: "withHostDomainClaims (se_sha env) ?o ?w (ss_claims s) (ng_tables (ss_ng s)) (ss_ng s) = (Inl e, reg, h, n)"
        "s' = s\<lparr>ss_claims := reg, ss_ng := n\<lparr>ng_tables := h\<rparr>\<rparr>"
      by (auto simp: claiming_def split: prod.splits)
    note F = withHostDomainClaims_Inl [OF w(1)]
    have "ng_files n = ng_files (ss_ng s) \<or>
        ng_files n = removed (config_file (hk_type k) row) (error_file (hk_type k) row) (ng_files (ss_ng s))"
    proof (cases "n = ss_ng s")
      case False
      with F obtain r where "remove_listener env k row [(''is_deleted'', JNum 1)] (ss_ng s) = (r, n)"
        by (auto simp: removal_run split: prod.splits sum.splits)
      from remove_listener_effect [OF f this] show ?thesis by blast
    qed simp
    with F w(2)
    show "same_records s s' \<and> (sv_files s' (config_file (hk_type k) row) = sv_files s (config_file (hk_type k) row) \<or>
        sv_files s' (config_file (hk_type k) row) = None) \<and>
        (\<forall>p. p \<noteq> config_file (hk_type k) row \<longrightarrow> p \<noteq> error_file (hk_type k) row \<longrightarrow> sv_files s' p = sv_files s p)"
      by (auto simp: same_records_def sv_rows_def sv_files_def removed_def)
  }
qed

end
