(* ===== verification/Dead_Hosts.thy ===== *)
theory Dead_Hosts
  imports Host_Service
begin

text \<open>
  The 404 hosts, \<open>backend/internal/dead-host.js\<close> over \<open>backend/models/dead_host.js\<close>.
\<close>

definition dead_kind :: host_kind where
  "dead_kind = \<lparr>hk_permission = ''dead_hosts'', hk_model = ''dead_host'', hk_type = ''dead_host'', hk_claim_type = ''dead'',
     hk_object = ''dead-host'', hk_label = ''Host''\<rparr>"

definition omit_col :: "string \<Rightarrow> jsval \<Rightarrow> jsval" where
  "omit_col k row = JObj (props_omit [k] (obj_of row))"

definition merge_obj :: "jsval \<Rightarrow> jsval \<Rightarrow> jsval" where
  "merge_obj a b = JObj (props_merge (props_merge [] (obj_of a)) (obj_of b))"

definition references_ok :: "service_env \<Rightarrow> jsval \<Rightarrow> jsval \<Rightarrow> unit sv_op" where
  "references_ok env data existing =
     lift_result (validateReferences (se_certificate_get env) (se_access_list_get env) data existing)"

text \<open>The request for a new certificate of an existing host.\<close>

definition certificate_request :: "jsval \<Rightarrow> jsval \<Rightarrow> jsval" where
  "certificate_request data row =
     JObj [(''domain_names'', if truthy (js_get data ''domain_names'') then js_get data ''domain_names'' else js_get row ''domain_names''),
           (''meta'', merge_obj (js_get row ''meta'') (js_get data ''meta''))]"

text \<open>The write of an update: the permission and the row are read again inside the transaction.\<close>

definition update_claimed :: "service_env \<Rightarrow> host_kind \<Rightarrow> jsval \<Rightarrow> unit sv_op" where
  "update_claimed env k thisData =
     (let i = js_get thisData ''id''
      in claiming env (claim_options_of (hk_claim_type k) i (js_get thisData ''domain_names''))
           (\<lambda>s. case acc_can (se_access env) (hk_permission k @ '':get'') i of
                Inl e \<Rightarrow> (Inl e, s)
              | Inr grant \<Rightarrow>
                  (case find_row i (ng_tables s (hk_model k)) of
                     None \<Rightarrow> (Inl (not_found i), s)
                   | Some current \<Rightarrow>
                       if \<not> row_live current \<or> \<not> visible_to env grant current then (Inl (not_found i), s)
                       else op_seq (patch_host env (hk_model k) i (obj_of thisData)) (op_ret ((), None)) s)))"

definition sanitized :: "service_env \<Rightarrow> jsval \<Rightarrow> jsval result" where
  "sanitized env data =
     rbind (sanitizeHostMeta (parse_json (se_ng env)) (js_get data ''meta'')) (\<lambda>m. Inr (set_col ''meta'' m data))"

text \<open>From the stored row on: audit, re-read, configuration, response.\<close>

definition finish_update :: "service_env \<Rightarrow> host_kind \<Rightarrow> bool \<Rightarrow> jsval \<Rightarrow> jsval \<Rightarrow> jsval sv_op" where
  "finish_update env k skip_configure thisData i =
     op_bind (lift_result (sanitized env thisData)) (\<lambda>meta.
     op_seq (audit_host env k ''updated'' i meta)
     (op_bind (get_host env k (js_get thisData ''id'') (Some [''owner'', ''certificate''])) (\<lambda>row.
       op_bind (if skip_configure then op_ret row
                else op_bind (lift_ng (configureHost (se_ng env) False (hk_model k) (hk_type k) row)) (\<lambda>m. op_ret (set_col ''meta'' m row))) (\<lambda>row'.
         op_seq (triggerAutoPush (hk_object k))
           (op_bind (lift_result (cleanRowCertificateMeta (parse_json (se_ng env)) row')) (\<lambda>clean. op_ret (omit_row k clean)))))))"

definition id_mismatch :: "string \<Rightarrow> jsval \<Rightarrow> jsval \<Rightarrow> err" where
  "id_mismatch label row data = InternalValidationError
     (label @ '' could not be updated, IDs do not match: '' @ js_string (js_get row ''id'') @ '' !== '' @ js_string (js_get data ''id''))"

definition dead_update :: "service_env \<Rightarrow> bool \<Rightarrow> jsval \<Rightarrow> jsval sv_op" where
  "dead_update env skip_configure request =
     (let createCertificate = (js_get request ''certificate_id'' = JStr ''new'');
          data = (if createCertificate then omit_col ''certificate_id'' request else request);
          i = js_get data ''id''
      in op_seq (can env ''dead_hosts:update'' i)
         (op_seq (if js_get data ''domain_names'' \<noteq> Undef then lift_result (validateDomainNames (js_get data ''domain_names'')) else op_ret Undef)
         (op_bind (get_host env dead_kind i None) (\<lambda>row.
          op_seq (references_ok env data row)
         (if js_get row ''id'' \<noteq> i then op_throw (id_mismatch ''404 Host'' row data)
          else
            op_bind (if createCertificate
                     then op_bind (se_quick_certificate env (certificate_request data row)) (\<lambda>cert.
                            op_ret (set_col ''certificate_id'' (js_get cert ''id'') data))
                     else op_ret data) (\<lambda>data1.
              let thisData = cleanSslHstsData createCertificate
                    (merge_obj (JObj [(''domain_names'', js_get row ''domain_names'')]) data1) row
              in op_bind (lift_result (sanitized env thisData)) (\<lambda>clean.
                 op_seq (update_claimed env dead_kind clean)
                   (finish_update env dead_kind skip_configure clean (js_get row ''id'')))))))))"

definition dead_create :: "service_env \<Rightarrow> jsval \<Rightarrow> jsval sv_op" where
  "dead_create env request =
     (let createCertificate = (js_get request ''certificate_id'' = JStr ''new'');
          data0 = (if createCertificate then omit_col ''certificate_id'' request else request)
      in op_seq (can env ''dead_hosts:create'' data0)
         (op_seq (references_ok env data0 (JObj []))
         (op_seq (lift_result (validateDomainNames (js_get data0 ''domain_names'')))
         (let data = set_col ''owner_user_id'' (caller env) data0;
              cleaned = cleanSslHstsData createCertificate data Undef;
              thisData = (if js_get data ''advanced_config'' = Undef then set_col ''advanced_config'' (JStr []) cleaned else cleaned)
          in op_bind (lift_result (sanitized env thisData)) (\<lambda>persisted.
             op_bind (claiming env (claim_options_of ''dead'' Undef (js_get thisData ''domain_names''))
               (op_bind (insertAndFetch env ''dead_host'' persisted) (\<lambda>(row, i). op_ret (row, i)))) (\<lambda>row0.
             let i = js_get row0 ''id''
             in op_seq (audit_host env dead_kind ''created'' i persisted)
                (op_seq (if createCertificate
                         then op_bind (se_quick_certificate env data) (\<lambda>cert.
                                op_seq (dead_update env True (JObj [(''id'', i), (''certificate_id'', js_get cert ''id'')])) (op_ret ()))
                         else op_ret ())
                (op_bind (get_host env dead_kind i (Some [''certificate'', ''owner''])) (\<lambda>freshRow.
                   if createCertificate \<and> \<not> truthy (js_get freshRow ''certificate_id'')
                   then op_throw (InternalValidationError ''The host was created but the Certificate creation failed.'')
                   else op_bind (lift_ng (configureHost (se_ng env) False ''dead_host'' ''dead_host'' freshRow)) (\<lambda>meta.
                     op_seq (triggerAutoPush ''dead-host'') (op_ret (set_col ''meta'' meta freshRow))))))))))))"

definition dead_get :: "service_env \<Rightarrow> jsval \<Rightarrow> string list option \<Rightarrow> string list option \<Rightarrow> jsval sv_op" where
  "dead_get env i expand omitted =
     op_bind (get_host env dead_kind i expand) (\<lambda>row.
       op_ret (case omitted of None \<Rightarrow> row | Some ks \<Rightarrow> JObj (props_omit ks (obj_of row))))"

definition dead_delete :: "service_env \<Rightarrow> jsval \<Rightarrow> bool sv_op" where
  "dead_delete env data = delete_host delete_claimed env dead_kind data"

definition dead_enable :: "service_env \<Rightarrow> jsval \<Rightarrow> bool sv_op" where
  "dead_enable env data = enable_host False env dead_kind data"

definition dead_disable :: "service_env \<Rightarrow> jsval \<Rightarrow> bool sv_op" where
  "dead_disable env data = disable_host env dead_kind data"

definition dead_getAll :: "service_env \<Rightarrow> string list option \<Rightarrow> jsval \<Rightarrow> jsval list sv_op" where
  "dead_getAll env expand search = list_hosts env dead_kind ''domain_names'' expand search"

definition dead_getCount :: "jsval \<Rightarrow> jsval \<Rightarrow> service_state \<Rightarrow> nat" where
  "dead_getCount user_id visibility s = count_hosts dead_kind user_id visibility s"

end
