(* ===== verification/Redirection_Hosts.thy ===== *)
theory Redirection_Hosts
  imports Dead_Hosts
begin

text \<open>
  The redirections, \<open>backend/internal/redirection-host.js\<close> over \<open>backend/models/redirection_host.js\<close>. The audit entry of a
  new redirection is written after its configuration and holds the resulting status.
\<close>

definition redirection_kind :: host_kind where
  "redirection_kind = \<lparr>hk_permission = ''redirection_hosts'', hk_model = ''redirection_host'', hk_type = ''redirection_host'',
     hk_claim_type = ''redirection'', hk_object = ''redirection-host'', hk_label = ''Host''\<rparr>"

definition redirection_update :: "service_env \<Rightarrow> bool \<Rightarrow> jsval \<Rightarrow> jsval sv_op" where
  "redirection_update env skip_configure request =
     (let createCertificate = (js_get request ''certificate_id'' = JStr ''new'');
          data = (if createCertificate then omit_col ''certificate_id'' request else request);
          i = js_get data ''id''
      in op_seq (can env ''redirection_hosts:update'' i)
         (op_bind (get_host env redirection_kind i None) (\<lambda>row.
          op_seq (references_ok env data row)
         (if js_get row ''id'' \<noteq> i then op_throw (id_mismatch ''Redirection Host'' row data)
          else op_seq (if js_get data ''domain_names'' \<noteq> Undef then lift_result (validateDomainNames (js_get data ''domain_names'')) else op_ret Undef)
           (op_bind (if createCertificate
                     then op_bind (se_quick_certificate env (certificate_request data row)) (\<lambda>cert.
                            op_ret (set_col ''certificate_id'' (js_get cert ''id'') data))
                     else op_ret data) (\<lambda>data1.
              let thisData = cleanSslHstsData createCertificate
                    (merge_obj (JObj [(''domain_names'', js_get row ''domain_names'')]) data1) row
              in op_bind (lift_result (sanitized env thisData)) (\<lambda>clean.
                 op_seq (update_claimed env redirection_kind clean)
                   (finish_update env redirection_kind skip_configure clean (js_get row ''id'')))))))))"

definition redirection_create :: "service_env \<Rightarrow> jsval \<Rightarrow> jsval sv_op" where
  "redirection_create env request =
     (let createCertificate = (js_get request ''certificate_id'' = JStr ''new'');
          data0 = (if createCertificate then omit_col ''certificate_id'' request else request)
      in op_seq (can env ''redirection_hosts:create'' data0)
         (op_seq (references_ok env data0 (JObj []))
         (op_seq (lift_result (validateDomainNames (js_get data0 ''domain_names'')))
         (let data = set_col ''owner_user_id'' (caller env) data0;
              cleaned = cleanSslHstsData createCertificate data Undef;
              thisData = (if js_get data ''advanced_config'' = Undef then set_col ''advanced_config'' (JStr []) cleaned else cleaned)
          in op_bind (lift_result (sanitized env thisData)) (\<lambda>persisted.
             op_bind (claiming env (claim_options_of ''redirection'' Undef (js_get thisData ''domain_names''))
               (op_bind (insertAndFetch env ''redirection_host'' persisted) (\<lambda>(row, i). op_ret (row, i)))) (\<lambda>row0.
             let i = js_get row0 ''id''
             in op_seq (if createCertificate
                        then op_bind (se_quick_certificate env thisData) (\<lambda>cert.
                               op_seq (redirection_update env True (JObj [(''id'', i), (''certificate_id'', js_get cert ''id'')])) (op_ret ()))
                        else op_ret ())
                (op_bind (get_host env redirection_kind i (Some [''certificate'', ''owner''])) (\<lambda>row.
                 op_bind (lift_ng (configureHost (se_ng env) False ''redirection_host'' ''redirection_host'' row)) (\<lambda>meta.
                 op_bind (lift_result (sanitized env (set_col ''meta'' (merge_obj (js_get thisData ''meta'') meta) thisData))) (\<lambda>audited.
                 op_seq (audit_host env redirection_kind ''created'' (js_get row ''id'') audited)
                 (op_seq (triggerAutoPush ''redirection-host'') (op_ret (set_col ''meta'' meta row)))))))))))))"

definition redirection_get :: "service_env \<Rightarrow> jsval \<Rightarrow> string list option \<Rightarrow> string list option \<Rightarrow> jsval sv_op" where
  "redirection_get env i expand omitted =
     op_bind (get_host env redirection_kind i expand) (\<lambda>row.
       op_ret (case omitted of None \<Rightarrow> row | Some ks \<Rightarrow> JObj (props_omit ks (obj_of row))))"

definition redirection_delete :: "service_env \<Rightarrow> jsval \<Rightarrow> bool sv_op" where
  "redirection_delete env data = delete_host delete_claimed env redirection_kind data"

definition redirection_enable :: "service_env \<Rightarrow> jsval \<Rightarrow> bool sv_op" where
  "redirection_enable env data = enable_host True env redirection_kind data"

definition redirection_disable :: "service_env \<Rightarrow> jsval \<Rightarrow> bool sv_op" where
  "redirection_disable env data = disable_host env redirection_kind data"

definition redirection_getAll :: "service_env \<Rightarrow> string list option \<Rightarrow> jsval \<Rightarrow> jsval list sv_op" where
  "redirection_getAll env expand search = list_hosts env redirection_kind ''domain_names'' expand search"

definition redirection_getCount :: "jsval \<Rightarrow> jsval \<Rightarrow> service_state \<Rightarrow> nat" where
  "redirection_getCount user_id visibility s = count_hosts redirection_kind user_id visibility s"

end
