(* ===== verification/Streams.thy ===== *)
theory Streams
  imports Dead_Hosts
begin

text \<open>
  The TCP and UDP streams, \<open>backend/internal/stream.js\<close> over \<open>backend/models/stream.js\<close>. A stream is reached by its incoming
  port or port range and not by a name: two streams of one protocol must not share a port.
\<close>

definition stream_kind :: host_kind where
  "stream_kind = \<lparr>hk_permission = ''streams'', hk_model = ''stream'', hk_type = ''stream'', hk_claim_type = [],
     hk_object = ''stream'', hk_label = ''Stream''\<rparr>"

section \<open>Ports\<close>

definition port_part :: "string \<Rightarrow> bool" where
  "port_part p \<longleftrightarrow> p \<noteq> [] \<and> length p \<le> 5 \<and> list_all is_digit p"

definition incomingPortRange :: "jsval \<Rightarrow> (int \<times> int) result" where
  "incomingPortRange v =
     (let parts = split_char (CHR ''-'') (js_string v)
      in if \<not> list_all port_part parts \<or> 2 < length parts
         then Inl (ValidationError ''Incoming port must be a port or port range'')
         else
           (let start = int (digits_value (hd parts)); end' = int (digits_value (last parts))
            in if start < 1 \<or> 65535 < end' \<or> end' < start
               then Inl (ValidationError ''Incoming ports must be within 1-65535 and ranges must be ascending'')
               else Inr (start, end')))"

definition shares_protocol :: "jsval \<Rightarrow> jsval \<Rightarrow> jsval \<Rightarrow> bool" where
  "shares_protocol tcp udp stream \<longleftrightarrow>
     (truthy tcp \<and> truthy (js_get stream ''tcp_forwarding'')) \<or> (truthy udp \<and> truthy (js_get stream ''udp_forwarding''))"

fun find_collision :: "int \<times> int \<Rightarrow> jsval \<Rightarrow> jsval \<Rightarrow> jsval \<Rightarrow> jsval list \<Rightarrow> jsval option result" where
  "find_collision ports tcp udp ignoredId [] = Inr None"
| "find_collision ports tcp udp ignoredId (stream # streams) =
     (if js_get stream ''id'' = ignoredId \<or> \<not> shares_protocol tcp udp stream
      then find_collision ports tcp udp ignoredId streams
      else rbind (incomingPortRange (js_get stream ''incoming_port'')) (\<lambda>other.
        if fst ports \<le> snd other \<and> fst other \<le> snd ports then Inr (Some stream)
        else find_collision ports tcp udp ignoredId streams))"

definition findPortCollision :: "jsval \<Rightarrow> jsval \<Rightarrow> jsval \<Rightarrow> jsval \<Rightarrow> jsval option sv_op" where
  "findPortCollision incomingPort tcp udp ignoredId s =
     (rbind (incomingPortRange incomingPort) (\<lambda>ports.
        find_collision ports tcp udp ignoredId (filter row_live (ng_tables (ss_ng s) ''stream''))), s)"

definition port_free :: "jsval \<Rightarrow> jsval \<Rightarrow> jsval \<Rightarrow> jsval \<Rightarrow> unit sv_op" where
  "port_free incomingPort tcp udp ignoredId =
     op_bind (findPortCollision incomingPort tcp udp ignoredId) (\<lambda>collision.
       if collision \<noteq> None
       then op_throw (ValidationError (''Incoming port '' @ js_string incomingPort @ '' is already in use by another stream.''))
       else op_ret ())"

section \<open>Operations\<close>

definition wants_names :: "jsval \<Rightarrow> unit sv_op" where
  "wants_names data =
     (if js_get data ''certificate_id'' = JStr ''new'' \<and>
         (\<not> is_arr (js_get data ''domain_names'') \<or> arr_of (js_get data ''domain_names'') = [])
      then op_throw (ValidationError ''Domain names are required when requesting a new certificate'') else op_ret ())"

definition stream_update :: "service_env \<Rightarrow> bool \<Rightarrow> jsval \<Rightarrow> jsval sv_op" where
  "stream_update env skip_configure request =
     op_seq (wants_names request)
     (let createCertificate = (js_get request ''certificate_id'' = JStr ''new'');
          data = (if createCertificate then omit_col ''certificate_id'' request else request);
          i = js_get data ''id''
      in op_seq (can env ''streams:update'' i)
         (op_bind (get_host env stream_kind i None) (\<lambda>row.
          op_seq (references_ok env data row)
         (op_seq (port_free (nullish (js_get data ''incoming_port'') (js_get row ''incoming_port''))
             (nullish (js_get data ''tcp_forwarding'') (js_get row ''tcp_forwarding''))
             (nullish (js_get data ''udp_forwarding'') (js_get row ''udp_forwarding'')) i)
         (if js_get row ''id'' \<noteq> i then op_throw (id_mismatch ''Stream'' row data)
          else
            op_bind (if createCertificate
                     then op_bind (se_quick_certificate env (certificate_request data row)) (\<lambda>cert.
                            op_ret (set_col ''certificate_id'' (js_get cert ''id'') data))
                     else op_ret data) (\<lambda>data1.
              let thisData = merge_obj (JObj [(''domain_names'', js_get row ''domain_names'')]) data1
              in op_bind (lift_result (if truthy (js_get thisData ''meta'') then sanitized env thisData else Inr thisData)) (\<lambda>clean.
                 op_seq (lift_ng (patch_host env ''stream'' (js_get row ''id'') (props_omit [''domain_names''] (obj_of clean))))
                (op_seq (audit_host env stream_kind ''updated'' (js_get row ''id'') clean)
                (op_bind (get_host env stream_kind i (Some [''owner'', ''certificate''])) (\<lambda>row1.
                 op_bind (if skip_configure then op_ret row1
                          else op_bind (lift_ng (configureHost (se_ng env) False ''stream'' ''stream'' row1)) (\<lambda>m. op_ret (set_col ''meta'' m row1))) (\<lambda>row2.
                 op_seq (triggerAutoPush ''stream'')
                   (op_bind (lift_result (cleanRowCertificateMeta (parse_json (se_ng env)) row2)) (\<lambda>out.
                     op_ret (omit_row stream_kind out))))))))))))))"

definition stream_create :: "service_env \<Rightarrow> jsval \<Rightarrow> jsval sv_op" where
  "stream_create env request =
     op_seq (wants_names request)
     (let createCertificate = (js_get request ''certificate_id'' = JStr ''new'');
          data0 = (if createCertificate then omit_col ''certificate_id'' request else request)
      in op_seq (can env ''streams:create'' data0)
         (op_seq (references_ok env data0 (JObj []))
         (op_seq (port_free (js_get data0 ''incoming_port'') (js_get data0 ''tcp_forwarding'') (js_get data0 ''udp_forwarding'') Undef)
         (let owned = set_col ''owner_user_id'' (caller env) data0;
              data = (if js_get owned ''meta'' = Undef then set_col ''meta'' (JObj []) owned else owned)
          in op_bind (lift_result (sanitized env (omit_col ''domain_names'' data))) (\<lambda>persisted.
             op_bind (lift_ng (insertAndFetch env ''stream'' persisted)) (\<lambda>(row0, _).
             let i = js_get row0 ''id''
             in op_seq (if createCertificate
                        then op_bind (se_quick_certificate env data) (\<lambda>cert.
                               op_seq (stream_update env True (JObj [(''id'', i), (''certificate_id'', js_get cert ''id'')])) (op_ret ()))
                        else op_ret ())
                (op_bind (get_host env stream_kind i (Some [''certificate'', ''owner''])) (\<lambda>row.
                 op_bind (lift_ng (configureHost (se_ng env) False ''stream'' ''stream'' row)) (\<lambda>meta.
                 op_bind (lift_result (sanitized env data)) (\<lambda>audited.
                 op_seq (audit_host env stream_kind ''created'' (js_get row ''id'') audited)
                 (op_seq (triggerAutoPush ''stream'') (op_ret (set_col ''meta'' meta row)))))))))))))"

definition stream_get :: "service_env \<Rightarrow> jsval \<Rightarrow> string list option \<Rightarrow> string list option \<Rightarrow> jsval sv_op" where
  "stream_get env i expand omitted =
     op_bind (get_host env stream_kind i expand) (\<lambda>row.
       op_ret (case omitted of None \<Rightarrow> row | Some ks \<Rightarrow> JObj (props_omit ks (obj_of row))))"

definition stream_delete :: "service_env \<Rightarrow> jsval \<Rightarrow> bool sv_op" where
  "stream_delete env data = delete_host delete_unclaimed env stream_kind data"

definition stream_enable :: "service_env \<Rightarrow> jsval \<Rightarrow> bool sv_op" where
  "stream_enable env data = enable_host True env stream_kind data"

definition stream_disable :: "service_env \<Rightarrow> jsval \<Rightarrow> bool sv_op" where
  "stream_disable env data = disable_host env stream_kind data"

definition stream_getAll :: "service_env \<Rightarrow> string list option \<Rightarrow> jsval \<Rightarrow> jsval list sv_op" where
  "stream_getAll env expand search = list_hosts env stream_kind ''incoming_port'' expand search"

definition stream_getCount :: "jsval \<Rightarrow> jsval \<Rightarrow> service_state \<Rightarrow> nat" where
  "stream_getCount user_id visibility s = count_hosts stream_kind user_id visibility s"

end
