(* ===== verification/Host_Lifecycle.thy ===== *)
theory Host_Lifecycle
  imports Host_Service_Props Redirection_Hosts Streams
begin

text \<open>
  The properties of the services of 404 hosts, redirections and streams: removal as a whole or not at all, hosts of others,
  and what leaves a service in responses and audit entries.
\<close>

section \<open>Reading a host\<close>

lemma props_get_on_truthy: "props_get (on_truthy k f row) k' = (if k' = k \<and> truthy (props_get row k) then f (props_get row k) else props_get row k')"
  by (simp add: on_truthy_def)

lemma on_truthy_res_Inr:
  "on_truthy_res k f row = Inr row' \<Longrightarrow>
     if truthy (props_get row k) then \<exists>v. f (props_get row k) = Inr v \<and> row' = props_set k v row else row' = row"
  by (auto simp: on_truthy_res_def res_simps split: if_splits)

text \<open>A host as it may leave the server: public metadata and no details of its certificate.\<close>

definition public_host :: "jsval \<Rightarrow> bool" where
  "public_host row \<longleftrightarrow> public_meta (js_get row ''meta'') \<and>
     (truthy (js_get row ''certificate'') \<longrightarrow> js_get (js_get row ''certificate'') ''meta'' = JObj [])"

lemma public_meta_falsy: "\<not> truthy v \<Longrightarrow> public_meta v"
  by (cases v) (simp_all add: public_meta_def js_get_def list_all_iff)

lemma clean_row_public:
  assumes "cleanRowCertificateMeta parse row = Inr row'"
  shows "public_host row'" "k \<notin> {''meta'', ''certificate''} \<Longrightarrow> js_get row' k = js_get row k"
proof -
  from assms obtain row1 where r: "on_truthy_res ''meta'' (sanitizeHostMeta parse) (obj_of row) = Inr row1"
      "row' = JObj (on_truthy ''certificate'' (\<lambda>c. JObj (props_set ''meta'' (JObj []) (obj_of c))) row1)"
    by (auto simp: cleanRowCertificateMeta_def res_simps)
  have m: "public_meta (props_get row1 ''meta'')"
    using on_truthy_res_Inr [OF r(1)] public_meta_falsy [of "props_get (obj_of row) ''meta''"]
    by (auto split: if_splits dest: sanitizeHostMeta_public)
  then show "public_host row'"
    by (auto simp: public_host_def r(2) props_get_on_truthy)
  show "js_get row' k = js_get row k" if "k \<notin> {''meta'', ''certificate''}"
    using on_truthy_res_Inr [OF r(1)] that by (auto simp: r(2) props_get_on_truthy js_get_def split: if_splits)
qed

lemma omit_nested_get: "k \<noteq> a \<Longrightarrow> props_get (omit_nested a b row) k = props_get row k"
  by (auto simp: omit_nested_def split: jsval.split)

lemma omit_nested_inner:
  "js_get (props_get (omit_nested a b row) a) k = (if k = b \<and> is_obj (props_get row a) then Undef else js_get (props_get row a) k)"
  "truthy (props_get (omit_nested a b row) a) = truthy (props_get row a)"
  by (auto simp: omit_nested_def split: jsval.split)

lemma omit_row_get: "k \<notin> {''is_deleted'', ''owner'', ''certificate''} \<Longrightarrow> js_get (omit_row hk row) k = js_get row k"
  by (simp add: omit_row_def Let_def omit_nested_get) (simp add: js_get_def)

lemma omit_row_public: "public_host row \<Longrightarrow> public_host (omit_row hk row)"
  by (auto simp: public_host_def omit_row_def Let_def omit_nested_get omit_nested_inner js_get_def [of row])

lemma set_col_get [simp]: "js_get (set_col k v row) k' = (if k' = k then v else js_get row k')"
  by (simp add: set_col_def) (simp add: js_get_def)

lemma expand_row_get: "k \<notin> set allowed_relations \<Longrightarrow> js_get (expand_row env model ex row) k = js_get row k"
  unfolding expand_row_def js_get_simps
  by (subst props_get_merge_other) (auto simp: js_get_def)

lemma get_host_state: "get_host env k i ex s = (r, s') \<Longrightarrow> s' = s"
  by (auto simp: get_host_def can_def lift_result_def split: sum.splits if_splits option.splits)

lemma get_host_Inr:
  assumes "get_host env k i ex s = (Inr row, s')"
  obtains grant r0 where "acc_can (se_access env) (hk_permission k @ '':get'') i = Inr grant" and "r0 \<in> set (sv_rows s (hk_model k))"
    and "row_live r0" and "js_get r0 ''id'' = i" and "visible_to env grant r0" and "s' = s"
    and "js_get row ''id'' = i" and "public_host row" and "truthy i"
    and "\<And>c. c \<notin> {''meta'', ''is_deleted'', ''owner'', ''certificate''} \<Longrightarrow> js_get row c = js_get r0 c"
proof -
  obtain grant r0 where g: "acc_can (se_access env) (hk_permission k @ '':get'') i = Inr grant"
      "List.find (\<lambda>r. row_live r \<and> js_get r ''id'' = i \<and> visible_to env grant r) (sv_rows s (hk_model k)) = Some r0"
      "cleanRowCertificateMeta (parse_json (se_ng env)) (omit_row k (case ex of None \<Rightarrow> r0 | Some es \<Rightarrow> expand_row env (hk_model k) es r0)) = Inr row"
      "truthy (js_get r0 ''id'')" "s' = s"
  proof (cases "acc_can (se_access env) (hk_permission k @ '':get'') i")
    case (Inl e)
    with assms show thesis by (simp add: get_host_def can_def lift_result_def)
  next
    case g: (Inr grant)
    show thesis
    proof (cases "List.find (\<lambda>r. row_live r \<and> js_get r ''id'' = i \<and> visible_to env grant r) (sv_rows s (hk_model k))")
      case None
      with assms g show thesis by (simp add: get_host_def can_def lift_result_def sv_rows_def split: if_splits)
    next
      case (Some r0)
      with assms g show thesis
        by (intro that [of grant r0]) (simp_all add: get_host_def can_def lift_result_def sv_rows_def split: if_splits)
    qed
  qed
  have c: "js_get row c = js_get r0 c" if "c \<notin> {''meta'', ''is_deleted'', ''owner'', ''certificate''}" for c
    using clean_row_public(2) [OF g(3), of c] that
    by (auto simp: omit_row_get expand_row_get allowed_relations_def split: option.splits)
  from find_SomeD [OF g(2)] g c [of "''id''"] clean_row_public(1) [OF g(3)] show thesis
    by (intro that [of grant r0]) (auto intro: c)
qed

text \<open>A server with two 404 hosts of one owner; \<open>reader\<close> may see only its own hosts, and is somebody else.\<close>

definition admin :: access where
  "admin = \<lparr>acc_can = (\<lambda>_ _. Inr (JObj [(''permission_visibility'', JStr ''all'')])), acc_token = Null\<rparr>"

definition reader :: access where
  "reader = \<lparr>acc_can = (\<lambda>_ _. Inr (JObj [(''permission_visibility'', JStr ''user'')])), acc_token = Null\<rparr>"

definition server0 :: "access \<Rightarrow> nginx_env \<Rightarrow> service_env" where
  "server0 acc ng = \<lparr>se_ng = ng, se_access = acc, se_certificate_get = (\<lambda>_. Inr Null), se_access_list_get = (\<lambda>_. Inr Null),
     se_quick_certificate = (\<lambda>_ s. (Inl (ValidationError ''offline''), s)), se_fresh_id = (\<lambda>_ rows. int (length rows) + 1),
     se_defaults = (\<lambda>_. [(''is_deleted'', JNum 0), (''enabled'', JNum 1)]), se_like = (\<lambda>_ _. True), se_order = (\<lambda>_ rows. rows),
     se_sha = id, se_now = 0\<rparr>"

definition names0 :: claim_db where
  "names0 = \<lparr>lock_sequence = Some 0, claims = [\<lparr>c_domain_key = ''a.example'', c_domain_name = ''a.example''\<rparr>],
     owners = [\<lparr>o_domain_key = ''a.example'', o_domain_name = ''a.example'', o_host_type = ''dead'', o_host_id = 1\<rparr>]\<rparr>"

definition service0 :: service_state where
  "service0 = \<lparr>ss_ng = nginx0, ss_claims = names0, ss_audit = [], ss_audit_id = 1, ss_pushes = []\<rparr>"

text \<open>Nginx that insists on the listener of the first host.\<close>

definition stubborn0 :: nginx_env where
  "stubborn0 = engine0\<lparr>nginx_check := (\<lambda>_ fs. if fs ''/data/nginx/dead_host/1.conf'' = None then Some (CommandError ''missing'' 1) else None)\<rparr>"

lemma server0_facts: "reliable_files (se_ng (server0 acc engine0))" "reliable_files (se_ng (server0 acc stubborn0))"
  "claims_ok (se_sha (server0 acc ng)) (ss_claims service0)"
proof -
  show "reliable_files (se_ng (server0 acc engine0))" "reliable_files (se_ng (server0 acc stubborn0))"
    using engine0_reliable by (simp_all add: server0_def stubborn0_def reliable_files_def)
  show "claims_ok (se_sha (server0 acc ng)) (ss_claims service0)"
    by (simp add: server0_def service0_def names0_def claims_ok_def owner_ok_def owner_key_def domainClaimKey_def)
      (simp add: js_lower_def lower_char_def is_upper_def code_between_def code_def)
qed

section \<open>Removal\<close>

lemma audit_host_run: "action \<noteq> [] \<Longrightarrow> audit_host env k action i meta s =
    (Inr (), s\<lparr>ss_audit := ss_audit s @ [\<lparr>al_id = ss_audit_id s, al_user_id = caller env, al_action = action,
       al_object_type = hk_object k, al_object_id = i,
       al_meta = safeAuditMetadata (hk_object k) (if truthy meta then meta else JObj []), al_created_on = se_now env\<rparr>],
       ss_audit_id := Suc (ss_audit_id s)\<rparr>)"
  by (simp add: audit_host_def audit_def audit_add_def caller_def)

lemma audit_host_frame:
  assumes "audit_host env k action i meta s = (Inr u, s')"
  shows "sv_rows s' = sv_rows s \<and> ss_claims s' = ss_claims s \<and> ss_pushes s' = ss_pushes s \<and> sv_files s' = sv_files s \<and>
    length (ss_audit s') = Suc (length (ss_audit s))"
  using assms by (auto simp: audit_host_def audit_def audit_add_def sv_rows_def sv_files_def split: sum.splits if_splits)

text \<open>The column of one row is written; the files of the listener are gone.\<close>

definition taken_down :: "service_env \<Rightarrow> host_kind \<Rightarrow> jsval \<Rightarrow> (string \<times> jsval) list \<Rightarrow> service_state \<Rightarrow> service_state \<Rightarrow> bool" where
  "taken_down env k i cols s s' \<longleftrightarrow>
     (\<exists>now. sv_rows s' = (sv_rows s)(hk_model k := patch_row (se_ng env) now (hk_model k) i cols (sv_rows s (hk_model k)))) \<and>
     sv_files s' (getConfigName (hk_type k) i) = None \<and> sv_files s' (getConfigName (hk_type k) i @ ''.bak'') = None \<and>
     length (ss_audit s') = Suc (length (ss_audit s))"

text \<open>Nothing recorded has changed and the listener is configured as before.\<close>

definition as_before :: "host_kind \<Rightarrow> jsval \<Rightarrow> service_state \<Rightarrow> service_state \<Rightarrow> bool" where
  "as_before k i s s' \<longleftrightarrow> same_records s s' \<and> sv_files s' (getConfigName (hk_type k) i) = sv_files s (getConfigName (hk_type k) i)"

lemma as_before_refl [simp]: "as_before k i s s"
  by (simp add: as_before_def)

lemma take_down_claimed:
  assumes "reliable_files (se_ng env)" and "delete_claimed env k row s = (r, s')"
  shows "case r of Inl e \<Rightarrow> as_before k (js_get row ''id'') s s'
    | Inr _ \<Rightarrow> (\<exists>now. sv_rows s' = (sv_rows s)(hk_model k := patch_row (se_ng env) now (hk_model k) (js_get row ''id'') [(''is_deleted'', JNum 1)] (sv_rows s (hk_model k)))) \<and>
        (claims_ok (se_sha env) (ss_claims s) \<longrightarrow> released (hk_claim_type k) (js_get row ''id'') (ss_claims s) (ss_claims s')) \<and>
        sv_files s' (getConfigName (hk_type k) (js_get row ''id'')) = None \<and>
        sv_files s' (getConfigName (hk_type k) (js_get row ''id'') @ ''.bak'') = None \<and> ss_audit s' = ss_audit s \<and> ss_pushes s' = ss_pushes s"
proof -
  have t: "take_down env k row (claiming env (claim_options_of (hk_claim_type k) (js_get row ''id'') (JArr [])) (removal env k row)) s = (r, s')"
    using assms(2) by (simp add: delete_claimed_def removal_def)
  from claimed.take_down_outcome [OF assms(1) refl refl refl t] show ?thesis
    by (cases r) (auto simp: as_before_def config_name backup_file_def same_records_def patched_def)
qed

lemma take_down_unclaimed:
  assumes "reliable_files (se_ng env)" and "take_down env k row (transaction (remove_listener env k row cols)) s = (r, s')"
  shows "case r of Inl e \<Rightarrow> as_before k (js_get row ''id'') s s'
    | Inr _ \<Rightarrow> (\<exists>now. sv_rows s' = (sv_rows s)(hk_model k := patch_row (se_ng env) now (hk_model k) (js_get row ''id'') cols (sv_rows s (hk_model k)))) \<and>
        ss_claims s' = ss_claims s \<and>
        sv_files s' (getConfigName (hk_type k) (js_get row ''id'')) = None \<and>
        sv_files s' (getConfigName (hk_type k) (js_get row ''id'') @ ''.bak'') = None \<and> ss_audit s' = ss_audit s \<and> ss_pushes s' = ss_pushes s"
  using unclaimed.take_down_outcome [OF assms(1) refl refl refl assms(2)]
  by (cases r) (auto simp: as_before_def config_name backup_file_def same_records_def patched_def)

text \<open>C21. Deleting a 404 host or a redirection happens as a whole or not at all. While renames, removals and copies of files
  succeed, and whatever the database, the check of Nginx, its reload and the registry of names answer: when the deletion
  succeeds, exactly the row is marked deleted, its names are released and no other host's names change, no configuration
  and no backup is left, and one audit entry and one push are recorded; when it fails, at whatever point, every table, the
  registry, the audit log and the configuration file are as before, or absent as before.
\<close>

theorem deletion_all_or_nothing:
  assumes "reliable_files (se_ng env)" and "claims_ok (se_sha env) (ss_claims s)"
    and "delete_host delete_claimed env k data s = (r, s')"
  shows "case r of Inl e \<Rightarrow> as_before k (js_get data ''id'') s s'
    | Inr _ \<Rightarrow> taken_down env k (js_get data ''id'') [(''is_deleted'', JNum 1)] s s' \<and>
        released (hk_claim_type k) (js_get data ''id'') (ss_claims s) (ss_claims s') \<and> ss_pushes s' = ss_pushes s @ [hk_object k]"
proof (cases "acc_can (se_access env) (hk_permission k @ '':delete'') (js_get data ''id'')")
  case (Inl e)
  with assms(3) show ?thesis by (auto simp: delete_host_def can_def lift_result_def)
next
  case (Inr g)
  obtain rg s1 where get: "get_host env k (js_get data ''id'') None s = (rg, s1)" by (cases "get_host env k (js_get data ''id'') None s")
  note s1 = get_host_state [OF get]
  show ?thesis
  proof (cases rg)
    case (Inl e)
    with assms(3) \<open>acc_can _ _ _ = Inr g\<close> get s1 show ?thesis by (auto simp: delete_host_def can_def lift_result_def)
  next
    case row: (Inr row)
    obtain rd s2 where del: "delete_claimed env k row s = (rd, s2)" by (cases "delete_claimed env k row s")
    have id: "js_get row ''id'' = js_get data ''id''" using get_host_Inr [OF get [unfolded row]] by metis
    note T = take_down_claimed [OF assms(1) del, unfolded id]
    show ?thesis
    proof (cases rd)
      case (Inl e)
      with assms(3) Inr get s1 row del T show ?thesis by (auto simp: delete_host_def can_def lift_result_def)
    next
      case ok: (Inr u)
      then have "r = Inr True" "sv_rows s' = sv_rows s2" "sv_files s' = sv_files s2" "ss_claims s' = ss_claims s2"
          "length (ss_audit s') = Suc (length (ss_audit s2))" "ss_pushes s' = ss_pushes s2 @ [hk_object k]"
        using assms(3) Inr get s1 row del
        by (auto simp: delete_host_def can_def lift_result_def audit_host_run triggerAutoPush_def sv_rows_def sv_files_def)
      with T ok assms(2) show ?thesis by (auto simp: taken_down_def)
    qed
  qed
qed

lemma deletion_all_or_nothing_witness:
  "\<exists>r s'. delete_host delete_claimed (server0 admin engine0) dead_kind (ref_of 1) service0 = (r, s') \<and> \<not> isl r \<and>
     taken_down (server0 admin engine0) dead_kind (JNum 1) [(''is_deleted'', JNum 1)] service0 s' \<and>
     \<not> holds (ss_claims s') (''dead'', 1) ''a.example'' \<and> holds (ss_claims service0) (''dead'', 1) ''a.example''"
proof -
  let ?d = "delete_host delete_claimed (server0 admin engine0) dead_kind (ref_of 1) service0"
  obtain r s' where d: "?d = (r, s')" by (metis surj_pair)
  have "isl (fst ?d) = False" by code_simp
  with d obtain b where r: "r = Inr b" by (cases r) auto
  have "js_get (ref_of 1) ''id'' = JNum 1" "hk_claim_type dead_kind = ''dead''" by (simp_all add: ref_of_def dead_kind_def)
  with deletion_all_or_nothing [OF server0_facts(1,3) d] r
  have t: "taken_down (server0 admin engine0) dead_kind (JNum 1) [(''is_deleted'', JNum 1)] service0 s'"
    "released ''dead'' (JNum 1) (ss_claims service0) (ss_claims s')" by simp_all
  moreover have "holds (ss_claims service0) (''dead'', 1) ''a.example''"
    by (simp add: holds_def ref_def service0_def names0_def)
  ultimately show ?thesis using d r by (auto simp: released_def)
qed

text \<open>Disabling a host, of any of the three services, happens as a whole or not at all: on success exactly the column of the
  row is cleared, the names stay claimed, no configuration and no backup is left and one audit entry is recorded; on
  failure, at whatever point, every table, the registry, the audit log and the configuration file are as before. A host
  that is disabled already is refused without any change.
\<close>

theorem disabling_all_or_nothing:
  assumes "reliable_files (se_ng env)" and "disable_host env k data s = (r, s')"
  shows "case r of Inl e \<Rightarrow> as_before k (js_get data ''id'') s s'
    | Inr _ \<Rightarrow> taken_down env k (js_get data ''id'') [(''enabled'', JNum 0)] s s' \<and> ss_claims s' = ss_claims s \<and> ss_pushes s' = ss_pushes s \<and>
        list_ex (\<lambda>row. row_live row \<and> js_get row ''id'' = js_get data ''id'' \<and> truthy (js_get row ''enabled'')) (sv_rows s (hk_model k))"
proof (cases "acc_can (se_access env) (hk_permission k @ '':update'') (js_get data ''id'')")
  case (Inl e)
  with assms(2) show ?thesis by (auto simp: disable_host_def can_def lift_result_def)
next
  case (Inr g)
  obtain rg s1 where get: "get_host env k (js_get data ''id'') None s = (rg, s1)" by (cases "get_host env k (js_get data ''id'') None s")
  note s1 = get_host_state [OF get]
  show ?thesis
  proof (cases rg)
    case (Inl e)
    with assms(2) \<open>acc_can _ _ _ = Inr g\<close> get s1 show ?thesis by (auto simp: disable_host_def can_def lift_result_def)
  next
    case row0: (Inr row0)
    obtain r0 where r0: "r0 \<in> set (sv_rows s (hk_model k))" "row_live r0" "js_get r0 ''id'' = js_get data ''id''"
        "js_get row0 ''id'' = js_get data ''id''" "js_get row0 ''enabled'' = js_get r0 ''enabled''"
      by (rule get_host_Inr [OF get [unfolded row0]]) simp
    show ?thesis
    proof (cases "truthy (js_get row0 ''enabled'')")
      case False
      with assms(2) Inr get s1 row0 show ?thesis by (auto simp: disable_host_def can_def lift_result_def)
    next
      case on: True
      let ?row = "set_col ''enabled'' (JNum 0) row0"
      obtain rd s2 where del: "take_down env k ?row (transaction (remove_listener env k ?row [(''enabled'', JNum 0)])) s = (rd, s2)"
        by (cases "take_down env k ?row (transaction (remove_listener env k ?row [(''enabled'', JNum 0)])) s")
      have id: "js_get ?row ''id'' = js_get data ''id''" by (simp add: r0(4))
      note T = take_down_unclaimed [OF assms(1) del, unfolded id]
      show ?thesis
      proof (cases rd)
        case (Inl e)
        with assms(2) Inr get s1 row0 on del T show ?thesis by (auto simp: disable_host_def can_def lift_result_def Let_def)
      next
        case ok: (Inr u)
        then have "r = Inr True" "sv_rows s' = sv_rows s2" "sv_files s' = sv_files s2" "ss_claims s' = ss_claims s2"
            "length (ss_audit s') = Suc (length (ss_audit s2))" "ss_pushes s' = ss_pushes s2"
          using assms(2) Inr get s1 row0 on del
          by (auto simp: disable_host_def can_def lift_result_def Let_def audit_host_run sv_rows_def sv_files_def)
        with T ok r0 on show ?thesis by (auto simp: taken_down_def list_ex_iff)
      qed
    qed
  qed
qed

lemma disabling_all_or_nothing_witness:
  "\<exists>r s'. disable_host (server0 admin stubborn0) dead_kind (ref_of 1) service0 = (r, s') \<and> isl r \<and>
     as_before dead_kind (JNum 1) service0 s' \<and> sv_files service0 (getConfigName (hk_type dead_kind) (JNum 1)) = Some ''old1''"
proof -
  let ?d = "disable_host (server0 admin stubborn0) dead_kind (ref_of 1) service0"
  obtain r s' where d: "?d = (r, s')" by (metis surj_pair)
  have "isl (fst ?d) = True" by code_simp
  with d obtain e where r: "r = Inl e" by (cases r) auto
  have "js_get (ref_of 1) ''id'' = JNum 1" by (simp add: ref_of_def)
  with disabling_all_or_nothing [OF server0_facts(2) d] r have "as_before dead_kind (JNum 1) service0 s'" by simp
  moreover have "sv_files service0 (getConfigName (hk_type dead_kind) (JNum 1)) = Some ''old1''" by code_simp
  ultimately show ?thesis using d r by auto
qed

lemma stream_deletion_outcome:
  assumes "reliable_files (se_ng env)" and "delete_unclaimed env k row s = (r, s')"
  shows "case r of Inl e \<Rightarrow> as_before k (js_get row ''id'') s s' | Inr _ \<Rightarrow> ss_claims s' = ss_claims s"
  using take_down_unclaimed [OF assms(1) assms(2) [unfolded delete_unclaimed_def]] by (cases r) auto

section \<open>Hosts of others\<close>

text \<open>The caller may read hosts, but not this one.\<close>

definition hidden :: "service_env \<Rightarrow> host_kind \<Rightarrow> jsval \<Rightarrow> service_state \<Rightarrow> bool" where
  "hidden env k i s \<longleftrightarrow> (case acc_can (se_access env) (hk_permission k @ '':get'') i of
     Inl e \<Rightarrow> True
   | Inr grant \<Rightarrow> list_all (\<lambda>r. \<not> (row_live r \<and> js_get r ''id'' = i \<and> visible_to env grant r)) (sv_rows s (hk_model k)))"

definition refused :: "'a sv_op \<Rightarrow> service_state \<Rightarrow> bool" where
  "refused m s \<longleftrightarrow> (case m s of (Inl e, s') \<Rightarrow> s' = s | (Inr x, s') \<Rightarrow> False)"

lemma refused_get: "hidden env k i s \<Longrightarrow> refused (get_host env k i ex) s"
proof -
  assume h: "hidden env k i s"
  obtain r s' where g: "get_host env k i ex s = (r, s')" by (cases "get_host env k i ex s")
  have "r \<noteq> Inr row" for row
  proof
    assume "r = Inr row"
    show False
      by (rule get_host_Inr [OF g [unfolded \<open>r = Inr row\<close>]]) (use h in \<open>simp add: hidden_def list_all_iff\<close>)
  qed
  with g get_host_state [OF g] show ?thesis by (cases r) (auto simp: refused_def)
qed

lemma refused_bind: "refused m s \<Longrightarrow> refused (op_bind m f) s"
  by (auto simp: refused_def split: prod.splits sum.splits)

lemma refused_after: "refused n s \<Longrightarrow> refused (op_seq (lift_result r) n) s"
  by (cases r) (auto simp: refused_def lift_result_def)

lemma refused_can: "refused n s \<Longrightarrow> refused (op_seq (can env p d) n) s"
  unfolding can_def by (rule refused_after)

lemma refused_ret: "refused n s \<Longrightarrow> refused (op_seq (op_ret x) n) s"
  by (simp add: refused_def)

text \<open>The operations that change a host, by service.\<close>

definition mutations :: "service_env \<Rightarrow> bool \<Rightarrow> jsval \<Rightarrow> service_state \<Rightarrow> host_kind \<Rightarrow> bool" where
  "mutations env b data s k \<longleftrightarrow>
     (if k = dead_kind then refused (dead_update env b data) s \<and> refused (dead_delete env data) s \<and>
        refused (dead_enable env data) s \<and> refused (dead_disable env data) s
      else if k = redirection_kind then refused (redirection_update env b data) s \<and> refused (redirection_delete env data) s \<and>
        refused (redirection_enable env data) s \<and> refused (redirection_disable env data) s
      else refused (stream_update env b data) s \<and> refused (stream_delete env data) s \<and>
        refused (stream_enable env data) s \<and> refused (stream_disable env data) s)"

lemma refused_common:
  assumes "hidden env k (js_get data ''id'') s"
  shows "refused (delete_host block env k data) s" "refused (enable_host b env k data) s" "refused (disable_host env k data) s"
  unfolding delete_host_def enable_host_def disable_host_def
  by (intro refused_can refused_bind refused_get assms)+

lemma omit_col_id [simp]: "js_get (omit_col ''certificate_id'' data) ''id'' = js_get data ''id''"
  by (simp add: omit_col_def) (simp add: js_get_def)

text \<open>C28. A caller cannot touch a host it cannot see. When the caller's read permission is refused for a host, or no live host
  of that number belongs to it and the permission does not extend to the hosts of others, then updating, deleting, enabling
  and disabling that host fail in each of the three services, and neither tables, names, files, the running configuration,
  the audit log nor the push queue changes.
\<close>

theorem hidden_host_untouched:
  assumes "k \<in> {dead_kind, redirection_kind, stream_kind}" and "hidden env k (js_get data ''id'') s"
  shows "mutations env skip_configure data s k"
proof -
  have up: "refused (dead_update env skip_configure data) s" if "k = dead_kind"
    using assms(2) that unfolding dead_update_def Let_def
    by (auto intro!: refused_can refused_after refused_ret refused_bind refused_get)
  have ur: "refused (redirection_update env skip_configure data) s" if "k = redirection_kind"
    using assms(2) that unfolding redirection_update_def Let_def
    by (auto intro!: refused_can refused_bind refused_get)
  have us: "refused (stream_update env skip_configure data) s" if "k = stream_kind"
  proof -
    have "refused (op_seq (wants_names data) n) s" if "refused n s" for n :: "jsval sv_op"
      using that by (auto simp: wants_names_def refused_def)
    then show ?thesis using assms(2) that unfolding stream_update_def Let_def
      by (auto intro!: refused_can refused_bind refused_get)
  qed
  have "stream_kind \<noteq> dead_kind" "stream_kind \<noteq> redirection_kind" "redirection_kind \<noteq> dead_kind"
    by (simp_all add: stream_kind_def dead_kind_def redirection_kind_def)
  with assms up ur us refused_common [OF assms(2)] show ?thesis
    by (auto simp: mutations_def dead_delete_def dead_enable_def dead_disable_def redirection_delete_def redirection_enable_def
        redirection_disable_def stream_delete_def stream_enable_def stream_disable_def)
qed

lemma hidden_host_untouched_witness:
  "mutations (server0 reader engine0) False (ref_of 1) service0 dead_kind \<and> \<not> hidden (server0 admin engine0) dead_kind (JNum 1) service0"
proof
  have "hidden (server0 reader engine0) dead_kind (js_get (ref_of 1) ''id'') service0" by code_simp
  then show "mutations (server0 reader engine0) False (ref_of 1) service0 dead_kind"
    by (rule hidden_host_untouched [rotated]) simp
  show "\<not> hidden (server0 admin engine0) dead_kind (JNum 1) service0" by code_simp
qed

end
