(* ===== verification/Host_Privacy.thy ===== *)
theory Host_Privacy
  imports Host_Lifecycle
begin

text \<open>
  What the host services let out: every returned host and every audit entry about a host is free of DNS credentials, of the
  retired request filters and of certificate details.
\<close>

section \<open>Operations with an invariant and a result\<close>

text \<open>\<open>op_sat I P m\<close>: the operation keeps the invariant, and a value it returns satisfies \<open>P\<close>.\<close>

definition op_sat :: "('s \<Rightarrow> bool) \<Rightarrow> ('a \<Rightarrow> bool) \<Rightarrow> ('a, 's) op \<Rightarrow> bool" where
  "op_sat I P m \<longleftrightarrow> (\<forall>s. I s \<longrightarrow> I (snd (m s)) \<and> (\<forall>x. fst (m s) = Inr x \<longrightarrow> P x))"

named_theorems sat \<open>operations with an invariant and a property of their result\<close>

lemma op_satI: "(\<And>s r s'. I s \<Longrightarrow> m s = (r, s') \<Longrightarrow> I s' \<and> (\<forall>x. r = Inr x \<longrightarrow> P x)) \<Longrightarrow> op_sat I P m"
  unfolding op_sat_def by (metis prod.collapse)

lemma op_satD: "op_sat I P m \<Longrightarrow> I s \<Longrightarrow> m s = (r, s') \<Longrightarrow> I s' \<and> (\<forall>x. r = Inr x \<longrightarrow> P x)"
  unfolding op_sat_def by (metis fst_conv snd_conv)

lemma sat_ret: "P x \<Longrightarrow> op_sat I P (op_ret x)"
  by (simp add: op_sat_def)

lemma sat_throw [sat]: "op_sat I P (op_throw e)"
  by (simp add: op_sat_def)

lemma sat_bind:
  assumes "op_sat I Q m" and "\<And>x. Q x \<Longrightarrow> op_sat I P (f x)"
  shows "op_sat I P (op_bind m f)"
proof (rule op_satI)
  fix s r s'
  assume i: "I s" and r: "op_bind m f s = (r, s')"
  obtain r1 s1 where m: "m s = (r1, s1)" by (cases "m s")
  note M = op_satD [OF assms(1) i m]
  show "I s' \<and> (\<forall>x. r = Inr x \<longrightarrow> P x)"
  proof (cases r1)
    case (Inl e)
    with M m r show ?thesis by auto
  next
    case (Inr x)
    with M m r have "f x s1 = (r, s')" and "Q x" "I s1" by auto
    then show ?thesis using op_satD [OF assms(2)] by blast
  qed
qed

lemma sat_seq: "op_sat I (\<lambda>_. True) m \<Longrightarrow> op_sat I P n \<Longrightarrow> op_sat I P (op_seq m n)"
  unfolding op_seq_def by (rule sat_bind)

lemma sat_catch:
  assumes "op_sat I P m" and "\<And>e. op_sat I P (h e)"
  shows "op_sat I P (op_catch m h)"
proof (rule op_satI)
  fix s r s'
  assume i: "I s" and r: "op_catch m h s = (r, s')"
  obtain r1 s1 where m: "m s = (r1, s1)" by (cases "m s")
  note M = op_satD [OF assms(1) i m]
  show "I s' \<and> (\<forall>x. r = Inr x \<longrightarrow> P x)"
  proof (cases r1)
    case (Inl e)
    with M m r have "h e s1 = (r, s')" "I s1" by auto
    then show ?thesis using op_satD [OF assms(2)] by blast
  next
    case (Inr x)
    with M m r show ?thesis by auto
  qed
qed

lemma sat_if [sat]: "op_sat I P m \<Longrightarrow> op_sat I P n \<Longrightarrow> op_sat I P (if b then m else n)"
  by simp

lemma sat_any: "op_sat I P m \<Longrightarrow> op_sat I (\<lambda>_. True) m"
  by (simp add: op_sat_def)

lemma sat_true: "(\<And>s. I s \<Longrightarrow> I (snd (m s))) \<Longrightarrow> op_sat I (\<lambda>_. True) m"
  by (simp add: op_sat_def)

section \<open>The status of a host\<close>

lemma status_public: "status_fields st \<Longrightarrow> op_sat (\<lambda>_. True) public_meta (updateHostStatus env model h st)"
proof (rule op_satI, intro conjI TrueI allI impI)
  fix s r s' m
  assume st: "status_fields st" and u: "updateHostStatus env model h st s = (r, s')" "r = Inr m"
  then obtain v m0 where m: "sanitizeHostMeta (parse_json env) v = Inr m0" "m = JObj (props_merge (obj_of m0) st)"
    by (auto simp: updateHostStatus_def Let_def split: option.splits sum.splits)
  have "k \<notin> fst ` set st" if "k \<in> set secret_meta_fields" for k
    using st that by (auto simp: status_fields_def secret_meta_fields_def retiredHostMetadataFields_def simp flip: set_map)
  then show "public_meta m"
    using sanitizeHostMeta_public [OF m(1)] by (simp add: m(2) public_meta_def list_all_iff props_get_merge_other js_get_def)
qed

lemma configure_public: "op_sat (\<lambda>_. True) public_meta (configureHost env skip_reload model t h)"
proof -
  have any: "op_sat (\<lambda>_. True) (\<lambda>_. True) m" for m :: "('a, nginx_state) op" by (simp add: op_sat_def)
  show ?thesis unfolding configureHost_def
    by (intro sat_bind [OF any] sat_catch sat_seq [OF any] sat_bind [OF status_public] sat_ret status_public) simp_all
qed

section \<open>Audit entries\<close>

definition host_objects :: "string list" where
  "host_objects = [''dead-host'', ''redirection-host'', ''stream'']"

definition audit_clean :: "service_state \<Rightarrow> bool" where
  "audit_clean s \<longleftrightarrow> list_all (\<lambda>a. al_object_type a \<notin> set host_objects \<or> public_meta (js_get (al_meta a) ''meta'')) (ss_audit s)"

lemma sat_result: "(\<And>x. r = Inr x \<Longrightarrow> P x) \<Longrightarrow> op_sat I P (lift_result r)"
  by (simp add: op_sat_def lift_result_def)

lemma sat_can [sat]: "op_sat I (\<lambda>_. True) (can env p d)"
  unfolding can_def by (rule sat_result) simp

lemma sat_lift [sat]: "op_sat audit_clean (\<lambda>_. True) (lift_ng m)"
  by (rule sat_true) (auto simp: lift_ng_def audit_clean_def split: prod.split)

lemma sat_lift_configure [sat]: "op_sat audit_clean public_meta (lift_ng (configureHost env skip_reload model t h))"
proof (rule op_satI)
  fix s r s'
  assume a: "audit_clean s" and l: "lift_ng (configureHost env skip_reload model t h) s = (r, s')"
  then obtain n where "configureHost env skip_reload model t h (ss_ng s) = (r, n)" "s' = s\<lparr>ss_ng := n\<rparr>"
    by (auto simp: lift_ng_def split: prod.splits)
  with op_satD [OF configure_public _ this(1)] a show "audit_clean s' \<and> (\<forall>x. r = Inr x \<longrightarrow> public_meta x)"
    by (auto simp: audit_clean_def)
qed

lemma sat_transaction [sat]: "op_sat audit_clean (\<lambda>_. True) (transaction m)"
  by (rule sat_true) (auto simp: transaction_def audit_clean_def split: prod.split sum.split)

lemma sat_claiming [sat]: "op_sat audit_clean (\<lambda>_. True) (claiming env opts m)"
  by (rule sat_true) (auto simp: claiming_def audit_clean_def split: prod.split)

lemma sat_push [sat]: "op_sat audit_clean (\<lambda>_. True) (triggerAutoPush t)"
  by (rule sat_true) (auto simp: triggerAutoPush_def audit_clean_def)

lemma sat_get [sat]: "op_sat I public_host (get_host env k i ex)"
proof (rule op_satI)
  fix s r s'
  assume "I s" and g: "get_host env k i ex s = (r, s')"
  moreover have "public_host x" if "r = Inr x" for x
    by (rule get_host_Inr [OF g [unfolded that]])
  ultimately show "I s' \<and> (\<forall>x. r = Inr x \<longrightarrow> public_host x)" using get_host_state [OF g] by simp
qed

lemma sat_audit:
  assumes "public_meta (js_get meta ''meta'')" and "hk_object k \<in> set host_objects"
  shows "op_sat audit_clean (\<lambda>_. True) (audit_host env k action i meta)"
proof (rule sat_true)
  fix s
  assume a: "audit_clean s"
  have "hk_object k \<noteq> ''ddns-provider''" using assms(2) by (auto simp: host_objects_def)
  then show "audit_clean (snd (audit_host env k action i meta s))"
    using a assms by (auto simp: audit_host_def audit_def audit_add_def audit_clean_def safeAuditMetadata_def public_meta_falsy
        split: sum.split)
qed

lemma public_host_meta: "public_host row \<Longrightarrow> public_meta (js_get (omit_row k row) ''meta'')"
  by (simp add: public_host_def omit_row_get)

lemma public_set_meta: "public_host row \<Longrightarrow> public_meta m \<Longrightarrow> public_host (set_col ''meta'' m row)"
  by (simp add: public_host_def)

lemma public_set_other: "public_host row \<Longrightarrow> public_host (set_col ''enabled'' v row)"
  by (simp add: public_host_def)

lemma sanitized_public: "sanitized env data = Inr clean \<Longrightarrow> public_meta (js_get clean ''meta'')"
  by (auto simp: sanitized_def res_simps dest: sanitizeHostMeta_public)

text \<open>Requesting a certificate writes entries about the certificate, not about hosts.\<close>

definition certificate_audits :: "service_env \<Rightarrow> bool" where
  "certificate_audits env \<longleftrightarrow> (\<forall>d s. audit_clean s \<longrightarrow> audit_clean (snd (se_quick_certificate env d s)))"

lemma sat_quick: "certificate_audits env \<Longrightarrow> op_sat audit_clean (\<lambda>_. True) (se_quick_certificate env d)"
  by (rule sat_true) (auto simp: certificate_audits_def)

section \<open>The operations\<close>

lemma sat_take_down:
  assumes "op_sat audit_clean (\<lambda>_. True) change"
  shows "op_sat audit_clean (\<lambda>_. True) (take_down env k row change)"
proof (rule op_satI)
  fix s r s'
  assume i: "audit_clean s" and t: "take_down env k row change s = (r, s')"
  have "op_sat audit_clean (\<lambda>_. True) (op_seq (lift_ng (backupConfig (se_ng env) (hk_type k) row))
      (op_seq (op_catch change (\<lambda>e. op_seq (if had then lift_ng (restoreConfig (se_ng env) (hk_type k) row) else op_ret ())
          (op_seq (lift_ng (reloadCommands (se_ng env))) (op_throw e))))
        (lift_ng (deleteBackupConfig (se_ng env) (hk_type k) row))))" for had
    by (intro sat_seq sat_catch sat_if assms sat_lift sat_throw sat_ret TrueI)
  from op_satD [OF this i] t show "audit_clean s' \<and> (\<forall>x. r = Inr x \<longrightarrow> True)"
    unfolding take_down_def Let_def by blast
qed

lemma sat_blocks: "op_sat audit_clean (\<lambda>_. True) (delete_claimed env k row)" "op_sat audit_clean (\<lambda>_. True) (delete_unclaimed env k row)"
  unfolding delete_claimed_def delete_unclaimed_def by (intro sat_take_down sat_claiming sat_transaction)+

lemma sat_delete_host:
  assumes "\<And>row. op_sat audit_clean (\<lambda>_. True) (block env k row)" and "hk_object k \<in> set host_objects"
  shows "op_sat audit_clean (\<lambda>_. True) (delete_host block env k data)"
  unfolding delete_host_def
  by (intro sat_seq [OF sat_can] sat_bind [OF sat_get] sat_seq [OF assms(1)] sat_seq [OF sat_audit] sat_seq [OF sat_push] sat_ret
      public_host_meta assms(2)) simp_all

lemma sat_disable_host: "hk_object k \<in> set host_objects \<Longrightarrow> op_sat audit_clean (\<lambda>_. True) (disable_host env k data)"
  unfolding disable_host_def Let_def
  by (intro sat_seq [OF sat_can] sat_bind [OF sat_get] sat_if sat_throw sat_seq [OF sat_take_down] sat_transaction
      sat_seq [OF sat_audit] sat_ret public_host_meta public_set_other) simp_all

lemma sat_enable_host: "hk_object k \<in> set host_objects \<Longrightarrow> op_sat audit_clean (\<lambda>_. True) (enable_host b env k data)"
  unfolding enable_host_def Let_def
  by (intro sat_seq [OF sat_can] sat_bind [OF sat_get] sat_if sat_throw sat_seq [OF sat_lift] sat_bind [OF sat_lift_configure]
      sat_seq [OF sat_audit] sat_ret public_host_meta) (auto intro: public_set_meta public_set_other)

lemma sat_clean_row: "op_sat I public_host (lift_result (cleanRowCertificateMeta parse row))"
  by (rule sat_result) (rule clean_row_public(1))

lemma sat_sanitized: "op_sat I (\<lambda>c. public_meta (js_get c ''meta'')) (lift_result (sanitized env data))"
  by (rule sat_result) (rule sanitized_public)

lemma sat_reconfigure:
  assumes "public_host row"
  shows "op_sat audit_clean public_host (if skip then op_ret row
      else op_bind (lift_ng (configureHost e b m t row)) (\<lambda>meta. op_ret (set_col ''meta'' meta row)))"
  using assms by (intro sat_if sat_ret sat_bind [OF sat_lift_configure] public_set_meta)

lemma sat_finish_update:
  assumes "hk_object k \<in> set host_objects"
  shows "op_sat audit_clean public_host (finish_update env k skip thisData i)"
  unfolding finish_update_def
  by (intro sat_bind [OF sat_sanitized] sat_seq [OF sat_audit] sat_bind [OF sat_get] sat_bind [OF sat_reconfigure] sat_seq [OF sat_push]
      sat_bind [OF sat_clean_row] sat_ret omit_row_public assms)

lemma sat_update_claimed: "op_sat audit_clean (\<lambda>_. True) (update_claimed env k d)"
  unfolding update_claimed_def Let_def by (rule sat_claiming)

lemma sat_references: "op_sat I (\<lambda>_. True) (references_ok env d e)" "op_sat I (\<lambda>_. True) (lift_result r)"
  unfolding references_ok_def by (intro sat_result TrueI)+

lemma sat_certificate:
  assumes "certificate_audits env"
  shows "op_sat audit_clean (\<lambda>_. True) (if b then op_bind (se_quick_certificate env d) (\<lambda>c. op_ret (f c)) else op_ret x)"
  by (intro sat_if sat_bind [OF sat_quick [OF assms]] sat_ret TrueI)

lemma kinds_in [simp]: "hk_object dead_kind \<in> set host_objects" "hk_object redirection_kind \<in> set host_objects"
  "hk_object stream_kind \<in> set host_objects"
  by (simp_all add: dead_kind_def redirection_kind_def stream_kind_def host_objects_def)

lemma sat_names: "op_sat I (\<lambda>_. True) (if b then lift_result r else op_ret x)"
  by (intro sat_if sat_references(2) sat_ret TrueI)

lemma sat_dead_update: "certificate_audits env \<Longrightarrow> op_sat audit_clean public_host (dead_update env skip request)"
  unfolding dead_update_def Let_def
  by (intro sat_seq [OF sat_can] sat_seq [OF sat_names] sat_bind [OF sat_get] sat_seq [OF sat_references(1)] sat_if sat_throw
      sat_bind [OF sat_certificate] sat_bind [OF sat_sanitized] sat_seq [OF sat_update_claimed] sat_finish_update kinds_in)

lemma sat_redirection_update: "certificate_audits env \<Longrightarrow> op_sat audit_clean public_host (redirection_update env skip request)"
  unfolding redirection_update_def Let_def
  by (intro sat_seq [OF sat_can] sat_seq [OF sat_names] sat_bind [OF sat_get] sat_seq [OF sat_references(1)] sat_if sat_throw
      sat_bind [OF sat_certificate] sat_bind [OF sat_sanitized] sat_seq [OF sat_update_claimed] sat_finish_update kinds_in)

lemma sat_ports: "op_sat I (\<lambda>_. True) (port_free p t u i)" "op_sat I (\<lambda>_. True) (wants_names d)"
  by (auto intro!: sat_true simp: port_free_def findPortCollision_def wants_names_def split: sum.split)

lemma sat_stream_data:
  "op_sat I (\<lambda>c. public_meta (js_get c ''meta'')) (lift_result (if truthy (js_get d ''meta'') then sanitized env d else Inr d))"
  by (rule sat_result) (auto split: if_splits intro: sanitized_public public_meta_falsy)

lemma sat_stream_update: "certificate_audits env \<Longrightarrow> op_sat audit_clean public_host (stream_update env skip request)"
  unfolding stream_update_def Let_def
  by (intro sat_seq sat_can sat_ports sat_bind [OF sat_get] sat_references(1) sat_if sat_throw
      sat_bind [OF sat_certificate] sat_bind [OF sat_stream_data] sat_lift sat_audit kinds_in sat_bind [OF sat_reconfigure]
      sat_push sat_bind [OF sat_clean_row] sat_ret omit_row_public)

lemma sat_certify:
  assumes "certificate_audits env" and "\<And>c. op_sat audit_clean (\<lambda>_. True) (f c)"
  shows "op_sat audit_clean (\<lambda>_. True) (if b then op_bind (se_quick_certificate env d) (\<lambda>c. op_seq (f c) (op_ret ())) else op_ret ())"
  by (intro sat_if sat_bind [OF sat_quick [OF assms(1)]] sat_seq assms(2) sat_ret TrueI)

lemma sat_dead_create: "certificate_audits env \<Longrightarrow> op_sat audit_clean public_host (dead_create env request)"
  unfolding dead_create_def Let_def
  by (intro sat_seq sat_can sat_references sat_bind [OF sat_sanitized] sat_bind [OF sat_claiming] sat_audit kinds_in
      sat_certify sat_any [OF sat_dead_update] sat_bind [OF sat_get] sat_if sat_throw sat_bind [OF sat_lift_configure] sat_push sat_ret public_set_meta)

lemma sat_redirection_create: "certificate_audits env \<Longrightarrow> op_sat audit_clean public_host (redirection_create env request)"
  unfolding redirection_create_def Let_def
  by (intro sat_seq sat_can sat_references sat_bind [OF sat_sanitized] sat_bind [OF sat_claiming] sat_audit kinds_in
      sat_certify sat_any [OF sat_redirection_update] sat_bind [OF sat_get] sat_bind [OF sat_lift_configure] sat_push sat_ret public_set_meta)

lemma sat_split: "(\<And>a b. x = (a, b) \<Longrightarrow> op_sat I P (f a b)) \<Longrightarrow> op_sat I P (case x of (a, b) \<Rightarrow> f a b)"
  by (cases x) simp

lemma sat_stream_create: "certificate_audits env \<Longrightarrow> op_sat audit_clean public_host (stream_create env request)"
  unfolding stream_create_def Let_def
  by (intro sat_seq sat_ports sat_can sat_references(1) sat_bind [OF sat_sanitized]
      sat_bind [OF sat_lift [of "insertAndFetch e m d" for e m d]] sat_split sat_audit kinds_in
      sat_certify sat_any [OF sat_stream_update] sat_bind [OF sat_get] sat_bind [OF sat_lift_configure] sat_push sat_ret public_set_meta)

lemma sat_list: "op_sat I (list_all public_host) (list_hosts env k c ex q)"
proof (rule op_satI)
  fix s r s'
  assume i: "I s" and l: "list_hosts env k c ex q s = (r, s')"
  have clean: "cleanAllRowsCertificateMeta parse rows = Inr out \<Longrightarrow> list_all public_host out" for parse rows out
    by (induction rows arbitrary: out)
      (auto simp: cleanAllRowsCertificateMeta_def res_simps simp flip: cleanRowCertificateMeta_def
        intro: clean_row_public(1) [of parse])
  from l i clean show "I s' \<and> (\<forall>x. r = Inr x \<longrightarrow> list_all public_host x)"
    by (auto simp: list_hosts_def can_def lift_result_def Let_def split: sum.splits if_splits)
qed

text \<open>What an operation leaves behind and returns.\<close>

definition lets_out :: "('a \<Rightarrow> bool) \<Rightarrow> 'a sv_op \<Rightarrow> service_state \<Rightarrow> bool" where
  "lets_out P m s \<longleftrightarrow> audit_clean (snd (m s)) \<and> (case fst (m s) of Inl e \<Rightarrow> True | Inr x \<Rightarrow> P x)"

lemma sat_lets_out: "op_sat audit_clean P m \<Longrightarrow> audit_clean s \<Longrightarrow> lets_out P m s"
  by (auto simp: op_sat_def lets_out_def split: sum.split)

definition any :: "'a \<Rightarrow> bool" where
  "any _ = True"

lemma sat_any_out: "op_sat audit_clean (\<lambda>_. True) m \<Longrightarrow> audit_clean s \<Longrightarrow> lets_out any m s"
  by (auto simp: op_sat_def lets_out_def any_def split: sum.split)

text \<open>C26. Nothing confidential about a host leaves its service. Whatever the request, the caller, the stored rows and the
  failures on the way, a host returned by creating, updating, reading or listing 404 hosts, redirections and streams has
  metadata without DNS credentials and without the retired filters, and a certificate, if any, without its details; and
  every entry the operations add to the audit log about a host has such metadata too.
\<close>

theorem host_secrets_stay_inside:
  assumes "certificate_audits env" and "audit_clean s"
  shows "lets_out public_host (dead_create env data) s \<and> lets_out public_host (dead_update env skip data) s \<and>
    lets_out public_host (redirection_create env data) s \<and> lets_out public_host (redirection_update env skip data) s \<and>
    lets_out public_host (stream_create env data) s \<and> lets_out public_host (stream_update env skip data) s \<and>
    lets_out public_host (get_host env k i expand) s \<and> lets_out (list_all public_host) (list_hosts env k col expand search) s \<and>
    lets_out any (dead_delete env data) s \<and> lets_out any (dead_enable env data) s \<and> lets_out any (dead_disable env data) s \<and>
    lets_out any (redirection_delete env data) s \<and> lets_out any (redirection_enable env data) s \<and>
    lets_out any (redirection_disable env data) s \<and> lets_out any (stream_delete env data) s \<and>
    lets_out any (stream_enable env data) s \<and> lets_out any (stream_disable env data) s"
  unfolding dead_delete_def redirection_delete_def stream_delete_def dead_enable_def redirection_enable_def stream_enable_def
    dead_disable_def redirection_disable_def stream_disable_def
  by (intro conjI sat_lets_out sat_any_out sat_dead_create sat_dead_update sat_redirection_create sat_redirection_update
      sat_stream_create sat_stream_update sat_get sat_list sat_delete_host sat_blocks sat_enable_host sat_disable_host kinds_in assms)

text \<open>An update that tries to store credentials.\<close>

definition leak0 :: jsval where
  "leak0 = JObj [(''id'', JNum 1), (''meta'', JObj [(''dns_provider_credentials'', JStr ''key''), (''note'', JStr ''x'')]),
     (''domain_names'', JArr [JStr ''a.example''])]"

lemma host_secrets_stay_inside_witness:
  "\<exists>row s'. dead_update (server0 admin engine0) False leak0 service0 = (Inr row, s') \<and> public_host row \<and> audit_clean s' \<and>
     length (ss_audit s') = 1 \<and> js_get (js_get row ''meta'') ''note'' = JStr ''x''"
proof -
  let ?u = "dead_update (server0 admin engine0) False leak0 service0"
  have c: "certificate_audits (server0 admin engine0)" by (simp add: certificate_audits_def server0_def)
  have a: "audit_clean service0" by (simp add: audit_clean_def service0_def)
  have v: "(case fst ?u of Inl e \<Rightarrow> False | Inr row \<Rightarrow> js_get (js_get row ''meta'') ''note'' = JStr ''x'') = True" by code_simp
  have n: "length (ss_audit (snd ?u)) = 1" by code_simp
  obtain r s' where u: "?u = (r, s')" by (metis surj_pair)
  with v obtain row where r: "r = Inr row" "js_get (js_get row ''meta'') ''note'' = JStr ''x''" by (auto split: sum.splits)
  have "lets_out public_host (dead_update (server0 admin engine0) False leak0) service0"
    using host_secrets_stay_inside [OF c a, where data = leak0 and skip = False] by blast
  with u r n show ?thesis by (auto simp: lets_out_def)
qed

end
