(* ===== verification/Nginx_Live.thy ===== *)
theory Nginx_Live
  imports Nginx_Claims
begin

text \<open>
  The running configuration over any sequence of engine operations: Nginx only ever runs files that passed the check,
  whatever fails in between. No assumption on the file system is needed.
\<close>

section \<open>Operations that keep a property of the state\<close>

named_theorems keeps \<open>operations that keep a property of the state\<close>

definition op_keeps :: "('s \<Rightarrow> bool) \<Rightarrow> ('a, 's) op \<Rightarrow> bool" where
  "op_keeps Q m \<longleftrightarrow> (\<forall>s. Q s \<longrightarrow> Q (snd (m s)))"

lemma op_keepsI: "(\<And>s. Q s \<Longrightarrow> Q (snd (m s))) \<Longrightarrow> op_keeps Q m"
  by (simp add: op_keeps_def)

lemma op_keepsD: "op_keeps Q m \<Longrightarrow> Q s \<Longrightarrow> Q (snd (m s))"
  by (simp add: op_keeps_def)

lemma keeps_ret [keeps]: "op_keeps Q (op_ret x)" "op_keeps Q (op_throw e)"
  by (simp_all add: op_keeps_def)

lemma keeps_bind [keeps]: "op_keeps Q m \<Longrightarrow> (\<And>x. op_keeps Q (f x)) \<Longrightarrow> op_keeps Q (op_bind m f)"
  unfolding op_keeps_def by (auto split: prod.split sum.split)

lemma keeps_seq [keeps]: "op_keeps Q m \<Longrightarrow> op_keeps Q n \<Longrightarrow> op_keeps Q (op_seq m n)"
  unfolding op_seq_def by (rule keeps_bind)

lemma keeps_catch [keeps]: "op_keeps Q m \<Longrightarrow> (\<And>e. op_keeps Q (h e)) \<Longrightarrow> op_keeps Q (op_catch m h)"
  unfolding op_keeps_def by (auto split: prod.split sum.split)

lemma keeps_if [keeps]: "op_keeps Q m \<Longrightarrow> op_keeps Q n \<Longrightarrow> op_keeps Q (if b then m else n)"
  by simp

lemma keeps_settled: "(\<And>x. op_keeps Q (f x)) \<Longrightarrow> Q s \<Longrightarrow> Q (snd (op_settled f xs s))"
proof (induction xs arbitrary: s)
  case (Cons x xs)
  have "Q (snd (f x s))" using Cons.prems by (rule op_keepsD)
  from Cons.IH [OF Cons.prems(1) this] show ?case by (simp add: case_prod_beta)
qed simp

section \<open>The running configuration\<close>

text \<open>The running configuration passed the check at some time.\<close>

definition checked :: "nginx_env \<Rightarrow> nginx_state \<Rightarrow> bool" where
  "checked env s \<longleftrightarrow> (\<exists>n. nginx_check env n (ng_live s) = None)"

lemma checked_cong: "ng_live s' = ng_live s \<Longrightarrow> checked env s \<Longrightarrow> checked env s'"
  by (simp add: checked_def)

lemma live_simps [simp]: "ng_live (leave p r s) = ng_live s" "ng_live (set_table m rows s) = ng_live s"
  by (simp_all add: leave_def set_table_def split: option.split)

lemma keeps_files [keeps]:
  "op_keeps (checked env) (fs_copy env p q)" "op_keeps (checked env) (fs_rename env p q)"
  "op_keeps (checked env) (fs_unlink env p)" "op_keeps (checked env) (fs_write env p c)"
  by (auto intro!: op_keepsI elim!: checked_cong [rotated]
      simp: fs_copy_def fs_rename_def fs_unlink_def fs_write_def split: option.split)

lemma keeps_test [keeps]: "op_keeps (checked env) (nginx_test env)"
  by (auto intro!: op_keepsI elim!: checked_cong [rotated] simp: nginx_test_def split: option.split)

text \<open>A reload signals Nginx only after the check of the same files.\<close>

lemma keeps_reload [keeps]: "op_keeps (checked env) (reloadCommands env)"
proof (rule op_keepsI)
  fix s
  assume c: "checked env s"
  show "checked env (snd (reloadCommands env s))"
  proof (cases "nginx_check env (ng_clock s) (ng_files s)")
    case (Some e)
    with c show ?thesis by (simp add: reloadCommands_def nginx_test_def checked_def)
  next
    case None
    with c show ?thesis by (auto simp: reloadCommands_def nginx_test_def checked_def split: option.split)
  qed
qed

lemma keeps_status [keeps]: "op_keeps (checked env) (updateHostStatus env model h st)"
proof (rule op_keepsI)
  fix s
  assume "checked env s"
  moreover have "same_system s (snd (updateHostStatus env model h st s))"
    by (rule status_system) (rule surjective_pairing)
  ultimately show "checked env (snd (updateHostStatus env model h st s))" by (auto simp: same_system_def checked_def)
qed

lemma keeps_current [keeps]: "op_keeps (checked env) (current_host env model t snap)"
proof (rule op_keepsI)
  fix s
  assume "checked env s"
  moreover have "same_system s (snd (current_host env model t snap s))"
    by (rule current_host_system(1)) (rule surjective_pairing)
  ultimately show "checked env (snd (current_host env model t snap s))" by (auto simp: same_system_def checked_def)
qed

lemma keeps_render [keeps]: "op_keeps (checked env) (renderConfig env t h)" "op_keeps (checked env) generatePolicy"
  by (auto intro!: op_keepsI elim!: checked_cong [rotated] simp: renderConfig_def generatePolicy_def)

lemma keeps_config [keeps]:
  "op_keeps (checked env) (deleteFile env p)" "op_keeps (checked env) (deleteConfig env t h)"
  "op_keeps (checked env) (renameConfigAsError env t h)" "op_keeps (checked env) (backupConfig env t h)"
  "op_keeps (checked env) (restoreConfig env t h)" "op_keeps (checked env) (deleteBackupConfig env t h)"
  "op_keeps (checked env) (generateConfig env t h)"
  unfolding deleteConfig_def renameConfigAsError_def backupConfig_def restoreConfig_def deleteBackupConfig_def
    deleteFile_def generateConfig_def
  by (intro keeps)+

lemma keeps_stage [keeps]: "op_keeps (checked env) (stage_host env model t snap)"
  unfolding stage_host_def by (intro keeps)

lemma keeps_configure: "op_keeps (checked env) (configureHost env skip_reload model t snap)"
  unfolding configureHost_def by (intro keeps)

lemma keeps_staged [keeps]: "op_keeps (checked env) (commitStagedConfig env p st)" "op_keeps (checked env) (rollbackStagedConfig env e st)"
  unfolding commitStagedConfig_def rollbackStagedConfig_def by (intro keeps)+

lemma keeps_stage_all: "checked env s \<Longrightarrow> checked env (snd (stage_all env items stages s))"
proof (induction items arbitrary: stages s)
  case (Cons i items)
  obtain m t h where i: "i = (m, t, h)" by (cases i)
  obtain r s1 where r: "stage_host env m t h s = (r, s1)" by (cases "stage_host env m t h s")
  have "checked env s1" using op_keepsD [OF keeps_stage Cons.prems, of m t h] r by simp
  then show ?case using Cons.IH by (cases r) (simp_all add: i r)
qed simp

lemma keeps_bulk_rollback [keeps]: "op_keeps (checked env) (bulk_rollback env opts stages e)"
proof (rule op_keepsI)
  fix s
  assume c: "checked env s"
  obtain rs s1 where rs: "op_settled (rollbackStagedConfig env e) stages s = (rs, s1)"
    by (cases "op_settled (rollbackStagedConfig env e) stages s")
  have s1: "checked env s1" using keeps_settled [where f = "rollbackStagedConfig env e" and xs = stages, OF keeps_staged(2) c] rs by simp
  have "op_keeps (checked env) (op_seq (if bulk_reload opts then reloadCommands env else op_ret ())
      (case settled_values rs of Inl e' \<Rightarrow> op_throw e' | Inr metas \<Rightarrow> if throwOnError opts then op_throw e else op_ret metas))"
    by (cases "settled_values rs") (auto intro!: keeps)
  from op_keepsD [OF this s1] show "checked env (snd (bulk_rollback env opts stages e s))"
    by (simp add: bulk_rollback_def rs del: op_seq_simp)
qed

lemma keeps_bulk_commit [keeps]: "op_keeps (checked env) (bulk_commit env opts stages)"
  unfolding bulk_commit_def
proof (intro keeps)
  show "op_keeps (checked env) (activate env opts)" unfolding activate_def by (intro keeps)
next
  show "op_keeps (checked env) (\<lambda>s. case op_settled (commitStagedConfig env True) stages s of
      (commits, s1) \<Rightarrow> (case settled_values commits of
          Inl e \<Rightarrow> (Inl e, s1)
        | Inr statuses \<Rightarrow> (case op_settled (\<lambda>st. deleteBackupConfig env (st_type st) (st_host st)) stages s1 of
            (cleanups, s2) \<Rightarrow> op_seq generatePolicy (op_ret statuses) s2)))" (is "op_keeps _ ?m")
  proof (rule op_keepsI)
    fix s
    assume c: "checked env s"
    obtain rs s1 where rs: "op_settled (commitStagedConfig env True) stages s = (rs, s1)"
      by (cases "op_settled (commitStagedConfig env True) stages s")
    have s1: "checked env s1" using keeps_settled [where f = "commitStagedConfig env True" and xs = stages, OF keeps_staged(1) c] rs by simp
    obtain cs s2 where cs: "op_settled (\<lambda>st. deleteBackupConfig env (st_type st) (st_host st)) stages s1 = (cs, s2)"
      by (cases "op_settled (\<lambda>st. deleteBackupConfig env (st_type st) (st_host st)) stages s1")
    have "checked env s2"
      using keeps_settled [where f = "\<lambda>st. deleteBackupConfig env (st_type st) (st_host st)", OF keeps_config(6) s1, of stages] cs by simp
    then show "checked env (snd (?m s))"
      using s1 by (cases "settled_values rs") (auto simp: rs cs generatePolicy_def checked_def)
  qed
qed

lemma keeps_bulk: "op_keeps (checked env) (bulkGenerateConfigGroups env groups opts)"
proof (rule op_keepsI)
  fix s
  assume c: "checked env s"
  obtain stages failure s1 where st: "stage_all env (group_items groups) [] s = ((stages, failure), s1)"
    by (metis prod.collapse)
  have s1: "checked env s1" using keeps_stage_all [OF c, of "group_items groups" "[]"] st by simp
  have "op_keeps (checked env) (op_catch (bulk_commit env opts stages) (bulk_rollback env opts stages))" by (intro keeps)
  from op_keepsD [OF this s1] op_keepsD [OF keeps_bulk_rollback s1]
  show "checked env (snd (bulkGenerateConfigGroups env groups opts s))"
    by (simp add: bulkGenerateConfigGroups_def st del: op_catch_simp split: option.split)
qed

section \<open>Any sequence of operations\<close>

inductive engine_step :: "nginx_env \<Rightarrow> nginx_state \<Rightarrow> nginx_state \<Rightarrow> bool" for env where
  configure: "engine_step env s (snd (configureHost env skip_reload model t h s))"
| batch: "engine_step env s (snd (bulkGenerateConfigGroups env groups opts s))"
| reload: "engine_step env s (snd (reloadCommands env s))"
| backup: "engine_step env s (snd (backupConfig env t h s))"
| restore: "engine_step env s (snd (restoreConfig env t h s))"
| remove: "engine_step env s (snd (deleteConfig env t h s))"
| cleanup: "engine_step env s (snd (deleteBackupConfig env t h s))"
| status: "engine_step env s (snd (updateHostStatus env model h st s))"
| outside: "ng_live s' = ng_live s \<Longrightarrow> engine_step env s s'"

lemma engine_step_checked: "engine_step env s s' \<Longrightarrow> checked env s \<Longrightarrow> checked env s'"
  by (induction rule: engine_step.induct)
    (auto intro: op_keepsD [OF keeps_configure] op_keepsD [OF keeps_bulk] op_keepsD [OF keeps_reload]
      op_keepsD [OF keeps_config(4)] op_keepsD [OF keeps_config(5)] op_keepsD [OF keeps_config(2)]
      op_keepsD [OF keeps_config(6)] op_keepsD [OF keeps_status] elim: checked_cong)

interpretation engine: invariant_system "engine_step env" "checked env" for env
  by unfold_locales (rule engine_step_checked)

text \<open>C25. Nginx only ever runs a configuration that passed the check. Starting from a checked configuration, after any sequence
  of installations, batches, reloads, removals, backups, restorations and status writes, with any of them failing at any
  point (files, rendering, database, check, signal), interleaved with arbitrary changes of the files and tables by others,
  the configuration the running Nginx has loaded is one the check accepted.
\<close>

theorem running_configuration_checked:
  assumes "(engine_step env)\<^sup>*\<^sup>* s s'" and "checked env s"
  shows "checked env s'"
  using assms by (rule engine.steps_inv)

lemma running_configuration_checked_witness:
  "checked engine0 (snd (configureHost engine0 False ''dead_host'' ''dead_host'' (ref_of 2)
      (snd (configureHost engine0 False ''dead_host'' ''dead_host'' (ref_of 1) nginx0))))"
proof (rule running_configuration_checked)
  show "checked engine0 nginx0" by (simp add: checked_def engine0_def nginx0_def files0_def)
  let ?s = "snd (configureHost engine0 False ''dead_host'' ''dead_host'' (ref_of 1) nginx0)"
  have "engine_step engine0 nginx0 ?s" "engine_step engine0 ?s (snd (configureHost engine0 False ''dead_host'' ''dead_host'' (ref_of 2) ?s))"
    by (rule engine_step.configure)+
  then show "(engine_step engine0)\<^sup>*\<^sup>* nginx0 (snd (configureHost engine0 False ''dead_host'' ''dead_host'' (ref_of 2) ?s))"
    by (meson converse_rtranclp_into_rtranclp r_into_rtranclp)
qed

end
