(* ===== verification/Stream_Ports.thy ===== *)
theory Stream_Ports
  imports Host_Privacy Nginx_Live
begin

text \<open>
  Streams never share a port: over any sequence of operations of the stream service, failing or not, no two live streams of a
  common protocol have overlapping incoming ports.
\<close>

section \<open>The invariant\<close>

definition overlap :: "jsval \<Rightarrow> jsval \<Rightarrow> bool" where
  "overlap p q \<longleftrightarrow> (case incomingPortRange p of Inl e \<Rightarrow> False | Inr x \<Rightarrow>
     (case incomingPortRange q of Inl e \<Rightarrow> False | Inr y \<Rightarrow> fst x \<le> snd y \<and> fst y \<le> snd x))"

definition collide :: "jsval \<Rightarrow> jsval \<Rightarrow> bool" where
  "collide a b \<longleftrightarrow> shares_protocol (js_get a ''tcp_forwarding'') (js_get a ''udp_forwarding'') b \<and>
     overlap (js_get a ''incoming_port'') (js_get b ''incoming_port'')"

lemma collide_sym: "collide a b \<longleftrightarrow> collide b a"
  by (auto simp: collide_def shares_protocol_def overlap_def split: sum.split)

definition ports_ok :: "jsval list \<Rightarrow> bool" where
  "ports_ok rows \<longleftrightarrow> distinct (map (\<lambda>r. js_get r ''id'') rows) \<and> (\<forall>r \<in> set rows. js_get r ''id'' \<noteq> Undef) \<and>
     (\<forall>a \<in> set rows. \<forall>b \<in> set rows. row_live a \<longrightarrow> row_live b \<longrightarrow> js_get a ''id'' \<noteq> js_get b ''id'' \<longrightarrow> \<not> collide a b)"

text \<open>The columns a collision depends on.\<close>

definition same_ports :: "jsval \<Rightarrow> jsval \<Rightarrow> bool" where
  "same_ports a b \<longleftrightarrow> js_get a ''id'' = js_get b ''id'' \<and> js_get a ''incoming_port'' = js_get b ''incoming_port'' \<and>
     truthy (js_get a ''tcp_forwarding'') = truthy (js_get b ''tcp_forwarding'') \<and>
     truthy (js_get a ''udp_forwarding'') = truthy (js_get b ''udp_forwarding'') \<and> (row_live a \<longrightarrow> row_live b)"

lemma same_ports_collide: "same_ports a a' \<Longrightarrow> same_ports b b' \<Longrightarrow> collide a b = collide a' b'"
  by (simp add: same_ports_def collide_def shares_protocol_def)

lemma ports_ok_mapI:
  assumes "ports_ok rows" and id: "\<And>r. r \<in> set rows \<Longrightarrow> js_get (f r) ''id'' = js_get r ''id''"
    and "\<And>a b. a \<in> set rows \<Longrightarrow> b \<in> set rows \<Longrightarrow> row_live (f a) \<Longrightarrow> row_live (f b) \<Longrightarrow> js_get a ''id'' \<noteq> js_get b ''id'' \<Longrightarrow> \<not> collide (f a) (f b)"
  shows "ports_ok (map f rows)"
proof -
  have ids: "map ((\<lambda>r. js_get r ''id'') \<circ> f) rows = map (\<lambda>r. js_get r ''id'') rows"
    using id by simp
  have "distinct (map (\<lambda>r. js_get r ''id'') (map f rows))"
    using assms(1) unfolding map_map ids by (simp add: ports_ok_def)
  with assms show ?thesis by (auto simp: ports_ok_def)
qed

lemma ports_ok_map:
  assumes "ports_ok rows" and "\<And>r. r \<in> set rows \<Longrightarrow> same_ports (f r) r"
  shows "ports_ok (map f rows)"
proof (rule ports_ok_mapI [OF assms(1)])
  show "js_get (f r) ''id'' = js_get r ''id''" if "r \<in> set rows" for r using assms(2) [OF that] by (simp add: same_ports_def)
  show "\<not> collide (f a) (f b)" if "a \<in> set rows" "b \<in> set rows" "row_live (f a)" "row_live (f b)" "js_get a ''id'' \<noteq> js_get b ''id''" for a b
    using that assms same_ports_collide [of "f a" a "f b" b] by (auto simp: ports_ok_def same_ports_def)
qed

text \<open>Writing other columns, or marking rows deleted, changes no port.\<close>

definition port_columns :: "string list" where
  "port_columns = [''id'', ''incoming_port'', ''tcp_forwarding'', ''udp_forwarding'', ''is_deleted'']"

lemma patched_col:
  assumes "k \<notin> fst ` set (stored model cols)" and "k \<noteq> ''modified_on''"
  shows "js_get (JObj (props_set ''modified_on'' t (props_merge (obj_of r) (stored model cols)))) k = js_get r k"
  using assms by (simp add: props_get_merge_other js_get_def)

lemma ports_ok_patch:
  assumes "ports_ok rows" and "fst ` set cols \<inter> set port_columns = {}"
  shows "ports_ok (patch_row env n model i cols rows)"
  unfolding patch_row_def patch_where_def
proof (rule ports_ok_map [OF assms(1)])
  fix r
  have "k \<notin> fst ` set (stored model cols)" if "k \<in> set port_columns" for k
    using assms(2) that stored_keys by fastforce
  then show "same_ports (if js_get r ''id'' = i then JObj (props_set ''modified_on'' (JStr (clock_text env n))
      (props_merge (obj_of r) (stored model cols))) else r) r"
    by (simp add: same_ports_def row_live_def patched_col port_columns_def del: js_get_simps)
qed

lemma ports_ok_delete: "ports_ok rows \<Longrightarrow> ports_ok (patch_row env n ''stream'' i [(''is_deleted'', JNum 1)] rows)"
  unfolding patch_row_def patch_where_def
proof (rule ports_ok_map)
  fix r
  have s: "stored ''stream'' [(''is_deleted'', JNum 1)] = [(''is_deleted'', JBool True)]" by (simp add: stored_def bool_fields_def)
  show "same_ports (if js_get r ''id'' = i then JObj (props_set ''modified_on'' (JStr (clock_text env n))
      (props_merge (obj_of r) (stored ''stream'' [(''is_deleted'', JNum 1)]))) else r) r"
    by (simp add: s same_ports_def row_live_def props_merge_def js_get_def)
qed

section \<open>The check for a free port\<close>

lemma find_collision_None:
  "find_collision ports tcp udp ign rows = Inr None \<Longrightarrow> b \<in> set rows \<Longrightarrow> js_get b ''id'' \<noteq> ign \<Longrightarrow> shares_protocol tcp udp b \<Longrightarrow>
     \<exists>y. incomingPortRange (js_get b ''incoming_port'') = Inr y \<and> \<not> (fst ports \<le> snd y \<and> fst y \<le> snd ports)"
  by (induction rows) (auto simp: res_simps split: if_splits)

definition free_for :: "jsval \<Rightarrow> jsval \<Rightarrow> jsval \<Rightarrow> jsval \<Rightarrow> jsval list \<Rightarrow> bool" where
  "free_for p tcp udp ign rows \<longleftrightarrow> (\<exists>x. incomingPortRange p = Inr x) \<and>
     (\<forall>b \<in> set rows. row_live b \<longrightarrow> js_get b ''id'' \<noteq> ign \<longrightarrow> shares_protocol tcp udp b \<longrightarrow> \<not> overlap p (js_get b ''incoming_port''))"

lemma port_free_Inr:
  assumes "port_free p tcp udp ign s = (Inr u, s')"
  shows "s' = s" "free_for p tcp udp ign (sv_rows s ''stream'')"
proof -
  from assms obtain x where x: "incomingPortRange p = Inr x" "find_collision x tcp udp ign (filter row_live (sv_rows s ''stream'')) = Inr None" "s' = s"
    by (auto simp: port_free_def findPortCollision_def sv_rows_def res_simps split: sum.splits if_splits option.splits)
  then show "s' = s" by simp
  have "\<not> overlap p (js_get b ''incoming_port'')"
    if "b \<in> set (sv_rows s ''stream'')" "row_live b" "js_get b ''id'' \<noteq> ign" "shares_protocol tcp udp b" for b
    using find_collision_None [OF x(2), of b] that x(1) by (auto simp: overlap_def)
  with x(1) show "free_for p tcp udp ign (sv_rows s ''stream'')" by (auto simp: free_for_def)
qed

lemma port_free_state: "port_free p tcp udp ign s = (r, s') \<Longrightarrow> s' = s"
  by (auto simp: port_free_def findPortCollision_def split: sum.splits if_splits)

section \<open>The rows an insertion and an update leave\<close>

lemma distinct_stored: "distinct (map fst cols) \<Longrightarrow> distinct (map fst (stored model cols))"
proof -
  have "map fst (stored model cols) = map fst (filter (\<lambda>kv. snd kv \<noteq> Undef) cols)" by (simp add: stored_def)
  then show "distinct (map fst cols) \<Longrightarrow> distinct (map fst (stored model cols))" by (simp add: distinct_map_filter)
qed

text \<open>A column as the database keeps it.\<close>

definition stored_value :: "string \<Rightarrow> string \<Rightarrow> jsval \<Rightarrow> jsval" where
  "stored_value model k v = (if k \<in> set (bool_fields model) then JBool (truthy v) else v)"

lemma stored_Cons:
  "stored model ((k, v) # cols) = (if v = Undef then stored model cols else (k, stored_value model k v) # stored model cols)"
  by (simp add: stored_def stored_value_def)

lemma props_get_stored:
  "distinct (map fst cols) \<Longrightarrow> props_get (props_merge a (stored model cols)) k =
     (if props_get cols k = Undef then props_get a k else stored_value model k (props_get cols k))"
proof -
  assume d: "distinct (map fst cols)"
  have keys: "k \<in> fst ` set (stored model cols) \<longleftrightarrow> props_get cols k \<noteq> Undef"
    using d
  proof (induction cols)
    case (Cons kv cols)
    then show ?case by (cases kv) (auto simp: stored_Cons props_get_notin dest: stored_keys)
  qed (simp add: stored_def)
  have "props_get cols k \<noteq> Undef \<Longrightarrow> props_get (stored model cols) k = stored_value model k (props_get cols k)"
    using d
  proof (induction cols)
    case (Cons kv cols)
    then show ?case by (cases kv) (auto simp: stored_Cons)
  qed simp
  with props_get_merge [OF distinct_stored [OF d]] keys show ?thesis by simp
qed

lemma no_range: "isl (incomingPortRange Null)" "isl (incomingPortRange Undef)"
  by code_simp+

lemma free_forD: "free_for p tcp udp ign rows \<Longrightarrow> b \<in> set rows \<Longrightarrow> row_live b \<Longrightarrow> js_get b ''id'' \<noteq> ign \<Longrightarrow>
    shares_protocol tcp' udp' b \<Longrightarrow> (truthy tcp' \<Longrightarrow> truthy tcp) \<Longrightarrow> (truthy udp' \<Longrightarrow> truthy udp) \<Longrightarrow> \<not> overlap p (js_get b ''incoming_port'')"
  by (auto simp: free_for_def shares_protocol_def)

lemma ports_ok_insert:
  assumes ok: "ports_ok rows" and free: "free_for p tcp udp Undef rows"
    and new: "\<forall>b \<in> set rows. js_get b ''id'' \<noteq> js_get r ''id''" "js_get r ''id'' \<noteq> Undef" "js_get r ''incoming_port'' = p"
      "truthy (js_get r ''tcp_forwarding'') \<Longrightarrow> truthy tcp" "truthy (js_get r ''udp_forwarding'') \<Longrightarrow> truthy udp"
  shows "ports_ok (rows @ [r])"
proof -
  have "\<not> collide r b" if "b \<in> set rows" "row_live b" for b
    using free_forD [OF free that] new that ok by (auto simp: collide_def ports_ok_def)
  with ok new(1,2) show ?thesis by (auto simp: ports_ok_def collide_sym)
qed

lemma ports_ok_update:
  assumes ok: "ports_ok rows" and r0: "r0 \<in> set rows" "js_get r0 ''id'' = i"
    and free: "free_for (nullish (props_get cols ''incoming_port'') (js_get r0 ''incoming_port''))
      (nullish (props_get cols ''tcp_forwarding'') (js_get r0 ''tcp_forwarding''))
      (nullish (props_get cols ''udp_forwarding'') (js_get r0 ''udp_forwarding'')) i rows"
    and live: "row_live r0" and cols: "distinct (map fst cols)" "props_get cols ''id'' = i"
  shows "ports_ok (patch_row env n ''stream'' i cols rows)"
proof -
  let ?f = "\<lambda>r. JObj (props_set ''modified_on'' (JStr (clock_text env n)) (props_merge (obj_of r) (stored ''stream'' cols)))"
  let ?g = "\<lambda>r. if js_get r ''id'' = i then ?f r else r"
  have p: "patch_row env n ''stream'' i cols rows = map ?g rows" by (simp add: patch_row_def patch_where_def)
  have i: "i \<noteq> Undef" using ok r0 by (auto simp: ports_ok_def)
  have col: "js_get (?f r) k = (if props_get cols k = Undef then js_get r k else stored_value ''stream'' k (props_get cols k))"
    if "k \<noteq> ''modified_on''" for r k
    using that props_get_stored [OF cols(1)] by (simp add: js_get_def)
  have id: "js_get (?g r) ''id'' = js_get r ''id''" for r
    using col [of "''id''" r] cols(2) i by (simp add: stored_value_def bool_fields_def del: js_get_simps)
  have only: "a = r0" if "a \<in> set rows" "js_get a ''id'' = i" for a
    using ok that r0 by (auto simp: ports_ok_def distinct_map inj_on_def)
  have new: "\<not> collide (?f r0) b" if b: "b \<in> set rows" "row_live b" "js_get b ''id'' \<noteq> i" for b
  proof
    assume c: "collide (?f r0) b"
    let ?p = "props_get cols ''incoming_port''"
    have t: "truthy (js_get (?f r0) k) \<Longrightarrow> truthy (nullish (props_get cols k) (js_get r0 k))" if "k \<in> {''tcp_forwarding'', ''udp_forwarding''}" for k
      using that col [of k r0] by (auto simp: stored_value_def bool_fields_def nullish_def simp del: js_get_simps split: if_splits)
    have "js_get (?f r0) ''incoming_port'' = (if ?p = Undef then js_get r0 ''incoming_port'' else ?p)"
      using col [of "''incoming_port''" r0] by (simp add: stored_value_def bool_fields_def del: js_get_simps)
    then have "overlap (nullish ?p (js_get r0 ''incoming_port'')) (js_get b ''incoming_port'')"
      using c no_range(1) by (auto simp: collide_def nullish_def overlap_def isl_def split: if_splits)
    moreover have "shares_protocol (js_get (?f r0) ''tcp_forwarding'') (js_get (?f r0) ''udp_forwarding'') b" using c by (simp add: collide_def)
    ultimately show False using free_forD [OF free b] t by blast
  qed
  show ?thesis unfolding p
  proof (rule ports_ok_mapI [OF ok id])
    fix a b
    assume ab: "a \<in> set rows" "b \<in> set rows" "row_live (?g a)" "row_live (?g b)" "js_get a ''id'' \<noteq> js_get b ''id''"
    show "\<not> collide (?g a) (?g b)"
    proof (cases "js_get a ''id'' = i")
      case True
      with ab only [of a] new [of b] show ?thesis by simp
    next
      case a: False
      show ?thesis
      proof (cases "js_get b ''id'' = i")
        case True
        with a ab only [of b] new [of a] show ?thesis by (simp add: collide_sym)
      next
        case False
        with a ab ok show ?thesis by (simp add: ports_ok_def)
      qed
    qed
  qed
qed

end
