(* ===== verification/Stream_Claims.thy ===== *)
theory Stream_Claims
  imports Stream_Ports
begin

text \<open>
  Streams never share a port, over any sequence of operations of the stream service. The rows of the streams are followed
  through an operation with triples: from rows without collisions that satisfy \<open>F\<close>, the operation leaves rows without
  collisions, and if it returns a value then \<open>G\<close> holds of the value and the rows.
\<close>

section \<open>Triples over the rows of the streams\<close>

definition streams_of :: "service_state \<Rightarrow> jsval list" where
  "streams_of s = ng_tables (ss_ng s) ''stream''"

definition tri :: "(jsval list \<Rightarrow> bool) \<Rightarrow> 'a sv_op \<Rightarrow> ('a \<Rightarrow> jsval list \<Rightarrow> bool) \<Rightarrow> bool" where
  "tri F m G \<longleftrightarrow> (\<forall>s r s'. ports_ok (streams_of s) \<longrightarrow> F (streams_of s) \<longrightarrow> m s = (r, s') \<longrightarrow>
     ports_ok (streams_of s') \<and> (\<forall>x. r = Inr x \<longrightarrow> G x (streams_of s')))"

abbreviation no_fact :: "'a \<Rightarrow> bool" where
  "no_fact \<equiv> \<lambda>_. True"

abbreviation no_result :: "'a \<Rightarrow> 'b \<Rightarrow> bool" where
  "no_result \<equiv> \<lambda>_ _. True"

named_theorems safe \<open>operations after which the streams have no collisions\<close>

lemma triI: "(\<And>s r s'. ports_ok (streams_of s) \<Longrightarrow> F (streams_of s) \<Longrightarrow> m s = (r, s') \<Longrightarrow>
    ports_ok (streams_of s') \<and> (\<forall>x. r = Inr x \<longrightarrow> G x (streams_of s'))) \<Longrightarrow> tri F m G"
  unfolding tri_def by blast

lemma triD: "tri F m G \<Longrightarrow> ports_ok (streams_of s) \<Longrightarrow> F (streams_of s) \<Longrightarrow> m s = (r, s') \<Longrightarrow>
    ports_ok (streams_of s') \<and> (\<forall>x. r = Inr x \<longrightarrow> G x (streams_of s'))"
  unfolding tri_def by blast

lemma tri_bind:
  assumes "tri F m G" and "\<And>x. tri (G x) (f x) H"
  shows "tri F (op_bind m f) H"
proof (rule triI)
  fix s r s'
  assume i: "ports_ok (streams_of s)" "F (streams_of s)" and r: "op_bind m f s = (r, s')"
  obtain r1 s1 where m: "m s = (r1, s1)" by (cases "m s")
  note M = triD [OF assms(1) i m]
  show "ports_ok (streams_of s') \<and> (\<forall>x. r = Inr x \<longrightarrow> H x (streams_of s'))"
  proof (cases r1)
    case (Inl e)
    with M m r show ?thesis by auto
  next
    case (Inr x)
    with M m r have "f x s1 = (r, s')" and "G x (streams_of s1)" "ports_ok (streams_of s1)" by auto
    then show ?thesis using triD [OF assms(2)] by blast
  qed
qed

lemma tri_seq: "tri F m (\<lambda>_. G) \<Longrightarrow> tri G n H \<Longrightarrow> tri F (op_seq m n) H"
  unfolding op_seq_def by (rule tri_bind)

lemma tri_catch:
  assumes "tri F m G" and "\<And>e. tri no_fact (h e) G"
  shows "tri F (op_catch m h) G"
proof (rule triI)
  fix s r s'
  assume i: "ports_ok (streams_of s)" "F (streams_of s)" and r: "op_catch m h s = (r, s')"
  obtain r1 s1 where m: "m s = (r1, s1)" by (cases "m s")
  note M = triD [OF assms(1) i m]
  show "ports_ok (streams_of s') \<and> (\<forall>x. r = Inr x \<longrightarrow> G x (streams_of s'))"
  proof (cases r1)
    case (Inl e)
    with M m r have "h e s1 = (r, s')" "ports_ok (streams_of s1)" by auto
    then show ?thesis using triD [OF assms(2)] by blast
  next
    case (Inr x)
    with M m r show ?thesis by auto
  qed
qed

lemma tri_if: "(b \<Longrightarrow> tri F m G) \<Longrightarrow> (\<not> b \<Longrightarrow> tri F n G) \<Longrightarrow> tri F (if b then m else n) G"
  by simp

lemma tri_ret: "(\<And>rows. F rows \<Longrightarrow> G x rows) \<Longrightarrow> tri F (op_ret x) G"
  by (simp add: tri_def)

lemma tri_throw [safe]: "tri F (op_throw e) G"
  by (simp add: tri_def)

lemma tri_fact: "(p \<Longrightarrow> tri F m G) \<Longrightarrow> tri (\<lambda>rows. F rows \<and> p) m G"
  unfolding tri_def by blast

lemma tri_drop: "tri no_fact m G \<Longrightarrow> tri F m G"
  unfolding tri_def by blast

lemma tri_weaken: "tri F m G \<Longrightarrow> tri F m no_result"
  unfolding tri_def by blast

text \<open>An operation that leaves the streams alone keeps what is known of them.\<close>

definition steady :: "'a sv_op \<Rightarrow> bool" where
  "steady m \<longleftrightarrow> (\<forall>s. streams_of (snd (m s)) = streams_of s)"

lemma tri_steady: "steady m \<Longrightarrow> tri F m (\<lambda>_. F)"
  by (auto simp: tri_def steady_def) (metis snd_conv)+

lemma tri_result: "tri F (lift_result r) (\<lambda>x rows. F rows \<and> r = Inr x)"
  by (simp add: tri_def lift_result_def)

lemma steady_ops:
  "steady (lift_result r)" "steady (can env p d)" "steady (references_ok env d e)" "steady (audit_host env k a i m)"
  "steady (triggerAutoPush t)" "steady (wants_names d)" "steady (op_ret x)"
  by (auto simp: steady_def lift_result_def can_def references_ok_def audit_host_def audit_def triggerAutoPush_def
      wants_names_def streams_of_def split: sum.split)

text \<open>The row a service works on, and the stored row behind it.\<close>

definition row_of_stream :: "jsval \<Rightarrow> jsval \<Rightarrow> jsval list \<Rightarrow> bool" where
  "row_of_stream i row rows \<longleftrightarrow> js_get row ''id'' = i \<and> (\<exists>r \<in> set rows. row_live r \<and> js_get r ''id'' = i \<and>
     (\<forall>c \<in> {''incoming_port'', ''tcp_forwarding'', ''udp_forwarding''}. js_get row c = js_get r c))"

lemma tri_get: "tri F (get_host env stream_kind i ex) (\<lambda>row rows. F rows \<and> row_of_stream i row rows)"
proof (rule triI, intro conjI allI impI)
  fix s r s' row
  assume s: "ports_ok (streams_of s)" "F (streams_of s)" and g: "get_host env stream_kind i ex s = (r, s')"
  note st = get_host_state [OF g]
  with s show "ports_ok (streams_of s')" "F (streams_of s')" by simp_all
  assume "r = Inr row"
  show "row_of_stream i row (streams_of s')"
    by (rule get_host_Inr [OF g [unfolded \<open>r = Inr row\<close>]])
      (auto simp: row_of_stream_def streams_of_def sv_rows_def stream_kind_def)
qed

lemma tri_port_free: "tri F (port_free p tcp udp ign) (\<lambda>_ rows. F rows \<and> free_for p tcp udp ign rows)"
proof (rule triI)
  fix s r s'
  assume s: "ports_ok (streams_of s)" "F (streams_of s)" and g: "port_free p tcp udp ign s = (r, s')"
  from s port_free_state [OF g] port_free_Inr(2) [of p tcp udp ign s _ s'] g
  show "ports_ok (streams_of s') \<and> (\<forall>x. r = Inr x \<longrightarrow> F (streams_of s') \<and> free_for p tcp udp ign (streams_of s'))"
    by (auto simp: streams_of_def sv_rows_def)
qed

section \<open>The configuration engine\<close>

definition ports_kept :: "nginx_state \<Rightarrow> bool" where
  "ports_kept n \<longleftrightarrow> ports_ok (ng_tables n ''stream'')"

lemma kept_cong: "ng_tables n' = ng_tables n \<Longrightarrow> ports_kept n \<Longrightarrow> ports_kept n'"
  by (simp add: ports_kept_def)

lemma kept_patch:
  "ports_kept n \<Longrightarrow> fst ` set cols \<inter> set port_columns = {} \<Longrightarrow>
     ports_kept (set_table model (patch_row env t model i cols (ng_tables n model)) (tick n))"
  by (cases "model = ''stream''") (simp_all add: ports_kept_def set_table_def ports_ok_patch)

lemma kept_tick [simp]: "ports_kept (tick n) = ports_kept n"
  by (simp add: ports_kept_def)

lemma leave_tables [simp]: "ng_tables (leave p r s) = ng_tables s"
  by (simp add: leave_def split: option.split)

lemma kept_files [keeps]:
  "op_keeps ports_kept (fs_copy env p q)" "op_keeps ports_kept (fs_rename env p q)"
  "op_keeps ports_kept (fs_unlink env p)" "op_keeps ports_kept (fs_write env p c)"
  "op_keeps ports_kept (nginx_test env)" "op_keeps ports_kept (renderConfig env t h)" "op_keeps ports_kept generatePolicy"
  by (auto intro!: op_keepsI elim!: kept_cong [rotated]
      simp: fs_copy_def fs_rename_def fs_unlink_def fs_write_def nginx_test_def renderConfig_def generatePolicy_def split: option.split)

lemma kept_reload [keeps]: "op_keeps ports_kept (reloadCommands env)"
  by (auto intro!: op_keepsI elim!: kept_cong [rotated] simp: reloadCommands_def nginx_test_def split: option.split)

lemma kept_config [keeps]:
  "op_keeps ports_kept (deleteFile env p)" "op_keeps ports_kept (deleteConfig env t h)"
  "op_keeps ports_kept (renameConfigAsError env t h)" "op_keeps ports_kept (backupConfig env t h)"
  "op_keeps ports_kept (restoreConfig env t h)" "op_keeps ports_kept (deleteBackupConfig env t h)"
  "op_keeps ports_kept (generateConfig env t h)"
  unfolding deleteConfig_def renameConfigAsError_def backupConfig_def restoreConfig_def deleteBackupConfig_def
    deleteFile_def generateConfig_def
  by (intro keeps)+

lemma kept_status [keeps]: "op_keeps ports_kept (updateHostStatus env model h st)"
  by (auto intro!: op_keepsI kept_patch simp: updateHostStatus_def Let_def port_columns_def
      split: option.split sum.split)

lemma kept_retire [keeps]: "op_keeps ports_kept (retire_current env model h)"
  by (auto intro!: op_keepsI kept_patch simp: retire_current_def port_columns_def
      split: option.split sum.split)

lemma kept_current [keeps]: "op_keeps ports_kept (current_host env model t snap)"
proof (rule op_keepsI)
  fix s
  assume k: "ports_kept s"
  then have t: "ports_kept (tick s)" by (simp add: ports_kept_def)
  have r: "op_keeps ports_kept (op_bind (retire_current env model c) (\<lambda>x. op_ret (f x)))" for c and f :: "jsval \<Rightarrow> jsval"
    by (intro keeps)
  show "ports_kept (snd (current_host env model t snap s))"
    using t op_keepsD [OF r t]
    by (simp add: current_host_def del: op_bind_simp split: option.split sum.split bool.split)
qed

lemma kept_configure [keeps]: "op_keeps ports_kept (configureHost env skip_reload model t snap)"
  unfolding configureHost_def stage_host_def by (intro keeps)

lemma tri_lift: "op_keeps ports_kept m \<Longrightarrow> tri F (lift_ng m) no_result"
proof (rule triI)
  fix s r s'
  assume k: "op_keeps ports_kept m" "ports_ok (streams_of s)" and l: "lift_ng m s = (r, s')"
  then obtain n where "m (ss_ng s) = (r, n)" "s' = s\<lparr>ss_ng := n\<rparr>" by (auto simp: lift_ng_def split: prod.splits)
  with op_keepsD [OF k(1), of "ss_ng s"] k(2) show "ports_ok (streams_of s') \<and> (\<forall>x. r = Inr x \<longrightarrow> True)"
    by (simp add: streams_of_def ports_kept_def)
qed

lemma tri_transaction: "op_keeps ports_kept m \<Longrightarrow> tri F (transaction m) no_result"
proof (rule triI)
  fix s r s'
  assume k: "op_keeps ports_kept m" "ports_ok (streams_of s)" and l: "transaction m s = (r, s')"
  obtain r1 n where "m (ss_ng s) = (r1, n)" by (cases "m (ss_ng s)")
  with op_keepsD [OF k(1), of "ss_ng s"] k(2) l show "ports_ok (streams_of s') \<and> (\<forall>x. r = Inr x \<longrightarrow> True)"
    by (cases r1) (auto simp: transaction_def streams_of_def ports_kept_def)
qed

section \<open>What a request says about ports\<close>

definition port_data :: "jsval \<Rightarrow> jsval \<Rightarrow> bool" where
  "port_data d d' \<longleftrightarrow> distinct (map fst (obj_of d')) \<and>
     list_all (\<lambda>c. js_get d' c = js_get d c) [''id'', ''incoming_port'', ''tcp_forwarding'', ''udp_forwarding'']"

lemma distinct_merge: "distinct (map fst a) \<Longrightarrow> distinct (map fst (props_merge a b))"
  by (induction b arbitrary: a) (simp_all add: props_merge_def distinct_props_set)

lemma port_data_set: "port_data d d' \<Longrightarrow> k \<notin> set port_columns \<Longrightarrow> port_data d (set_col k v d')"
  by (auto simp: port_data_def port_columns_def) (simp add: set_col_def distinct_props_set)

lemma omit_col_get: "js_get (omit_col k d) c = (if c = k then Undef else js_get d c)"
  by (simp add: omit_col_def) (simp add: js_get_def)

lemma distinct_omit: "distinct (map fst kvs) \<Longrightarrow> distinct (map fst (props_omit ks kvs))"
  by (simp add: props_omit_def distinct_map_filter)

lemma port_data_omit: "port_data d d' \<Longrightarrow> k \<notin> set port_columns \<Longrightarrow> port_data d (omit_col k d')"
  by (auto simp: port_data_def port_columns_def omit_col_get) (simp add: omit_col_def distinct_omit)

lemma merge_obj_get: "distinct (map fst (obj_of b)) \<Longrightarrow> c \<noteq> k \<Longrightarrow> js_get (merge_obj (JObj [(k, v)]) b) c = js_get b c"
  by (cases "c \<in> fst ` set (obj_of b)")
    (simp_all add: merge_obj_def props_get_merge js_get_def [of b] props_get_notin props_merge_def [of "[]" "[_]"])

lemma port_data_merge: "port_data d d' \<Longrightarrow> port_data d (merge_obj (JObj [(''domain_names'', v)]) d')"
  by (simp add: port_data_def merge_obj_get) (simp add: merge_obj_def distinct_merge props_merge_def [of "[]" "[_]"])

lemma port_data_sanitized: "sanitized env d' = Inr c \<Longrightarrow> port_data d d' \<Longrightarrow> port_data d c"
  by (auto simp: sanitized_def res_simps port_columns_def intro: port_data_set)

section \<open>Operations that write no port\<close>

definition safe_op :: "'a sv_op \<Rightarrow> bool" where
  "safe_op m \<longleftrightarrow> tri no_fact m no_result"

lemma safe_tri: "safe_op m \<Longrightarrow> tri F m no_result"
  unfolding safe_op_def by (rule tri_drop)

lemma safe_bind: "safe_op m \<Longrightarrow> (\<And>x. safe_op (f x)) \<Longrightarrow> safe_op (op_bind m f)"
  unfolding safe_op_def by (rule tri_bind)

lemma safe_seq: "safe_op m \<Longrightarrow> safe_op n \<Longrightarrow> safe_op (op_seq m n)"
  unfolding safe_op_def by (rule tri_seq)

lemma safe_catch: "safe_op m \<Longrightarrow> (\<And>e. safe_op (h e)) \<Longrightarrow> safe_op (op_catch m h)"
  unfolding safe_op_def by (rule tri_catch)

lemma safe_if: "safe_op m \<Longrightarrow> safe_op n \<Longrightarrow> safe_op (if b then m else n)"
  by simp

lemma safe_steady: "steady m \<Longrightarrow> safe_op m"
  unfolding safe_op_def by (rule tri_steady)

lemma safe_throw: "safe_op (op_throw e)"
  by (simp add: safe_op_def tri_throw)

lemma safe_get: "safe_op (get_host env stream_kind i ex)"
  unfolding safe_op_def by (rule tri_weaken [OF tri_get])

lemma safe_lift: "op_keeps ports_kept m \<Longrightarrow> safe_op (lift_ng m)" "op_keeps ports_kept m \<Longrightarrow> safe_op (transaction m)"
  unfolding safe_op_def by (rule tri_lift tri_transaction, assumption)+

lemmas safe_ops = safe_bind safe_seq safe_catch safe_if safe_throw safe_get safe_lift safe_steady steady_ops

lemma kept_patch_host: "fst ` set cols \<inter> set port_columns = {} \<Longrightarrow> op_keeps ports_kept (patch_host env model i cols)"
  by (auto intro!: op_keepsI kept_patch simp: patch_host_def split: option.split)

lemma kept_delete_host: "op_keeps ports_kept (patch_host env ''stream'' i [(''is_deleted'', JNum 1)])"
  by (auto intro!: op_keepsI ports_ok_delete simp: patch_host_def set_table_def ports_kept_def split: option.split)

lemma stream_model [simp]: "hk_model stream_kind = ''stream''"
  by (simp add: stream_kind_def)

lemma kept_removal [keeps]: "op_keeps ports_kept (remove_listener env stream_kind row [(''is_deleted'', JNum 1)])"
  unfolding remove_listener_def by (intro keeps) (simp add: kept_delete_host)

lemma kept_disabling [keeps]: "op_keeps ports_kept (remove_listener env stream_kind row [(''enabled'', JNum 0)])"
  unfolding remove_listener_def by (intro keeps kept_patch_host) (simp add: port_columns_def)

lemma safe_take_down: "safe_op change \<Longrightarrow> safe_op (take_down env k row change)"
proof -
  assume c: "safe_op change"
  have "safe_op (op_seq (lift_ng (backupConfig (se_ng env) (hk_type k) row))
      (op_seq (op_catch change (\<lambda>e. op_seq (if had then lift_ng (restoreConfig (se_ng env) (hk_type k) row) else op_ret ())
          (op_seq (lift_ng (reloadCommands (se_ng env))) (op_throw e))))
        (lift_ng (deleteBackupConfig (se_ng env) (hk_type k) row))))" for had
    by (intro safe_ops c keeps)
  then show ?thesis unfolding take_down_def Let_def safe_op_def tri_def by blast
qed

lemma safe_delete: "safe_op (stream_delete env data)"
  unfolding stream_delete_def delete_host_def delete_unclaimed_def
  by (intro safe_ops safe_take_down keeps)

lemma safe_disable: "safe_op (stream_disable env data)"
  unfolding stream_disable_def disable_host_def Let_def
  by (intro safe_ops safe_take_down keeps)

lemma safe_enable: "safe_op (stream_enable env data)"
  unfolding stream_enable_def enable_host_def Let_def
  by (intro safe_ops keeps kept_patch_host) (simp add: port_columns_def)

section \<open>Updating and creating a stream\<close>

text \<open>What the database and the certificate service are relied on for: a new identifier is not in use, a stream forwards
  nothing unless it is told to, and requesting a certificate leaves the streams alone.\<close>

definition fresh_ids :: "service_env \<Rightarrow> bool" where
  "fresh_ids env \<longleftrightarrow> (\<forall>rows. list_all (\<lambda>r. js_get r ''id'' \<noteq> JNum (se_fresh_id env ''stream'' rows)) rows)"

definition stream_env :: "service_env \<Rightarrow> bool" where
  "stream_env env \<longleftrightarrow> fresh_ids env \<and>
     (let d = props_merge [] (stored ''stream'' (se_defaults env ''stream''))
      in \<not> truthy (props_get d ''tcp_forwarding'') \<and> \<not> truthy (props_get d ''udp_forwarding'')) \<and>
     distinct (map fst (se_defaults env ''stream'')) \<and> (\<forall>d. steady (se_quick_certificate env d))"

lemma port_data_cols:
  "port_data d d' \<Longrightarrow> c \<in> {''id'', ''incoming_port'', ''tcp_forwarding'', ''udp_forwarding''} \<Longrightarrow> props_get (obj_of d') c = js_get d c"
  by (auto simp: port_data_def js_get_def)

lemma tri_update_patch:
  assumes "port_data d clean" and "js_get d ''id'' = i"
  shows "tri (\<lambda>rows. row_of_stream i row rows \<and> free_for (nullish (js_get d ''incoming_port'') (js_get row ''incoming_port''))
        (nullish (js_get d ''tcp_forwarding'') (js_get row ''tcp_forwarding''))
        (nullish (js_get d ''udp_forwarding'') (js_get row ''udp_forwarding'')) i rows)
      (lift_ng (patch_host env ''stream'' (js_get row ''id'') (props_omit [''domain_names''] (obj_of clean)))) no_result"
proof (rule triI)
  fix s r s'
  let ?c = "props_omit [''domain_names''] (obj_of clean)"
  assume ok: "ports_ok (streams_of s)"
    and f: "row_of_stream i row (streams_of s) \<and> free_for (nullish (js_get d ''incoming_port'') (js_get row ''incoming_port''))
        (nullish (js_get d ''tcp_forwarding'') (js_get row ''tcp_forwarding''))
        (nullish (js_get d ''udp_forwarding'') (js_get row ''udp_forwarding'')) i (streams_of s)"
    and run: "lift_ng (patch_host env ''stream'' (js_get row ''id'') ?c) s = (r, s')"
  from f obtain r0 where r0: "r0 \<in> set (streams_of s)" "row_live r0" "js_get r0 ''id'' = i" "js_get row ''id'' = i"
      "js_get row ''incoming_port'' = js_get r0 ''incoming_port''" "js_get row ''tcp_forwarding'' = js_get r0 ''tcp_forwarding''"
      "js_get row ''udp_forwarding'' = js_get r0 ''udp_forwarding''"
    by (auto simp: row_of_stream_def)
  note cols = port_data_cols [OF assms(1)]
  have "distinct (map fst ?c)" using assms(1) by (simp add: port_data_def distinct_omit)
  then have "ports_ok (patch_row (se_ng env) n ''stream'' i ?c (streams_of s))" for n
    using f r0 assms(2) by (intro ports_ok_update [OF ok r0(1,3) _ r0(2)]) (simp_all add: cols)
  then show "ports_ok (streams_of s') \<and> (\<forall>x. r = Inr x \<longrightarrow> True)"
    using run ok by (auto simp: lift_ng_def patch_host_def streams_of_def set_table_def r0(4) split: option.splits)
qed

lemma tri_pre: "tri F' m G \<Longrightarrow> (\<And>rows. F rows \<Longrightarrow> F' rows) \<Longrightarrow> tri F m G"
  unfolding tri_def by blast

lemma tri_certificate:
  assumes "stream_env env" and "port_data d d'"
  shows "tri F (if b then op_bind (se_quick_certificate env q) (\<lambda>cert. op_ret (set_col ''certificate_id'' (v cert) d')) else op_ret d')
    (\<lambda>x rows. F rows \<and> port_data d x)"
proof (rule tri_if)
  have "steady (se_quick_certificate env q)" using assms(1) by (simp add: stream_env_def)
  then show "tri F (op_bind (se_quick_certificate env q) (\<lambda>cert. op_ret (set_col ''certificate_id'' (v cert) d'))) (\<lambda>x rows. F rows \<and> port_data d x)"
    using assms(2) by (intro tri_bind [OF tri_steady] tri_ret) (auto intro: port_data_set simp: port_columns_def)
  show "tri F (op_ret d') (\<lambda>x rows. F rows \<and> port_data d x)" using assms(2) by (intro tri_ret) simp
qed

lemma port_data_request: "distinct (map fst (obj_of q)) \<Longrightarrow> d = (if b then omit_col ''certificate_id'' q else q) \<Longrightarrow> port_data d d"
  by (auto simp: port_data_def omit_col_def distinct_omit)

text \<open>The write of an update, before anything that writes no port.\<close>

lemma tri_update_write:
  assumes "\<And>clean. safe_op (rest clean)" and "js_get d ''id'' = i" and "port_data d x"
  shows "tri (\<lambda>rows. (p \<and> row_of_stream i row rows) \<and> free_for (nullish (js_get d ''incoming_port'') (js_get row ''incoming_port''))
        (nullish (js_get d ''tcp_forwarding'') (js_get row ''tcp_forwarding''))
        (nullish (js_get d ''udp_forwarding'') (js_get row ''udp_forwarding'')) i rows)
      (op_bind (lift_result (if truthy (js_get (merge_obj (JObj [(''domain_names'', v)]) x) ''meta'')
            then sanitized env (merge_obj (JObj [(''domain_names'', v)]) x) else Inr (merge_obj (JObj [(''domain_names'', v)]) x)))
         (\<lambda>clean. op_seq (lift_ng (patch_host env ''stream'' (js_get row ''id'') (props_omit [''domain_names''] (obj_of clean)))) (rest clean)))
      no_result"
proof (rule tri_bind [OF tri_result], rule tri_fact)
  fix clean
  assume c: "(if truthy (js_get (merge_obj (JObj [(''domain_names'', v)]) x) ''meta'')
      then sanitized env (merge_obj (JObj [(''domain_names'', v)]) x) else Inr (merge_obj (JObj [(''domain_names'', v)]) x)) = Inr clean"
  have "port_data d clean"
    using c port_data_merge [OF assms(3)] by (auto intro: port_data_sanitized split: if_splits)
  note patch = tri_update_patch [OF this assms(2), of row env]
  show "tri (\<lambda>rows. (p \<and> row_of_stream i row rows) \<and> free_for (nullish (js_get d ''incoming_port'') (js_get row ''incoming_port''))
        (nullish (js_get d ''tcp_forwarding'') (js_get row ''tcp_forwarding''))
        (nullish (js_get d ''udp_forwarding'') (js_get row ''udp_forwarding'')) i rows)
      (op_seq (lift_ng (patch_host env ''stream'' (js_get row ''id'') (props_omit [''domain_names''] (obj_of clean)))) (rest clean)) no_result"
    by (rule tri_seq [OF tri_pre [OF patch]]) (blast, rule safe_tri [OF assms(1)])
qed

lemmas quiet = steady_ops [THEN tri_steady, THEN tri_seq]

lemma tri_update:
  assumes env: "stream_env env" and request: "distinct (map fst (obj_of request))"
  shows "safe_op (stream_update env skip request)"
proof -
  have d: "port_data d d" if "d = (if js_get request ''certificate_id'' = JStr ''new'' then omit_col ''certificate_id'' request else request)" for d
    using port_data_request [OF request that] .
  show ?thesis
    unfolding stream_update_def Let_def safe_op_def
    by (intro quiet tri_bind [OF tri_get] tri_seq [OF tri_port_free] tri_if tri_throw
        tri_bind [OF tri_certificate [OF env d]] refl tri_fact tri_update_write safe_ops keeps)
qed

lemma safe_split: "(\<And>a b. x = (a, b) \<Longrightarrow> safe_op (f a b)) \<Longrightarrow> safe_op (case x of (a, b) \<Rightarrow> f a b)"
  by (cases x) simp

text \<open>The row an insertion appends.\<close>

lemma tri_insert:
  assumes env: "stream_env env" and data: "port_data d persisted"
  shows "tri (\<lambda>rows. p \<and> free_for (js_get d ''incoming_port'') (js_get d ''tcp_forwarding'') (js_get d ''udp_forwarding'') Undef rows)
      (lift_ng (insertAndFetch env ''stream'' persisted)) no_result"
proof (rule triI)
  fix s r s'
  assume ok: "ports_ok (streams_of s)"
    and free: "p \<and> free_for (js_get d ''incoming_port'') (js_get d ''tcp_forwarding'') (js_get d ''udp_forwarding'') Undef (streams_of s)"
    and run: "lift_ng (insertAndFetch env ''stream'' persisted) s = (r, s')"
  let ?i = "se_fresh_id env ''stream'' (streams_of s)" and ?cols = "before_insert ''stream'' (obj_of persisted)"
  let ?def = "props_merge [] (stored ''stream'' (se_defaults env ''stream''))"
  let ?row = "inserted_row env ''stream'' (ng_clock (ss_ng s)) ?i (obj_of persisted)"
  have dist: "distinct (map fst ?cols)"
    using data by (simp add: before_insert_def with_default_def port_data_def distinct_props_set)
  have cols: "props_get ?cols c = js_get d c" if "c \<in> {''incoming_port'', ''tcp_forwarding'', ''udp_forwarding''}" for c
    using that port_data_cols [OF data, of c] by (auto simp: before_insert_def with_default_def)
  have dd: "props_get (stored ''stream'' (se_defaults env ''stream'')) c = props_get ?def c" for c
    using env distinct_stored [of "se_defaults env ''stream''" "''stream''"]
    by (auto simp: stream_env_def props_get_merge props_get_notin)
  have new: "js_get ?row c = (if js_get d c = Undef then props_get ?def c else stored_value ''stream'' c (js_get d c))"
    if "c \<in> {''incoming_port'', ''tcp_forwarding'', ''udp_forwarding''}" for c
    using that cols [OF that] dd [of c] by (auto simp: inserted_row_def Let_def props_get_stored [OF dist])
  have row_id: "js_get ?row ''id'' = JNum ?i" by (simp add: inserted_row_def Let_def)
  have "js_get d ''incoming_port'' \<noteq> Undef" using free no_range(2) by (auto simp: free_for_def)
  then have port: "js_get ?row ''incoming_port'' = js_get d ''incoming_port''"
    using new [of "''incoming_port''"] by (simp add: stored_value_def bool_fields_def)
  have flag: "truthy (js_get ?row c) \<Longrightarrow> truthy (js_get d c)" if "c \<in> {''tcp_forwarding'', ''udp_forwarding''}" for c
    using that new [of c] env by (auto simp: stored_value_def bool_fields_def stream_env_def Let_def split: if_splits)
  have "\<forall>b \<in> set (streams_of s). js_get b ''id'' \<noteq> js_get ?row ''id''"
    using env row_id by (simp add: stream_env_def fresh_ids_def list_all_iff)
  then have "ports_ok (streams_of s @ [?row])"
    using flag row_id by (intro ports_ok_insert [OF ok conjunct2 [OF free] _ _ port]) auto
  then show "ports_ok (streams_of s') \<and> (\<forall>x. r = Inr x \<longrightarrow> True)"
    using run ok by (auto simp: lift_ng_def insertAndFetch_def Let_def streams_of_def set_table_def split: option.splits)
qed

lemma port_data_created:
  assumes "distinct (map fst (obj_of d))"
    and "sanitized env (omit_col ''domain_names'' (if js_get (set_col ''owner_user_id'' u d) ''meta'' = Undef
      then set_col ''meta'' (JObj []) (set_col ''owner_user_id'' u d) else set_col ''owner_user_id'' u d)) = Inr persisted"
  shows "port_data d persisted"
proof (rule port_data_sanitized [OF assms(2)])
  have "port_data d d" using assms(1) by (simp add: port_data_def)
  then show "port_data d (omit_col ''domain_names'' (if js_get (set_col ''owner_user_id'' u d) ''meta'' = Undef
      then set_col ''meta'' (JObj []) (set_col ''owner_user_id'' u d) else set_col ''owner_user_id'' u d))"
    by (auto intro!: port_data_omit port_data_set simp: port_columns_def)
qed

lemma safe_create:
  assumes env: "stream_env env" and request: "distinct (map fst (obj_of request))"
  shows "safe_op (stream_create env request)"
proof -
  have d: "distinct (map fst (obj_of d))"
    if "d = (if js_get request ''certificate_id'' = JStr ''new'' then omit_col ''certificate_id'' request else request)" for d
    using port_data_request [OF request that] by (simp add: port_data_def)
  have quick: "safe_op (se_quick_certificate env q)" for q
    using env by (intro safe_steady) (simp add: stream_env_def)
  have update: "safe_op (stream_update env True (JObj [(''id'', i), (''certificate_id'', c)]))" for i c
    by (rule tri_update [OF env]) simp
  show ?thesis
    unfolding stream_create_def Let_def safe_op_def
    by (intro quiet tri_seq [OF tri_port_free] tri_bind [OF tri_result] tri_fact tri_bind [OF tri_insert [OF env]] port_data_created d refl
        safe_tri safe_split safe_ops keeps quick update)
qed

section \<open>Any sequence of operations\<close>

text \<open>One operation of the service by any caller, with any request and any failure, or anything that leaves the streams alone.\<close>

inductive stream_step :: "service_state \<Rightarrow> service_state \<Rightarrow> bool" where
  create: "stream_env env \<Longrightarrow> distinct (map fst (obj_of q)) \<Longrightarrow> stream_step s (snd (stream_create env q s))"
| update: "stream_env env \<Longrightarrow> distinct (map fst (obj_of q)) \<Longrightarrow> stream_step s (snd (stream_update env skip q s))"
| delete: "stream_step s (snd (stream_delete env q s))"
| enable: "stream_step s (snd (stream_enable env q s))"
| disable: "stream_step s (snd (stream_disable env q s))"
| outside: "streams_of s' = streams_of s \<Longrightarrow> stream_step s s'"

lemma safe_run: "safe_op m \<Longrightarrow> ports_ok (streams_of s) \<Longrightarrow> ports_ok (streams_of (snd (m s)))"
  unfolding safe_op_def tri_def by (cases "m s") auto

interpretation streams: invariant_system stream_step "\<lambda>s. ports_ok (streams_of s)"
proof unfold_locales
  fix s t
  assume "ports_ok (streams_of s)" and "stream_step s t"
  then show "ports_ok (streams_of t)"
    by (induction rule: stream_step.induct [OF \<open>stream_step s t\<close>])
      (auto intro: safe_run [OF safe_create] safe_run [OF tri_update] safe_run [OF safe_delete] safe_run [OF safe_enable]
        safe_run [OF safe_disable])
qed

text \<open>C20. Two streams never listen on one port. Start from streams with different identifiers of which no two live ones of a
  common protocol have overlapping incoming ports; then so are the streams after any sequence of creations, updates,
  deletions, enablings and disablings, by whatever callers, with whatever requests, configuration failures and database
  failures in between, run one after the other. A new identifier is assumed not to be in use, the column defaults to
  forward nothing, and the request of a certificate to leave the streams alone.
\<close>

theorem streams_never_share_ports:
  assumes "stream_step\<^sup>*\<^sup>* s s'" and "ports_ok (streams_of s)"
  shows "ports_ok (streams_of s')"
  using assms by (rule streams.steps_inv)

text \<open>A server without streams, and two requests for overlapping ports.\<close>

definition server1 :: service_env where
  "server1 = (server0 admin engine0)\<lparr>se_fresh_id := (\<lambda>_ rows. 1 + foldr (\<lambda>r n. case js_get r ''id'' of JNum i \<Rightarrow> max i n | _ \<Rightarrow> n) rows 0)\<rparr>"

definition stream_request :: "string \<Rightarrow> jsval" where
  "stream_request port = JObj [(''incoming_port'', JStr port), (''tcp_forwarding'', JBool True), (''meta'', JObj [])]"

lemma server1_env: "stream_env server1"
proof -
  have "js_get r ''id'' \<noteq> JNum (1 + foldr (\<lambda>r n. case js_get r ''id'' of JNum i \<Rightarrow> max i n | _ \<Rightarrow> n) rows 0)" if "r \<in> set rows" for r rows
  proof -
    have "i \<le> foldr (\<lambda>r n. case js_get r ''id'' of JNum i \<Rightarrow> max i n | _ \<Rightarrow> n) rows 0" if "js_get r ''id'' = JNum i" for i
      using \<open>r \<in> set rows\<close> that by (induction rows) (auto split: jsval.split)
    then show ?thesis by fastforce
  qed
  then show ?thesis
    by (simp add: stream_env_def fresh_ids_def server1_def list_all_iff server0_def steady_def stored_def bool_fields_def props_merge_def Let_def)
qed

definition first0 :: "jsval result \<times> service_state" where
  "first0 = stream_create server1 (stream_request ''5-9'') service0"

definition second0 :: "jsval result \<times> service_state" where
  "second0 = stream_create server1 (stream_request ''7'') (snd first0)"

lemma streams_never_share_ports_witness:
  "ports_ok (streams_of (snd second0)) \<and> \<not> isl (fst first0) \<and> isl (fst second0) \<and> length (streams_of (snd second0)) = 1"
proof (intro conjI)
  have "stream_step service0 (snd first0)" "stream_step (snd first0) (snd second0)"
    unfolding first0_def second0_def by (rule stream_step.create [OF server1_env]; simp add: stream_request_def)+
  then have "stream_step\<^sup>*\<^sup>* service0 (snd second0)" by (meson converse_rtranclp_into_rtranclp r_into_rtranclp)
  moreover have "ports_ok (streams_of service0)"
    by (simp add: ports_ok_def streams_of_def service0_def nginx0_def)
  ultimately show "ports_ok (streams_of (snd second0))" by (rule streams_never_share_ports)
  show "\<not> isl (fst first0)" "isl (fst second0)" "length (streams_of (snd second0)) = 1" by code_simp+
qed

end
