(* ===== verification/Host_Rollback.thy ===== *)
theory Host_Rollback
  imports JS_Value Errors
begin

text \<open>
  The compensation of a failed host change, \<open>backend/lib/host-rollback.js\<close>.

  An error is an object with references to the errors it wraps, possibly in a cycle: the model keeps the
  objects in a heap and a thrown error is the address of one. A property that holds no error is \<open>None\<close>; the
  other properties are values. A new object gets the next address.
\<close>

record error_object =
  eo_name :: jsval
  eo_message :: string
  eo_code :: jsval
  eo_errno :: jsval
  eo_sqlState :: jsval
  eo_sqlstate :: jsval
  eo_nativeError :: "nat option"
  eo_cause :: "nat option"
  eo_previous :: "nat option"

type_synonym error_heap = "error_object list"

definition error_at :: "error_heap \<Rightarrow> nat \<Rightarrow> error_object option" where
  "error_at h a = (if a < length h then Some (h ! a) else None)"

definition error_class_names :: "string list" where
  "error_class_names = [''PermissionError'', ''ItemNotFoundError'', ''AuthError'', ''InternalError'',
     ''InternalValidationError'', ''ConfigurationError'', ''CacheError'', ''ValidationError'',
     ''AssertionFailedError'', ''CommandError'', ''UnauthorizedError'']"

definition errorNames :: "string list" where
  "errorNames = ''Error'' # error_class_names @
     [''DBError'', ''ConstraintViolationError'', ''ForeignKeyViolationError'', ''NotNullViolationError'',
      ''UniqueViolationError'', ''CheckViolationError'', ''DataError'']"

definition errorCodes :: "string list" where
  "errorCodes = [''ER_CHECKREAD'', ''ER_LOCK_DEADLOCK'', ''ER_LOCK_WAIT_TIMEOUT'', ''ER_TRUNCATED_WRONG_VALUE'',
     ''ER_TRUNCATED_WRONG_VALUE_FOR_FIELD'', ''ER_BAD_FIELD_ERROR'', ''ER_DATA_TOO_LONG'', ''ER_BAD_NULL_ERROR'',
     ''ER_DUP_ENTRY'', ''ER_NO_REFERENCED_ROW_2'', ''ER_ROW_IS_REFERENCED_2'', ''ER_CHECK_CONSTRAINT_VIOLATED'',
     ''ER_CONSTRAINT_FAILED'', ''ER_PARSE_ERROR'', ''ER_WRONG_VALUE_COUNT_ON_ROW'', ''ER_NO_SUCH_TABLE'',
     ''ER_QUERY_INTERRUPTED'', ''SQLITE_BUSY'', ''SQLITE_LOCKED'', ''SQLITE_CONSTRAINT'', ''SQLITE_CONSTRAINT_CHECK'',
     ''SQLITE_CONSTRAINT_FOREIGNKEY'', ''SQLITE_CONSTRAINT_NOTNULL'', ''SQLITE_CONSTRAINT_PRIMARYKEY'',
     ''SQLITE_CONSTRAINT_UNIQUE'', ''22001'', ''22007'', ''22P02'', ''23502'', ''23503'', ''23505'', ''23514'', ''40001'',
     ''40P01'', ''55P03'', ''ECONNREFUSED'', ''ECONNRESET'', ''ETIMEDOUT'', ''ENOENT'', ''EACCES'', ''EPERM'', ''EIO'']"

definition operations :: "string list" where
  "operations = [''update'', ''delete'', ''enable'', ''disable'', ''restore'']"

definition known :: "string list \<Rightarrow> jsval \<Rightarrow> bool" where
  "known names v \<longleftrightarrow> is_str v \<and> str_of v \<in> set names"

record error_summary =
  su_name :: string
  su_code :: "string option"
  su_errno :: "int option"
  su_sqlState :: "string option"

definition sql_state :: "jsval \<Rightarrow> bool" where
  "sql_state v \<longleftrightarrow> is_str v \<and> length (str_of v) = 5 \<and> list_all (\<lambda>c. is_digit c \<or> is_upper c) (str_of v)"

text \<open>The effect of one error object on the summary; \<open>first\<close> is the thrown error itself.\<close>

definition summarize_one :: "bool \<Rightarrow> error_object \<Rightarrow> error_summary \<Rightarrow> error_summary" where
  "summarize_one first c s =
     (let s1 = (if first \<and> known errorNames (eo_name c) then s\<lparr>su_name := str_of (eo_name c)\<rparr> else s);
          s2 = (if su_code s1 = None \<and> known errorCodes (eo_code c) then s1\<lparr>su_code := Some (str_of (eo_code c))\<rparr> else s1);
          s3 = (if su_errno s2 = None \<and> is_integer (eo_errno c) \<and> 0 \<le> int_of (eo_errno c) \<and> int_of (eo_errno c) \<le> 65535
                then s2\<lparr>su_errno := Some (int_of (eo_errno c))\<rparr> else s2);
          state = nullish (eo_sqlState c) (eo_sqlstate c)
      in if su_sqlState s3 = None \<and> sql_state state then s3\<lparr>su_sqlState := Some (str_of state)\<rparr> else s3)"

text \<open>The loop over the pending errors: an error is read once, and at most eight are read.\<close>

function summarize_loop :: "error_heap \<Rightarrow> nat option list \<Rightarrow> nat list \<Rightarrow> error_summary \<Rightarrow> error_summary" where
  "summarize_loop h pending seen s =
     (case pending of
        [] \<Rightarrow> s
      | p # rest \<Rightarrow>
          if 8 \<le> length seen then s
          else (case p of
              None \<Rightarrow> summarize_loop h rest seen s
            | Some a \<Rightarrow>
                if a \<in> set seen then summarize_loop h rest seen s
                else (case error_at h a of
                    None \<Rightarrow> summarize_loop h rest seen s
                  | Some c \<Rightarrow>
                      summarize_loop h (rest @ [eo_nativeError c, eo_cause c, eo_previous c]) (a # seen)
                        (summarize_one (seen = []) c s))))"
  by pat_completeness auto
termination
  by (relation "measures [\<lambda>(h, pending, seen, s). 8 - length seen, \<lambda>(h, pending, seen, s). length pending]") auto

declare summarize_loop.simps [simp del]

definition summarizeError :: "error_heap \<Rightarrow> nat \<Rightarrow> error_summary" where
  "summarizeError h e = summarize_loop h [Some e] [] \<lparr>su_name = ''Error'', su_code = None, su_errno = None, su_sqlState = None\<rparr>"

section \<open>Compensation\<close>

record diagnostic =
  di_host_id :: "int option"
  di_operation :: string
  di_phase :: string
  di_original :: error_summary
  di_rollback :: error_summary

text \<open>The restoring action and the reload run on the state; each either succeeds or throws, in the heap of errors
  it leaves. The state of the errors and the log are returned with the thrown error's address.\<close>

record rollback_options =
  ro_hostId :: jsval
  ro_operation :: string

definition host_id_field :: "jsval \<Rightarrow> int option" where
  "host_id_field v = (if is_safe_integer v \<and> 0 < int_of v then Some (int_of v) else None)"

definition rollback_failure :: "nat \<Rightarrow> nat \<Rightarrow> error_object" where
  "rollback_failure original rollback =
     \<lparr>eo_name = JStr ''InternalError'',
      eo_message = ''Host change failed; rollback failed and the host state requires verification'',
      eo_code = Undef, eo_errno = Undef, eo_sqlState = Undef, eo_sqlstate = Undef, eo_nativeError = None,
      eo_cause = Some rollback, eo_previous = Some original\<rparr>"

type_synonym 's action = "error_heap \<Rightarrow> 's \<Rightarrow> nat option \<times> error_heap \<times> 's"

definition rollback_steps :: "'s action \<Rightarrow> 's action \<Rightarrow> error_heap \<Rightarrow> 's \<Rightarrow> (string \<times> nat) option \<times> error_heap \<times> 's" where
  "rollback_steps restore reload h s =
     (case restore h s of
        (Some r, h', s') \<Rightarrow> (Some (''restore'', r), h', s')
      | (None, h', s') \<Rightarrow>
          (case reload h' s' of
             (Some r, h'', s'') \<Rightarrow> (Some (''reload'', r), h'', s'')
           | (None, h'', s'') \<Rightarrow> (None, h'', s'')))"

definition rethrowAfterHostRollback ::
  "bool \<Rightarrow> nat \<Rightarrow> rollback_options \<Rightarrow> 's action \<Rightarrow> 's action \<Rightarrow> error_heap \<Rightarrow> 's
     \<Rightarrow> nat \<times> diagnostic list \<times> error_heap \<times> 's" where
  "rethrowAfterHostRollback sink_ok original opts restore reload h s =
     (case rollback_steps restore reload h s of
        (None, h', s') \<Rightarrow> (original, [], h', s')
      | (Some (phase, rollback), h', s') \<Rightarrow>
          (let d = \<lparr>di_host_id = host_id_field (ro_hostId opts),
                    di_operation = (if ro_operation opts \<in> set operations then ro_operation opts else ''unknown''),
                    di_phase = phase, di_original = summarizeError h' original,
                    di_rollback = summarizeError h' rollback\<rparr>
           in (length h', if sink_ok then [d] else [], h' @ [rollback_failure original rollback], s')))"

section \<open>Diagnostics carry identifiers only\<close>

definition summary_ok :: "error_summary \<Rightarrow> bool" where
  "summary_ok s \<longleftrightarrow> su_name s \<in> set errorNames \<and> pred_option (\<lambda>c. c \<in> set errorCodes) (su_code s) \<and>
     pred_option (\<lambda>n. 0 \<le> n \<and> n \<le> 65535) (su_errno s) \<and> pred_option (\<lambda>t. sql_state (JStr t)) (su_sqlState s)"

lemma sql_state_str: "sql_state v \<Longrightarrow> sql_state (JStr (str_of v))"
  by (cases v) (simp_all add: sql_state_def)

lemma summarize_one_ok: "summary_ok s \<Longrightarrow> summary_ok (summarize_one first c s)"
  unfolding summary_ok_def summarize_one_def Let_def known_def
  by (cases s) (simp add: sql_state_str)

lemma summarize_loop_ok: "summary_ok s \<Longrightarrow> summary_ok (summarize_loop h pending seen s)"
proof (induction h pending seen s rule: summarize_loop.induct)
  case (1 h pending seen s)
  then show ?case
    by (subst summarize_loop.simps) (simp split: list.split option.split add: summarize_one_ok)
qed

lemma summarizeError_ok: "summary_ok (summarizeError h e)"
  unfolding summarizeError_def by (rule summarize_loop_ok) (simp add: summary_ok_def errorNames_def)

lemma host_id_ok: "pred_option (\<lambda>n. 0 < n \<and> n \<le> MAX_SAFE_INTEGER) (host_id_field v)"
  by (cases v) (auto simp: host_id_field_def)

definition diagnostic_ok :: "diagnostic \<Rightarrow> bool" where
  "diagnostic_ok d \<longleftrightarrow> pred_option (\<lambda>n. 0 < n \<and> n \<le> MAX_SAFE_INTEGER) (di_host_id d) \<and>
     di_operation d \<in> set (''unknown'' # operations) \<and> di_phase d \<in> {''restore'', ''reload''} \<and>
     summary_ok (di_original d) \<and> summary_ok (di_rollback d)"

text \<open>The phase a rollback ends in, and the state it leaves: the reload only runs after a complete restore.\<close>

lemma rollback_steps_phase:
  "rollback_steps restore reload h s = (Some (phase, r), h', s') \<Longrightarrow>
     (phase = ''restore'' \<and> restore h s = (Some r, h', s')) \<or>
     (phase = ''reload'' \<and> (\<exists>h1 s1. restore h s = (None, h1, s1) \<and> reload h1 s1 = (Some r, h', s')))"
  by (auto simp: rollback_steps_def split: prod.splits option.splits)


text \<open>A unique violation whose cause is a reset connection that refers back to it; restoring the host fails with a
  locked database, described by a free-form message.\<close>

definition wrapped0 :: error_heap where
  "wrapped0 = [\<lparr>eo_name = JStr ''UniqueViolationError'', eo_message = ''insert into user values (secret)'',
       eo_code = JStr ''secret'', eo_errno = JNum 1062, eo_sqlState = Undef, eo_sqlstate = JStr ''23000'',
       eo_nativeError = None, eo_cause = Some 1, eo_previous = None\<rparr>,
     \<lparr>eo_name = JStr ''Secret'', eo_message = ''password'', eo_code = JStr ''ECONNRESET'', eo_errno = JNum (- 104),
       eo_sqlState = Undef, eo_sqlstate = Undef, eo_nativeError = None, eo_cause = None, eo_previous = Some 0\<rparr>]"

definition locked0 :: error_object where
  "locked0 = \<lparr>eo_name = JStr ''Error'', eo_message = ''locked'', eo_code = JStr ''SQLITE_BUSY'', eo_errno = JNum 5,
     eo_sqlState = Undef, eo_sqlstate = Undef, eo_nativeError = None, eo_cause = None, eo_previous = None\<rparr>"


end
