(* ===== verification/Two_Factor.thy ===== *)
theory Two_Factor
  imports Auth_Session
begin

text \<open>
  The second factors of an account, \<open>backend/internal/2fa-service.js\<close> over \<open>backend/models/user-2fa.js\<close> and
  \<open>backend/models/user-2fa-backup-codes.js\<close>: one-time passwords, security keys, passkeys, Duo and recovery codes.

  State. The table of methods, which also holds the open challenges, the table of recovery codes, and the next
  identifier of both. Operations that await between a read and a write are split at the writes that compare before
  they set, so that the steps can be interleaved.

  Parameters, in \<open>factor_env\<close>. \<open>fe_now\<close> is the clock and \<open>fe_later\<close> the clock at the second freshness check of Duo.
  \<open>fe_random\<close> gives the random bytes of the recovery codes in hexadecimal, \<open>fe_uuid\<close>, \<open>fe_nonce\<close> and \<open>fe_state\<close> the other random values.
  \<open>fe_hash\<close>, the salted hash of each call, and \<open>fe_compare\<close> are bcrypt, \<open>fe_totp\<close> the verdict of the one-time password library with the time step it
  matched, \<open>fe_secret\<close>, \<open>fe_uri\<close> and \<open>fe_qr\<close> its set-up functions; \<open>fe_hmac_sha1\<close>, \<open>fe_hmac_sha256\<close>, \<open>fe_base64\<close> and \<open>fe_hex\<close> the
  message authentication codes and decoders; \<open>fe_before\<close> is \<open>localeCompare\<close>; \<open>fe_yubico\<close> the answer of the validation
  server; \<open>fe_url_host\<close> the host of a parsed address; \<open>fe_registration\<close>, \<open>fe_authentication\<close> and the two \<open>fe_verify\<close>
  functions are the WebAuthn library; the \<open>fe_duo\<close> functions the client of Duo. Expiry times are whole milliseconds.
\<close>

section \<open>Tables\<close>

record twofa =
  tf_id :: nat
  tf_user_id :: int
  tf_type :: string
  tf_label :: "string option"
  tf_secret :: "string option"
  tf_public_key :: "string option"
  tf_counter :: int
  tf_transports :: "string option"
  tf_meta :: jsval
  tf_is_verified :: bool
  tf_is_deleted :: bool

record backup_code =
  bc_id :: nat
  bc_user_id :: int
  bc_code_hash :: string
  bc_used_at :: "int option"

record factor_db =
  methods :: "twofa list"
  next_method :: nat
  codes :: "backup_code list"
  next_code :: nat

datatype yubico_answer = Yubico_error string | Yubico_reply int "string list"

record registration =
  rg_id :: string
  rg_public_key :: string
  rg_counter :: int

record passkey_request =
  pr_origin :: "string option"
  pr_protocol :: string
  pr_hostname :: string

record factor_env =
  fe_now :: int
  fe_later :: int
  fe_random :: "nat \<Rightarrow> string"
  fe_uuid :: string
  fe_nonce :: string
  fe_state :: string
  fe_hash :: "nat \<Rightarrow> string \<Rightarrow> string"
  fe_compare :: "string \<Rightarrow> string \<Rightarrow> bool"
  fe_totp :: "string \<Rightarrow> string option \<Rightarrow> bool \<times> int option"
  fe_secret :: string
  fe_uri :: "jsval \<Rightarrow> string"
  fe_qr :: "string \<Rightarrow> string result"
  fe_yubico_client :: string
  fe_yubico_key :: "string option"
  fe_yubico :: "(string \<times> string) list \<Rightarrow> yubico_answer"
  fe_before :: "string \<Rightarrow> string \<Rightarrow> bool"
  fe_hmac_sha1 :: "string \<Rightarrow> string \<Rightarrow> string"
  fe_hmac_sha256 :: "string \<Rightarrow> string"
  fe_to_base64 :: "string \<Rightarrow> string"
  fe_base64 :: "string \<Rightarrow> string"
  fe_hex :: "string \<Rightarrow> string"
  fe_rp_id :: "string option"
  fe_rp_name :: string
  fe_origin :: "string option"
  fe_url_host :: "string \<Rightarrow> string option"
  fe_registration :: "jsval \<Rightarrow> jsval result"
  fe_authentication :: "jsval \<Rightarrow> jsval result"
  fe_verify_registration :: "jsval \<Rightarrow> (bool \<times> registration option) result"
  fe_verify_authentication :: "jsval \<Rightarrow> (bool \<times> int) result"
  fe_duo_client :: "jsval \<Rightarrow> err option"
  fe_duo_health :: "jsval \<Rightarrow> err option"
  fe_duo_url :: "jsval \<Rightarrow> string \<Rightarrow> string \<Rightarrow> string result"
  fe_duo_exchange :: "jsval \<Rightarrow> string \<Rightarrow> string \<Rightarrow> jsval result"

text \<open>Inserts with the column defaults of the table and the hook of the model.\<close>

definition new_method :: "int \<Rightarrow> string \<Rightarrow> twofa" where
  "new_method userId t = \<lparr>tf_id = 0, tf_user_id = userId, tf_type = t, tf_label = None, tf_secret = None, tf_public_key = None,
     tf_counter = 0, tf_transports = None, tf_meta = JObj [], tf_is_verified = False, tf_is_deleted = False\<rparr>"

definition insert_method :: "twofa \<Rightarrow> factor_db \<Rightarrow> twofa \<times> factor_db" where
  "insert_method row db =
     (let r = row\<lparr>tf_id := next_method db\<rparr>
      in (r, db\<lparr>methods := methods db @ [r], next_method := Suc (next_method db)\<rparr>))"

definition method_of :: "int \<Rightarrow> string \<Rightarrow> twofa \<Rightarrow> bool" where
  "method_of userId t r \<longleftrightarrow> tf_user_id r = userId \<and> tf_type r = t"

definition usable :: "int \<Rightarrow> string \<Rightarrow> twofa \<Rightarrow> bool" where
  "usable userId t r \<longleftrightarrow> method_of userId t r \<and> tf_is_verified r \<and> \<not> tf_is_deleted r"

definition getActiveForUser :: "int \<Rightarrow> factor_db \<Rightarrow> twofa list" where
  "getActiveForUser userId db = filter (\<lambda>r. tf_user_id r = userId \<and> tf_is_verified r \<and> \<not> tf_is_deleted r) (methods db)"

definition hasActive2FA :: "int \<Rightarrow> factor_db \<Rightarrow> bool" where
  "hasActive2FA userId db \<longleftrightarrow>
     0 < count_where (\<lambda>r. tf_user_id r = userId \<and> tf_is_verified r \<and> \<not> tf_is_deleted r) (methods db)"

section \<open>Recovery codes\<close>

definition BACKUP_CODE_COUNT :: nat where
  "BACKUP_CODE_COUNT = 8"

definition BACKUP_CODE_LENGTH :: nat where
  "BACKUP_CODE_LENGTH = 10"

definition generateBackupCode :: "factor_env \<Rightarrow> nat \<Rightarrow> string" where
  "generateBackupCode env i = js_upper (take BACKUP_CODE_LENGTH (fe_random env i))"

fun insert_codes :: "int \<Rightarrow> string list \<Rightarrow> factor_db \<Rightarrow> factor_db" where
  "insert_codes userId [] db = db"
| "insert_codes userId (h # hashes) db =
     insert_codes userId hashes
       (db\<lparr>codes := codes db @ [\<lparr>bc_id = next_code db, bc_user_id = userId, bc_code_hash = h, bc_used_at = None\<rparr>],
          next_code := Suc (next_code db)\<rparr>)"

definition regenerateBackupCodes :: "factor_env \<Rightarrow> int \<Rightarrow> factor_db \<Rightarrow> string list \<times> factor_db" where
  "regenerateBackupCodes env userId db =
     (let cs = map (generateBackupCode env) [0..<BACKUP_CODE_COUNT]
      in (cs, insert_codes userId (map2 (fe_hash env) [0..<BACKUP_CODE_COUNT] cs)
                (db\<lparr>codes := delete_where (\<lambda>c. bc_user_id c = userId) (codes db)\<rparr>)))"

definition unused_codes :: "int \<Rightarrow> factor_db \<Rightarrow> backup_code list" where
  "unused_codes userId db = filter (\<lambda>c. bc_user_id c = userId \<and> bc_used_at c = None) (codes db)"

definition getRemainingBackupCodeCount :: "int \<Rightarrow> factor_db \<Rightarrow> nat" where
  "getRemainingBackupCodeCount userId db = length (unused_codes userId db)"

definition ensureBackupCodesExist :: "factor_env \<Rightarrow> int \<Rightarrow> factor_db \<Rightarrow> string list option \<times> factor_db" where
  "ensureBackupCodesExist env userId db =
     (if getRemainingBackupCodeCount userId db = 0
      then (case regenerateBackupCodes env userId db of (cs, db') \<Rightarrow> (Some cs, db'))
      else (None, db))"

text \<open>The write that uses a code up, for a row that was read before.\<close>

definition consume_code :: "factor_env \<Rightarrow> int \<Rightarrow> backup_code \<Rightarrow> factor_db \<Rightarrow> bool \<times> factor_db" where
  "consume_code env userId c db =
     (let q = (\<lambda>r. bc_id r = bc_id c \<and> bc_user_id r = userId \<and> bc_used_at r = None)
      in (count_where q (codes db) = 1,
          db\<lparr>codes := patch_where q (\<lambda>r. r\<lparr>bc_used_at := Some (fe_now env)\<rparr>) (codes db)\<rparr>))"

definition matching_code :: "factor_env \<Rightarrow> string \<Rightarrow> backup_code list \<Rightarrow> backup_code option" where
  "matching_code env plain unused = List.find (\<lambda>c. fe_compare env plain (bc_code_hash c)) unused"

definition findAndConsume :: "factor_env \<Rightarrow> int \<Rightarrow> string \<Rightarrow> factor_db \<Rightarrow> backup_code option \<times> factor_db" where
  "findAndConsume env userId plain db =
     (case matching_code env plain (unused_codes userId db) of
        None \<Rightarrow> (None, db)
      | Some c \<Rightarrow> (case consume_code env userId c db of (ok, db') \<Rightarrow> (if ok then Some c else None, db')))"

definition clean_code :: "string \<Rightarrow> string" where
  "clean_code input = filter (\<lambda>c. \<not> is_ws c \<and> c \<noteq> CHR ''-'') (js_upper input)"

definition verifyBackupCode :: "factor_env \<Rightarrow> int \<Rightarrow> string \<Rightarrow> factor_db \<Rightarrow> bool \<times> factor_db" where
  "verifyBackupCode env userId input db =
     (case findAndConsume env userId (clean_code input) db of (r, db') \<Rightarrow> (r \<noteq> None, db'))"

section \<open>One-time passwords\<close>

definition setupTotp :: "factor_env \<Rightarrow> int \<Rightarrow> string \<Rightarrow> factor_db \<Rightarrow> (string \<times> string \<times> string) result \<times> factor_db" where
  "setupTotp env userId userEmail db =
     (let secret = fe_secret env;
          otpauthUrl = fe_uri env (JObj [(''secret'', JStr secret), (''issuer'', JStr ''ShieldPM''), (''label'', JStr userEmail),
            (''algorithm'', JStr ''sha1''), (''digits'', JNum 6), (''period'', JNum 30), (''strategy'', JStr ''totp'')])
      in case fe_qr env otpauthUrl of
           Inl e \<Rightarrow> (Inl e, db)
         | Inr qr \<Rightarrow>
             (let db1 = db\<lparr>methods := delete_where (\<lambda>r. method_of userId ''totp'' r \<and> \<not> tf_is_verified r \<and> \<not> tf_is_deleted r) (methods db)\<rparr>;
                  row = (new_method userId ''totp'')\<lparr>tf_label := Some ''Authenticator App'', tf_secret := Some secret\<rparr>
              in (Inr (secret, otpauthUrl, qr), snd (insert_method row db1))))"

definition verifyAndEnableTotp :: "factor_env \<Rightarrow> int \<Rightarrow> string \<Rightarrow> factor_db \<Rightarrow> string list result \<times> factor_db" where
  "verifyAndEnableTotp env userId input db =
     (case List.find (\<lambda>r. method_of userId ''totp'' r \<and> \<not> tf_is_verified r \<and> \<not> tf_is_deleted r) (methods db) of
        None \<Rightarrow> (Inl (ValidationError ''No pending TOTP setup found. Please restart setup.''), db)
      | Some record \<Rightarrow>
          if \<not> fst (fe_totp env input (tf_secret record)) then (Inl (ValidationError ''Invalid TOTP code''), db)
          else (case regenerateBackupCodes env userId
                   (db\<lparr>methods := patch_where (\<lambda>r. tf_id r = tf_id record) (\<lambda>r. r\<lparr>tf_is_verified := True\<rparr>) (methods db)\<rparr>) of
                  (cs, db') \<Rightarrow> (Inr cs, db')))"

text \<open>One turn of the loop of \<open>verifyTotp\<close>, for a row that was read before: the compare-and-swap of the time step.\<close>

definition totp_attempt :: "factor_env \<Rightarrow> int \<Rightarrow> string \<Rightarrow> twofa \<Rightarrow> factor_db \<Rightarrow> bool \<times> factor_db" where
  "totp_attempt env userId input record db =
     (case fe_totp env input (tf_secret record) of
        (True, Some timeStep) \<Rightarrow>
          if timeStep \<le> tf_counter record then (False, db)
          else
            (let q = (\<lambda>r. tf_id r = tf_id record \<and> tf_user_id r = userId \<and> tf_counter r = tf_counter record \<and>
                       tf_is_verified r \<and> \<not> tf_is_deleted r)
             in (count_where q (methods db) = 1,
                 db\<lparr>methods := patch_where q (\<lambda>r. r\<lparr>tf_counter := timeStep\<rparr>) (methods db)\<rparr>))
      | _ \<Rightarrow> (False, db))"

fun totp_loop :: "factor_env \<Rightarrow> int \<Rightarrow> string \<Rightarrow> twofa list \<Rightarrow> factor_db \<Rightarrow> bool \<times> factor_db" where
  "totp_loop env userId input [] db = (False, db)"
| "totp_loop env userId input (r # rs) db =
     (case totp_attempt env userId input r db of
        (True, db') \<Rightarrow> (True, db')
      | (False, db') \<Rightarrow> totp_loop env userId input rs db')"

definition verifyTotp :: "factor_env \<Rightarrow> int \<Rightarrow> string \<Rightarrow> factor_db \<Rightarrow> bool \<times> factor_db" where
  "verifyTotp env userId input db = totp_loop env userId input (filter (usable userId ''totp'') (methods db)) db"

section \<open>Security keys\<close>

fun insert_before :: "(string \<Rightarrow> string \<Rightarrow> bool) \<Rightarrow> string \<times> string \<Rightarrow> (string \<times> string) list \<Rightarrow> (string \<times> string) list" where
  "insert_before le p [] = [p]"
| "insert_before le p (q # qs) = (if le (fst p) (fst q) then p # q # qs else q # insert_before le p qs)"

definition sort_pairs :: "(string \<Rightarrow> string \<Rightarrow> bool) \<Rightarrow> (string \<times> string) list \<Rightarrow> (string \<times> string) list" where
  "sort_pairs le ps = foldr (insert_before le) ps []"

definition yubico_sign :: "factor_env \<Rightarrow> string \<Rightarrow> (string \<times> string) list \<Rightarrow> string" where
  "yubico_sign env key ps =
     fe_hmac_sha1 env key (js_join ''&'' (map (\<lambda>p. fst p @ ''='' @ snd p) (sort_pairs (fe_before env) (filter (\<lambda>p. fst p \<noteq> ''h'') ps))))"

text \<open>The lines of an answer; a line without a key or with a key seen before makes it unexpected.\<close>

definition key_value :: "string \<Rightarrow> (string \<times> string) option" where
  "key_value line = (let k = takeWhile (\<lambda>c. c \<noteq> CHR ''='') line
     in if k = [] \<or> length k = length line then None else Some (k, drop (Suc (length k)) line))"

fun yubico_values :: "string list \<Rightarrow> (string \<times> string) list \<Rightarrow> (string \<times> string) list option" where
  "yubico_values [] vs = Some vs"
| "yubico_values (line # ls) vs =
     (case key_value line of
        None \<Rightarrow> None
      | Some (k, v) \<Rightarrow> if k \<in> fst ` set vs then None else yubico_values ls (vs @ [(k, v)]))"

definition strip_cr :: "string \<Rightarrow> string" where
  "strip_cr line = (if line \<noteq> [] \<and> last line = CHR 13 then butlast line else line)"

text \<open>\<open>split(/\r?\n/)\<close>: every line but the last loses one carriage return.\<close>

definition text_lines :: "string \<Rightarrow> string list" where
  "text_lines body = (let ls = split_char (CHR 10) body in map strip_cr (butlast ls) @ [last ls])"

definition yubico_check :: "factor_env \<Rightarrow> string \<Rightarrow> string \<Rightarrow> unit result" where
  "yubico_check env otp body =
     (case yubico_values (text_lines (js_trim body)) [] of
        None \<Rightarrow> Inl (ValidationError ''Unexpected Yubico API response'')
      | Some vs \<Rightarrow>
          if map_of vs ''otp'' \<noteq> Some otp \<or> map_of vs ''nonce'' \<noteq> Some (fe_nonce env)
          then Inl (ValidationError ''Yubico API response does not match the request'')
          else if (case fe_yubico_key env of None \<Rightarrow> False
                   | Some key \<Rightarrow> fe_base64 env (case map_of vs ''h'' of None \<Rightarrow> [] | Some h \<Rightarrow> h) \<noteq> yubico_sign env key vs)
          then Inl (ValidationError ''Invalid Yubico API response signature'')
          else if map_of vs ''status'' \<noteq> Some ''OK'' then Inl (ValidationError ''YubiKey validation failed'')
          else Inr ())"

text \<open>The body of the answer as it arrives: at most 16384 bytes.\<close>

fun yubico_body :: "string list \<Rightarrow> string \<Rightarrow> string option" where
  "yubico_body [] body = Some body"
| "yubico_body (c # cs) body = (if 16384 < utf8_length (body @ c) then None else yubico_body cs (body @ c))"

definition yubico_request :: "factor_env \<Rightarrow> string \<Rightarrow> (string \<times> string) list" where
  "yubico_request env otp =
     (let ps = [(''id'', fe_yubico_client env), (''nonce'', fe_nonce env), (''otp'', otp), (''sl'', ''secure''), (''timestamp'', ''1'')]
      in case fe_yubico_key env of None \<Rightarrow> ps | Some key \<Rightarrow> ps @ [(''h'', fe_to_base64 env (yubico_sign env key ps))])"

definition validateYubikeyOtp :: "factor_env \<Rightarrow> string \<Rightarrow> string result" where
  "validateYubikeyOtp env otp =
     (if length otp < 32 then Inl (ValidationError ''Invalid YubiKey OTP format'')
      else (case fe_yubico env (yubico_request env otp) of
              Yubico_error m \<Rightarrow> Inl (InternalError (''Yubico API request failed: '' @ m))
            | Yubico_reply status chunks \<Rightarrow>
                (case yubico_body chunks [] of
                   None \<Rightarrow> Inl (InternalError ''Yubico API request failed: Yubico API response is too large'')
                 | Some body \<Rightarrow>
                     if status \<noteq> 200 then Inl (ValidationError ''Yubico API request was unsuccessful'')
                     else rbind (yubico_check env otp body) (\<lambda>_. Inr (take 12 otp)))))"

definition addYubikey ::
  "factor_env \<Rightarrow> int \<Rightarrow> string \<Rightarrow> string option \<Rightarrow> factor_db \<Rightarrow> (twofa \<times> string list option) result \<times> factor_db" where
  "addYubikey env userId otp label db =
     (case validateYubikeyOtp env otp of
        Inl e \<Rightarrow> (Inl e, db)
      | Inr deviceId \<Rightarrow>
          if List.find (\<lambda>r. method_of userId ''yubikey'' r \<and> tf_secret r = Some deviceId \<and> \<not> tf_is_deleted r) (methods db) \<noteq> None
          then (Inl (ValidationError ''This YubiKey is already registered''), db)
          else (case insert_method ((new_method userId ''yubikey'')\<lparr>tf_label := Some (case label of None \<Rightarrow> ''YubiKey'' | Some l \<Rightarrow> l),
                       tf_secret := Some deviceId, tf_is_verified := True\<rparr>) db of
                  (record, db1) \<Rightarrow> (case ensureBackupCodesExist env userId db1 of (cs, db2) \<Rightarrow> (Inr (record, cs), db2))))"

definition verifyYubikey :: "factor_env \<Rightarrow> int \<Rightarrow> string \<Rightarrow> factor_db \<Rightarrow> bool result \<times> factor_db" where
  "verifyYubikey env userId otp db =
     (case validateYubikeyOtp env otp of
        Inl e \<Rightarrow> (Inl e, db)
      | Inr deviceId \<Rightarrow> (Inr (List.find (\<lambda>r. usable userId ''yubikey'' r \<and> tf_secret r = Some deviceId) (methods db) \<noteq> None), db))"

end
