(* ===== verification/Factor_Challenges.thy ===== *)
theory Factor_Challenges
  imports Two_Factor
begin

text \<open>
  The second factors with a challenge, \<open>backend/internal/2fa-service.js\<close>: registration and authentication with a passkey, the
  redirect to Duo, the removal of a method, and the check of the login. A challenge is a row of the table of methods that is never
  verified; it is consumed by deleting it.
\<close>

section \<open>Challenges\<close>

definition PASSKEY_CHALLENGE_TTL_MS :: int where
  "PASSKEY_CHALLENGE_TTL_MS = 5 * 60 * 1000"

definition requireFreshChallenge :: "int \<Rightarrow> string \<Rightarrow> twofa option \<Rightarrow> twofa result" where
  "requireFreshChallenge t0 label record =
     (case record of
        None \<Rightarrow> Inl (ValidationError (label @ '' challenge not found or expired''))
      | Some r \<Rightarrow>
          (case js_get (tf_meta r) ''expiresAt'' of
             JNum t \<Rightarrow>
               if t \<le> t0 then Inl (ValidationError (label @ '' challenge not found or expired''))
               else if \<not> truthy (js_get (tf_meta r) ''challenge'') then Inl (ValidationError ''Invalid challenge record'')
               else Inr r
           | _ \<Rightarrow> Inl (ValidationError (label @ '' challenge not found or expired''))))"

definition consumeChallenge :: "string \<Rightarrow> twofa \<Rightarrow> factor_db \<Rightarrow> unit result \<times> factor_db" where
  "consumeChallenge label record db =
     (let q = (\<lambda>r. tf_id r = tf_id record \<and> \<not> tf_is_verified r)
      in (if count_where q (methods db) \<noteq> 1 then Inl (ValidationError (label @ '' challenge already used or expired'')) else Inr (),
          db\<lparr>methods := delete_where q (methods db)\<rparr>))"

text \<open>A new challenge replaces the open challenges of its kind.\<close>

definition store_challenge :: "int \<Rightarrow> string \<Rightarrow> string \<Rightarrow> jsval \<Rightarrow> factor_db \<Rightarrow> factor_db" where
  "store_challenge userId t secret meta db =
     snd (insert_method ((new_method userId t)\<lparr>tf_secret := Some secret, tf_meta := meta\<rparr>)
       (db\<lparr>methods := delete_where (\<lambda>r. method_of userId t r \<and> \<not> tf_is_verified r) (methods db)\<rparr>))"

section \<open>Passkeys\<close>

definition getPasskeyContext :: "factor_env \<Rightarrow> passkey_request \<Rightarrow> string \<times> string" where
  "getPasskeyContext env req =
     (let own = pr_protocol req @ ''://'' @ pr_hostname req;
          origin = (case fe_origin env of Some x \<Rightarrow> x | None \<Rightarrow> (case pr_origin req of Some y \<Rightarrow> (if y = [] then own else y) | None \<Rightarrow> own));
          rpID = (case fe_rp_id env of Some x \<Rightarrow> x
                  | None \<Rightarrow> (case fe_url_host env origin of Some h \<Rightarrow> h
                             | None \<Rightarrow> if pr_hostname req = [] then ''localhost'' else pr_hostname req))
      in (rpID, origin))"

definition transport_list :: "twofa \<Rightarrow> jsval" where
  "transport_list pk = JArr (case tf_transports pk of None \<Rightarrow> [] | Some t \<Rightarrow> if t = [] then [] else map JStr (split_char (CHR '','') t))"

definition str_or_null :: "string option \<Rightarrow> jsval" where
  "str_or_null v = (case v of None \<Rightarrow> Null | Some s \<Rightarrow> JStr s)"

definition credential_list :: "twofa list \<Rightarrow> jsval" where
  "credential_list pks = JArr (map (\<lambda>pk. JObj [(''id'', str_or_null (tf_secret pk)), (''type'', JStr ''public-key''),
     (''transports'', transport_list pk)]) pks)"

definition challenge_meta :: "factor_env \<Rightarrow> jsval \<Rightarrow> jsval" where
  "challenge_meta env options =
     JObj [(''challenge'', js_get options ''challenge''), (''expiresAt'', JNum (fe_now env + PASSKEY_CHALLENGE_TTL_MS))]"

definition beginPasskeyRegistration ::
  "factor_env \<Rightarrow> session_user list \<Rightarrow> int \<Rightarrow> string \<Rightarrow> passkey_request \<Rightarrow> factor_db \<Rightarrow> (jsval \<times> string) result \<times> factor_db" where
  "beginPasskeyRegistration env us userId userEmail req db =
     (let existing = filter (\<lambda>r. method_of userId ''passkey'' r \<and> \<not> tf_is_deleted r) (methods db);
          name = (case List.find (\<lambda>u. su_id u = userId) us of None \<Rightarrow> userEmail | Some u \<Rightarrow> if su_name u = [] then userEmail else su_name u)
      in case fe_registration env (JObj [(''rpName'', JStr (fe_rp_name env)), (''rpID'', JStr (fst (getPasskeyContext env req))), (''userID'', JStr (int_str userId)),
             (''userName'', JStr userEmail), (''userDisplayName'', JStr name), (''attestationType'', JStr ''none''),
             (''excludeCredentials'', credential_list existing),
             (''authenticatorSelection'', JObj [(''residentKey'', JStr ''preferred''), (''userVerification'', JStr ''preferred'')])]) of
           Inl e \<Rightarrow> (Inl e, db)
         | Inr options \<Rightarrow>
             (Inr (options, fe_uuid env), store_challenge userId ''passkey_challenge'' (fe_uuid env) (challenge_meta env options) db))"

definition find_challenge :: "int \<Rightarrow> string \<Rightarrow> string \<Rightarrow> factor_db \<Rightarrow> twofa option" where
  "find_challenge userId t secret db =
     List.find (\<lambda>r. method_of userId t r \<and> tf_secret r = Some secret \<and> \<not> tf_is_verified r) (methods db)"

definition registration_transports :: "jsval \<Rightarrow> string option" where
  "registration_transports response =
     (case js_get (js_get response ''response'') ''transports'' of
        JArr ts \<Rightarrow> (let s = js_join '','' (map js_string ts) in if s = [] then None else Some s)
      | _ \<Rightarrow> None)"

text \<open>What precedes the first write: the challenge and the verified credential.\<close>

definition registration_check ::
  "factor_env \<Rightarrow> int \<Rightarrow> string \<Rightarrow> jsval \<Rightarrow> passkey_request \<Rightarrow> factor_db \<Rightarrow> (twofa \<times> registration) result" where
  "registration_check env userId challengeId response req db =
     (case find_challenge userId ''passkey_challenge'' challengeId db of
        None \<Rightarrow> Inl (ValidationError ''Passkey registration challenge not found or expired'')
      | Some c \<Rightarrow>
          rbind (requireFreshChallenge (fe_now env) ''Passkey'' (Some c)) (\<lambda>_.
          rbind (fe_verify_registration env (JObj [(''response'', response), (''expectedChallenge'', js_get (tf_meta c) ''challenge''),
              (''expectedOrigin'', JStr (snd (getPasskeyContext env req))), (''expectedRPID'', JStr (fst (getPasskeyContext env req)))])) (\<lambda>v.
            case v of
              (True, Some credential) \<Rightarrow> Inr (c, credential)
            | _ \<Rightarrow> Inl (ValidationError ''Passkey registration verification failed''))))"

definition registration_commit ::
  "factor_env \<Rightarrow> int \<Rightarrow> jsval \<Rightarrow> string option \<Rightarrow> twofa \<Rightarrow> registration \<Rightarrow> factor_db \<Rightarrow> string list option result \<times> factor_db" where
  "registration_commit env userId response label c credential db =
     (case consumeChallenge ''Passkey'' c db of
        (Inl e, db1) \<Rightarrow> (Inl e, db1)
      | (Inr _, db1) \<Rightarrow>
          (case insert_method ((new_method userId ''passkey'')\<lparr>tf_label := Some (case label of None \<Rightarrow> ''Passkey'' | Some l \<Rightarrow> l),
                 tf_secret := Some (rg_id credential), tf_public_key := Some (rg_public_key credential),
                 tf_counter := rg_counter credential, tf_transports := registration_transports response, tf_is_verified := True\<rparr>) db1 of
             (_, db2) \<Rightarrow> (case ensureBackupCodesExist env userId db2 of (cs, db3) \<Rightarrow> (Inr cs, db3))))"

definition completePasskeyRegistration ::
  "factor_env \<Rightarrow> int \<Rightarrow> string \<Rightarrow> jsval \<Rightarrow> passkey_request \<Rightarrow> string option \<Rightarrow> factor_db \<Rightarrow> string list option result \<times> factor_db" where
  "completePasskeyRegistration env userId challengeId response req label db =
     (case registration_check env userId challengeId response req db of
        Inl e \<Rightarrow> (Inl e, db)
      | Inr (c, credential) \<Rightarrow> registration_commit env userId response label c credential db)"

definition beginPasskeyAuthentication ::
  "factor_env \<Rightarrow> int \<Rightarrow> passkey_request \<Rightarrow> factor_db \<Rightarrow> (jsval \<times> string) result \<times> factor_db" where
  "beginPasskeyAuthentication env userId req db =
     (let passkeys = filter (usable userId ''passkey'') (methods db)
      in if passkeys = [] then (Inl (ValidationError ''No passkeys registered for this user''), db)
         else (case fe_authentication env (JObj [(''rpID'', JStr (fst (getPasskeyContext env req))),
                   (''allowCredentials'', credential_list passkeys), (''userVerification'', JStr ''preferred'')]) of
                 Inl e \<Rightarrow> (Inl e, db)
               | Inr options \<Rightarrow>
                   (Inr (options, fe_uuid env), store_challenge userId ''passkey_auth_challenge'' (fe_uuid env) (challenge_meta env options) db)))"

text \<open>What precedes the first write: the challenge, the passkey and its new counter.\<close>

definition authentication_check ::
  "factor_env \<Rightarrow> int \<Rightarrow> string \<Rightarrow> jsval \<Rightarrow> passkey_request \<Rightarrow> factor_db \<Rightarrow> (twofa \<times> twofa \<times> int) result" where
  "authentication_check env userId challengeId response req db =
     (case find_challenge userId ''passkey_auth_challenge'' challengeId db of
        None \<Rightarrow> Inl (ValidationError ''Passkey authentication challenge not found or expired'')
      | Some c \<Rightarrow>
          rbind (requireFreshChallenge (fe_now env) ''Passkey'' (Some c)) (\<lambda>_.
          case List.find (\<lambda>r. usable userId ''passkey'' r \<and> str_or_null (tf_secret r) = js_get response ''id'' \<and> tf_secret r \<noteq> None) (methods db) of
            None \<Rightarrow> Inl (ValidationError ''Passkey not found'')
          | Some pk \<Rightarrow>
              rbind (fe_verify_authentication env (JObj [(''response'', response), (''expectedChallenge'', js_get (tf_meta c) ''challenge''),
                  (''expectedOrigin'', JStr (snd (getPasskeyContext env req))), (''expectedRPID'', JStr (fst (getPasskeyContext env req))),
                  (''credential'', JObj [(''id'', str_or_null (tf_secret pk)), (''publicKey'', str_or_null (tf_public_key pk)),
                     (''counter'', JNum (tf_counter pk)), (''transports'', transport_list pk)])])) (\<lambda>v.
                if \<not> fst v then Inl (ValidationError ''Passkey authentication failed'') else Inr (c, pk, snd v))))"

definition advance_counter :: "int \<Rightarrow> twofa \<Rightarrow> int \<Rightarrow> factor_db \<Rightarrow> bool result \<times> factor_db" where
  "advance_counter userId pk newCounter db =
     (let q = (\<lambda>r. tf_id r = tf_id pk \<and> tf_user_id r = userId \<and> tf_counter r = tf_counter pk \<and> tf_is_verified r \<and> \<not> tf_is_deleted r)
      in (if count_where q (methods db) \<noteq> 1 then Inl (ValidationError ''Passkey changed during authentication. Please retry.'') else Inr True,
          db\<lparr>methods := patch_where q (\<lambda>r. r\<lparr>tf_counter := newCounter\<rparr>) (methods db)\<rparr>))"

definition completePasskeyAuthentication ::
  "factor_env \<Rightarrow> int \<Rightarrow> string \<Rightarrow> jsval \<Rightarrow> passkey_request \<Rightarrow> factor_db \<Rightarrow> bool result \<times> factor_db" where
  "completePasskeyAuthentication env userId challengeId response req db =
     (case authentication_check env userId challengeId response req db of
        Inl e \<Rightarrow> (Inl e, db)
      | Inr (c, pk, newCounter) \<Rightarrow>
          (case consumeChallenge ''Passkey'' c db of
             (Inl e, db1) \<Rightarrow> (Inl e, db1)
           | (Inr _, db1) \<Rightarrow> advance_counter userId pk newCounter db1))"

section \<open>Duo\<close>

definition createDuoClient :: "factor_env \<Rightarrow> jsval \<Rightarrow> jsval result" where
  "createDuoClient env duoConfig =
     (let c = JObj (map (\<lambda>k. (k, js_get duoConfig k)) [''clientId'', ''clientSecret'', ''apiHost'', ''redirectUrl''])
      in case fe_duo_client env c of
           Some e \<Rightarrow> Inl (ValidationError (''Invalid Duo configuration: '' @ err_message e))
         | None \<Rightarrow> Inr c)"

definition setupDuo :: "factor_env \<Rightarrow> int \<Rightarrow> jsval \<Rightarrow> factor_db \<Rightarrow> (twofa \<times> string list option) result \<times> factor_db" where
  "setupDuo env userId config db =
     (if \<not> list_all (\<lambda>k. truthy (js_get config k)) [''clientId'', ''clientSecret'', ''apiHost'', ''redirectUrl'']
      then (Inl (ValidationError ''All Duo configuration fields are required''), db)
      else (case createDuoClient env config of
              Inl e \<Rightarrow> (Inl e, db)
            | Inr client \<Rightarrow>
                (case fe_duo_health env client of
                   Some e \<Rightarrow> (Inl e, db)
                 | None \<Rightarrow>
                     (case insert_method ((new_method userId ''duo'')\<lparr>tf_label := Some ''Duo Security'', tf_meta := client, tf_is_verified := True\<rparr>)
                            (db\<lparr>methods := patch_where (\<lambda>r. method_of userId ''duo'' r \<and> \<not> tf_is_deleted r)
                               (\<lambda>r. r\<lparr>tf_is_deleted := True\<rparr>) (methods db)\<rparr>) of
                        (record, db1) \<Rightarrow> (case ensureBackupCodesExist env userId db1 of (cs, db2) \<Rightarrow> (Inr (record, cs), db2))))))"

definition getDuoChallengeTag :: "factor_env \<Rightarrow> string \<Rightarrow> string \<Rightarrow> string" where
  "getDuoChallengeTag env purpose v = fe_hmac_sha256 env (''shieldpm:duo:'' @ purpose @ '':v1:'' @ v)"

definition browser_token_ok :: "jsval \<Rightarrow> bool" where
  "browser_token_ok v \<longleftrightarrow> (case v of
     JStr s \<Rightarrow> length s = 43 \<and> list_all (\<lambda>c. is_alnum c \<or> c = CHR ''_'' \<or> c = CHR ''-'') s | _ \<Rightarrow> False)"

definition beginDuoAuthentication ::
  "factor_env \<Rightarrow> int \<Rightarrow> string \<Rightarrow> jsval \<Rightarrow> int \<Rightarrow> factor_db \<Rightarrow> string result \<times> factor_db" where
  "beginDuoAuthentication env userId userEmail browserToken expiresAt db =
     (if expiresAt \<le> fe_now env \<or> fe_now env + 5 * 60 * 1000 < expiresAt
      then (Inl (ValidationError ''Pending Duo login is invalid or expired''), db)
      else if \<not> browser_token_ok browserToken then (Inl (ValidationError ''Invalid Duo browser binding''), db)
      else (case List.find (usable userId ''duo'') (methods db) of
              None \<Rightarrow> (Inl (ValidationError ''Duo Security is not configured for this user''), db)
            | Some duo \<Rightarrow>
                (case rbind (createDuoClient env (tf_meta duo)) (\<lambda>client. fe_duo_url env client userEmail (fe_state env)) of
                   Inl e \<Rightarrow> (Inl e, db)
                 | Inr authUrl \<Rightarrow>
                     (Inr authUrl, store_challenge userId ''duo_auth_challenge'' (getDuoChallengeTag env ''binding'' (str_of browserToken))
                        (JObj [(''challenge'', JStr (getDuoChallengeTag env ''state'' (fe_state env))), (''expiresAt'', JNum expiresAt)]) db))))"

definition active_user :: "int \<Rightarrow> session_user list \<Rightarrow> session_user option" where
  "active_user userId us = List.find (\<lambda>u. su_id u = userId \<and> \<not> su_is_deleted u \<and> \<not> su_is_disabled u) us"

text \<open>What precedes the first write: the challenge of the browser, its user and the client of Duo.\<close>

definition duo_check ::
  "factor_env \<Rightarrow> session_user list \<Rightarrow> jsval \<Rightarrow> jsval \<Rightarrow> jsval \<Rightarrow> factor_db \<Rightarrow> (twofa \<times> session_user \<times> jsval) result" where
  "duo_check env us browserToken duoCode state db =
     (if \<not> browser_token_ok browserToken then Inl (ValidationError ''Duo login cookie is missing or invalid'')
      else if \<not> is_str state \<or> \<not> truthy state \<or> \<not> is_str duoCode \<or> \<not> truthy duoCode
      then Inl (ValidationError ''Duo login code and state are required'')
      else
        rbind (requireFreshChallenge (fe_now env) ''Duo'' (List.find (\<lambda>r. tf_type r = ''duo_auth_challenge'' \<and>
            tf_secret r = Some (getDuoChallengeTag env ''binding'' (str_of browserToken)) \<and> \<not> tf_is_verified r \<and> \<not> tf_is_deleted r) (methods db))) (\<lambda>c.
          if fe_hex env (js_string (js_get (tf_meta c) ''challenge'')) \<noteq> fe_hex env (getDuoChallengeTag env ''state'' (str_of state))
          then Inl (ValidationError ''Duo login state does not match'')
          else (case active_user (tf_user_id c) us of
                  None \<Rightarrow> Inl (ValidationError ''Duo login user is no longer available'')
                | Some user \<Rightarrow>
                    (case List.find (usable (tf_user_id c) ''duo'') (methods db) of
                       None \<Rightarrow> Inl (ValidationError ''Duo Security is not configured for this user'')
                     | Some duo \<Rightarrow> rbind (createDuoClient env (tf_meta duo)) (\<lambda>client. Inr (c, user, client))))))"

definition duo_allowed :: "jsval \<Rightarrow> bool" where
  "duo_allowed r \<longleftrightarrow> js_get (js_get r ''auth_result'') ''result'' = JStr ''allow'' \<and> js_get (js_get r ''auth_result'') ''status'' = JStr ''allow''"

text \<open>What follows: the challenge is claimed before Duo is contacted.\<close>

definition duo_commit ::
  "factor_env \<Rightarrow> session_user list \<Rightarrow> jsval \<Rightarrow> twofa \<Rightarrow> session_user \<Rightarrow> jsval \<Rightarrow> factor_db \<Rightarrow> session_user option result \<times> factor_db" where
  "duo_commit env us duoCode c user client db =
     (case consumeChallenge ''Duo'' c db of
        (Inl e, db1) \<Rightarrow> (Inl e, db1)
      | (Inr _, db1) \<Rightarrow>
          (case fe_duo_exchange env client (str_of duoCode) (su_email user) of
             Inl e \<Rightarrow> (Inl e, db1)
           | Inr r \<Rightarrow>
               if \<not> duo_allowed r then (Inr None, db1)
               else (case requireFreshChallenge (fe_later env) ''Duo'' (Some c) of
                       Inl e \<Rightarrow> (Inl e, db1)
                     | Inr _ \<Rightarrow> (Inr (active_user (tf_user_id c) us), db1))))"

definition completeDuoAuthentication ::
  "factor_env \<Rightarrow> session_user list \<Rightarrow> jsval \<Rightarrow> jsval \<Rightarrow> jsval \<Rightarrow> factor_db \<Rightarrow> session_user option result \<times> factor_db" where
  "completeDuoAuthentication env us browserToken duoCode state db =
     (case duo_check env us browserToken duoCode state db of
        Inl e \<Rightarrow> (Inl e, db)
      | Inr (c, user, client) \<Rightarrow> duo_commit env us duoCode c user client db)"

section \<open>Removal and login\<close>

definition removeTwoFaMethod :: "int \<Rightarrow> nat \<Rightarrow> factor_db \<Rightarrow> unit result \<times> factor_db" where
  "removeTwoFaMethod userId methodId db =
     (case List.find (\<lambda>r. tf_id r = methodId \<and> tf_user_id r = userId \<and> \<not> tf_is_deleted r) (methods db) of
        None \<Rightarrow> (Inl (mk_ItemNotFoundError (''2FA method '' @ nat_str methodId)), db)
      | Some _ \<Rightarrow>
          (let db1 = db\<lparr>methods := patch_where (\<lambda>r. tf_id r = methodId) (\<lambda>r. r\<lparr>tf_is_deleted := True\<rparr>) (methods db)\<rparr>
           in (Inr (), if hasActive2FA userId db1 then db1
                       else db1\<lparr>codes := delete_where (\<lambda>c. bc_user_id c = userId) (codes db1)\<rparr>)))"

definition verifyLoginChallenge :: "factor_env \<Rightarrow> int \<Rightarrow> string \<Rightarrow> string \<Rightarrow> factor_db \<Rightarrow> bool result \<times> factor_db" where
  "verifyLoginChallenge env userId method input db =
     (if method = ''totp'' then (case verifyTotp env userId input db of (b, db') \<Rightarrow> (Inr b, db'))
      else if method = ''yubikey'' then verifyYubikey env userId input db
      else if method = ''backup_code'' then (case verifyBackupCode env userId input db of (b, db') \<Rightarrow> (Inr b, db'))
      else (Inl (ValidationError (''Unknown 2FA method: '' @ method)), db))"

end
