(* ===== verification/Login.thy ===== *)
theory Login
  imports Factor_Challenges
begin

text \<open>
  Signing in: the tokens of \<open>backend/internal/token.js\<close>, the counters of failed logins and the pending token of
  \<open>backend/routes/tokens.js\<close>, and the cookies of \<open>backend/lib/auth-cookies.js\<close>.

  Parameters, in \<open>login_env\<close>. \<open>le_now\<close> is the clock of the request, \<open>le_lib\<close>, \<open>le_session\<close> and \<open>le_factor\<close> those of
  the session service and of the second factors. \<open>le_email\<close> is what the database compares, \<open>LOWER(TRIM(email))\<close>. \<open>le_compare\<close>
  is bcrypt, \<open>le_sign\<close> and \<open>le_verify\<close> the JWT library, \<open>le_schema\<close> the schema validator with the schema of the route: the
  error text or the data with its coercions. \<open>le_encrypt\<close>, \<open>le_decrypt\<close> and \<open>le_json\<close> are the encryption of cookies and
  the JSON parser, \<open>le_iso\<close> the ISO form of a time.
\<close>

section \<open>State and requests\<close>

record attempt =
  at_scope :: string
  at_identifier :: string
  at_count :: int
  at_first :: int
  at_last :: int
  at_blocked :: int

record password_row =
  pw_user_id :: int
  pw_type :: string
  pw_secret :: string
  pw_is_deleted :: bool

record login_sys =
  ls_auth :: auth_db
  ls_factors :: factor_db
  ls_attempts :: "attempt list"
  ls_passwords :: "password_row list"

record login_env =
  le_now :: int
  le_lib :: auth_lib
  le_session :: auth_env
  le_factor :: factor_env
  le_email :: "string \<Rightarrow> string"
  le_compare :: "string \<Rightarrow> string \<Rightarrow> bool result"
  le_sign :: "jsval \<Rightarrow> string result"
  le_verify :: "string \<Rightarrow> jsval result"
  le_schema :: "jsval \<Rightarrow> string + jsval"
  le_browser_token :: string
  le_encrypt :: "string \<Rightarrow> string"
  le_decrypt :: "string \<Rightarrow> string result"
  le_json :: "string \<Rightarrow> jsval result"
  le_iso :: "int \<Rightarrow> string"

record http_request =
  hr_ip :: "string option"
  hr_user_agent :: jsval
  hr_secure :: bool
  hr_forwarded_proto :: "string option"
  hr_body :: jsval
  hr_cookies :: jsval
  hr_passkey :: passkey_request
  hr_url :: string

record cookie =
  ck_name :: string
  ck_value :: string
  ck_http_only :: bool
  ck_secure :: bool
  ck_same_site :: string
  ck_path :: string
  ck_max_age :: "int option"

datatype cookie_op = Set_cookie cookie | Clear_cookie string string

section \<open>Cookies\<close>

definition ACCESS_COOKIE :: string where
  "ACCESS_COOKIE = ''shieldpm_jwt''"

definition REFRESH_COOKIE :: string where
  "REFRESH_COOKIE = ''shieldpm_refresh''"

definition DUO_COOKIE :: string where
  "DUO_COOKIE = ''shieldpm_duo''"

definition DUO_COOKIE_PATH :: string where
  "DUO_COOKIE_PATH = ''/api/tokens/2fa/duo''"

definition DUO_COOKIE_PURPOSE :: string where
  "DUO_COOKIE_PURPOSE = ''shieldpm:duo-cookie:v1''"

definition isSecure :: "http_request \<Rightarrow> bool" where
  "isSecure req \<longleftrightarrow> hr_secure req \<or> hr_forwarded_proto req = Some ''https''"

definition setAuthCookies :: "login_env \<Rightarrow> http_request \<Rightarrow> token_response \<Rightarrow> cookie_op list" where
  "setAuthCookies env req pair =
     [Set_cookie \<lparr>ck_name = ACCESS_COOKIE, ck_value = t_access_token pair, ck_http_only = True, ck_secure = isSecure req,
        ck_same_site = ''strict'', ck_path = ''/'', ck_max_age = Some (max 0 (t_access_expires pair - le_now env))\<rparr>,
      Set_cookie \<lparr>ck_name = REFRESH_COOKIE, ck_value = t_refresh_token pair, ck_http_only = True, ck_secure = isSecure req,
        ck_same_site = ''strict'', ck_path = ''/api/tokens'', ck_max_age = Some (max 0 (t_refresh_expires pair - le_now env))\<rparr>]"

definition clearAuthCookies :: "cookie_op list" where
  "clearAuthCookies = [Clear_cookie ACCESS_COOKIE ''/'', Clear_cookie REFRESH_COOKIE ''/api/tokens'']"

definition setDuoCookie :: "login_env \<Rightarrow> http_request \<Rightarrow> string \<Rightarrow> int \<Rightarrow> cookie_op" where
  "setDuoCookie env req browserToken expiresAt =
     Set_cookie \<lparr>ck_name = DUO_COOKIE,
       ck_value = le_encrypt env (json_text (JObj [(''purpose'', JStr DUO_COOKIE_PURPOSE), (''browserToken'', JStr browserToken),
         (''expiresAt'', JNum expiresAt)])),
       ck_http_only = True, ck_secure = isSecure req, ck_same_site = ''lax'', ck_path = DUO_COOKIE_PATH,
       ck_max_age = Some (max 0 (expiresAt - le_now env))\<rparr>"

definition clearDuoCookie :: cookie_op where
  "clearDuoCookie = Clear_cookie DUO_COOKIE DUO_COOKIE_PATH"

definition lower_hex :: "char \<Rightarrow> bool" where
  "lower_hex c \<longleftrightarrow> is_digit c \<or> c \<in> set ''abcdef''"

text \<open>The format of an encrypted cookie, 24 hexadecimal digits, 2 to 512 and 32.\<close>

definition duo_cookie_format :: "string \<Rightarrow> bool" where
  "duo_cookie_format s \<longleftrightarrow> (case split_char (CHR '':'') s of
     [iv, body, tag] \<Rightarrow> list_all lower_hex (iv @ body @ tag) \<and> length iv = 24 \<and> length tag = 32 \<and>
       even (length body) \<and> 2 \<le> length body \<and> length body \<le> 512
   | _ \<Rightarrow> False)"

definition readDuoCookie :: "login_env \<Rightarrow> http_request \<Rightarrow> string option result" where
  "readDuoCookie env req =
     (let cookie = js_get (hr_cookies req) DUO_COOKIE; bad = Inl (ValidationError ''Duo login cookie is invalid or expired'')
      in if \<not> truthy cookie then Inr None
         else if \<not> is_str cookie \<or> \<not> duo_cookie_format (str_of cookie) then bad
         else (case rbind (le_decrypt env (str_of cookie)) (le_json env) of
                 Inl _ \<Rightarrow> bad
               | Inr payload \<Rightarrow>
                   (case js_get payload ''expiresAt'' of
                      JNum t \<Rightarrow>
                        if js_get payload ''purpose'' = JStr DUO_COOKIE_PURPOSE \<and> browser_token_ok (js_get payload ''browserToken'') \<and> le_now env < t
                        then Inr (Some (str_of (js_get payload ''browserToken''))) else bad
                    | _ \<Rightarrow> bad)))"

section \<open>Tokens\<close>

text \<open>The only account with this address, unless it is disabled.\<close>

definition find_account :: "login_env \<Rightarrow> string \<Rightarrow> session_user list \<Rightarrow> session_user option" where
  "find_account env identity us =
     (case take 2 (filter (\<lambda>u. le_email env (su_email u) = js_trim (js_lower identity) \<and> \<not> su_is_deleted u) us) of
        [u] \<Rightarrow> if su_is_disabled u then None else Some u
      | _ \<Rightarrow> None)"

definition period :: "login_env \<Rightarrow> jsval \<Rightarrow> int option" where
  "period env v = (case v of JStr s \<Rightarrow> parseDatePeriod (le_lib env) (le_now env) s | _ \<Rightarrow> None)"

definition token_body :: "string \<Rightarrow> jsval \<Rightarrow> jsval \<Rightarrow> jsval \<Rightarrow> jsval" where
  "token_body iss uid scope expiresIn =
     JObj [(''iss'', JStr iss), (''attrs'', JObj [(''id'', uid)]), (''scope'', scope), (''expiresIn'', expiresIn)]"

record signed_token =
  st_token :: string
  st_expires :: int
  st_user :: session_user

definition ERROR_MESSAGE_INVALID_AUTH :: string where
  "ERROR_MESSAGE_INVALID_AUTH = ''Invalid email or password''"

text \<open>\<open>getTokenFromEmail\<close>. The comparison with a dummy hash on the paths without a password has no effect on the result.\<close>

definition getTokenFromEmail :: "login_env \<Rightarrow> jsval \<Rightarrow> login_sys \<Rightarrow> signed_token result" where
  "getTokenFromEmail env data s =
     (let scope = js_or (js_get data ''scope'') (JStr ''user''); expiry = js_or (js_get data ''expiry'') (JStr ''1d'') in
      if \<not> is_str (js_get data ''identity'') then Inl (JSTypeError ''toLowerCase'')
      else (case find_account env (str_of (js_get data ''identity'')) (users (ls_auth s)) of
        None \<Rightarrow> Inl (AuthError ERROR_MESSAGE_INVALID_AUTH)
      | Some user \<Rightarrow>
          (case List.find (\<lambda>a. pw_user_id a = su_id user \<and> pw_type a = ''password'' \<and> \<not> pw_is_deleted a) (ls_passwords s) of
             None \<Rightarrow> Inl (AuthError ERROR_MESSAGE_INVALID_AUTH)
           | Some auth \<Rightarrow>
               if \<not> is_str (js_get data ''secret'') \<or> le_compare env (str_of (js_get data ''secret'')) (pw_secret auth) \<noteq> Inr True
               then Inl (AuthError ERROR_MESSAGE_INVALID_AUTH)
               else if scope \<noteq> JStr ''user'' \<and> scope \<notin> JStr ` set (su_roles user)
               then Inl (AuthError (''Invalid scope: '' @ js_string scope))
               else (case period env expiry of
                       None \<Rightarrow> Inl (AuthError (''Invalid expiry time: '' @ js_string expiry))
                     | Some t \<Rightarrow>
                         rbind (le_sign env (token_body ''api'' (JNum (su_id user)) (JArr [scope]) expiry)) (\<lambda>token.
                         Inr \<lparr>st_token = token, st_expires = t, st_user = user\<rparr>)))))"

definition getTokenFromOAuthClaim :: "login_env \<Rightarrow> string \<Rightarrow> login_sys \<Rightarrow> (string \<times> int) result" where
  "getTokenFromOAuthClaim env identity s =
     (case find_account env identity (users (ls_auth s)) of
        None \<Rightarrow> Inl (AuthError ERROR_MESSAGE_INVALID_AUTH)
      | Some user \<Rightarrow>
          (case period env (JStr ''5m'') of
             None \<Rightarrow> Inl (AuthError ''Invalid expiry time: 5m'')
           | Some t \<Rightarrow>
               rbind (le_sign env (token_body ''api'' (JNum (su_id user)) (JArr [JStr ''user'']) (JStr ''5m''))) (\<lambda>token. Inr (token, t))))"

text \<open>\<open>getFreshToken\<close> of an access object with this token data.\<close>

definition getFreshToken :: "login_env \<Rightarrow> jsval \<Rightarrow> jsval \<Rightarrow> jsval \<Rightarrow> (string \<times> int \<times> jsval) result" where
  "getFreshToken env token_data expiry scope =
     (let e = js_or expiry (JStr ''1d''); uid = token_getUserId token_data 0;
          asked = truthy scope \<and> token_has_scope token_data ''admin'';
          sc = (if asked then JArr [scope] else token_get token_data ''scope'');
          i = (if asked \<and> (scope = JStr ''job-board'' \<or> scope = JStr ''worker'') then JNum 0 else uid)
      in if \<not> truthy uid then Inl (mk_UnauthorizedError ''No active session found'')
         else (case period env e of
                 None \<Rightarrow> Inl (AuthError (''Invalid expiry time: '' @ js_string e))
               | Some t \<Rightarrow> rbind (le_sign env (token_body ''api'' i sc e)) (\<lambda>token. Inr (token, t, i))))"

text \<open>The expiry \<open>1d\<close> always has a value; the date library adds a day.\<close>

definition getTokenFromUser :: "login_env \<Rightarrow> session_user \<Rightarrow> signed_token result" where
  "getTokenFromUser env user =
     rbind (le_sign env (token_body ''api'' (JNum (su_id user)) (JArr [JStr ''user'']) (JStr ''1d''))) (\<lambda>token.
     Inr \<lparr>st_token = token, st_expires = the (period env (JStr ''1d'')), st_user = user\<rparr>)"

text \<open>A token that is no string fails in the library.\<close>

definition load_token :: "login_env \<Rightarrow> jsval \<Rightarrow> jsval result" where
  "load_token env raw = (case raw of JStr t \<Rightarrow> token_load (le_verify env) t | _ \<Rightarrow> Inl (AuthError ''jwt must be a string''))"

definition loadPendingTwoFaToken :: "login_env \<Rightarrow> jsval \<Rightarrow> jsval result" where
  "loadPendingTwoFaToken env rawToken =
     rbind (load_token env rawToken) (\<lambda>payload.
       if \<not> is_arr (js_get payload ''scope'') \<or> JStr ''2fa_pending'' \<notin> set (arr_of (js_get payload ''scope'')) \<or>
          \<not> is_safe_integer (js_get (js_get payload ''attrs'') ''id'') \<or> int_of (js_get (js_get payload ''attrs'') ''id'') \<le> 0
       then Inl (AuthError ''Invalid pending 2FA token'') else Inr payload)"

section \<open>Failed logins\<close>

definition LOGIN_ATTEMPT_LIMIT :: int where
  "LOGIN_ATTEMPT_LIMIT = 5"

definition LOGIN_ATTEMPT_WINDOW_MS :: int where
  "LOGIN_ATTEMPT_WINDOW_MS = 15 * 60 * 1000"

definition LOGIN_ATTEMPT_BLOCK_MS :: int where
  "LOGIN_ATTEMPT_BLOCK_MS = 15 * 60 * 1000"

definition normalizeLoginIdentifier :: "jsval \<Rightarrow> string option" where
  "normalizeLoginIdentifier body =
     (if \<not> is_obj body \<and> \<not> is_arr body then None
      else map_option (\<lambda>v. js_lower (js_trim (str_of v)))
             (List.find (\<lambda>v. is_str v \<and> js_trim (str_of v) \<noteq> []) (map (js_get body) [''identity'', ''email'', ''username''])))"

definition attempt_of :: "string \<times> string \<Rightarrow> attempt \<Rightarrow> bool" where
  "attempt_of k a \<longleftrightarrow> at_scope a = fst k \<and> at_identifier a = snd k"

definition cleanupExpiredLoginAttempts :: "int \<Rightarrow> attempt list \<Rightarrow> attempt list" where
  "cleanupExpiredLoginAttempts t rows = delete_where (\<lambda>a. at_last a < t - LOGIN_ATTEMPT_WINDOW_MS \<and> at_blocked a < t) rows"

definition getLoginAttemptState :: "string \<times> string \<Rightarrow> int \<Rightarrow> attempt list \<Rightarrow> (int \<times> int) \<times> attempt list" where
  "getLoginAttemptState k t rows =
     (case List.find (attempt_of k) rows of
        None \<Rightarrow> ((0, 0), rows)
      | Some a \<Rightarrow>
          if t < at_blocked a then ((at_count a, at_blocked a), rows)
          else if LOGIN_ATTEMPT_WINDOW_MS \<le> t - at_last a then ((0, 0), delete_where (attempt_of k) rows)
          else ((at_count a, 0), rows))"

definition next_count :: "int \<Rightarrow> attempt \<Rightarrow> int" where
  "next_count t a = (if LOGIN_ATTEMPT_WINDOW_MS \<le> t - at_last a then 1 else at_count a + 1)"

definition registerFailedLoginAttempt :: "string \<times> string \<Rightarrow> int \<Rightarrow> attempt list \<Rightarrow> attempt list" where
  "registerFailedLoginAttempt k t rows =
     (if List.find (attempt_of k) rows = None
      then rows @ [\<lparr>at_scope = fst k, at_identifier = snd k, at_count = 1, at_first = t, at_last = t, at_blocked = 0\<rparr>]
      else patch_where (attempt_of k) (\<lambda>a. a\<lparr>at_count := next_count t a,
             at_first := (if LOGIN_ATTEMPT_WINDOW_MS \<le> t - at_last a then t else at_first a), at_last := t,
             at_blocked := (if LOGIN_ATTEMPT_LIMIT \<le> next_count t a then t + LOGIN_ATTEMPT_BLOCK_MS else 0)\<rparr>) rows)"

definition clearLoginAttempts :: "(string \<times> string) list \<Rightarrow> attempt list \<Rightarrow> attempt list" where
  "clearLoginAttempts ks rows = delete_where (\<lambda>a. \<exists>k \<in> set (filter (\<lambda>k. snd k \<noteq> []) ks). attempt_of k a) rows"

text \<open>The loop over the tracked identifiers before a login: whether one is blocked.\<close>

fun attempts_blocked :: "(string \<times> string) list \<Rightarrow> int \<Rightarrow> attempt list \<Rightarrow> bool \<times> attempt list" where
  "attempts_blocked [] t rows = (False, rows)"
| "attempts_blocked (k # ks) t rows =
     (case getLoginAttemptState k t rows of
        ((_, blockedUntil), rows') \<Rightarrow> if t < blockedUntil then (True, rows') else attempts_blocked ks t rows')"

definition tracked_identifiers :: "http_request \<Rightarrow> (string \<times> string) list" where
  "tracked_identifiers req =
     (''ip'', (case hr_ip req of None \<Rightarrow> ''unknown'' | Some i \<Rightarrow> if i = [] then ''unknown'' else i)) #
     (case normalizeLoginIdentifier (hr_body req) of None \<Rightarrow> [] | Some i \<Rightarrow> [(''login'', i)])"

end
