(* ===== verification/Login_Routes.thy ===== *)
theory Login_Routes
  imports Login
begin

text \<open>
  The handlers of \<open>backend/routes/tokens.js\<close> and \<open>backend/routes/oidc.js\<close>, with the request validation of
  \<open>backend/lib/validator/api.js\<close>. A handler answers with a reply and the changes of cookies, and returns the new state. An
  error of \<open>POST /tokens\<close> is passed on (\<open>Thrown\<close>); the other handlers answer themselves. The in-memory rate limiter in front of them,
  log lines and the CSRF token are left out.

  Parameters of the OIDC flow, in \<open>oidc_env\<close>: \<open>oe_discover\<close>, \<open>oe_auth_url\<close> and \<open>oe_grant\<close> are the client library with the
  configured provider, the last one the claims for the address of the callback, the nonce and the state.
\<close>

datatype login_reply =
    Json_error int string
  | Second_factor string "string list"
  | Signed_in token_response
  | Answer jsval
  | Thrown err
  | Redirect string
  | No_content

type_synonym handled = "login_reply \<times> cookie_op list \<times> login_sys"

definition apiValidator :: "(jsval \<Rightarrow> string + jsval) \<Rightarrow> jsval \<Rightarrow> jsval result" where
  "apiValidator validate payload =
     (if payload = Undef then Inl (ValidationError ''Payload is undefined'')
      else case (if is_str (js_get payload ''advanced_config'')
                 then List.find (\<lambda>k. has_infix (js_lower (str_of (js_get payload ''advanced_config''))) k)
                        [''lua'', ''alias'', ''root'', ''exec'', ''system'', ''os.execute'']
                 else None) of
        Some k \<Rightarrow> Inl (ValidationError (''Security restriction: Toxic keyword '' @ [CHR 39] @ k @ [CHR 39] @ '' is not allowed in advanced_config.''))
      | None \<Rightarrow> (case validate payload of Inl message \<Rightarrow> Inl (ValidationError message) | Inr data \<Rightarrow> Inr data))"

definition body_get :: "http_request \<Rightarrow> string \<Rightarrow> jsval" where
  "body_get req k = js_get (hr_body req) k"

definition request_ip :: "http_request \<Rightarrow> string" where
  "request_ip req = (case hr_ip req of None \<Rightarrow> ''unknown'' | Some i \<Rightarrow> if i = [] then ''unknown'' else i)"

definition request_meta :: "http_request \<Rightarrow> jsval" where
  "request_meta req = JObj [(''ip'', JStr (request_ip req)), (''userAgent'', js_or (hr_user_agent req) Null)]"

definition fail_reply :: "string \<Rightarrow> err \<Rightarrow> login_reply" where
  "fail_reply fallback e =
     Json_error (case err_status e of None \<Rightarrow> 500 | Some n \<Rightarrow> int n) (if err_public e then err_message e else fallback)"

text \<open>Issuing the token pair of a session, and the answer with its cookies.\<close>

definition issue_session :: "login_env \<Rightarrow> jsval \<Rightarrow> session_user \<Rightarrow> jsval \<Rightarrow> login_sys \<Rightarrow> token_response result \<times> login_sys" where
  "issue_session env meta user scope s =
     (case issueTokenPair (le_lib env) (le_session env) user scope meta (ls_auth s) of
        (r, db) \<Rightarrow> (r, s\<lparr>ls_auth := db\<rparr>))"

definition sign_in :: "login_env \<Rightarrow> http_request \<Rightarrow> string \<Rightarrow> session_user \<Rightarrow> login_sys \<Rightarrow> handled" where
  "sign_in env req fallback user s =
     (case issue_session env (request_meta req) user (JStr ''user'') s of
        (Inl e, s') \<Rightarrow> (fail_reply fallback e, [], s')
      | (Inr pair, s') \<Rightarrow> (Signed_in pair, setAuthCookies env req pair, s'))"

definition sign_in_user :: "login_env \<Rightarrow> http_request \<Rightarrow> string \<Rightarrow> int \<Rightarrow> login_sys \<Rightarrow> handled" where
  "sign_in_user env req fallback userId s =
     (case active_user userId (users (ls_auth s)) of
        None \<Rightarrow> (Json_error 401 ''User not found'', [], s)
      | Some user \<Rightarrow> sign_in env req fallback user s)"

section \<open>Password\<close>

definition register_failure :: "http_request \<Rightarrow> int \<Rightarrow> login_sys \<Rightarrow> login_sys" where
  "register_failure req t s =
     s\<lparr>ls_attempts := snd (getLoginAttemptState (''ip'', request_ip req) t
          (fold (\<lambda>k. registerFailedLoginAttempt k t) (tracked_identifiers req) (ls_attempts s)))\<rparr>"

definition password_check :: "login_env \<Rightarrow> http_request \<Rightarrow> login_sys \<Rightarrow> (jsval \<times> signed_token) result" where
  "password_check env req s =
     rbind (apiValidator (le_schema env) (hr_body req)) (\<lambda>data.
     rbind (getTokenFromEmail env data s) (\<lambda>signed. Inr (js_or (js_get data ''scope'') (JStr ''user''), signed)))"

text \<open>What follows a verified password: a pending token for an account with second factors, a session otherwise.\<close>

definition password_accepted :: "login_env \<Rightarrow> http_request \<Rightarrow> jsval \<Rightarrow> session_user \<Rightarrow> login_sys \<Rightarrow> handled" where
  "password_accepted env req scope user s =
     (if hasActive2FA (su_id user) (ls_factors s)
      then (case le_sign env (token_body ''api'' (JNum (su_id user)) (JArr [JStr ''2fa_pending'']) (JStr ''5m'')) of
              Inl e \<Rightarrow> (Thrown e, [], register_failure req (le_now env) s)
            | Inr pending \<Rightarrow> (Second_factor pending (dedup (map tf_type (getActiveForUser (su_id user) (ls_factors s)))), [], s))
      else (case issue_session env (request_meta req) user scope s of
              (Inl e, s') \<Rightarrow> (Thrown e, [], register_failure req (le_now env) s')
            | (Inr pair, s') \<Rightarrow> (Signed_in pair, setAuthCookies env req pair, s')))"

definition post_tokens :: "login_env \<Rightarrow> http_request \<Rightarrow> login_sys \<Rightarrow> handled" where
  "post_tokens env req s =
     (let t = le_now env; ks = tracked_identifiers req in
      case attempts_blocked ks t (cleanupExpiredLoginAttempts t (ls_attempts s)) of
        (True, rows) \<Rightarrow> (Json_error 429 ''Too many login attempts. Please try again later.'', [], s\<lparr>ls_attempts := rows\<rparr>)
      | (False, rows) \<Rightarrow>
          (case password_check env req (s\<lparr>ls_attempts := rows\<rparr>) of
             Inl e \<Rightarrow> (Thrown e, [], register_failure req t (s\<lparr>ls_attempts := rows\<rparr>))
           | Inr (scope, signed) \<Rightarrow> password_accepted env req scope (st_user signed) (s\<lparr>ls_attempts := clearLoginAttempts ks rows\<rparr>)))"

section \<open>Second factors\<close>

definition payload_user :: "jsval \<Rightarrow> int" where
  "payload_user payload = int_of (js_get (js_get payload ''attrs'') ''id'')"

definition pending_invalid :: login_reply where
  "pending_invalid = Json_error 401 ''Pending 2FA token is invalid or expired''"

definition post_2fa_verify :: "login_env \<Rightarrow> http_request \<Rightarrow> login_sys \<Rightarrow> handled" where
  "post_2fa_verify env req s =
     (if \<not> is_str (body_get req ''pending_token'') \<or> \<not> is_str (body_get req ''method'') \<or> \<not> is_str (body_get req ''code'') \<or>
         \<not> truthy (body_get req ''code'')
      then (Json_error 400 ''pending_token, method, and code are required'', [], s)
      else (case loadPendingTwoFaToken env (body_get req ''pending_token'') of
              Inl _ \<Rightarrow> (pending_invalid, [], s)
            | Inr payload \<Rightarrow>
                (case verifyLoginChallenge (le_factor env) (payload_user payload) (str_of (body_get req ''method'')) (str_of (body_get req ''code''))
                        (ls_factors s) of
                   (Inl e, f) \<Rightarrow> (fail_reply ''2FA verification failed'' e, [], s\<lparr>ls_factors := f\<rparr>)
                 | (Inr False, f) \<Rightarrow> (Json_error 401 ''Invalid 2FA code'', [], s\<lparr>ls_factors := f\<rparr>)
                 | (Inr True, f) \<Rightarrow> sign_in_user env req ''2FA verification failed'' (payload_user payload) (s\<lparr>ls_factors := f\<rparr>))))"

definition post_passkey_begin :: "login_env \<Rightarrow> http_request \<Rightarrow> login_sys \<Rightarrow> handled" where
  "post_passkey_begin env req s =
     (if \<not> truthy (body_get req ''pending_token'') then (Json_error 400 ''pending_token is required'', [], s)
      else (case loadPendingTwoFaToken env (body_get req ''pending_token'') of
              Inl _ \<Rightarrow> (pending_invalid, [], s)
            | Inr payload \<Rightarrow>
                (case beginPasskeyAuthentication (le_factor env) (payload_user payload) (hr_passkey req) (ls_factors s) of
                   (Inl e, f) \<Rightarrow> (fail_reply ''Failed to begin passkey authentication'' e, [], s\<lparr>ls_factors := f\<rparr>)
                 | (Inr (options, challengeId), f) \<Rightarrow>
                     (Answer (JObj [(''options'', options), (''challenge_id'', JStr challengeId)]), [], s\<lparr>ls_factors := f\<rparr>))))"

text \<open>A challenge identifier that is no string finds no challenge.\<close>

definition post_passkey_complete :: "login_env \<Rightarrow> http_request \<Rightarrow> login_sys \<Rightarrow> handled" where
  "post_passkey_complete env req s =
     (if \<not> truthy (body_get req ''pending_token'') \<or> \<not> truthy (body_get req ''challenge_id'') \<or> \<not> truthy (body_get req ''auth_response'')
      then (Json_error 400 ''pending_token, challenge_id, and auth_response are required'', [], s)
      else (case loadPendingTwoFaToken env (body_get req ''pending_token'') of
              Inl _ \<Rightarrow> (pending_invalid, [], s)
            | Inr payload \<Rightarrow>
                (case (if is_str (body_get req ''challenge_id'')
                       then completePasskeyAuthentication (le_factor env) (payload_user payload) (str_of (body_get req ''challenge_id''))
                              (body_get req ''auth_response'') (hr_passkey req) (ls_factors s)
                       else (Inl (ValidationError ''Passkey authentication challenge not found or expired''), ls_factors s)) of
                   (Inl e, f) \<Rightarrow> (fail_reply ''Passkey authentication failed'' e, [], s\<lparr>ls_factors := f\<rparr>)
                 | (Inr _, f) \<Rightarrow> sign_in_user env req ''Passkey authentication failed'' (payload_user payload) (s\<lparr>ls_factors := f\<rparr>))))"

text \<open>The challenge of Duo lives no longer than the pending token; a pending token without an expiry fails.\<close>

definition post_duo_begin :: "login_env \<Rightarrow> http_request \<Rightarrow> login_sys \<Rightarrow> handled" where
  "post_duo_begin env req s =
     (if \<not> truthy (body_get req ''pending_token'') then (Json_error 400 ''pending_token is required'', [clearDuoCookie], s)
      else (case loadPendingTwoFaToken env (body_get req ''pending_token'') of
              Inl _ \<Rightarrow> (pending_invalid, [clearDuoCookie], s)
            | Inr payload \<Rightarrow>
                (case active_user (payload_user payload) (users (ls_auth s)) of
                   None \<Rightarrow> (Json_error 401 ''User not found'', [clearDuoCookie], s)
                 | Some user \<Rightarrow>
                     (case js_get payload ''exp'' of
                        JNum e \<Rightarrow>
                          (let expiresAt = min (e * 1000) (le_now env + 5 * 60 * 1000)
                           in case beginDuoAuthentication (le_factor env) (payload_user payload) (su_email user) (JStr (le_browser_token env))
                                     expiresAt (ls_factors s) of
                                (Inl e, f) \<Rightarrow> (fail_reply ''Failed to initiate Duo authentication'' e, [clearDuoCookie], s\<lparr>ls_factors := f\<rparr>)
                              | (Inr url, f) \<Rightarrow> (Answer (JObj [(''auth_url'', JStr url)]),
                                  [clearDuoCookie, setDuoCookie env req (le_browser_token env) expiresAt], s\<lparr>ls_factors := f\<rparr>))
                      | _ \<Rightarrow> (fail_reply ''Failed to initiate Duo authentication'' (ValidationError ''Pending Duo login is invalid or expired''),
                               [clearDuoCookie], s)))))"

definition post_duo_complete :: "login_env \<Rightarrow> http_request \<Rightarrow> login_sys \<Rightarrow> handled" where
  "post_duo_complete env req s =
     (if \<not> is_str (body_get req ''duo_code'') \<or> \<not> truthy (body_get req ''duo_code'') \<or> \<not> is_str (body_get req ''state'') \<or>
         \<not> truthy (body_get req ''state'')
      then (Json_error 400 ''duo_code and state are required'', [clearDuoCookie], s)
      else (case readDuoCookie env req of
              Inl e \<Rightarrow> (fail_reply ''Duo authentication failed'' e, [clearDuoCookie], s)
            | Inr None \<Rightarrow> (Json_error 401 ''Duo login cookie is missing or expired'', [clearDuoCookie], s)
            | Inr (Some browserToken) \<Rightarrow>
                (case completeDuoAuthentication (le_factor env) (users (ls_auth s)) (JStr browserToken) (body_get req ''duo_code'')
                        (body_get req ''state'') (ls_factors s) of
                   (Inl e, f) \<Rightarrow> (fail_reply ''Duo authentication failed'' e, [clearDuoCookie], s\<lparr>ls_factors := f\<rparr>)
                 | (Inr None, f) \<Rightarrow> (Json_error 401 ''Duo authentication failed'', [clearDuoCookie], s\<lparr>ls_factors := f\<rparr>)
                 | (Inr (Some user), f) \<Rightarrow>
                     (case sign_in env req ''Duo authentication failed'' user (s\<lparr>ls_factors := f\<rparr>) of
                        (reply, cs, s') \<Rightarrow> (reply, clearDuoCookie # cs, s')))))"

section \<open>Sessions\<close>

definition refresh_token_of :: "http_request \<Rightarrow> jsval" where
  "refresh_token_of req = js_or (js_get (hr_cookies req) REFRESH_COOKIE) (body_get req ''refresh_token'')"

definition post_refresh :: "login_env \<Rightarrow> http_request \<Rightarrow> login_sys \<Rightarrow> handled" where
  "post_refresh env req s =
     (if \<not> truthy (refresh_token_of req) then (Json_error 400 ''Missing refresh token'', [], s)
      else (case refreshTokenPair (le_lib env) (le_session env) (refresh_token_of req) (request_meta req) (ls_auth s) of
              (Inl e, db) \<Rightarrow>
                (Json_error (case e of AuthError _ \<Rightarrow> 401 | UnauthorizedError _ \<Rightarrow> 401 | _ \<Rightarrow> 500)
                   (if err_public e then err_message e else ''Token refresh failed''), [], s\<lparr>ls_auth := db\<rparr>)
            | (Inr pair, db) \<Rightarrow> (Signed_in pair, setAuthCookies env req pair, s\<lparr>ls_auth := db\<rparr>)))"

definition post_logout :: "login_env \<Rightarrow> http_request \<Rightarrow> login_sys \<Rightarrow> handled" where
  "post_logout env req s =
     (No_content, clearAuthCookies @ [Clear_cookie ''shieldpm_jwt_original'' ''/''],
      s\<lparr>ls_auth := logout (le_lib env) (le_session env) (refresh_token_of req) (ls_auth s)\<rparr>)"

definition access_cookie :: "http_request \<Rightarrow> string \<Rightarrow> int option \<Rightarrow> cookie_op" where
  "access_cookie req token maxAge =
     Set_cookie \<lparr>ck_name = ACCESS_COOKIE, ck_value = token, ck_http_only = True, ck_secure = hr_secure req, ck_same_site = ''strict'',
       ck_path = ''/'', ck_max_age = maxAge\<rparr>"

definition get_tokens :: "login_env \<Rightarrow> http_request \<Rightarrow> jsval \<Rightarrow> jsval \<Rightarrow> jsval \<Rightarrow> login_sys \<Rightarrow> handled" where
  "get_tokens env req token_data query_expiry query_scope s =
     (case getFreshToken env token_data (if is_str query_expiry then query_expiry else Null) (if is_str query_scope then query_scope else Null) of
        Inl e \<Rightarrow> (Thrown e, [], s)
      | Inr (token, expires, uid) \<Rightarrow>
          (Answer (JObj [(''token'', JStr token), (''expires'', JStr (le_iso env expires)), (''user'', JObj [(''id'', uid)])]),
           [access_cookie req token (Some (max 0 (expires - le_now env))), Clear_cookie ''shieldpm_oidc'' ''/''], s))"

definition post_restore :: "login_env \<Rightarrow> http_request \<Rightarrow> login_sys \<Rightarrow> handled" where
  "post_restore env req s =
     (let original = js_get (hr_cookies req) ''shieldpm_jwt_original''
      in if \<not> truthy original then (Json_error 400 ''No backup session found to restore.'', [], s)
         else (case load_token env original of
                 Inl _ \<Rightarrow> (Json_error 401 ''Failed to restore session. Token invalid or expired.'', [Clear_cookie ''shieldpm_jwt_original'' ''/''], s)
               | Inr payload \<Rightarrow>
                   (Answer (JObj [(''expires'', (case js_get payload ''exp'' of JNum e \<Rightarrow> if e = 0 then Null else JStr (le_iso env (e * 1000)) | _ \<Rightarrow> Null)),
                       (''user'', JObj [(''id'', js_or (js_get (js_get payload ''attrs'') ''id'') (js_get payload ''id''))])]),
                    [access_cookie req (str_of original)
                       (case js_get payload ''exp'' of JNum e \<Rightarrow> if e = 0 then None else Some (e * 1000 - le_now env) | _ \<Rightarrow> None),
                     Clear_cookie ''shieldpm_jwt_original'' ''/''], s)))"

section \<open>Routes\<close>

datatype route = R_tokens | R_2fa_verify | R_passkey_begin | R_passkey_complete | R_duo_begin | R_duo_complete
  | R_refresh | R_logout | R_restore

fun handle :: "route \<Rightarrow> login_env \<Rightarrow> http_request \<Rightarrow> login_sys \<Rightarrow> handled" where
  "handle R_tokens env req s = post_tokens env req s"
| "handle R_2fa_verify env req s = post_2fa_verify env req s"
| "handle R_passkey_begin env req s = post_passkey_begin env req s"
| "handle R_passkey_complete env req s = post_passkey_complete env req s"
| "handle R_duo_begin env req s = post_duo_begin env req s"
| "handle R_duo_complete env req s = post_duo_complete env req s"
| "handle R_refresh env req s = post_refresh env req s"
| "handle R_logout env req s = post_logout env req s"
| "handle R_restore env req s = post_restore env req s"

end
