(* ===== verification/Login_Throttle.thy ===== *)
theory Login_Throttle
  imports Login_Routes
begin

text \<open>
  The limit on failed logins: the failures recorded for an address or a login since its last success, over any sequence of
  requests to the routes of \<open>Login_Routes\<close>, and the invariant that ties them to the row of the table.
\<close>

section \<open>The row of a key\<close>

definition rows_of :: "string \<times> string \<Rightarrow> attempt list \<Rightarrow> attempt list" where
  "rows_of k rows = filter (attempt_of k) rows"

lemma attempt_of_eq: "attempt_of k a \<Longrightarrow> attempt_of k' a \<longleftrightarrow> k' = k"
  by (auto simp: attempt_of_def prod_eq_iff)

lemma rows_of_delete: "rows_of k (delete_where p rows) = delete_where p (rows_of k rows)"
  by (auto simp: rows_of_def delete_where_def intro: filter_cong)

lemma rows_of_delete_other: "k' \<noteq> k \<Longrightarrow> rows_of k (delete_where (attempt_of k') rows) = rows_of k rows"
  by (auto simp: rows_of_def delete_where_def attempt_of_eq intro: filter_cong)

lemma rows_of_state_other: "k' \<noteq> k \<Longrightarrow> rows_of k (snd (getLoginAttemptState k' t rows)) = rows_of k rows"
  by (auto simp: getLoginAttemptState_def rows_of_delete_other split: option.split)

lemma rows_of_patch: "(\<And>a. attempt_of k (f a) = attempt_of k a) \<Longrightarrow> rows_of k (patch_where (attempt_of k) f rows) = map f (rows_of k rows)"
  by (induction rows) (auto simp: rows_of_def patch_where_def)

lemma rows_of_patch_other:
  "k' \<noteq> k \<Longrightarrow> (\<And>a. attempt_of k (f a) = attempt_of k a) \<Longrightarrow> rows_of k (patch_where (attempt_of k') f rows) = rows_of k rows"
  by (induction rows) (auto simp: rows_of_def patch_where_def attempt_of_eq)

lemma find_rows_of: "List.find (attempt_of k) rows = None \<longleftrightarrow> rows_of k rows = []"
  by (auto simp: find_None rows_of_def filter_empty_conv)

definition failed_row :: "int \<Rightarrow> attempt \<Rightarrow> attempt" where
  "failed_row t a = a\<lparr>at_count := next_count t a,
     at_first := (if LOGIN_ATTEMPT_WINDOW_MS \<le> t - at_last a then t else at_first a), at_last := t,
     at_blocked := (if LOGIN_ATTEMPT_LIMIT \<le> next_count t a then t + LOGIN_ATTEMPT_BLOCK_MS else 0)\<rparr>"

definition first_row :: "string \<times> string \<Rightarrow> int \<Rightarrow> attempt" where
  "first_row k t = \<lparr>at_scope = fst k, at_identifier = snd k, at_count = 1, at_first = t, at_last = t, at_blocked = 0\<rparr>"

lemma attempt_of_rows: "attempt_of k (failed_row t a) = attempt_of k a" "attempt_of k (first_row k' t) \<longleftrightarrow> k' = k"
  by (auto simp: attempt_of_def failed_row_def first_row_def prod_eq_iff)

lemma register_rows:
  "registerFailedLoginAttempt k t rows = (if rows_of k rows = [] then rows @ [first_row k t] else patch_where (attempt_of k) (failed_row t) rows)"
proof -
  have "failed_row t = (\<lambda>a. a\<lparr>at_count := next_count t a,
     at_first := (if LOGIN_ATTEMPT_WINDOW_MS \<le> t - at_last a then t else at_first a), at_last := t,
     at_blocked := (if LOGIN_ATTEMPT_LIMIT \<le> next_count t a then t + LOGIN_ATTEMPT_BLOCK_MS else 0)\<rparr>)"
    by (rule ext) (simp add: failed_row_def)
  then show ?thesis by (simp only: registerFailedLoginAttempt_def find_rows_of first_row_def)
qed

lemma rows_of_register:
  "rows_of k (registerFailedLoginAttempt k' t rows) =
     (if k' \<noteq> k then rows_of k rows else if rows_of k rows = [] then [first_row k t] else map (failed_row t) (rows_of k rows))"
proof (cases "k' = k")
  case True
  then show ?thesis by (simp add: register_rows rows_of_patch attempt_of_rows) (simp add: rows_of_def attempt_of_rows)
next
  case False
  then show ?thesis by (simp add: register_rows rows_of_patch_other attempt_of_rows) (simp add: rows_of_def attempt_of_rows)
qed

lemma rows_of_register_all:
  "distinct ks \<Longrightarrow> rows_of k (fold (\<lambda>k. registerFailedLoginAttempt k t) ks rows) =
     (if k \<notin> set ks then rows_of k rows else if rows_of k rows = [] then [first_row k t] else map (failed_row t) (rows_of k rows))"
  by (induction ks arbitrary: rows) (auto simp: rows_of_register)

lemma tracked_distinct: "distinct (tracked_identifiers req)"
  by (simp add: tracked_identifiers_def split: option.split)

lemma tracked_nonempty: "k \<in> set (tracked_identifiers req) \<Longrightarrow> snd k \<noteq> []"
  by (auto simp: tracked_identifiers_def normalizeLoginIdentifier_def js_lower_def dest!: find_SomeD split: option.splits if_splits)

lemma rows_of_clear: "k \<in> set (tracked_identifiers req) \<Longrightarrow> rows_of k (clearLoginAttempts (tracked_identifiers req) rows) = []"
  using tracked_nonempty [of k req] by (cases k) (auto simp: rows_of_def clearLoginAttempts_def delete_where_def filter_empty_conv)

lemma rows_of_clear_other: "k \<notin> set ks \<Longrightarrow> rows_of k (clearLoginAttempts ks rows) = rows_of k rows"
  by (auto simp: rows_of_def clearLoginAttempts_def delete_where_def attempt_of_eq intro!: filter_cong)

section \<open>Invariant\<close>

definition throttle :: "int \<Rightarrow> int list \<Rightarrow> attempt list \<Rightarrow> bool" where
  "throttle T log P \<longleftrightarrow> sorted_wrt (\<ge>) log \<and> (\<forall>x \<in> set log. x \<le> T) \<and>
     (\<forall>i. i + 5 < length log \<longrightarrow> LOGIN_ATTEMPT_WINDOW_MS \<le> log ! i - log ! (i + 5)) \<and>
     (P = [] \<longrightarrow> log \<noteq> [] \<longrightarrow> LOGIN_ATTEMPT_WINDOW_MS \<le> T - hd log) \<and>
     (\<exists>c. \<forall>a \<in> set P. log \<noteq> [] \<and> 1 \<le> c \<and> c \<le> 5 \<and> at_count a = int c \<and> at_last a = hd log \<and>
        at_blocked a = (if c = 5 then hd log + LOGIN_ATTEMPT_WINDOW_MS else 0) \<and>
        (c < length log \<longrightarrow> LOGIN_ATTEMPT_WINDOW_MS \<le> log ! (c - 1) - log ! c))"

lemma throttle_later: "throttle T log P \<Longrightarrow> T \<le> t \<Longrightarrow> throttle t log P"
  by (fastforce simp: throttle_def)

lemma throttle_reset: "throttle t [] []"
  by (simp add: throttle_def)

lemma throttle_delete:
  assumes "throttle t log P" and "\<And>a. a \<in> set P \<Longrightarrow> q a \<Longrightarrow> LOGIN_ATTEMPT_WINDOW_MS \<le> t - at_last a"
  shows "throttle t log (delete_where q P)"
proof -
  obtain c where c: "\<forall>a \<in> set P. log \<noteq> [] \<and> 1 \<le> c \<and> c \<le> 5 \<and> at_count a = int c \<and> at_last a = hd log \<and>
        at_blocked a = (if c = 5 then hd log + LOGIN_ATTEMPT_WINDOW_MS else 0) \<and>
        (c < length log \<longrightarrow> LOGIN_ATTEMPT_WINDOW_MS \<le> log ! (c - 1) - log ! c)"
    using assms(1) by (auto simp: throttle_def)
  have "LOGIN_ATTEMPT_WINDOW_MS \<le> t - hd log" if "delete_where q P = []" "log \<noteq> []"
  proof (cases P)
    case Nil
    with assms(1) that(2) show ?thesis by (simp add: throttle_def)
  next
    case (Cons a P')
    with that(1) have "q a" by (simp add: delete_where_def split: if_splits)
    with assms(2) [of a] c Cons show ?thesis by simp
  qed
  moreover have "\<forall>a \<in> set (delete_where q P). a \<in> set P" by simp
  ultimately show ?thesis using assms(1) c unfolding throttle_def by blast
qed

lemma throttle_state:
  assumes "throttle t log (rows_of k rows)"
  shows "throttle t log (rows_of k (snd (getLoginAttemptState k' t rows)))"
proof (cases "k' = k")
  case True
  show ?thesis
  proof (cases "List.find (attempt_of k) rows")
    case (Some a)
    then have a: "a \<in> set (rows_of k rows)" by (auto simp: rows_of_def dest: find_SomeD)
    have same: "at_last b = at_last a" if "b \<in> set (rows_of k rows)" for b
      using assms a that by (auto simp: throttle_def)
    have "throttle t log (delete_where (attempt_of k) (rows_of k rows))" if "LOGIN_ATTEMPT_WINDOW_MS \<le> t - at_last a"
      by (rule throttle_delete [OF assms]) (use that same in simp)
    with assms Some True show ?thesis by (simp add: getLoginAttemptState_def rows_of_delete)
  qed (use assms True in \<open>simp add: getLoginAttemptState_def\<close>)
qed (simp add: rows_of_state_other assms)

lemma throttle_checks: "throttle t log (rows_of k rows) \<Longrightarrow> throttle t log (rows_of k (snd (attempts_blocked ks t rows)))"
proof (induction ks t rows rule: attempts_blocked.induct)
  case (2 k' ks t rows)
  obtain n b rows' where st: "getLoginAttemptState k' t rows = ((n, b), rows')" by (metis prod.collapse)
  then have "throttle t log (rows_of k rows')" using throttle_state [OF 2(2), of k'] by simp
  with 2 st show ?case by (auto split: if_splits)
qed simp

lemma throttle_cleanup: "throttle t log (rows_of k rows) \<Longrightarrow> throttle t log (rows_of k (cleanupExpiredLoginAttempts t rows))"
  unfolding cleanupExpiredLoginAttempts_def rows_of_delete by (erule throttle_delete) simp

lemma checks_subset: "set (snd (attempts_blocked ks t rows)) \<subseteq> set rows"
proof (induction ks t rows rule: attempts_blocked.induct)
  case (2 k' ks t rows)
  obtain n b rows' where st: "getLoginAttemptState k' t rows = ((n, b), rows')" by (metis prod.collapse)
  then have "set rows' \<subseteq> set rows" by (auto simp: getLoginAttemptState_def split: option.splits if_splits)
  moreover have "set (snd (attempts_blocked ks t rows')) \<subseteq> set rows'" if "\<not> t < b"
    using 2 [OF st [symmetric] refl that] .
  ultimately show ?case using st by auto
qed simp

lemma not_blocked:
  assumes "attempts_blocked ks t rows = (False, rows')" and "k \<in> set ks" and "throttle t log (rows_of k rows)"
  shows "\<forall>a \<in> set (rows_of k rows). at_blocked a \<le> t"
  using assms
proof (induction ks t rows rule: attempts_blocked.induct)
  case (2 k' ks t rows)
  obtain n b rows1 where st: "getLoginAttemptState k' t rows = ((n, b), rows1)" by (metis prod.collapse)
  have b: "\<not> t < b" and rest: "attempts_blocked ks t rows1 = (False, rows')" using 2(2) st by (auto split: if_splits)
  show ?case
  proof (cases "k' = k")
    case True
    show ?thesis
    proof (cases "List.find (attempt_of k) rows")
      case None
      then show ?thesis by (simp add: find_rows_of)
    next
      case (Some a)
      then have a: "a \<in> set (rows_of k rows)" by (auto simp: rows_of_def dest: find_SomeD)
      have "at_blocked a \<le> t" using st b Some True by (auto simp: getLoginAttemptState_def split: if_splits)
      moreover have "at_blocked c = at_blocked a" if "c \<in> set (rows_of k rows)" for c
        using 2(4) a that by (auto simp: throttle_def)
      ultimately show ?thesis by simp
    qed
  next
    case False
    have same: "rows_of k rows1 = rows_of k rows" using rows_of_state_other [OF False, of t rows] st by simp
    have "\<forall>a \<in> set (rows_of k rows1). at_blocked a \<le> t"
      using 2(1) [OF st [symmetric] refl b rest] 2(3,4) False same by simp
    with same show ?thesis by simp
  qed
qed simp

lemma throttle_fail:
  assumes inv: "throttle t log P" and free: "\<forall>a \<in> set P. at_blocked a \<le> t"
  shows "throttle t (t # log) (if P = [] then [first_row k t] else map (failed_row t) P)"
proof -
  let ?W = LOGIN_ATTEMPT_WINDOW_MS
  have sorted: "sorted_wrt (\<ge>) (t # log)" and old: "\<forall>i. i + 5 < length log \<longrightarrow> ?W \<le> log ! i - log ! (i + 5)" and le: "\<forall>x \<in> set (t # log). x \<le> t"
    using inv by (auto simp: throttle_def)
  have mono: "log ! j \<le> log ! i" if "i \<le> j" "j < length log" for i j
    using inv that by (cases "i = j") (auto simp: throttle_def sorted_wrt_iff_nth_less)
  have hd_le: "log ! i \<le> hd log" if "i < length log" for i
    using mono [of 0 i] that by (cases log) auto
  obtain c where c: "\<forall>a \<in> set P. log \<noteq> [] \<and> 1 \<le> c \<and> c \<le> 5 \<and> at_count a = int c \<and> at_last a = hd log \<and>
        at_blocked a = (if c = 5 then hd log + ?W else 0) \<and> (c < length log \<longrightarrow> ?W \<le> log ! (c - 1) - log ! c)"
    using inv by (auto simp: throttle_def)
  have windows: "\<forall>i. i + 5 < length (t # log) \<longrightarrow> ?W \<le> (t # log) ! i - (t # log) ! (i + 5)" if "4 < length log \<Longrightarrow> ?W \<le> t - log ! 4"
  proof (intro allI impI)
    fix i assume i: "i + 5 < length (t # log)"
    show "?W \<le> (t # log) ! i - (t # log) ! (i + 5)"
      using old [rule_format, of "i - 1"] that i by (cases i) (auto simp: add.commute)
  qed
  show ?thesis
  proof (cases "P = [] \<or> (\<exists>a \<in> set P. ?W \<le> t - at_last a)")
    case True
    then have gap: "log = [] \<or> ?W \<le> t - hd log" using inv c by (auto simp: throttle_def)
    then have "4 < length log \<Longrightarrow> ?W \<le> t - log ! 4" using hd_le [of 4] by fastforce
    note w = windows [OF this]
    have rows: "\<forall>a \<in> set (if P = [] then [first_row k t] else map (failed_row t) P). at_count a = 1 \<and> at_last a = t \<and> at_blocked a = 0"
      using True c by (auto simp: first_row_def failed_row_def next_count_def LOGIN_ATTEMPT_LIMIT_def)
    have "1 < length (t # log) \<longrightarrow> ?W \<le> (t # log) ! 0 - (t # log) ! 1" using gap by (cases log) auto
    with rows w sorted le show ?thesis unfolding throttle_def by (auto intro!: exI [of _ 1])
  next
    case False
    then obtain a where a: "a \<in> set P" "t - at_last a < ?W" and P: "P \<noteq> []" by (metis last_in_set linorder_not_le)
    from c a(1) have ca: "log \<noteq> []" "1 \<le> c" "c \<le> 5" "at_last a = hd log" "at_blocked a = (if c = 5 then hd log + ?W else 0)"
      and gap: "c < length log \<longrightarrow> ?W \<le> log ! (c - 1) - log ! c" by blast+
    have "at_blocked a \<le> t" using free a(1) by blast
    with ca(4,5) a(2) have "c \<noteq> 5" by auto
    with ca have c5: "1 \<le> c" "c < 5" "log \<noteq> []" by auto
    have "?W \<le> t - log ! 4" if "4 < length log"
    proof -
      have "log ! 4 \<le> log ! c" "log ! (c - 1) \<le> hd log" "?W \<le> log ! (c - 1) - log ! c"
        using mono [of c 4] hd_le [of "c - 1"] gap c5 that by auto
      moreover have "hd log \<le> t" using le c5(3) by simp
      ultimately show ?thesis by simp
    qed
    note w = windows [OF this]
    have rows: "\<forall>a \<in> set (map (failed_row t) P). at_count a = int (Suc c) \<and> at_last a = t \<and>
        at_blocked a = (if Suc c = 5 then t + ?W else 0)"
      using False c c5 by (auto simp: failed_row_def next_count_def LOGIN_ATTEMPT_LIMIT_def LOGIN_ATTEMPT_BLOCK_MS_def LOGIN_ATTEMPT_WINDOW_MS_def)
    have "Suc c < length (t # log) \<longrightarrow> ?W \<le> (t # log) ! (Suc c - 1) - (t # log) ! Suc c" using gap c5(1) by (auto simp: nth_Cons')
    with rows w sorted le c5 P show ?thesis unfolding throttle_def by (auto intro!: exI [of _ "Suc c"])
  qed
qed

end
