(* ===== verification/Oidc.thy ===== *)
theory Oidc
  imports Login_Routes
begin

text \<open>
  Signing in with an identity provider, \<open>backend/routes/oidc.js\<close>: the redirect to the provider, its callback, which hands a
  token of five minutes to the browser in an encrypted cookie, and the claim that exchanges the cookie for a session. A handler
  never throws; it redirects or answers with the error. The setting is the row \<open>oidc-config\<close>, or undefined.
\<close>

record oidc_env =
  oe_discover :: "jsval \<Rightarrow> jsval result"
  oe_nonce :: string
  oe_state :: string
  oe_auth_url :: "jsval \<Rightarrow> jsval \<Rightarrow> string result"
  oe_grant :: "jsval \<Rightarrow> string \<Rightarrow> string \<Rightarrow> string \<Rightarrow> jsval result"

text \<open>\<open>split\<close> at a separator of more than one character: each separator is found left to right, none inside the one before.\<close>

fun split_str :: "string \<Rightarrow> string \<Rightarrow> string \<Rightarrow> nat \<Rightarrow> string list" where
  "split_str sep acc [] n = [acc]"
| "split_str sep acc (c # s) (Suc n) = split_str sep acc s n"
| "split_str sep acc (c # s) 0 =
     (if starts_with (c # s) sep then acc # split_str sep [] s (length sep - 1) else split_str sep (acc @ [c]) s 0)"

definition js_split :: "string \<Rightarrow> string \<Rightarrow> string list" where
  "js_split sep s = split_str sep [] s 0"

definition assertEnabled :: "jsval \<Rightarrow> unit result" where
  "assertEnabled settings =
     (if js_get (js_get settings ''meta'') ''enabled'' \<noteq> JBool True then Inl (AuthError ''OIDC authentication is disabled'') else Inr ())"

definition getConfig :: "oidc_env \<Rightarrow> jsval \<Rightarrow> jsval result" where
  "getConfig oe settings = rbind (assertEnabled settings) (\<lambda>_. oe_discover oe (js_get settings ''meta''))"

definition getInitParams :: "oidc_env \<Rightarrow> jsval \<Rightarrow> (string \<times> string \<times> string) result" where
  "getInitParams oe settings =
     rbind (getConfig oe settings) (\<lambda>config.
     rbind (oe_auth_url oe config (JObj [(''redirect_uri'', js_get (js_get settings ''meta'') ''redirectURL''), (''scope'', JStr ''openid email''),
              (''nonce'', JStr (oe_nonce oe)), (''state'', JStr (oe_state oe))])) (\<lambda>url.
     Inr (url, oe_nonce oe, oe_state oe)))"

definition oidc_cookie :: "http_request \<Rightarrow> string \<Rightarrow> cookie_op" where
  "oidc_cookie req v =
     Set_cookie \<lparr>ck_name = ''shieldpm_oidc'', ck_value = v, ck_http_only = True, ck_secure = hr_secure req, ck_same_site = ''lax'',
       ck_path = ''/'', ck_max_age = Some (5 * 60 * 1000)\<rparr>"

definition redirectWithError :: "err \<Rightarrow> login_reply \<times> cookie_op list" where
  "redirectWithError e =
     (Redirect ''/login'',
      [Set_cookie \<lparr>ck_name = ''shieldpm_oidc_error'', ck_value = (if err_public e then err_message e else ''OIDC authentication failed''),
         ck_http_only = False, ck_secure = True, ck_same_site = ''Strict'', ck_path = ''/'', ck_max_age = None\<rparr>])"

definition get_oidc :: "oidc_env \<Rightarrow> http_request \<Rightarrow> jsval \<Rightarrow> login_reply \<times> cookie_op list" where
  "get_oidc oe req settings =
     (case getInitParams oe settings of
        Inl e \<Rightarrow> redirectWithError e
      | Inr (url, nonce, state) \<Rightarrow> (Redirect url, [oidc_cookie req (nonce @ ''___'' @ state)]))"

definition parseValuesFromCookie :: "http_request \<Rightarrow> (string \<times> string) result" where
  "parseValuesFromCookie req =
     (case js_get (hr_cookies req) ''shieldpm_oidc'' of
        JStr raw \<Rightarrow>
          (case js_split ''___'' raw of
             [nonce, state] \<Rightarrow> if nonce = [] \<or> state = [] then Inl (AuthError ''Invalid OIDC login state. Please restart login.'')
                               else Inr (nonce, state)
           | _ \<Rightarrow> Inl (AuthError ''Invalid OIDC login state. Please restart login.''))
      | _ \<Rightarrow> Inl (AuthError ''Missing OIDC login state. Please restart login.''))"

definition validateCallback :: "login_env \<Rightarrow> oidc_env \<Rightarrow> http_request \<Rightarrow> jsval \<Rightarrow> login_sys \<Rightarrow> (string \<times> int) result" where
  "validateCallback env oe req settings s =
     rbind (parseValuesFromCookie req) (\<lambda>(nonce, state).
     rbind (getConfig oe settings) (\<lambda>config.
     rbind (oe_grant oe config (hr_url req) nonce state) (\<lambda>claims.
       if claims = Undef \<or> claims = Null then Inl (JSTypeError ''email'')
       else if \<not> truthy (js_get claims ''email'') then Inl (AuthError (''The Identity Provider didn'' @ [CHR 39] @ ''t send the '' @ [CHR 39] @ ''email'' @ [CHR 39] @ '' claim''))
       else if js_get claims ''email_verified'' \<noteq> JBool True \<and> js_get claims ''email_verified'' \<noteq> JStr ''true''
       then Inl (AuthError ''The Identity Provider has not verified the email address'')
       else if \<not> is_str (js_get claims ''email'') then Inl (JSTypeError ''toLowerCase'')
       else getTokenFromOAuthClaim env (js_lower (str_of (js_get claims ''email''))) s)))"

definition redirectWithJwtToken :: "login_env \<Rightarrow> http_request \<Rightarrow> string \<times> int \<Rightarrow> login_reply \<times> cookie_op list" where
  "redirectWithJwtToken env req token =
     (Redirect ''/'',
      clearAuthCookies @ [clearDuoCookie, Clear_cookie ''shieldpm_jwt_original'' ''/'',
        oidc_cookie req (le_encrypt env (fst token @ ''---'' @ le_iso env (snd token)))])"

definition get_oidc_callback :: "login_env \<Rightarrow> oidc_env \<Rightarrow> http_request \<Rightarrow> jsval \<Rightarrow> login_sys \<Rightarrow> login_reply \<times> cookie_op list" where
  "get_oidc_callback env oe req settings s =
     (case validateCallback env oe req settings s of
        Inl e \<Rightarrow> redirectWithError e
      | Inr token \<Rightarrow> redirectWithJwtToken env req token)"

text \<open>\<open>payload.scope?.includes("user")\<close>: a member of an array or a part of a string; other values have no such method.\<close>

definition scope_includes_user :: "jsval \<Rightarrow> bool result" where
  "scope_includes_user scope =
     (case scope of
        Undef \<Rightarrow> Inr False
      | Null \<Rightarrow> Inr False
      | JArr xs \<Rightarrow> Inr (JStr ''user'' \<in> set xs)
      | JStr t \<Rightarrow> Inr (has_infix t ''user'')
      | _ \<Rightarrow> Inl (JSTypeError ''includes''))"

text \<open>What precedes the session: the account of the token of the cookie.\<close>

definition handed_user :: "login_env \<Rightarrow> string \<Rightarrow> login_sys \<Rightarrow> session_user result" where
  "handed_user env token s =
     rbind (token_load (le_verify env) token) (\<lambda>payload.
     rbind (scope_includes_user (js_get payload ''scope'')) (\<lambda>ok.
       if \<not> ok \<or> \<not> is_safe_integer (js_get (js_get payload ''attrs'') ''id'') then Inl (AuthError ''Invalid OIDC token'')
       else (case active_user (payload_user payload) (users (ls_auth s)) of
               None \<Rightarrow> Inl (AuthError ''User cannot be loaded for OIDC token'')
             | Some user \<Rightarrow> Inr user)))"

definition oidc_claim_user :: "login_env \<Rightarrow> http_request \<Rightarrow> jsval \<Rightarrow> login_sys \<Rightarrow> session_user result" where
  "oidc_claim_user env req settings s =
     rbind (assertEnabled settings) (\<lambda>_.
       let cookie = js_get (hr_cookies req) ''shieldpm_oidc'' in
       if \<not> is_str cookie \<or> \<not> truthy cookie then Inl (AuthError ''No OIDC cookie found'')
       else (case le_decrypt env (str_of cookie) of
               Inl _ \<Rightarrow> Inl (AuthError ''Invalid OIDC cookie'')
             | Inr decrypted \<Rightarrow>
                 (case js_split ''---'' decrypted of
                    token # expires # _ \<Rightarrow>
                      if token = [] \<or> expires = [] then Inl (AuthError ''Invalid token data in cookie'') else handed_user env token s
                  | _ \<Rightarrow> Inl (AuthError ''Invalid token data in cookie''))))"

definition post_oidc_claim :: "login_env \<Rightarrow> http_request \<Rightarrow> jsval \<Rightarrow> login_sys \<Rightarrow> handled" where
  "post_oidc_claim env req settings s =
     (case oidc_claim_user env req settings s of
        Inl e \<Rightarrow> (Json_error 400 (if err_public e then err_message e else ''OIDC authentication failed''), [], s)
      | Inr user \<Rightarrow>
          (case issue_session env (JObj [(''ip'', (case hr_ip req of None \<Rightarrow> Undef | Some i \<Rightarrow> JStr i)), (''userAgent'', hr_user_agent req)])
                  user (JStr ''user'') s of
             (Inl e, s') \<Rightarrow> (Json_error 400 (if err_public e then err_message e else ''OIDC authentication failed''), [], s')
           | (Inr pair, s') \<Rightarrow> (Signed_in pair, setAuthCookies env req pair @ [Clear_cookie ''shieldpm_oidc'' ''/''], s')))"

end
