(* ===== verification/Factor_Tables.thy ===== *)
theory Factor_Tables
  imports Factor_Challenges
begin

text \<open>
  How the tables of second factors change: the writes of the service, the fact that every operation of \<open>Two_Factor\<close> and
  \<open>Factor_Challenges\<close> is a sequence of them, and what a write keeps. A row keeps its kind, a one-time password its last
  time step and a recovery code its mark, however the writes of several requests are interleaved.
\<close>

section \<open>How the tables may change\<close>

interpretation method_table: keyed_table tf_id "{f. \<forall>x. tf_id (f x) = tf_id x}"
  by unfold_locales simp

interpretation code_table: keyed_table bc_id "{f. \<forall>x. bc_id (f x) = bc_id x}"
  by unfold_locales simp

definition db_ok :: "factor_db \<Rightarrow> bool" where
  "db_ok db \<longleftrightarrow> method_table.keys_ok (methods db) (next_method db) \<and> code_table.keys_ok (codes db) (next_code db)"

text \<open>The row a later row comes from: of the same kind, with the counter of a one-time password not set back.\<close>

definition from_method :: "twofa \<Rightarrow> twofa \<Rightarrow> bool" where
  "from_method m m' \<longleftrightarrow> tf_id m = tf_id m' \<and> tf_type m = tf_type m' \<and> (tf_type m' = ''totp'' \<longrightarrow> tf_counter m \<le> tf_counter m')"

definition from_code :: "backup_code \<Rightarrow> backup_code \<Rightarrow> bool" where
  "from_code c c' \<longleftrightarrow> bc_id c = bc_id c' \<and> (bc_used_at c \<noteq> None \<longrightarrow> bc_used_at c' \<noteq> None)"

definition grows :: "factor_db \<Rightarrow> factor_db \<Rightarrow> bool" where
  "grows db db' \<longleftrightarrow> next_method db \<le> next_method db' \<and> next_code db \<le> next_code db' \<and>
     (\<forall>m' \<in> set (methods db'). next_method db \<le> tf_id m' \<or> (\<exists>m \<in> set (methods db). from_method m m')) \<and>
     (\<forall>c' \<in> set (codes db'). next_code db \<le> bc_id c' \<or> (\<exists>c \<in> set (codes db). from_code c c'))"

definition progresses :: "factor_db \<Rightarrow> factor_db \<Rightarrow> bool" where
  "progresses db db' \<longleftrightarrow> (db_ok db \<longrightarrow> db_ok db' \<and> grows db db')"

lemma from_refl [simp]: "from_method m m" "from_code c c"
  by (simp_all add: from_method_def from_code_def)

lemma from_same [simp]: "m \<in> set ms \<Longrightarrow> \<exists>x \<in> set ms. from_method x m" "c \<in> set cs \<Longrightarrow> \<exists>x \<in> set cs. from_code x c"
  by (blast intro: from_refl)+

lemma from_trans: "from_method m m' \<Longrightarrow> from_method m' m'' \<Longrightarrow> from_method m m''" "from_code c c' \<Longrightarrow> from_code c' c'' \<Longrightarrow> from_code c c''"
  by (auto simp: from_method_def from_code_def)

lemma from_id: "from_method m m' \<Longrightarrow> tf_id m' = tf_id m" "from_code c c' \<Longrightarrow> bc_id c' = bc_id c"
  by (auto simp: from_method_def from_code_def)

lemma progresses_refl: "progresses db db"
  by (auto simp: progresses_def grows_def intro: from_refl)

lemma progresses_trans: "progresses a b \<Longrightarrow> progresses b c \<Longrightarrow> progresses a c"
proof -
  assume ab: "progresses a b" and bc: "progresses b c"
  show "progresses a c"
    unfolding progresses_def
  proof
    assume a: "db_ok a"
    with ab have b: "db_ok b" "grows a b" by (simp_all add: progresses_def)
    with bc have c: "db_ok c" "grows b c" by (simp_all add: progresses_def)
    have "next_method a \<le> tf_id m' \<or> (\<exists>m \<in> set (methods a). from_method m m')" if m': "m' \<in> set (methods c)" for m'
    proof (cases "next_method b \<le> tf_id m'")
      case True
      with b(2) show ?thesis by (simp add: grows_def)
    next
      case False
      with c(2) m' obtain m where m: "m \<in> set (methods b)" "from_method m m'" by (auto simp: grows_def)
      with b(2) show ?thesis unfolding grows_def by (metis from_trans(1) from_id(1))
    qed
    moreover have "next_code a \<le> bc_id c' \<or> (\<exists>x \<in> set (codes a). from_code x c')" if c': "c' \<in> set (codes c)" for c'
    proof (cases "next_code b \<le> bc_id c'")
      case True
      with b(2) show ?thesis by (simp add: grows_def)
    next
      case False
      with c(2) c' obtain x where x: "x \<in> set (codes b)" "from_code x c'" by (auto simp: grows_def)
      with b(2) show ?thesis unfolding grows_def by (metis from_trans(2) from_id(2))
    qed
    ultimately show "db_ok c \<and> grows a c" using b(2) c by (auto simp: grows_def)
  qed
qed

lemma progresses_delete: "progresses db (db\<lparr>methods := delete_where p (methods db)\<rparr>)"
  "progresses db (db\<lparr>codes := delete_where q (codes db)\<rparr>)"
  by (auto simp: progresses_def db_ok_def grows_def intro: method_table.keys_ok_delete code_table.keys_ok_delete from_refl)

lemma progresses_patch:
  assumes "\<And>m. m \<in> set (methods db) \<Longrightarrow> p m \<Longrightarrow> from_method m (f m)" and "\<And>m. tf_id (f m) = tf_id m"
  shows "progresses db (db\<lparr>methods := patch_where p f (methods db)\<rparr>)"
proof -
  have "f \<in> {f. \<forall>x. tf_id (f x) = tf_id x}" using assms(2) by simp
  then show ?thesis
    using assms(1) by (auto simp: progresses_def db_ok_def grows_def set_patch_where intro!: method_table.keys_ok_patch)
qed

lemma progresses_patch_codes:
  "progresses db (db\<lparr>codes := patch_where p (\<lambda>r. r\<lparr>bc_used_at := Some t\<rparr>) (codes db)\<rparr>)"
proof -
  have "(\<lambda>r. r\<lparr>bc_used_at := Some t\<rparr>) \<in> {f. \<forall>x. bc_id (f x) = bc_id x}" by simp
  then show ?thesis
    by (auto simp: progresses_def db_ok_def grows_def set_patch_where from_code_def intro!: code_table.keys_ok_patch)
qed

lemma progresses_insert: "progresses db (snd (insert_method row db))"
proof -
  have "method_table.keys_ok (methods db @ [row\<lparr>tf_id := next_method db\<rparr>]) (Suc (next_method db))" if "db_ok db"
    using that by (intro method_table.keys_ok_insert) (simp_all add: db_ok_def)
  then show ?thesis
    by (auto simp: progresses_def insert_method_def Let_def db_ok_def grows_def intro: from_refl)
qed

lemma progresses_insert_codes: "progresses db (insert_codes userId hs db)"
proof (induction userId hs db rule: insert_codes.induct)
  case (2 userId h hs db)
  let ?c = "\<lparr>bc_id = next_code db, bc_user_id = userId, bc_code_hash = h, bc_used_at = None\<rparr>"
  have "code_table.keys_ok (codes db @ [?c]) (Suc (next_code db))" if "db_ok db"
    using that by (intro code_table.keys_ok_insert) (simp_all add: db_ok_def)
  then have "progresses db (db\<lparr>codes := codes db @ [?c], next_code := Suc (next_code db)\<rparr>)"
    by (auto simp: progresses_def db_ok_def grows_def intro: from_refl)
  from progresses_trans [OF this 2] show ?case by simp
qed (simp add: progresses_refl)

section \<open>The writes\<close>

text \<open>One statement or transaction that does not depend on a row read before.\<close>

inductive factor_write :: "factor_db \<Rightarrow> factor_db \<Rightarrow> bool" where
  delete_methods: "factor_write db (db\<lparr>methods := delete_where p (methods db)\<rparr>)"
| delete_codes: "factor_write db (db\<lparr>codes := delete_where q (codes db)\<rparr>)"
| insert_row: "factor_write db (snd (insert_method row db))"
| insert_hashes: "factor_write db (insert_codes userId hs db)"
| set_verified: "factor_write db (db\<lparr>methods := patch_where p (\<lambda>r. r\<lparr>tf_is_verified := b\<rparr>) (methods db)\<rparr>)"
| set_deleted: "factor_write db (db\<lparr>methods := patch_where p (\<lambda>r. r\<lparr>tf_is_deleted := b\<rparr>) (methods db)\<rparr>)"

abbreviation writes :: "factor_db \<Rightarrow> factor_db \<Rightarrow> bool" where
  "writes \<equiv> factor_write\<^sup>*\<^sup>*"

lemma progresses_write: "factor_write db db' \<Longrightarrow> progresses db db'"
  by (induction rule: factor_write.induct)
    (auto intro: progresses_delete progresses_insert progresses_insert_codes intro!: progresses_patch simp: from_method_def)

lemma progresses_writes: "writes db db' \<Longrightarrow> progresses db db'"
  by (induction rule: rtranclp_induct) (auto intro: progresses_refl progresses_trans progresses_write)

lemma writes_refl: "writes db db"
  by simp

lemma writes_trans: "writes a b \<Longrightarrow> writes b c \<Longrightarrow> writes a c"
  by (rule rtranclp_trans)

lemmas writes_delete = r_into_rtranclp [of factor_write, OF delete_methods] r_into_rtranclp [of factor_write, OF delete_codes]
lemmas writes_insert = r_into_rtranclp [of factor_write, OF insert_row]
lemmas writes_insert_codes = r_into_rtranclp [of factor_write, OF insert_hashes]
lemmas writes_flags = r_into_rtranclp [of factor_write, OF set_verified] r_into_rtranclp [of factor_write, OF set_deleted]

section \<open>The operations\<close>

lemma writes_regenerate: "writes db (snd (regenerateBackupCodes env userId db))"
  unfolding regenerateBackupCodes_def Let_def snd_conv
  by (rule writes_trans [OF writes_delete(2) writes_insert_codes])

lemma writes_ensure: "writes db (snd (ensureBackupCodesExist env userId db))"
  using writes_regenerate [of db env userId] by (auto simp: ensureBackupCodesExist_def writes_refl split: prod.split)

lemma writes_add: "writes db (snd (ensureBackupCodesExist env userId (snd (insert_method row db))))"
  by (rule writes_trans [OF writes_insert writes_ensure])

lemma writes_store: "writes db (store_challenge userId t secret meta db)"
  unfolding store_challenge_def by (rule writes_trans [OF writes_delete(1) writes_insert])

lemma writes_setup: "writes db (snd (setupTotp env userId email db))"
  unfolding setupTotp_def Let_def
  by (auto split: sum.split intro: writes_refl writes_trans [OF writes_delete(1) writes_insert])

lemma writes_enable: "writes db (snd (verifyAndEnableTotp env userId input db))"
proof -
  have "writes db (snd (regenerateBackupCodes env userId (db\<lparr>methods := patch_where p (\<lambda>r. r\<lparr>tf_is_verified := True\<rparr>) (methods db)\<rparr>)))" for p
    by (rule writes_trans [OF writes_flags(1) writes_regenerate])
  then show ?thesis
    by (auto simp: verifyAndEnableTotp_def writes_refl split: option.split prod.split) (metis snd_conv)
qed

lemma writes_yubikey: "writes db (snd (addYubikey env userId otp label db))"
proof -
  have "writes db db2" if "insert_method row db = (r, db1)" "ensureBackupCodesExist env userId db1 = (cs, db2)" for row r db1 cs db2
    using writes_add [of db env userId row] that by simp
  then show ?thesis by (auto simp: addYubikey_def writes_refl split: sum.split prod.split)
qed

lemma writes_duo: "writes db (snd (setupDuo env userId config db))"
proof -
  have "writes db db2"
    if "insert_method row (db\<lparr>methods := patch_where p (\<lambda>r. r\<lparr>tf_is_deleted := True\<rparr>) (methods db)\<rparr>) = (r, db1)"
      "ensureBackupCodesExist env userId db1 = (cs, db2)" for row p r db1 cs db2
    using writes_trans [OF writes_flags(2) writes_add] that by (metis snd_conv)
  then show ?thesis by (auto simp: setupDuo_def writes_refl split: sum.split prod.split option.split)
qed

lemma writes_begin:
  "writes db (snd (beginPasskeyRegistration env us userId email req db))"
  "writes db (snd (beginPasskeyAuthentication env userId req db))"
  "writes db (snd (beginDuoAuthentication env userId email token expiresAt db))"
  by (auto simp: beginPasskeyRegistration_def beginPasskeyAuthentication_def beginDuoAuthentication_def Let_def
      writes_refl writes_store split: sum.split option.split)

lemma writes_remove: "writes db (snd (removeTwoFaMethod userId methodId db))"
proof -
  define db1 where "db1 = db\<lparr>methods := patch_where (\<lambda>r. tf_id r = methodId) (\<lambda>r. r\<lparr>tf_is_deleted := True\<rparr>) (methods db)\<rparr>"
  have "writes db db1" unfolding db1_def by (rule writes_flags(2))
  then have "writes db (db1\<lparr>codes := delete_where (\<lambda>c. bc_user_id c = userId) (codes db1)\<rparr>)"
    by (rule writes_trans [OF _ writes_delete(2)])
  with \<open>writes db db1\<close> show ?thesis
    by (auto simp: removeTwoFaMethod_def Let_def writes_refl db1_def split: option.split)
qed

text \<open>The writes on rows that were read before.\<close>

definition same_type :: "twofa \<Rightarrow> factor_db \<Rightarrow> bool" where
  "same_type r db \<longleftrightarrow> (\<forall>m \<in> set (methods db). tf_id m = tf_id r \<longrightarrow> tf_type m = tf_type r)"

lemma progresses_totp: "progresses db (snd (totp_attempt env userId input r db))"
  by (auto simp: totp_attempt_def Let_def from_method_def progresses_refl split: prod.split bool.split option.split intro!: progresses_patch)

lemma progresses_use_code: "progresses db (snd (consume_code env userId c db))"
  by (simp add: consume_code_def Let_def progresses_patch_codes)

lemma progresses_consume: "progresses db (snd (consumeChallenge label c db))"
  by (simp add: consumeChallenge_def Let_def progresses_delete)

lemma progresses_advance: "tf_type pk \<noteq> ''totp'' \<Longrightarrow> same_type pk db \<Longrightarrow> progresses db (snd (advance_counter userId pk n db))"
  by (auto simp: advance_counter_def Let_def same_type_def from_method_def intro!: progresses_patch)

end
