(* ===== verification/Factor_Claims.thy ===== *)
theory Factor_Claims
  imports Factor_Tables
begin

text \<open>
  Second factors over any interleaving of requests. A request reads rows, and later compares and writes; in between any
  other request may write. The system of this theory has these reads, compares and writes as its steps, and records what
  an accepted compare has used up: a time step of a one-time password, a recovery code, or a challenge.
\<close>

section \<open>Interleaved requests\<close>

datatype factor_use = Totp_use nat int | Code_use nat | Challenge_use nat

record factor_sys =
  fdb :: factor_db
  read_methods :: "twofa list"
  read_codes :: "backup_code list"

definition totp_use :: "factor_env \<Rightarrow> string \<Rightarrow> twofa \<Rightarrow> factor_use" where
  "totp_use env input r = Totp_use (tf_id r) (the (snd (fe_totp env input (tf_secret r))))"

inductive factor_step :: "factor_sys \<Rightarrow> factor_use option \<Rightarrow> factor_sys \<Rightarrow> bool" where
  read_method: "r \<in> set (methods (fdb s)) \<Longrightarrow> factor_step s None (s\<lparr>read_methods := r # read_methods s\<rparr>)"
| read_code: "c \<in> set (codes (fdb s)) \<Longrightarrow> factor_step s None (s\<lparr>read_codes := c # read_codes s\<rparr>)"
| db_write: "factor_write (fdb s) db' \<Longrightarrow> factor_step s None (s\<lparr>fdb := db'\<rparr>)"
| totp_ok: "r \<in> set (read_methods s) \<Longrightarrow> tf_type r = ''totp'' \<Longrightarrow> totp_attempt env userId input r (fdb s) = (True, db') \<Longrightarrow>
     factor_step s (Some (totp_use env input r)) (s\<lparr>fdb := db'\<rparr>)"
| totp_lost: "r \<in> set (read_methods s) \<Longrightarrow> tf_type r = ''totp'' \<Longrightarrow> totp_attempt env userId input r (fdb s) = (False, db') \<Longrightarrow>
     factor_step s None (s\<lparr>fdb := db'\<rparr>)"
| code_ok: "c \<in> set (read_codes s) \<Longrightarrow> consume_code env userId c (fdb s) = (True, db') \<Longrightarrow>
     factor_step s (Some (Code_use (bc_id c))) (s\<lparr>fdb := db'\<rparr>)"
| code_lost: "c \<in> set (read_codes s) \<Longrightarrow> consume_code env userId c (fdb s) = (False, db') \<Longrightarrow>
     factor_step s None (s\<lparr>fdb := db'\<rparr>)"
| challenge_ok: "r \<in> set (read_methods s) \<Longrightarrow> consumeChallenge label r (fdb s) = (Inr v, db') \<Longrightarrow>
     factor_step s (Some (Challenge_use (tf_id r))) (s\<lparr>fdb := db'\<rparr>)"
| challenge_lost: "r \<in> set (read_methods s) \<Longrightarrow> consumeChallenge label r (fdb s) = (Inl e, db') \<Longrightarrow>
     factor_step s None (s\<lparr>fdb := db'\<rparr>)"
| passkey: "r \<in> set (read_methods s) \<Longrightarrow> tf_type r = ''passkey'' \<Longrightarrow> advance_counter userId r n (fdb s) = (v, db') \<Longrightarrow>
     factor_step s None (s\<lparr>fdb := db'\<rparr>)"

inductive factor_run :: "factor_sys \<Rightarrow> factor_use list \<Rightarrow> factor_sys \<Rightarrow> bool" where
  run_nil: "factor_run s [] s"
| run_step: "factor_run s us t \<Longrightarrow> factor_step t u t' \<Longrightarrow> factor_run s (us @ (case u of None \<Rightarrow> [] | Some k \<Rightarrow> [k])) t'"

definition factor_init :: "factor_db \<Rightarrow> factor_sys" where
  "factor_init db = \<lparr>fdb = db, read_methods = [], read_codes = []\<rparr>"

section \<open>Invariant and marks\<close>

definition factor_inv :: "factor_sys \<Rightarrow> bool" where
  "factor_inv s \<longleftrightarrow> db_ok (fdb s) \<and> (\<forall>r \<in> set (read_methods s). tf_id r < next_method (fdb s) \<and> same_type r (fdb s))"

fun used_up :: "factor_sys \<Rightarrow> factor_use \<Rightarrow> bool" where
  "used_up s (Totp_use i t) \<longleftrightarrow> i < next_method (fdb s) \<and>
     (\<forall>m \<in> set (methods (fdb s)). tf_id m = i \<longrightarrow> tf_type m = ''totp'' \<and> t \<le> tf_counter m)"
| "used_up s (Code_use i) \<longleftrightarrow> i < next_code (fdb s) \<and> (\<forall>c \<in> set (codes (fdb s)). bc_id c = i \<longrightarrow> bc_used_at c \<noteq> None)"
| "used_up s (Challenge_use i) \<longleftrightarrow> i < next_method (fdb s) \<and> (\<forall>m \<in> set (methods (fdb s)). tf_id m \<noteq> i)"

lemma step_progresses:
  assumes "factor_inv s" "factor_step s u s'"
  shows "progresses (fdb s) (fdb s')"
  using assms(2,1)
proof (cases rule: factor_step.cases)
  case (totp_ok r env userId input db')
  with progresses_totp [of "fdb s" env userId input r] show ?thesis by simp
next
  case (totp_lost r env userId input db')
  with progresses_totp [of "fdb s" env userId input r] show ?thesis by simp
next
  case (code_ok c env userId db')
  with progresses_use_code [of "fdb s" env userId c] show ?thesis by simp
next
  case (code_lost c env userId db')
  with progresses_use_code [of "fdb s" env userId c] show ?thesis by simp
next
  case (challenge_ok r label v db')
  with progresses_consume [of "fdb s" label r] show ?thesis by simp
next
  case (challenge_lost r label e db')
  with progresses_consume [of "fdb s" label r] show ?thesis by simp
next
  case (passkey r userId n v db')
  with assms(1) progresses_advance [of r "fdb s" userId n] show ?thesis by (simp add: factor_inv_def)
qed (simp_all add: progresses_refl progresses_write)

lemma grows_same_type:
  assumes "grows db db'" "tf_id r < next_method db" "same_type r db"
  shows "tf_id r < next_method db' \<and> same_type r db'"
  using assms by (fastforce simp: grows_def same_type_def from_method_def)

lemma step_reads:
  "factor_step s u s' \<Longrightarrow> r \<in> set (read_methods s') \<Longrightarrow> r \<in> set (read_methods s) \<or> r \<in> set (methods (fdb s)) \<and> fdb s' = fdb s"
  by (erule factor_step.cases) auto

lemma inv_step: "factor_inv s \<Longrightarrow> factor_step s u s' \<Longrightarrow> factor_inv s'"
proof -
  assume inv: "factor_inv s" and step: "factor_step s u s'"
  from step_progresses [OF this] inv have db: "db_ok (fdb s')" "grows (fdb s) (fdb s')" by (simp_all add: progresses_def factor_inv_def)
  have "tf_id r < next_method (fdb s') \<and> same_type r (fdb s')" if "r \<in> set (read_methods s')" for r
    using step_reads [OF step that]
  proof
    assume "r \<in> set (read_methods s)"
    with inv db(2) show ?thesis by (simp add: factor_inv_def grows_same_type)
  next
    assume r: "r \<in> set (methods (fdb s)) \<and> fdb s' = fdb s"
    with db(1) show ?thesis
      by (auto simp: db_ok_def same_type_def method_table.keys_ok_def dest: distinct_key_eq)
  qed
  with db(1) show ?thesis by (simp add: factor_inv_def)
qed

lemma grows_used_up:
  assumes "grows (fdb s) (fdb s')" "used_up s k"
  shows "used_up s' k"
  using assms by (cases k) (fastforce simp: grows_def from_method_def from_code_def)+

definition any_step :: "factor_sys \<Rightarrow> factor_sys \<Rightarrow> bool" where
  "any_step s s' \<longleftrightarrow> (\<exists>u. factor_step s u s')"

interpretation factors: stable_system any_step factor_inv used_up
proof unfold_locales
  show "factor_inv t" if "factor_inv s" "any_step s t" for s t
    using that inv_step by (auto simp: any_step_def)
  show "used_up t k" if "factor_inv s" "any_step s t" "used_up s k" for s t k
  proof -
    from that(2) obtain u where "factor_step s u t" by (auto simp: any_step_def)
    with that(1) have "grows (fdb s) (fdb t)" using step_progresses by (auto simp: progresses_def factor_inv_def)
    then show ?thesis using that(3) by (rule grows_used_up)
  qed
qed

section \<open>Uses\<close>

lemma count_where_1: "count_where q rows = 1 \<Longrightarrow> \<exists>r \<in> set rows. q r"
  by (metis One_nat_def count_where_0 zero_neq_one)

lemma totp_attempt_ok:
  assumes "totp_attempt env userId input r db = (True, db')"
  shows "\<exists>t m. fe_totp env input (tf_secret r) = (True, Some t) \<and> tf_counter r < t \<and> m \<in> set (methods db) \<and>
    tf_id m = tf_id r \<and> tf_user_id m = userId \<and> tf_counter m = tf_counter r \<and> tf_is_verified m \<and> \<not> tf_is_deleted m \<and>
    db' = db\<lparr>methods := patch_where (\<lambda>m. tf_id m = tf_id r \<and> tf_user_id m = userId \<and> tf_counter m = tf_counter r \<and>
      tf_is_verified m \<and> \<not> tf_is_deleted m) (\<lambda>m. m\<lparr>tf_counter := t\<rparr>) (methods db)\<rparr>"
  using assms count_where_1 [of _ "methods db"]
  by (fastforce simp: totp_attempt_def Let_def split: prod.splits bool.splits option.splits if_splits)

lemma consume_code_ok:
  assumes "consume_code env userId c db = (True, db')"
  shows "\<exists>x \<in> set (codes db). bc_id x = bc_id c \<and> bc_user_id x = userId \<and> bc_used_at x = None"
proof -
  have "count_where (\<lambda>r. bc_id r = bc_id c \<and> bc_user_id r = userId \<and> bc_used_at r = None) (codes db) = 1"
    using assms by (simp add: consume_code_def Let_def)
  from count_where_1 [OF this] show ?thesis by blast
qed

lemma consume_challenge_ok:
  assumes "consumeChallenge label c db = (Inr v, db')"
  shows "\<exists>x \<in> set (methods db). tf_id x = tf_id c \<and> \<not> tf_is_verified x"
proof -
  have "count_where (\<lambda>m. tf_id m = tf_id c \<and> \<not> tf_is_verified m) (methods db) = 1"
    using assms by (simp add: consumeChallenge_def Let_def split: if_splits)
  from count_where_1 [OF this] show ?thesis by blast
qed

lemma use_fresh:
  assumes "factor_step s (Some k) s'"
  shows "\<not> used_up s k"
  using assms
proof (cases rule: factor_step.cases)
  case (totp_ok r env userId input db')
  then show ?thesis using totp_attempt_ok [OF totp_ok(5)] by (force simp: totp_use_def)
next
  case (code_ok c env userId db')
  then show ?thesis using consume_code_ok [OF code_ok(4)] by auto
next
  case (challenge_ok r label v db')
  then show ?thesis using consume_challenge_ok [OF challenge_ok(4)] by auto
qed

lemma use_marks:
  assumes inv: "factor_inv s" and step: "factor_step s (Some k) s'"
  shows "used_up s' k"
  using step
proof (cases rule: factor_step.cases)
  case (totp_ok r env userId input db')
  from inv totp_ok have r: "same_type r (fdb s)" "tf_id r < next_method (fdb s)" and keys: "method_table.keys_ok (methods (fdb s)) (next_method (fdb s))"
    by (auto simp: factor_inv_def db_ok_def)
  obtain t m where t: "fe_totp env input (tf_secret r) = (True, Some t)" and m: "m \<in> set (methods (fdb s))" "tf_id m = tf_id r"
      "tf_user_id m = userId" "tf_counter m = tf_counter r" "tf_is_verified m" "\<not> tf_is_deleted m"
    and db': "db' = (fdb s)\<lparr>methods := patch_where (\<lambda>m. tf_id m = tf_id r \<and> tf_user_id m = userId \<and> tf_counter m = tf_counter r \<and>
      tf_is_verified m \<and> \<not> tf_is_deleted m) (\<lambda>m. m\<lparr>tf_counter := t\<rparr>) (methods (fdb s))\<rparr>"
    using totp_attempt_ok [OF totp_ok(5)] by blast
  have uniq: "x = m" if "x \<in> set (methods (fdb s))" "tf_id x = tf_id r" for x
    using method_table.keys_ok_eq [OF keys that(1) m(1)] that(2) m(2) by simp
  have type: "tf_type m = ''totp''" using r(1) m(1,2) totp_ok(4) by (simp add: same_type_def)
  have "tf_type x = ''totp'' \<and> t \<le> tf_counter x" if x: "x \<in> set (methods db')" "tf_id x = tf_id r" for x
  proof -
    let ?q = "\<lambda>m. tf_id m = tf_id r \<and> tf_user_id m = userId \<and> tf_counter m = tf_counter r \<and> tf_is_verified m \<and> \<not> tf_is_deleted m"
    from x(1) obtain y where y: "y \<in> set (methods (fdb s))" "x = (if ?q y then y\<lparr>tf_counter := t\<rparr> else y)"
      unfolding db' by (auto simp: set_patch_where)
    then have "tf_id y = tf_id r" using x(2) by (simp split: if_splits)
    with y(1) have "y = m" by (rule uniq)
    with y(2) m have "x = m\<lparr>tf_counter := t\<rparr>" by simp
    with type show ?thesis by simp
  qed
  moreover have "next_method db' = next_method (fdb s)" by (simp add: db')
  ultimately show ?thesis using r(2) t totp_ok(1,2) by (simp add: totp_use_def)
next
  case (code_ok c env userId db')
  let ?q = "\<lambda>r. bc_id r = bc_id c \<and> bc_user_id r = userId \<and> bc_used_at r = None"
  have keys: "code_table.keys_ok (codes (fdb s)) (next_code (fdb s))" using inv by (simp add: factor_inv_def db_ok_def)
  from consume_code_ok [OF code_ok(4)] obtain x where x: "x \<in> set (codes (fdb s))" "?q x" by blast
  have uniq: "y = x" if "y \<in> set (codes (fdb s))" "bc_id y = bc_id c" for y
    using code_table.keys_ok_eq [OF keys that(1) x(1)] that(2) x(2) by simp
  have db': "db' = (fdb s)\<lparr>codes := patch_where ?q (\<lambda>r. r\<lparr>bc_used_at := Some (fe_now env)\<rparr>) (codes (fdb s))\<rparr>"
    using code_ok(4) by (simp add: consume_code_def Let_def)
  have "bc_used_at y \<noteq> None" if y: "y \<in> set (codes db')" "bc_id y = bc_id c" for y
  proof -
    from y(1) obtain z where z: "z \<in> set (codes (fdb s))" "y = (if ?q z then z\<lparr>bc_used_at := Some (fe_now env)\<rparr> else z)"
      unfolding db' by (auto simp: set_patch_where)
    then have "bc_id z = bc_id c" using y(2) by (simp split: if_splits)
    with z(1) have "z = x" by (rule uniq)
    with z(2) x(2) show ?thesis by simp
  qed
  moreover have "bc_id c < next_code db'" using x keys by (auto simp: db' code_table.keys_ok_def)
  ultimately show ?thesis using code_ok(1,2) by simp
next
  case (challenge_ok r label v db')
  let ?q = "\<lambda>m. tf_id m = tf_id r \<and> \<not> tf_is_verified m"
  have keys: "method_table.keys_ok (methods (fdb s)) (next_method (fdb s))" using inv by (simp add: factor_inv_def db_ok_def)
  from consume_challenge_ok [OF challenge_ok(4)] obtain x where x: "x \<in> set (methods (fdb s))" "?q x" by blast
  have uniq: "y = x" if "y \<in> set (methods (fdb s))" "tf_id y = tf_id r" for y
    using method_table.keys_ok_eq [OF keys that(1) x(1)] that(2) x(2) by simp
  have db': "db' = (fdb s)\<lparr>methods := delete_where ?q (methods (fdb s))\<rparr>"
    using challenge_ok(4) by (simp add: consumeChallenge_def Let_def)
  have "tf_id y \<noteq> tf_id r" if "y \<in> set (methods db')" for y
    using that uniq [of y] x(2) by (auto simp: db')
  moreover have "tf_id r < next_method db'" using x keys by (auto simp: db' method_table.keys_ok_def)
  ultimately show ?thesis using challenge_ok(1,2) by simp
qed

lemma run_invariant:
  "factor_run s us t \<Longrightarrow> factor_inv s \<Longrightarrow> factor_inv t \<and> (\<forall>k \<in> set us. used_up t k) \<and> distinct us"
proof (induction rule: factor_run.induct)
  case (run_step s us t u t')
  then have t: "factor_inv t" "\<forall>k \<in> set us. used_up t k" "distinct us" by auto
  have step: "any_step t t'" using run_step by (auto simp: any_step_def)
  have "\<forall>k \<in> set us. used_up t' k" using factors.step_mark [OF t(1) step] t(2) by blast
  moreover have "k \<notin> set us \<and> used_up t' k" if "u = Some k" for k
    using that use_fresh use_marks [OF t(1)] run_step.hyps(2) t(2) by blast
  ultimately show ?case using factors.step_inv [OF t(1) step] t(3) by (auto split: option.split)
qed simp

lemma init_inv: "db_ok db \<Longrightarrow> factor_inv (factor_init db)"
  by (simp add: factor_inv_def factor_init_def)

section \<open>No second use\<close>

text \<open>C1. Whatever requests are in flight and however their reads, compares and writes are interleaved, a recovery code, a
  challenge of a passkey or of Duo, and a time step of a one-time password are accepted at most once: the accepted uses
  of any run from consistent tables are distinct.\<close>

theorem second_factor_used_once:
  assumes "db_ok db" and "factor_run (factor_init db) uses s"
  shows "distinct uses"
  using run_invariant [OF assms(2) init_inv [OF assms(1)]] by simp

lemma run_append: "factor_run t vs u \<Longrightarrow> factor_run s us t \<Longrightarrow> factor_run s (us @ vs) u"
  by (induction rule: factor_run.induct) (auto simp flip: append_assoc intro: factor_run.intros)

lemma run_one: "factor_step s u t \<Longrightarrow> factor_run s (case u of None \<Rightarrow> [] | Some k \<Rightarrow> [k]) t"
  using run_step [OF run_nil] by fastforce

lemma run_cons: "factor_step s None t \<Longrightarrow> factor_run t vs u \<Longrightarrow> factor_run s vs u"
  using run_append [OF _ run_one] by fastforce

lemma run_use: "factor_step s (Some k) t \<Longrightarrow> factor_run s [k] t"
  using run_one by fastforce

lemma run_read_all:
  "set rs \<subseteq> set (methods (fdb s)) \<Longrightarrow>
   \<exists>t. factor_run s [] t \<and> fdb t = fdb s \<and> set rs \<union> set (read_methods s) \<subseteq> set (read_methods t)"
proof (induction rs arbitrary: s)
  case (Cons r rs)
  let ?s = "s\<lparr>read_methods := r # read_methods s\<rparr>"
  have "factor_step s None ?s" using Cons.prems by (intro read_method) simp
  moreover obtain t where "factor_run ?s [] t" "fdb t = fdb s" "set rs \<union> insert r (set (read_methods s)) \<subseteq> set (read_methods t)"
    using Cons.IH [of ?s] Cons.prems by auto
  ultimately show ?case by (intro exI [of _ t]) (auto intro: run_cons)
qed (auto intro: run_nil)

lemma run_totp_loop:
  assumes "totp_loop env userId input rs (fdb s) = (True, db')" and "set rs \<subseteq> set (read_methods s)" and "\<forall>r \<in> set rs. tf_type r = ''totp''"
  shows "\<exists>t r step. factor_run s [Totp_use (tf_id r) step] t \<and> fdb t = db' \<and> r \<in> set rs \<and>
    fe_totp env input (tf_secret r) = (True, Some step) \<and> tf_counter r < step"
  using assms
proof (induction rs arbitrary: s)
  case (Cons r rs)
  obtain ok db1 where a: "totp_attempt env userId input r (fdb s) = (ok, db1)" by fastforce
  show ?case
  proof (cases ok)
    case True
    with a have "totp_attempt env userId input r (fdb s) = (True, db1)" by simp
    from totp_attempt_ok [OF this] obtain step where v: "fe_totp env input (tf_secret r) = (True, Some step)" "tf_counter r < step"
      by blast
    have "factor_step s (Some (totp_use env input r)) (s\<lparr>fdb := db1\<rparr>)" using a True Cons.prems by (intro totp_ok) auto
    with v have "factor_run s [Totp_use (tf_id r) step] (s\<lparr>fdb := db1\<rparr>)" by (auto simp: totp_use_def dest: run_use)
    moreover have "db1 = db'" using a True Cons.prems(1) by simp
    ultimately show ?thesis using v by (intro exI [of _ "s\<lparr>fdb := db1\<rparr>"] exI [of _ r] exI [of _ step]) auto
  next
    case False
    then have "factor_step s None (s\<lparr>fdb := db1\<rparr>)" using a Cons.prems by (intro totp_lost) auto
    moreover have rest: "totp_loop env userId input rs (fdb (s\<lparr>fdb := db1\<rparr>)) = (True, db')" using a False Cons.prems(1) by simp
    from Cons.IH [OF this] Cons.prems(2,3) obtain t q step where "factor_run (s\<lparr>fdb := db1\<rparr>) [Totp_use (tf_id q) step] t" "fdb t = db'" "q \<in> set rs"
        "fe_totp env input (tf_secret q) = (True, Some step)" "tf_counter q < step" by auto
    ultimately show ?thesis by (intro exI [of _ t] exI [of _ q] exI [of _ step]) (auto intro: run_cons)
  qed
qed simp


section \<open>Recovery codes\<close>

lemma insert_codes_rows:
  "\<exists>new. codes (insert_codes userId hs db) = codes db @ new \<and> map bc_code_hash new = hs \<and>
     (\<forall>c \<in> set new. bc_user_id c = userId \<and> bc_used_at c = None)"
proof (induction userId hs db rule: insert_codes.induct)
  case (2 userId h hs db)
  let ?c = "\<lparr>bc_id = next_code db, bc_user_id = userId, bc_code_hash = h, bc_used_at = None\<rparr>"
  from 2 obtain new where new: "codes (insert_codes userId (h # hs) db) = (codes db @ [?c]) @ new" "map bc_code_hash new = hs"
      "\<forall>c \<in> set new. bc_user_id c = userId \<and> bc_used_at c = None"
    by auto
  show ?case
    by (rule exI [of _ "?c # new"]) (use new in simp)
qed simp

lemma fresh_codes:
  assumes "regenerateBackupCodes env userId db = (cs, db')"
  shows "map bc_code_hash (unused_codes userId db') = map2 (fe_hash env) [0..<BACKUP_CODE_COUNT] cs \<and> length cs = BACKUP_CODE_COUNT"
proof -
  let ?db = "db\<lparr>codes := delete_where (\<lambda>c. bc_user_id c = userId) (codes db)\<rparr>"
  have cs: "length cs = BACKUP_CODE_COUNT" and db': "db' = insert_codes userId (map2 (fe_hash env) [0..<BACKUP_CODE_COUNT] cs) ?db"
    using assms by (auto simp: regenerateBackupCodes_def Let_def)
  obtain new where new: "codes db' = codes ?db @ new" "map bc_code_hash new = map2 (fe_hash env) [0..<BACKUP_CODE_COUNT] cs"
      "\<forall>c \<in> set new. bc_user_id c = userId \<and> bc_used_at c = None"
    using insert_codes_rows [of userId "map2 (fe_hash env) [0..<BACKUP_CODE_COUNT] cs" ?db] unfolding db' by auto
  have "filter (\<lambda>c. bc_user_id c = userId \<and> bc_used_at c = None) (codes ?db) = []" by (auto simp: filter_empty_conv)
  moreover have "filter (\<lambda>c. bc_user_id c = userId \<and> bc_used_at c = None) new = new" using new(3) by simp
  ultimately show ?thesis using new cs by (simp add: unused_codes_def)
qed

text \<open>The unused codes after one is used up.\<close>

lemma consume_unused:
  assumes "db_ok db" and c: "c \<in> set (unused_codes userId db)"
  shows "\<exists>db'. consume_code env userId c db = (True, db') \<and>
    unused_codes userId db' = filter (\<lambda>x. x \<noteq> c) (unused_codes userId db)"
proof -
  let ?q = "\<lambda>r. bc_id r = bc_id c \<and> bc_user_id r = userId \<and> bc_used_at r = None"
  let ?u = "\<lambda>r. bc_user_id r = userId \<and> bc_used_at r = None"
  have keys: "distinct (map bc_id (codes db))" using assms(1) by (simp add: db_ok_def code_table.keys_ok_def)
  have mem: "c \<in> set (codes db)" "?u c" using c by (auto simp: unused_codes_def)
  have q: "?q x \<longleftrightarrow> x = c" if "x \<in> set (codes db)" for x
    using distinct_key_eq [OF keys that mem(1)] mem(2) by auto
  have "filter ?q (codes db) = filter (\<lambda>x. bc_id x = bc_id c) (codes db)"
    using distinct_key_eq [OF keys _ mem(1)] mem(2) by (intro filter_cong) auto
  then have one: "count_where ?q (codes db) = 1" using filter_single [OF keys mem(1)] by (simp add: count_where_def)
  have "filter ?u (patch_where ?q (\<lambda>r. r\<lparr>bc_used_at := Some t\<rparr>) xs) = filter (\<lambda>x. x \<noteq> c) (filter ?u xs)"
    if "set xs \<subseteq> set (codes db)" for xs t
    using that by (induction xs) (use q mem in \<open>auto simp: patch_where_def\<close>)
  from this [of "codes db"] one show ?thesis by (simp add: consume_code_def Let_def unused_codes_def)
qed

lemma verify_unused:
  assumes "db_ok db"
  shows "fst (verifyBackupCode env userId input db) \<longleftrightarrow> (\<exists>c \<in> set (unused_codes userId db). fe_compare env (clean_code input) (bc_code_hash c))"
    and "matching_code env (clean_code input) (unused_codes userId db) = Some c \<Longrightarrow>
      unused_codes userId (snd (verifyBackupCode env userId input db)) = filter (\<lambda>x. x \<noteq> c) (unused_codes userId db)"
proof -
  have used: "\<exists>db'. consume_code env userId c db = (True, db') \<and> unused_codes userId db' = filter (\<lambda>x. x \<noteq> c) (unused_codes userId db)"
    if "matching_code env (clean_code input) (unused_codes userId db) = Some c" for c
    using that find_SomeD [of _ "unused_codes userId db" c] by (intro consume_unused [OF assms]) (auto simp: matching_code_def)
  show "fst (verifyBackupCode env userId input db) \<longleftrightarrow> (\<exists>c \<in> set (unused_codes userId db). fe_compare env (clean_code input) (bc_code_hash c))"
  proof (cases "matching_code env (clean_code input) (unused_codes userId db)")
    case None
    then have "\<forall>c \<in> set (unused_codes userId db). \<not> fe_compare env (clean_code input) (bc_code_hash c)"
      by (simp add: matching_code_def find_None)
    with None show ?thesis by (simp add: verifyBackupCode_def findAndConsume_def)
  next
    case (Some c)
    with used [OF Some] show ?thesis
      by (auto simp: verifyBackupCode_def findAndConsume_def matching_code_def dest!: find_SomeD)
  qed
  show "unused_codes userId (snd (verifyBackupCode env userId input db)) = filter (\<lambda>x. x \<noteq> c) (unused_codes userId db)"
    if "matching_code env (clean_code input) (unused_codes userId db) = Some c"
    using used [OF that] that by (auto simp: verifyBackupCode_def findAndConsume_def)
qed

lemma verify_ok_db: "db_ok db \<Longrightarrow> db_ok (snd (verifyBackupCode env userId input db))"
  using progresses_use_code [of db env userId]
  by (auto simp: verifyBackupCode_def findAndConsume_def progresses_def split: option.split prod.split) (metis snd_conv)

text \<open>The rows that stand for a list of codes.\<close>

lemma standing_codes:
  assumes us: "list_all2 (\<lambda>x p. \<forall>q. fe_compare env q (bc_code_hash x) \<longleftrightarrow> q = p) us cs" and "distinct cs"
    and c: "c \<in> set us" "fe_compare env plain (bc_code_hash c)"
  shows "(\<exists>x \<in> set (filter (\<lambda>x. x \<noteq> c) us). fe_compare env q (bc_code_hash x)) \<longleftrightarrow> q \<in> set cs \<and> q \<noteq> plain"
proof -
  have at: "fe_compare env p (bc_code_hash (us ! j)) \<longleftrightarrow> p = cs ! j" if "j < length us" for p j
    using list_all2_nthD [OF us that] by blast
  have len: "length us = length cs" using us by (rule list_all2_lengthD)
  obtain i where i: "i < length us" "us ! i = c" using c(1) by (auto simp: in_set_conv_nth)
  then have plain: "cs ! i = plain" using at [of i plain] c(2) by simp
  have "us ! j \<noteq> c \<longleftrightarrow> j \<noteq> i" if j: "j < length us" for j
  proof
    assume "us ! j \<noteq> c"
    with i show "j \<noteq> i" by auto
  next
    assume "j \<noteq> i"
    with j i(1) len \<open>distinct cs\<close> have "cs ! j \<noteq> plain" unfolding plain [symmetric] by (simp add: nth_eq_iff_index_eq)
    with at [OF j, of plain] c(2) show "us ! j \<noteq> c" by auto
  qed
  then have "(\<exists>x \<in> set (filter (\<lambda>x. x \<noteq> c) us). fe_compare env q (bc_code_hash x)) \<longleftrightarrow> (\<exists>j < length us. j \<noteq> i \<and> q = cs ! j)"
    using at by (auto simp: in_set_conv_nth Bex_def)
  also have "\<dots> \<longleftrightarrow> q \<in> set cs \<and> q \<noteq> plain"
    using i(1) len plain \<open>distinct cs\<close> by (auto simp: in_set_conv_nth nth_eq_iff_index_eq)
  finally show ?thesis .
qed


section \<open>Challenges\<close>

lemma consume_gone:
  assumes "db_ok db" and "consumeChallenge label c db = (Inr v, db')"
  shows "\<forall>m \<in> set (methods db'). tf_id m \<noteq> tf_id c"
proof -
  from consume_challenge_ok [OF assms(2)] obtain x where x: "x \<in> set (methods db)" "tf_id x = tf_id c \<and> \<not> tf_is_verified x" by blast
  have "y = x" if "y \<in> set (methods db)" "tf_id y = tf_id c" for y
    using that x assms(1) method_table.keys_ok_eq [of "methods db" "next_method db" y x] by (simp add: db_ok_def)
  moreover have "db' = db\<lparr>methods := delete_where (\<lambda>r. tf_id r = tf_id c \<and> \<not> tf_is_verified r) (methods db)\<rparr>"
    using assms(2) by (simp add: consumeChallenge_def Let_def)
  ultimately show ?thesis using x by (metis (mono_tags, lifting) factor_db.select_convs(1) factor_db.surjective
      factor_db.update_convs(1) mem_Collect_eq set_delete_where)
qed

lemma consume_first:
  assumes "db_ok db" and "c \<in> set (methods db)" and "\<not> tf_is_verified c"
  shows "fst (consumeChallenge label c db) = Inr ()"
proof -
  have keys: "distinct (map tf_id (methods db))" using assms(1) by (simp add: db_ok_def method_table.keys_ok_def)
  have "filter (\<lambda>r. tf_id r = tf_id c \<and> \<not> tf_is_verified r) (methods db) = filter (\<lambda>r. tf_id r = tf_id c) (methods db)"
    using distinct_key_eq [OF keys _ assms(2)] assms(3) by (intro filter_cong) auto
  then show ?thesis using filter_single [OF keys assms(2)] by (simp add: consumeChallenge_def Let_def count_where_def)
qed

lemma fresh_challenge:
  "requireFreshChallenge t0 label (Some c) = Inr v \<Longrightarrow> v = c \<and> (\<exists>t. js_get (tf_meta c) ''expiresAt'' = JNum t \<and> t0 < t)"
  by (auto simp: requireFreshChallenge_def split: jsval.splits if_splits)

text \<open>C11. A login through Duo is bound to its browser and its state: when it completes, a challenge of the user was open whose
  secret is the tag of this browser's token and whose state tag is the one of the state that came back, it was not expired
  before nor after Duo was asked, Duo allowed this code for this user, the account is active, and the challenge is gone.\<close>

theorem duo_login_bound:
  assumes "db_ok db" and "completeDuoAuthentication env us browserToken duoCode state db = (Inr (Some user), db')"
  shows "\<exists>c \<in> set (methods db). \<exists>client answer t.
    tf_type c = ''duo_auth_challenge'' \<and> tf_secret c = Some (getDuoChallengeTag env ''binding'' (str_of browserToken)) \<and>
    fe_hex env (js_string (js_get (tf_meta c) ''challenge'')) = fe_hex env (getDuoChallengeTag env ''state'' (str_of state)) \<and>
    js_get (tf_meta c) ''expiresAt'' = JNum t \<and> fe_now env < t \<and> fe_later env < t \<and>
    user \<in> set us \<and> su_id user = tf_user_id c \<and> \<not> su_is_deleted user \<and> \<not> su_is_disabled user \<and>
    (\<exists>duo \<in> set (getActiveForUser (tf_user_id c) db). tf_type duo = ''duo'' \<and> createDuoClient env (tf_meta duo) = Inr client) \<and>
    fe_duo_exchange env client (str_of duoCode) (su_email user) = Inr answer \<and> duo_allowed answer \<and>
    (\<forall>m \<in> set (methods db'). tf_id m \<noteq> tf_id c)"
proof -
  obtain c u client where ck: "duo_check env us browserToken duoCode state db = Inr (c, u, client)"
      and cm: "duo_commit env us duoCode c u client db = (Inr (Some user), db')"
    using assms(2) by (auto simp: completeDuoAuthentication_def split: sum.splits prod.splits)
  let ?p = "\<lambda>r. tf_type r = ''duo_auth_challenge'' \<and> tf_secret r = Some (getDuoChallengeTag env ''binding'' (str_of browserToken)) \<and>
    \<not> tf_is_verified r \<and> \<not> tf_is_deleted r"
  obtain duo where fresh: "requireFreshChallenge (fe_now env) ''Duo'' (List.find ?p (methods db)) = Inr c"
      and st: "fe_hex env (js_string (js_get (tf_meta c) ''challenge'')) = fe_hex env (getDuoChallengeTag env ''state'' (str_of state))"
      and u: "active_user (tf_user_id c) us = Some u" and duo: "List.find (usable (tf_user_id c) ''duo'') (methods db) = Some duo"
      and client: "createDuoClient env (tf_meta duo) = Inr client"
    using ck by (auto simp: duo_check_def rbind_def split: if_splits sum.splits option.splits)
  obtain r where "List.find ?p (methods db) = Some r" using fresh by (cases "List.find ?p (methods db)") (auto simp: requireFreshChallenge_def)
  with fresh fresh_challenge [of "fe_now env" "''Duo''" r c] have c: "c \<in> set (methods db)" "?p c" "\<exists>t. js_get (tf_meta c) ''expiresAt'' = JNum t \<and> fe_now env < t"
    by (auto dest!: find_SomeD)
  obtain v answer where cons: "consumeChallenge ''Duo'' c db = (Inr v, db')" and ans: "fe_duo_exchange env client (str_of duoCode) (su_email u) = Inr answer"
      "duo_allowed answer" and later: "requireFreshChallenge (fe_later env) ''Duo'' (Some c) = Inr c" and user: "active_user (tf_user_id c) us = Some user"
    using cm fresh_challenge [of "fe_later env" "''Duo''" c] by (auto simp: duo_commit_def split: sum.splits prod.splits if_splits)
  from user u have "u = user" by simp
  moreover have "user \<in> set us" "su_id user = tf_user_id c" "\<not> su_is_deleted user" "\<not> su_is_disabled user"
    using user by (auto simp: active_user_def dest!: find_SomeD)
  moreover have "duo \<in> set (getActiveForUser (tf_user_id c) db) \<and> tf_type duo = ''duo''"
    using duo by (auto simp: getActiveForUser_def usable_def method_of_def dest!: find_SomeD)
  moreover obtain t where "js_get (tf_meta c) ''expiresAt'' = JNum t" "fe_now env < t" "fe_later env < t"
    using c(3) fresh_challenge [OF later] by auto
  ultimately show ?thesis
    using c st client ans consume_gone [OF assms(1) cons]
    by (intro bexI [of _ c] exI [of _ client] exI [of _ answer] exI [of _ t]) auto
qed

lemma passkey_check:
  assumes "authentication_check env userId challengeId response req db = Inr (c, pk, newCounter)"
  shows "c \<in> set (methods db) \<and> method_of userId ''passkey_auth_challenge'' c \<and> \<not> tf_is_verified c \<and>
    pk \<in> set (methods db) \<and> usable userId ''passkey'' pk \<and> (\<exists>t. js_get (tf_meta c) ''expiresAt'' = JNum t \<and> fe_now env < t) \<and>
    (\<exists>args. fe_verify_authentication env args = Inr (True, newCounter) \<and> js_get args ''response'' = response \<and>
       js_get args ''expectedChallenge'' = js_get (tf_meta c) ''challenge'' \<and>
       js_get (js_get args ''credential'') ''publicKey'' = str_or_null (tf_public_key pk))"
proof -
  obtain v where c: "find_challenge userId ''passkey_auth_challenge'' challengeId db = Some c"
    and fresh: "requireFreshChallenge (fe_now env) ''Passkey'' (Some c) = Inr v"
    and pk: "List.find (\<lambda>r. usable userId ''passkey'' r \<and> str_or_null (tf_secret r) = js_get response ''id'' \<and> tf_secret r \<noteq> None) (methods db) = Some pk"
    and ver: "fe_verify_authentication env (JObj [(''response'', response), (''expectedChallenge'', js_get (tf_meta c) ''challenge''),
                  (''expectedOrigin'', JStr (snd (getPasskeyContext env req))), (''expectedRPID'', JStr (fst (getPasskeyContext env req))),
                  (''credential'', JObj [(''id'', str_or_null (tf_secret pk)), (''publicKey'', str_or_null (tf_public_key pk)),
                     (''counter'', JNum (tf_counter pk)), (''transports'', transport_list pk)])]) = Inr (True, newCounter)"
    using assms by (auto simp: authentication_check_def rbind_def split: option.splits sum.splits if_splits)
  have "\<exists>args. fe_verify_authentication env args = Inr (True, newCounter) \<and> js_get args ''response'' = response \<and>
       js_get args ''expectedChallenge'' = js_get (tf_meta c) ''challenge'' \<and>
       js_get (js_get args ''credential'') ''publicKey'' = str_or_null (tf_public_key pk)"
    by (rule exI, rule conjI [OF ver]) (simp add: js_get_def)
  then show ?thesis
    using c find_SomeD [OF pk] fresh_challenge [OF fresh] by (auto simp: find_challenge_def dest!: find_SomeD)
qed

text \<open>A passkey login uses up its challenge: once the answer of the browser is accepted, for an open and unexpired
  challenge and an active passkey of that user, against the stored challenge and the stored key, the challenge is used up,
  also when the stored counter has changed in the meantime and the login fails.\<close>

theorem passkey_login_uses_challenge:
  assumes "db_ok db" and "authentication_check env userId challengeId response req db = Inr (c, pk, newCounter)"
  shows "tf_user_id c = userId \<and> tf_type c = ''passkey_auth_challenge'' \<and> (\<exists>t. js_get (tf_meta c) ''expiresAt'' = JNum t \<and> fe_now env < t) \<and>
    pk \<in> set (getActiveForUser userId db) \<and> tf_type pk = ''passkey'' \<and>
    (\<exists>args. fe_verify_authentication env args = Inr (True, newCounter) \<and> js_get args ''response'' = response \<and>
       js_get args ''expectedChallenge'' = js_get (tf_meta c) ''challenge'' \<and>
       js_get (js_get args ''credential'') ''publicKey'' = str_or_null (tf_public_key pk)) \<and>
    (\<exists>s. factor_run (factor_init db) [Challenge_use (tf_id c)] s \<and>
       fdb s = snd (completePasskeyAuthentication env userId challengeId response req db))"
proof -
  note ck = passkey_check [OF assms(2)]
  obtain db1 where db1: "consumeChallenge ''Passkey'' c db = (Inr (), db1)"
    using consume_first [OF assms(1), of c "''Passkey''"] ck by (metis prod.collapse)
  obtain s where s: "factor_run (factor_init db) [] s" "fdb s = db" "c \<in> set (read_methods s)" "pk \<in> set (read_methods s)"
    using run_read_all [of "[c, pk]" "factor_init db"] ck by (auto simp: factor_init_def)
  have use: "factor_run (factor_init db) [Challenge_use (tf_id c)] (s\<lparr>fdb := db1\<rparr>)"
    using run_append [OF run_use [OF challenge_ok [of c s "''Passkey''" "()" db1]] s(1)] s db1 by simp
  obtain w db2 where db2: "advance_counter userId pk newCounter db1 = (w, db2)" by fastforce
  have "factor_step (s\<lparr>fdb := db1\<rparr>) None (s\<lparr>fdb := db2\<rparr>)"
    using passkey [of pk "s\<lparr>fdb := db1\<rparr>" userId newCounter w db2] s(4) ck db2 by (simp add: usable_def method_of_def)
  from run_step [OF use this] have "factor_run (factor_init db) [Challenge_use (tf_id c)] (s\<lparr>fdb := db2\<rparr>)" by simp
  then show ?thesis using ck db1 db2 assms(2)
    by (auto simp: getActiveForUser_def usable_def method_of_def completePasskeyAuthentication_def intro!: exI [of _ "s\<lparr>fdb := db2\<rparr>"])
qed

section \<open>Concrete runs\<close>

definition factor_sample :: factor_env where
  "factor_sample = \<lparr>fe_now = 1000, fe_later = 2000, fe_random = (\<lambda>i. [CHR ''a'', char_of (48 + i)]), fe_uuid = ''u1'', fe_nonce = ''n1'', fe_state = ''st'',
     fe_hash = (\<lambda>i p. ''H'' @ p), fe_compare = (\<lambda>p h. h = ''H'' @ p),
     fe_totp = (\<lambda>input secret. if input = ''123456'' \<and> secret = Some ''S'' then (True, Some 5) else (False, None)),
     fe_secret = ''S'', fe_uri = (\<lambda>_. ''otpauth''), fe_qr = (\<lambda>_. Inr ''data''), fe_yubico_client = ''1'', fe_yubico_key = None,
     fe_yubico = (\<lambda>_. Yubico_error ''offline''), fe_before = (\<lambda>_ _. True), fe_hmac_sha1 = (\<lambda>k m. k @ m), fe_hmac_sha256 = (\<lambda>m. m),
     fe_to_base64 = (\<lambda>x. x), fe_base64 = (\<lambda>x. x), fe_hex = (\<lambda>x. x), fe_rp_id = None, fe_rp_name = ''ShieldPM'', fe_origin = None,
     fe_url_host = (\<lambda>_. None), fe_registration = (\<lambda>_. Inr (JObj [])), fe_authentication = (\<lambda>_. Inr (JObj [])),
     fe_verify_registration = (\<lambda>_. Inr (False, None)),
     fe_verify_authentication = (\<lambda>a. Inr (js_get a ''expectedChallenge'' = JStr ''abc'', 4)),
     fe_duo_client = (\<lambda>_. None), fe_duo_health = (\<lambda>_. None), fe_duo_url = (\<lambda>_ _ _. Inr ''url''),
     fe_duo_exchange = (\<lambda>_ c _. Inr (JObj [(''auth_result'', JObj [(''result'', JStr (if c = ''good'' then ''allow'' else ''deny'')), (''status'', JStr ''allow'')])]))\<rparr>"

definition totp_row :: twofa where
  "totp_row = (new_method 7 ''totp'')\<lparr>tf_id := 1, tf_secret := Some ''S'', tf_counter := 4, tf_is_verified := True\<rparr>"

definition passkey_row :: twofa where
  "passkey_row = (new_method 7 ''passkey'')\<lparr>tf_id := 2, tf_secret := Some ''cred'', tf_public_key := Some ''pk'', tf_counter := 3, tf_is_verified := True\<rparr>"

definition passkey_challenge_row :: twofa where
  "passkey_challenge_row = (new_method 7 ''passkey_auth_challenge'')\<lparr>tf_id := 3, tf_secret := Some ''u1'',
     tf_meta := JObj [(''challenge'', JStr ''abc''), (''expiresAt'', JNum 9000)]\<rparr>"

definition browser_token :: string where
  "browser_token = replicate 43 CHR ''t''"

definition duo_challenge_row :: twofa where
  "duo_challenge_row = (new_method 7 ''duo_auth_challenge'')\<lparr>tf_id := 4, tf_secret := Some (''shieldpm:duo:binding:v1:'' @ browser_token),
     tf_meta := JObj [(''challenge'', JStr ''shieldpm:duo:state:v1:st''), (''expiresAt'', JNum 9000)]\<rparr>"

definition duo_row :: twofa where
  "duo_row = (new_method 7 ''duo'')\<lparr>tf_id := 5, tf_is_verified := True\<rparr>"

definition recovery_row :: backup_code where
  "recovery_row = \<lparr>bc_id = 1, bc_user_id = 7, bc_code_hash = ''HA0'', bc_used_at = None\<rparr>"

definition factor_tables :: factor_db where
  "factor_tables = \<lparr>methods = [totp_row, passkey_row, passkey_challenge_row, duo_challenge_row, duo_row], next_method = 6,
     codes = [recovery_row], next_code = 2\<rparr>"

lemma tables_ok: "db_ok factor_tables"
  by (simp add: db_ok_def method_table.keys_ok_def code_table.keys_ok_def factor_tables_def totp_row_def passkey_row_def
      passkey_challenge_row_def duo_challenge_row_def duo_row_def recovery_row_def new_method_def)

definition race_1 :: factor_sys where
  "race_1 = \<lparr>fdb = factor_tables, read_methods = [totp_row], read_codes = [recovery_row]\<rparr>"

definition race_2 :: factor_sys where
  "race_2 = race_1\<lparr>fdb := snd (totp_attempt factor_sample 7 ''123456'' totp_row factor_tables)\<rparr>"

definition race_3 :: factor_sys where
  "race_3 = race_2\<lparr>fdb := snd (consume_code factor_sample 7 recovery_row (fdb race_2))\<rparr>"

lemma race:
  "factor_run (factor_init factor_tables) [Totp_use 1 5, Code_use 1] race_3"
  "\<not> fst (totp_attempt factor_sample 7 ''123456'' totp_row (fdb race_3))" "\<not> fst (consume_code factor_sample 7 recovery_row (fdb race_3))"
proof -
  let ?a = "(factor_init factor_tables)\<lparr>read_codes := [recovery_row]\<rparr>"
  have "factor_step (factor_init factor_tables) None ?a"
    using read_code [of recovery_row "factor_init factor_tables"] by (simp add: factor_init_def factor_tables_def)
  moreover have "factor_step ?a None race_1"
    using read_method [of totp_row ?a] by (simp add: factor_init_def race_1_def factor_tables_def)
  moreover have "factor_step race_1 (Some (totp_use factor_sample ''123456'' totp_row)) race_2"
    unfolding race_2_def by (rule totp_ok [of _ _ _ 7]) (code_simp, code_simp, code_simp)
  moreover have "totp_use factor_sample ''123456'' totp_row = Totp_use 1 5" by code_simp
  moreover have "factor_step race_2 (Some (Code_use (bc_id recovery_row))) race_3"
    unfolding race_3_def by (rule code_ok [of _ _ factor_sample 7]) (code_simp, code_simp)
  moreover have "bc_id recovery_row = 1" by code_simp
  ultimately have "factor_run race_1 [Totp_use 1 5] race_2" "factor_run (factor_init factor_tables) [] race_1" "factor_run race_2 [Code_use 1] race_3"
    by (metis run_use, metis run_cons run_nil, metis run_use)
  from run_append [OF this(3) run_append [OF this(1,2)]]
  show "factor_run (factor_init factor_tables) [Totp_use 1 5, Code_use 1] race_3" by simp
qed code_simp+

theorem second_factor_used_once_witness:
  "db_ok factor_tables \<and> factor_run (factor_init factor_tables) [Totp_use 1 5, Code_use 1] race_3 \<and> distinct [Totp_use 1 5, Code_use 1]"
  using tables_ok race(1) second_factor_used_once [OF tables_ok race(1)] by blast



definition duo_user :: session_user where
  "duo_user = \<lparr>su_id = 7, su_name = ''A'', su_email = ''a@b'', su_nickname = ''A'', su_avatar = [], su_roles = [],
     su_is_deleted = False, su_is_disabled = False\<rparr>"

theorem duo_login_bound_witness:
  "fst (completeDuoAuthentication factor_sample [duo_user] (JStr browser_token) (JStr ''good'') (JStr ''st'') factor_tables) = Inr (Some duo_user) \<and>
   (\<exists>c \<in> set (methods factor_tables). su_id duo_user = tf_user_id c \<and> tf_type c = ''duo_auth_challenge'' \<and>
      (\<exists>t. js_get (tf_meta c) ''expiresAt'' = JNum t \<and> fe_now factor_sample < t))"
proof -
  let ?r = "completeDuoAuthentication factor_sample [duo_user] (JStr browser_token) (JStr ''good'') (JStr ''st'') factor_tables"
  have ok: "fst ?r = Inr (Some duo_user)" by code_simp
  then have "?r = (Inr (Some duo_user), snd ?r)" by (simp add: prod_eq_iff)
  from duo_login_bound [OF tables_ok this] ok show ?thesis by blast
qed

theorem passkey_login_uses_challenge_witness:
  "\<exists>s. factor_run (factor_init factor_tables) [Challenge_use 3] s \<and>
     fdb s = snd (completePasskeyAuthentication factor_sample 7 ''u1'' (JObj [(''id'', JStr ''cred'')]) \<lparr>pr_origin = None, pr_protocol = ''https'', pr_hostname = ''h''\<rparr> factor_tables)"
proof -
  have "authentication_check factor_sample 7 ''u1'' (JObj [(''id'', JStr ''cred'')]) \<lparr>pr_origin = None, pr_protocol = ''https'', pr_hostname = ''h''\<rparr> factor_tables =
      Inr (passkey_challenge_row, passkey_row, 4)" by code_simp
  from passkey_login_uses_challenge [OF tables_ok this] show ?thesis by (simp add: passkey_challenge_row_def)
qed

end
