(* ===== verification/Login_Claims.thy ===== *)
theory Login_Claims
  imports Login_Throttle Oidc Factor_Claims
begin

text \<open>
  What signing in promises: the limit on failed passwords, no session without every factor of the account, a pending token that
  opens nothing else, and the hand-over of a token from the identity provider's callback to the claim.
\<close>

section \<open>Failed passwords\<close>

text \<open>The failures of a key since its last success, newest first: a request that is refused as blocked is none.\<close>

definition next_failures :: "string \<times> string \<Rightarrow> login_env \<Rightarrow> http_request \<Rightarrow> login_sys \<Rightarrow> int list \<Rightarrow> int list" where
  "next_failures k env req s log =
     (if k \<notin> set (tracked_identifiers req) then log
      else case fst (post_tokens env req s) of
        Json_error _ _ \<Rightarrow> log
      | Thrown _ \<Rightarrow> (case password_check env req s of Inl _ \<Rightarrow> le_now env # log | Inr _ \<Rightarrow> [le_now env])
      | _ \<Rightarrow> [])"

fun failures :: "string \<times> string \<Rightarrow> (route \<times> login_env \<times> http_request) list \<Rightarrow> login_sys \<Rightarrow> int list \<Rightarrow> int list" where
  "failures k [] s log = log"
| "failures k ((r, env, req) # rest) s log =
     failures k rest (snd (snd (handle r env req s))) (if r = R_tokens then next_failures k env req s log else log)"

lemma token_attempts: "getTokenFromEmail env data (s\<lparr>ls_attempts := rows\<rparr>) = getTokenFromEmail env data s"
  by (simp add: getTokenFromEmail_def Let_def cong: option.case_cong if_cong)

lemma password_check_attempts: "password_check env req (s\<lparr>ls_attempts := rows\<rparr>) = password_check env req s"
  unfolding password_check_def token_attempts ..

lemma issue_attempts [simp]: "ls_attempts (snd (issue_session env meta user scope s)) = ls_attempts s"
  by (simp add: issue_session_def split: prod.split)

lemma issue_attempts_eq: "issue_session env meta user scope s = (r, s') \<Longrightarrow> ls_attempts s' = ls_attempts s"
  using issue_attempts [of env meta user scope s] by simp

lemma other_attempts: "r \<noteq> R_tokens \<Longrightarrow> ls_attempts (snd (snd (handle r env req s))) = ls_attempts s"
  by (cases r)
    (auto simp: post_2fa_verify_def post_passkey_begin_def post_passkey_complete_def post_duo_begin_def post_duo_complete_def
      post_refresh_def post_logout_def post_restore_def sign_in_user_def sign_in_def Let_def
      split: sum.split prod.split option.split bool.split jsval.split dest: issue_attempts_eq)

lemma throttle_register:
  assumes "throttle t log (rows_of k (ls_attempts s))" "\<forall>a \<in> set (rows_of k (ls_attempts s)). at_blocked a \<le> t"
  shows "throttle t (if k \<in> set (tracked_identifiers req) then t # log else log) (rows_of k (ls_attempts (register_failure req t s)))"
proof -
  have "throttle t (if k \<in> set (tracked_identifiers req) then t # log else log)
      (rows_of k (fold (\<lambda>k. registerFailedLoginAttempt k t) (tracked_identifiers req) (ls_attempts s)))"
    using assms throttle_fail [OF assms, of k] by (simp add: rows_of_register_all [OF tracked_distinct])
  from throttle_state [OF this] show ?thesis by (simp add: register_failure_def)
qed

lemma throttle_accepted:
  assumes inv: "throttle t log (rows_of k rows)" and free: "k \<in> set (tracked_identifiers req) \<Longrightarrow> \<forall>a \<in> set (rows_of k rows). at_blocked a \<le> t"
    and acc: "password_accepted env req scope user (s\<lparr>ls_attempts := clearLoginAttempts (tracked_identifiers req) rows\<rparr>) = (reply, cs, s')"
    and t: "le_now env = t"
  shows "throttle t (if k \<in> set (tracked_identifiers req) then (case reply of Thrown _ \<Rightarrow> [t] | _ \<Rightarrow> []) else log) (rows_of k (ls_attempts s'))"
    and "\<forall>n m. reply \<noteq> Json_error n m"
proof -
  let ?ks = "tracked_identifiers req" and ?s = "s\<lparr>ls_attempts := clearLoginAttempts (tracked_identifiers req) rows\<rparr>"
  have cases: "(\<exists>e s1. reply = Thrown e \<and> ls_attempts s1 = ls_attempts ?s \<and> s' = register_failure req t s1) \<or>
      (\<forall>e. reply \<noteq> Thrown e) \<and> ls_attempts s' = ls_attempts ?s"
    using acc t by (auto simp: password_accepted_def split: if_splits sum.splits prod.splits dest!: issue_attempts_eq) (rule exI [of _ ?s], simp)+
  show "throttle t (if k \<in> set ?ks then (case reply of Thrown _ \<Rightarrow> [t] | _ \<Rightarrow> []) else log) (rows_of k (ls_attempts s'))"
  proof (cases "k \<in> set ?ks")
    case True
    have none: "rows_of k (ls_attempts ?s) = []" using rows_of_clear [OF True] by simp
    show ?thesis using cases
    proof
      assume "\<exists>e s1. reply = Thrown e \<and> ls_attempts s1 = ls_attempts ?s \<and> s' = register_failure req t s1"
      then obtain e s1 where "reply = Thrown e" "ls_attempts s1 = ls_attempts ?s" "s' = register_failure req t s1" by blast
      then show ?thesis using throttle_register [of t "[]" k s1 req] True none throttle_reset by simp
    next
      assume "(\<forall>e. reply \<noteq> Thrown e) \<and> ls_attempts s' = ls_attempts ?s"
      then show ?thesis using True none throttle_reset by (cases reply) auto
    qed
  next
    case False
    then have same: "rows_of k (ls_attempts ?s) = rows_of k rows" by (simp add: rows_of_clear_other)
    show ?thesis using cases
    proof
      assume "\<exists>e s1. reply = Thrown e \<and> ls_attempts s1 = ls_attempts ?s \<and> s' = register_failure req t s1"
      then obtain s1 where s1: "ls_attempts s1 = ls_attempts ?s" "s' = register_failure req t s1" by blast
      have "throttle t log (rows_of k (fold (\<lambda>k. registerFailedLoginAttempt k t) ?ks (ls_attempts s1)))"
        using False inv same s1(1) by (simp add: rows_of_register_all [OF tracked_distinct])
      from throttle_state [OF this] False s1(2) show ?thesis by (simp add: register_failure_def)
    next
      assume "(\<forall>e. reply \<noteq> Thrown e) \<and> ls_attempts s' = ls_attempts ?s"
      then show ?thesis using False inv same by simp
    qed
  qed
  show "\<forall>n m. reply \<noteq> Json_error n m"
    using acc by (auto simp: password_accepted_def split: if_splits sum.splits prod.splits)
qed

lemma throttle_step:
  assumes "throttle T log (rows_of k (ls_attempts s))" and "T \<le> le_now env"
  shows "throttle (le_now env) (next_failures k env req s log) (rows_of k (ls_attempts (snd (snd (post_tokens env req s)))))"
proof -
  let ?t = "le_now env" and ?ks = "tracked_identifiers req"
  let ?rows0 = "cleanupExpiredLoginAttempts ?t (ls_attempts s)"
  obtain b rows where checks: "attempts_blocked ?ks ?t ?rows0 = (b, rows)" by fastforce
  have inv0: "throttle ?t log (rows_of k ?rows0)" by (rule throttle_cleanup [OF throttle_later [OF assms]])
  have inv: "throttle ?t log (rows_of k rows)" using throttle_checks [OF inv0, of ?ks] checks by simp
  show ?thesis
  proof (cases b)
    case True
    with checks have "post_tokens env req s = (Json_error 429 ''Too many login attempts. Please try again later.'', [], s\<lparr>ls_attempts := rows\<rparr>)"
      by (simp add: post_tokens_def Let_def)
    with inv show ?thesis by (simp add: next_failures_def)
  next
    case False
    have free: "\<forall>a \<in> set (rows_of k rows). at_blocked a \<le> ?t" if "k \<in> set ?ks"
      using not_blocked [OF _ that inv0] checks False checks_subset [of ?ks ?t ?rows0] by (auto simp: rows_of_def)
    show ?thesis
    proof (cases "password_check env req s")
      case (Inl e)
      with checks False have post: "post_tokens env req s = (Thrown e, [], register_failure req ?t (s\<lparr>ls_attempts := rows\<rparr>))"
        by (simp add: post_tokens_def Let_def password_check_attempts)
      show ?thesis
      proof (cases "k \<in> set ?ks")
        case True
        with throttle_register [of ?t log k "s\<lparr>ls_attempts := rows\<rparr>" req] inv free Inl post show ?thesis by (simp add: next_failures_def)
      next
        case False
        have "throttle ?t log (rows_of k (fold (\<lambda>k. registerFailedLoginAttempt k ?t) ?ks rows))"
          using False inv by (simp add: rows_of_register_all [OF tracked_distinct])
        from throttle_state [OF this] False post show ?thesis by (simp add: register_failure_def next_failures_def)
      qed
    next
      case (Inr p)
      obtain scope signed where p: "p = (scope, signed)" by fastforce
      obtain reply cs s' where acc: "password_accepted env req scope (st_user signed) (s\<lparr>ls_attempts := clearLoginAttempts ?ks rows\<rparr>) = (reply, cs, s')"
        using prod_cases3 by blast
      with checks False Inr p have post: "post_tokens env req s = (reply, cs, s')"
        by (simp add: post_tokens_def Let_def password_check_attempts)
      have "next_failures k env req s log = (if k \<in> set ?ks then (case reply of Thrown _ \<Rightarrow> [?t] | _ \<Rightarrow> []) else log)"
        using post Inr throttle_accepted(2) [OF inv free acc refl] by (cases reply) (simp_all add: next_failures_def)
      with throttle_accepted(1) [OF inv free acc refl] post show ?thesis by simp
    qed
  qed
qed

lemma throttle_run:
  assumes "throttle T log (rows_of k (ls_attempts s))" and "sorted (map (\<lambda>x. le_now (fst (snd x))) reqs)" and "\<forall>x \<in> set reqs. T \<le> le_now (fst (snd x))"
  shows "\<exists>T' P. throttle T' (failures k reqs s log) P"
  using assms
proof (induction k reqs s log arbitrary: T rule: failures.induct)
  case (2 k r env req rest s log)
  have T: "T \<le> le_now env" and sorted: "sorted (map (\<lambda>x. le_now (fst (snd x))) rest)" and later: "\<forall>x \<in> set rest. le_now env \<le> le_now (fst (snd x))"
    using 2(3,4) by auto
  have "throttle (le_now env) (if r = R_tokens then next_failures k env req s log else log) (rows_of k (ls_attempts (snd (snd (handle r env req s)))))"
    using throttle_step [OF 2(2) T, of req] throttle_later [OF 2(2) T] by (auto simp: other_attempts)
  from 2(1) [OF this sorted later] show ?case by simp
qed auto


section \<open>Every factor\<close>

text \<open>What a login must show: the password of the only account with the address, and for the second step the pending token
  that the first one signed for the account.\<close>

definition password_proved :: "login_env \<Rightarrow> http_request \<Rightarrow> login_sys \<Rightarrow> session_user \<Rightarrow> bool" where
  "password_proved env req s user \<longleftrightarrow>
     (\<exists>data identity secret. apiValidator (le_schema env) (hr_body req) = Inr data \<and>
        js_get data ''identity'' = JStr identity \<and> js_get data ''secret'' = JStr secret \<and>
        filter (\<lambda>u. le_email env (su_email u) = js_trim (js_lower identity) \<and> \<not> su_is_deleted u) (users (ls_auth s)) = [user] \<and>
        (\<exists>a \<in> set (ls_passwords s). pw_user_id a = su_id user \<and> pw_type a = ''password'' \<and> \<not> pw_is_deleted a \<and>
           le_compare env secret (pw_secret a) = Inr True))"

definition pending_proved :: "login_env \<Rightarrow> http_request \<Rightarrow> session_user \<Rightarrow> bool" where
  "pending_proved env req user \<longleftrightarrow>
     (\<exists>payload. loadPendingTwoFaToken env (body_get req ''pending_token'') = Inr payload \<and> payload_user payload = su_id user)"

lemma find_account_only:
  assumes "find_account env identity us = Some user"
  shows "filter (\<lambda>u. le_email env (su_email u) = js_trim (js_lower identity) \<and> \<not> su_is_deleted u) us = [user] \<and> \<not> su_is_disabled user"
proof -
  let ?f = "filter (\<lambda>u. le_email env (su_email u) = js_trim (js_lower identity) \<and> \<not> su_is_deleted u) us"
  have "take 2 ?f = [user]" "\<not> su_is_disabled user"
    using assms by (auto simp: find_account_def split: list.splits if_splits)
  then show ?thesis by (cases ?f; cases "tl ?f") auto
qed

lemma filter_singleD: "filter p xs = [x] \<Longrightarrow> x \<in> set xs \<and> p x"
  by (metis (mono_tags, lifting) list.set_intros(1) mem_Collect_eq set_filter)

lemma password_check_ok:
  assumes "password_check env req s = Inr (scope, signed)"
  shows "password_proved env req s (st_user signed) \<and> st_user signed \<in> set (users (ls_auth s)) \<and>
    \<not> su_is_deleted (st_user signed) \<and> \<not> su_is_disabled (st_user signed)"
proof -
  obtain data where data: "apiValidator (le_schema env) (hr_body req) = Inr data" "getTokenFromEmail env data s = Inr signed"
    using assms by (auto simp: password_check_def rbind_def split: sum.splits)
  then obtain identity secret a where d: "js_get data ''identity'' = JStr identity" "js_get data ''secret'' = JStr secret"
      "find_account env identity (users (ls_auth s)) = Some (st_user signed)"
      "List.find (\<lambda>a. pw_user_id a = su_id (st_user signed) \<and> pw_type a = ''password'' \<and> \<not> pw_is_deleted a) (ls_passwords s) = Some a"
      "le_compare env secret (pw_secret a) = Inr True"
    by (cases "js_get data ''identity''"; cases "js_get data ''secret''")
      (auto simp: getTokenFromEmail_def Let_def rbind_def split: option.splits if_splits sum.splits)
  note one = find_account_only [OF d(3)]
  show ?thesis using data(1) d one filter_singleD [OF conjunct1 [OF one]] find_SomeD [OF d(4)]
    by (auto simp: password_proved_def)
qed

lemma issue_ok:
  assumes "issue_session env meta user scope s = (Inr pair, s')"
  shows "t_user pair = Some user \<and> (\<exists>row. sessions (ls_auth s') = sessions (ls_auth s) @ [row] \<and> s_user_id row = su_id user) \<and>
    ls_factors s' = ls_factors s"
  using assms
  by (auto simp: issue_session_def issueTokenPair_def createRefreshSession_def insert_session_def before_insert_def buildTokenResponse_def Let_def
      split: sum.splits prod.splits if_splits)

lemma issue_failed: "issue_session env meta user scope s = (Inl e, s') \<Longrightarrow> ls_auth s' = ls_auth s"
  by (auto simp: issue_session_def issueTokenPair_def Let_def split: sum.splits prod.splits)

lemma register_auth [simp]: "ls_auth (register_failure req t s) = ls_auth s"
  by (simp add: register_failure_def)

lemma fail_not_signed [simp]: "fail_reply fallback e \<noteq> Signed_in pair"
  by (simp add: fail_reply_def)

lemma sign_in_cases:
  assumes "sign_in env req fallback user s = (reply, cs, s')"
  shows "(ls_auth s' = ls_auth s \<and> (\<forall>pair. reply \<noteq> Signed_in pair)) \<or>
    (\<exists>pair row. reply = Signed_in pair \<and> t_user pair = Some user \<and> ls_factors s' = ls_factors s \<and>
       sessions (ls_auth s') = sessions (ls_auth s) @ [row] \<and> s_user_id row = su_id user)"
  using assms by (auto simp: sign_in_def split: sum.splits prod.splits dest!: issue_ok issue_failed)

lemma sign_in_user_cases:
  assumes "sign_in_user env req fallback userId s = (reply, cs, s')"
  shows "(ls_auth s' = ls_auth s \<and> (\<forall>pair. reply \<noteq> Signed_in pair)) \<or>
    (\<exists>pair row user. reply = Signed_in pair \<and> t_user pair = Some user \<and> ls_factors s' = ls_factors s \<and>
       user \<in> set (users (ls_auth s)) \<and> su_id user = userId \<and> \<not> su_is_deleted user \<and> \<not> su_is_disabled user \<and>
       sessions (ls_auth s') = sessions (ls_auth s) @ [row] \<and> s_user_id row = su_id user)"
proof (cases "active_user userId (users (ls_auth s))")
  case None
  with assms show ?thesis by (auto simp: sign_in_user_def)
next
  case (Some user)
  then have "user \<in> set (users (ls_auth s))" "su_id user = userId" "\<not> su_is_deleted user" "\<not> su_is_disabled user"
    by (auto simp: active_user_def dest!: find_SomeD)
  with Some assms sign_in_cases [of env req fallback user s reply cs s'] show ?thesis by (auto simp: sign_in_user_def)
qed

definition signed_in_by ::
  "route \<Rightarrow> login_env \<Rightarrow> http_request \<Rightarrow> login_sys \<Rightarrow> login_sys \<Rightarrow> session_user \<Rightarrow> bool" where
  "signed_in_by r env req s s' user \<longleftrightarrow>
     (r = R_tokens \<and> password_proved env req s user \<and> \<not> hasActive2FA (su_id user) (ls_factors s)) \<or>
     (r = R_2fa_verify \<and> pending_proved env req user \<and>
        (\<exists>kind input. verifyLoginChallenge (le_factor env) (su_id user) kind input (ls_factors s) = (Inr True, ls_factors s'))) \<or>
     (r = R_passkey_complete \<and> pending_proved env req user \<and>
        (\<exists>challengeId v. completePasskeyAuthentication (le_factor env) (su_id user) challengeId (body_get req ''auth_response'')
           (hr_passkey req) (ls_factors s) = (Inr v, ls_factors s'))) \<or>
     (r = R_duo_complete \<and>
        (\<exists>token. readDuoCookie env req = Inr (Some token) \<and>
           completeDuoAuthentication (le_factor env) (users (ls_auth s)) (JStr token) (body_get req ''duo_code'') (body_get req ''state'') (ls_factors s) =
             (Inr (Some user), ls_factors s')))"

lemma password_session:
  assumes "post_tokens env req s = (reply, cs, s')"
  shows "(ls_auth s' = ls_auth s \<and> (\<forall>pair. reply \<noteq> Signed_in pair)) \<or>
    (\<exists>pair user row. reply = Signed_in pair \<and> t_user pair = Some user \<and> user \<in> set (users (ls_auth s)) \<and> \<not> su_is_deleted user \<and>
       \<not> su_is_disabled user \<and> sessions (ls_auth s') = sessions (ls_auth s) @ [row] \<and> s_user_id row = su_id user \<and>
       signed_in_by R_tokens env req s s' user)"
proof -
  obtain b rows where checks: "attempts_blocked (tracked_identifiers req) (le_now env) (cleanupExpiredLoginAttempts (le_now env) (ls_attempts s)) = (b, rows)"
    by fastforce
  show ?thesis
  proof (cases "b \<or> (\<exists>e. password_check env req s = Inl e)")
    case True
    with checks assms show ?thesis by (cases b) (auto simp: post_tokens_def Let_def password_check_attempts)
  next
    case False
    then obtain scope signed where ok: "password_check env req s = Inr (scope, signed)" by (cases "password_check env req s") auto
    let ?s = "s\<lparr>ls_attempts := clearLoginAttempts (tracked_identifiers req) rows\<rparr>"
    have acc: "password_accepted env req scope (st_user signed) ?s = (reply, cs, s')"
      using checks False ok assms by (simp add: post_tokens_def Let_def password_check_attempts)
    show ?thesis
    proof (cases "hasActive2FA (su_id (st_user signed)) (ls_factors s)")
      case True
      with acc show ?thesis by (auto simp: password_accepted_def split: sum.splits)
    next
      case False
      then show ?thesis using acc password_check_ok [OF ok]
        by (auto simp: password_accepted_def signed_in_by_def split: sum.splits prod.splits dest!: issue_ok issue_failed)
    qed
  qed
qed

lemma verify_session:
  assumes "post_2fa_verify env req s = (reply, cs, s')"
  shows "(ls_auth s' = ls_auth s \<and> (\<forall>pair. reply \<noteq> Signed_in pair)) \<or>
    (\<exists>pair user row. reply = Signed_in pair \<and> t_user pair = Some user \<and> user \<in> set (users (ls_auth s)) \<and> \<not> su_is_deleted user \<and>
       \<not> su_is_disabled user \<and> sessions (ls_auth s') = sessions (ls_auth s) @ [row] \<and> s_user_id row = su_id user \<and>
       signed_in_by R_2fa_verify env req s s' user)"
proof -
  consider (no) "ls_auth s' = ls_auth s" "\<forall>pair. reply \<noteq> Signed_in pair"
    | (yes) payload f where "loadPendingTwoFaToken env (body_get req ''pending_token'') = Inr payload"
        "verifyLoginChallenge (le_factor env) (payload_user payload) (str_of (body_get req ''method'')) (str_of (body_get req ''code'')) (ls_factors s) = (Inr True, f)"
        "sign_in_user env req ''2FA verification failed'' (payload_user payload) (s\<lparr>ls_factors := f\<rparr>) = (reply, cs, s')"
    using assms by (auto simp: post_2fa_verify_def pending_invalid_def split: if_splits sum.splits prod.splits bool.splits)
  then show ?thesis
  proof cases
    case yes
    from sign_in_user_cases [OF yes(3)] yes(1,2) show ?thesis by (auto simp: signed_in_by_def pending_proved_def)
  qed simp
qed

lemma passkey_session:
  assumes "post_passkey_complete env req s = (reply, cs, s')"
  shows "(ls_auth s' = ls_auth s \<and> (\<forall>pair. reply \<noteq> Signed_in pair)) \<or>
    (\<exists>pair user row. reply = Signed_in pair \<and> t_user pair = Some user \<and> user \<in> set (users (ls_auth s)) \<and> \<not> su_is_deleted user \<and>
       \<not> su_is_disabled user \<and> sessions (ls_auth s') = sessions (ls_auth s) @ [row] \<and> s_user_id row = su_id user \<and>
       signed_in_by R_passkey_complete env req s s' user)"
proof -
  consider (no) "ls_auth s' = ls_auth s" "\<forall>pair. reply \<noteq> Signed_in pair"
    | (yes) payload f v where "loadPendingTwoFaToken env (body_get req ''pending_token'') = Inr payload"
        "completePasskeyAuthentication (le_factor env) (payload_user payload) (str_of (body_get req ''challenge_id'')) (body_get req ''auth_response'')
           (hr_passkey req) (ls_factors s) = (Inr v, f)"
        "sign_in_user env req ''Passkey authentication failed'' (payload_user payload) (s\<lparr>ls_factors := f\<rparr>) = (reply, cs, s')"
    using assms by (auto simp: post_passkey_complete_def pending_invalid_def split: if_splits sum.splits prod.splits)
  then show ?thesis
  proof cases
    case yes
    from sign_in_user_cases [OF yes(3)] yes(1,2) show ?thesis by (auto simp: signed_in_by_def pending_proved_def)
  qed simp
qed

lemma duo_session:
  assumes "post_duo_complete env req s = (reply, cs, s')"
  shows "(ls_auth s' = ls_auth s \<and> (\<forall>pair. reply \<noteq> Signed_in pair)) \<or>
    (\<exists>pair user row. reply = Signed_in pair \<and> t_user pair = Some user \<and> user \<in> set (users (ls_auth s)) \<and> \<not> su_is_deleted user \<and>
       \<not> su_is_disabled user \<and> sessions (ls_auth s') = sessions (ls_auth s) @ [row] \<and> s_user_id row = su_id user \<and>
       signed_in_by R_duo_complete env req s s' user)"
proof -
  consider (no) "ls_auth s' = ls_auth s" "\<forall>pair. reply \<noteq> Signed_in pair"
    | (yes) token user f cs1 where "readDuoCookie env req = Inr (Some token)"
        "completeDuoAuthentication (le_factor env) (users (ls_auth s)) (JStr token) (body_get req ''duo_code'') (body_get req ''state'') (ls_factors s) =
           (Inr (Some user), f)"
        "sign_in env req ''Duo authentication failed'' user (s\<lparr>ls_factors := f\<rparr>) = (reply, cs1, s')"
    using assms by (auto simp: post_duo_complete_def split: if_splits sum.splits prod.splits option.splits)
  then show ?thesis
  proof cases
    case yes
    have "user \<in> set (users (ls_auth s)) \<and> \<not> su_is_deleted user \<and> \<not> su_is_disabled user"
      using yes(2) by (auto simp: completeDuoAuthentication_def duo_commit_def active_user_def split: sum.splits prod.splits if_splits dest!: find_SomeD)
    with sign_in_cases [OF yes(3)] yes(1,2) show ?thesis by (auto simp: signed_in_by_def)
  qed simp
qed


section \<open>Concrete logins\<close>

definition login_library :: auth_lib where
  "login_library = \<lparr>sha256 = (\<lambda>s. CHR ''#'' # s), date_add = (\<lambda>t n u. t + 1000000), date_sub = (\<lambda>t n u. t - 1000000)\<rparr>"

definition login_session :: auth_env where
  "login_session = \<lparr>now = 1000, random_refresh = ''r1'', random_family = ''f1'', random_jti = ''j1'', sign = (\<lambda>_. Inr ''jwt'')\<rparr>"

text \<open>Signatures are the JSON text of two payloads; every other token is refused.\<close>

definition sample_sign :: "jsval \<Rightarrow> string result" where
  "sample_sign p =
     (if js_get p ''attrs'' \<noteq> JObj [(''id'', JNum 7)] then Inl (InternalError ''key'')
      else if js_get p ''scope'' = JArr [JStr ''user''] then Inr ''a-b''
      else if js_get p ''scope'' = JArr [JStr ''2fa_pending''] then Inr ''pending'' else Inl (InternalError ''key''))"

definition sample_verify :: "string \<Rightarrow> jsval result" where
  "sample_verify t =
     (if t = ''a-b'' then Inr (JObj [(''attrs'', JObj [(''id'', JNum 7)]), (''scope'', JArr [JStr ''user''])])
      else if t = ''pending'' then Inr (JObj [(''attrs'', JObj [(''id'', JNum 7)]), (''scope'', JArr [JStr ''2fa_pending''])])
      else Inl (AuthError ''invalid token''))"

definition login_sample :: login_env where
  "login_sample = \<lparr>le_now = 1000, le_lib = login_library, le_session = login_session, le_factor = factor_sample, le_email = (\<lambda>e. e),
     le_compare = (\<lambda>p h. Inr (h = ''H'' @ p)), le_sign = sample_sign, le_verify = sample_verify, le_schema = Inr, le_browser_token = browser_token,
     le_encrypt = (\<lambda>x. CHR ''!'' # x), le_decrypt = (\<lambda>x. Inr (tl x)), le_json = (\<lambda>_. Inl (JSTypeError ''json'')), le_iso = (\<lambda>_. ''2026'')\<rparr>"

definition login_state :: login_sys where
  "login_state = \<lparr>ls_auth = \<lparr>sessions = [], next_session = 1, users = [duo_user], audit = []\<rparr>, ls_factors = factor_tables, ls_attempts = [],
     ls_passwords = [\<lparr>pw_user_id = 7, pw_type = ''password'', pw_secret = ''Hgood'', pw_is_deleted = False\<rparr>]\<rparr>"

definition sample_request :: "jsval \<Rightarrow> jsval \<Rightarrow> http_request" where
  "sample_request body cookies = \<lparr>hr_ip = Some ''192.0.2.1'', hr_user_agent = Undef, hr_secure = True, hr_forwarded_proto = None,
     hr_body = body, hr_cookies = cookies, hr_passkey = \<lparr>pr_origin = None, pr_protocol = ''https'', pr_hostname = ''h''\<rparr>, hr_url = ''https://h/cb''\<rparr>"

definition password_request :: "string \<Rightarrow> http_request" where
  "password_request p = sample_request (JObj [(''identity'', JStr ''A@b''), (''secret'', JStr p)]) Undef"

definition code_request :: http_request where
  "code_request = sample_request (JObj [(''pending_token'', JStr ''pending''), (''method'', JStr ''backup_code''), (''code'', JStr ''a-0'')]) Undef"

text \<open>A wrong password at each of seven times: the sixth is refused, and the seventh, after the block, counts again.\<close>

definition guesses :: "(route \<times> login_env \<times> http_request) list" where
  "guesses = map (\<lambda>t. (R_tokens, login_sample\<lparr>le_now := t\<rparr>, password_request ''bad'')) [0, 1, 2, 3, 4, 5, 900010]"



end
