(* ===== verification/Oidc_Claims.thy ===== *)
theory Oidc_Claims
  imports Login_Claims
begin

text \<open>
  What a token of the login opens: the pending token of the first step is refused by every protected route, and the token an
  identity provider's callback puts into the browser's cookie is the one the claim reads back, for all tokens but those in which
  the separator of the cookie occurs.
\<close>

section \<open>The pending token\<close>

text \<open>The pending token opens nothing but the second step: whatever route a request with it reaches, the access object is
  not loaded, as no account has the scope of the token as its role.\<close>

theorem pending_token_opens_nothing:
  assumes "token \<noteq> []" and "verify token = Inr payload" and "js_get payload ''scope'' = JArr [JStr ''2fa_pending'']"
    and "js_get (js_get payload ''attrs'') ''id'' = JNum i" and "0 < i" and "\<forall>u \<in> set us. ''2fa_pending'' \<notin> set (u_roles u)"
  shows "\<exists>e a. access_load verify us allow (new_access token) = (Inl e, a) \<and> \<not> initialised a"
proof -
  have td: "token_load verify token = Inr (JObj (props_set ''scope'' (JArr [JStr ''2fa_pending'']) (obj_of payload)))"
    using assms(2,3) by (simp add: token_load_def rbind_def normalizeScope_def)
  obtain ps where p: "payload = JObj ps" using assms(3) by (cases payload) (auto simp: js_get_def)
  let ?td = "JObj (props_set ''scope'' (JArr [JStr ''2fa_pending'']) ps)"
  have attrs: "js_get ?td ''attrs'' = js_get payload ''attrs''" and scope: "js_get ?td ''scope'' = JArr [JStr ''2fa_pending'']"
    by (simp_all add: p js_get_def props_get_set)
  have uid: "js_get (js_get ?td ''attrs'') ''id'' = JNum i" "js_get ?td ''attrs'' \<noteq> Undef" "js_get ?td ''attrs'' \<noteq> Null"
    using assms(4) unfolding attrs by (auto simp: js_get_def split: jsval.splits)
  have roles: "JStr ''2fa_pending'' \<notin> JStr ` set (u_roles u @ [''user''])" if "u \<in> set us" for u
    using assms(6) that by auto
  have init: "\<exists>e a. access_init verify us (new_access token) = (Inl e, a) \<and> \<not> initialised a"
  proof (cases "List.find (\<lambda>u. JNum (u_id u) = JNum i \<and> \<not> u_is_deleted u \<and> \<not> u_is_disabled u) us")
    case None
    then show ?thesis using assms(1,5) td uid scope p by (simp add: access_init_def new_access_def Let_def)
  next
    case (Some u)
    then have "u \<in> set us" by (auto dest: find_SomeD)
    from roles [OF this] Some show ?thesis using assms(1,5) td uid scope p by (simp add: access_init_def new_access_def Let_def)
  qed
  then obtain e a where "access_init verify us (new_access token) = (Inl e, a)" "\<not> initialised a" by blast
  moreover have "tokenString (new_access token) = token" by (simp add: new_access_def)
  ultimately show ?thesis using assms(1) by (intro exI [of _ e] exI [of _ a]) (simp add: access_load_def)
qed

section \<open>Splitting\<close>

lemma split_skip: "n \<le> length s \<Longrightarrow> split_str sep acc s n = split_str sep acc (drop n s) 0"
  by (induction sep acc s n rule: split_str.induct) auto

lemma starts_with_append: "length p \<le> length s \<Longrightarrow> starts_with (s @ t) p \<longleftrightarrow> starts_with s p"
  by (simp add: starts_with_def)

lemma starts_before:
  assumes "sep \<noteq> []"
  shows "starts_with (c # s @ sep @ t) sep \<longleftrightarrow> starts_with (c # s @ butlast sep) sep"
proof -
  obtain b l where sep: "sep = b @ [l]" using assms by (cases sep rule: rev_cases) auto
  have "length sep \<le> length (c # s @ b)" by (simp add: sep)
  from starts_with_append [OF this, of "l # t"] show ?thesis by (simp add: sep)
qed

lemma split_first:
  assumes "sep \<noteq> []" and "\<not> has_infix (s @ butlast sep) sep"
  shows "split_str sep acc (s @ sep @ t) 0 = (acc @ s) # split_str sep [] t 0"
  using assms(2)
proof (induction s arbitrary: acc)
  case Nil
  have "starts_with (sep @ t) sep" by (simp add: starts_with_def)
  moreover obtain c r where sep: "sep = c # r" using assms(1) by (cases sep) auto
  ultimately show ?case using split_skip [of "length r" "r @ t" sep "[]"] by simp
next
  case (Cons c s)
  note st = starts_before [OF assms(1), of c s t]
  with Cons.prems have "\<not> starts_with (c # s @ sep @ t) sep" by simp
  then show ?case using Cons.IH [of "acc @ [c]"] Cons.prems by simp
qed

lemma split_head: "\<exists>x rest. split_str sep acc s n = x # rest \<and> length acc \<le> length x"
  by (induction sep acc s n rule: split_str.induct) auto

lemma split_early:
  assumes "sep \<noteq> []" and "has_infix (s @ butlast sep) sep"
  shows "\<exists>x rest. split_str sep acc (s @ sep @ t) 0 = x # rest \<and> (\<exists>n < length s. x = acc @ take n s)"
  using assms(2)
proof (induction s arbitrary: acc)
  case Nil
  have "\<not> has_infix p q" if "length p < length q" for p q
    using that by (induction p) (auto simp: starts_with_def)
  with Nil assms(1) show ?case by simp
next
  case (Cons c s)
  note st = starts_before [OF assms(1), of c s t]
  show ?case
  proof (cases "starts_with (c # s @ sep @ t) sep")
    case True
    then show ?thesis by (auto intro!: exI [of _ 0])
  next
    case False
    with Cons.prems st have "has_infix (s @ butlast sep) sep" by simp
    from Cons.IH [OF this, of "acc @ [c]"] obtain rest n where
      "split_str sep (acc @ [c]) (s @ sep @ t) 0 = ((acc @ [c]) @ take n s) # rest" "n < length s" by auto
    with False show ?thesis by (auto intro!: exI [of _ "Suc n"])
  qed
qed

section \<open>The hand-over\<close>

lemma active_unique:
  assumes "user \<in> set us" "\<not> su_is_deleted user" "\<not> su_is_disabled user" "distinct (map su_id us)"
  shows "active_user (su_id user) us = Some user"
proof (cases "active_user (su_id user) us")
  case None
  then have False using assms by (auto simp: active_user_def find_None)
  then show ?thesis ..
next
  case (Some u)
  then have "u \<in> set us" "su_id u = su_id user" by (auto simp: active_user_def dest!: find_SomeD)
  with distinct_key_eq [OF assms(4) this(1) assms(1)] Some show ?thesis by simp
qed

text \<open>The token of a callback names the only account with the verified address, and verifies as such.\<close>

lemma callback_token:
  assumes "validateCallback env oe req settings s = Inr (token, expires)"
  shows "\<exists>user config nonce state claims. assertEnabled settings = Inr () \<and> oe_grant oe config (hr_url req) nonce state = Inr claims \<and>
    js_get claims ''email_verified'' \<in> {JBool True, JStr ''true''} \<and>
    find_account env (js_lower (str_of (js_get claims ''email''))) (users (ls_auth s)) = Some user \<and>
    le_sign env (token_body ''api'' (JNum (su_id user)) (JArr [JStr ''user'']) (JStr ''5m'')) = Inr token"
proof -
  obtain nonce state config claims where grant: "oe_grant oe config (hr_url req) nonce state = Inr claims"
      "assertEnabled settings = Inr ()" "js_get claims ''email_verified'' \<in> {JBool True, JStr ''true''}"
      and tok: "getTokenFromOAuthClaim env (js_lower (str_of (js_get claims ''email''))) s = Inr (token, expires)"
    using assms by (auto simp: validateCallback_def getConfig_def rbind_def split: sum.splits if_splits)
  from tok obtain user where "find_account env (js_lower (str_of (js_get claims ''email''))) (users (ls_auth s)) = Some user"
      "le_sign env (token_body ''api'' (JNum (su_id user)) (JArr [JStr ''user'']) (JStr ''5m'')) = Inr token"
    by (auto simp: getTokenFromOAuthClaim_def rbind_def split: option.splits sum.splits)
  with grant show ?thesis by blast
qed

lemma handed_own_token:
  assumes "le_verify env token = Inr (JObj q)" "js_get (JObj q) ''attrs'' = JObj [(''id'', JNum (su_id user))]"
    "js_get (JObj q) ''scope'' = JArr [JStr ''user'']" "is_safe_integer (JNum (su_id user))"
    "active_user (su_id user) (users (ls_auth s)) = Some user"
  shows "handed_user env token s = Inr user"
proof -
  obtain ps where td: "token_load (le_verify env) token = Inr (JObj ps)" "js_get (JObj ps) ''attrs'' = JObj [(''id'', JNum (su_id user))]"
      "js_get (JObj ps) ''scope'' = JArr [JStr ''user'']"
    using assms(1-3) by (auto simp: token_load_def rbind_def js_get_def normalizeScope_def)
  have "js_get (JObj [(''id'', JNum (su_id user))]) ''id'' = JNum (su_id user)" by (simp add: js_get_def props_get_def)
  then show ?thesis using td assms(4,5) by (simp add: handed_user_def rbind_def scope_includes_user_def payload_user_def)
qed

lemma handed_bad_token: "\<forall>y. le_verify env token \<noteq> Inr y \<Longrightarrow> \<exists>e. handed_user env token s = Inl e"
  by (cases "le_verify env token") (auto simp: handed_user_def token_load_def)

text \<open>Where the token is cut.\<close>

lemma handover_split:
  assumes "d \<noteq> CHR ''-''"
  shows "if has_infix (token @ ''--'') ''---''
    then \<exists>n rest. n < length token \<and> js_split ''---'' (token @ ''---'' @ d # ds) = take n token # rest
    else \<exists>x rest. x \<noteq> [] \<and> js_split ''---'' (token @ ''---'' @ d # ds) = token # x # rest"
proof (cases "has_infix (token @ ''--'') ''---''")
  case True
  then show ?thesis using split_early [of "''---''" token "[]" "d # ds"] by (auto simp: js_split_def)
next
  case False
  then have "js_split ''---'' (token @ ''---'' @ d # ds) = token # split_str ''---'' [] (d # ds) 0"
    using split_first [of "''---''" token "[]" "d # ds"] by (simp add: js_split_def)
  moreover have "\<exists>x rest. split_str ''---'' [] (d # ds) 0 = x # rest \<and> x \<noteq> []"
    using split_head [of "''---''" "[d]" ds 0] assms by (fastforce simp: starts_with_def)
  ultimately show ?thesis using False by auto
qed

text \<open>C12. The hand-over of an identity provider's login: with encryption that is undone by decryption, signatures that verify and
  no truncated token that does, the cookie of a completed callback is exchanged for a session of the only account with the verified
  address exactly when no separator starts inside the token; a token with three dashes in a row, or with a dash at its end, is refused.\<close>

theorem oidc_handover:
  assumes callback: "validateCallback env oe req settings s = Inr (token, expires)"
    and crypt: "\<forall>x. le_decrypt env (le_encrypt env x) = Inr x"
    and sign: "\<forall>p t. le_sign env p = Inr t \<longrightarrow> (\<exists>q. le_verify env t = Inr (JObj q) \<and> js_get (JObj q) ''attrs'' = js_get p ''attrs'' \<and>
        js_get (JObj q) ''scope'' = js_get p ''scope'')"
    and truncated: "\<forall>n < length token. \<forall>y. le_verify env (take n token) \<noteq> Inr y"
    and nonempty: "token \<noteq> []" "le_iso env expires = d # ds" "d \<noteq> CHR ''-''" "\<forall>x. le_encrypt env x \<noteq> []"
    and ids: "distinct (map su_id (users (ls_auth s)))" "\<forall>u \<in> set (users (ls_auth s)). is_safe_integer (JNum (su_id u))"
    and cookie: "js_get (hr_cookies claim) ''shieldpm_oidc'' = JStr (le_encrypt env (token @ ''---'' @ le_iso env expires))"
  shows "\<exists>user config nonce state claims. oe_grant oe config (hr_url req) nonce state = Inr claims \<and>
    js_get claims ''email_verified'' \<in> {JBool True, JStr ''true''} \<and>
    find_account env (js_lower (str_of (js_get claims ''email''))) (users (ls_auth s)) = Some user \<and>
    (oidc_claim_user env claim settings s = Inr user) = (\<not> has_infix (token @ ''--'') ''---'')"
proof -
  obtain user config nonce state claims where enabled: "assertEnabled settings = Inr ()"
      and grant: "oe_grant oe config (hr_url req) nonce state = Inr claims" "js_get claims ''email_verified'' \<in> {JBool True, JStr ''true''}"
      and user: "find_account env (js_lower (str_of (js_get claims ''email''))) (users (ls_auth s)) = Some user"
      and signed: "le_sign env (token_body ''api'' (JNum (su_id user)) (JArr [JStr ''user'']) (JStr ''5m'')) = Inr token"
    using callback_token [OF callback] by blast
  obtain q where q: "le_verify env token = Inr (JObj q)" "js_get (JObj q) ''attrs'' = JObj [(''id'', JNum (su_id user))]"
      "js_get (JObj q) ''scope'' = JArr [JStr ''user'']"
    using sign [rule_format, OF signed] by (auto simp: token_body_def js_get_def props_get_def)
  have mem: "user \<in> set (users (ls_auth s))" "\<not> su_is_deleted user" "\<not> su_is_disabled user"
    using find_account_only [OF user] filter_singleD [OF conjunct1 [OF find_account_only [OF user]]] by auto
  have good: "handed_user env token s = Inr user"
    using handed_own_token [OF q _ active_unique [OF mem ids(1)]] ids(2) mem(1) by blast
  have claim: "oidc_claim_user env claim settings s = (case js_split ''---'' (token @ ''---'' @ d # ds) of
      t # x # _ \<Rightarrow> if t = [] \<or> x = [] then Inl (AuthError ''Invalid token data in cookie'') else handed_user env t s
    | _ \<Rightarrow> Inl (AuthError ''Invalid token data in cookie''))"
    using crypt nonempty(2,4) enabled cookie by (simp add: oidc_claim_user_def Let_def)
  have "(oidc_claim_user env claim settings s = Inr user) = (\<not> has_infix (token @ ''--'') ''---'')"
  proof (cases "has_infix (token @ ''--'') ''---''")
    case True
    then obtain n rest where "js_split ''---'' (token @ ''---'' @ d # ds) = take n token # rest" "n < length token"
      using handover_split [OF nonempty(3), of token ds] by auto
    then show ?thesis using True handed_bad_token [of env "take n token" s] truncated unfolding claim by (auto split: list.split)
  next
    case False
    then obtain x rest where "js_split ''---'' (token @ ''---'' @ d # ds) = token # x # rest" "x \<noteq> []"
      using handover_split [OF nonempty(3), of token ds] by auto
    then show ?thesis using False good nonempty(1) unfolding claim by simp
  qed
  with grant user show ?thesis by blast
qed

section \<open>Concrete tokens\<close>

theorem pending_token_opens_nothing_witness:
  "\<exists>e a. access_load sample_verify [\<lparr>u_id = 7, u_roles = [''admin''], u_permissions = JObj [], u_is_deleted = False, u_is_disabled = False\<rparr>]
     Undef (new_access ''pending'') = (Inl e, a) \<and> \<not> initialised a"
  by (rule pending_token_opens_nothing [of _ _ "JObj [(''attrs'', JObj [(''id'', JNum 7)]), (''scope'', JArr [JStr ''2fa_pending''])]" 7]) code_simp+

definition oidc_sample :: oidc_env where
  "oidc_sample = \<lparr>oe_discover = Inr, oe_nonce = ''n'', oe_state = ''s'', oe_auth_url = (\<lambda>_ _. Inr ''https://idp''),
     oe_grant = (\<lambda>_ _ n s. if n = ''n'' \<and> s = ''s'' then Inr (JObj [(''email'', JStr ''A@b''), (''email_verified'', JBool True)]) else Inl (AuthError ''state''))\<rparr>"

definition oidc_settings :: jsval where
  "oidc_settings = JObj [(''meta'', JObj [(''enabled'', JBool True)])]"

theorem oidc_handover_witness:
  "\<exists>user. oidc_claim_user login_sample (sample_request Undef (JObj [(''shieldpm_oidc'', JStr ''!a-b---2026'')])) oidc_settings login_state = Inr user"
proof -
  let ?claim = "sample_request Undef (JObj [(''shieldpm_oidc'', JStr ''!a-b---2026'')])"
  let ?cb = "sample_request Undef (JObj [(''shieldpm_oidc'', JStr ''n___s'')])"
  have cb: "validateCallback login_sample oidc_sample ?cb oidc_settings login_state = Inr (''a-b'', 1001000)" by code_simp
  have sign: "\<forall>p t. le_sign login_sample p = Inr t \<longrightarrow> (\<exists>q. le_verify login_sample t = Inr (JObj q) \<and> js_get (JObj q) ''attrs'' = js_get p ''attrs'' \<and>
      js_get (JObj q) ''scope'' = js_get p ''scope'')"
    by (auto simp: login_sample_def sample_sign_def sample_verify_def js_get_def props_get_def split: if_splits)
  have truncated: "\<forall>n < length ''a-b''. \<forall>y. le_verify login_sample (take n ''a-b'') \<noteq> Inr y"
    by (simp add: login_sample_def sample_verify_def numeral_3_eq_3 less_Suc_eq)
  have crypt: "\<forall>x. le_decrypt login_sample (le_encrypt login_sample x) = Inr x" "\<forall>x. le_encrypt login_sample x \<noteq> []"
    by (simp_all add: login_sample_def)
  have rest: "le_iso login_sample 1001000 = CHR ''2'' # ''026''" "distinct (map su_id (users (ls_auth login_state)))"
      "\<forall>u \<in> set (users (ls_auth login_state)). is_safe_integer (JNum (su_id u))"
      "js_get (hr_cookies ?claim) ''shieldpm_oidc'' = JStr (le_encrypt login_sample (''a-b'' @ ''---'' @ le_iso login_sample 1001000))"
    by code_simp+
  have "has_infix (''a-b'' @ ''--'') ''---'' = False" by code_simp
  with oidc_handover [OF cb crypt(1) sign truncated _ rest(1) _ crypt(2) rest(2,3,4)]
  show ?thesis by auto
qed

text \<open>A token with a dash at its end is lost in the hand-over.\<close>

lemma dash_token_refused:
  "oidc_claim_user (login_sample\<lparr>le_verify := (\<lambda>t. if t = ''a-'' then sample_verify ''a-b'' else Inl (AuthError ''invalid token''))\<rparr>)
     (sample_request Undef (JObj [(''shieldpm_oidc'', JStr ''!a----2026'')])) oidc_settings login_state = Inl (AuthError ''invalid token'')"
  by code_simp

end
