(* ===== verification/Users.thy ===== *)
theory Users
  imports Host_Service Login
begin

text \<open>
  User accounts: \<open>backend/internal/user.js\<close> over \<open>backend/models/user.js\<close> and \<open>backend/models/user_permission.js\<close>, the check of
  local passwords of \<open>backend/lib/auth-password.js\<close>, and the first account of \<open>backend/setup.js\<close>.

  State. The rows of the account and the permission table, the tables of the login (whose accounts are those of
  this table: \<open>login_view\<close>), whether the setting that serialises claims of addresses exists, the avatar files and the audit log.

  Parameters, in \<open>user_env\<close>, beside those of the login. \<open>ue_access\<close> is the caller, \<open>ue_hash\<close> is bcrypt, \<open>ue_fresh_id\<close> the next
  identifier of a table, \<open>ue_defaults\<close> its column defaults, \<open>ue_stamp\<close> the time a row is written with, \<open>ue_like\<close> and \<open>ue_order\<close> the
  database's pattern match and ordering, \<open>ue_bound\<close> how it reads a text compared with an identifier, \<open>ue_avatar_dir\<close> the resolved
  avatar directory, \<open>ue_uuid\<close> a random identifier, \<open>ue_fault\<close> the failure of a file operation or of the avatar's row update, and
  \<open>ue_partial\<close> what a failed write leaves. Two claims of an address run one after the other; the rest of the handlers is a sequence.
\<close>

section \<open>State\<close>

record user_sys =
  us_users :: "jsval list"
  us_permissions :: "jsval list"
  us_login :: login_sys
  us_ready :: bool
  us_avatars :: "string \<Rightarrow> string option"
  us_log :: "Audit_Log.audit_row list"
  us_log_id :: nat

record user_env =
  ue_access :: access
  ue_login :: login_env
  ue_hash :: "string \<Rightarrow> string result"
  ue_fresh_id :: "string \<Rightarrow> jsval list \<Rightarrow> int"
  ue_defaults :: "string \<Rightarrow> (string \<times> jsval) list"
  ue_stamp :: string
  ue_like :: "string \<Rightarrow> jsval \<Rightarrow> bool"
  ue_order :: "string \<Rightarrow> jsval list \<Rightarrow> jsval list"
  ue_bound :: "string \<Rightarrow> jsval"
  ue_avatar_dir :: string
  ue_uuid :: string
  ue_fault :: "string \<Rightarrow> err option"
  ue_partial :: "string option"

type_synonym 'a um_op = "user_sys \<Rightarrow> 'a result \<times> user_sys"

text \<open>The account rows as the login and the permission checks read them.\<close>

definition session_user_of :: "jsval \<Rightarrow> session_user" where
  "session_user_of r = \<lparr>su_id = int_of (js_get r ''id''), su_name = str_of (js_get r ''name''), su_email = str_of (js_get r ''email''),
     su_nickname = str_of (js_get r ''nickname''), su_avatar = str_of (js_get r ''avatar''),
     su_roles = map str_of (arr_of (js_get r ''roles'')), su_is_deleted = truthy (js_get r ''is_deleted''),
     su_is_disabled = truthy (js_get r ''is_disabled'')\<rparr>"

definition login_view :: "user_sys \<Rightarrow> login_sys" where
  "login_view s = (us_login s)\<lparr>ls_auth := (ls_auth (us_login s))\<lparr>users := map session_user_of (us_users s)\<rparr>\<rparr>"

definition permissions_of :: "jsval \<Rightarrow> jsval list \<Rightarrow> jsval" where
  "permissions_of i rows = (case List.find (\<lambda>p. js_get p ''user_id'' = i) rows of None \<Rightarrow> Null | Some p \<Rightarrow> p)"

definition access_rows :: "user_sys \<Rightarrow> user_row list" where
  "access_rows s = map (\<lambda>r. \<lparr>u_id = int_of (js_get r ''id''), u_roles = map str_of (arr_of (js_get r ''roles'')),
     u_permissions = permissions_of (js_get r ''id'') (us_permissions s), u_is_deleted = truthy (js_get r ''is_deleted''),
     u_is_disabled = truthy (js_get r ''is_disabled'')\<rparr>) (us_users s)"

section \<open>Small operations\<close>

definition umap_result :: "'a result \<Rightarrow> 'a um_op" where
  "umap_result r s = (r, s)"

definition ucan :: "user_env \<Rightarrow> string \<Rightarrow> jsval \<Rightarrow> jsval um_op" where
  "ucan env permission data = umap_result (acc_can (ue_access env) permission data)"

definition uaudit :: "user_env \<Rightarrow> string \<Rightarrow> jsval \<Rightarrow> jsval \<Rightarrow> unit um_op" where
  "uaudit env action i meta s =
     (case Audit_Log.audit_add (ue_access env) (le_now (ue_login env))
            \<lparr>ev_action = action, ev_object_type = ''user'', ev_object_id = i, ev_meta = meta\<rparr> (us_log s) (us_log_id s) of
        Inl e \<Rightarrow> (Inl e, s)
      | Inr (log, n) \<Rightarrow> (Inr (), s\<lparr>us_log := log, us_log_id := n\<rparr>))"

text \<open>\<open>model.transaction\<close>: everything is rolled back when the callback throws.\<close>

definition atomically :: "'a um_op \<Rightarrow> 'a um_op" where
  "atomically m s = (case m s of (Inl e, _) \<Rightarrow> (Inl e, s) | r \<Rightarrow> r)"

definition ufault :: "user_env \<Rightarrow> string \<Rightarrow> unit um_op" where
  "ufault env what s = (case ue_fault env what of None \<Rightarrow> (Inr (), s) | Some e \<Rightarrow> (Inl e, s))"

definition user_mismatch :: "jsval \<Rightarrow> jsval \<Rightarrow> err" where
  "user_mismatch user i = InternalValidationError
     (''User could not be updated, IDs do not match: '' @ js_string (js_get user ''id'') @ '' !== '' @ js_string i)"

text \<open>The comparison and the sort of strings; an array sorts by the text of its elements.\<close>

fun js_le :: "string \<Rightarrow> string \<Rightarrow> bool" where
  "js_le [] t = True"
| "js_le (c # s) [] = False"
| "js_le (c # s) (d # t) = (code c < code d \<or> c = d \<and> js_le s t)"

fun sort_in :: "jsval \<Rightarrow> jsval list \<Rightarrow> jsval list" where
  "sort_in x [] = [x]"
| "sort_in x (y # ys) = (if js_le (js_string x) (js_string y) then x # y # ys else y # sort_in x ys)"

definition js_sort :: "jsval list \<Rightarrow> jsval list" where
  "js_sort xs = foldr sort_in xs []"

definition js_spread :: "jsval \<Rightarrow> jsval list result" where
  "js_spread v = (case v of JArr xs \<Rightarrow> Inr xs | JStr s \<Rightarrow> Inr (map (\<lambda>c. JStr [c]) s) | _ \<Rightarrow> Inl (JSTypeError ''not iterable''))"

section \<open>Rows\<close>

definition user_bool_fields :: "string list" where
  "user_bool_fields = [''is_deleted'', ''is_disabled'']"

text \<open>\<open>$formatDatabaseJson\<close> and \<open>$parseDatabaseJson\<close>\<close>

definition stored_user :: "(string \<times> jsval) list \<Rightarrow> (string \<times> jsval) list" where
  "stored_user cols =
     map (\<lambda>kv. if fst kv \<in> set user_bool_fields then (fst kv, JNum (if truthy (snd kv) then 1 else 0)) else kv)
       (filter (\<lambda>kv. snd kv \<noteq> Undef) cols)"

definition parsed_user :: "jsval \<Rightarrow> (string \<times> jsval) list" where
  "parsed_user r =
     map (\<lambda>kv. if fst kv \<in> set user_bool_fields
               then (fst kv, JBool (snd kv = JBool True \<or> snd kv = JNum 1 \<or> snd kv = JStr ''1'')) else kv) (obj_of r)"

definition new_row :: "user_env \<Rightarrow> string \<Rightarrow> int \<Rightarrow> (string \<times> jsval) list \<Rightarrow> jsval" where
  "new_row env table i cols =
     JObj (props_set ''id'' (JNum i) (props_set ''modified_on'' (JStr (ue_stamp env)) (props_set ''created_on'' (JStr (ue_stamp env))
       (props_merge (ue_defaults env table) cols))))"

text \<open>Callers never choose the identifier of a new row: the request schema has no such property.\<close>

definition insert_user :: "user_env \<Rightarrow> jsval \<Rightarrow> jsval um_op" where
  "insert_user env data s =
     (let row = new_row env ''user'' (ue_fresh_id env ''user'' (us_users s)) (stored_user (with_default ''roles'' (JArr []) (obj_of data)))
      in (Inr row, s\<lparr>us_users := us_users s @ [row]\<rparr>))"

definition patched_row :: "user_env \<Rightarrow> (string \<times> jsval) list \<Rightarrow> jsval \<Rightarrow> jsval" where
  "patched_row env cols r = JObj (props_set ''modified_on'' (JStr (ue_stamp env)) (props_merge (obj_of r) cols))"

definition patch_user :: "user_env \<Rightarrow> jsval \<Rightarrow> (string \<times> jsval) list \<Rightarrow> unit um_op" where
  "patch_user env i cols s =
     (Inr (), s\<lparr>us_users := patch_where (\<lambda>r. js_get r ''id'' = i) (patched_row env (stored_user cols)) (us_users s)\<rparr>)"

definition insert_permissions :: "user_env \<Rightarrow> (string \<times> jsval) list \<Rightarrow> jsval um_op" where
  "insert_permissions env cols s =
     (let row = new_row env ''user_permission'' (ue_fresh_id env ''user_permission'' (us_permissions s)) cols
      in (Inr row, s\<lparr>us_permissions := us_permissions s @ [row]\<rparr>))"

text \<open>A password is hashed when its row is written; an empty secret is stored as it is.\<close>

definition encryptPassword :: "user_env \<Rightarrow> string \<Rightarrow> string \<Rightarrow> string result" where
  "encryptPassword env t secret = (if t = ''password'' \<and> secret \<noteq> [] then ue_hash env secret else Inr secret)"

definition set_passwords :: "(password_row list \<Rightarrow> password_row list) \<Rightarrow> user_sys \<Rightarrow> user_sys" where
  "set_passwords f s = s\<lparr>us_login := (us_login s)\<lparr>ls_passwords := f (ls_passwords (us_login s))\<rparr>\<rparr>"

definition insert_password :: "user_env \<Rightarrow> int \<Rightarrow> string \<Rightarrow> string \<Rightarrow> unit um_op" where
  "insert_password env uid t secret s =
     (case encryptPassword env t secret of
        Inl e \<Rightarrow> (Inl e, s)
      | Inr h \<Rightarrow> (Inr (), set_passwords (\<lambda>rows. rows @ [\<lparr>pw_user_id = uid, pw_type = t, pw_secret = h, pw_is_deleted = False\<rparr>]) s))"

section \<open>Avatars\<close>

definition getGravatarUrl :: "user_env \<Rightarrow> jsval \<Rightarrow> jsval result" where
  "getGravatarUrl env email =
     (case email of
        JStr e \<Rightarrow> Inr (JStr (''https://www.gravatar.com/avatar/'' @ sha256 (le_lib (ue_login env)) (js_lower (js_trim e)) @ ''?d=mm''))
      | _ \<Rightarrow> Inl (JSTypeError ''trim''))"

definition DEFAULT_AVATAR :: "user_env \<Rightarrow> jsval" where
  "DEFAULT_AVATAR env = (case getGravatarUrl env (JStr ''admin@example.com'') of Inl _ \<Rightarrow> Undef | Inr v \<Rightarrow> v)"

text \<open>The bytes of a file are the codes of its characters; the conversion to ASCII drops the high bit.\<close>

definition ascii :: "string \<Rightarrow> string" where
  "ascii b = map (\<lambda>c. char_of (code c mod 128)) b"

definition is_png :: "string \<Rightarrow> bool" where
  "is_png b \<longleftrightarrow> 8 \<le> length b \<and> map code (take 8 b) = [0x89, 0x50, 0x4e, 0x47, 0x0d, 0x0a, 0x1a, 0x0a]"

definition is_jpeg :: "string \<Rightarrow> bool" where
  "is_jpeg b \<longleftrightarrow> 3 \<le> length b \<and> map code (take 3 b) = [0xff, 0xd8, 0xff]"

definition is_gif :: "string \<Rightarrow> bool" where
  "is_gif b \<longleftrightarrow> 6 \<le> length b \<and> (ascii (take 6 b) = ''GIF87a'' \<or> ascii (take 6 b) = ''GIF89a'')"

definition is_webp :: "string \<Rightarrow> bool" where
  "is_webp b \<longleftrightarrow> 12 \<le> length b \<and> ascii (take 4 b) = ''RIFF'' \<and> ascii (take 4 (drop 8 b)) = ''WEBP''"

text \<open>The type of an image file and its extension.\<close>

definition detectAvatarFileType :: "string \<Rightarrow> (string \<times> string) option" where
  "detectAvatarFileType b =
     (if b = [] then None
      else if is_png b then Some (''image/png'', ''.png'')
      else if is_jpeg b then Some (''image/jpeg'', ''.jpg'')
      else if is_gif b then Some (''image/gif'', ''.gif'')
      else if is_webp b then Some (''image/webp'', ''.webp'')
      else None)"

definition avatar_prefix :: "jsval \<Rightarrow> string" where
  "avatar_prefix uid = js_string uid @ ''-''"

text \<open>A file name without a directory part is its own base name.\<close>

definition getAvatarPath :: "user_env \<Rightarrow> jsval \<Rightarrow> jsval \<Rightarrow> string result" where
  "getAvatarPath env uid filename =
     (if is_str filename \<and> CHR ''/'' \<notin> set (str_of filename) \<and> starts_with (str_of filename) (avatar_prefix uid)
      then Inr (ue_avatar_dir env @ ''/'' @ str_of filename) else Inl (ValidationError ''Invalid avatar path''))"

definition avatar_url :: "jsval \<Rightarrow> jsval" where
  "avatar_url uid = JStr (''/api/users/'' @ js_string uid @ ''/avatar/image'')"

section \<open>Passwords and addresses\<close>

definition validatePasswordAuth :: "jsval \<Rightarrow> unit result" where
  "validatePasswordAuth auth =
     (if js_get auth ''type'' \<noteq> JStr ''password''
      then Inl (ValidationError ''Only password authentication can be created or changed here'')
      else if \<not> is_str (js_get auth ''secret'') \<or> length (str_of (js_get auth ''secret'')) < 8 \<or> 72 < utf8_length (str_of (js_get auth ''secret''))
      then Inl (ValidationError ''Password must contain at least 8 characters and at most 72 UTF-8 bytes'')
      else Inr ())"

definition email_taken :: "user_env \<Rightarrow> string \<Rightarrow> jsval \<Rightarrow> jsval \<Rightarrow> bool" where
  "email_taken env email user_id r \<longleftrightarrow> row_live r \<and> le_email (ue_login env) (str_of (js_get r ''email'')) = js_trim (js_lower email) \<and>
     (user_id = Undef \<or> js_get r ''id'' \<noteq> user_id)"

definition isEmailAvailable :: "user_env \<Rightarrow> string \<Rightarrow> jsval \<Rightarrow> user_sys \<Rightarrow> bool" where
  "isEmailAvailable env email user_id s \<longleftrightarrow> (\<forall>r \<in> set (us_users s). \<not> email_taken env email user_id r)"

definition normal_email :: "jsval \<Rightarrow> jsval result" where
  "normal_email v = (case v of JStr e \<Rightarrow> Inr (JStr (js_trim (js_lower e))) | _ \<Rightarrow> Inl (JSTypeError ''toLowerCase''))"

definition email_in_use :: "jsval \<Rightarrow> err" where
  "email_in_use email = ValidationError (''Email address already in use - '' @ js_string email)"

text \<open>The transaction that claims an address: the lock, the check, the writes.\<close>

definition claiming_email :: "user_env \<Rightarrow> jsval \<Rightarrow> jsval \<Rightarrow> 'a um_op \<Rightarrow> 'a um_op" where
  "claiming_email env email user_id m =
     atomically (\<lambda>s. if \<not> us_ready s then (Inl (PermissionError ''Initial setup is not ready''), s)
       else if \<not> isEmailAvailable env (str_of email) user_id s then (Inl (email_in_use email), s)
       else m s)"

section \<open>Reading\<close>

definition omit_user :: "(string \<times> jsval) list \<Rightarrow> (string \<times> jsval) list" where
  "omit_user cols = fold (\<lambda>k. omit_nested ''permissions'' k) [''id'', ''user_id'', ''created_on'', ''modified_on'']
     (props_omit [''is_deleted''] cols)"

definition expand_ok :: "string list option \<Rightarrow> bool" where
  "expand_ok expand \<longleftrightarrow> list_all (\<lambda>e. e = ''permissions'') (case expand of None \<Rightarrow> [] | Some es \<Rightarrow> es)"

definition fetched_user :: "string list option \<Rightarrow> user_sys \<Rightarrow> jsval \<Rightarrow> (string \<times> jsval) list" where
  "fetched_user expand s r =
     (if (case expand of None \<Rightarrow> False | Some es \<Rightarrow> ''permissions'' \<in> set es)
      then props_set ''permissions'' (permissions_of (js_get r ''id'') (us_permissions s)) (parsed_user r) else parsed_user r)"

definition user_get :: "user_env \<Rightarrow> jsval \<Rightarrow> string list option \<Rightarrow> string list option \<Rightarrow> jsval um_op" where
  "user_get env i0 expand omitted =
     (let i = (if truthy i0 then i0 else acc_user (ue_access env) 0) in
      op_bind (ucan env ''users:get'' i) (\<lambda>_ s.
        if \<not> expand_ok expand then (Inl (DBError ''eager expression not allowed''), s)
        else (case List.find (\<lambda>r. row_live r \<and> js_get r ''id'' = i) (us_users s) of
            None \<Rightarrow> (Inl (not_found i), s)
          | Some r \<Rightarrow>
              (let row = JObj (omit_user (fetched_user expand s r)) in
               if \<not> truthy (js_get row ''id'') then (Inl (not_found i), s)
               else (case omitted of
                   Some ks \<Rightarrow> (Inr (JObj (props_omit ks (obj_of row))), s)
                 | None \<Rightarrow> (Inr (if js_get row ''avatar'' = JStr [] then set_col ''avatar'' (DEFAULT_AVATAR env) row else row), s)))))) "

text \<open>The search of the listing and the count: a text matches the name or the address.\<close>

definition user_matches :: "user_env \<Rightarrow> jsval \<Rightarrow> jsval \<Rightarrow> bool" where
  "user_matches env search r \<longleftrightarrow> row_live r \<and> (is_str search \<longrightarrow>
     ue_like env (''%'' @ str_of search @ ''%'') (js_get r ''name'') \<or> ue_like env (''%'' @ str_of search @ ''%'') (js_get r ''email''))"

definition user_getCount :: "user_env \<Rightarrow> jsval \<Rightarrow> nat um_op" where
  "user_getCount env search =
     op_bind (ucan env ''users:list'' Undef) (\<lambda>_ s. (Inr (length (filter (user_matches env search) (us_users s))), s))"

definition user_getAll :: "user_env \<Rightarrow> string list option \<Rightarrow> jsval \<Rightarrow> jsval list um_op" where
  "user_getAll env expand search =
     op_bind (ucan env ''users:list'' Undef) (\<lambda>_ s.
       if \<not> expand_ok expand then (Inl (DBError ''eager expression not allowed''), s)
       else (Inr (map (\<lambda>r. JObj (omit_user (fetched_user expand s r))) (ue_order env ''name'' (filter (user_matches env search) (us_users s)))), s))"

definition getUserOmisionsByAccess :: "access \<Rightarrow> jsval \<Rightarrow> string list" where
  "getUserOmisionsByAccess acc idRequested =
     (if \<not> token_has_scope (acc_token acc) ''admin'' \<and> acc_user acc 0 \<noteq> idRequested then [''is_deleted''] else [])"

section \<open>Creating\<close>

definition flag_number :: "jsval \<Rightarrow> jsval" where
  "flag_number data = (if js_get data ''is_disabled'' = Undef then data
     else set_col ''is_disabled'' (JNum (if truthy (js_get data ''is_disabled'') then 1 else 0)) data)"

definition without :: "string list \<Rightarrow> jsval \<Rightarrow> jsval" where
  "without ks data = JObj (props_omit ks (obj_of data))"

text \<open>The data of a new account up to the permission check.\<close>

definition create_data :: "jsval \<Rightarrow> jsval result" where
  "create_data request =
     (let data = without [''auth''] request;
          data1 = set_col ''avatar'' (js_or (js_get data ''avatar'') (JStr [])) data;
          data2 = set_col ''roles'' (js_or (js_get data ''roles'') (JArr [])) data1
      in rbind (normal_email (js_get data2 ''email'')) (\<lambda>email. Inr (flag_number (set_col ''email'' email data2))))"

definition create_avatar :: "user_env \<Rightarrow> jsval \<Rightarrow> jsval result" where
  "create_avatar env data =
     (if truthy (js_get data ''avatar_type'') \<and> js_get data ''avatar_type'' \<notin> {JStr ''gravatar'', JStr ''url''}
      then Inl (ValidationError ''Upload an avatar after creating the user'')
      else if js_get data ''avatar_type'' = JStr ''url'' \<and> truthy (js_get data ''avatar_value'')
      then Inr (set_col ''avatar'' (js_get data ''avatar_value'') data)
      else rbind (getGravatarUrl env (js_get data ''email'')) (\<lambda>url. Inr (set_col ''avatar'' url data)))"

definition default_permissions :: "jsval \<Rightarrow> (string \<times> jsval) list" where
  "default_permissions uid = [(''user_id'', uid), (''visibility'', JStr ''user''), (''access_lists'', JStr ''manage''),
     (''certificates'', JStr ''manage''), (''proxy_hosts'', JStr ''manage''), (''redirection_hosts'', JStr ''manage''),
     (''streams'', JStr ''manage''), (''dead_hosts'', JStr ''manage''), (''cloudflared_tunnels'', JStr ''manage''),
     (''analytics'', JStr ''view'')]"

definition create_rows :: "user_env \<Rightarrow> jsval \<Rightarrow> jsval \<Rightarrow> jsval um_op" where
  "create_rows env auth data =
     op_bind (insert_user env data) (\<lambda>user.
     op_seq (if truthy auth
             then insert_password env (int_of (js_get user ''id'')) (str_of (js_get auth ''type'')) (str_of (js_get auth ''secret''))
             else op_ret ())
     (op_seq (insert_permissions env (default_permissions (js_get user ''id''))) (op_ret user)))"

definition setup_complete :: "user_sys \<Rightarrow> bool" where
  "setup_complete s \<longleftrightarrow> (\<exists>r \<in> set (us_users s). row_live r)"

text \<open>The transaction of \<open>create\<close>: during the initial setup no other account may exist.\<close>

definition create_transaction :: "user_env \<Rightarrow> bool \<Rightarrow> jsval \<Rightarrow> jsval \<Rightarrow> jsval um_op" where
  "create_transaction env initialSetup auth data s =
     (if us_ready s \<and> initialSetup \<and> setup_complete s
      then (Inl (PermissionError ''Initial setup is already complete''), s)
      else claiming_email env (js_get data ''email'') Undef (create_rows env auth data) s)"

definition initial_setup :: "user_env \<Rightarrow> bool" where
  "initial_setup env \<longleftrightarrow> \<not> truthy (acc_user (ue_access env) 0)"

definition request_auth :: "jsval \<Rightarrow> jsval" where
  "request_auth request = js_or (js_get request ''auth'') Null"

text \<open>The checks before the transaction, and the columns of the new account.\<close>

definition create_prepare :: "user_env \<Rightarrow> jsval \<Rightarrow> jsval um_op" where
  "create_prepare env request =
     op_seq (umap_result (if truthy (request_auth request) then validatePasswordAuth (request_auth request) else Inr ()))
     (if initial_setup env \<and> \<not> truthy (request_auth request) then op_throw (ValidationError ''Initial setup requires password credentials'')
      else op_bind (umap_result (create_data request)) (\<lambda>data.
           op_seq (ucan env ''users:create'' data) (umap_result (create_avatar env data))))"

definition user_create :: "user_env \<Rightarrow> jsval \<Rightarrow> jsval um_op" where
  "user_create env request =
     op_bind (create_prepare env request) (\<lambda>data.
     op_bind (create_transaction env (initial_setup env) (request_auth request) data) (\<lambda>user.
     op_bind (user_get env (js_get user ''id'') (Some [''permissions'']) None) (\<lambda>fresh.
     let row = JObj (omit_user (obj_of fresh)) in
     op_seq (uaudit env ''created'' (js_get row ''id'') row) (op_ret row))))"

section \<open>Updating\<close>

text \<open>Whether the request changes the roles or the block of the account.\<close>

definition roles_changed :: "jsval \<Rightarrow> jsval \<Rightarrow> bool result" where
  "roles_changed data user =
     (if js_get data ''roles'' = Undef then Inr False
      else rbind (js_spread (js_get data ''roles'')) (\<lambda>new. rbind (js_spread (js_get user ''roles'')) (\<lambda>old.
        Inr (js_sort new \<noteq> js_sort old))))"

definition privileged_change :: "jsval \<Rightarrow> jsval \<Rightarrow> bool result" where
  "privileged_change data user =
     rbind (roles_changed data user) (\<lambda>changed. Inr (changed \<or>
       js_get data ''is_disabled'' \<noteq> Undef \<and> truthy (js_get data ''is_disabled'') \<noteq> truthy (js_get user ''is_disabled'')))"

definition with_email :: "jsval \<Rightarrow> jsval result" where
  "with_email data = (if js_get data ''email'' = Undef then Inr data
     else rbind (normal_email (js_get data ''email'')) (\<lambda>email. Inr (set_col ''email'' email data)))"

text \<open>The avatar column that goes with the chosen kind of avatar.\<close>

definition update_avatar :: "user_env \<Rightarrow> jsval \<Rightarrow> jsval \<Rightarrow> jsval result" where
  "update_avatar env user data =
     (let avatarType = (if truthy (js_get data ''avatar_type'') then js_get data ''avatar_type''
                        else js_or (js_get user ''avatar_type'') (JStr ''gravatar''));
          avatarValue = if_undef (js_get data ''avatar_value'') (js_get user ''avatar_value'');
          email = js_or (js_get data ''email'') (js_get user ''email'');
          gravatar = rbind (getGravatarUrl env email) (\<lambda>url. Inr (set_col ''avatar'' url data))
      in if avatarType = JStr ''gravatar'' then gravatar
         else if avatarType = JStr ''url'' then (if truthy avatarValue then Inr (set_col ''avatar'' avatarValue data) else gravatar)
         else if avatarType = JStr ''upload''
         then rbind (if truthy avatarValue then getAvatarPath env (js_get user ''id'') avatarValue else Inr [])
                (\<lambda>_. Inr (set_col ''avatar'' (avatar_url (js_get user ''id'')) data))
         else Inr data)"

definition write_user :: "user_env \<Rightarrow> jsval \<Rightarrow> jsval \<Rightarrow> unit um_op" where
  "write_user env i data =
     (if js_get data ''email'' \<noteq> Undef then claiming_email env (js_get data ''email'') i (patch_user env i (obj_of data))
      else patch_user env i (obj_of data))"

text \<open>The checks of an update: the account as it is, and the columns to write.\<close>

definition update_prepare :: "user_env \<Rightarrow> jsval \<Rightarrow> (jsval \<times> jsval) um_op" where
  "update_prepare env data =
     (let i = js_get data ''id'' in
      op_seq (ucan env ''users:update'' i)
      (op_bind (user_get env i None None) (\<lambda>user.
       op_bind (umap_result (privileged_change data user)) (\<lambda>privileged.
       op_seq (if privileged then ucan env ''users:permissions'' i else op_ret Undef)
       (op_bind (umap_result (with_email (if privileged then data else without [''roles'', ''is_disabled''] data))) (\<lambda>data1.
        if js_get user ''id'' \<noteq> i then op_throw (user_mismatch user i)
        else op_bind (umap_result (update_avatar env user data1)) (\<lambda>data2. op_ret (user, data2))))))))"

definition user_update :: "user_env \<Rightarrow> jsval \<Rightarrow> jsval um_op" where
  "user_update env request =
     op_bind (update_prepare env (flag_number request)) (\<lambda>(user, data).
     op_seq (write_user env (js_get user ''id'') data)
     (op_bind (user_get env (js_get request ''id'') None None) (\<lambda>row.
      op_seq (uaudit env ''updated'' (js_get row ''id'') (set_col ''name'' (js_get row ''name'') (set_col ''id'' (js_get row ''id'') data)))
        (op_ret row))))"

section \<open>Deleting\<close>

definition user_delete :: "user_env \<Rightarrow> jsval \<Rightarrow> bool um_op" where
  "user_delete env i =
     op_seq (ucan env ''users:delete'' i)
     (op_bind (user_get env i None None) (\<lambda>user.
      if js_get user ''id'' = acc_user (ue_access env) 0 then op_throw (PermissionError ''You cannot delete yourself.'')
      else op_seq (patch_user env (js_get user ''id'') [(''is_deleted'', JNum 1)])
           (op_seq (uaudit env ''deleted'' (js_get user ''id'') (JObj (omit_user (obj_of user)))) (op_ret True))))"

definition user_deleteAll :: "user_env \<Rightarrow> unit um_op" where
  "user_deleteAll env s = (Inr (), s\<lparr>us_users := map (patched_row env [(''is_deleted'', JNum 1)]) (us_users s)\<rparr>)"

section \<open>Passwords, permissions, logging in as somebody\<close>

definition credential_of :: "int \<Rightarrow> string \<Rightarrow> password_row \<Rightarrow> bool" where
  "credential_of uid t a \<longleftrightarrow> pw_user_id a = uid \<and> pw_type a = t \<and> \<not> pw_is_deleted a"

definition replace_password :: "user_env \<Rightarrow> int \<Rightarrow> string \<Rightarrow> string \<Rightarrow> unit um_op" where
  "replace_password env uid t secret s =
     (if List.find (credential_of uid t) (ls_passwords (us_login s)) \<noteq> None
      then (case encryptPassword env t secret of
              Inl e \<Rightarrow> (Inl e, s)
            | Inr h \<Rightarrow> (Inr (), set_passwords (patch_where (credential_of uid t) (\<lambda>a. a\<lparr>pw_type := t, pw_secret := h\<rparr>)) s))
      else insert_password env uid t secret s)"

definition revoke_sessions :: "user_env \<Rightarrow> int \<Rightarrow> unit um_op" where
  "revoke_sessions env uid s =
     (Inr (), s\<lparr>us_login := (us_login s)\<lparr>ls_auth := (ls_auth (us_login s))\<lparr>sessions :=
        patch_where (\<lambda>r. s_user_id r = uid \<and> s_revoked_at r = None) (revoke_row (fmt_seconds (le_now (ue_login env))) ''password_changed'')
          (sessions (ls_auth (us_login s)))\<rparr>\<rparr>\<rparr>)"

text \<open>The owner of the account has to know the current password.\<close>

definition own_password :: "user_env \<Rightarrow> jsval \<Rightarrow> jsval \<Rightarrow> user_sys \<Rightarrow> unit result" where
  "own_password env user data s =
     (if js_get user ''id'' \<noteq> acc_user (ue_access env) 0 then Inr ()
      else if \<not> truthy (js_get data ''current'') then Inl (ValidationError ''Current password was not supplied'')
      else rbind (getTokenFromEmail (ue_login env)
             (JObj [(''identity'', js_get user ''email''), (''secret'', js_get data ''current'')]) (login_view s)) (\<lambda>_. Inr ()))"

text \<open>Password replacement and the end of the sessions commit together.\<close>

definition new_password :: "user_env \<Rightarrow> jsval \<Rightarrow> unit um_op" where
  "new_password env data =
     atomically (op_seq (replace_password env (int_of (js_get data ''id'')) (str_of (js_get data ''type'')) (str_of (js_get data ''secret'')))
       (revoke_sessions env (int_of (js_get data ''id''))))"

definition user_setPassword :: "user_env \<Rightarrow> jsval \<Rightarrow> bool um_op" where
  "user_setPassword env data =
     (let i = js_get data ''id'' in
      op_seq (umap_result (validatePasswordAuth data))
      (op_seq (ucan env ''users:password'' i)
      (op_bind (user_get env i None None) (\<lambda>user.
       if js_get user ''id'' \<noteq> i then op_throw (user_mismatch user i)
       else op_seq (\<lambda>s. umap_result (own_password env user data s) s)
            (op_seq (new_password env data)
            (op_seq (uaudit env ''updated'' (js_get user ''id'') (JObj [(''name'', js_get user ''name''), (''password_changed'', JBool True),
               (''auth_type'', js_get data ''type'')]))
            (op_ret True)))))))"

definition permission_columns :: "string list" where
  "permission_columns = [''visibility'', ''access_lists'', ''dead_hosts'', ''proxy_hosts'', ''redirection_hosts'', ''streams'', ''certificates'',
     ''cloudflared_tunnels'', ''analytics'', ''dashboard_notes'', ''ddns_providers'', ''tor_onions'', ''chat'']"

definition permission_pick :: "jsval \<Rightarrow> (string \<times> jsval) list" where
  "permission_pick data = map (\<lambda>k. (k, js_get data k)) (filter (has_own data) permission_columns)"

definition write_permissions :: "user_env \<Rightarrow> jsval \<Rightarrow> (string \<times> jsval) list \<Rightarrow> jsval um_op" where
  "write_permissions env uid cols s =
     (let cols' = filter (\<lambda>kv. snd kv \<noteq> Undef) cols @ [(''user_id'', uid)] in
      case List.find (\<lambda>p. js_get p ''user_id'' = uid) (us_permissions s) of
        None \<Rightarrow> insert_permissions env cols' s
      | Some p \<Rightarrow> (Inr (patched_row env cols' p),
          s\<lparr>us_permissions := patch_where (\<lambda>q. js_get q ''id'' = js_get p ''id'' \<and> js_get q ''user_id'' = uid) (patched_row env cols') (us_permissions s)\<rparr>))"

definition user_setPermissions :: "user_env \<Rightarrow> jsval \<Rightarrow> bool um_op" where
  "user_setPermissions env data =
     (let i = js_get data ''id'' in
      op_seq (ucan env ''users:permissions'' i)
      (op_bind (user_get env i None None) (\<lambda>user.
       if js_get user ''id'' \<noteq> i then op_throw (user_mismatch user i)
       else op_bind (write_permissions env (js_get user ''id'') (permission_pick data)) (\<lambda>row.
            op_seq (uaudit env ''updated'' (js_get user ''id'') (JObj [(''name'', js_get user ''name''), (''permissions'', row)]))
              (op_ret True)))))"

definition user_loginAs :: "user_env \<Rightarrow> jsval \<Rightarrow> (signed_token \<times> jsval) um_op" where
  "user_loginAs env i =
     op_seq (ucan env ''users:loginas'' i)
     (op_bind (user_get env i None None) (\<lambda>user.
      umap_result (rbind (getTokenFromUser (ue_login env) (session_user_of user)) (\<lambda>t. Inr (t, user)))))"

section \<open>Uploaded avatars\<close>

text \<open>An uploaded file: its size and its bytes, or no buffer.\<close>

record avatar_file =
  af_size :: int
  af_data :: "string option"

definition checked_image :: "avatar_file option \<Rightarrow> (string \<times> string \<times> string) result" where
  "checked_image file =
     (case file of
        None \<Rightarrow> Inl (ValidationError ''No file uploaded'')
      | Some f \<Rightarrow>
          if 2 * 1024 * 1024 < af_size f then Inl (ValidationError ''File too large. Maximum size is 2MB.'')
          else (case af_data f of
              None \<Rightarrow> Inl (ValidationError ''Uploaded avatar data is invalid.'')
            | Some b \<Rightarrow>
                (case detectAvatarFileType b of
                   None \<Rightarrow> Inl (ValidationError ''Invalid file type. Only JPEG, PNG, GIF, and WebP are allowed.'')
                 | Some (mime, ext) \<Rightarrow> Inr (b, mime, ext))))"

definition write_avatar :: "user_env \<Rightarrow> string \<Rightarrow> string \<Rightarrow> unit um_op" where
  "write_avatar env path b s =
     (case ue_fault env ''write'' of
        Some e \<Rightarrow> (Inl e, case ue_partial env of None \<Rightarrow> s | Some c \<Rightarrow> s\<lparr>us_avatars := (us_avatars s)(path \<mapsto> c)\<rparr>)
      | None \<Rightarrow> (Inr (), s\<lparr>us_avatars := (us_avatars s)(path \<mapsto> b)\<rparr>))"

definition remove_avatar :: "user_env \<Rightarrow> string \<Rightarrow> string \<Rightarrow> unit um_op" where
  "remove_avatar env what path s =
     (case ue_fault env what of
        Some e \<Rightarrow> (Inl e, s)
      | None \<Rightarrow> (Inr (), s\<lparr>us_avatars := (us_avatars s)(path := None)\<rparr>))"

definition patch_avatar :: "user_env \<Rightarrow> jsval \<Rightarrow> string \<Rightarrow> unit um_op" where
  "patch_avatar env uid filename =
     op_seq (ufault env ''patch'')
       (patch_user env uid [(''avatar_type'', JStr ''upload''), (''avatar_value'', JStr filename), (''avatar'', avatar_url uid)])"

text \<open>The file the account has now, if it was uploaded.\<close>

definition old_avatar :: "user_env \<Rightarrow> jsval \<Rightarrow> string option result" where
  "old_avatar env user =
     (if js_get user ''avatar_type'' = JStr ''upload'' \<and> truthy (js_get user ''avatar_value'')
      then rbind (getAvatarPath env (js_get user ''id'') (js_get user ''avatar_value'')) (\<lambda>p. Inr (Some p)) else Inr None)"

text \<open>A new file, the row that names it, and the removal of the file it replaces; a failed row takes the new file with it.\<close>

definition store_avatar :: "user_env \<Rightarrow> jsval \<Rightarrow> string \<Rightarrow> string \<Rightarrow> string option \<Rightarrow> unit um_op" where
  "store_avatar env uid b ext oldPath =
     (let filename = avatar_prefix uid @ ue_uuid env @ ext; filePath = ue_avatar_dir env @ ''/'' @ filename in
      op_seq (write_avatar env filePath b)
      (op_seq (op_catch (patch_avatar env uid filename) (\<lambda>e. op_seq (remove_avatar env ''remove'' filePath) (op_throw e)))
        (case oldPath of None \<Rightarrow> op_ret () | Some p \<Rightarrow> remove_avatar env ''remove old'' p)))"

definition user_uploadAvatar :: "user_env \<Rightarrow> jsval \<Rightarrow> avatar_file option \<Rightarrow> jsval um_op" where
  "user_uploadAvatar env i file =
     op_seq (ucan env ''users:update'' i)
     (op_bind (user_get env i None None) (\<lambda>user.
      op_bind (umap_result (checked_image file)) (\<lambda>(b, mime, ext).
      op_seq (ufault env ''mkdir'')
      (op_bind (umap_result (old_avatar env user)) (\<lambda>oldPath.
       op_seq (store_avatar env (js_get user ''id'') b ext oldPath)
         (op_ret (JObj [(''url'', avatar_url (js_get user ''id'')), (''mime_type'', JStr mime)])))))))"

text \<open>The file of an avatar and its type. Anybody may read it.\<close>

definition user_getAvatarImage :: "user_env \<Rightarrow> jsval \<Rightarrow> user_sys \<Rightarrow> (string \<times> string) result" where
  "user_getAvatarImage env i0 s =
     (let i = (case i0 of JStr t \<Rightarrow> ue_bound env t | v \<Rightarrow> v) in
      case List.find (\<lambda>r. js_get r ''id'' = i) (us_users s) of
        None \<Rightarrow> Inl (mk_ItemNotFoundError ''Avatar not found'')
      | Some r \<Rightarrow>
          if \<not> row_live r \<or> js_get r ''avatar_type'' \<noteq> JStr ''upload'' \<or> \<not> truthy (js_get r ''avatar_value'')
          then Inl (mk_ItemNotFoundError ''Avatar not found'')
          else rbind (getAvatarPath env (js_get r ''id'') (js_get r ''avatar_value'')) (\<lambda>filePath.
            case us_avatars s filePath of
              None \<Rightarrow> Inl (mk_ItemNotFoundError ''Avatar file missing'')
            | Some b \<Rightarrow>
                (case detectAvatarFileType b of
                   None \<Rightarrow> Inl (ValidationError ''Avatar file has an invalid image signature.'')
                 | Some (mime, _) \<Rightarrow> Inr (filePath, mime))))"

section \<open>The account of the environment\<close>

text \<open>\<open>setupDefaultUser\<close> with the values of \<open>INITIAL_ADMIN_EMAIL\<close> and \<open>INITIAL_ADMIN_PASSWORD\<close>.\<close>

definition all_permissions :: "jsval \<Rightarrow> (string \<times> jsval) list" where
  "all_permissions uid = [(''user_id'', uid), (''visibility'', JStr ''all''), (''proxy_hosts'', JStr ''manage''),
     (''redirection_hosts'', JStr ''manage''), (''dead_hosts'', JStr ''manage''), (''streams'', JStr ''manage''),
     (''access_lists'', JStr ''manage''), (''certificates'', JStr ''manage'')]"

definition setupDefaultUser :: "user_env \<Rightarrow> string option \<Rightarrow> string option \<Rightarrow> unit um_op" where
  "setupDefaultUser env email password s =
     (case (email, password) of
        (Some e, Some p) \<Rightarrow>
          if js_lower (js_trim e) = [] \<or> p = [] \<or> setup_complete s then (Inr (), s)
          else op_seq (umap_result (validatePasswordAuth (JObj [(''type'', JStr ''password''), (''secret'', JStr p)])))
                 (atomically
                   (op_bind (insert_user env (JObj [(''is_deleted'', JNum 0), (''email'', JStr (js_lower (js_trim e))),
                      (''name'', JStr ''Administrator''), (''nickname'', JStr ''Admin''), (''avatar'', JStr []), (''roles'', JArr [JStr ''admin''])]))
                   (\<lambda>user. op_seq (insert_password env (int_of (js_get user ''id'')) ''password'' p)
                     (op_seq (insert_permissions env (all_permissions (js_get user ''id''))) (op_ret ()))))) s
      | _ \<Rightarrow> (Inr (), s))"

end
