(* ===== verification/Users_Props.thy ===== *)
theory Users_Props
  imports Users Host_Lifecycle
begin

text \<open>
  What the account service does to its tables, operation by operation: the run of an operation that got past its checks, and the
  rows it leaves. The properties of \<open>Users_Claims\<close> are read off these runs.
\<close>

section \<open>Runs\<close>

lemma op_bindE:
  assumes "op_bind m f s = (r, s')"
  obtains (failed) e where "m s = (Inl e, s')" and "r = Inl e"
  | (passed) x t where "m s = (Inr x, t)" and "f x t = (r, s')"
  using assms by (auto simp: op_bind_def split: prod.splits sum.splits)

lemma op_seqE:
  assumes "op_seq m n s = (r, s')"
  obtains (failed) e where "m s = (Inl e, s')" and "r = Inl e"
  | (passed) x t where "m s = (Inr x, t)" and "n t = (r, s')"
  using assms unfolding op_seq_def by (rule op_bindE)

lemma umap_result_run [simp]: "umap_result r s = (x, t) \<longleftrightarrow> r = x \<and> t = s"
  by (auto simp: umap_result_def)

lemma ucan_run [simp]: "ucan env p d s = (x, t) \<longleftrightarrow> acc_can (ue_access env) p d = x \<and> t = s"
  by (simp add: ucan_def)

lemma atomicallyE:
  assumes "atomically m s = (r, s')"
  obtains (failed) e t where "m s = (Inl e, t)" and "r = Inl e" and "s' = s"
  | (passed) x where "m s = (Inr x, s')" and "r = Inr x"
  using assms by (auto simp: atomically_def split: prod.splits sum.splits)

text \<open>Everything but the audit log.\<close>

definition tables_of :: "user_sys \<Rightarrow> jsval list \<times> jsval list \<times> login_sys \<times> bool \<times> (string \<Rightarrow> string option)" where
  "tables_of s = (us_users s, us_permissions s, us_login s, us_ready s, us_avatars s)"

lemma tables_of_eqD:
  "tables_of s = (u, p, l, b, f) \<Longrightarrow> us_users s = u \<and> us_permissions s = p \<and> us_login s = l \<and> us_ready s = b \<and> us_avatars s = f"
  by (simp add: tables_of_def)

lemma uaudit_tables: "uaudit env a i m s = (r, s') \<Longrightarrow> tables_of s' = tables_of s"
  by (auto simp: uaudit_def tables_of_def split: sum.splits prod.splits)

lemma uaudit_ok [simp]: "a \<noteq> [] \<Longrightarrow> uaudit env a i m s \<noteq> (Inl e, s')"
  by (simp add: uaudit_def Audit_Log.audit_add_def)

lemma user_get_state: "user_get env i ex om s = (r, s') \<Longrightarrow> s' = s"
  by (auto simp: user_get_def Let_def split: if_splits option.splits sum.splits elim!: op_bindE simp del: op_bind_simp)

definition user_read :: "user_env \<Rightarrow> jsval \<Rightarrow> string list option \<Rightarrow> string list option \<Rightarrow> user_sys \<Rightarrow> jsval result" where
  "user_read env i ex om s = fst (user_get env i ex om s)"

lemma user_get_run [simp]: "user_get env i ex om s = (r, s') \<longleftrightarrow> s' = s \<and> user_read env i ex om s = r"
  using user_get_state [of env i ex om s] by (cases "user_get env i ex om s") (auto simp: user_read_def)

lemma omit_user_get: "k \<notin> {''is_deleted'', ''permissions''} \<Longrightarrow> props_get (omit_user cols) k = props_get cols k"
  by (simp add: omit_user_def omit_nested_get)

lemma parsed_user_get:
  "k \<notin> set user_bool_fields \<Longrightarrow> props_get (parsed_user r) k = js_get r k"
proof -
  have "props_get (map (\<lambda>kv. if fst kv \<in> set user_bool_fields then (fst kv, f (snd kv)) else kv) kvs) k = props_get kvs k"
    if "k \<notin> set user_bool_fields" for f and kvs :: "(string \<times> jsval) list"
    using that by (induction kvs) auto
  then show "k \<notin> set user_bool_fields \<Longrightarrow> ?thesis" by (simp add: parsed_user_def js_get_def)
qed

text \<open>The identifier a read asks for: that of the caller when none is given.\<close>

definition asked_id :: "user_env \<Rightarrow> jsval \<Rightarrow> jsval" where
  "asked_id env i = (if truthy i then i else acc_user (ue_access env) 0)"

lemma asked_id_truthy [simp]: "truthy i \<Longrightarrow> asked_id env i = i"
  by (simp add: asked_id_def)

text \<open>What a successful read returns: the live row with this identifier, with the columns the services look at.\<close>

lemma user_read_Inr:
  assumes "user_read env i ex None s = Inr row"
  obtains g r0 where "acc_can (ue_access env) ''users:get'' (asked_id env i) = Inr g" and "r0 \<in> set (us_users s)" and "row_live r0"
    and "js_get r0 ''id'' = asked_id env i" and "truthy (js_get r0 ''id'')"
    and "\<And>c. c \<in> {''id'', ''email'', ''roles'', ''name'', ''avatar_type'', ''avatar_value''} \<Longrightarrow> js_get row c = js_get r0 c"
    and "List.find (\<lambda>r. row_live r \<and> js_get r ''id'' = asked_id env i) (us_users s) = Some r0"
proof -
  let ?fetch = "\<lambda>r. JObj (omit_user (fetched_user ex s r))"
  have cols: "js_get (?fetch r) c = js_get r c"
    if "c \<in> {''id'', ''email'', ''roles'', ''name'', ''avatar_type'', ''avatar_value''}" for r c
    using that by (auto simp: omit_user_get fetched_user_def parsed_user_get user_bool_fields_def)
  from assms have "user_get env i ex None s = (Inr row, s)" by simp
  then obtain g r0 where g: "acc_can (ue_access env) ''users:get'' (asked_id env i) = Inr g"
      "List.find (\<lambda>r. row_live r \<and> js_get r ''id'' = asked_id env i) (us_users s) = Some r0" "truthy (js_get (?fetch r0) ''id'')"
      "row = (if js_get (?fetch r0) ''avatar'' = JStr [] then set_col ''avatar'' (DEFAULT_AVATAR env) (?fetch r0) else ?fetch r0)"
    unfolding user_get_def Let_def asked_id_def [symmetric]
    by (auto split: if_splits option.splits elim!: op_bindE simp del: op_bind_simp js_get_simps user_get_run)
  have c: "js_get row c = js_get r0 c" if "c \<in> {''id'', ''email'', ''roles'', ''name'', ''avatar_type'', ''avatar_value''}" for c
    using that cols [OF that, of r0] by (auto simp: g(4) simp del: js_get_simps)
  note r0 = find_SomeD [OF g(2)]
  show thesis
    by (rule that [OF g(1) conjunct1 [OF r0] conjunct1 [OF conjunct2 [OF r0]] conjunct2 [OF conjunct2 [OF r0]] _ c g(2)])
      (use g(3) cols [of "''id''" r0] in \<open>simp_all del: js_get_simps\<close>)
qed

lemma user_read_row:
  assumes "user_read env i ex None s = Inr row"
  shows "\<exists>r0. r0 \<in> set (us_users s) \<and> row_live r0 \<and> js_get r0 ''id'' = js_get row ''id'' \<and> js_get row ''id'' = asked_id env i \<and>
    js_get r0 ''email'' = js_get row ''email'' \<and> js_get r0 ''roles'' = js_get row ''roles'' \<and> truthy (js_get row ''id'')"
proof -
  from assms obtain r0 where r0: "r0 \<in> set (us_users s)" "row_live r0" "js_get r0 ''id'' = asked_id env i" "truthy (js_get r0 ''id'')"
      and c: "\<And>c. c \<in> {''id'', ''email'', ''roles'', ''name'', ''avatar_type'', ''avatar_value''} \<Longrightarrow> js_get row c = js_get r0 c"
    by (rule user_read_Inr) blast
  show ?thesis
    using r0 c [of "''id''"] c [of "''email''"] c [of "''roles''"] by (intro exI [of _ r0]) simp
qed

section \<open>Claims of an address\<close>

lemma claiming_emailE:
  assumes "claiming_email env email uid m s = (r, s')"
  obtains (failed) e where "r = Inl e" and "s' = s"
  | (passed) x where "m s = (Inr x, s')" and "r = Inr x" and "us_ready s" and "isEmailAvailable env (str_of email) uid s"
  using assms unfolding claiming_email_def by (auto elim!: atomicallyE split: if_splits)

lemma insert_userE:
  assumes "insert_user env data s = (r, s')"
  obtains row where "r = Inr row" and "s' = s\<lparr>us_users := us_users s @ [row]\<rparr>"
    and "row = new_row env ''user'' (ue_fresh_id env ''user'' (us_users s)) (stored_user (with_default ''roles'' (JArr []) (obj_of data)))"
  using assms by (auto simp: insert_user_def Let_def)

lemma insert_password_tables:
  "insert_password env uid t secret s = (r, s') \<Longrightarrow> us_users s' = us_users s \<and> us_permissions s' = us_permissions s \<and>
     us_ready s' = us_ready s \<and> us_avatars s' = us_avatars s \<and> ls_auth (us_login s') = ls_auth (us_login s)"
  by (auto simp: insert_password_def set_passwords_def split: sum.splits)

lemma insert_permissions_tables:
  "insert_permissions env cols s = (r, s') \<Longrightarrow> us_users s' = us_users s \<and> us_login s' = us_login s \<and> us_ready s' = us_ready s \<and>
     us_avatars s' = us_avatars s \<and> (\<exists>row. us_permissions s' = us_permissions s @ [row])"
  by (auto simp: insert_permissions_def Let_def)

lemma create_rowsE:
  assumes "create_rows env auth data s = (Inr row, s')"
  shows "us_users s' = us_users s @ [row]" "us_ready s' = us_ready s" "us_avatars s' = us_avatars s"
    "row = new_row env ''user'' (ue_fresh_id env ''user'' (us_users s)) (stored_user (with_default ''roles'' (JArr []) (obj_of data)))"
  using assms
  by (auto simp: create_rows_def op_base_simps simp del: op_bind_simp op_seq_simp elim!: op_bindE op_seqE insert_userE
      split: if_splits dest!: insert_password_tables insert_permissions_tables)

section \<open>The operations\<close>

lemma write_user_failed: "write_user env i data s = (Inl e, s') \<Longrightarrow> s' = s"
  by (auto simp: write_user_def patch_user_def elim!: claiming_emailE split: if_splits)

text \<open>An update that got past its checks: whether it needed the privilege, and the columns it writes.\<close>

lemma update_prepareE:
  assumes "update_prepare env data s = (Inr (user, data2), s')"
  obtains privileged data1 where "user_read env (js_get data ''id'') None None s = Inr user" and "s' = s"
    and "js_get user ''id'' = js_get data ''id''" and "privileged_change data user = Inr privileged"
    and "privileged \<longrightarrow> (\<exists>g. acc_can (ue_access env) ''users:permissions'' (js_get data ''id'') = Inr g)"
    and "with_email (if privileged then data else without [''roles'', ''is_disabled''] data) = Inr data1"
    and "update_avatar env user data1 = Inr data2"
  using assms unfolding update_prepare_def Let_def
  by (fastforce simp: op_base_simps simp del: op_bind_simp op_seq_simp elim!: op_bindE op_seqE split: if_splits)

lemma update_prepare_state: "update_prepare env data s = (r, s') \<Longrightarrow> s' = s"
  unfolding update_prepare_def Let_def
  by (auto simp: op_base_simps simp del: op_bind_simp op_seq_simp elim!: op_bindE op_seqE split: if_splits)

lemma user_updateE:
  assumes "user_update env request s = (r, s')"
  obtains (unchanged) "tables_of s' = tables_of s"
  | (written) user data t where "update_prepare env (flag_number request) s = (Inr (user, data), s)"
      and "write_user env (js_get user ''id'') data s = (Inr (), t)" and "tables_of s' = tables_of t"
proof -
  from assms show thesis unfolding user_update_def
  proof (cases rule: op_bindE)
    case (failed e)
    from update_prepare_state [OF this(1)] show thesis by (intro unchanged) simp
  next
    case (passed x t)
    obtain user data where x: "x = (user, data)" by (cases x)
    note t = update_prepare_state [OF passed(1)]
    from passed(2) x have "op_seq (write_user env (js_get user ''id'') data) (op_bind (user_get env (js_get request ''id'') None None) (\<lambda>row.
      op_seq (uaudit env ''updated'' (js_get row ''id'') (set_col ''name'' (js_get row ''name'') (set_col ''id'' (js_get row ''id'') data)))
        (op_ret row))) s = (r, s')" by (simp add: t del: op_bind_simp op_seq_simp)
    then show thesis
    proof (cases rule: op_seqE)
      case (failed e)
      from this(1) have "s' = s" by (rule write_user_failed)
      then show thesis by (intro unchanged) simp
    next
      case w: (passed y u)
      have "tables_of s' = tables_of u"
        using w(2) by (auto simp: op_base_simps simp del: op_bind_simp op_seq_simp elim!: op_bindE op_seqE dest!: uaudit_tables)
      with passed(1) w(1) show thesis by (intro written [of user data u]) (simp_all add: x t)
    qed
  qed
qed

lemma create_prepareE:
  assumes "create_prepare env request s = (r, s')"
  shows "s' = s" "r = Inr data \<Longrightarrow> (initial_setup env \<longrightarrow> truthy (request_auth request)) \<and>
    (truthy (request_auth request) \<longrightarrow> validatePasswordAuth (request_auth request) = Inr ()) \<and>
    (\<exists>data0 g. create_data request = Inr data0 \<and> acc_can (ue_access env) ''users:create'' data0 = Inr g \<and> create_avatar env data0 = Inr data)"
  using assms unfolding create_prepare_def
  by (auto simp: op_base_simps simp del: op_bind_simp op_seq_simp elim!: op_bindE op_seqE split: if_splits)

lemma create_transactionE:
  assumes "create_transaction env initial auth data s = (r, s')"
  obtains (failed) e where "r = Inl e" and "s' = s"
  | (passed) row where "r = Inr row" and "create_rows env auth data s = (Inr row, s')" and "initial \<Longrightarrow> \<not> setup_complete s"
      and "isEmailAvailable env (str_of (js_get data ''email'')) Undef s"
  using assms unfolding create_transaction_def by (auto elim!: claiming_emailE split: if_splits)

lemma user_createE:
  assumes "user_create env request s = (r, s')"
  obtains (unchanged) e where "s' = s" and "r = Inl e"
  | (written) data row t where "create_prepare env request s = (Inr data, s)"
      and "create_transaction env (initial_setup env) (request_auth request) data s = (Inr row, t)" and "tables_of s' = tables_of t"
      and "\<And>v. r = Inr v \<Longrightarrow> \<exists>w. user_read env (js_get row ''id'') (Some [''permissions'']) None t = Inr w"
proof -
  from assms show thesis unfolding user_create_def
  proof (cases rule: op_bindE)
    case (failed e)
    with create_prepareE(1) [OF failed(1)] show thesis by (intro unchanged) simp_all
  next
    case (passed data u)
    note u = create_prepareE(1) [OF passed(1)]
    from passed(2) show thesis
    proof (cases rule: op_bindE)
      case (failed e)
      then show thesis by (intro unchanged [of e]) (auto simp: u elim: create_transactionE)
    next
      case c: (passed row t)
      have "tables_of s' = tables_of t" "r = Inr v \<Longrightarrow> \<exists>w. user_read env (js_get row ''id'') (Some [''permissions'']) None t = Inr w" for v
        using c(2) unfolding Let_def
        by (auto simp: op_base_simps simp del: op_bind_simp op_seq_simp elim!: op_bindE op_seqE dest!: uaudit_tables)
      with passed(1) c(1) show thesis by (intro written [of data row t]) (simp_all add: u)
    qed
  qed
qed

lemma user_deleteE:
  assumes "user_delete env i s = (r, s')"
  obtains (unchanged) e where "tables_of s' = tables_of s" and "r = Inl e"
  | (written) user where "user_read env i None None s = Inr user" and "js_get user ''id'' \<noteq> acc_user (ue_access env) 0"
      and "\<exists>g. acc_can (ue_access env) ''users:delete'' i = Inr g"
      and "tables_of s' = tables_of (snd (patch_user env (js_get user ''id'') [(''is_deleted'', JNum 1)] s))"
proof (cases "\<exists>e. r = Inl e \<and> tables_of s' = tables_of s")
  case True
  then show thesis by (auto intro: unchanged)
next
  case False
  with assms show thesis
    unfolding user_delete_def
    by (auto simp: op_base_simps patch_user_def simp del: op_bind_simp op_seq_simp
        elim!: op_bindE op_seqE split: if_splits dest!: uaudit_tables intro!: written)
qed

lemma replace_password_failed: "replace_password env uid t secret s = (Inl e, s') \<Longrightarrow> s' = s"
  by (auto simp: replace_password_def insert_password_def split: if_splits sum.splits)

lemma new_password_failed: "new_password env data s = (Inl e, s') \<Longrightarrow> s' = s"
  unfolding new_password_def by (auto elim: atomicallyE)

lemma user_setPasswordE:
  assumes "user_setPassword env data s = (r, s')"
  obtains (unchanged) e where "tables_of s' = tables_of s" and "r = Inl e"
  | (written) user where "user_read env (js_get data ''id'') None None s = Inr user" and "js_get user ''id'' = js_get data ''id''"
      and "validatePasswordAuth data = Inr ()" and "\<exists>g. acc_can (ue_access env) ''users:password'' (js_get data ''id'') = Inr g"
      and "own_password env user data s = Inr ()"
      and "\<exists>t. new_password env data s = (Inr (), t) \<and> tables_of s' = tables_of t"
proof (cases "\<exists>e. r = Inl e \<and> tables_of s' = tables_of s")
  case True
  then show thesis by (auto intro: unchanged)
next
  case False
  with assms show thesis
    unfolding user_setPassword_def Let_def
    by (auto simp: op_base_simps simp del: op_bind_simp op_seq_simp
        elim!: op_bindE op_seqE split: if_splits dest!: uaudit_tables new_password_failed intro!: written)
qed

lemma write_permissions_tables:
  "write_permissions env uid cols s = (r, s') \<Longrightarrow> us_users s' = us_users s \<and> us_login s' = us_login s \<and> us_ready s' = us_ready s \<and>
     us_avatars s' = us_avatars s"
  by (auto simp: write_permissions_def Let_def insert_permissions_def split: option.splits)

lemma user_setPermissionsE:
  assumes "user_setPermissions env data s = (r, s')"
  obtains (unchanged) "tables_of s' = tables_of s"
  | (written) user where "user_read env (js_get data ''id'') None None s = Inr user" and "js_get user ''id'' = js_get data ''id''"
      and "\<exists>g. acc_can (ue_access env) ''users:permissions'' (js_get data ''id'') = Inr g"
      and "tables_of s' = tables_of (snd (write_permissions env (js_get data ''id'') (permission_pick data) s))"
proof (cases "tables_of s' = tables_of s")
  case True
  then show thesis by (rule unchanged)
next
  case False
  with assms show thesis
    unfolding user_setPermissions_def Let_def
    by (auto simp: op_base_simps write_permissions_tables simp del: op_bind_simp op_seq_simp
        elim!: op_bindE op_seqE split: if_splits dest!: uaudit_tables intro!: written)
qed

lemma user_loginAs_state: "user_loginAs env i s = (r, s') \<Longrightarrow> s' = s"
  unfolding user_loginAs_def by (auto simp del: op_bind_simp op_seq_simp elim!: op_bindE op_seqE)

section \<open>Avatars\<close>

text \<open>The columns an upload writes.\<close>

definition avatar_columns :: "jsval \<Rightarrow> string \<Rightarrow> (string \<times> jsval) list" where
  "avatar_columns uid filename = [(''avatar_type'', JStr ''upload''), (''avatar_value'', JStr filename), (''avatar'', avatar_url uid)]"

definition own_file :: "user_env \<Rightarrow> jsval \<Rightarrow> string \<Rightarrow> bool" where
  "own_file env uid path \<longleftrightarrow> starts_with path (ue_avatar_dir env @ ''/'' @ avatar_prefix uid)"

lemma starts_with_front [simp]: "starts_with (p @ s) p"
  by (simp add: starts_with_def)

lemma getAvatarPath_own: "getAvatarPath env uid filename = Inr p \<Longrightarrow> own_file env uid p"
  by (auto simp: getAvatarPath_def own_file_def starts_with_def split: if_splits)

lemma old_avatar_own: "old_avatar env user = Inr (Some p) \<Longrightarrow> own_file env (js_get user ''id'') p"
  by (auto simp: old_avatar_def res_simps split: if_splits dest: getAvatarPath_own)

lemma ufault_run [simp]: "ufault env w s = (r, s') \<longleftrightarrow> s' = s \<and> r = (case ue_fault env w of None \<Rightarrow> Inr () | Some e \<Rightarrow> Inl e)"
  by (auto simp: ufault_def split: option.splits)

lemma store_avatar_tables:
  assumes "store_avatar env uid b ext old s = (r, s')"
  shows "us_permissions s' = us_permissions s" "us_login s' = us_login s" "us_ready s' = us_ready s"
    "us_users s' = us_users s \<or> us_users s' = us_users (snd (patch_user env uid (avatar_columns uid (avatar_prefix uid @ ue_uuid env @ ext)) s))"
    "(\<And>p. old = Some p \<Longrightarrow> own_file env uid p) \<Longrightarrow> \<not> own_file env uid path \<Longrightarrow> us_avatars s' path = us_avatars s path"
  using assms unfolding store_avatar_def Let_def
  by (auto simp: write_avatar_def remove_avatar_def patch_avatar_def ufault_def patch_user_def avatar_columns_def own_file_def starts_with_def
      split: option.splits if_splits)

lemma user_uploadAvatarE:
  assumes "user_uploadAvatar env i file s = (r, s')"
  obtains (unchanged) e where "s' = s" and "r = Inl e"
  | (written) user b mime ext old x where "user_read env i None None s = Inr user" and "checked_image file = Inr (b, mime, ext)"
      and "old_avatar env user = Inr old" and "\<exists>g. acc_can (ue_access env) ''users:update'' i = Inr g"
      and "store_avatar env (js_get user ''id'') b ext old s = (x, s')"
      and "r = rbind x (\<lambda>_. Inr (JObj [(''url'', avatar_url (js_get user ''id'')), (''mime_type'', JStr mime)]))"
proof (cases "\<exists>e. s' = s \<and> r = Inl e")
  case True
  then show thesis by (auto intro: unchanged)
next
  case False
  have w: "\<lbrakk>user_read env i None None s = Inr user; checked_image file = Inr (b, mime, ext); old_avatar env user = Inr old;
      acc_can (ue_access env) ''users:update'' i = Inr g; store_avatar env (js_get user ''id'') b ext old s = (x, s');
      r = rbind x (\<lambda>_. Inr (JObj [(''url'', avatar_url (js_get user ''id'')), (''mime_type'', JStr mime)]))\<rbrakk> \<Longrightarrow> thesis"
    for user b mime ext old g x using written by blast
  from assms False show thesis
    unfolding user_uploadAvatar_def
    by (auto simp: op_base_simps rbind_def simp del: op_bind_simp op_seq_simp elim!: op_bindE op_seqE split: option.splits intro: w)
qed

section \<open>The account of the environment\<close>

lemma setupDefaultUserE:
  assumes "setupDefaultUser env email password s = (r, s')"
  obtains (unchanged) "s' = s"
  | (written) e row where "\<not> setup_complete s" and "email = Some e" and "us_users s' = us_users s @ [row]"
      and "js_get row ''id'' = JNum (ue_fresh_id env ''user'' (us_users s))"
      and "us_ready s' = us_ready s" and "us_avatars s' = us_avatars s"
proof (cases "s' = s")
  case True
  then show thesis by (rule unchanged)
next
  case False
  have row: "js_get (new_row env t i cols) ''id'' = JNum i" for t i cols by (simp add: new_row_def)
  from assms False show thesis
    unfolding setupDefaultUser_def
    by (auto simp: op_base_simps row simp del: op_bind_simp op_seq_simp elim!: op_bindE op_seqE atomicallyE insert_userE
        split: option.splits if_splits dest!: insert_password_tables insert_permissions_tables intro!: written)
qed

end
