(* ===== verification/Users_Inv.thy ===== *)
theory Users_Inv
  imports Users_Props
begin

text \<open>
  The invariant of the account table over runs of the service: identifiers are unique, and so are the addresses of live accounts.
  The first part is about columns, what a write leaves in a row.
\<close>

section \<open>Rows and columns\<close>

abbreviation well_formed :: "jsval \<Rightarrow> bool" where
  "well_formed v \<equiv> distinct (map fst (obj_of v))"

lemma fst_stored: "map fst (stored_user cols) = map fst (filter (\<lambda>kv. snd kv \<noteq> Undef) cols)"
  by (induction cols) (auto simp: stored_user_def)

lemma distinct_stored_user: "distinct (map fst cols) \<Longrightarrow> distinct (map fst (stored_user cols))"
  by (simp add: fst_stored distinct_map_filter)

lemma stored_get:
  "distinct (map fst cols) \<Longrightarrow> props_get (stored_user cols) k = (if k \<in> set user_bool_fields \<and> props_get cols k \<noteq> Undef
     then JNum (if truthy (props_get cols k) then 1 else 0) else props_get cols k)"
proof (induction cols)
  case Nil
  then show ?case by (simp add: stored_user_def)
next
  case (Cons kv cols)
  obtain k' v where kv: "kv = (k', v)" by (cases kv)
  from Cons.prems kv have "props_get cols k' = Undef" by (simp add: props_get_notin)
  with Cons kv show ?case by (auto simp: stored_user_def)
qed

lemma stored_key:
  assumes "distinct (map fst cols)"
  shows "k \<in> fst ` set (stored_user cols) \<longleftrightarrow> props_get cols k \<noteq> Undef"
proof -
  have "fst ` set (stored_user cols) = set (map fst (filter (\<lambda>kv. snd kv \<noteq> Undef) cols))"
    by (simp only: fst_stored [symmetric] set_map)
  moreover have "k \<in> set (map fst (filter (\<lambda>kv. snd kv \<noteq> Undef) cols)) \<longleftrightarrow> props_get cols k \<noteq> Undef"
    using assms by (induction cols) (auto simp: props_get_notin image_iff split: if_splits)
  ultimately show ?thesis by simp
qed

text \<open>A column after a write: the written value when there is one.\<close>

definition column :: "(string \<times> jsval) list \<Rightarrow> string \<Rightarrow> jsval \<Rightarrow> jsval" where
  "column cols k old = (if props_get cols k = Undef then old
     else if k \<in> set user_bool_fields then JNum (if truthy (props_get cols k) then 1 else 0) else props_get cols k)"

lemma merge_stored:
  "distinct (map fst cols) \<Longrightarrow> props_get (props_merge a (stored_user cols)) k = column cols k (props_get a k)"
  by (auto simp: props_get_merge [OF distinct_stored_user] stored_key stored_get column_def)

lemma patched_get:
  "distinct (map fst cols) \<Longrightarrow> k \<noteq> ''modified_on'' \<Longrightarrow> js_get (patched_row env (stored_user cols) r) k = column cols k (js_get r k)"
  by (simp add: patched_row_def merge_stored) (simp add: js_get_def)

lemma new_row_get:
  "distinct (map fst cols) \<Longrightarrow> k \<notin> {''id'', ''modified_on'', ''created_on''} \<Longrightarrow>
     js_get (new_row env t i (stored_user cols)) k = column cols k (props_get (ue_defaults env t) k)"
  by (simp add: new_row_def merge_stored)

lemma new_row_id [simp]: "js_get (new_row env t i cols) ''id'' = JNum i"
  by (simp add: new_row_def)

lemma set_col_well_formed: "well_formed d \<Longrightarrow> well_formed (set_col k v d)"
  by (simp add: set_col_def distinct_props_set)

lemma without_well_formed: "well_formed d \<Longrightarrow> well_formed (without ks d)"
  by (simp add: without_def props_omit_def distinct_map_filter)

lemma without_get [simp]: "js_get (without ks d) k = (if k \<in> set ks then Undef else js_get d k)"
  by (simp add: without_def) (simp add: js_get_def)

lemma flag_number_facts:
  "well_formed d \<Longrightarrow> well_formed (flag_number d)" "k \<noteq> ''is_disabled'' \<Longrightarrow> js_get (flag_number d) k = js_get d k"
  "js_get (flag_number d) ''is_disabled'' = Undef \<longleftrightarrow> js_get d ''is_disabled'' = Undef"
  by (auto simp: flag_number_def intro: set_col_well_formed)

section \<open>Addresses\<close>

lemma lower_trim_lower [simp]: "js_lower (js_trim (js_lower e)) = js_trim (js_lower e)"
proof -
  have "set (js_trim s) \<subseteq> set s" for s
    by (auto simp: js_trim_def dest!: set_dropWhileD)
  then have "lower_char c = c" if "c \<in> set (js_trim (js_lower e))" for c
    using that by (force simp: js_lower_def)
  then show ?thesis unfolding js_lower_def [of "js_trim (js_lower e)"] by (rule map_idI)
qed

definition email_form :: "jsval \<Rightarrow> bool" where
  "email_form v \<longleftrightarrow> v = Undef \<or> (\<exists>e. v = JStr (js_trim (js_lower e)))"

lemma update_columns:
  assumes p: "update_prepare env data s = (Inr (user, data2), s')" and wf: "well_formed data"
  shows "well_formed data2" "js_get data2 ''id'' = js_get data ''id''" "email_form (js_get data2 ''email'')"
    "js_get user ''id'' = js_get data ''id''" "user_read env (js_get data ''id'') None None s = Inr user"
    "acc_can (ue_access env) ''users:permissions'' (js_get data ''id'') = Inl e \<Longrightarrow>
       js_get data2 ''roles'' = Undef \<and> js_get data2 ''is_disabled'' = Undef"
    "k \<notin> {''email'', ''avatar'', ''roles'', ''is_disabled''} \<Longrightarrow> js_get data2 k = js_get data k"
    "js_get data2 ''is_disabled'' \<in> {Undef, js_get data ''is_disabled''}"
proof -
  from p obtain privileged data1 where u: "user_read env (js_get data ''id'') None None s = Inr user"
      "js_get user ''id'' = js_get data ''id''"
      "privileged \<longrightarrow> (\<exists>g. acc_can (ue_access env) ''users:permissions'' (js_get data ''id'') = Inr g)"
      "with_email (if privileged then data else without [''roles'', ''is_disabled''] data) = Inr data1" "update_avatar env user data1 = Inr data2"
    by (elim update_prepareE)
  let ?d = "if privileged then data else without [''roles'', ''is_disabled''] data"
  have d: "well_formed ?d" using wf by (simp add: without_well_formed)
  have e: "well_formed data1" "k \<noteq> ''email'' \<Longrightarrow> js_get data1 k = js_get ?d k" "email_form (js_get data1 ''email'')" for k
    using u(4) d
    by (auto simp: with_email_def res_simps normal_email_def email_form_def set_col_well_formed split: if_splits jsval.splits)
  have a: "well_formed data2" "k \<noteq> ''avatar'' \<Longrightarrow> js_get data2 k = js_get data1 k" for k
    using u(5) e(1) by (auto simp: update_avatar_def Let_def res_simps set_col_well_formed split: if_splits)
  show "well_formed data2" by (rule a)
  show "email_form (js_get data2 ''email'')" using a(2) [of "''email''"] e(3) by simp
  show "js_get user ''id'' = js_get data ''id''" "user_read env (js_get data ''id'') None None s = Inr user" by (rule u)+
  show "js_get data2 ''id'' = js_get data ''id''" using a(2) [of "''id''"] e(2) [of "''id''"] by simp
  show "js_get data2 ''roles'' = Undef \<and> js_get data2 ''is_disabled'' = Undef"
    if "acc_can (ue_access env) ''users:permissions'' (js_get data ''id'') = Inl e"
    using u(3) that a(2) [of "''roles''"] a(2) [of "''is_disabled''"] e(2) [of "''roles''"] e(2) [of "''is_disabled''"] by auto
  show "js_get data2 k = js_get data k" if "k \<notin> {''email'', ''avatar'', ''roles'', ''is_disabled''}"
    using that a(2) [of k] e(2) [of k] by auto
  show "js_get data2 ''is_disabled'' \<in> {Undef, js_get data ''is_disabled''}"
    using a(2) [of "''is_disabled''"] e(2) [of "''is_disabled''"] by auto
qed

section \<open>Addresses identify accounts\<close>

text \<open>Identifiers and the addresses of live accounts are unique; \<open>mail\<close> is the database's form of an address.\<close>

definition accounts_ok :: "(string \<Rightarrow> string) \<Rightarrow> user_sys \<Rightarrow> bool" where
  "accounts_ok mail s \<longleftrightarrow> distinct (map (\<lambda>r. js_get r ''id'') (us_users s)) \<and>
     (\<forall>r \<in> set (us_users s). is_integer (js_get r ''id'') \<and> 0 < int_of (js_get r ''id'')) \<and>
     (\<forall>r \<in> set (us_users s). \<forall>q \<in> set (us_users s). row_live r \<and> row_live q \<and>
        mail (str_of (js_get r ''email'')) = mail (str_of (js_get q ''email'')) \<longrightarrow> js_get r ''id'' = js_get q ''id'')"

definition user_env_ok :: "(string \<Rightarrow> string) \<Rightarrow> user_env \<Rightarrow> bool" where
  "user_env_ok mail env \<longleftrightarrow> le_email (ue_login env) = mail \<and>
     (\<forall>t rows. 0 < ue_fresh_id env t rows \<and> (\<forall>r \<in> set rows. js_get r ''id'' \<noteq> JNum (ue_fresh_id env t rows)))"

definition mail_ok :: "(string \<Rightarrow> string) \<Rightarrow> bool" where
  "mail_ok mail \<longleftrightarrow> (\<forall>e. mail (js_trim (js_lower e)) = js_trim (js_lower e))"

lemma accounts_ok_same: "us_users s' = us_users s \<Longrightarrow> accounts_ok mail s \<Longrightarrow> accounts_ok mail s'"
  unfolding accounts_ok_def by metis

lemma accounts_ok_unique:
  assumes "accounts_ok mail s" and "r \<in> set (us_users s)" and "q \<in> set (us_users s)" and "js_get r ''id'' = js_get q ''id''"
  shows "r = q"
  using assms by (auto simp: accounts_ok_def dest: distinct_key_eq)

lemma accounts_ok_append:
  assumes inv: "accounts_ok mail s" and rows: "us_users s' = us_users s @ [row]"
    and i: "js_get row ''id'' = JNum (ue_fresh_id env ''user'' (us_users s))" and env: "user_env_ok mail env"
    and free: "\<And>q. q \<in> set (us_users s) \<Longrightarrow> row_live q \<Longrightarrow> row_live row \<Longrightarrow>
      mail (str_of (js_get q ''email'')) \<noteq> mail (str_of (js_get row ''email''))"
  shows "accounts_ok mail s'"
proof -
  have fresh: "js_get q ''id'' \<noteq> js_get row ''id''" if "q \<in> set (us_users s)" for q
    using env that by (auto simp: i user_env_ok_def)
  have pos: "0 < ue_fresh_id env ''user'' (us_users s)" using env by (simp add: user_env_ok_def)
  have mem: "q \<in> set (us_users s') \<longleftrightarrow> q \<in> set (us_users s) \<or> q = row" for q by (auto simp: rows)
  have "js_get r ''id'' = js_get q ''id''"
    if "r \<in> set (us_users s')" "q \<in> set (us_users s')" "row_live r" "row_live q" "mail (str_of (js_get r ''email'')) = mail (str_of (js_get q ''email''))" for r q
    using inv that free [of r] free [of q] unfolding accounts_ok_def mem by metis
  moreover have "distinct (map (\<lambda>r. js_get r ''id'') (us_users s'))"
    using inv fresh by (force simp: accounts_ok_def rows)
  moreover have "is_integer (js_get r ''id'') \<and> 0 < int_of (js_get r ''id'')" if "r \<in> set (us_users s')" for r
    using inv that pos i by (auto simp: accounts_ok_def mem)
  ultimately show ?thesis unfolding accounts_ok_def by blast
qed

text \<open>A write to the row of one live account that keeps its identifier.\<close>

lemma accounts_ok_patch:
  assumes inv: "accounts_ok mail s" and rows: "us_users s' = patch_where (\<lambda>r. js_get r ''id'' = i) f (us_users s)"
    and keep: "\<And>r. js_get r ''id'' = i \<Longrightarrow> js_get (f r) ''id'' = i"
    and free: "\<And>r q. r \<in> set (us_users s) \<Longrightarrow> js_get r ''id'' = i \<Longrightarrow> q \<in> set (us_users s) \<Longrightarrow> js_get q ''id'' \<noteq> i \<Longrightarrow>
      row_live q \<Longrightarrow> row_live (f r) \<Longrightarrow> mail (str_of (js_get q ''email'')) \<noteq> mail (str_of (js_get (f r) ''email''))"
  shows "accounts_ok mail s'"
proof -
  have ids: "map (\<lambda>r. js_get r ''id'') (us_users s') = map (\<lambda>r. js_get r ''id'') (us_users s)"
    by (auto simp: rows patch_where_def keep)
  have mem: "r' \<in> set (us_users s') \<longleftrightarrow> (\<exists>r \<in> set (us_users s). r' = (if js_get r ''id'' = i then f r else r))" for r'
    unfolding rows set_patch_where image_iff by (rule refl)
  have un: "js_get r ''id'' = js_get q ''id''"
    if "r \<in> set (us_users s)" "q \<in> set (us_users s)" "row_live r" "row_live q" "mail (str_of (js_get r ''email'')) = mail (str_of (js_get q ''email''))" for r q
    using inv that unfolding accounts_ok_def by blast
  have "js_get r' ''id'' = js_get q' ''id''"
    if m: "r' \<in> set (us_users s')" "q' \<in> set (us_users s')" "row_live r'" "row_live q'" "mail (str_of (js_get r' ''email'')) = mail (str_of (js_get q' ''email''))" for r' q'
  proof -
    from m(1,2) obtain r q where r: "r \<in> set (us_users s)" "r' = (if js_get r ''id'' = i then f r else r)"
      and q: "q \<in> set (us_users s)" "q' = (if js_get q ''id'' = i then f q else q)" unfolding mem by blast
    show ?thesis
    proof (cases "js_get r ''id'' = i")
      case ri: True
      show ?thesis
      proof (cases "js_get q ''id'' = i")
        case True
        with ri r(2) q(2) show ?thesis by (simp add: keep)
      next
        case False
        with ri r q m(3-5) free [OF r(1) ri q(1) False] show ?thesis by simp
      qed
    next
      case ri: False
      show ?thesis
      proof (cases "js_get q ''id'' = i")
        case True
        with ri r q m(3-5) free [OF q(1) True r(1) ri] show ?thesis by simp
      next
        case False
        with ri r q m(3-5) un [OF r(1) q(1)] show ?thesis by simp
      qed
    qed
  qed
  moreover have "distinct (map (\<lambda>r. js_get r ''id'') (us_users s'))" using inv by (simp add: ids accounts_ok_def)
  moreover have "is_integer (js_get r ''id'') \<and> 0 < int_of (js_get r ''id'')" if "r \<in> set (us_users s')" for r
    using inv that keep unfolding accounts_ok_def mem by (metis (full_types))
  ultimately show ?thesis unfolding accounts_ok_def by blast
qed

lemma write_userE:
  assumes "write_user env i data s = (Inr (), t)"
  shows "t = s\<lparr>us_users := patch_where (\<lambda>r. js_get r ''id'' = i) (patched_row env (stored_user (obj_of data))) (us_users s)\<rparr>"
    "js_get data ''email'' \<noteq> Undef \<Longrightarrow> isEmailAvailable env (str_of (js_get data ''email'')) i s"
  using assms by (auto simp: write_user_def patch_user_def elim!: claiming_emailE split: if_splits)

lemma available_mail:
  assumes "isEmailAvailable env (js_trim (js_lower e)) uid s" and "user_env_ok mail env" and "q \<in> set (us_users s)" and "row_live q"
    and "uid = Undef \<or> js_get q ''id'' \<noteq> uid"
  shows "mail (str_of (js_get q ''email'')) \<noteq> js_trim (js_lower e)"
  using assms by (auto simp: isEmailAvailable_def email_taken_def user_env_ok_def)

lemma users_of_tables: "tables_of s = tables_of t \<Longrightarrow> us_users s = us_users t"
  by (simp add: tables_of_def)

lemma update_keeps_ok:
  assumes env: "user_env_ok mail env" "mail_ok mail" and wf: "well_formed request" and inv: "accounts_ok mail s"
    and u: "user_update env request s = (r, s')"
  shows "accounts_ok mail s'"
  using u
proof (cases rule: user_updateE)
  case unchanged
  then show ?thesis by (rule accounts_ok_same [OF users_of_tables inv])
next
  case (written user data t)
  note wf' = flag_number_facts(1) [OF wf]
  note c = update_columns [OF written(1) wf']
  have i: "js_get (flag_number request) ''id'' = js_get request ''id''" by (simp add: flag_number_facts)
  let ?i = "js_get user ''id''"
  note w = write_userE [OF written(2)]
  from user_read_row [OF c(5)] obtain r0 where r0: "r0 \<in> set (us_users s)" "row_live r0" "js_get r0 ''id'' = js_get user ''id''" by blast
  have col: "js_get (patched_row env (stored_user (obj_of data)) r) k = column (obj_of data) k (js_get r k)" if "k \<noteq> ''modified_on''" for r k
    using c(1) that by (rule patched_get)
  have live: "r = r0" if "r \<in> set (us_users s)" "js_get r ''id'' = ?i" for r
    using accounts_ok_unique [OF inv that(1) r0(1)] that(2) r0(3) by simp
  show ?thesis
  proof (rule accounts_ok_patch [OF inv, of s' ?i "patched_row env (stored_user (obj_of data))"])
    show "us_users s' = patch_where (\<lambda>r. js_get r ''id'' = ?i) (patched_row env (stored_user (obj_of data))) (us_users s)"
      using users_of_tables [OF written(3)] by (simp add: w(1))
    show "js_get (patched_row env (stored_user (obj_of data)) r) ''id'' = ?i" if "js_get r ''id'' = ?i" for r
      using that c(2,4) col [of "''id''" r] by (auto simp: column_def user_bool_fields_def js_get_def)
    show "mail (str_of (js_get q ''email'')) \<noteq> mail (str_of (js_get (patched_row env (stored_user (obj_of data)) r) ''email''))"
      if q: "r \<in> set (us_users s)" "js_get r ''id'' = ?i" "q \<in> set (us_users s)" "js_get q ''id'' \<noteq> ?i" "row_live q" for r q
    proof (cases "js_get data ''email'' = Undef")
      case True
      then have "js_get (patched_row env (stored_user (obj_of data)) r) ''email'' = js_get r ''email''"
        by (simp add: col column_def) (simp add: js_get_def)
      moreover have "row_live r" using live [OF q(1,2)] r0(2) by simp
      ultimately show ?thesis using inv q unfolding accounts_ok_def by metis
    next
      case False
      with c(3) obtain e where e: "js_get data ''email'' = JStr (js_trim (js_lower e))" by (auto simp: email_form_def)
      then have "js_get (patched_row env (stored_user (obj_of data)) r) ''email'' = JStr (js_trim (js_lower e))"
        by (simp add: col column_def user_bool_fields_def) (simp add: js_get_def)
      moreover have "mail (str_of (js_get q ''email'')) \<noteq> js_trim (js_lower e)"
        using w(2) [OF False] available_mail [OF _ env(1) q(3,5), of e ?i] q(4) e by auto
      ultimately show ?thesis using env(2) by (simp add: mail_ok_def)
    qed
  qed
qed

lemma create_columns:
  assumes "create_data request = Inr data0" and "create_avatar env data0 = Inr data" and "well_formed request"
  shows "well_formed data" "\<exists>e. js_get data ''email'' = JStr (js_trim (js_lower e))"
    "k \<notin> {''avatar'', ''roles'', ''email'', ''is_disabled'', ''auth''} \<Longrightarrow> js_get data k = js_get request k"
  using assms
  by (auto simp: create_data_def create_avatar_def Let_def res_simps normal_email_def flag_number_def without_well_formed set_col_well_formed
      split: if_splits jsval.splits)

lemma props_get_with_default: "k' \<noteq> k \<Longrightarrow> props_get (with_default k v (obj_of d)) k' = js_get d k'"
  by (simp add: with_default_def js_get_def)

lemma create_keeps_ok:
  assumes env: "user_env_ok mail env" "mail_ok mail" and wf: "well_formed request" and inv: "accounts_ok mail s"
    and u: "user_create env request s = (r, s')"
  shows "accounts_ok mail s'"
  using u
proof (cases rule: user_createE)
  case (unchanged e)
  with inv show ?thesis by simp
next
  case (written data row t)
  from create_prepareE(2) [OF written(1), of data] obtain data0 where d: "create_data request = Inr data0" "create_avatar env data0 = Inr data"
    by auto
  note c = create_columns [OF d wf]
  from c(2) obtain e where e: "js_get data ''email'' = JStr (js_trim (js_lower e))" by blast
  from written(2) have cr: "create_rows env (request_auth request) data s = (Inr row, t)" "isEmailAvailable env (js_trim (js_lower e)) Undef s"
    by (auto elim: create_transactionE simp: e)
  note rows = create_rowsE [OF cr(1)]
  have wf': "distinct (map fst (with_default ''roles'' (JArr []) (obj_of data)))"
    using c(1) by (simp add: with_default_def distinct_props_set)
  have "js_get row ''email'' = JStr (js_trim (js_lower e))"
    using e by (simp add: rows(4) new_row_get [OF wf'] column_def user_bool_fields_def props_get_with_default)
  then have m: "mail (str_of (js_get row ''email'')) = js_trim (js_lower e)" using env(2) by (simp add: mail_ok_def)
  show ?thesis
  proof (rule accounts_ok_append [OF inv _ _ env(1), of s' row])
    show "us_users s' = us_users s @ [row]" using users_of_tables [OF written(3)] rows(1) by simp
    show "js_get row ''id'' = JNum (ue_fresh_id env ''user'' (us_users s))" by (simp add: rows(4))
    show "mail (str_of (js_get q ''email'')) \<noteq> mail (str_of (js_get row ''email''))" if "q \<in> set (us_users s)" "row_live q" for q
      using available_mail [OF cr(2) env(1) that] by (simp add: m)
  qed
qed

lemma column_patch: "k \<noteq> ''modified_on'' \<Longrightarrow> distinct (map fst cols) \<Longrightarrow> props_get cols k = Undef \<Longrightarrow>
    js_get (patched_row env (stored_user cols) r) k = js_get r k"
  by (simp add: patched_get column_def)

text \<open>A write that leaves identifier and address alone and does not revive the account.\<close>

lemma accounts_ok_columns:
  assumes inv: "accounts_ok mail s" and rows: "us_users s' = patch_where (\<lambda>r. js_get r ''id'' = i) (patched_row env (stored_user cols)) (us_users s)"
    and d: "distinct (map fst cols)" and n: "props_get cols ''id'' = Undef" "props_get cols ''email'' = Undef"
    and dead: "\<And>r. row_live (patched_row env (stored_user cols) r) \<Longrightarrow> row_live r"
  shows "accounts_ok mail s'"
proof (rule accounts_ok_patch [OF inv rows])
  show "js_get (patched_row env (stored_user cols) r) ''id'' = i" if "js_get r ''id'' = i" for r
    using that by (simp add: column_patch [OF _ d n(1)])
  show "mail (str_of (js_get q ''email'')) \<noteq> mail (str_of (js_get (patched_row env (stored_user cols) r) ''email''))"
    if "r \<in> set (us_users s)" "js_get r ''id'' = i" "q \<in> set (us_users s)" "js_get q ''id'' \<noteq> i" "row_live q"
      "row_live (patched_row env (stored_user cols) r)" for r q
  proof -
    have "row_live r" by (rule dead [OF that(6)])
    with that(1-5) inv have "mail (str_of (js_get q ''email'')) \<noteq> mail (str_of (js_get r ''email''))"
      unfolding accounts_ok_def by metis
    then show ?thesis by (simp add: column_patch [OF _ d n(2)])
  qed
qed

lemma live_patched: "distinct (map fst cols) \<Longrightarrow> row_live (patched_row env (stored_user cols) r) \<longleftrightarrow>
    (if props_get cols ''is_deleted'' = Undef then row_live r else \<not> truthy (props_get cols ''is_deleted''))"
  by (simp add: row_live_def patched_get column_def user_bool_fields_def)

lemma delete_keeps_ok:
  assumes inv: "accounts_ok mail s" and u: "user_delete env i s = (r, s')"
  shows "accounts_ok mail s'"
  using u
proof (cases rule: user_deleteE)
  case (unchanged e)
  then show ?thesis by (intro accounts_ok_same [OF users_of_tables inv])
next
  case (written user)
  show ?thesis
    by (rule accounts_ok_columns [OF inv, of s' "js_get user ''id''" env "[(''is_deleted'', JNum 1)]"])
      (use users_of_tables [OF written(4)] in \<open>simp_all add: patch_user_def live_patched\<close>)
qed

lemma upload_keeps_ok:
  assumes inv: "accounts_ok mail s" and u: "user_uploadAvatar env i file s = (r, s')"
  shows "accounts_ok mail s'"
  using u
proof (cases rule: user_uploadAvatarE)
  case (unchanged e)
  then show ?thesis using inv by simp
next
  case (written user b mime ext old x)
  let ?cols = "avatar_columns (js_get user ''id'') (avatar_prefix (js_get user ''id'') @ ue_uuid env @ ext)"
  from store_avatar_tables(4) [OF written(5)] show ?thesis
  proof
    assume "us_users s' = us_users s"
    then show ?thesis by (rule accounts_ok_same [OF _ inv])
  next
    assume p: "us_users s' = us_users (snd (patch_user env (js_get user ''id'') ?cols s))"
    show ?thesis
      by (rule accounts_ok_columns [OF inv, of s' "js_get user ''id''" env ?cols])
        (use p in \<open>simp_all add: patch_user_def live_patched avatar_columns_def\<close>)
  qed
qed

lemma deleteAll_keeps_ok:
  assumes inv: "accounts_ok mail s"
  shows "accounts_ok mail (snd (user_deleteAll env s))"
proof -
  have st: "stored_user [(''is_deleted'', JNum 1)] = [(''is_deleted'', JNum 1)]" by (simp add: stored_user_def)
  have dead: "\<not> row_live (patched_row env [(''is_deleted'', JNum 1)] r)" for r
    using live_patched [of "[(''is_deleted'', JNum 1)]" env r] by (simp add: st)
  have i: "js_get (patched_row env [(''is_deleted'', JNum 1)] r) ''id'' = js_get r ''id''" for r
    using column_patch [of "''id''" "[(''is_deleted'', JNum 1)]" env r] by (simp add: st)
  show ?thesis using inv by (simp add: accounts_ok_def user_deleteAll_def dead i comp_def)
qed

lemma setup_keeps_ok:
  assumes env: "user_env_ok mail env" and inv: "accounts_ok mail s" and u: "setupDefaultUser env email password s = (r, s')"
  shows "accounts_ok mail s'"
  using u
proof (cases rule: setupDefaultUserE)
  case unchanged
  with inv show ?thesis by simp
next
  case (written e row)
  show ?thesis
    by (rule accounts_ok_append [OF inv written(3) written(4) env]) (use written(1) in \<open>auto simp: setup_complete_def\<close>)
qed

lemma set_passwords_tables [simp]: "us_users (set_passwords f s) = us_users s" "us_permissions (set_passwords f s) = us_permissions s"
  "us_ready (set_passwords f s) = us_ready s" "us_avatars (set_passwords f s) = us_avatars s"
  "ls_auth (us_login (set_passwords f s)) = ls_auth (us_login s)"
  by (simp_all add: set_passwords_def)

lemma new_password_tables: "new_password env data s = (r, t) \<Longrightarrow> us_users t = us_users s \<and> us_permissions t = us_permissions s \<and> us_avatars t = us_avatars s"
  unfolding new_password_def
  by (auto simp: replace_password_def insert_password_def revoke_sessions_def simp del: op_seq_simp elim!: atomicallyE op_seqE
      split: if_splits sum.splits)

section \<open>Runs of the service\<close>

text \<open>One request to the service by any caller, or anything the login does to its own tables.\<close>

inductive user_step :: "(string \<Rightarrow> string) \<Rightarrow> user_sys \<Rightarrow> user_sys \<Rightarrow> bool" for mail where
  create: "user_env_ok mail env \<Longrightarrow> well_formed q \<Longrightarrow> user_step mail s (snd (user_create env q s))"
| update: "user_env_ok mail env \<Longrightarrow> well_formed q \<Longrightarrow> user_step mail s (snd (user_update env q s))"
| delete: "user_step mail s (snd (user_delete env i s))"
| deleteAll: "user_step mail s (snd (user_deleteAll env s))"
| setPassword: "user_step mail s (snd (user_setPassword env q s))"
| setPermissions: "user_step mail s (snd (user_setPermissions env q s))"
| uploadAvatar: "user_step mail s (snd (user_uploadAvatar env i file s))"
| first_account: "user_env_ok mail env \<Longrightarrow> user_step mail s (snd (setupDefaultUser env email password s))"
| login: "user_step mail s (s\<lparr>us_login := l\<rparr>)"
| ready: "user_step mail s (s\<lparr>us_ready := True\<rparr>)"

lemma step_keeps_ok:
  assumes "mail_ok mail" and "accounts_ok mail s" and "user_step mail s t"
  shows "accounts_ok mail t"
  using assms(3)
proof cases
  case (create env q)
  with assms(1,2) show ?thesis by (metis create_keeps_ok prod.collapse)
next
  case (update env q)
  with assms(1,2) show ?thesis by (metis update_keeps_ok prod.collapse)
next
  case (delete env i)
  with assms(2) show ?thesis by (metis delete_keeps_ok prod.collapse)
next
  case (deleteAll env)
  with assms(2) show ?thesis by (simp only: deleteAll_keeps_ok)
next
  case (setPassword env q)
  obtain r where u: "user_setPassword env q s = (r, t)" using setPassword by (metis prod.collapse)
  then show ?thesis
    by (cases rule: user_setPasswordE) (use new_password_tables assms(2) in \<open>auto intro: accounts_ok_same [OF users_of_tables] accounts_ok_same dest!: users_of_tables\<close>)
next
  case (setPermissions env q)
  obtain r where u: "user_setPermissions env q s = (r, t)" using setPermissions by (metis prod.collapse)
  then show ?thesis
  proof (cases rule: user_setPermissionsE)
    case unchanged
    then show ?thesis by (rule accounts_ok_same [OF users_of_tables assms(2)])
  next
    case (written user)
    have "us_users t = us_users s"
      using users_of_tables [OF written(4)] write_permissions_tables [of env "js_get q ''id''" "permission_pick q" s] by (metis prod.collapse)
    then show ?thesis by (rule accounts_ok_same [OF _ assms(2)])
  qed
next
  case (uploadAvatar env i f)
  with assms(2) show ?thesis by (metis upload_keeps_ok prod.collapse)
next
  case (first_account env email password)
  with assms(2) show ?thesis by (metis setup_keeps_ok prod.collapse)
next
  case (login l)
  then show ?thesis by (intro accounts_ok_same [OF _ assms(2)]) simp
next
  case ready
  then show ?thesis by (intro accounts_ok_same [OF _ assms(2)]) simp
qed

text \<open>\<open>mail\<close> stands for the database, which leaves an address in normal form alone.\<close>

interpretation accounts: invariant_system "user_step mail" "\<lambda>s. mail_ok mail \<longrightarrow> accounts_ok mail s" for mail
  by unfold_locales (blast intro: step_keeps_ok)

end
