(* ===== verification/User_Members.thy ===== *)
theory User_Members
  imports Users_Inv
begin

text \<open>
  What an account that is no administrator can do with the account service: the permission schemas \<open>users-*.json\<close> of
  \<open>backend/lib/access/\<close> with the rules of \<open>roles.json\<close> and the identity rule of \<open>backend/lib/access.js\<close>, and the confinement of such an
  account to itself.
\<close>

section \<open>The permission schemas\<close>

text \<open>An array with an element that matches \<open>^text$\<close>.\<close>

definition array_contains :: "string \<Rightarrow> jsval \<Rightarrow> bool" where
  "array_contains text v \<longleftrightarrow> is_arr v \<and> JStr text \<in> set (arr_of v)"

text \<open>The type coercion of the schema validator to a number.\<close>

definition coerced_number :: "jsval \<Rightarrow> jsval" where
  "coerced_number v = (case v of
      JStr t \<Rightarrow> if t = [] then v else js_number v
    | JBool b \<Rightarrow> JNum (if b then 1 else 0)
    | Null \<Rightarrow> JNum 0
    | _ \<Rightarrow> v)"

definition admin_rule :: "jsval \<Rightarrow> bool" where
  "admin_rule d \<longleftrightarrow> array_contains ''user'' (js_get d ''scope'') \<and> array_contains ''admin'' (js_get d ''roles'')"

text \<open>The identity rule: a number from 1 on that is the identifier of the caller.\<close>

definition self_rule :: "jsval \<Rightarrow> jsval \<Rightarrow> bool" where
  "self_rule actor d \<longleftrightarrow> (case coerced_number (js_get d ''data'') of JNum n \<Rightarrow> 1 \<le> n \<and> coerced_number actor = JNum n | _ \<Rightarrow> False) \<and>
     array_contains ''user'' (js_get d ''scope'')"

definition admin_permissions :: "string list" where
  "admin_permissions = [''users:create'', ''users:delete'', ''users:list'', ''users:loginas'', ''users:permissions'']"

definition self_permissions :: "string list" where
  "self_permissions = [''users:get'', ''users:update'', ''users:password'']"

definition users_schema :: "string \<Rightarrow> (jsval \<Rightarrow> bool) option" where
  "users_schema p =
     (if p \<in> set admin_permissions then Some (\<lambda>v. admin_rule (js_get v p))
      else if p \<in> set self_permissions then Some (\<lambda>v. admin_rule (js_get v p) \<or> self_rule (js_get v ''actor_user_id'') (js_get v p))
      else None)"

text \<open>What such schemas leave to somebody: the own account.\<close>

definition member :: "access \<Rightarrow> jsval \<Rightarrow> bool" where
  "member acc uid \<longleftrightarrow> is_integer uid \<and> 1 \<le> int_of uid \<and> acc_user acc 0 = uid \<and>
     (\<forall>p \<in> set admin_permissions. \<forall>d. \<exists>e. acc_can acc p d = Inl e) \<and>
     (\<forall>p \<in> set self_permissions. \<forall>d. coerced_number d \<noteq> uid \<longrightarrow> (\<exists>e. acc_can acc p d = Inl e))"

text \<open>The access object of a request with the token of an account that is no administrator is such a one.\<close>

lemma access_can_initialised:
  assumes "initialised a" and "allowInternalAccess a \<noteq> JBool True" and "access_can verify rows validate p d a = (Inr g, a')"
  shows "\<exists>valid. validate p = Some valid \<and> g = permission_data a d \<and>
    valid (JObj [(''actor_user_id'', let actor = js_get (js_get (tokenData a) ''attrs'') ''id'' in if truthy actor then actor else JNum 0), (p, permission_data a d)])"
proof -
  have "access_init verify rows a = (Inr (), a)" using assms(1) by (simp add: access_init_def)
  with access_can_grant [OF assms(3,2)] show ?thesis by auto
qed

lemma permission_data_get:
  "js_get (permission_data a d) ''data'' = d" "js_get (permission_data a d) ''roles'' = JArr (map JStr (userRoles a))"
  by (simp_all add: permission_data_def permission_fields_def)

lemma member_of_account:
  assumes load: "access_load verify rows allow (new_access token) = (Inr td, a)" and token: "token \<noteq> []"
    and i: "js_get (js_get td ''attrs'') ''id'' = JNum n" "1 \<le> n"
    and plain: "\<And>u. u \<in> set rows \<Longrightarrow> u_id u = n \<Longrightarrow> ''admin'' \<notin> set (u_roles u)"
  shows "member (access_view verify rows users_schema a) (JNum n)"
proof -
  from load token have init: "access_init verify rows (new_access token) = (Inr (), a)" and td: "td = tokenData a"
    by (auto simp: access_load_def new_access_def split: prod.splits sum.splits)
  have a: "initialised a" "allowInternalAccess a \<noteq> JBool True"
    using access_init_ok [OF init] access_init_keeps_internal [of verify rows "new_access token"] init by (simp_all add: new_access_def)
  obtain u where u: "u \<in> set rows" "u_id u = n" "userRoles a = u_roles u @ [''user'']"
    using init i td
    by (auto simp: access_init_def new_access_def Let_def split: if_splits sum.splits option.splits dest!: find_SomeD)
  have roles: "''admin'' \<notin> set (userRoles a)" using plain [OF u(1,2)] u(3) by simp
  have no_admin: "\<not> admin_rule (permission_data a d)" for d
    using roles by (auto simp: admin_rule_def array_contains_def permission_data_get)
  have att: "token_get (tokenData a) ''attrs'' = js_get td ''attrs''"
    using i(1) td by (auto simp: token_get_def js_get_def)
  have me: "acc_user (access_view verify rows users_schema a) 0 = JNum n"
    using i by (simp add: acc_user_def access_view_def token_getUserId_def att Let_def)
  have refused: "\<exists>e. acc_can (access_view verify rows users_schema a) p d = Inl e"
    if p: "p \<in> set admin_permissions \<or> p \<in> set self_permissions \<and> coerced_number d \<noteq> JNum n" for p d
  proof (rule ccontr)
    assume "\<not> ?thesis"
    then obtain g a' where "access_can verify rows users_schema p d a = (Inr g, a')"
      by (cases "access_can verify rows users_schema p d a"; cases "fst (access_can verify rows users_schema p d a)") (auto simp: access_view_def)
    from access_can_initialised [OF a this] obtain valid where v: "users_schema p = Some valid"
        "valid (JObj [(''actor_user_id'', JNum n), (p, permission_data a d)])"
      using i td by (auto simp: Let_def)
    have ne: "p \<noteq> ''actor_user_id''" using p by (auto simp: admin_permissions_def self_permissions_def)
    have self: "\<not> self_rule (JNum n) (permission_data a d)" if "coerced_number d \<noteq> JNum n"
      using that by (simp add: self_rule_def permission_data_get coerced_number_def [of "JNum n"] split: jsval.split)
    show False
    proof (cases "p \<in> set admin_permissions")
      case True
      with v ne no_admin [of d] show False by (auto simp: users_schema_def)
    next
      case False
      with p have "p \<in> set self_permissions" "coerced_number d \<noteq> JNum n" by auto
      with v ne False no_admin [of d] self show False by (auto simp: users_schema_def)
    qed
  qed
  show ?thesis unfolding member_def using i(2) me refused by auto
qed

section \<open>Confinement\<close>

text \<open>The columns that decide what an account may do.\<close>

definition rights :: "jsval \<Rightarrow> jsval \<times> jsval \<times> jsval \<times> jsval" where
  "rights r = (js_get r ''id'', js_get r ''roles'', js_get r ''is_disabled'', js_get r ''is_deleted'')"

definition own_path :: "string \<Rightarrow> jsval \<Rightarrow> string \<Rightarrow> bool" where
  "own_path dir uid path \<longleftrightarrow> starts_with path (dir @ ''/'' @ avatar_prefix uid)"

text \<open>Two states that differ at most in the profile, the password, the sessions and the avatar files of one account.\<close>

definition confined :: "string \<Rightarrow> jsval \<Rightarrow> user_sys \<Rightarrow> user_sys \<Rightarrow> bool" where
  "confined dir uid s t \<longleftrightarrow> map rights (us_users t) = map rights (us_users s) \<and>
     filter (\<lambda>r. js_get r ''id'' \<noteq> uid) (us_users t) = filter (\<lambda>r. js_get r ''id'' \<noteq> uid) (us_users s) \<and>
     us_permissions t = us_permissions s \<and>
     filter (\<lambda>a. JNum (pw_user_id a) \<noteq> uid) (ls_passwords (us_login t)) = filter (\<lambda>a. JNum (pw_user_id a) \<noteq> uid) (ls_passwords (us_login s)) \<and>
     filter (\<lambda>r. JNum (s_user_id r) \<noteq> uid) (sessions (ls_auth (us_login t))) = filter (\<lambda>r. JNum (s_user_id r) \<noteq> uid) (sessions (ls_auth (us_login s))) \<and>
     (\<forall>path. \<not> own_path dir uid path \<longrightarrow> us_avatars t path = us_avatars s path)"

lemma confined_refl [simp]: "confined dir uid s s"
  by (simp add: confined_def)

lemma confined_trans: "confined dir uid s t \<Longrightarrow> confined dir uid t u \<Longrightarrow> confined dir uid s u"
  by (simp add: confined_def)

lemma confined_tables: "tables_of t = tables_of t' \<Longrightarrow> confined dir uid s t' \<Longrightarrow> confined dir uid s t"
  by (simp add: confined_def tables_of_def)

lemma confined_same: "tables_of t = tables_of s \<Longrightarrow> confined dir uid s t"
  by (simp add: confined_def tables_of_def)

definition integer_ids :: "user_sys \<Rightarrow> bool" where
  "integer_ids s \<longleftrightarrow> (\<forall>r \<in> set (us_users s). is_integer (js_get r ''id''))"

lemma confined_integer_ids: "confined dir uid s t \<Longrightarrow> integer_ids s \<Longrightarrow> integer_ids t"
proof -
  assume "confined dir uid s t" and s: "integer_ids s"
  then have "set (map (fst \<circ> rights) (us_users t)) = set (map (fst \<circ> rights) (us_users s))"
    unfolding confined_def by (metis list.map_comp)
  then have "(\<lambda>r. js_get r ''id'') ` set (us_users t) = (\<lambda>r. js_get r ''id'') ` set (us_users s)"
    by (simp add: rights_def comp_def)
  with s show "integer_ids t" unfolding integer_ids_def by (metis (no_types, lifting) image_iff)
qed

lemma member_target:
  assumes m: "member (ue_access env) uid" and ids: "integer_ids s" and p: "p \<in> set self_permissions"
    and g: "\<exists>g. acc_can (ue_access env) p i = Inr g" and r: "user_read env i ex None s = Inr user"
  shows "js_get user ''id'' = uid"
proof -
  from g obtain g' where "acc_can (ue_access env) p i = Inr g'" by blast
  with m p have c: "coerced_number i = uid" unfolding member_def by (metis Inl_Inr_False)
  from user_read_row [OF r] obtain r0 where r0: "r0 \<in> set (us_users s)" "js_get r0 ''id'' = js_get user ''id''" "js_get user ''id'' = asked_id env i" by blast
  show ?thesis
  proof (cases "truthy i")
    case True
    with r0 ids have "is_integer i" by (auto simp: integer_ids_def)
    then obtain k where "i = JNum k" by (rule is_integerE)
    with c r0 True show ?thesis by (simp add: coerced_number_def)
  next
    case False
    with r0(3) m show ?thesis by (simp add: asked_id_def member_def)
  qed
qed

lemma member_refused: "member acc uid \<Longrightarrow> p \<in> set admin_permissions \<Longrightarrow> acc_can acc p d \<noteq> Inr g"
  unfolding member_def by (metis Inl_Inr_False)

lemma filter_patch_other: "(\<And>x. p x \<Longrightarrow> \<not> q x) \<Longrightarrow> (\<And>x. p x \<Longrightarrow> \<not> q (f x)) \<Longrightarrow> filter q (patch_where p f xs) = filter q xs"
  by (induction xs) auto

text \<open>A write to the own row that leaves the deciding columns alone.\<close>

lemma confined_patch:
  assumes d: "distinct (map fst cols)" and n: "props_get cols ''roles'' = Undef" "props_get cols ''is_disabled'' = Undef" "props_get cols ''is_deleted'' = Undef"
    and i: "props_get cols ''id'' = Undef \<or> props_get cols ''id'' = uid"
    and t: "t = s\<lparr>us_users := patch_where (\<lambda>r. js_get r ''id'' = uid) (patched_row env (stored_user cols)) (us_users s)\<rparr>"
  shows "confined dir uid s t"
proof -
  have keep: "js_get (patched_row env (stored_user cols) r) ''id'' = uid" if "js_get r ''id'' = uid" for r
    using i that by (auto simp: patched_get [OF d] column_def user_bool_fields_def)
  have "rights (patched_row env (stored_user cols) r) = rights r" if "js_get r ''id'' = uid" for r
    using that n i by (auto simp: rights_def patched_get [OF d] column_def user_bool_fields_def)
  then have "map rights (us_users t) = map rights (us_users s)" by (auto simp: t patch_where_def)
  moreover have "filter (\<lambda>r. js_get r ''id'' \<noteq> uid) (us_users t) = filter (\<lambda>r. js_get r ''id'' \<noteq> uid) (us_users s)"
    unfolding t by (simp, rule filter_patch_other) (simp_all add: keep)
  ultimately show ?thesis by (simp add: confined_def t)
qed

lemma confined_update:
  assumes m: "member (ue_access env) uid" and ids: "integer_ids s" and wf: "well_formed q" and del: "js_get q ''is_deleted'' = Undef"
    and u: "user_update env q s = (r, s')"
  shows "confined dir uid s s'"
  using u
proof (cases rule: user_updateE)
  case unchanged
  then show ?thesis by (rule confined_same)
next
  case (written user data t)
  note c = update_columns [OF written(1) flag_number_facts(1) [OF wf]]
  have "js_get user ''id'' = uid"
  proof (rule member_target [OF m ids])
    show "''users:get'' \<in> set self_permissions" by (simp add: self_permissions_def)
    show "user_read env (js_get (flag_number q) ''id'') None None s = Inr user" by (rule c(5))
    then obtain g where g: "acc_can (ue_access env) ''users:get'' (asked_id env (js_get (flag_number q) ''id'')) = Inr g" by (rule user_read_Inr)
    have "truthy (js_get (flag_number q) ''id'')" using user_read_row [OF c(5)] c(4) by auto
    with g show "\<exists>g. acc_can (ue_access env) ''users:get'' (js_get (flag_number q) ''id'') = Inr g" by simp
  qed
  moreover obtain e where "acc_can (ue_access env) ''users:permissions'' (js_get (flag_number q) ''id'') = Inl e"
    using m unfolding member_def admin_permissions_def by fastforce
  ultimately have "confined dir uid s t"
    using write_userE(1) [OF written(2)] c(1,2,4) c(6) [of e] c(7) [of "''is_deleted''"] del
    by (intro confined_patch [of "obj_of data"]) (auto simp: flag_number_facts(2) js_get_def [of data])
  with written(3) show ?thesis by (rule confined_tables)
qed

lemma own_path_eq: "own_file env uid path \<longleftrightarrow> own_path (ue_avatar_dir env) uid path"
  by (simp add: own_file_def own_path_def)

lemma confined_upload:
  assumes m: "member (ue_access env) uid" and ids: "integer_ids s" and dir: "ue_avatar_dir env = dir"
    and u: "user_uploadAvatar env i f s = (r, s')"
  shows "confined dir uid s s'"
  using u
proof (cases rule: user_uploadAvatarE)
  case (unchanged e)
  then show ?thesis by simp
next
  case (written user b mime ext old x)
  have me: "js_get user ''id'' = uid"
    by (rule member_target [OF m ids _ written(4,1)]) (simp add: self_permissions_def)
  note st = store_avatar_tables [OF written(5)]
  let ?cols = "avatar_columns uid (avatar_prefix uid @ ue_uuid env @ ext)"
  have "confined dir uid s (s\<lparr>us_users := us_users s'\<rparr>)"
  proof (cases "us_users s' = us_users s")
    case True
    then show ?thesis by (simp add: confined_def)
  next
    case False
    with st(4) me have "us_users s' = us_users (snd (patch_user env uid ?cols s))" by simp
    then show ?thesis by (intro confined_patch [of ?cols]) (auto simp: avatar_columns_def patch_user_def)
  qed
  moreover have "us_avatars s' path = us_avatars s path" if "\<not> own_path dir uid path" for path
    using st(5) [of path] old_avatar_own [of env user] written(3) that me by (auto simp: own_path_eq dir)
  ultimately show ?thesis using st(1,2) by (simp add: confined_def)
qed

text \<open>The tables a password change leaves.\<close>

definition replaced_passwords :: "int \<Rightarrow> string \<Rightarrow> string \<Rightarrow> password_row list \<Rightarrow> password_row list" where
  "replaced_passwords uid ty h rows = (if List.find (credential_of uid ty) rows \<noteq> None
     then patch_where (credential_of uid ty) (\<lambda>a. a\<lparr>pw_type := ty, pw_secret := h\<rparr>) rows
     else rows @ [\<lparr>pw_user_id = uid, pw_type = ty, pw_secret = h, pw_is_deleted = False\<rparr>])"

definition ended_sessions :: "int \<Rightarrow> int \<Rightarrow> auth_session list \<Rightarrow> auth_session list" where
  "ended_sessions uid w rows = patch_where (\<lambda>r. s_user_id r = uid \<and> s_revoked_at r = None) (revoke_row w ''password_changed'') rows"

lemma new_password_run:
  assumes "new_password env data s = (Inr (), t)"
  obtains h where "encryptPassword env (str_of (js_get data ''type'')) (str_of (js_get data ''secret'')) = Inr h"
    and "us_login t = (us_login s)\<lparr>
      ls_passwords := replaced_passwords (int_of (js_get data ''id'')) (str_of (js_get data ''type'')) h (ls_passwords (us_login s)),
      ls_auth := (ls_auth (us_login s))\<lparr>sessions := ended_sessions (int_of (js_get data ''id'')) (fmt_seconds (le_now (ue_login env)))
        (sessions (ls_auth (us_login s)))\<rparr>\<rparr>"
  using assms unfolding new_password_def
  by (auto simp: replace_password_def insert_password_def revoke_sessions_def set_passwords_def replaced_passwords_def ended_sessions_def
      simp del: op_seq_simp elim!: atomicallyE op_seqE split: if_splits sum.splits)

lemma other_passwords: "filter (\<lambda>a. pw_user_id a \<noteq> k) (replaced_passwords k ty h rows) = filter (\<lambda>a. pw_user_id a \<noteq> k) rows"
proof -
  have "filter (\<lambda>a. pw_user_id a \<noteq> k) (patch_where (credential_of k ty) (\<lambda>a. a\<lparr>pw_type := ty, pw_secret := h\<rparr>) rows) = filter (\<lambda>a. pw_user_id a \<noteq> k) rows"
    by (rule filter_patch_other) (simp_all add: credential_of_def)
  then show ?thesis by (simp add: replaced_passwords_def)
qed

lemma other_sessions: "filter (\<lambda>r. s_user_id r \<noteq> k) (ended_sessions k w rows) = filter (\<lambda>r. s_user_id r \<noteq> k) rows"
  unfolding ended_sessions_def by (rule filter_patch_other) (simp_all add: revoke_row_def)

lemma confined_password:
  assumes m: "member (ue_access env) uid" and ids: "integer_ids s" and u: "user_setPassword env q s = (r, s')"
  shows "confined dir uid s s'"
  using u
proof (cases rule: user_setPasswordE)
  case (unchanged e)
  then show ?thesis by (intro confined_same) simp
next
  case (written user)
  have me: "js_get user ''id'' = uid"
    by (rule member_target [OF m ids _ written(4,1)]) (simp add: self_permissions_def)
  with m written(2) have n: "uid = JNum (int_of (js_get q ''id''))" by (auto simp: member_def elim: is_integerE)
  from written(6) obtain t where t: "new_password env q s = (Inr (), t)" "tables_of s' = tables_of t" by blast
  note keep = new_password_tables [OF t(1)]
  from t(1) obtain h where "us_login t = (us_login s)\<lparr>
      ls_passwords := replaced_passwords (int_of (js_get q ''id'')) (str_of (js_get q ''type'')) h (ls_passwords (us_login s)),
      ls_auth := (ls_auth (us_login s))\<lparr>sessions := ended_sessions (int_of (js_get q ''id'')) (fmt_seconds (le_now (ue_login env)))
        (sessions (ls_auth (us_login s)))\<rparr>\<rparr>" by (rule new_password_run)
  then have "confined dir uid s t" by (simp add: confined_def keep n other_passwords other_sessions)
  with t(2) show ?thesis by (rule confined_tables)
qed

text \<open>The requests of one account that is no administrator. The request schema of an update has no column \<open>is_deleted\<close>.\<close>

inductive member_step :: "string \<Rightarrow> jsval \<Rightarrow> user_sys \<Rightarrow> user_sys \<Rightarrow> bool" for dir uid where
  create: "member (ue_access env) uid \<Longrightarrow> member_step dir uid s (snd (user_create env q s))"
| update: "member (ue_access env) uid \<Longrightarrow> well_formed q \<Longrightarrow> js_get q ''is_deleted'' = Undef \<Longrightarrow>
    member_step dir uid s (snd (user_update env q s))"
| delete: "member (ue_access env) uid \<Longrightarrow> member_step dir uid s (snd (user_delete env i s))"
| setPassword: "member (ue_access env) uid \<Longrightarrow> member_step dir uid s (snd (user_setPassword env q s))"
| setPermissions: "member (ue_access env) uid \<Longrightarrow> member_step dir uid s (snd (user_setPermissions env q s))"
| loginAs: "member (ue_access env) uid \<Longrightarrow> member_step dir uid s (snd (user_loginAs env i s))"
| uploadAvatar: "member (ue_access env) uid \<Longrightarrow> ue_avatar_dir env = dir \<Longrightarrow> member_step dir uid s (snd (user_uploadAvatar env i f s))"

lemma member_create:
  assumes m: "member (ue_access env) uid" and u: "user_create env q s = (r, s')"
  shows "s' = s"
  using u
proof (cases rule: user_createE)
  case (unchanged e)
  then show ?thesis by simp
next
  case (written data row t)
  from create_prepareE(2) [OF written(1) refl] obtain d g where "acc_can (ue_access env) ''users:create'' d = Inr g" by blast
  with member_refused [OF m, of "''users:create''"] show ?thesis by (simp add: admin_permissions_def)
qed

lemma member_delete: "member (ue_access env) uid \<Longrightarrow> user_delete env i s = (r, s') \<Longrightarrow> tables_of s' = tables_of s"
  by (elim user_deleteE) (auto simp: admin_permissions_def dest: member_refused [of _ _ "''users:delete''"])

lemma member_permissions: "member (ue_access env) uid \<Longrightarrow> user_setPermissions env q s = (r, s') \<Longrightarrow> tables_of s' = tables_of s"
  by (elim user_setPermissionsE) (auto simp: admin_permissions_def dest: member_refused [of _ _ "''users:permissions''"])

lemma member_step_confined: "member_step dir uid s t \<Longrightarrow> integer_ids s \<Longrightarrow> confined dir uid s t"
proof (induction rule: member_step.induct)
  case (create env s q)
  then show ?case by (metis member_create prod.collapse confined_refl)
next
  case (update env q s)
  then show ?case by (metis confined_update prod.collapse)
next
  case (delete env s i)
  then show ?case by (metis member_delete prod.collapse confined_same)
next
  case (setPassword env s q)
  then show ?case by (metis confined_password prod.collapse)
next
  case (setPermissions env s q)
  then show ?case by (metis member_permissions prod.collapse confined_same)
next
  case (loginAs env s i)
  then show ?case by (metis user_loginAs_state prod.collapse confined_refl)
next
  case (uploadAvatar env s i f)
  then show ?case by (metis confined_upload prod.collapse)
qed

end
