(* ===== verification/User_Routes.thy ===== *)
theory User_Routes
  imports Users Login_Routes
begin

text \<open>
  The handlers of \<open>backend/routes/users.js\<close> with \<open>backend/lib/express/user-id-from-me.js\<close> and the validation of identifiers and
  listings (\<open>backend/lib/validator/index.js\<close> with the schemas \<open>common#/properties/id\<close>, \<open>expand\<close> and \<open>query\<close>). The access object in
  \<open>ue_access\<close> is the one the middleware loaded. An error is passed on to the error handler; the rate limiters, the upload parser,
  log lines and the CSRF token are left out.

  Parameters, in \<open>route_env\<close>: \<open>ur_schema\<close> is the validation of a body for a route, with its coercions, \<open>ur_why\<close> the validator's
  message for a rejected value, \<open>ur_destructive\<close> whether the server runs in destructive test mode.
\<close>

record route_env =
  ur_schema :: "string \<Rightarrow> jsval \<Rightarrow> string + jsval"
  ur_why :: "jsval \<Rightarrow> string"
  ur_destructive :: bool

record user_request =
  uq_param :: string
  uq_expand :: jsval
  uq_query :: jsval
  uq_body :: jsval
  uq_files :: "(string \<times> avatar_file) list"
  uq_cookie :: jsval
  uq_secure :: bool

datatype user_reply =
    Reply int jsval
  | Image string string
  | Status int
  | Login_as "cookie_op list" jsval

section \<open>Parameters\<close>

text \<open>\<open>Number.parseInt(text, 10)\<close>\<close>

definition parse_int :: "string \<Rightarrow> jsval" where
  "parse_int text =
     (let t = dropWhile is_ws text; neg = starts_with t ''-''; ds = takeWhile is_digit (if neg \<or> starts_with t ''+'' then tl t else t)
      in if ds = [] then JNaN else JNum (if neg then - int (digits_value ds) else int (digits_value ds)))"

definition userIdFromMe :: "access \<Rightarrow> string \<Rightarrow> jsval" where
  "userIdFromMe acc param =
     (if param = ''me''
      then js_number (js_or (js_get (token_get (acc_token acc) ''attrs'') ''id'') (acc_user acc 1)) else parse_int param)"

text \<open>An integer from 1 on; a text that is a number is coerced.\<close>

definition valid_id :: "route_env \<Rightarrow> jsval \<Rightarrow> jsval result" where
  "valid_id renv v =
     (case (case v of JStr t \<Rightarrow> if t = [] then v else js_number v | _ \<Rightarrow> v) of
        JNum n \<Rightarrow> if 1 \<le> n then Inr (JNum n) else Inl (InternalValidationError (ur_why renv v))
      | _ \<Rightarrow> Inl (InternalValidationError (ur_why renv v)))"

definition expand_param :: "jsval \<Rightarrow> string list option" where
  "expand_param v = (case v of JStr t \<Rightarrow> Some (split_char (CHR '','') t) | _ \<Rightarrow> None)"

text \<open>A search text has at most 255 characters; an empty one is coerced to null.\<close>

definition valid_query :: "route_env \<Rightarrow> jsval \<Rightarrow> jsval result" where
  "valid_query renv v =
     (case v of
        JStr t \<Rightarrow> if t = [] then Inr Null else if length t \<le> 255 then Inr v else Inl (InternalValidationError (ur_why renv v))
      | _ \<Rightarrow> Inr Null)"

definition valid_body :: "route_env \<Rightarrow> string \<Rightarrow> jsval \<Rightarrow> jsval result" where
  "valid_body renv route body = apiValidator (ur_schema renv route) body"

section \<open>All users\<close>

definition get_users :: "user_env \<Rightarrow> route_env \<Rightarrow> user_request \<Rightarrow> user_reply um_op" where
  "get_users env renv req =
     op_bind (umap_result (valid_query renv (uq_query req))) (\<lambda>query.
     op_bind (user_getAll env (expand_param (uq_expand req)) query) (\<lambda>rows. op_ret (Reply 200 (JArr rows))))"

definition isSetup :: "user_sys \<Rightarrow> bool" where
  "isSetup s \<longleftrightarrow> (case List.find row_live (us_users s) of None \<Rightarrow> False | Some r \<Rightarrow> 0 < int_of (js_get r ''id''))"

text \<open>\<open>new Access(null)\<close> with \<open>load(true)\<close>\<close>

definition internal_access :: access where
  "internal_access = access_view (\<lambda>_. Inl (AuthError [])) [] (\<lambda>_. None)
     (snd (access_load (\<lambda>_. Inl (AuthError [])) [] (JBool True) (new_access [])))"

text \<open>The body of the first account: enabled, and an administrator.\<close>

definition setup_body :: "jsval \<Rightarrow> jsval result" where
  "setup_body body =
     (case body of
        JObj _ \<Rightarrow>
          (let b = set_col ''is_disabled'' (JBool False) body;
               roles = (if is_arr (js_get b ''roles'') \<or> is_obj (js_get b ''roles'') then js_get b ''roles'' else JArr [])
           in case roles of
                JArr xs \<Rightarrow> Inr (set_col ''roles'' (JArr (if JStr ''admin'' \<in> set xs then xs else xs @ [JStr ''admin''])) b)
              | _ \<Rightarrow> Inl (JSTypeError ''body.roles.includes is not a function''))
      | JArr _ \<Rightarrow> Inr body
      | _ \<Rightarrow> Inl (JSTypeError ''body''))"

text \<open>\<open>setupComplete\<close> is what \<open>isSetup\<close> answered; the account table may have changed since.\<close>

definition post_users :: "user_env \<Rightarrow> route_env \<Rightarrow> bool \<Rightarrow> user_request \<Rightarrow> user_reply um_op" where
  "post_users env renv setupComplete req =
     (if setupComplete \<and> \<not> truthy (acc_user (ue_access env) 0)
      then op_throw (PermissionError ''Initial setup is already complete. Authenticated user creation is required.'')
      else op_bind (umap_result (if setupComplete then Inr (uq_body req) else setup_body (uq_body req))) (\<lambda>body.
           op_bind (umap_result (valid_body renv ''/users post'' body)) (\<lambda>payload.
           op_bind (user_create (if setupComplete then env else env\<lparr>ue_access := internal_access\<rparr>) payload) (\<lambda>user.
           op_ret (Reply 201 user)))))"

definition delete_users :: "user_env \<Rightarrow> route_env \<Rightarrow> user_reply um_op" where
  "delete_users env renv =
     (if ur_destructive renv then op_seq (user_deleteAll env) (op_ret (Reply 200 (JBool True))) else op_throw (mk_ItemNotFoundError []))"

section \<open>One user\<close>

definition with_id :: "user_env \<Rightarrow> route_env \<Rightarrow> user_request \<Rightarrow> (jsval \<Rightarrow> user_reply um_op) \<Rightarrow> user_reply um_op" where
  "with_id env renv req f = op_bind (umap_result (valid_id renv (userIdFromMe (ue_access env) (uq_param req)))) f"

definition with_payload :: "user_env \<Rightarrow> route_env \<Rightarrow> string \<Rightarrow> user_request \<Rightarrow> (jsval \<Rightarrow> user_reply um_op) \<Rightarrow> user_reply um_op" where
  "with_payload env renv route req f =
     with_id env renv req (\<lambda>i. op_bind (umap_result (valid_body renv route (uq_body req))) (\<lambda>payload. f (set_col ''id'' i payload)))"

definition get_user :: "user_env \<Rightarrow> route_env \<Rightarrow> user_request \<Rightarrow> user_reply um_op" where
  "get_user env renv req = with_id env renv req (\<lambda>i.
     op_bind (user_get env i (expand_param (uq_expand req)) (Some (getUserOmisionsByAccess (ue_access env) i))) (\<lambda>user. op_ret (Reply 200 user)))"

definition put_user :: "user_env \<Rightarrow> route_env \<Rightarrow> user_request \<Rightarrow> user_reply um_op" where
  "put_user env renv req = with_payload env renv ''/users/{userID} put'' req (\<lambda>payload.
     op_bind (user_update env payload) (\<lambda>user. op_ret (Reply 200 user)))"

definition delete_user :: "user_env \<Rightarrow> route_env \<Rightarrow> user_request \<Rightarrow> user_reply um_op" where
  "delete_user env renv req = with_id env renv req (\<lambda>i. op_bind (user_delete env i) (\<lambda>ok. op_ret (Reply 200 (JBool ok))))"

definition post_avatar :: "user_env \<Rightarrow> user_request \<Rightarrow> user_reply um_op" where
  "post_avatar env req =
     (if uq_files req = [] then op_throw (ValidationError ''No files were uploaded.'')
      else op_bind (user_uploadAvatar env (userIdFromMe (ue_access env) (uq_param req))
             (case map_of (uq_files req) ''avatar'' of Some f \<Rightarrow> Some f | None \<Rightarrow> map_of (uq_files req) ''file''))
           (\<lambda>r. op_ret (Reply 200 r)))"

definition get_avatar_image :: "user_env \<Rightarrow> user_request \<Rightarrow> user_reply um_op" where
  "get_avatar_image env req s =
     (case user_getAvatarImage env (JStr (uq_param req)) s of
        Inl _ \<Rightarrow> (Inr (Status 404), s)
      | Inr (path, mime) \<Rightarrow> (Inr (Image mime path), s))"

definition put_auth :: "user_env \<Rightarrow> route_env \<Rightarrow> user_request \<Rightarrow> user_reply um_op" where
  "put_auth env renv req = with_payload env renv ''/users/{userID}/auth put'' req (\<lambda>payload.
     op_bind (user_setPassword env payload) (\<lambda>ok. op_ret (Reply 200 (JBool ok))))"

definition put_permissions :: "user_env \<Rightarrow> route_env \<Rightarrow> user_request \<Rightarrow> user_reply um_op" where
  "put_permissions env renv req = with_payload env renv ''/users/{userID}/permissions put'' req (\<lambda>payload.
     op_bind (user_setPermissions env payload) (\<lambda>ok. op_ret (Reply 200 (JBool ok))))"

text \<open>Logging in as somebody keeps the caller's own cookie. This route does not know \<open>me\<close>.\<close>

definition login_cookie :: "user_request \<Rightarrow> string \<Rightarrow> string \<Rightarrow> int \<Rightarrow> cookie_op" where
  "login_cookie req name v age = Set_cookie \<lparr>ck_name = name, ck_value = v, ck_http_only = True, ck_secure = uq_secure req,
     ck_same_site = ''strict'', ck_path = ''/'', ck_max_age = Some age\<rparr>"

definition post_login :: "user_env \<Rightarrow> route_env \<Rightarrow> user_request \<Rightarrow> user_reply um_op" where
  "post_login env renv req =
     op_bind (umap_result (valid_id renv (JStr (uq_param req)))) (\<lambda>i.
     op_bind (user_loginAs env i) (\<lambda>(signed, user).
       op_ret (Login_as
         ((if truthy (uq_cookie req) then [login_cookie req ''shieldpm_jwt_original'' (str_of (uq_cookie req)) (1000 * 60 * 60 * 24 * 30)] else []) @
          [login_cookie req ''shieldpm_jwt'' (st_token signed) (max 0 (st_expires signed - le_now (ue_login env)))])
         (JObj [(''expires'', JStr (le_iso (ue_login env) (st_expires signed))), (''user'', user)]))))"

section \<open>Lemmas\<close>

lemma internal_access_simps [simp]: "acc_can internal_access p d = Inr (JBool True)" "acc_user internal_access n = JNum n"
  by (simp_all add: internal_access_def access_view_def access_can_def access_load_def new_access_def acc_user_def token_getUserId_def
      token_get_def js_get_def)

end
