(* ===== verification/Users_Claims.thy ===== *)
theory Users_Claims
  imports User_Members User_Routes Login_Claims
begin

text \<open>
  What the account service promises: addresses that identify accounts, one initial setup, members that change nothing but their
  own account, a password change that ends every session, accounts that stay locked out once they are removed, and avatars
  that stay with their owner.
\<close>

section \<open>Addresses\<close>

lemma filter_the_one:
  assumes "distinct xs" and "r \<in> set xs" and "P r" and "\<And>q. q \<in> set xs \<Longrightarrow> P q \<Longrightarrow> q = r"
  shows "filter P xs = [r]"
proof -
  have "filter P xs = filter (\<lambda>y. id y = id r) xs"
    by (rule filter_cong) (use assms(3,4) in auto)
  also have "\<dots> = [r]" by (rule filter_single) (use assms(1,2) in simp_all)
  finally show ?thesis .
qed

lemma found_account:
  assumes inv: "accounts_ok (le_email env) s" and r: "r \<in> set (us_users s)" "row_live r" "\<not> truthy (js_get r ''is_disabled'')"
    and m: "le_email env (str_of (js_get r ''email'')) = js_trim (js_lower identity)"
  shows "find_account env identity (users (ls_auth (login_view s))) = Some (session_user_of r)"
proof -
  let ?P = "\<lambda>u. le_email env (su_email u) = js_trim (js_lower identity) \<and> \<not> su_is_deleted u"
  have d: "distinct (us_users s)" using inv by (auto simp: accounts_ok_def distinct_map)
  have "filter (\<lambda>q. ?P (session_user_of q)) (us_users s) = [r]"
  proof (rule filter_the_one [OF d r(1)])
    show "?P (session_user_of r)" using r m by (simp add: session_user_of_def row_live_def)
    show "q = r" if "q \<in> set (us_users s)" "?P (session_user_of q)" for q
    proof (rule accounts_ok_unique [OF inv that(1) r(1)])
      show "js_get q ''id'' = js_get r ''id''"
      proof -
        have "row_live q" "le_email env (str_of (js_get q ''email'')) = le_email env (str_of (js_get r ''email''))"
          using that(2) m by (simp_all add: session_user_of_def row_live_def)
        with inv that(1) r(1,2) show ?thesis unfolding accounts_ok_def by blast
      qed
    qed
  qed
  then have "filter ?P (map session_user_of (us_users s)) = [session_user_of r]" by (simp add: filter_map comp_def)
  then show ?thesis using r by (simp add: find_account_def login_view_def session_user_of_def)
qed

text \<open>C8. In every state the service reaches, an address belongs to at most one live account, and signing in with it, however it
  is written, means that account: the lookup of the login finds exactly it as long as it is not blocked. No order of creating,
  renaming, deleting and setting up accounts makes an address ambiguous, which would lock out both its owners.\<close>

theorem addresses_identify_accounts:
  assumes mail: "mail_ok mail" "le_email env = mail" and init: "accounts_ok mail s" and run: "(user_step mail)\<^sup>*\<^sup>* s t"
    and r: "r \<in> set (us_users t)" "row_live r" "\<not> truthy (js_get r ''is_disabled'')"
    and identity: "mail (str_of (js_get r ''email'')) = js_trim (js_lower identity)"
  shows "find_account env identity (users (ls_auth (login_view t))) = Some (session_user_of r) \<and>
    (\<forall>q \<in> set (us_users t). row_live q \<and> mail (str_of (js_get q ''email'')) = mail (str_of (js_get r ''email'')) \<longrightarrow> q = r)"
proof
  have inv: "accounts_ok mail t" using accounts.steps_inv [OF run] mail(1) init by blast
  then show "find_account env identity (users (ls_auth (login_view t))) = Some (session_user_of r)"
    using found_account [of env t r identity] r identity by (simp add: mail(2))
  show "\<forall>q \<in> set (us_users t). row_live q \<and> mail (str_of (js_get q ''email'')) = mail (str_of (js_get r ''email'')) \<longrightarrow> q = r"
  proof (intro ballI impI)
    fix q assume q: "q \<in> set (us_users t)" "row_live q \<and> mail (str_of (js_get q ''email'')) = mail (str_of (js_get r ''email''))"
    then have "js_get q ''id'' = js_get r ''id''" using inv r(1,2) unfolding accounts_ok_def by blast
    then show "q = r" by (rule accounts_ok_unique [OF inv q(1) r(1)])
  qed
qed

section \<open>The initial setup\<close>

lemma anonymous_create:
  assumes c: "user_create env request s = (Inr row, s')" and a: "initial_setup env"
  shows "\<not> setup_complete s \<and> validatePasswordAuth (request_auth request) = Inr () \<and> (\<exists>r. us_users s' = us_users s @ [r] \<and> row_live r)"
  using c
proof (cases rule: user_createE)
  case (unchanged e)
  then show ?thesis by simp
next
  case (written data r t)
  from written(2) have t: "create_rows env (request_auth request) data s = (Inr r, t)" "\<not> setup_complete s"
    using a by (auto elim: create_transactionE)
  note rows = create_rowsE(1) [OF t(1)]
  from written(4) [OF refl] obtain w where w: "user_read env (js_get r ''id'') (Some [''permissions'']) None t = Inr w" by blast
  from user_read_row [OF w] obtain r0 where "r0 \<in> set (us_users t)" "row_live r0" by blast
  with rows t(2) have "row_live r" by (auto simp: setup_complete_def)
  moreover have "validatePasswordAuth (request_auth request) = Inr ()"
    using create_prepareE(2) [OF written(1) refl] a by blast
  ultimately show ?thesis using users_of_tables [OF written(3)] rows t(2) by auto
qed

text \<open>A creation by the route with an answer that the setup is not complete, or by nobody.\<close>

lemma setup_route:
  assumes "post_users env renv answered req s = (Inr reply, s')" and "\<not> answered \<or> \<not> truthy (acc_user (ue_access env) 0)"
  shows "\<not> answered \<and> \<not> setup_complete s \<and> (\<exists>r. us_users s' = us_users s @ [r] \<and> row_live r)"
proof -
  have na: "\<not> answered" using assms by (auto simp: post_users_def op_base_simps simp del: op_bind_simp)
  with assms(1) obtain payload row where c: "user_create (env\<lparr>ue_access := internal_access\<rparr>) payload s = (Inr row, s')"
    by (auto simp: post_users_def op_base_simps simp del: op_bind_simp elim!: op_bindE)
  have "initial_setup (env\<lparr>ue_access := internal_access\<rparr>)" by (simp add: initial_setup_def)
  from anonymous_create [OF c this] na show ?thesis by blast
qed

text \<open>C7. The first-time setup cannot be raced. The route asks whether there is an account before it creates one, and the answer may be
  outdated by the time it does. Still, whenever a request that nobody sent, or one that was told there is no account, creates an account,
  there is no live account at that moment and the new one is the only one; any later request of that kind fails, whatever it was
  told.\<close>

theorem initial_setup_once:
  assumes c: "post_users env renv answered req s = (Inr reply, s')" and anonymous: "\<not> answered \<or> \<not> truthy (acc_user (ue_access env) 0)"
  shows "\<not> setup_complete s \<and> (\<exists>r. us_users s' = us_users s @ [r] \<and> filter row_live (us_users s') = [r]) \<and>
    (\<forall>env2 renv2 answered2 req2. \<not> answered2 \<or> \<not> truthy (acc_user (ue_access env2) 0) \<longrightarrow>
       (\<exists>e. fst (post_users env2 renv2 answered2 req2 s') = Inl e))"
proof -
  from setup_route [OF c anonymous] obtain r where r: "\<not> setup_complete s" "us_users s' = us_users s @ [r]" "row_live r" by blast
  then have live: "filter row_live (us_users s') = [r]" by (auto simp: setup_complete_def filter_empty_conv)
  have complete: "setup_complete s'" using r by (auto simp: setup_complete_def)
  have "\<exists>e. fst (post_users env2 renv2 answered2 req2 s') = Inl e" if "\<not> answered2 \<or> \<not> truthy (acc_user (ue_access env2) 0)"
    for env2 renv2 answered2 req2
  proof (cases "fst (post_users env2 renv2 answered2 req2 s')")
    case (Inr reply2)
    then have "post_users env2 renv2 answered2 req2 s' = (Inr reply2, snd (post_users env2 renv2 answered2 req2 s'))" by (metis prod.collapse)
    from setup_route [OF this that] complete show ?thesis by blast
  qed simp
  with r live show ?thesis by blast
qed

section \<open>Members\<close>

text \<open>C4. An account that is no administrator can only change itself, whatever sequence of requests it sends: no account's roles,
  block or deletion and no permission row change, every other account keeps its row, its passwords, its sessions and its avatar
  files. This holds for the permission schemas of the repository and every account without the role "admin" (lemma
  member_of_account).\<close>

theorem member_confined:
  assumes run: "(member_step dir uid)\<^sup>*\<^sup>* s t" and ids: "integer_ids s"
  shows "confined dir uid s t"
proof -
  from run have "confined dir uid s t \<and> integer_ids t"
  proof (induction rule: rtranclp_induct)
    case base
    with ids show ?case by simp
  next
    case (step t u)
    then have "confined dir uid t u" by (blast intro: member_step_confined)
    with step.IH show ?case by (blast intro: confined_trans confined_integer_ids)
  qed
  then show ?thesis ..
qed

section \<open>Passwords\<close>

lemma find_replaced: "List.find (credential_of uid ty) (replaced_passwords uid ty h rows) = Some a \<Longrightarrow> pw_secret a = h"
proof -
  have patch: "List.find (credential_of uid ty) (patch_where (credential_of uid ty) (\<lambda>a. a\<lparr>pw_type := ty, pw_secret := h\<rparr>) xs) = Some a \<Longrightarrow> pw_secret a = h" for xs
    by (induction xs) (auto split: if_splits)
  have none: "List.find p (xs @ [y]) = (case List.find p xs of None \<Rightarrow> if p y then Some y else None | Some x \<Rightarrow> Some x)" for p xs and y :: password_row
    by (induction xs) auto
  show "List.find (credential_of uid ty) (replaced_passwords uid ty h rows) = Some a \<Longrightarrow> pw_secret a = h"
    by (auto simp: replaced_passwords_def none patch split: if_splits option.splits)
qed

lemma ended_revoked: "r \<in> set (ended_sessions uid w rows) \<Longrightarrow> s_user_id r = uid \<Longrightarrow> s_revoked_at r \<noteq> None"
proof -
  assume "r \<in> set (ended_sessions uid w rows)" and u: "s_user_id r = uid"
  then obtain q where "q \<in> set rows" and q: "r = (if s_user_id q = uid \<and> s_revoked_at q = None then revoke_row w ''password_changed'' q else q)"
    unfolding ended_sessions_def set_patch_where by blast
  show "s_revoked_at r \<noteq> None"
  proof (cases "s_user_id q = uid \<and> s_revoked_at q = None")
    case True
    with q show ?thesis by (simp add: revoke_row_def)
  next
    case False
    with q have "r = q" by (simp only: if_False)
    with False u show ?thesis by simp
  qed
qed

lemma revoked_refresh:
  assumes "find_session lib raw db = Some r" and "s_revoked_at r \<noteq> None"
  shows "fst (refreshTokenPair lib env raw meta db) = Inl (AuthError ''Refresh token has been revoked'')"
  using assms by (simp add: refreshTokenPair_def refresh_session_def refresh_check_def)

lemma email_token_credential:
  assumes "getTokenFromEmail env creds l = Inr tok"
  shows "\<exists>a. List.find (credential_of (su_id (st_user tok)) ''password'') (ls_passwords l) = Some a \<and> is_str (js_get creds ''secret'') \<and>
    le_compare env (str_of (js_get creds ''secret'')) (pw_secret a) = Inr True \<and>
    (\<exists>identity. find_account env identity (users (ls_auth l)) = Some (st_user tok))"
proof -
  let ?i = "str_of (js_get creds ''identity'')" and ?secret = "js_get creds ''secret''"
  note tok = assms [unfolded getTokenFromEmail_def Let_def]
  from tok obtain user where u: "find_account env ?i (users (ls_auth l)) = Some user"
    by (cases "find_account env ?i (users (ls_auth l))") (simp_all split: if_splits)
  let ?find = "List.find (\<lambda>a. pw_user_id a = su_id user \<and> pw_type a = ''password'' \<and> \<not> pw_is_deleted a) (ls_passwords l)"
  from tok u obtain a where a: "?find = Some a" by (cases ?find) (simp_all split: if_splits)
  have c: "?find = List.find (credential_of (su_id user) ''password'') (ls_passwords l)"
    by (simp add: credential_of_def [abs_def])
  from tok u a have s: "is_str ?secret" "le_compare env (str_of ?secret) (pw_secret a) = Inr True" by (simp_all split: if_splits)
  from tok u a s have "st_user tok = user" by (auto simp: rbind_def split: if_splits option.splits sum.splits)
  with u a c s show ?thesis by auto
qed

text \<open>A successful change of a password: the row of the account, the check of the current password, and the tables it leaves.\<close>

lemma password_change_run:
  assumes c: "user_setPassword env data s = (Inr ok, s')" and uid: "js_get data ''id'' = JNum uid"
  obtains r pw h where "r \<in> set (us_users s)" and "row_live r" and "js_get r ''id'' = JNum uid"
    and "acc_user (ue_access env) 0 = JNum uid \<longrightarrow> (\<exists>tok. getTokenFromEmail (ue_login env)
       (JObj [(''identity'', js_get r ''email''), (''secret'', js_get data ''current'')]) (login_view s) = Inr tok)"
    and "js_get data ''secret'' = JStr pw" and "utf8_length pw \<le> 72" and "ue_hash env pw = Inr h"
    and "us_login s' = (us_login s)\<lparr>ls_passwords := replaced_passwords uid ''password'' h (ls_passwords (us_login s)),
      ls_auth := (ls_auth (us_login s))\<lparr>sessions := ended_sessions uid (fmt_seconds (le_now (ue_login env))) (sessions (ls_auth (us_login s)))\<rparr>\<rparr>"
  using c
proof (cases rule: user_setPasswordE)
  case (unchanged e)
  then show thesis by simp
next
  case (written user)
  from user_read_row [OF written(1)] written(2) uid obtain r where r: "r \<in> set (us_users s)" "row_live r" "js_get r ''id'' = JNum uid"
    "js_get r ''email'' = js_get user ''email''" by auto
  from written(6) obtain t where t: "new_password env data s = (Inr (), t)" "tables_of s' = tables_of t" by blast
  from written(3) obtain pw where pw: "js_get data ''type'' = JStr ''password''" "js_get data ''secret'' = JStr pw" "8 \<le> length pw" "utf8_length pw \<le> 72"
    by (auto simp: validatePasswordAuth_def split: if_splits elim: is_strE)
  from t(1) obtain h where h: "encryptPassword env ''password'' pw = Inr h" and l: "us_login t = (us_login s)\<lparr>
      ls_passwords := replaced_passwords uid ''password'' h (ls_passwords (us_login s)),
      ls_auth := (ls_auth (us_login s))\<lparr>sessions := ended_sessions uid (fmt_seconds (le_now (ue_login env))) (sessions (ls_auth (us_login s)))\<rparr>\<rparr>"
    by (rule new_password_run) (simp add: uid pw)
  have "\<exists>tok. getTokenFromEmail (ue_login env) (JObj [(''identity'', js_get r ''email''), (''secret'', js_get data ''current'')]) (login_view s) = Inr tok"
    if "acc_user (ue_access env) 0 = JNum uid"
    using written(2,5) that uid r(4) by (auto simp: own_password_def res_simps split: if_splits)
  moreover have "ue_hash env pw = Inr h" using h pw(3) by (auto simp: encryptPassword_def split: if_splits)
  moreover have "us_login s' = us_login t" using t(2) by (simp add: tables_of_def)
  ultimately show thesis using that [OF r(1-3) _ pw(2,4), of h] l by simp
qed

text \<open>C5. Changing the password of an account ends all its sessions and leaves one way in. Nobody changes the own password without
  signing in with the address of the account and the current password. Afterwards every session of the account is revoked, so
  that any refresh token issued for it is refused;
  the only secret that signs in to the account is the new one; and the sessions and passwords of all other accounts are as
  they were. The library bcrypt compares up to 72 bytes exactly.\<close>

theorem password_change_ends_sessions:
  assumes c: "user_setPassword env data s = (Inr ok, s')" and uid: "js_get data ''id'' = JNum uid"
    and bcrypt: "\<And>x y h. ue_hash env y = Inr h \<Longrightarrow> utf8_length x \<le> 72 \<Longrightarrow> utf8_length y \<le> 72 \<Longrightarrow> le_compare lenv x h = Inr True \<longleftrightarrow> x = y"
  shows "(\<exists>r \<in> set (us_users s). row_live r \<and> js_get r ''id'' = JNum uid \<and>
       (acc_user (ue_access env) 0 = JNum uid \<longrightarrow> (\<exists>tok. getTokenFromEmail (ue_login env)
          (JObj [(''identity'', js_get r ''email''), (''secret'', js_get data ''current'')]) (login_view s) = Inr tok))) \<and>
    (\<forall>raw lib senv meta r. find_session lib raw (ls_auth (login_view s')) = Some r \<and> s_user_id r = uid \<longrightarrow>
       fst (refreshTokenPair lib senv raw meta (ls_auth (login_view s'))) = Inl (AuthError ''Refresh token has been revoked'')) \<and>
    (\<forall>creds tok. getTokenFromEmail lenv creds (login_view s') = Inr tok \<and> su_id (st_user tok) = uid \<and>
       utf8_length (str_of (js_get creds ''secret'')) \<le> 72 \<longrightarrow> js_get creds ''secret'' = js_get data ''secret'') \<and>
    filter (\<lambda>r. s_user_id r \<noteq> uid) (sessions (ls_auth (us_login s'))) = filter (\<lambda>r. s_user_id r \<noteq> uid) (sessions (ls_auth (us_login s))) \<and>
    filter (\<lambda>a. pw_user_id a \<noteq> uid) (ls_passwords (us_login s')) = filter (\<lambda>a. pw_user_id a \<noteq> uid) (ls_passwords (us_login s))"
proof -
  from c uid obtain r pw h where row: "r \<in> set (us_users s)" "row_live r" "js_get r ''id'' = JNum uid"
    and current: "acc_user (ue_access env) 0 = JNum uid \<longrightarrow> (\<exists>tok. getTokenFromEmail (ue_login env)
       (JObj [(''identity'', js_get r ''email''), (''secret'', js_get data ''current'')]) (login_view s) = Inr tok)"
    and pw: "js_get data ''secret'' = JStr pw" "utf8_length pw \<le> 72" and hash: "ue_hash env pw = Inr h"
    and l: "us_login s' = (us_login s)\<lparr>ls_passwords := replaced_passwords uid ''password'' h (ls_passwords (us_login s)),
      ls_auth := (ls_auth (us_login s))\<lparr>sessions := ended_sessions uid (fmt_seconds (le_now (ue_login env))) (sessions (ls_auth (us_login s)))\<rparr>\<rparr>"
    by (rule password_change_run) (rule that)
  have view: "ls_passwords (login_view s') = replaced_passwords uid ''password'' h (ls_passwords (us_login s))"
    "sessions (ls_auth (login_view s')) = ended_sessions uid (fmt_seconds (le_now (ue_login env))) (sessions (ls_auth (us_login s)))"
    by (simp_all add: login_view_def l)
  have refused: "fst (refreshTokenPair lib senv raw meta (ls_auth (login_view s'))) = Inl (AuthError ''Refresh token has been revoked'')"
    if "find_session lib raw (ls_auth (login_view s')) = Some q" "s_user_id q = uid" for raw lib senv meta q
  proof (rule revoked_refresh [OF that(1)])
    have "q \<in> set (sessions (ls_auth (login_view s')))"
      using that(1) by (auto simp: find_session_def split: sum.splits dest: find_SomeD)
    with that(2) show "s_revoked_at q \<noteq> None" by (auto simp: view(2) dest: ended_revoked)
  qed
  have secret: "js_get creds ''secret'' = js_get data ''secret''"
    if g: "getTokenFromEmail lenv creds (login_view s') = Inr tok" "su_id (st_user tok) = uid" "utf8_length (str_of (js_get creds ''secret'')) \<le> 72" for creds tok
  proof -
    from email_token_credential [OF g(1)] obtain a where a: "List.find (credential_of uid ''password'') (ls_passwords (login_view s')) = Some a"
        "is_str (js_get creds ''secret'')" "le_compare lenv (str_of (js_get creds ''secret'')) (pw_secret a) = Inr True" using g(2) by auto
    from find_replaced [OF a(1) [unfolded view(1)]] a(3) bcrypt [OF hash g(3) pw(2)] have "str_of (js_get creds ''secret'') = pw" by simp
    with a(2) show ?thesis by (auto simp: pw(1) elim: is_strE)
  qed
  from row current have own: "\<exists>r \<in> set (us_users s). row_live r \<and> js_get r ''id'' = JNum uid \<and> (acc_user (ue_access env) 0 = JNum uid \<longrightarrow>
    (\<exists>tok. getTokenFromEmail (ue_login env) (JObj [(''identity'', js_get r ''email''), (''secret'', js_get data ''current'')]) (login_view s) = Inr tok))" by blast
  show ?thesis using refused secret by (intro conjI own) (auto simp: l other_passwords other_sessions)
qed

section \<open>Deleted accounts\<close>

definition gone :: "jsval \<Rightarrow> user_sys \<Rightarrow> bool" where
  "gone i s \<longleftrightarrow> (\<exists>r \<in> set (us_users s). js_get r ''id'' = i \<and> \<not> row_live r)"

lemma gone_same: "us_users t = us_users s \<Longrightarrow> gone i s \<Longrightarrow> gone i t"
  by (simp add: gone_def)

lemma gone_patch:
  assumes inv: "accounts_ok mail s" and r0: "r0 \<in> set (us_users s)" "row_live r0" "js_get r0 ''id'' = j"
    and t: "us_users t = patch_where (\<lambda>r. js_get r ''id'' = j) f (us_users s)" and g: "gone i s"
  shows "gone i t"
proof -
  from g obtain r where r: "r \<in> set (us_users s)" "js_get r ''id'' = i" "\<not> row_live r" by (auto simp: gone_def)
  have "i \<noteq> j" using accounts_ok_unique [OF inv r(1) r0(1)] r r0 by auto
  then have "r \<in> set (us_users t)" using r unfolding t set_patch_where by force
  with r show ?thesis by (auto simp: gone_def)
qed

lemma step_keeps_gone:
  assumes inv: "accounts_ok mail s" and "user_step mail s t" and g: "gone i s"
  shows "gone i t"
  using assms(2)
proof cases
  case (create env q)
  then obtain r where "user_create env q s = (r, t)" by (metis prod.collapse)
  then show ?thesis
  proof (cases rule: user_createE)
    case (unchanged e)
    with g show ?thesis by simp
  next
    case (written data row u)
    from written(2) have "us_users u = us_users s @ [row]" by (auto elim: create_transactionE dest: create_rowsE)
    with users_of_tables [OF written(3)] g show ?thesis by (auto simp: gone_def)
  qed
next
  case (update env q)
  then obtain r where "user_update env q s = (r, t)" by (metis prod.collapse)
  then show ?thesis
  proof (cases rule: user_updateE)
    case unchanged
    from users_of_tables [OF this] g show ?thesis by (rule gone_same)
  next
    case (written user data u)
    from update_prepareE [OF written(1)] user_read_row obtain r0
      where "r0 \<in> set (us_users s)" "row_live r0" "js_get r0 ''id'' = js_get user ''id''" by metis
    from gone_patch [OF inv this _ g] users_of_tables [OF written(3)] write_userE(1) [OF written(2)] show ?thesis by simp
  qed
next
  case (delete env j)
  then obtain r where "user_delete env j s = (r, t)" by (metis prod.collapse)
  then show ?thesis
  proof (cases rule: user_deleteE)
    case (unchanged e)
    from users_of_tables [OF unchanged(1)] g show ?thesis by (rule gone_same)
  next
    case (written user)
    from user_read_row [OF written(1)] obtain r0
      where "r0 \<in> set (us_users s)" "row_live r0" "js_get r0 ''id'' = js_get user ''id''" by blast
    from gone_patch [OF inv this _ g] users_of_tables [OF written(4)] show ?thesis by (simp add: patch_user_def)
  qed
next
  case (deleteAll env)
  have st: "stored_user [(''is_deleted'', JNum 1)] = [(''is_deleted'', JNum 1)]" by (simp add: stored_user_def)
  have "\<not> row_live (patched_row env [(''is_deleted'', JNum 1)] r)" "js_get (patched_row env [(''is_deleted'', JNum 1)] r) ''id'' = js_get r ''id''" for r
    using live_patched [of "[(''is_deleted'', JNum 1)]" env r] column_patch [of "''id''" "[(''is_deleted'', JNum 1)]" env r] by (simp_all add: st)
  with deleteAll g show ?thesis by (auto simp: gone_def user_deleteAll_def)
next
  case (setPassword env q)
  then obtain r where "user_setPassword env q s = (r, t)" by (metis prod.collapse)
  then have "us_users t = us_users s"
    by (cases rule: user_setPasswordE) (auto dest!: users_of_tables new_password_tables)
  from this g show ?thesis by (rule gone_same)
next
  case (setPermissions env q)
  then obtain r where "user_setPermissions env q s = (r, t)" by (metis prod.collapse)
  then have "us_users t = us_users s"
  proof (cases rule: user_setPermissionsE)
    case unchanged
    then show ?thesis by (rule users_of_tables)
  next
    case (written user)
    from users_of_tables [OF written(4)] write_permissions_tables [of env "js_get q ''id''" "permission_pick q" s]
    show ?thesis by (metis prod.collapse)
  qed
  from this g show ?thesis by (rule gone_same)
next
  case (uploadAvatar env j f)
  then obtain r where "user_uploadAvatar env j f s = (r, t)" by (metis prod.collapse)
  then show ?thesis
  proof (cases rule: user_uploadAvatarE)
    case (unchanged e)
    with g show ?thesis by simp
  next
    case (written user b mime ext old x)
    from user_read_row [OF written(1)] obtain r0
      where "r0 \<in> set (us_users s)" "row_live r0" "js_get r0 ''id'' = js_get user ''id''" by blast
    from gone_patch [OF inv this _ g] gone_same [OF _ g] store_avatar_tables(4) [OF written(5)] show ?thesis by (auto simp: patch_user_def)
  qed
next
  case (first_account env email password)
  then obtain r where "setupDefaultUser env email password s = (r, t)" by (metis prod.collapse)
  then show ?thesis by (cases rule: setupDefaultUserE) (use g in \<open>auto simp: gone_def\<close>)
next
  case (login l)
  with g show ?thesis by (simp add: gone_def)
next
  case ready
  with g show ?thesis by (simp add: gone_def)
qed

interpretation deletions: stable_system "user_step mail" "\<lambda>s. mail_ok mail \<longrightarrow> accounts_ok mail s" "\<lambda>s i. mail_ok mail \<longrightarrow> gone i s" for mail
  by unfold_locales (blast intro: step_keeps_gone)

text \<open>Where every row with an identifier is deleted, the lookups of the login, of the refresh and of the permission checks find none.\<close>

lemma gone_row:
  assumes inv: "accounts_ok mail s" and g: "gone (JNum n) s" and r: "r \<in> set (us_users s)" "int_of (js_get r ''id'') = n"
  shows "truthy (js_get r ''is_deleted'')"
proof -
  from g obtain q where q: "q \<in> set (us_users s)" "js_get q ''id'' = JNum n" "\<not> row_live q" by (auto simp: gone_def)
  have "is_integer (js_get r ''id'')" using inv r(1) by (simp add: accounts_ok_def)
  with r(2) have "js_get r ''id'' = JNum n" by (auto elim: is_integerE)
  with accounts_ok_unique [OF inv r(1) q(1)] q show ?thesis by (simp add: row_live_def)
qed

lemma find_account_live: "find_account env identity us = Some u \<Longrightarrow> u \<in> set us \<and> \<not> su_is_deleted u"
proof -
  assume f: "find_account env identity us = Some u"
  let ?xs = "filter (\<lambda>u. le_email env (su_email u) = js_trim (js_lower identity) \<and> \<not> su_is_deleted u) us"
  from f have "take 2 ?xs = [u]" by (auto simp: find_account_def split: list.splits if_splits)
  then have "u \<in> set (take 2 ?xs)" by simp
  then have "u \<in> set ?xs" by (rule in_set_takeD)
  then show ?thesis by simp
qed

lemma refresh_user_live:
  assumes "fst (refreshTokenPair lib env raw meta db) = Inr resp" and "t_user resp = Some u"
  shows "u \<in> set (users db) \<and> \<not> su_is_deleted u"
proof -
  obtain r outcome db' where o: "refresh_session lib env meta r db = (Grant resp, db')"
    using assms(1) by (auto simp: refreshTokenPair_def split: option.splits prod.splits refresh_outcome.splits)
  then obtain user db1 where c: "refresh_check env r db = (Continue user, db1)" "rotate_session lib env meta r user db1 = (Grant resp, db')"
    by (auto simp: refresh_session_def refresh_check_def stop_def reject_after_def split: if_splits option.splits prod.splits sum.splits refresh_decision.splits)
  from c(2) have "t_user resp = Some user"
    by (auto simp: rotate_session_def reject_after_def Let_def buildTokenResponse_def split: if_splits sum.splits prod.splits)
  moreover from c(1) have "user \<in> set (users db) \<and> \<not> su_is_deleted user"
    by (auto simp: refresh_check_def stop_def reject_after_def split: if_splits option.splits prod.splits sum.splits dest: find_SomeD)
  ultimately show ?thesis using assms(2) by simp
qed


section \<open>Avatars\<close>

lemma find_patch_first:
  assumes "List.find (\<lambda>r. row_live r \<and> js_get r ''id'' = i) rows = Some r0" and "distinct (map (\<lambda>r. js_get r ''id'') rows)"
    and "js_get (f r0) ''id'' = i"
  shows "List.find (\<lambda>r. js_get r ''id'' = i) (patch_where (\<lambda>r. js_get r ''id'' = i) f rows) = Some (f r0)"
  using assms
proof (induction rows)
  case Nil
  then show ?case by simp
next
  case (Cons r rows)
  show ?case
  proof (cases "js_get r ''id'' = i")
    case True
    have "row_live r"
    proof (rule ccontr)
      assume "\<not> row_live r"
      with Cons.prems(1) have "r0 \<in> set rows \<and> js_get r0 ''id'' = i" by (auto dest: find_SomeD)
      then have "i \<in> (\<lambda>r. js_get r ''id'') ` set rows" by force
      with Cons.prems(2) True show False by simp
    qed
    with Cons.prems True show ?thesis by simp
  next
    case False
    with Cons show ?thesis by simp
  qed
qed

lemma int_str_no_slash: "0 \<le> n \<Longrightarrow> CHR ''/'' \<notin> set (int_str n)"
proof -
  assume "0 \<le> n"
  then have "list_all is_digit (int_str n)" by (simp add: int_str_def)
  then show ?thesis by (auto simp: list_all_iff is_digit_def code_between_def code_def)
qed

lemma image_type_ext: "detectAvatarFileType b = Some (mime, ext) \<Longrightarrow> CHR ''/'' \<notin> set ext \<and> mime \<in> {''image/png'', ''image/jpeg'', ''image/gif'', ''image/webp''}"
  by (auto simp: detectAvatarFileType_def split: if_splits)

lemma served_avatar:
  assumes "List.find (\<lambda>r. js_get r ''id'' = JNum n) (us_users s) = Some r" and "js_get r ''id'' = JNum n" and "row_live r"
    and "js_get r ''avatar_type'' = JStr ''upload''" and "js_get r ''avatar_value'' = JStr name"
    and "getAvatarPath env (JNum n) (JStr name) = Inr p" and "us_avatars s p = Some b" and "detectAvatarFileType b = Some (mime, ext)" and "name \<noteq> []"
  shows "user_getAvatarImage env (JNum n) s = Inr (p, mime)"
  using assms by (simp add: user_getAvatarImage_def)

text \<open>What a successful upload leaves: the new file, the row that names it, and not the file it replaces.\<close>

lemma store_avatar_ok:
  assumes "store_avatar env uid b ext old s = (Inr (), s')"
    and "old \<noteq> Some (ue_avatar_dir env @ ''/'' @ avatar_prefix uid @ ue_uuid env @ ext)"
  shows "us_users s' = us_users (snd (patch_user env uid (avatar_columns uid (avatar_prefix uid @ ue_uuid env @ ext)) s))"
    "us_avatars s' (ue_avatar_dir env @ ''/'' @ avatar_prefix uid @ ue_uuid env @ ext) = Some b"
    "old = Some p \<Longrightarrow> us_avatars s' p = None"
  using assms unfolding store_avatar_def Let_def
  by (auto simp: write_avatar_def remove_avatar_def patch_avatar_def ufault_def patch_user_def avatar_columns_def
      split: option.splits if_splits)

text \<open>The account an upload reads, and the row that names the new file.\<close>

lemma upload_account:
  assumes inv: "accounts_ok mail s" and u: "user_read env i None None s = Inr user" and old: "old_avatar env user = Inr old"
    and fresh: "\<forall>r \<in> set (us_users s). \<forall>ext. js_get r ''avatar_value'' \<noteq> JStr (avatar_prefix (asked_id env i) @ ue_uuid env @ ext)"
  obtains r0 n where "List.find (\<lambda>r. row_live r \<and> js_get r ''id'' = asked_id env i) (us_users s) = Some r0"
    and "js_get user ''id'' = asked_id env i" and "asked_id env i = JNum n" and "0 < n" and "old_avatar env r0 = Inr old"
    and "\<forall>ext. old \<noteq> Some (ue_avatar_dir env @ ''/'' @ avatar_prefix (asked_id env i) @ ue_uuid env @ ext)"
    and "\<forall>r \<in> set (us_users s). js_get r ''id'' = asked_id env i \<longrightarrow> r = r0"
proof -
  let ?i = "asked_id env i"
  from u obtain r0 where r0: "r0 \<in> set (us_users s)" "row_live r0" "js_get r0 ''id'' = ?i" "truthy (js_get r0 ''id'')"
      and c: "\<And>c. c \<in> {''id'', ''email'', ''roles'', ''name'', ''avatar_type'', ''avatar_value''} \<Longrightarrow> js_get user c = js_get r0 c"
      and find: "List.find (\<lambda>r. row_live r \<and> js_get r ''id'' = ?i) (us_users s) = Some r0" by (rule user_read_Inr) (rule that)
  have uid: "js_get user ''id'' = ?i" using c [of "''id''"] r0(3) by simp
  obtain n where n: "?i = JNum n" "0 < n" using inv r0(1,3) unfolding accounts_ok_def by (metis int_of.simps(1) is_integerE)
  have e: "js_get user ''avatar_type'' = js_get r0 ''avatar_type''" "js_get user ''avatar_value'' = js_get r0 ''avatar_value''" by (simp_all add: c)
  have "old_avatar env user = old_avatar env r0" unfolding old_avatar_def e uid r0(3) ..
  with old have old0: "old_avatar env r0 = Inr old" by simp
  have other: "old \<noteq> Some (ue_avatar_dir env @ ''/'' @ avatar_prefix ?i @ ue_uuid env @ ext)" for ext
    using old0 bspec [OF fresh r0(1)] by (auto simp: old_avatar_def getAvatarPath_def res_simps split: if_splits elim: is_strE)
  have "r = r0" if "r \<in> set (us_users s)" "js_get r ''id'' = ?i" for r
    using accounts_ok_unique [OF inv that(1) r0(1)] that(2) r0(3) by simp
  with find uid n old0 other show thesis by (intro that) auto
qed

lemma upload_row:
  assumes inv: "accounts_ok mail s" and find: "List.find (\<lambda>r. row_live r \<and> js_get r ''id'' = i) (us_users s) = Some r0"
  obtains r where "List.find (\<lambda>r. js_get r ''id'' = i) (us_users (snd (patch_user env i (avatar_columns i name) s))) = Some r"
    and "js_get r ''id'' = i" and "row_live r" and "js_get r ''avatar_type'' = JStr ''upload''" and "js_get r ''avatar_value'' = JStr name"
proof -
  let ?r = "patched_row env (stored_user (avatar_columns i name)) r0"
  have d: "distinct (map fst (avatar_columns i name))" by (simp add: avatar_columns_def)
  from find have r0: "row_live r0" "js_get r0 ''id'' = i" by (auto dest: find_SomeD)
  have row: "js_get ?r ''id'' = i" "row_live ?r" "js_get ?r ''avatar_type'' = JStr ''upload''" "js_get ?r ''avatar_value'' = JStr name"
    using r0 by (simp_all add: patched_get [OF d] live_patched [OF d]) (simp_all add: column_def avatar_columns_def user_bool_fields_def)
  have rows: "us_users (snd (patch_user env i (avatar_columns i name) s)) =
      patch_where (\<lambda>r. js_get r ''id'' = i) (patched_row env (stored_user (avatar_columns i name))) (us_users s)"
    by (simp add: patch_user_def)
  have "List.find (\<lambda>r. js_get r ''id'' = i) (us_users (snd (patch_user env i (avatar_columns i name) s))) = Some ?r"
    unfolding rows
    by (rule find_patch_first [where f = "patched_row env (stored_user (avatar_columns i name))", OF find _ row(1)]) (use inv in \<open>simp add: accounts_ok_def\<close>)
  from this row show thesis by (rule that)
qed

text \<open>C13. An uploaded avatar is what everybody is shown: after a successful upload the public route serves exactly the bytes that were
  uploaded, under one of the four image types their signature says, from a file directly in the avatar directory whose name
  starts with the account's identifier; and the file it replaced is gone.\<close>

theorem avatar_roundtrip:
  assumes inv: "accounts_ok mail s" and u: "user_uploadAvatar env i (Some f) s = (Inr reply, s')"
    and uuid: "CHR ''/'' \<notin> set (ue_uuid env)"
    and fresh: "\<And>r ext. r \<in> set (us_users s) \<Longrightarrow> js_get r ''avatar_value'' \<noteq> JStr (avatar_prefix (asked_id env i) @ ue_uuid env @ ext)"
  shows "\<exists>b filename mime. af_data f = Some b \<and> CHR ''/'' \<notin> set filename \<and> starts_with filename (avatar_prefix (asked_id env i)) \<and>
    user_getAvatarImage env (asked_id env i) s' = Inr (ue_avatar_dir env @ ''/'' @ filename, mime) \<and>
    us_avatars s' (ue_avatar_dir env @ ''/'' @ filename) = Some b \<and> mime \<in> {''image/png'', ''image/jpeg'', ''image/gif'', ''image/webp''} \<and>
    js_get reply ''mime_type'' = JStr mime \<and>
    (\<forall>r p. r \<in> set (us_users s) \<and> row_live r \<and> js_get r ''id'' = asked_id env i \<and> old_avatar env r = Inr (Some p) \<longrightarrow> us_avatars s' p = None)"
  using u
proof (cases rule: user_uploadAvatarE)
  case (unchanged e)
  then show ?thesis by simp
next
  case (written user b mime ext old x)
  let ?i = "asked_id env i" and ?name = "avatar_prefix (asked_id env i) @ ue_uuid env @ ext"
  from fresh have "\<forall>r \<in> set (us_users s). \<forall>ext. js_get r ''avatar_value'' \<noteq> JStr (avatar_prefix ?i @ ue_uuid env @ ext)" by blast
  then obtain r0 n where find: "List.find (\<lambda>r. row_live r \<and> js_get r ''id'' = ?i) (us_users s) = Some r0"
    and uid: "js_get user ''id'' = ?i" and n: "?i = JNum n" "0 < n" and old: "old_avatar env r0 = Inr old"
    and other: "\<forall>ext. old \<noteq> Some (ue_avatar_dir env @ ''/'' @ avatar_prefix ?i @ ue_uuid env @ ext)"
    and the_one: "\<forall>r \<in> set (us_users s). js_get r ''id'' = ?i \<longrightarrow> r = r0" by (rule upload_account [OF inv written(1,3)]) (rule that)
  from written(2) have img: "af_data f = Some b" "detectAvatarFileType b = Some (mime, ext)"
    by (auto simp: checked_image_def split: option.splits if_splits)
  from written(6) have x: "x = Inr ()" by (cases x) (simp_all add: rbind_def)
  with written(5) uid have "store_avatar env ?i b ext old s = (Inr (), s')" by simp
  note st = store_avatar_ok [OF this spec [OF other]]
  from inv find obtain r where r: "List.find (\<lambda>r. js_get r ''id'' = ?i) (us_users s') = Some r" "js_get r ''id'' = ?i" "row_live r"
      "js_get r ''avatar_type'' = JStr ''upload''" "js_get r ''avatar_value'' = JStr ?name"
    unfolding st(1) by (rule upload_row)
  have name: "CHR ''/'' \<notin> set ?name" "starts_with ?name (avatar_prefix ?i)" "?name \<noteq> []"
    using uuid image_type_ext [OF img(2)] int_str_no_slash [of n] n by (auto simp: avatar_prefix_def starts_with_def)
  then have "getAvatarPath env ?i (JStr ?name) = Inr (ue_avatar_dir env @ ''/'' @ ?name)" by (simp add: getAvatarPath_def)
  then have "user_getAvatarImage env ?i s' = Inr (ue_avatar_dir env @ ''/'' @ ?name, mime)"
    using r st(2) img(2) name(3) unfolding n(1) by (intro served_avatar)
  with img st(2,3) image_type_ext [OF img(2)] old the_one name(1,2) written(6) x show ?thesis
    by (intro exI [of _ b] exI [of _ ?name] exI [of _ mime]) (auto simp: rbind_def)
qed

section \<open>A sample server\<close>

text \<open>An administrator and a member with one session; the database leaves addresses alone, a hash is a prefix.\<close>

definition fresh_id :: "string \<Rightarrow> jsval list \<Rightarrow> int" where
  "fresh_id _ rows = foldr (\<lambda>r m. max m (int_of (js_get r ''id''))) rows 0 + 1"

lemma fresh_id_new: "0 < fresh_id t rows \<and> (\<forall>r \<in> set rows. js_get r ''id'' \<noteq> JNum (fresh_id t rows))"
proof -
  let ?m = "\<lambda>rows. foldr (\<lambda>r m. max m (int_of (js_get r ''id''))) rows (0 :: int)"
  have "0 \<le> ?m rows \<and> (\<forall>r \<in> set rows. int_of (js_get r ''id'') \<le> ?m rows)" by (induction rows) auto
  then show ?thesis by (auto simp: fresh_id_def)
qed

definition account_row :: "int \<Rightarrow> string \<Rightarrow> jsval list \<Rightarrow> jsval" where
  "account_row i email roles = JObj [(''id'', JNum i), (''name'', JStr ''N''), (''email'', JStr email), (''roles'', JArr roles), (''avatar'', JStr []),
     (''is_deleted'', JNum 0), (''is_disabled'', JNum 0)]"

definition boss :: access where
  "boss = \<lparr>acc_can = (\<lambda>_ _. Inr (JObj [])), acc_token = JObj [(''attrs'', JObj [(''id'', JNum 1)])]\<rparr>"

definition nobody :: access where
  "nobody = \<lparr>acc_can = (\<lambda>_ _. Inr (JBool True)), acc_token = Null\<rparr>"

definition users_env :: "access \<Rightarrow> user_env" where
  "users_env acc = \<lparr>ue_access = acc, ue_login = login_sample, ue_hash = (\<lambda>p. Inr (CHR ''H'' # p)), ue_fresh_id = fresh_id,
     ue_defaults = (\<lambda>_. [(''is_deleted'', JNum 0), (''is_disabled'', JNum 0)]), ue_stamp = ''2026'', ue_like = (\<lambda>_ _. True), ue_order = (\<lambda>_ rows. rows),
     ue_bound = (\<lambda>_. JNaN), ue_avatar_dir = ''/data/avatars'', ue_uuid = ''u'', ue_fault = (\<lambda>_. None), ue_partial = None\<rparr>"

definition accounts0 :: "jsval list \<Rightarrow> user_sys" where
  "accounts0 rows = \<lparr>us_users = rows,
     us_permissions = [JObj [(''id'', JNum 1), (''user_id'', JNum 7), (''visibility'', JStr ''user'')]],
     us_login = login_state\<lparr>ls_auth := snd (issueTokenPair login_library login_session duo_user Undef (JObj []) (ls_auth login_state))\<rparr>,
     us_ready = True, us_avatars = Map.empty, us_log = [], us_log_id = 0\<rparr>"

definition server :: user_sys where
  "server = accounts0 [account_row 1 ''a@b'' [JStr ''admin''], account_row 7 ''c@d'' []]"

lemma sample_env: "user_env_ok (\<lambda>e. e) (users_env acc)" "mail_ok (\<lambda>e. e)"
  using fresh_id_new by (simp_all add: user_env_ok_def users_env_def login_sample_def mail_ok_def)

lemma server_ok: "accounts_ok (\<lambda>e. e) server"
proof -
  have "us_users server = [account_row 1 ''a@b'' [JStr ''admin''], account_row 7 ''c@d'' []]" by (simp add: server_def accounts0_def)
  then show ?thesis by (simp add: accounts_ok_def account_row_def)
qed

definition rename :: jsval where
  "rename = JObj [(''id'', JNum 7), (''email'', JStr '' X@Y'')]"

theorem addresses_identify_accounts_witness:
  "find_account login_sample ''x@Y '' (users (ls_auth (login_view (snd (user_update (users_env boss) rename server))))) =
     Some (session_user_of (us_users (snd (user_update (users_env boss) rename server)) ! 1))"
proof -
  let ?t = "snd (user_update (users_env boss) rename server)"
  have "user_step (\<lambda>e. e) server ?t" by (rule user_step.update [OF sample_env(1)]) (simp add: rename_def)
  then have run: "(user_step (\<lambda>e. e))\<^sup>*\<^sup>* server ?t" by (rule r_into_rtranclp)
  have r: "us_users ?t ! 1 \<in> set (us_users ?t)" "row_live (us_users ?t ! 1)" "\<not> truthy (js_get (us_users ?t ! 1) ''is_disabled'')"
    "str_of (js_get (us_users ?t ! 1) ''email'') = js_trim (js_lower ''x@Y '')" by code_simp+
  have "le_email login_sample = (\<lambda>e. e)" by (simp add: login_sample_def)
  from addresses_identify_accounts [OF sample_env(2) this server_ok run r] show ?thesis ..
qed

definition first_request :: jsval where
  "first_request = JObj [(''name'', JStr ''N''), (''nickname'', JStr ''n''), (''email'', JStr ''A@b''),
     (''auth'', JObj [(''type'', JStr ''password''), (''secret'', JStr ''long enough'')])]"

definition sample_routes :: route_env where
  "sample_routes = \<lparr>ur_schema = (\<lambda>_. Inr), ur_why = (\<lambda>_. ''rejected''), ur_destructive = False\<rparr>"

definition sample_post :: "jsval \<Rightarrow> user_request" where
  "sample_post body = \<lparr>uq_param = [], uq_expand = Undef, uq_query = Undef, uq_body = body, uq_files = [], uq_cookie = Undef, uq_secure = True\<rparr>"

theorem initial_setup_once_witness:
  "case post_users (users_env nobody) sample_routes False (sample_post first_request) (accounts0 []) of
     (Inl _, _) \<Rightarrow> False
   | (Inr reply, s') \<Rightarrow> (\<exists>r. filter row_live (us_users s') = [r] \<and> js_get r ''roles'' = JArr [JStr ''admin''])"
proof -
  let ?p = "post_users (users_env nobody) sample_routes False (sample_post first_request) (accounts0 [])"
  have "case ?p of (Inl _, _) \<Rightarrow> False | (Inr reply, s') \<Rightarrow> js_get (us_users s' ! 0) ''roles'' = JArr [JStr ''admin'']" by code_simp
  then obtain reply s' where c: "?p = (Inr reply, s')" "js_get (us_users s' ! 0) ''roles'' = JArr [JStr ''admin'']"
    by (auto split: prod.splits sum.splits)
  from initial_setup_once [OF c(1)] obtain r where "us_users s' = us_users (accounts0 []) @ [r]" "filter row_live (us_users s') = [r]" by auto
  with c show ?thesis by (simp add: accounts0_def)
qed

definition new_secret :: jsval where
  "new_secret = JObj [(''id'', JNum 7), (''type'', JStr ''password''), (''secret'', JStr ''new and long'')]"

theorem password_change_ends_sessions_witness:
  "fst (user_setPassword (users_env boss) new_secret server) = Inr True \<and>
   fst (refreshTokenPair login_library login_session (JStr ''r1'') (JObj []) (ls_auth (login_view (snd (user_setPassword (users_env boss) new_secret server))))) =
     Inl (AuthError ''Refresh token has been revoked'')"
proof -
  let ?s' = "snd (user_setPassword (users_env boss) new_secret server)"
  have ok: "fst (user_setPassword (users_env boss) new_secret server) = Inr True" by code_simp
  then have c: "user_setPassword (users_env boss) new_secret server = (Inr True, ?s')" by (metis prod.collapse)
  have i: "js_get new_secret ''id'' = JNum 7" by (simp add: new_secret_def)
  have bcrypt: "le_compare login_sample x h = Inr True \<longleftrightarrow> x = y" if "ue_hash (users_env boss) y = Inr h" for x y h
    using that by (auto simp: login_sample_def users_env_def)
  have "case find_session login_library (JStr ''r1'') (ls_auth (login_view ?s')) of None \<Rightarrow> False | Some r \<Rightarrow> s_user_id r = 7" by code_simp
  then obtain r where r: "find_session login_library (JStr ''r1'') (ls_auth (login_view ?s')) = Some r" "s_user_id r = 7" by (auto split: option.splits)
  from password_change_ends_sessions [OF c i bcrypt] ok r show ?thesis by blast
qed


definition picture :: avatar_file where
  "picture = \<lparr>af_size = 9, af_data = Some [CHR 0x89, CHR 0x50, CHR 0x4e, CHR 0x47, CHR 0x0d, CHR 0x0a, CHR 0x1a, CHR 0x0a, CHR 0x00]\<rparr>"

theorem avatar_roundtrip_witness:
  "(case user_uploadAvatar (users_env boss) (JNum 7) (Some picture) server of
     (Inl _, _) \<Rightarrow> False | (Inr reply, s') \<Rightarrow> js_get reply ''mime_type'' = JStr ''image/png'' \<and>
       (\<exists>path. user_getAvatarImage (users_env boss) (JNum 7) s' = Inr (path, ''image/png'') \<and> us_avatars s' path = af_data picture))"
proof -
  have "case user_uploadAvatar (users_env boss) (JNum 7) (Some picture) server of (Inl _, _) \<Rightarrow> False | (Inr reply, s') \<Rightarrow> js_get reply ''mime_type'' = JStr ''image/png''"
    by code_simp
  then obtain reply s' where u: "user_uploadAvatar (users_env boss) (JNum 7) (Some picture) server = (Inr reply, s')" "js_get reply ''mime_type'' = JStr ''image/png''"
    by (auto split: prod.splits sum.splits)
  have f: "js_get r ''avatar_value'' \<noteq> JStr (avatar_prefix (asked_id (users_env boss) (JNum 7)) @ ue_uuid (users_env boss) @ ext)" if "r \<in> set (us_users server)" for r ext
    using that by (auto simp: server_def accounts0_def account_row_def)
  have "CHR ''/'' \<notin> set (ue_uuid (users_env boss))" by (simp add: users_env_def)
  from avatar_roundtrip [OF server_ok u(1) this f] u show ?thesis by auto
qed

text \<open>The access object of the member's token.\<close>

definition member_access :: access where
  "member_access = access_view sample_verify (access_rows server) users_schema (snd (access_load sample_verify (access_rows server) Null (new_access ''a-b'')))"

theorem member_confined_witness:
  "js_get (us_users (snd (user_update (users_env member_access) rename server)) ! 1) ''email'' = JStr ''x@y'' \<and>
   confined ''/data/avatars'' (JNum 7) server (snd (user_update (users_env member_access) rename server))"
proof -
  let ?a = "snd (access_load sample_verify (access_rows server) Null (new_access ''a-b''))"
  have "case fst (access_load sample_verify (access_rows server) Null (new_access ''a-b'')) of Inl _ \<Rightarrow> False | Inr td \<Rightarrow> js_get (js_get td ''attrs'') ''id'' = JNum 7"
    by code_simp
  then obtain td where td: "access_load sample_verify (access_rows server) Null (new_access ''a-b'') = (Inr td, ?a)" "js_get (js_get td ''attrs'') ''id'' = JNum 7"
    by (cases "access_load sample_verify (access_rows server) Null (new_access ''a-b'')") (auto split: sum.splits)
  have "member member_access (JNum 7)"
    unfolding member_access_def by (rule member_of_account [OF td(1) _ td(2)]) (auto simp: access_rows_def server_def accounts0_def account_row_def)
  then have "member_step ''/data/avatars'' (JNum 7) server (snd (user_update (users_env member_access) rename server))"
    by (intro member_step.update) (simp_all add: users_env_def rename_def)
  then have run: "(member_step ''/data/avatars'' (JNum 7))\<^sup>*\<^sup>* server (snd (user_update (users_env member_access) rename server))" by (rule r_into_rtranclp)
  have "integer_ids server" by code_simp
  moreover have "js_get (us_users (snd (user_update (users_env member_access) rename server)) ! 1) ''email'' = JStr ''x@y''" by code_simp
  ultimately show ?thesis using member_confined [OF run] by blast
qed

end
