(* ===== verification/Spec2Isabelle.thy ===== *)
theory Spec2Isabelle
  imports Auth_Session_Props Host_Domain_Claims Firewall_Render Incident_Claims Monitor_Claims
    Stream_Claims Host_Rollback Oidc_Claims Users_Claims
begin

text \<open>
  \<^bold>\<open>ShieldPM: a model of the security, configuration and monitoring core of the backend.\<close>

  ShieldPM manages an Nginx reverse proxy. Its backend (\<^verbatim>\<open>src/backend\<close>, Node.js) keeps hosts, users and settings in a relational
  database, validates every change, renders the Nginx configuration, and watches the hosts. The development models the
  parts that carry the program's own logic.

  \<^bold>\<open>Parts and how they interact.\<close>
  \<^item> A request carries a token; \<^verbatim>\<open>lib/access.js\<close> turns it into a permission. The services below ask it first.
    Browser sessions (\<^verbatim>\<open>internal/auth-session-service.js\<close>) issue the tokens and rotate the refresh tokens behind them.
  \<^item> A session begins with a login: the password (\<^verbatim>\<open>internal/token.js\<close>), limited in its failures, then a second factor where the account has
    one (\<^verbatim>\<open>internal/2fa-service.js\<close>), or an identity provider (\<^verbatim>\<open>routes/oidc.js\<close>). The handlers of \<^verbatim>\<open>routes/tokens.js\<close> compose these parts
    with the session service.
  \<^item> Accounts are created, renamed, blocked and deleted by \<^verbatim>\<open>internal/user.js\<close> behind \<^verbatim>\<open>routes/users.js\<close>, the first one during the setup. The login
    finds its account in the same table, the permission schemas read its roles, and a new password ends its sessions.
  \<^item> Host names are claimed in a registry (\<^verbatim>\<open>lib/host-domain-claims.js\<close>) inside the transaction that writes a host, and the
    traffic settings of a written host are validated (\<^verbatim>\<open>lib/host-traffic-policy.js\<close>).
  \<^item> The services of 404 hosts, redirections and streams (\<^verbatim>\<open>internal/dead-host.js\<close>, \<^verbatim>\<open>internal/redirection-host.js\<close>, \<^verbatim>\<open>internal/stream.js\<close>)
    check the caller, the references and the names or ports, write the row in the transaction that claims its names, and hand it to
    the configuration engine (\<^verbatim>\<open>internal/nginx.js\<close>), which backs up the old file, installs the new one, has Nginx check and load it, and
    puts everything back when a step fails. What they return and record is stripped of credentials (\<^verbatim>\<open>lib/host-response.js\<close>).
  \<^item> The IP firewall validates policies and lists, downloads lists from public servers only, renders the rule tables of a
    host and summarises them for previews (\<^verbatim>\<open>lib/firewall-*.js\<close>).
  \<^item> The health monitor (\<^verbatim>\<open>internal/proxy-host-monitor.js\<close>) probes the upstream of each host, stores the result and hands every
    accepted check to the incident centre (\<^verbatim>\<open>internal/incidents.js\<close>), which opens and closes incidents and
    fills an outbox that a worker delivers (\<^verbatim>\<open>lib/notification-http.js\<close>). Changes are recorded in the audit log.

  \<^bold>\<open>Theories and sources.\<close>
  \<^item> \<^verbatim>\<open>Prelude\<close>, \<^verbatim>\<open>JS_Value\<close>, \<^verbatim>\<open>Errors\<close>, \<^verbatim>\<open>Store\<close>: results, strings and numbers of the language, JSON values, \<^verbatim>\<open>lib/error.js\<close>, tables, and the
    contracts of the library: \<^verbatim>\<open>keyed_table\<close> (patches keep the key and the sequence is ahead of it), \<^verbatim>\<open>normalizer\<close>
    (a validator whose results are its fixed points), \<^verbatim>\<open>invariant_system\<close> and \<^verbatim>\<open>stable_system\<close> (transition systems).
  \<^item> \<^verbatim>\<open>Access\<close>: \<^verbatim>\<open>lib/access.js\<close>, \<^verbatim>\<open>lib/token-scope.js\<close>, \<^verbatim>\<open>models/token.js\<close>.
  \<^item> \<^verbatim>\<open>Auth_Session\<close>: the session service, its clean-up job, the device list and the logout route. \<^verbatim>\<open>Auth_Session_Inv\<close> has the
    transition system with interleaved refreshes and its invariant, \<^verbatim>\<open>Auth_Session_Props\<close> the guarantees.
  \<^item> \<^verbatim>\<open>Two_Factor\<close>, \<^verbatim>\<open>Factor_Challenges\<close>: every operation of \<^verbatim>\<open>internal/2fa-service.js\<close> over the tables of \<^verbatim>\<open>models/user-2fa.js\<close> and
    \<^verbatim>\<open>models/user-2fa-backup-codes.js\<close>. \<^verbatim>\<open>Factor_Tables\<close> shows each operation to be a sequence of writes and what a write keeps;
    \<^verbatim>\<open>Factor_Claims\<close> has the transition system of interleaved requests and the guarantees.
  \<^item> \<^verbatim>\<open>Login\<close>: \<^verbatim>\<open>internal/token.js\<close>, \<^verbatim>\<open>lib/auth-cookies.js\<close> and the counters of failed logins; \<^verbatim>\<open>Login_Routes\<close>: the handlers of \<^verbatim>\<open>routes/tokens.js\<close>
    and \<^verbatim>\<open>lib/validator/api.js\<close>; \<^verbatim>\<open>Oidc\<close>: \<^verbatim>\<open>routes/oidc.js\<close>. \<^verbatim>\<open>Login_Throttle\<close> has the invariant of the counters, \<^verbatim>\<open>Login_Claims\<close> and
    \<^verbatim>\<open>Oidc_Claims\<close> the guarantees.
  \<^item> \<^verbatim>\<open>Users\<close>: \<^verbatim>\<open>internal/user.js\<close>, \<^verbatim>\<open>models/user.js\<close>, \<^verbatim>\<open>models/user_permission.js\<close>, \<^verbatim>\<open>lib/auth-password.js\<close> and the first account of \<^verbatim>\<open>setup.js\<close>;
    \<^verbatim>\<open>User_Routes\<close>: \<^verbatim>\<open>routes/users.js\<close>. \<^verbatim>\<open>Users_Props\<close> has the runs of each operation, \<^verbatim>\<open>Users_Inv\<close> the transition system and the invariant of
    addresses, \<^verbatim>\<open>User_Members\<close> the permission schemas \<^verbatim>\<open>lib/access/users-*.json\<close> and the steps of an account without privileges,
    \<^verbatim>\<open>Users_Claims\<close> the guarantees.
  \<^item> \<^verbatim>\<open>Host_Domain_Claims\<close>: the registry, its abstract specification \<^verbatim>\<open>name_registry\<close> and the refinement.
  \<^item> \<^verbatim>\<open>Firewall_Addresses\<close>, \<^verbatim>\<open>Firewall_Policy\<close>, \<^verbatim>\<open>Firewall_Policy_Props\<close>, \<^verbatim>\<open>Ip_Lib_Instance\<close>: addresses, lists and policies, their normal forms,
    and an executable instance of the address library that meets its contract.
  \<^item> \<^verbatim>\<open>Firewall_Preview\<close>, \<^verbatim>\<open>Firewall_Render\<close>: the streaming summary of a configuration and the rule tables.
  \<^item> \<^verbatim>\<open>Outbound_Requests\<close>: list downloads and webhook delivery. \<^verbatim>\<open>Audit_Log\<close>: \<^verbatim>\<open>internal/audit-log.js\<close>.
  \<^item> \<^verbatim>\<open>Monitor_Data\<close>, \<^verbatim>\<open>Incidents\<close>, \<^verbatim>\<open>Incident_Service\<close>: time, rows, and every operation of the incident centre; \<^verbatim>\<open>Incident_Props\<close> its
    transition system, \<^verbatim>\<open>Incident_Days\<close> the accounting of observed time, \<^verbatim>\<open>Incident_Outbox\<close> the invariant of incidents and outbox,
    \<^verbatim>\<open>Incident_Claims\<close> the guarantees.
  \<^item> \<^verbatim>\<open>Traffic_Policy\<close>, \<^verbatim>\<open>Traffic_Policy_Props\<close>: upstream pools and cache policies.
  \<^item> \<^verbatim>\<open>Monitor_Probes\<close>, \<^verbatim>\<open>Monitor_Alerts\<close>, \<^verbatim>\<open>Monitor_Service\<close>: settings, probes, alerts and the service of the health monitor;
    \<^verbatim>\<open>Monitor_Probe_Props\<close> the measurements, \<^verbatim>\<open>Monitor_Props\<close> the transition system, \<^verbatim>\<open>Monitor_Claims\<close> the guarantees.

  \<^item> \<^verbatim>\<open>Host_Meta\<close>, \<^verbatim>\<open>Host_Checks\<close>: \<^verbatim>\<open>lib/retired-host-metadata.js\<close>, \<^verbatim>\<open>lib/host-response.js\<close>, \<^verbatim>\<open>lib/host-expansions.js\<close>,
    \<^verbatim>\<open>lib/trusted-host-policies.js\<close> and \<^verbatim>\<open>internal/host.js\<close>. \<^verbatim>\<open>Host_Rollback\<close>: \<^verbatim>\<open>lib/host-rollback.js\<close> over a heap of error objects.
  \<^item> \<^verbatim>\<open>Nginx_Config\<close>: the configuration engine over files, tables and the loaded configuration; \<^verbatim>\<open>Nginx_Config_Props\<close> the effect of each step,
    \<^verbatim>\<open>Nginx_Claims\<close> single installations and batches, \<^verbatim>\<open>Nginx_Live\<close> the transition system of the engine.
  \<^item> \<^verbatim>\<open>Host_Service\<close>: what the three host services share; \<^verbatim>\<open>Dead_Hosts\<close>, \<^verbatim>\<open>Redirection_Hosts\<close>, \<^verbatim>\<open>Streams\<close>: the services.
    \<^verbatim>\<open>Host_Service_Props\<close> has the contract \<^verbatim>\<open>listener_change\<close> of a change that takes a listener down and its two implementations,
    \<^verbatim>\<open>Host_Lifecycle\<close> deletion, disabling and foreign hosts, \<^verbatim>\<open>Host_Privacy\<close> what leaves a service, \<^verbatim>\<open>Stream_Ports\<close> and \<^verbatim>\<open>Stream_Claims\<close> the ports.

  \<^bold>\<open>Conventions.\<close> A table is the list of its rows in a record with the sequence of its identifiers. An operation that can fail returns a
  value of the sum type \<^verbatim>\<open>err + 'a\<close>, with the source's error class and message; a transaction that fails
  leaves the state as it was. Times are integers, in milliseconds unless a theory says otherwise. Strings are lists of code units below 256.
  Concurrency is a step relation: the phases of an operation between which the code awaits are separate steps, and the
  invariants are proved over every interleaving.

  \<^bold>\<open>Parameters.\<close> Code outside the repository is an argument of the definitions that use it: the JWT library, the schema validator, SHA-256,
  the random source, the address library \<^verbatim>\<open>ipaddr.js\<close> (with the hypotheses \<^verbatim>\<open>ip_lib_ok\<close>, which the instance \<^verbatim>\<open>ip0\<close> meets), URL parsing, DNS, sockets
  and HTTP (as lists of events), X.509 parsing, and the encryption of stored secrets; for a login, bcrypt, the
  one-time password, WebAuthn, Duo and OpenID Connect libraries. For the configuration engine: the rendered template, the verdict of the check, the outcome of a reload, and
  the failures of files and database, each a function of the step at which it happens, so that a statement holds for every pattern of failures.

  \<^bold>\<open>What is shown.\<close>
  \<^item> Sessions: a refresh token is good for one rotation, a replay ends its family, a family has at most one live token in every
    reachable state, and retention and the device list do what they say.
  \<^item> Logins: in any interleaving a time step, a recovery code and a challenge are accepted once; recovery codes work once each; a login through
    Duo is bound to its browser and state; at most five failures of a login fall into fifteen minutes (for requests handled one after the other);
    no route adds a session without every factor of the account; a pending token opens nothing else; and the identity provider's token reaches
    the claim exactly when no separator of the cookie starts inside it, which is a defect for the tokens where one does.
  \<^item> Accounts: an address means at most one live account in every reachable state; the setup cannot be raced; an account that is no
    administrator can change only itself and never its rights; a new password ends the sessions of its account; a deleted account is locked out
    in every later state; and an uploaded avatar is served as it was uploaded.
  \<^item> Access: a granted permission belongs to a verified token of an active account; every refusal is the same error.
  \<^item> Claims: no name comes to belong to a second host; a committed claim is the update of an ownership map.
  \<^item> Firewall: validated objects are normal forms, the compact and the streamed preview agree with the full one and reveal nothing of the tables,
    every rule number of a rendered table resolves, and a download reaches public addresses over HTTPS only.
  \<^item> Incidents: at most one open incident per host, one announcement per target, time credited exactly, bounded attempts, and
    deliveries only on behalf of the owner.
  \<^item> Monitor: outdated measurements are never stored, resources stay bounded, checks end and free their slot, alerts are paced and complete, the verdict on a
    pool is justified, and the certificate check decides the intended language.
  \<^item> Configurations: an installation, a batch, a deletion and a disabling happen as a whole or not at all while renames, removals and copies
    succeed, whatever else fails; Nginx only ever runs checked configurations; a host with retired filters is off before it is rendered.
  \<^item> Host services: no caller changes a host it cannot see, no response or audit entry carries credentials, and no two streams share a port.
    A failed change is reported as itself, or with a diagnostic of fixed identifiers when its compensation fails too.
  \<^item> Traffic settings: accepted pools are normal forms and unrelated metadata survives a write.

  \<^bold>\<open>Bounds and termination.\<close> No definition uses fuel. Loops that are not structural are functions with a measure: the days an interval crosses
  (its length), the certificates of a bundle (the rest of the text), the attempts of a commit (three minus the attempts so far),
  the batches of the retention job and the errors a summary visits (eight). A probe whose events never settle it has no result; with a timer among its events it always has one.

  \<^bold>\<open>Not modelled.\<close> The services that drive other programs (certbot, WireGuard, Tor, Docker, git), the rendering of Liquid templates and the data
  prepared for it, the queue that serialises configuration changes (operations run one after the other here), the stapling helpers of a reload, the
  proxy-host and access-list services, GitOps and backups, analytics, the assistant, the other HTTP routes, the rate limiters in memory, the
  migrations and the user interface. Database failures other than the ones the code handles, and code units above 255, are outside the model.
\<close>

end
